(* ===== verification/BKE_Prelude.thy ===== *)
theory BKE_Prelude imports
  Complex_Main "HOL-Library.List_Lexorder" "HOL-Library.Char_ord" "HOL-Library.Multiset"
  "HOL-Library.AList"
begin

text \<open>
  The prelude of the development: the collections of simplification rules the components
  share, character classes and string tests (the regular expressions of the source are
  anchored character-class tests, so each one becomes a bool-valued function), decimal
  printing of integers, and a few list facts.
\<close>

named_theorems js_simps \<open>rules that evaluate reads of JavaScript values\<close>
named_theorems gate_simps \<open>rules that expose the fields of a gate's result\<close>

section \<open>Characters\<close>

text \<open>
  A JavaScript string is a list of UTF-16 code units. The model keeps the code units below
  256, one \<^typ>\<open>char\<close> each.
\<close>

definition code :: "char \<Rightarrow> nat" where
  "code c = of_char c"

definition is_digit :: "char \<Rightarrow> bool" where
  "is_digit c \<longleftrightarrow> 48 \<le> code c \<and> code c \<le> 57"

definition is_lower :: "char \<Rightarrow> bool" where
  "is_lower c \<longleftrightarrow> 97 \<le> code c \<and> code c \<le> 122"

definition is_upper :: "char \<Rightarrow> bool" where
  "is_upper c \<longleftrightarrow> 65 \<le> code c \<and> code c \<le> 90"

definition is_lower_alnum :: "char \<Rightarrow> bool" where
  "is_lower_alnum c \<longleftrightarrow> is_lower c \<or> is_digit c"

definition is_alnum :: "char \<Rightarrow> bool" where
  "is_alnum c \<longleftrightarrow> is_lower c \<or> is_upper c \<or> is_digit c"

definition is_hex_lower :: "char \<Rightarrow> bool" where
  "is_hex_lower c \<longleftrightarrow> is_digit c \<or> (97 \<le> code c \<and> code c \<le> 102)"

definition is_hex :: "char \<Rightarrow> bool" where
  "is_hex c \<longleftrightarrow> is_hex_lower c \<or> (65 \<le> code c \<and> code c \<le> 70)"

lemmas char_class_defs =
  is_digit_def is_lower_def is_upper_def is_lower_alnum_def is_alnum_def
  is_hex_lower_def is_hex_def code_def

text \<open>Code equations on the bits of a character, which evaluate faster than its number.\<close>

lemma is_digit_Char [code]: "is_digit (Char b0 b1 b2 b3 b4 b5 b6 b7) \<longleftrightarrow> \<not> b7 \<and> \<not> b6 \<and> b5 \<and> b4 \<and> \<not> (b3 \<and> (b2 \<or> b1))"
  unfolding is_digit_def code_def of_char_Char
  by (cases b0; cases b1; cases b2; cases b3; cases b4; cases b5; cases b6; cases b7) simp_all

lemma is_lower_Char [code]: "is_lower (Char b0 b1 b2 b3 b4 b5 b6 b7) \<longleftrightarrow> \<not> b7 \<and> b6 \<and> b5 \<and> (b0 \<or> b1 \<or> b2 \<or> b3 \<or> b4) \<and> \<not> (b4 \<and> b3 \<and> (b2 \<or> b1 \<and> b0))"
  unfolding is_lower_def code_def of_char_Char
  by (cases b0; cases b1; cases b2; cases b3; cases b4; cases b5; cases b6; cases b7) simp_all

lemma is_upper_Char [code]: "is_upper (Char b0 b1 b2 b3 b4 b5 b6 b7) \<longleftrightarrow> \<not> b7 \<and> b6 \<and> \<not> b5 \<and> (b0 \<or> b1 \<or> b2 \<or> b3 \<or> b4) \<and> \<not> (b4 \<and> b3 \<and> (b2 \<or> b1 \<and> b0))"
  unfolding is_upper_def code_def of_char_Char
  by (cases b0; cases b1; cases b2; cases b3; cases b4; cases b5; cases b6; cases b7) simp_all

lemma is_hex_lower_Char [code]: "is_hex_lower (Char b0 b1 b2 b3 b4 b5 b6 b7) \<longleftrightarrow>
   \<not> b7 \<and> (\<not> b6 \<and> b5 \<and> b4 \<and> \<not> (b3 \<and> (b2 \<or> b1)) \<or> b6 \<and> b5 \<and> \<not> b4 \<and> \<not> b3 \<and> (b0 \<or> b1 \<or> b2) \<and> \<not> (b0 \<and> b1 \<and> b2))"
  unfolding is_hex_lower_def is_digit_def code_def of_char_Char
  by (cases b0; cases b1; cases b2; cases b3; cases b4; cases b5; cases b6; cases b7) simp_all

text \<open>\<open>^[cls]{lo,hi}$\<close>: an anchored repetition of one character class.\<close>

definition class_rep :: "(char \<Rightarrow> bool) \<Rightarrow> nat \<Rightarrow> nat \<Rightarrow> string \<Rightarrow> bool" where
  "class_rep p lo hi s \<longleftrightarrow> lo \<le> length s \<and> length s \<le> hi \<and> list_all p s"

text \<open>\<open>^[first][rest]{0,n}$\<close>.\<close>

fun head_class_rep :: "(char \<Rightarrow> bool) \<Rightarrow> (char \<Rightarrow> bool) \<Rightarrow> nat \<Rightarrow> string \<Rightarrow> bool" where
  "head_class_rep p q n [] = False"
| "head_class_rep p q n (c # cs) = (p c \<and> length cs \<le> n \<and> list_all q cs)"

lemma class_rep_mono:
  "class_rep p lo hi s \<Longrightarrow> (\<And>c. p c \<Longrightarrow> q c) \<Longrightarrow> class_rep q lo hi s"
  by (auto simp: class_rep_def list_all_iff)

lemma head_class_rep_length: "head_class_rep p q n s \<Longrightarrow> 0 < length s \<and> length s \<le> Suc n"
  by (cases s) auto

section \<open>Strings\<close>

text \<open>\<open>toLowerCase\<close> on the code units below 256.\<close>

definition lower_char :: "char \<Rightarrow> char" where
  "lower_char c = (if is_upper c \<or> (192 \<le> code c \<and> code c \<le> 222 \<and> code c \<noteq> 215)
                   then char_of (code c + 32) else c)"

definition to_lower :: "string \<Rightarrow> string" where
  "to_lower s = map lower_char s"

definition starts_with :: "string \<Rightarrow> string \<Rightarrow> bool" where
  "starts_with s p \<longleftrightarrow> take (length p) s = p"

text \<open>\<open>s.includes(t)\<close>: some suffix of \<open>s\<close> starts with \<open>t\<close>.\<close>

fun some_suffix :: "(string \<Rightarrow> bool) \<Rightarrow> string \<Rightarrow> bool" where
  "some_suffix p [] = p []"
| "some_suffix p (c # s) = (p (c # s) \<or> some_suffix p s)"

definition contains :: "string \<Rightarrow> string \<Rightarrow> bool" where
  "contains s t = some_suffix (\<lambda>u. starts_with u t) s"

lemma starts_with_append [simp]: "starts_with (p @ s) p"
  by (simp add: starts_with_def)

lemma starts_with_same [simp]: "starts_with (p @ s) (p @ t) = starts_with s t"
  by (simp add: starts_with_def)

lemma some_suffix_iff: "some_suffix p s \<longleftrightarrow> (\<exists>u v. s = u @ v \<and> p v)"
proof (induction s)
  case Nil
  then show ?case by simp
next
  case (Cons c s)
  then show ?case by (auto simp: Cons_eq_append_conv)
qed

lemma starts_with_iff: "starts_with s p \<longleftrightarrow> (\<exists>v. s = p @ v)"
  unfolding starts_with_def by (metis append_take_drop_id append_eq_conv_conj)

lemma contains_iff: "contains s t \<longleftrightarrow> (\<exists>u v. s = u @ t @ v)"
  by (simp add: contains_def some_suffix_iff starts_with_iff) blast

text \<open>Decimal printing of an integer, as a template literal prints it below \<open>10^21\<close>.\<close>

fun digits_of :: "nat \<Rightarrow> string" where
  "digits_of n = (if n < 10 then [char_of (48 + n)]
                  else digits_of (n div 10) @ [char_of (48 + n mod 10)])"

declare digits_of.simps [simp del]

definition int_string :: "int \<Rightarrow> string" where
  "int_string n = (if n < 0 then ''-'' @ digits_of (nat (- n)) else digits_of (nat n))"

lemma is_digit_char_of: "(n::nat) < 10 \<Longrightarrow> is_digit (char_of (48 + n))"
  by (simp add: is_digit_def code_def)

lemma digits_of_digits: "list_all is_digit (digits_of n)"
proof (induction n rule: digits_of.induct)
  case (1 n)
  show ?case
  proof (cases "n < 10")
    case True
    then show ?thesis by (subst digits_of.simps) (simp add: is_digit_char_of)
  next
    case False
    then show ?thesis using 1 by (subst digits_of.simps) (simp add: is_digit_char_of)
  qed
qed

lemma digits_of_nonempty: "digits_of n \<noteq> []"
  by (subst digits_of.simps) simp

lemma digits_of_length: "n < 10 ^ Suc k \<Longrightarrow> length (digits_of n) \<le> Suc k"
proof (induction k arbitrary: n)
  case 0
  then show ?case by (subst digits_of.simps) simp
next
  case (Suc k)
  have "n div 10 < 10 ^ Suc k" using Suc.prems by (simp add: less_mult_imp_div_less)
  then have "length (digits_of (n div 10)) \<le> Suc k" by (rule Suc.IH)
  then show ?case by (subst digits_of.simps) simp
qed

lemma length_int_string: "0 \<le> n \<Longrightarrow> n < 10 ^ Suc k \<Longrightarrow> length (int_string n) \<le> Suc k"
  by (simp add: int_string_def digits_of_length nat_less_iff del: power_Suc)

lemma int_string_digits: "0 \<le> n \<Longrightarrow> list_all is_digit (int_string n)"
  by (simp add: int_string_def digits_of_digits)

text \<open>
  \<open>Number.prototype.toString\<close> of an integer that is a Number. Up to \<open>2^53\<close> it is the decimal number;
  above, the fewest decimal digits that the nearest double reads back to the same Number, padded
  with zeros below \<open>10^21\<close> and with an exponent from there on (\<open>2^60\<close> prints
  \<open>1152921504606847000\<close>, \<open>10^21\<close> prints \<open>1e+21\<close>).
\<close>

definition round_to :: "nat \<Rightarrow> nat \<Rightarrow> nat" where
  "round_to u n = (let q = n div u; r = n mod u in if u < 2 * r \<or> (2 * r = u \<and> odd q) then Suc q else q)"

fun bit_length :: "nat \<Rightarrow> nat" where
  "bit_length n = (if n = 0 then 0 else Suc (bit_length (n div 2)))"

declare bit_length.simps [simp del]

definition nearest_double :: "nat \<Rightarrow> nat" where
  "nearest_double n = (let u = 2 ^ (bit_length n - 53) in round_to u n * u)"

definition dropped_digits :: "nat \<Rightarrow> nat" where
  "dropped_digits n = hd (filter (\<lambda>e. e = 0 \<or> nearest_double (round_to (10 ^ e) n * 10 ^ e) = n)
     (rev [0..<length (digits_of n)]))"

definition exponent_text :: "nat \<Rightarrow> string" where
  "exponent_text n =
     (let e = dropped_digits n; ds = digits_of (round_to (10 ^ e) n);
          m = rev (dropWhile (\<lambda>c. c = CHR ''0'') (rev ds))
      in take 1 m @ (if length m \<le> 1 then [] else CHR ''.'' # tl m) @ ''e+'' @ digits_of (length ds - 1 + e))"

definition natural_text :: "int \<Rightarrow> string" where
  "natural_text n =
     (if n \<le> 2 ^ 53 then digits_of (nat n)
      else if n < 10 ^ 21 then
        (let e = dropped_digits (nat n) in digits_of (round_to (10 ^ e) (nat n) * 10 ^ e))
      else exponent_text (nat n))"

definition number_text :: "int \<Rightarrow> string" where
  "number_text n = (if n < 0 then ''-'' @ natural_text (- n) else natural_text n)"

lemma number_text_small: "0 \<le> n \<Longrightarrow> n \<le> 2 ^ 53 \<Longrightarrow> number_text n = int_string n"
  by (simp add: number_text_def natural_text_def int_string_def)

lemma number_text_digits: "0 \<le> n \<Longrightarrow> n < 10 ^ 21 \<Longrightarrow> list_all is_digit (number_text n)"
  by (simp add: number_text_def natural_text_def Let_def digits_of_digits)

lemma number_text_wide: "10 ^ 21 \<le> n \<Longrightarrow> CHR ''+'' \<in> set (number_text n)"
  by (simp add: number_text_def natural_text_def exponent_text_def Let_def)

section \<open>Lists\<close>

text \<open>A \<open>map\<close> whose callback may throw: the first error ends it.\<close>

fun map_result :: "('a \<Rightarrow> 'e + 'b) \<Rightarrow> 'a list \<Rightarrow> 'e + 'b list" where
  "map_result f [] = Inr []"
| "map_result f (x # xs) =
     (case f x of Inl e \<Rightarrow> Inl e
      | Inr y \<Rightarrow> (case map_result f xs of Inl e \<Rightarrow> Inl e | Inr ys \<Rightarrow> Inr (y # ys)))"

lemma map_result_Inr: "map_result f xs = Inr ys \<longleftrightarrow> map f xs = map Inr ys"
proof (induction xs arbitrary: ys)
  case Nil
  then show ?case by auto
next
  case (Cons x xs)
  show ?case
  proof (cases "map_result f xs")
    case (Inl e)
    then have "map f xs \<noteq> map Inr zs" for zs using Cons.IH [of zs] by simp
    with Inl show ?thesis by (auto simp: Cons_eq_map_conv split: sum.splits)
  next
    case (Inr zs)
    then have eq: "map f xs = map Inr zs" using Cons.IH by blast
    show ?thesis using Inr eq by (cases "f x") (auto simp: Cons_eq_map_conv inj_map_eq_map inj_def)
  qed
qed

lemma map_result_Inl: "map_result f xs = Inl e \<Longrightarrow> \<exists>x\<in>set xs. f x = Inl e"
  by (induction xs) (auto split: sum.splits)

text \<open>\<open>xs.slice(-n)\<close>: the last \<open>n\<close> elements.\<close>

definition last_n :: "nat \<Rightarrow> 'a list \<Rightarrow> 'a list" where
  "last_n n xs = drop (length xs - n) xs"

lemma length_last_n [simp]: "length (last_n n xs) = min n (length xs)"
  by (simp add: last_n_def)

lemma set_last_n: "set (last_n n xs) \<subseteq> set xs"
  by (simp add: last_n_def set_drop_subset)

lemma distinct_last_n: "distinct xs \<Longrightarrow> distinct (last_n n xs)"
  by (simp add: last_n_def)

lemma last_n_snoc: "last_n (Suc n) (xs @ [x]) = last_n n xs @ [x]"
  by (simp add: last_n_def)

lemma last_n_last_n: "m \<le> n \<Longrightarrow> last_n m (last_n n xs) = last_n m xs"
  proof -
  assume "m \<le> n"
  then have "length xs - (length xs - n + m) + (length xs - n) = length xs - m" by auto
  then show ?thesis by (simp add: last_n_def)
qed

lemma sort_eq_iff_mset:
  fixes xs ys :: "'a::linorder list"
  shows "sort xs = sort ys \<longleftrightarrow> mset xs = mset ys"
  by (metis mset_sort properties_for_sort sorted_sort)

lemma find_SomeD: "List.find P xs = Some x \<Longrightarrow> x \<in> set xs \<and> P x"
  by (induction xs) (auto split: if_splits)

lemma find_NoneD: "List.find P xs = None \<Longrightarrow> x \<in> set xs \<Longrightarrow> \<not> P x"
  by (induction xs) (auto split: if_splits)

end
