(* ===== verification/JsValue.thy ===== *)
theory JsValue imports BKE_Prelude
begin

text \<open>
  The part of the JavaScript language the validators of the program use: untyped values as
  \<open>JSON.parse\<close> and structured clone produce them, property reads, truthiness, strict
  equality, \<open>String(v)\<close>, \<open>Number.isInteger\<close> and \<open>Number.isSafeInteger\<close>,
  and the exact-key test nearly every validator starts with.
\<close>

section \<open>Values\<close>

text \<open>
  A number with an integral value is \<open>JInt\<close>, a finite number without one is
  \<open>JFrac\<close>. \<open>JHole\<close> only stands as an element of an array: a missing index of a
  sparse array. Object properties are listed in insertion order.
\<close>

datatype jsval =
    JUndef
  | JNull
  | JBool bool
  | JInt int
  | JFrac rat
  | JInf bool
  | JNaN
  | JStr string
  | JArr "jsval list"
  | JObj "(string \<times> jsval) list"
  | JHole

fun is_JStr :: "jsval \<Rightarrow> bool" where
  "is_JStr (JStr _) = True"
| "is_JStr _ = False"

fun is_JBool :: "jsval \<Rightarrow> bool" where
  "is_JBool (JBool _) = True"
| "is_JBool _ = False"

fun is_JArr :: "jsval \<Rightarrow> bool" where
  "is_JArr (JArr _) = True"
| "is_JArr _ = False"

text \<open>\<open>value !== null && typeof value === "object" && !Array.isArray(value)\<close>.\<close>

fun is_object :: "jsval \<Rightarrow> bool" where
  "is_object (JObj _) = True"
| "is_object _ = False"

text \<open>\<open>typeof v === "number"\<close>, \<open>Number.isInteger\<close>, \<open>Number.isSafeInteger\<close>.\<close>

fun is_number :: "jsval \<Rightarrow> bool" where
  "is_number (JInt _) = True"
| "is_number (JFrac _) = True"
| "is_number (JInf _) = True"
| "is_number JNaN = True"
| "is_number _ = False"

fun is_integer :: "jsval \<Rightarrow> bool" where
  "is_integer (JInt _) = True"
| "is_integer _ = False"

definition max_safe :: int where
  "max_safe = 9007199254740991"

definition safe_int :: "int \<Rightarrow> bool" where
  "safe_int n \<longleftrightarrow> - max_safe \<le> n \<and> n \<le> max_safe"

fun is_safe_integer :: "jsval \<Rightarrow> bool" where
  "is_safe_integer (JInt n) = safe_int n"
| "is_safe_integer _ = False"

text \<open>Reads of a value whose type a test has just established.\<close>

fun the_int :: "jsval \<Rightarrow> int" where
  "the_int (JInt n) = n"
| "the_int _ = 0"

fun the_arr :: "jsval \<Rightarrow> jsval list" where
  "the_arr (JArr xs) = xs"
| "the_arr _ = []"

text \<open>\<open>typeof v === "string" ? v : ""\<close>.\<close>

fun str_or_empty :: "jsval \<Rightarrow> string" where
  "str_or_empty (JStr s) = s"
| "str_or_empty _ = []"

text \<open>\<open>v?.key\<close>, and \<open>v.key\<close> where \<open>v\<close> is known to be neither null nor undefined.\<close>

fun js_get :: "jsval \<Rightarrow> string \<Rightarrow> jsval" where
  "js_get (JObj kvs) k = (case map_of kvs k of Some v \<Rightarrow> v | None \<Rightarrow> JUndef)"
| "js_get _ k = JUndef"

fun js_keys :: "jsval \<Rightarrow> string list" where
  "js_keys (JObj kvs) = map fst kvs"
| "js_keys _ = []"

fun truthy :: "jsval \<Rightarrow> bool" where
  "truthy JUndef = False"
| "truthy JNull = False"
| "truthy (JBool b) = b"
| "truthy (JInt n) = (n \<noteq> 0)"
| "truthy JNaN = False"
| "truthy (JStr s) = (s \<noteq> [])"
| "truthy JHole = False"
| "truthy _ = True"

text \<open>
  \<open>a === b\<close>. Two arrays or objects that come from separate parses are never the same
  reference, so the comparison of two compound values is false.
\<close>

fun js_eq :: "jsval \<Rightarrow> jsval \<Rightarrow> bool" where
  "js_eq JUndef b = (b = JUndef)"
| "js_eq JNull b = (b = JNull)"
| "js_eq (JBool x) b = (b = JBool x)"
| "js_eq (JInt n) b = (b = JInt n)"
| "js_eq (JFrac q) b = (b = JFrac q)"
| "js_eq (JInf x) b = (b = JInf x)"
| "js_eq (JStr s) b = (b = JStr s)"
| "js_eq _ b = False"

text \<open>\<open>String(v)\<close>, which \<open>RegExp.test\<close> applies to an argument that is no string.\<close>

fun join_comma :: "string list \<Rightarrow> string" where
  "join_comma [] = []"
| "join_comma [s] = s"
| "join_comma (s # t # ss) = s @ '','' @ join_comma (t # ss)"

text \<open>
  A finite number without an integral value prints with a decimal point or an exponent;
  the model prints its numerator and denominator around a point, which no pattern of the
  source accepts either.
\<close>

fun js_string :: "jsval \<Rightarrow> string" where
  "js_string JUndef = ''undefined''"
| "js_string JNull = ''null''"
| "js_string (JBool b) = (if b then ''true'' else ''false'')"
| "js_string (JInt n) = int_string n"
| "js_string (JFrac q) = int_string (fst (quotient_of q)) @ ''.'' @ int_string (snd (quotient_of q))"
| "js_string (JInf b) = (if b then ''Infinity'' else ''-Infinity'')"
| "js_string JNaN = ''NaN''"
| "js_string (JStr s) = s"
| "js_string (JArr xs) =
     join_comma (map (\<lambda>x. if x = JUndef \<or> x = JNull \<or> x = JHole then [] else js_string x) xs)"
| "js_string (JObj kvs) = ''[object Object]''"
| "js_string JHole = ''undefined''"

section \<open>Conversion to a number\<close>

text \<open>
  \<open>Number(v)\<close>. A string is trimmed and read as a decimal literal, a hexadecimal, octal
  or binary literal, or a signed \<open>Infinity\<close>; the value is the exact one, before
  rounding to binary64.
\<close>

definition is_space :: "char \<Rightarrow> bool" where
  "is_space c \<longleftrightarrow> (9 \<le> code c \<and> code c \<le> 13) \<or> code c = 32 \<or> code c = 160"

definition js_trim :: "string \<Rightarrow> string" where
  "js_trim s = rev (dropWhile is_space (rev (dropWhile is_space s)))"

definition num_of_rat :: "rat \<Rightarrow> jsval" where
  "num_of_rat q = (if snd (quotient_of q) = 1 then JInt (fst (quotient_of q)) else JFrac q)"

definition digit_val :: "char \<Rightarrow> nat" where
  "digit_val c = (if is_digit c then code c - 48
                  else if is_lower c then code c - 87
                  else if is_upper c then code c - 55 else 99)"

definition radix_val :: "nat \<Rightarrow> string \<Rightarrow> jsval" where
  "radix_val b s = (if s \<noteq> [] \<and> list_all (\<lambda>c. digit_val c < b) s
     then JInt (int (foldl (\<lambda>n c. n * b + digit_val c) 0 s)) else JNaN)"

definition before :: "(char \<Rightarrow> bool) \<Rightarrow> string \<Rightarrow> string" where
  "before p s = takeWhile (\<lambda>c. \<not> p c) s"

definition after :: "(char \<Rightarrow> bool) \<Rightarrow> string \<Rightarrow> string option" where
  "after p s = (case dropWhile (\<lambda>c. \<not> p c) s of [] \<Rightarrow> None | _ # r \<Rightarrow> Some r)"

definition decimal_digits :: "string \<Rightarrow> nat" where
  "decimal_digits s = foldl (\<lambda>n c. n * 10 + digit_val c) 0 s"

fun signed_digits :: "string \<Rightarrow> int option" where
  "signed_digits [] = None"
| "signed_digits (c # s) =
     (if c = CHR ''-'' then (if s \<noteq> [] \<and> list_all is_digit s then Some (- int (decimal_digits s)) else None)
      else if c = CHR ''+'' then (if s \<noteq> [] \<and> list_all is_digit s then Some (int (decimal_digits s)) else None)
      else if list_all is_digit (c # s) then Some (int (decimal_digits (c # s))) else None)"

definition pow10 :: "int \<Rightarrow> rat" where
  "pow10 n = (if 0 \<le> n then 10 ^ nat n else 1 / 10 ^ nat (- n))"

definition unsigned_decimal :: "string \<Rightarrow> rat option" where
  "unsigned_decimal s =
     (let mant = before (\<lambda>c. c = CHR ''e'' \<or> c = CHR ''E'') s;
          ex = (case after (\<lambda>c. c = CHR ''e'' \<or> c = CHR ''E'') s of
                  None \<Rightarrow> Some 0 | Some r \<Rightarrow> signed_digits r);
          ip = before (\<lambda>c. c = CHR ''.'') mant;
          fp = (case after (\<lambda>c. c = CHR ''.'') mant of None \<Rightarrow> [] | Some r \<Rightarrow> r)
      in if list_all is_digit ip \<and> list_all is_digit fp \<and> ip @ fp \<noteq> []
         then (case ex of None \<Rightarrow> None
               | Some e \<Rightarrow> Some (of_nat (decimal_digits (ip @ fp)) * pow10 (e - int (length fp))))
         else None)"

definition unsigned_number :: "bool \<Rightarrow> string \<Rightarrow> jsval" where
  "unsigned_number neg s =
     (if s = ''Infinity'' then JInf (\<not> neg)
      else case unsigned_decimal s of None \<Rightarrow> JNaN
           | Some q \<Rightarrow> num_of_rat (if neg then - q else q))"

definition string_to_number :: "string \<Rightarrow> jsval" where
  "string_to_number str =
     (case js_trim str of
        [] \<Rightarrow> JInt 0
      | c # cs \<Rightarrow>
          if c = CHR ''-'' then unsigned_number True cs
          else if c = CHR ''+'' then unsigned_number False cs
          else case c # cs of
            z # x # ds \<Rightarrow>
              if z = CHR ''0'' \<and> x \<in> {CHR ''x'', CHR ''X''} then radix_val 16 ds
              else if z = CHR ''0'' \<and> x \<in> {CHR ''o'', CHR ''O''} then radix_val 8 ds
              else if z = CHR ''0'' \<and> x \<in> {CHR ''b'', CHR ''B''} then radix_val 2 ds
              else unsigned_number False (c # cs)
          | _ \<Rightarrow> unsigned_number False (c # cs))"

fun js_number :: "jsval \<Rightarrow> jsval" where
  "js_number JUndef = JNaN"
| "js_number JNull = JInt 0"
| "js_number (JBool b) = JInt (if b then 1 else 0)"
| "js_number (JInt n) = JInt n"
| "js_number (JFrac q) = JFrac q"
| "js_number (JInf b) = JInf b"
| "js_number (JStr s) = string_to_number s"
| "js_number (JArr xs) = string_to_number (js_string (JArr xs))"
| "js_number _ = JNaN"

section \<open>The exact-key test\<close>

text \<open>
  Sorted own keys equal to the sorted wanted keys. The variants of the source (sorted keys
  joined by commas, or the same number of keys and every wanted key an own property) accept
  the same objects, whose keys are distinct.
\<close>

definition exact_keys :: "jsval \<Rightarrow> string list \<Rightarrow> bool" where
  "exact_keys v wanted \<longleftrightarrow> is_object v \<and> sort (js_keys v) = sort wanted"

definition exact_own :: "jsval \<Rightarrow> string list \<Rightarrow> bool" where
  "exact_own v wanted \<longleftrightarrow> is_object v \<and> length (js_keys v) = length wanted \<and>
     list_all (\<lambda>k. k \<in> set (js_keys v)) wanted"

lemma exact_keys_exact_own:
  assumes "distinct wanted"
  shows "exact_keys v wanted \<longleftrightarrow> exact_own v wanted"
proof
  assume "exact_keys v wanted"
  then have "is_object v" and "mset (js_keys v) = mset wanted"
    by (auto simp: exact_keys_def sort_eq_iff_mset)
  then show "exact_own v wanted"
    by (auto simp: exact_own_def list_all_iff dest: mset_eq_length mset_eq_setD)
next
  assume own: "exact_own v wanted"
  then have sub: "set wanted \<subseteq> set (js_keys v)" and len: "length (js_keys v) = length wanted"
    by (auto simp: exact_own_def list_all_iff)
  have "card (set wanted) = length (js_keys v)"
    using assms len by (simp add: distinct_card)
  moreover have "card (set wanted) \<le> card (set (js_keys v))"
    using sub by (simp add: card_mono)
  ultimately have card: "card (set (js_keys v)) = length (js_keys v)"
    using card_length [of "js_keys v"] by linarith
  then have "distinct (js_keys v)" by (rule card_distinct)
  moreover have "set wanted = set (js_keys v)"
    using sub card \<open>card (set wanted) = length (js_keys v)\<close> by (simp add: card_subset_eq)
  ultimately have "mset (js_keys v) = mset wanted"
    using assms by (simp add: set_eq_iff_mset_eq_distinct)
  with own show "exact_keys v wanted"
    by (simp add: exact_keys_def exact_own_def sort_eq_iff_mset)
qed

section \<open>Facts\<close>

lemma is_JStr_iff [js_simps]: "is_JStr v \<longleftrightarrow> (\<exists>s. v = JStr s)"
  by (cases v) auto

lemma is_integer_iff [js_simps]: "is_integer v \<longleftrightarrow> (\<exists>n. v = JInt n)"
  by (cases v) auto

lemma is_safe_integer_iff [js_simps]: "is_safe_integer v \<longleftrightarrow> (\<exists>n. v = JInt n \<and> safe_int n)"
  by (cases v) auto

lemma is_object_iff [js_simps]: "is_object v \<longleftrightarrow> (\<exists>kvs. v = JObj kvs)"
  by (cases v) auto

lemma is_JArr_iff [js_simps]: "is_JArr v \<longleftrightarrow> (\<exists>xs. v = JArr xs)"
  by (cases v) auto

lemma is_JBool_iff [js_simps]: "is_JBool v \<longleftrightarrow> (\<exists>b. v = JBool b)"
  by (cases v) auto

lemma js_eq_JStr [simp]: "js_eq v (JStr s) \<longleftrightarrow> v = JStr s"
  by (cases v) auto

lemma js_eq_JInt [simp]: "js_eq v (JInt n) \<longleftrightarrow> v = JInt n"
  by (cases v) auto

lemma js_eq_JBool [simp]: "js_eq v (JBool b) \<longleftrightarrow> v = JBool b"
  by (cases v) auto

lemma js_eq_eq: "js_eq a b \<Longrightarrow> a = b"
  by (cases a) auto

lemma js_get_not_object: "\<not> is_object v \<Longrightarrow> js_get v k = JUndef"
  by (cases v) auto

lemma str_or_empty_nonempty: "str_or_empty v = s \<Longrightarrow> s \<noteq> [] \<Longrightarrow> v = JStr s"
  by (cases v) auto

lemma js_get_in_keys: "js_get v k \<noteq> JUndef \<Longrightarrow> k \<in> set (js_keys v)"
  by (cases v) (auto split: option.splits dest!: map_of_SomeD simp: rev_image_eqI)

end
