(* ===== verification/RelayProtocol.thy ===== *)
theory RelayProtocol imports JsValue
begin

text \<open>
  \<open>cloudflare-relay/src/protocol.js\<close>: the wire protocol of the relay. The validators of
  the four JSON messages (wake, register, recovery request, ack), the routing of a GitHub
  pull-request event to one worker, the normalisation of the assignments GitHub reports at a
  reconnect, and the recovery plan. The HMAC checks of the same file are in
  \<open>RelayCredentials\<close>.
\<close>

section \<open>Constants and field validators\<close>

definition PROTOCOL :: int where "PROTOCOL = 1"

definition CONTROL_REPOSITORY :: string where
  "CONTROL_REPOSITORY = ''jan2xo/bke-worker''"

definition CONTROL_REPOSITORIES :: "string list" where
  "CONTROL_REPOSITORIES = [CONTROL_REPOSITORY, ''jan2xo/bke-demo-app'']"

definition ASSIGNMENT_LABEL_PREFIX :: string where
  "ASSIGNMENT_LABEL_PREFIX = ''bke-worker:''"

definition CROSS_PR_RECOVERY_MARKER :: string where
  "CROSS_PR_RECOVERY_MARKER = ''BKE-RECOVER-CROSS-PR-WAKE''"

definition CONTINUATION_MARKER :: string where
  "CONTINUATION_MARKER = ''BKE-CONTINUATION-RESUME''"

definition MAX_WEBHOOK_BYTES :: int where "MAX_WEBHOOK_BYTES = 1024 * 1024"

definition ACK_STATES :: "string list" where
  "ACK_STATES = [''accepted'', ''deferred'', ''rejected'', ''completed'']"

definition ROUTING_ACTIONS :: "string list" where
  "ROUTING_ACTIONS = [''opened'', ''reopened'', ''labeled'', ''synchronize'', ''edited'']"

text \<open>The regular expressions \<open>WORKER_ID\<close>, \<open>SHA\<close> and \<open>DELIVERY\<close>.\<close>

definition worker_id_re :: "string \<Rightarrow> bool" where
  "worker_id_re = head_class_rep is_lower_alnum (\<lambda>c. is_lower_alnum c \<or> c = CHR ''-'') 62"

definition sha_re :: "string \<Rightarrow> bool" where
  "sha_re = class_rep is_hex_lower 40 40"

definition delivery_char :: "char \<Rightarrow> bool" where
  "delivery_char c \<longleftrightarrow> is_alnum c \<or> c \<in> {CHR ''.'', CHR ''_'', CHR '':'', CHR ''-''}"

definition delivery_re :: "string \<Rightarrow> bool" where
  "delivery_re = class_rep delivery_char 1 128"

definition reason_char :: "char \<Rightarrow> bool" where
  "reason_char c \<longleftrightarrow> is_lower_alnum c \<or> c \<in> {CHR ''.'', CHR ''_'', CHR '':'', CHR ''-''}"

definition reason_re :: "string \<Rightarrow> bool" where
  "reason_re = class_rep reason_char 1 64"

fun isValidWorkerId :: "jsval \<Rightarrow> bool" where
  "isValidWorkerId (JStr s) = worker_id_re s"
| "isValidWorkerId _ = False"

fun isValidDeliveryId :: "jsval \<Rightarrow> bool" where
  "isValidDeliveryId (JStr s) = delivery_re s"
| "isValidDeliveryId _ = False"

text \<open>\<open>CONTROL_REPOSITORIES.has(v)\<close>.\<close>

fun control_repository :: "jsval \<Rightarrow> bool" where
  "control_repository (JStr s) = (s \<in> set CONTROL_REPOSITORIES)"
| "control_repository _ = False"

text \<open>\<open>typeof v === "string" && SHA.test(v)\<close>.\<close>

fun is_sha :: "jsval \<Rightarrow> bool" where
  "is_sha (JStr s) = sha_re s"
| "is_sha _ = False"

section \<open>Wakes\<close>

text \<open>
  The wake message. Its fields \<open>protocol\<close> and \<open>type\<close> are constant, so the record keeps
  the other six; \<open>js_of_wake\<close> is the object that is stored and sent.
\<close>

record wake =
  wk_worker_id :: string
  wk_repo :: string
  wk_pr_number :: int
  wk_expected_head_sha :: string
  wk_reason :: string
  wk_delivery_id :: string

definition js_of_wake :: "wake \<Rightarrow> jsval" where
  "js_of_wake w = JObj [
     (''protocol'', JInt PROTOCOL),
     (''type'', JStr ''wake''),
     (''worker_id'', JStr (wk_worker_id w)),
     (''repo'', JStr (wk_repo w)),
     (''pr_number'', JInt (wk_pr_number w)),
     (''expected_head_sha'', JStr (wk_expected_head_sha w)),
     (''reason'', JStr (wk_reason w)),
     (''delivery_id'', JStr (wk_delivery_id w))]"

definition wake_of_js :: "jsval \<Rightarrow> wake" where
  "wake_of_js v = \<lparr>
     wk_worker_id = str_or_empty (js_get v ''worker_id''),
     wk_repo = str_or_empty (js_get v ''repo''),
     wk_pr_number = the_int (js_get v ''pr_number''),
     wk_expected_head_sha = str_or_empty (js_get v ''expected_head_sha''),
     wk_reason = str_or_empty (js_get v ''reason''),
     wk_delivery_id = str_or_empty (js_get v ''delivery_id'')\<rparr>"

definition WAKE_KEYS :: "string list" where
  "WAKE_KEYS = [''protocol'', ''type'', ''worker_id'', ''repo'', ''pr_number'',
     ''expected_head_sha'', ''reason'', ''delivery_id'']"

text \<open>The argument \<open>expectedWorkerId\<close> is \<open>null\<close> by default: \<open>None\<close>.\<close>

definition validateWake :: "jsval \<Rightarrow> string option \<Rightarrow> bool" where
  "validateWake v expected \<longleftrightarrow>
     exact_keys v WAKE_KEYS \<and>
     js_eq (js_get v ''protocol'') (JInt PROTOCOL) \<and>
     js_eq (js_get v ''type'') (JStr ''wake'') \<and>
     isValidWorkerId (js_get v ''worker_id'') \<and>
     (case expected of None \<Rightarrow> True | Some wid \<Rightarrow> js_eq (js_get v ''worker_id'') (JStr wid)) \<and>
     control_repository (js_get v ''repo'') \<and>
     is_integer (js_get v ''pr_number'') \<and> 0 < the_int (js_get v ''pr_number'') \<and>
     is_sha (js_get v ''expected_head_sha'') \<and>
     is_JStr (js_get v ''reason'') \<and> reason_re (str_or_empty (js_get v ''reason'')) \<and>
     isValidDeliveryId (js_get v ''delivery_id'')"

text \<open>What \<open>validateWake\<close> says of the typed wake.\<close>

definition wake_ok :: "string \<Rightarrow> wake \<Rightarrow> bool" where
  "wake_ok wid w \<longleftrightarrow> wk_worker_id w = wid \<and> worker_id_re wid \<and>
     wk_repo w \<in> set CONTROL_REPOSITORIES \<and> 0 < wk_pr_number w \<and>
     sha_re (wk_expected_head_sha w) \<and> reason_re (wk_reason w) \<and>
     delivery_re (wk_delivery_id w)"

section \<open>The other messages\<close>

definition validateRegister :: "jsval \<Rightarrow> string \<Rightarrow> bool" where
  "validateRegister v expected \<longleftrightarrow>
     exact_keys v [''protocol'', ''type'', ''worker_id'', ''session_id''] \<and>
     js_eq (js_get v ''protocol'') (JInt PROTOCOL) \<and>
     js_eq (js_get v ''type'') (JStr ''register'') \<and>
     js_eq (js_get v ''worker_id'') (JStr expected) \<and>
     isValidWorkerId (js_get v ''worker_id'') \<and>
     is_JStr (js_get v ''session_id'') \<and>
     1 \<le> length (str_or_empty (js_get v ''session_id'')) \<and>
     length (str_or_empty (js_get v ''session_id'')) \<le> 128"

definition validateRecoveryRequest :: "jsval \<Rightarrow> string \<Rightarrow> bool" where
  "validateRecoveryRequest v expected \<longleftrightarrow>
     exact_keys v [''protocol'', ''type'', ''worker_id''] \<and>
     js_eq (js_get v ''protocol'') (JInt PROTOCOL) \<and>
     js_eq (js_get v ''type'') (JStr ''recover'') \<and>
     js_eq (js_get v ''worker_id'') (JStr expected) \<and>
     isValidWorkerId (js_get v ''worker_id'')"

definition validateAck :: "jsval \<Rightarrow> string \<Rightarrow> bool" where
  "validateAck v expected \<longleftrightarrow>
     exact_keys v [''protocol'', ''type'', ''worker_id'', ''delivery_id'', ''state''] \<and>
     js_eq (js_get v ''protocol'') (JInt PROTOCOL) \<and>
     js_eq (js_get v ''type'') (JStr ''ack'') \<and>
     js_eq (js_get v ''worker_id'') (JStr expected) \<and>
     isValidWorkerId (js_get v ''worker_id'') \<and>
     isValidDeliveryId (js_get v ''delivery_id'') \<and>
     is_JStr (js_get v ''state'') \<and> str_or_empty (js_get v ''state'') \<in> set ACK_STATES"

section \<open>Routing a pull-request event\<close>

text \<open>
  \<open>readWorkerLabels\<close>: the names of the labels with the assignment prefix, one per
  lower-cased name. A JavaScript \<open>Map\<close> keeps the position of a key's first insertion and
  the value of its last, which is \<^const>\<open>AList.update\<close>.
\<close>

definition label_name :: "jsval \<Rightarrow> string" where
  "label_name item = str_or_empty (js_get item ''name'')"

definition has_assignment_prefix :: "string \<Rightarrow> bool" where
  "has_assignment_prefix s = starts_with (to_lower s) ASSIGNMENT_LABEL_PREFIX"

definition dedup_by_lower :: "string list \<Rightarrow> string list" where
  "dedup_by_lower labels = map snd (foldl (\<lambda>m l. AList.update (to_lower l) l m) [] labels)"

definition readWorkerLabels :: "jsval \<Rightarrow> string list" where
  "readWorkerLabels pull =
     (case js_get pull ''labels'' of
        JArr items \<Rightarrow> dedup_by_lower (filter has_assignment_prefix (map label_name items))
      | _ \<Rightarrow> [])"

definition workerIdFromLabel :: "string \<Rightarrow> string option" where
  "workerIdFromLabel label =
     (if \<not> has_assignment_prefix label then None
      else let wid = drop (length ASSIGNMENT_LABEL_PREFIX) label
           in if worker_id_re wid then Some wid else None)"

datatype routing =
    RError nat string "int option" "string list"
  | RIgnore string "int option"
  | RRoute string wake

text \<open>The comment the control plane writes into a PR body, up to its closing part. The PR number is printed in full,
  as a Number up to \<open>2^53\<close> is.\<close>

definition marker_comment :: "string \<Rightarrow> string \<Rightarrow> int \<Rightarrow> string \<Rightarrow> string" where
  "marker_comment marker wid pr sha =
     ''<!-- '' @ marker @ '' worker='' @ wid @ '' pr='' @ int_string pr @ '' head='' @ sha"

text \<open>
  \<open>continuationPattern.test(body)\<close>: the worker ID, the PR number and the head SHA hold no
  character that is special in a regular expression, so the pattern is the literal comment
  followed by 24 hexadecimal digits and the closing part.
\<close>

definition continuation_at :: "string \<Rightarrow> string \<Rightarrow> bool" where
  "continuation_at pre u \<longleftrightarrow> starts_with u pre \<and>
     (let r = drop (length pre) u in
      class_rep is_hex_lower 24 24 (take 24 r) \<and> starts_with (drop 24 r) '' -->'')"

definition continuation_matches :: "string \<Rightarrow> string \<Rightarrow> int \<Rightarrow> string \<Rightarrow> bool" where
  "continuation_matches body wid pr sha =
     some_suffix (continuation_at (marker_comment CONTINUATION_MARKER wid pr sha @ '' generation='')) body"

text \<open>
  The reason of an \<open>edited\<close> event, or the early return. \<open>priorBody\<close> is \<open>null\<close> unless
  the event carries the old body.
\<close>

definition edited_reason ::
  "string \<Rightarrow> jsval \<Rightarrow> jsval \<Rightarrow> string \<Rightarrow> int \<Rightarrow> string \<Rightarrow> routing + string" where
  "edited_reason repository payload pull wid pr sha =
     (if repository \<noteq> CONTROL_REPOSITORY then
        Inl (RIgnore ''RECOVERY_MARKER_CONTROL_REPOSITORY_ONLY'' (Some pr))
      else
        let body = str_or_empty (js_get pull ''body'');
            prior = (case js_get (js_get (js_get payload ''changes'') ''body'') ''from'' of
                       JStr s \<Rightarrow> Some s | _ \<Rightarrow> None)
        in
        if \<not> contains body CONTINUATION_MARKER \<and> \<not> contains body CROSS_PR_RECOVERY_MARKER then
          Inl (RIgnore ''NON_RECOVERY_EDIT_EVENT'' (Some pr))
        else if contains body CONTINUATION_MARKER then
          (if \<not> continuation_matches body wid pr sha then
             Inl (RError 409 ''CONTINUATION_MARKER_INVALID'' (Some pr) [])
           else if (case prior of None \<Rightarrow> True | Some p \<Rightarrow> contains p CONTINUATION_MARKER) then
             Inl (RIgnore ''CONTINUATION_MARKER_NOT_NEW'' (Some pr))
           else Inr ''github_pull_request_continuation'')
        else
          (if \<not> contains body (marker_comment CROSS_PR_RECOVERY_MARKER wid pr sha @ '' -->'') then
             Inl (RError 409 ''CROSS_PR_RECOVERY_MARKER_INVALID'' (Some pr) [])
           else if (case prior of None \<Rightarrow> True | Some p \<Rightarrow> contains p CROSS_PR_RECOVERY_MARKER) then
             Inl (RIgnore ''CROSS_PR_RECOVERY_MARKER_NOT_NEW'' (Some pr))
           else Inr ''github_pull_request_cross_pr_recovery''))"

definition routing_reason ::
  "string \<Rightarrow> string \<Rightarrow> jsval \<Rightarrow> jsval \<Rightarrow> string \<Rightarrow> string \<Rightarrow> int \<Rightarrow> string \<Rightarrow> routing + string" where
  "routing_reason action repository payload pull label wid pr sha =
     (let base = ''github_pull_request_'' @ action in
      if action = ''synchronize'' then
        (let sender = str_or_empty (js_get (js_get payload ''sender'') ''login'');
             head_repo = js_get (js_get pull ''head'') ''repo'';
             full_name = str_or_empty (js_get head_repo ''full_name'');
             owner = str_or_empty (js_get (js_get head_repo ''owner'') ''login'')
         in if sender \<noteq> [] \<and> full_name = repository \<and> owner \<noteq> [] \<and>
               to_lower sender = to_lower owner
            then Inr ''github_pull_request_self_synchronize'' else Inr base)
      else if action = ''labeled'' then
        (let added = str_or_empty (js_get (js_get payload ''label'') ''name'')
         in if to_lower added \<noteq> to_lower label
            then Inl (RIgnore ''NON_ASSIGNMENT_LABEL_EVENT'' (Some pr)) else Inr base)
      else if action = ''edited'' then edited_reason repository payload pull wid pr sha
      else Inr base)"

text \<open>\<open>prNumber\<close>: the number of the event, else of its pull request, else \<open>-1\<close>.\<close>

definition event_pr_number :: "jsval \<Rightarrow> jsval \<Rightarrow> int" where
  "event_pr_number payload pull =
     (if is_integer (js_get payload ''number'') then the_int (js_get payload ''number'')
      else if is_integer (js_get pull ''number'') then the_int (js_get pull ''number'')
      else - 1)"

definition routeGitHubPullRequest :: "jsval \<Rightarrow> jsval \<Rightarrow> routing" where
  "routeGitHubPullRequest payload deliveryId =
     (if \<not> isValidDeliveryId deliveryId then RError 400 ''GITHUB_DELIVERY_INVALID'' None []
      else if \<not> is_object payload then RError 400 ''GITHUB_PAYLOAD_INVALID'' None []
      else
      let repository = str_or_empty (js_get (js_get payload ''repository'') ''full_name'') in
      if repository \<notin> set CONTROL_REPOSITORIES then RIgnore ''NON_CONTROL_REPOSITORY'' None
      else
      let pull = js_get payload ''pull_request'' in
      if \<not> is_object pull then RError 400 ''GITHUB_PULL_REQUEST_REQUIRED'' None []
      else
      let pr = event_pr_number payload pull in
      if pr \<le> 0 then RError 400 ''GITHUB_PULL_REQUEST_NUMBER_REQUIRED'' None []
      else
      let labels = readWorkerLabels pull in
      if 1 < length labels then RError 409 ''AMBIGUOUS_PR_ASSIGNMENT'' (Some pr) labels
      else
      case labels of [] \<Rightarrow> RIgnore ''UNASSIGNED_PULL_REQUEST'' (Some pr)
      | label # _ \<Rightarrow>
      (case workerIdFromLabel label of None \<Rightarrow> RError 409 ''WORKER_ID_INVALID'' (Some pr) []
      | Some wid \<Rightarrow>
      if \<not> js_eq (js_get pull ''state'') (JStr ''open'') then
        RIgnore ''PULL_REQUEST_NOT_OPEN'' (Some pr)
      else
      let action = str_or_empty (js_get payload ''action'') in
      if action \<notin> set ROUTING_ACTIONS then
        RIgnore ''PULL_REQUEST_EVENT_NOT_ROUTING_TRIGGER'' (Some pr)
      else
      let sha = str_or_empty (js_get (js_get pull ''head'') ''sha'') in
      if \<not> sha_re sha then RError 400 ''GITHUB_PULL_REQUEST_HEAD_INVALID'' None []
      else
      (case routing_reason action repository payload pull label wid pr sha of
        Inl early \<Rightarrow> early
      | Inr reason \<Rightarrow> RRoute wid \<lparr>
          wk_worker_id = wid, wk_repo = repository, wk_pr_number = pr,
          wk_expected_head_sha = sha, wk_reason = reason,
          wk_delivery_id = str_or_empty deliveryId\<rparr>)))"

section \<open>Reconnect recovery\<close>

record assignment =
  as_workerId :: string
  as_number :: int
  as_headRef :: string
  as_headSha :: string

text \<open>
  \<open>Number.isInteger(Number(item.number))\<close>. An item that is no object has no property
  \<open>number\<close>.
\<close>

definition item_number :: "jsval \<Rightarrow> jsval" where
  "item_number item = js_number (js_get item ''number'')"

definition issue_candidate :: "string \<Rightarrow> jsval \<Rightarrow> bool" where
  "issue_candidate assignedLabel item \<longleftrightarrow>
     truthy item \<and> truthy (js_get item ''pull_request'') \<and>
     js_eq (js_get item ''state'') (JStr ''open'') \<and>
     is_integer (item_number item) \<and> 0 < the_int (item_number item) \<and>
     is_JArr (js_get item ''labels'') \<and>
     list_ex (\<lambda>l. to_lower (let n = js_get l ''name'' in if truthy n then js_string n else []) = assignedLabel)
       (the_arr (js_get item ''labels''))"

text \<open>The last pull request with a number wins, as in the constructor of a \<open>Map\<close>.\<close>

definition pull_by_number :: "jsval list \<Rightarrow> int \<Rightarrow> jsval option" where
  "pull_by_number pulls n =
     map_of (rev (map (\<lambda>p. (the_int (item_number p), p))
       (filter (\<lambda>p. truthy p \<and> is_integer (item_number p)) pulls))) n"

definition recovery_assignment ::
  "jsval list \<Rightarrow> string \<Rightarrow> int \<Rightarrow> string + assignment option" where
  "recovery_assignment pulls wid n =
     (case pull_by_number pulls n of
        None \<Rightarrow> Inl (''RECOVERY_ASSIGNMENT_DETAIL_MISSING:'' @ number_text n)
      | Some pull \<Rightarrow>
          if js_eq (js_get pull ''state'') (JStr ''closed'') then Inr None
          else if \<not> js_eq (js_get pull ''state'') (JStr ''open'') then
            Inl (''RECOVERY_ASSIGNMENT_STATE_INVALID:'' @ number_text n)
          else
            let ref = str_or_empty (js_get (js_get pull ''head'') ''ref'');
                sha = str_or_empty (js_get (js_get pull ''head'') ''sha'')
            in if ref = [] \<or> \<not> sha_re sha then
                 Inl (''RECOVERY_ASSIGNMENT_HEAD_INVALID:'' @ number_text n)
               else Inr (Some \<lparr>as_workerId = wid, as_number = n, as_headRef = ref, as_headSha = sha\<rparr>))"

definition normalizeRecoveryAssignments ::
  "jsval \<Rightarrow> jsval \<Rightarrow> string \<Rightarrow> string + assignment list" where
  "normalizeRecoveryAssignments issues pulls wid =
     (if \<not> is_JArr issues \<or> \<not> is_JArr pulls \<or> \<not> worker_id_re wid then
        Inl ''RECOVERY_ASSIGNMENT_PAYLOAD_INVALID''
      else
        let assignedLabel = to_lower (ASSIGNMENT_LABEL_PREFIX @ wid);
            numbers = map (\<lambda>i. the_int (item_number i)) (filter (issue_candidate assignedLabel) (the_arr issues))
        in case map_result (recovery_assignment (the_arr pulls) wid) numbers of
             Inl e \<Rightarrow> Inl e
           | Inr os \<Rightarrow> Inr (List.map_filter id os))"

datatype phase = Queued | Sent | Deferred | Accepted | RecoveryRequired

record active_wake =
  aw_wake :: wake
  aw_phase :: phase

datatype plan =
    PlanConflict
  | PlanWaiting
  | PlanPreserved assignment phase string
  | PlanConverged assignment wake
  | PlanRecovered assignment wake

definition recovery_wake :: "assignment \<Rightarrow> wake" where
  "recovery_wake a = \<lparr>
     wk_worker_id = as_workerId a, wk_repo = CONTROL_REPOSITORY, wk_pr_number = as_number a,
     wk_expected_head_sha = as_headSha a, wk_reason = ''github_pull_request_reconnect_recovery'',
     wk_delivery_id = ''recovery-'' @ as_workerId a @ ''-'' @ number_text (as_number a) @ ''-'' @ as_headSha a\<rparr>"

definition planRecovery :: "assignment list \<Rightarrow> active_wake option \<Rightarrow> plan" where
  "planRecovery assignments active =
     (if 1 < length assignments then PlanConflict
      else case assignments of [] \<Rightarrow> PlanWaiting
      | a # _ \<Rightarrow>
      let same_pr = (case active of None \<Rightarrow> False | Some x \<Rightarrow> wk_pr_number (aw_wake x) = as_number a);
          same_head = (case active of None \<Rightarrow> False
                       | Some x \<Rightarrow> same_pr \<and> wk_expected_head_sha (aw_wake x) = as_headSha a)
      in case active of
           None \<Rightarrow> PlanRecovered a (recovery_wake a)
         | Some x \<Rightarrow>
             if same_head \<and> aw_phase x \<noteq> Queued then
               PlanPreserved a (aw_phase x) (wk_delivery_id (aw_wake x))
             else if same_pr \<and> aw_phase x \<noteq> Queued then PlanConverged a (recovery_wake a)
             else PlanRecovered a (recovery_wake a))"

section \<open>Facts\<close>

lemma isValidWorkerId_iff [js_simps]: "isValidWorkerId v \<longleftrightarrow> (\<exists>s. v = JStr s \<and> worker_id_re s)"
  by (cases v) auto

lemma isValidDeliveryId_iff [js_simps]: "isValidDeliveryId v \<longleftrightarrow> (\<exists>s. v = JStr s \<and> delivery_re s)"
  by (cases v) auto

lemma control_repository_iff [js_simps]:
  "control_repository v \<longleftrightarrow> (\<exists>s. v = JStr s \<and> s \<in> set CONTROL_REPOSITORIES)"
  by (cases v) auto

lemma is_sha_iff [js_simps]: "is_sha v \<longleftrightarrow> (\<exists>s. v = JStr s \<and> sha_re s)"
  by (cases v) auto

subsection \<open>The wake codec\<close>

lemma wake_of_js_of_wake [simp]: "wake_of_js (js_of_wake w) = w"
  by (simp add: wake_of_js_def js_of_wake_def)

lemma js_of_wake_keys [simp]: "js_keys (js_of_wake w) = WAKE_KEYS"
  by (simp add: js_of_wake_def WAKE_KEYS_def)

lemma exact_keys_js_of_wake [simp]: "exact_keys (js_of_wake w) WAKE_KEYS"
  by (simp add: exact_keys_def) (simp add: js_of_wake_def)

lemma js_get_js_of_wake [simp]:
  "js_get (js_of_wake w) ''protocol'' = JInt PROTOCOL"
  "js_get (js_of_wake w) ''type'' = JStr ''wake''"
  "js_get (js_of_wake w) ''worker_id'' = JStr (wk_worker_id w)"
  "js_get (js_of_wake w) ''repo'' = JStr (wk_repo w)"
  "js_get (js_of_wake w) ''pr_number'' = JInt (wk_pr_number w)"
  "js_get (js_of_wake w) ''expected_head_sha'' = JStr (wk_expected_head_sha w)"
  "js_get (js_of_wake w) ''reason'' = JStr (wk_reason w)"
  "js_get (js_of_wake w) ''delivery_id'' = JStr (wk_delivery_id w)"
  by (simp_all add: js_of_wake_def)

lemma validateWake_js_of_wake [simp]: "validateWake (js_of_wake w) (Some wid) \<longleftrightarrow> wake_ok wid w"
  by (auto simp: validateWake_def wake_ok_def)

lemma validateWake_fields:
  assumes "validateWake v expected"
  obtains wid repo pr sha r d where
    "js_get v ''worker_id'' = JStr wid" "worker_id_re wid"
    "js_get v ''repo'' = JStr repo" "repo \<in> set CONTROL_REPOSITORIES"
    "js_get v ''pr_number'' = JInt pr" "0 < pr"
    "js_get v ''expected_head_sha'' = JStr sha" "sha_re sha"
    "js_get v ''reason'' = JStr r" "reason_re r"
    "js_get v ''delivery_id'' = JStr d" "delivery_re d"
  using assms unfolding validateWake_def
  by (elim conjE) (auto simp: js_simps)

lemma validateWake_wake_ok:
  assumes "validateWake v (Some wid)"
  shows "wake_ok wid (wake_of_js v)"
proof -
  have "js_get v ''worker_id'' = JStr wid" using assms by (simp add: validateWake_def)
  then show ?thesis
    by (rule_tac validateWake_fields [OF assms]) (simp add: wake_ok_def wake_of_js_def)
qed

text \<open>A validated message holds, up to the order of its keys, the fields of its typed wake.\<close>

lemma validateWake_js_get:
  assumes "validateWake v expected" and "k \<in> set WAKE_KEYS"
  shows "js_get v k = js_get (js_of_wake (wake_of_js v)) k"
proof -
  have "js_get v ''protocol'' = JInt PROTOCOL" and "js_get v ''type'' = JStr ''wake''"
    using assms(1) by (simp_all add: validateWake_def)
  with assms(2) show ?thesis
    by (rule_tac validateWake_fields [OF assms(1)]) (auto simp: WAKE_KEYS_def wake_of_js_def)
qed

subsection \<open>Routing\<close>

lemma workerIdFromLabel_Some:
  assumes "workerIdFromLabel label = Some wid"
  shows "worker_id_re wid" and "wid = drop (length ASSIGNMENT_LABEL_PREFIX) label"
    and "has_assignment_prefix label"
  using assms by (auto simp: workerIdFromLabel_def Let_def split: if_splits)

lemma edited_reason_Inr:
  "edited_reason repository payload pull wid pr sha = Inr r \<Longrightarrow>
   r \<in> {''github_pull_request_continuation'', ''github_pull_request_cross_pr_recovery''}"
  by (auto simp: edited_reason_def Let_def split: if_splits)

lemma edited_reason_not_route:
  "edited_reason repository payload pull wid pr sha \<noteq> Inl (RRoute v w)"
  by (auto simp: edited_reason_def Let_def split: if_splits)

lemma routing_reason_Inr:
  assumes "routing_reason action repository payload pull label wid pr sha = Inr r"
  shows "r = ''github_pull_request_'' @ action \<or>
     r \<in> {''github_pull_request_self_synchronize'', ''github_pull_request_continuation'',
          ''github_pull_request_cross_pr_recovery''}"
  using assms
  by (auto simp: routing_reason_def Let_def split: if_splits dest: edited_reason_Inr)

lemma routing_reason_not_route:
  "routing_reason action repository payload pull label wid pr sha \<noteq> Inl (RRoute v w)"
  by (auto simp: routing_reason_def Let_def edited_reason_not_route split: if_splits)

lemma fixed_reasons:
  "reason_re ''github_pull_request_self_synchronize''"
  "reason_re ''github_pull_request_continuation''"
  "reason_re ''github_pull_request_cross_pr_recovery''"
  "reason_re ''github_pull_request_reconnect_recovery''"
  by code_simp+

lemma action_reasons:
  "list_all (\<lambda>a. reason_re (''github_pull_request_'' @ a)) ROUTING_ACTIONS"
  by code_simp

lemma routing_reason_ok:
  assumes "routing_reason action repository payload pull label wid pr sha = Inr r"
    and "action \<in> set ROUTING_ACTIONS"
  shows "reason_re r"
  using routing_reason_Inr [OF assms(1)] assms(2) action_reasons fixed_reasons
  by (auto simp: list_all_iff)

text \<open>Everything a routed event has passed.\<close>

lemma route_RRouteD:
  assumes "routeGitHubPullRequest payload d = RRoute wid w"
  obtains label rest where
    "isValidDeliveryId d" "d = JStr (wk_delivery_id w)"
    "is_object payload" "is_object (js_get payload ''pull_request'')"
    "wk_repo w \<in> set CONTROL_REPOSITORIES"
    "js_get (js_get payload ''repository'') ''full_name'' = JStr (wk_repo w)"
    "0 < wk_pr_number w"
    "readWorkerLabels (js_get payload ''pull_request'') = [label]"
    "workerIdFromLabel label = Some wid" "wk_worker_id w = wid"
    "js_get (js_get payload ''pull_request'') ''state'' = JStr ''open''"
    "js_get payload ''action'' = JStr rest" "rest \<in> set ROUTING_ACTIONS"
    "sha_re (wk_expected_head_sha w)"
    "routing_reason rest (wk_repo w) payload (js_get payload ''pull_request'') label wid
       (wk_pr_number w) (wk_expected_head_sha w) = Inr (wk_reason w)"
proof -
  let ?pull = "js_get payload ''pull_request''"
  let ?pr = "event_pr_number payload ?pull"
  let ?repo = "str_or_empty (js_get (js_get payload ''repository'') ''full_name'')"
  let ?action = "str_or_empty (js_get payload ''action'')"
  let ?sha = "str_or_empty (js_get (js_get ?pull ''head'') ''sha'')"
  note r = assms [unfolded routeGitHubPullRequest_def Let_def]
  from r have d: "isValidDeliveryId d" and po: "is_object payload" and
    repo: "?repo \<in> set CONTROL_REPOSITORIES" and pu: "is_object ?pull" and pr: "0 < ?pr" and
    len: "\<not> 1 < length (readWorkerLabels ?pull)"
    by (auto split: if_split_asm)
  obtain label where lab: "readWorkerLabels ?pull = [label]"
  proof (cases "readWorkerLabels ?pull")
    case Nil
    then show ?thesis using r d po repo pu pr by (simp split: if_split_asm)
  next
    case (Cons l ls)
    with len have "readWorkerLabels ?pull = [l]" by simp
    then show ?thesis by (rule that)
  qed
  obtain w0 where wl: "workerIdFromLabel label = Some w0"
    using r d po repo pu pr lab by (cases "workerIdFromLabel label") (simp_all split: if_split_asm)
  have open_: "js_get ?pull ''state'' = JStr ''open''" and act: "?action \<in> set ROUTING_ACTIONS"
    and sha: "sha_re ?sha"
    using r d po repo pu pr lab wl by (auto split: if_split_asm)
  obtain reason where re: "routing_reason ?action ?repo payload ?pull label wid ?pr ?sha = Inr reason"
    and w: "wid = w0 \<and> w = \<lparr>wk_worker_id = wid, wk_repo = ?repo, wk_pr_number = ?pr, wk_expected_head_sha = ?sha,
            wk_reason = reason, wk_delivery_id = str_or_empty d\<rparr>"
  proof (cases "routing_reason ?action ?repo payload ?pull label w0 ?pr ?sha")
    case (Inl early)
    with r d po repo pu pr lab wl open_ act sha have "early = RRoute wid w" by simp
    with Inl routing_reason_not_route show ?thesis by blast
  next
    case (Inr reason)
    have "routeGitHubPullRequest payload d =
      RRoute w0 \<lparr>wk_worker_id = w0, wk_repo = ?repo, wk_pr_number = ?pr,
         wk_expected_head_sha = ?sha, wk_reason = reason, wk_delivery_id = str_or_empty d\<rparr>"
      using d po repo pu pr lab wl open_ act sha Inr by (simp add: routeGitHubPullRequest_def Let_def)
    from trans [OF sym [OF assms] this] have eqs: "wid = w0 \<and> w = \<lparr>wk_worker_id = w0,
         wk_repo = ?repo, wk_pr_number = ?pr, wk_expected_head_sha = ?sha, wk_reason = reason,
         wk_delivery_id = str_or_empty d\<rparr>"
      by (simp only: routing.inject)
    show ?thesis by (rule that [of reason]) (use Inr eqs in simp_all)
  qed
  have "js_get payload ''action'' = JStr ?action"
    using act by (cases "js_get payload ''action''") (simp_all add: ROUTING_ACTIONS_def)
  moreover have "js_get (js_get payload ''repository'') ''full_name'' = JStr ?repo"
    using repo by (cases "js_get (js_get payload ''repository'') ''full_name''")
      (simp_all add: CONTROL_REPOSITORIES_def CONTROL_REPOSITORY_def)
  moreover obtain ds where ds: "d = JStr ds" using d by (cases d) simp_all
  ultimately show ?thesis
    using d po repo pu pr lab wl open_ act sha re w
    by (intro that [of label ?action]) simp_all
qed

subsection \<open>Assignment labels\<close>

lemma set_update_subset: "set (AList.update k v m) \<subseteq> insert (k, v) (set m)"
  by (induction m) auto

lemma foldl_update_keys:
  "fst ` set (foldl (\<lambda>m l. AList.update (f l) l m) m ls) = fst ` set m \<union> f ` set ls"
  by (induction ls arbitrary: m) (auto simp: dom_update)

lemma foldl_update_values:
  assumes "\<forall>(k, v) \<in> set m. f v = k"
  shows "\<forall>(k, v) \<in> set (foldl (\<lambda>m l. AList.update (f l) l m) m ls). f v = k"
  using assms
proof (induction ls arbitrary: m)
  case Nil
  then show ?case by simp
next
  case (Cons l ls)
  have "\<forall>(k, v) \<in> set (AList.update (f l) l m). f v = k"
    using Cons.prems set_update_subset [of "f l" l m] by fastforce
  then show ?case using Cons.IH by simp
qed

lemma dedup_by_lower_single:
  assumes "dedup_by_lower labels = [l]"
  shows "to_lower ` set labels = {to_lower l}"
proof -
  let ?m = "foldl (\<lambda>m l. AList.update (to_lower l) l m) [] labels"
  obtain k where m: "?m = [(k, l)]" using assms by (cases ?m) (auto simp: dedup_by_lower_def)
  have "to_lower l = k" using foldl_update_values [of "[]" to_lower labels] m by simp
  moreover have "fst ` set ?m = to_lower ` set labels" using foldl_update_keys [of to_lower "[]" labels] by simp
  ultimately show ?thesis using m by simp
qed

lemma lower_char_id: "is_lower_alnum c \<or> c = CHR ''-'' \<Longrightarrow> lower_char c = c"
  by (auto simp: lower_char_def char_class_defs)

lemma to_lower_worker_id: "worker_id_re wid \<Longrightarrow> to_lower wid = wid"
  by (cases wid) (auto simp: worker_id_re_def to_lower_def list_all_iff lower_char_id intro!: map_idI)

lemma workerIdFromLabel_lower:
  assumes "workerIdFromLabel label = Some wid"
  shows "to_lower label = ASSIGNMENT_LABEL_PREFIX @ wid"
proof -
  note f = workerIdFromLabel_Some [OF assms]
  have "to_lower label = take (length ASSIGNMENT_LABEL_PREFIX) (to_lower label)
      @ drop (length ASSIGNMENT_LABEL_PREFIX) (to_lower label)" by simp
  also have "take (length ASSIGNMENT_LABEL_PREFIX) (to_lower label) = ASSIGNMENT_LABEL_PREFIX"
    using f(3) by (simp add: has_assignment_prefix_def starts_with_def)
  also have "drop (length ASSIGNMENT_LABEL_PREFIX) (to_lower label) = to_lower wid"
    using f(2) by (simp add: to_lower_def drop_map)
  finally show ?thesis using f(1) by (simp add: to_lower_worker_id)
qed

lemma readWorkerLabels_single:
  assumes "readWorkerLabels pull = [label]" and "workerIdFromLabel label = Some wid"
  shows "\<exists>items. js_get pull ''labels'' = JArr items \<and>
    to_lower ` set (filter has_assignment_prefix (map label_name items)) = {ASSIGNMENT_LABEL_PREFIX @ wid}"
proof -
  from assms(1) obtain items where items: "js_get pull ''labels'' = JArr items"
    and d: "dedup_by_lower (filter has_assignment_prefix (map label_name items)) = [label]"
    by (auto simp: readWorkerLabels_def split: jsval.splits)
  from dedup_by_lower_single [OF d] workerIdFromLabel_lower [OF assms(2)] items show ?thesis by simp
qed

subsection \<open>Recovery\<close>

lemma recovery_assignment_Inr_Some:
  "recovery_assignment pulls wid n = Inr (Some a) \<Longrightarrow>
   as_workerId a = wid \<and> as_number a = n \<and> as_headRef a \<noteq> [] \<and> sha_re (as_headSha a)"
  by (auto simp: recovery_assignment_def Let_def split: option.splits if_splits)

lemma recovery_assignment_Inr_None:
  "recovery_assignment pulls wid n = Inr None \<Longrightarrow>
   \<exists>p. pull_by_number pulls n = Some p \<and> js_get p ''state'' = JStr ''closed''"
  by (auto simp: recovery_assignment_def Let_def split: option.splits if_splits)

lemma map_filter_id_set: "x \<in> set (List.map_filter id os) \<longleftrightarrow> Some x \<in> set os"
  by (auto simp: List.map_filter_def rev_image_eqI split: option.splits) force

lemma normalize_InrD:
  assumes "normalizeRecoveryAssignments issues pulls wid = Inr as"
  obtains xs ps os where "issues = JArr xs" "pulls = JArr ps" "worker_id_re wid"
    "map (recovery_assignment ps wid)
       (map (\<lambda>i. the_int (item_number i))
         (filter (issue_candidate (to_lower (ASSIGNMENT_LABEL_PREFIX @ wid))) xs)) = map Inr os"
    "as = List.map_filter id os"
  using assms that
  by (auto simp: normalizeRecoveryAssignments_def Let_def js_simps map_result_Inr
      split: if_splits sum.splits)

section \<open>Properties\<close>

text \<open>A routed sample event and the wake it becomes.\<close>

definition sample_sha :: string where
  "sample_sha = ''0123456789abcdef0123456789abcdef01234567''"

definition sample_event :: "string \<Rightarrow> (string \<times> jsval) list \<Rightarrow> (string \<times> jsval) list \<Rightarrow> jsval" where
  "sample_event action extra pull_extra = JObj ([
     (''action'', JStr action), (''number'', JInt 7),
     (''repository'', JObj [(''full_name'', JStr CONTROL_REPOSITORY)]),
     (''pull_request'', JObj ([
        (''state'', JStr ''open''),
        (''labels'', JArr [JObj [(''name'', JStr ''docs'')], JObj [(''name'', JStr ''BKE-Worker:worker-a'')]]),
        (''head'', JObj [(''sha'', JStr sample_sha)])] @ pull_extra))] @ extra)"

definition sample_wake :: "string \<Rightarrow> string \<Rightarrow> wake" where
  "sample_wake reason d = \<lparr>wk_worker_id = ''worker-a'', wk_repo = CONTROL_REPOSITORY, wk_pr_number = 7,
     wk_expected_head_sha = sample_sha, wk_reason = reason, wk_delivery_id = d\<rparr>"

lemma sample_opened_routes:
  "routeGitHubPullRequest (sample_event ''opened'' [] []) (JStr ''d-1'') =
   RRoute ''worker-a'' (sample_wake ''github_pull_request_opened'' ''d-1'')"
  by code_simp

definition sample_recovery_body :: string where
  "sample_recovery_body = ''x '' @ marker_comment CROSS_PR_RECOVERY_MARKER ''worker-a'' 7 sample_sha @ '' -->''"

definition sample_edited_event :: jsval where
  "sample_edited_event = sample_event ''edited''
     [(''changes'', JObj [(''body'', JObj [(''from'', JStr ''x'')])])]
     [(''body'', JStr sample_recovery_body)]"

lemma sample_edited_routes:
  "routeGitHubPullRequest sample_edited_event (JStr ''d-2'') =
   RRoute ''worker-a'' (sample_wake ''github_pull_request_cross_pr_recovery'' ''d-2'')"
  by code_simp

lemma routed_wake_facts:
  assumes "routeGitHubPullRequest payload d = RRoute wid w"
  shows "validateWake (js_of_wake w) (Some wid) \<and> d = JStr (wk_delivery_id w)"
proof
  obtain label action where f: "isValidDeliveryId d" "d = JStr (wk_delivery_id w)"
    "wk_repo w \<in> set CONTROL_REPOSITORIES" "0 < wk_pr_number w"
    "workerIdFromLabel label = Some wid" "wk_worker_id w = wid"
    "action \<in> set ROUTING_ACTIONS" "sha_re (wk_expected_head_sha w)"
    "routing_reason action (wk_repo w) payload (js_get payload ''pull_request'') label wid
       (wk_pr_number w) (wk_expected_head_sha w) = Inr (wk_reason w)"
    by (rule route_RRouteD [OF assms])
  have "delivery_re (wk_delivery_id w)" using f(1) by (subst (asm) f(2)) simp
  then show "validateWake (js_of_wake w) (Some wid)"
    using f routing_reason_ok [OF f(9,7)] workerIdFromLabel_Some(1) [OF f(5)] by (simp add: wake_ok_def)
  show "d = JStr (wk_delivery_id w)" by (rule f(2))
qed

text \<open>
  C6: every wake that routing produces, from any payload, passes \<open>validateWake\<close> for the
  worker it is routed to and carries the delivery ID of the event. The session object
  therefore never refuses a routed event as malformed.
\<close>

theorem routed_wake_valid:
  assumes "routeGitHubPullRequest payload d = RRoute wid w"
  shows "validateWake (js_of_wake w) (Some wid) \<and> d = JStr (wk_delivery_id w)"
  by (rule routed_wake_facts [OF assms])

theorem routed_wake_valid_witness:
  "validateWake (js_of_wake (sample_wake ''github_pull_request_opened'' ''d-1'')) (Some ''worker-a'') \<and>
   JStr ''d-1'' = JStr (wk_delivery_id (sample_wake ''github_pull_request_opened'' ''d-1''))"
  using routed_wake_valid [OF sample_opened_routes] by blast

text \<open>
  An event is routed only for an open pull request of a control repository whose
  labels name exactly one worker: some label carries the assignment prefix, and every label
  that does is, up to case, \<open>bke-worker:\<close> followed by the worker the wake goes to.
\<close>

theorem route_single_owner:
  assumes "routeGitHubPullRequest payload d = RRoute wid w"
  shows "\<exists>items. js_get (js_get payload ''pull_request'') ''labels'' = JArr items \<and>
      to_lower ` set (filter has_assignment_prefix (map label_name items)) = {ASSIGNMENT_LABEL_PREFIX @ wid} \<and>
      js_get (js_get payload ''pull_request'') ''state'' = JStr ''open'' \<and>
      wk_repo w \<in> set CONTROL_REPOSITORIES \<and> wk_worker_id w = wid"
proof -
  obtain label where "readWorkerLabels (js_get payload ''pull_request'') = [label]"
    "workerIdFromLabel label = Some wid" "wk_repo w \<in> set CONTROL_REPOSITORIES" "wk_worker_id w = wid"
    "js_get (js_get payload ''pull_request'') ''state'' = JStr ''open''"
    by (rule route_RRouteD [OF assms])
  with readWorkerLabels_single show ?thesis by blast
qed

theorem route_single_owner_witness:
  "\<exists>items. js_get (js_get (sample_event ''opened'' [] []) ''pull_request'') ''labels'' = JArr items \<and>
      to_lower ` set (filter has_assignment_prefix (map label_name items)) = {ASSIGNMENT_LABEL_PREFIX @ ''worker-a''}"
  using route_single_owner [OF sample_opened_routes] by blast

text \<open>
  An edited pull request is routed as a cross-PR recovery only in the control
  repository, when its new body holds the exact recovery comment for this worker, this PR and
  this head, and the event shows an old body without the marker.
\<close>

theorem cross_pr_recovery_needs_new_marker:
  assumes "routeGitHubPullRequest payload d = RRoute wid w"
    and "wk_reason w = ''github_pull_request_cross_pr_recovery''"
  shows "wk_repo w = CONTROL_REPOSITORY \<and>
    contains (str_or_empty (js_get (js_get payload ''pull_request'') ''body''))
      (marker_comment CROSS_PR_RECOVERY_MARKER wid (wk_pr_number w) (wk_expected_head_sha w) @ '' -->'') \<and>
    (\<exists>p. js_get (js_get (js_get payload ''changes'') ''body'') ''from'' = JStr p \<and>
       \<not> contains p CROSS_PR_RECOVERY_MARKER)"
proof -
  obtain label action where act: "action \<in> set ROUTING_ACTIONS" and
    r: "routing_reason action (wk_repo w) payload (js_get payload ''pull_request'') label wid
       (wk_pr_number w) (wk_expected_head_sha w) = Inr (wk_reason w)"
    by (rule route_RRouteD [OF assms(1)])
  have e: "edited_reason (wk_repo w) payload (js_get payload ''pull_request'') wid
       (wk_pr_number w) (wk_expected_head_sha w) = Inr ''github_pull_request_cross_pr_recovery''"
    using r act unfolding assms(2)
    by (auto simp: routing_reason_def Let_def ROUTING_ACTIONS_def split: if_splits)
  then show ?thesis
    by (auto simp: edited_reason_def Let_def split: if_splits jsval.splits)
qed

theorem cross_pr_recovery_needs_new_marker_witness:
  "contains (str_or_empty (js_get (js_get sample_edited_event ''pull_request'') ''body''))
      (marker_comment CROSS_PR_RECOVERY_MARKER ''worker-a'' 7 sample_sha @ '' -->'')"
  using cross_pr_recovery_needs_new_marker [OF sample_edited_routes] by (simp add: sample_wake_def)

lemma recovery_assignments_found:
  assumes "normalizeRecoveryAssignments (JArr issues) (JArr pulls) wid = Inr as"
    and "i \<in> set issues" and "issue_candidate (to_lower (ASSIGNMENT_LABEL_PREFIX @ wid)) i"
  shows "(\<exists>a \<in> set as. as_number a = the_int (item_number i) \<and> sha_re (as_headSha a)) \<or>
    (\<exists>p. pull_by_number pulls (the_int (item_number i)) = Some p \<and> js_get p ''state'' = JStr ''closed'')"
proof -
  let ?n = "\<lambda>i. the_int (item_number i)"
  obtain os where os: "map (recovery_assignment pulls wid)
      (map ?n (filter (issue_candidate (to_lower (ASSIGNMENT_LABEL_PREFIX @ wid))) issues)) = map Inr os"
    and as: "as = List.map_filter id os"
    using normalize_InrD [OF assms(1)] by (metis jsval.inject(6))
  have "recovery_assignment pulls wid (?n i) \<in> set (map Inr os)"
    unfolding os [symmetric] using assms(2,3) by auto
  then obtain ob where ob: "ob \<in> set os" "recovery_assignment pulls wid (?n i) = Inr ob" by auto
  show ?thesis
  proof (cases ob)
    case None
    with ob show ?thesis by (simp add: recovery_assignment_Inr_None)
  next
    case (Some a)
    with ob have "a \<in> set as" by (simp add: as map_filter_id_set)
    with ob Some show ?thesis by (auto dest: recovery_assignment_Inr_Some)
  qed
qed

lemma recovery_assignments_sound:
  assumes "normalizeRecoveryAssignments (JArr issues) (JArr pulls) wid = Inr as" and "a \<in> set as"
  shows "as_workerId a = wid \<and> sha_re (as_headSha a) \<and>
    (\<exists>i \<in> set issues. issue_candidate (to_lower (ASSIGNMENT_LABEL_PREFIX @ wid)) i \<and>
       the_int (item_number i) = as_number a)"
proof -
  obtain os where os: "map (recovery_assignment pulls wid)
      (map (\<lambda>i. the_int (item_number i))
        (filter (issue_candidate (to_lower (ASSIGNMENT_LABEL_PREFIX @ wid))) issues)) = map Inr os"
    and as: "as = List.map_filter id os"
    using normalize_InrD [OF assms(1)] by (metis jsval.inject(6))
  have "Inr (Some a) \<in> set (map Inr os)" using assms(2) by (auto simp: as map_filter_id_set)
  then have "Inr (Some a) \<in> set (map (recovery_assignment pulls wid) (map (\<lambda>i. the_int (item_number i))
        (filter (issue_candidate (to_lower (ASSIGNMENT_LABEL_PREFIX @ wid))) issues)))"
    unfolding os .
  then show ?thesis
    by (auto dest!: sym [where t = "recovery_assignment _ _ _"] recovery_assignment_Inr_Some)
qed

text \<open>Two pages as GitHub returns them: one open assigned pull request, one already closed.\<close>

definition sample_issue :: "int \<Rightarrow> jsval" where
  "sample_issue n = JObj [(''number'', JInt n), (''state'', JStr ''open''), (''pull_request'', JObj []),
     (''labels'', JArr [JObj [(''name'', JStr ''bke-worker:worker-a'')]])]"

definition sample_pull :: "int \<Rightarrow> string \<Rightarrow> jsval" where
  "sample_pull n state = JObj [(''number'', JInt n), (''state'', JStr state),
     (''head'', JObj [(''ref'', JStr ''topic''), (''sha'', JStr sample_sha)])]"

definition sample_assignment :: assignment where
  "sample_assignment = \<lparr>as_workerId = ''worker-a'', as_number = 7, as_headRef = ''topic'', as_headSha = sample_sha\<rparr>"

lemma sample_normalizes:
  "normalizeRecoveryAssignments (JArr [sample_issue 7, sample_issue 8])
     (JArr [sample_pull 7 ''open'', sample_pull 8 ''closed'']) ''worker-a'' = Inr [sample_assignment]"
  by code_simp

text \<open>
  Reconstruction after a reconnect never loses an assignment silently. When it
  succeeds, every open issue with the worker's label is one of the assignments, under its own
  number and with a full head, or its pull request was read as closed; and every assignment
  comes from such an issue and is the worker's.
\<close>

theorem recovery_assignments_complete:
  assumes "normalizeRecoveryAssignments (JArr issues) (JArr pulls) wid = Inr as"
  shows "(\<forall>i \<in> set issues. issue_candidate (to_lower (ASSIGNMENT_LABEL_PREFIX @ wid)) i \<longrightarrow>
      (\<exists>a \<in> set as. as_number a = the_int (item_number i) \<and> sha_re (as_headSha a)) \<or>
      (\<exists>p. pull_by_number pulls (the_int (item_number i)) = Some p \<and> js_get p ''state'' = JStr ''closed''))
    \<and> (\<forall>a \<in> set as. as_workerId a = wid \<and> sha_re (as_headSha a) \<and>
      (\<exists>i \<in> set issues. issue_candidate (to_lower (ASSIGNMENT_LABEL_PREFIX @ wid)) i \<and>
         the_int (item_number i) = as_number a))"
  using recovery_assignments_found [OF assms] recovery_assignments_sound [OF assms] by blast

theorem recovery_assignments_complete_witness:
  "\<exists>i \<in> set [sample_issue 7, sample_issue 8].
     issue_candidate (to_lower (ASSIGNMENT_LABEL_PREFIX @ ''worker-a'')) i \<and>
     the_int (item_number i) = as_number sample_assignment"
  using recovery_assignments_complete [OF sample_normalizes] by simp

lemma recovery_delivery_iff:
  assumes "worker_id_re (as_workerId a)" and "sha_re (as_headSha a)" and "0 < as_number a"
  shows "delivery_re (wk_delivery_id (recovery_wake a)) \<longleftrightarrow>
    as_number a < 10 ^ 21 \<and> length (as_workerId a) + length (number_text (as_number a)) \<le> 77"
proof (cases "as_number a < 10 ^ 21")
  case True
  have len: "length (as_headSha a) = 40" and hex: "list_all is_hex_lower (as_headSha a)"
    using assms(2) by (auto simp: sha_re_def class_rep_def)
  have "list_all delivery_char (as_workerId a)"
    using assms(1) by (cases "as_workerId a")
      (auto simp: worker_id_re_def delivery_char_def is_lower_alnum_def is_alnum_def list_all_iff)
  moreover have "list_all delivery_char (as_headSha a)"
    using hex by (auto simp: list_all_iff delivery_char_def is_alnum_def is_hex_lower_def is_lower_def)
  moreover have "list_all delivery_char (number_text (as_number a))"
    using number_text_digits [of "as_number a"] assms(3) True
    by (auto simp: list_all_iff delivery_char_def is_alnum_def)
  moreover have "list_all delivery_char ''recovery-''" and "delivery_char (CHR ''-'')"
    by code_simp+
  ultimately show ?thesis
    using True by (simp add: delivery_re_def class_rep_def recovery_wake_def len)
next
  case False
  then have "CHR ''+'' \<in> set (wk_delivery_id (recovery_wake a))"
    using number_text_wide [of "as_number a"] by (simp add: recovery_wake_def)
  moreover have "\<not> delivery_char (CHR ''+'')" by code_simp
  ultimately have "\<not> delivery_re (wk_delivery_id (recovery_wake a))"
    by (auto simp: delivery_re_def class_rep_def list_all_iff)
  with False show ?thesis by simp
qed

lemma recovery_wake_ok_iff:
  assumes "worker_id_re (as_workerId a)" and "sha_re (as_headSha a)" and "0 < as_number a"
  shows "wake_ok (as_workerId a) (recovery_wake a) \<longleftrightarrow>
    as_number a < 10 ^ 21 \<and> length (as_workerId a) + length (number_text (as_number a)) \<le> 77"
  using assms recovery_delivery_iff [OF assms] fixed_reasons
  by (simp add: wake_ok_def recovery_wake_def CONTROL_REPOSITORIES_def)

text \<open>
  C7: the wake a recovery builds for an assignment passes \<open>validateWake\<close> exactly when the PR number is
  below \<open>10^21\<close> and the worker ID and the number's text together have at most 77 characters. The
  recovery delivery ID must fit the 128 characters of a delivery ID, and a number from \<open>10^21\<close> on
  prints with an exponent, whose plus sign a delivery ID may not hold.
\<close>

theorem recovery_wake_valid_iff:
  assumes "worker_id_re (as_workerId a)" and "sha_re (as_headSha a)" and "0 < as_number a"
  shows "validateWake (js_of_wake (recovery_wake a)) (Some (as_workerId a)) \<longleftrightarrow>
    as_number a < 10 ^ 21 \<and> length (as_workerId a) + length (number_text (as_number a)) \<le> 77"
  using recovery_wake_ok_iff [OF assms] by simp

theorem recovery_wake_valid_iff_witness:
  "validateWake (js_of_wake (recovery_wake sample_assignment)) (Some ''worker-a'') \<and>
   \<not> validateWake (js_of_wake (recovery_wake (sample_assignment\<lparr>as_number := 10 ^ 21\<rparr>))) (Some ''worker-a'')"
proof -
  have ok: "worker_id_re (as_workerId sample_assignment)" "sha_re (as_headSha sample_assignment)"
    and "length (as_workerId sample_assignment) + length (number_text (as_number sample_assignment)) \<le> 77"
    by code_simp+
  moreover have "0 < as_number sample_assignment" "as_number sample_assignment < 10 ^ 21"
      "as_workerId sample_assignment = ''worker-a''"
    by (simp_all add: sample_assignment_def)
  ultimately show ?thesis
    using recovery_wake_valid_iff [of sample_assignment]
      recovery_wake_valid_iff [of "sample_assignment\<lparr>as_number := 10 ^ 21\<rparr>"] by simp
qed

end
