(* ===== verification/Base64.thy ===== *)
theory Base64 imports JsValue
begin

text \<open>
  Bytes and their base64 forms. A byte string is a list of \<^typ>\<open>char\<close>, as the binary
  strings of \<open>btoa\<close> and \<open>atob\<close> are. The platform's \<open>btoa\<close>, \<open>atob\<close> (the
  forgiving decoder of the WHATWG standard) and \<open>TextEncoder\<close>, and the four base64url
  helpers of the source, with their round trips.
\<close>

type_synonym bytes = string

section \<open>The alphabet\<close>

definition b64_char :: "nat \<Rightarrow> char" where
  "b64_char n = (if n < 26 then char_of (65 + n) else if n < 52 then char_of (71 + n)
     else if n < 62 then char_of (n - 4) else if n = 62 then CHR ''+'' else CHR ''/'')"

definition b64_val :: "char \<Rightarrow> nat option" where
  "b64_val c = (if is_upper c then Some (code c - 65) else if is_lower c then Some (code c - 71)
     else if is_digit c then Some (code c + 4) else if c = CHR ''+'' then Some 62
     else if c = CHR ''/'' then Some 63 else None)"

lemma code_less: "code c < 256"
  by (simp add: code_def)

lemma char_of_code [simp]: "char_of (code c) = c"
  by (simp add: code_def)

lemma code_char_of [simp]: "n < 256 \<Longrightarrow> code (char_of n) = n"
  by (simp add: code_def)

lemma char_eq_code: "c = d \<longleftrightarrow> code c = code d"
  by (metis char_of_code)

lemma code_punctuation:
  "code CHR ''+'' = 43" "code CHR ''/'' = 47" "code CHR ''-'' = 45" "code CHR ''_'' = 95"
  "code CHR ''='' = 61"
  by (simp_all add: code_def)

lemmas code_simps = char_eq_code code_punctuation is_upper_def is_lower_def is_digit_def

lemma code_b64_char: "n < 64 \<Longrightarrow> code (b64_char n) = (if n < 26 then 65 + n else if n < 52 then 71 + n
    else if n < 62 then n - 4 else if n = 62 then 43 else 47)"
  by (simp add: b64_char_def code_punctuation)

lemma b64_val_char [simp]: "n < 64 \<Longrightarrow> b64_val (b64_char n) = Some n"
  by (auto simp: b64_val_def code_b64_char code_simps)

lemma b64_char_val: "b64_val c = Some n \<Longrightarrow> n < 64 \<and> b64_char n = c"
  by (auto simp: b64_val_def b64_char_def is_upper_def is_lower_def is_digit_def split: if_splits)

section \<open>Sextets\<close>

fun to_sextets :: "nat list \<Rightarrow> nat list" where
  "to_sextets [] = []"
| "to_sextets [a] = [a div 4, (a mod 4) * 16]"
| "to_sextets [a, b] = [a div 4, (a mod 4) * 16 + b div 16, (b mod 16) * 4]"
| "to_sextets (a # b # c # r) =
     a div 4 # ((a mod 4) * 16 + b div 16) # ((b mod 16) * 4 + c div 64) # (c mod 64) # to_sextets r"

fun of_sextets :: "nat list \<Rightarrow> nat list" where
  "of_sextets (a # b # c # d # r) =
     (a * 4 + b div 16) # ((b mod 16) * 16 + c div 4) # ((c mod 4) * 64 + d) # of_sextets r"
| "of_sextets [a, b, c] = [a * 4 + b div 16, (b mod 16) * 16 + c div 4]"
| "of_sextets [a, b] = [a * 4 + b div 16]"
| "of_sextets _ = []"

lemma of_to_sextets: "list_all (\<lambda>a. a < 256) xs \<Longrightarrow> of_sextets (to_sextets xs) = xs"
proof (induction xs rule: to_sextets.induct)
  case (2 a)
  then show ?case by simp
next
  case (3 a b)
  have "b div 16 < 16" using 3 by auto
  then have "(a mod 4 * 16 + b div 16) div 16 = a mod 4" and "(a mod 4 * 16 + b div 16) mod 16 = b div 16"
    by simp_all
  with 3 show ?case by simp
next
  case (4 a b c r)
  have "b div 16 < 16" and "c div 64 < 4" using 4 by auto
  then have "(a mod 4 * 16 + b div 16) div 16 = a mod 4" and "(a mod 4 * 16 + b div 16) mod 16 = b div 16"
    and "(b mod 16 * 4 + c div 64) div 4 = b mod 16" and "(b mod 16 * 4 + c div 64) mod 4 = c div 64"
    by simp_all
  with 4 show ?case by simp
qed simp

lemma to_sextets_less: "list_all (\<lambda>a. a < 256) xs \<Longrightarrow> list_all (\<lambda>a. a < 64) (to_sextets xs)"
proof (induction xs rule: to_sextets.induct)
  case (4 a b c r)
  have "a mod 4 * 16 + b div 16 < 64" and "b mod 16 * 4 + c div 64 < 64" using 4 by auto
  with 4 show ?case by auto
next
  case (3 a b)
  have "a mod 4 * 16 + b div 16 < 64" using 3 by auto
  with 3 show ?case by auto
qed auto

lemma length_to_sextets: "length (to_sextets xs) = (length xs * 4 + 2) div 3"
  by (induction xs rule: to_sextets.induct) auto

lemma of_sextets_less: "list_all (\<lambda>a. a < 64) xs \<Longrightarrow> list_all (\<lambda>a. a < 256) (of_sextets xs)"
proof (induction xs rule: of_sextets.induct)
  case (1 a b c d r)
  have "a * 4 + b div 16 < 256" and "b mod 16 * 16 + c div 4 < 256" and "c mod 4 * 64 + d < 256"
    using 1 by auto
  with 1 show ?case by simp
next
  case (2 a b c)
  have "a * 4 + b div 16 < 256" and "b mod 16 * 16 + c div 4 < 256" using 2 by auto
  then show ?case by simp
next
  case (3 a b)
  have "a * 4 + b div 16 < 256" using 3 by auto
  then show ?case by simp
qed simp_all

section \<open>btoa and atob\<close>

definition pad4 :: "string \<Rightarrow> string" where
  "pad4 s = s @ replicate ((4 - length s mod 4) mod 4) CHR ''=''"

definition btoa :: "bytes \<Rightarrow> string" where
  "btoa bs = pad4 (map b64_char (to_sextets (map code bs)))"

fun all_some :: "'a option list \<Rightarrow> 'a list option" where
  "all_some [] = Some []"
| "all_some (None # xs) = None"
| "all_some (Some x # xs) = (case all_some xs of None \<Rightarrow> None | Some ys \<Rightarrow> Some (x # ys))"

text \<open>
  The forgiving decoder: white space is dropped, up to two closing \<open>=\<close> are dropped when
  the length is a multiple of four, and the bits left over after the last whole byte are
  ignored. \<^const>\<open>None\<close> is the exception of \<open>atob\<close>.
\<close>

definition ascii_space :: "char \<Rightarrow> bool" where
  "ascii_space c \<longleftrightarrow> code c \<in> {9, 10, 12, 13, 32}"

fun drop_pad :: "nat \<Rightarrow> string \<Rightarrow> string" where
  "drop_pad (Suc n) (c # s) = (if c = CHR ''='' then drop_pad n s else c # s)"
| "drop_pad _ s = s"

definition atob :: "string \<Rightarrow> bytes option" where
  "atob str =
     (let s = filter (\<lambda>c. \<not> ascii_space c) str;
          t = (if length s mod 4 = 0 then rev (drop_pad 2 (rev s)) else s)
      in if length t mod 4 = 1 then None
         else map_option (\<lambda>vs. map char_of (of_sextets vs)) (all_some (map b64_val t)))"

section \<open>base64url\<close>

definition to_url :: "char \<Rightarrow> char" where
  "to_url c = (if c = CHR ''+'' then CHR ''-'' else if c = CHR ''/'' then CHR ''_'' else c)"

definition of_url :: "char \<Rightarrow> char" where
  "of_url c = (if c = CHR ''-'' then CHR ''+'' else if c = CHR ''_'' then CHR ''/'' else c)"

text \<open>\<open>replace(/=+$/u, "")\<close>.\<close>

definition strip_pad :: "string \<Rightarrow> string" where
  "strip_pad s = rev (dropWhile (\<lambda>c. c = CHR ''='') (rev s))"

definition bytesToBase64Url :: "bytes \<Rightarrow> string" where
  "bytesToBase64Url bs = strip_pad (map to_url (btoa bs))"

definition b64url_char :: "char \<Rightarrow> bool" where
  "b64url_char c \<longleftrightarrow> is_alnum c \<or> c = CHR ''-'' \<or> c = CHR ''_''"

text \<open>\<open>protocol.js\<close>: 43 characters, one \<open>=\<close> appended, decoded.\<close>

definition base64UrlToBytes :: "string \<Rightarrow> bytes option" where
  "base64UrlToBytes s =
     (if class_rep b64url_char 43 43 s then atob (map of_url s @ ''='') else None)"

text \<open>
  The canonical decoder of \<open>relay-credential-v2.js\<close> and
  \<open>relay-owner-inspection-command.js\<close>: a fixed number of characters and bytes, and the
  text must be the encoding of what it decodes to.
\<close>

definition decodeBase64Url :: "nat \<Rightarrow> nat \<Rightarrow> string \<Rightarrow> bytes option" where
  "decodeBase64Url chars byteCount s =
     (if \<not> class_rep b64url_char chars chars s then None
      else case atob (map of_url s @ replicate ((4 - length s mod 4) mod 4) CHR ''='') of
             None \<Rightarrow> None
           | Some bs \<Rightarrow> if length bs \<noteq> byteCount \<or> bytesToBase64Url bs \<noteq> s then None else Some bs)"

section \<open>UTF-8\<close>

text \<open>\<open>TextEncoder.encode\<close> on code units below 256.\<close>

definition utf8_char :: "char \<Rightarrow> bytes" where
  "utf8_char c = (if code c < 128 then [c]
     else [char_of (192 + code c div 64), char_of (128 + code c mod 64)])"

definition utf8 :: "string \<Rightarrow> bytes" where
  "utf8 s = concat (map utf8_char s)"

section \<open>Round trips\<close>

lemma all_some_map_Some: "list_all (\<lambda>x. f x = Some (g x)) xs \<Longrightarrow> all_some (map f xs) = Some (map g xs)"
  by (induction xs) auto

lemma all_some_SomeD: "all_some (map f xs) = Some ys \<Longrightarrow> map f xs = map Some ys"
proof (induction xs arbitrary: ys)
  case (Cons x xs)
  then show ?case by (cases "f x") (auto split: option.splits)
qed simp

lemma b64_charD:
  assumes "n < 64"
  shows "\<not> ascii_space (b64_char n)" and "b64_char n \<noteq> CHR ''=''"
    and "to_url (b64_char n) \<noteq> CHR ''=''" and "of_url (to_url (b64_char n)) = b64_char n"
    and "b64url_char (to_url (b64_char n))"
  using assms by (auto simp: ascii_space_def to_url_def of_url_def b64url_char_def is_alnum_def
      code_b64_char code_simps)

definition sextets :: "bytes \<Rightarrow> nat list" where
  "sextets bs = to_sextets (map code bs)"

lemma sextets_less: "n \<in> set (sextets bs) \<Longrightarrow> n < 64"
  using to_sextets_less [of "map code bs"] by (auto simp: sextets_def list_all_iff code_less)

lemma length_sextets: "length (sextets bs) = (length bs * 4 + 2) div 3"
  by (simp add: sextets_def length_to_sextets)

lemma of_sextets_sextets: "map char_of (of_sextets (sextets bs)) = bs"
  by (simp add: sextets_def of_to_sextets list_all_iff code_less map_idI)

text \<open>The encoding of a byte string, without its padding.\<close>

lemma bytesToBase64Url_eq: "bytesToBase64Url bs = map (\<lambda>n. to_url (b64_char n)) (sextets bs)"
proof -
  let ?s = "map (\<lambda>n. to_url (b64_char n)) (sextets bs)"
  have pad: "map to_url (btoa bs) = ?s @ replicate ((4 - length ?s mod 4) mod 4) CHR ''=''"
    by (simp add: btoa_def pad4_def sextets_def to_url_def)
  have "dropWhile (\<lambda>c. c = CHR ''='') (rev ?s) = rev ?s"
  proof (cases "sextets bs" rule: rev_cases)
    case (snoc ns n)
    then have "n < 64" by (simp add: sextets_less [of n bs])
    with snoc show ?thesis by (simp add: b64_charD(3))
  qed simp
  moreover have "dropWhile (\<lambda>c. c = CHR ''='') (replicate k CHR ''='' @ xs) =
      dropWhile (\<lambda>c. c = CHR ''='') xs" for k xs
    by (induction k) auto
  ultimately show ?thesis by (simp add: bytesToBase64Url_def strip_pad_def pad)
qed

lemma length_bytesToBase64Url: "length (bytesToBase64Url bs) = (length bs * 4 + 2) div 3"
  by (simp add: bytesToBase64Url_eq length_sextets)

lemma bytesToBase64Url_chars: "list_all b64url_char (bytesToBase64Url bs)"
  by (auto simp: bytesToBase64Url_eq list_all_iff b64_charD(5) dest: sextets_less)

text \<open>Decoding sextets with up to two characters of padding.\<close>

lemma drop_pad_no_pad: "s = [] \<or> hd s \<noteq> CHR ''='' \<Longrightarrow> drop_pad n s = s"
  by (cases s; cases n) auto

lemma space_eq: "\<not> ascii_space CHR ''=''"
  by (simp add: ascii_space_def code_punctuation)

lemma atob_sextets:
  assumes "\<And>n. n \<in> set ns \<Longrightarrow> n < 64" and "k \<le> 2" and "(length ns + k) mod 4 = 0"
  shows "atob (map b64_char ns @ replicate k CHR ''='') = Some (map char_of (of_sextets ns))"
proof -
  let ?t = "map b64_char ns"
  have no_space: "filter (\<lambda>c. \<not> ascii_space c) (?t @ replicate k CHR ''='') = ?t @ replicate k CHR ''=''"
    by (rule filter_True) (auto simp: assms(1) b64_charD(1) space_eq)
  have hd: "rev ?t = [] \<or> hd (rev ?t) \<noteq> CHR ''=''"
    using assms(1) by (cases ns rule: rev_cases) (auto simp: b64_charD(2))
  have "drop_pad 2 (replicate k CHR ''='' @ rev ?t) = rev ?t"
  proof -
    consider "k = 0" | "k = 1" | "k = 2" using assms(2) by linarith
    then show ?thesis using hd by cases (auto simp: drop_pad_no_pad numeral_2_eq_2)
  qed
  moreover have "length ns mod 4 \<noteq> 1" using assms(2,3) by presburger
  moreover have "all_some (map b64_val ?t) = Some (map (\<lambda>c. the (b64_val c)) ?t)"
    by (rule all_some_map_Some) (auto simp: list_all_iff assms(1))
  moreover have "map (\<lambda>c. the (b64_val c)) ?t = ns"
    by (auto simp: assms(1) intro!: map_idI)
  ultimately show ?thesis
    using assms(3) unfolding atob_def Let_def no_space by (simp add: add.commute)
qed

lemma atob_url:
  assumes "k \<le> 2" and "((length bs * 4 + 2) div 3 + k) mod 4 = 0"
  shows "atob (map of_url (bytesToBase64Url bs) @ replicate k CHR ''='') = Some bs"
proof -
  have "map of_url (bytesToBase64Url bs) = map b64_char (sextets bs)"
    by (auto simp: bytesToBase64Url_eq b64_charD(4) dest: sextets_less)
  then show ?thesis
    using atob_sextets [of "sextets bs" k] assms
    by (simp add: sextets_less length_sextets of_sextets_sextets)
qed

lemma base64UrlToBytes_encode: "length bs = 32 \<Longrightarrow> base64UrlToBytes (bytesToBase64Url bs) = Some bs"
  using atob_url [of 1 bs]
  by (simp add: base64UrlToBytes_def class_rep_def length_bytesToBase64Url bytesToBase64Url_chars)

lemma decodeBase64Url_encode:
  assumes "length bs = byteCount" and "chars = (byteCount * 4 + 2) div 3"
  shows "decodeBase64Url chars byteCount (bytesToBase64Url bs) = Some bs"
proof -
  let ?k = "(4 - chars mod 4) mod 4"
  have "byteCount = 3 * (byteCount div 3) + byteCount mod 3" by simp
  then have "chars = 4 * (byteCount div 3) + (byteCount mod 3 * 4 + 2) div 3"
    using assms(2) by arith
  moreover have "byteCount mod 3 \<in> {0, 1, 2}" by auto
  ultimately have "chars mod 4 \<noteq> 1" by auto
  then consider "chars mod 4 = 0" | "chars mod 4 = 2" | "chars mod 4 = 3" by linarith
  then have k: "?k \<le> 2 \<and> (chars mod 4 + ?k) mod 4 = 0" by cases simp_all
  then have k': "?k \<le> 2" "(chars + ?k) mod 4 = 0" by (simp_all add: mod_add_left_eq)
  have len: "length (bytesToBase64Url bs) = chars"
    unfolding assms(2) assms(1) [symmetric] by (rule length_bytesToBase64Url)
  have "atob (map of_url (bytesToBase64Url bs) @ replicate ?k CHR ''='') = Some bs"
    by (rule atob_url [OF k'(1)]) (use k'(2) len length_bytesToBase64Url [of bs] in simp)
  then show ?thesis
    by (simp add: decodeBase64Url_def class_rep_def len bytesToBase64Url_chars assms(1))
qed

lemma decodeBase64Url_SomeD:
  "decodeBase64Url chars byteCount s = Some bs \<Longrightarrow> length bs = byteCount \<and> bytesToBase64Url bs = s"
  by (auto simp: decodeBase64Url_def split: if_splits option.splits)

end
