(* ===== verification/JsonText.thy ===== *)
theory JsonText imports Base64
begin

text \<open>
  \<open>JSON.stringify\<close> without indentation, and the facts that make a JSON array of strings and
  integers an unambiguous message: a quoted string without special characters can be read back
  from the front of a text, and so can an integer that is followed by a delimiter.
\<close>

section \<open>JSON.stringify\<close>

definition hex_digit :: "nat \<Rightarrow> char" where
  "hex_digit n = (if n < 10 then char_of (48 + n) else char_of (87 + n))"

definition json_char :: "char \<Rightarrow> string" where
  "json_char c =
     (if c = CHR 0x22 then [CHR 0x5C, CHR 0x22]
      else if c = CHR 0x5C then [CHR 0x5C, CHR 0x5C]
      else if code c = 8 then [CHR 0x5C, CHR ''b'']
      else if code c = 9 then [CHR 0x5C, CHR ''t'']
      else if code c = 10 then [CHR 0x5C, CHR ''n'']
      else if code c = 12 then [CHR 0x5C, CHR ''f'']
      else if code c = 13 then [CHR 0x5C, CHR ''r'']
      else if code c < 32 then
        [CHR 0x5C, CHR ''u'', CHR ''0'', CHR ''0'', hex_digit (code c div 16), hex_digit (code c mod 16)]
      else [c])"

definition json_quote :: "string \<Rightarrow> string" where
  "json_quote s = CHR 0x22 # concat (map json_char s) @ [CHR 0x22]"

text \<open>
  \<^const>\<open>None\<close> is the result \<open>undefined\<close>; as an element of an array it prints
  \<open>null\<close>, as a property it is left out.
\<close>

fun json_stringify :: "jsval \<Rightarrow> string option" where
  "json_stringify JUndef = None"
| "json_stringify JHole = None"
| "json_stringify JNull = Some ''null''"
| "json_stringify (JBool b) = Some (if b then ''true'' else ''false'')"
| "json_stringify (JInt n) = Some (int_string n)"
| "json_stringify (JFrac q) = Some (js_string (JFrac q))"
| "json_stringify (JInf b) = Some ''null''"
| "json_stringify JNaN = Some ''null''"
| "json_stringify (JStr s) = Some (json_quote s)"
| "json_stringify (JArr xs) = Some (''['' @ join_comma
     (map (\<lambda>x. case json_stringify x of None \<Rightarrow> ''null'' | Some t \<Rightarrow> t) xs) @ '']'')"
| "json_stringify (JObj kvs) = Some (''{'' @ join_comma
     (concat (map (\<lambda>kv. case json_stringify (snd kv) of None \<Rightarrow> []
        | Some t \<Rightarrow> [json_quote (fst kv) @ '':'' @ t]) kvs)) @ ''}'')"

section \<open>Reading back\<close>

text \<open>A character \<open>JSON.stringify\<close> copies.\<close>

definition plain_char :: "char \<Rightarrow> bool" where
  "plain_char c \<longleftrightarrow> 32 \<le> code c \<and> c \<noteq> CHR 0x22 \<and> c \<noteq> CHR 0x5C"

lemma json_char_plain: "plain_char c \<Longrightarrow> json_char c = [c]"
  by (auto simp: json_char_def plain_char_def)

lemma json_quote_plain: "list_all plain_char s \<Longrightarrow> json_quote s = CHR 0x22 # s @ [CHR 0x22]"
proof -
  assume "list_all plain_char s"
  then have "concat (map json_char s) = s" by (induction s) (auto simp: json_char_plain)
  then show ?thesis by (simp add: json_quote_def)
qed

lemma takeWhile_delim: "c \<notin> set s \<Longrightarrow> takeWhile (\<lambda>x. x \<noteq> c) (s @ c # u) = s"
  by (induction s) auto

lemma split_at_delim:
  assumes "c \<notin> set s" and "c \<notin> set t" and "s @ c # u = t @ c # v"
  shows "s = t \<and> u = v"
proof -
  have "s = t" using takeWhile_delim [OF assms(1), of u] takeWhile_delim [OF assms(2), of v] assms(3) by simp
  with assms(3) show ?thesis by simp
qed

lemma json_quote_split:
  assumes "list_all plain_char s" and "list_all plain_char t"
    and "json_quote s @ u = json_quote t @ v"
  shows "s = t \<and> u = v"
proof -
  have "CHR 0x22 \<notin> set s" "CHR 0x22 \<notin> set t" using assms(1,2) by (auto simp: list_all_iff plain_char_def)
  then show ?thesis
    using assms split_at_delim [of "CHR 0x22" s t u v] by (simp add: json_quote_plain)
qed

definition read_digits :: "string \<Rightarrow> nat" where
  "read_digits s = foldl (\<lambda>n c. n * 10 + (code c - 48)) 0 s"

lemma read_digits_of [simp]: "read_digits (digits_of n) = n"
proof (induction n rule: digits_of.induct)
  case (1 n)
  show ?case
  proof (cases "n < 10")
    case True
    then show ?thesis by (subst digits_of.simps) (simp add: read_digits_def)
  next
    case False
    have "read_digits (digits_of n) = read_digits (digits_of (n div 10)) * 10 + n mod 10"
      using False by (subst digits_of.simps) (simp add: read_digits_def)
    then show ?thesis using False 1 by simp
  qed
qed

lemma int_string_inj: "0 \<le> m \<Longrightarrow> 0 \<le> n \<Longrightarrow> int_string m = int_string n \<Longrightarrow> m = n"
proof -
  assume m: "0 \<le> m" and n: "0 \<le> n" and eq: "int_string m = int_string n"
  have "read_digits (int_string m) = nat m" "read_digits (int_string n) = nat n"
    using m n by (simp_all add: int_string_def)
  with eq have "nat m = nat n" by simp
  with m n show "m = n" by simp
qed

lemma int_string_split:
  assumes "0 \<le> m" "0 \<le> n" and "\<not> is_digit c" and "int_string m @ c # u = int_string n @ c # v"
  shows "m = n \<and> u = v"
proof -
  have "c \<notin> set (int_string m)" "c \<notin> set (int_string n)"
    using int_string_digits [OF assms(1)] int_string_digits [OF assms(2)] assms(3)
    by (auto simp: list_all_iff)
  from split_at_delim [OF this assms(4)] show ?thesis using int_string_inj [OF assms(1,2)] by simp
qed

text \<open>A worker ID, a hash, a token or a delivery ID is copied as it is.\<close>

lemma plain_class:
  "is_lower_alnum c \<Longrightarrow> plain_char c" "is_alnum c \<Longrightarrow> plain_char c" "is_digit c \<Longrightarrow> plain_char c"
  "is_hex_lower c \<Longrightarrow> plain_char c" "b64url_char c \<Longrightarrow> plain_char c" "plain_char CHR ''-''"
  by (auto simp: plain_char_def is_lower_alnum_def is_alnum_def b64url_char_def is_hex_lower_def
      is_lower_def is_upper_def is_digit_def code_def)

section \<open>Length in bytes\<close>

text \<open>\<open>new TextEncoder().encode(s).byteLength\<close>.\<close>

definition byte_length :: "string \<Rightarrow> nat" where
  "byte_length s = length (utf8 s)"

lemma length_le_byte_length: "length s \<le> byte_length s"
  by (induction s) (auto simp: byte_length_def utf8_def utf8_char_def)

end
