(* ===== verification/Gate.thy ===== *)
theory Gate imports JsValue
begin

text \<open>
  The shape every gate of the program shares: a frozen object with a \<open>state\<close>, a
  \<open>code\<close> and a constant block of negative claims, and the contract such a block keeps.
  The blocks are constants of the modules that use them; each one is an instance of the locale.
\<close>

section \<open>Object literals with spreads\<close>

text \<open>A later property of the same name replaces the value at the earlier one's position.\<close>

definition js_object :: "(string \<times> jsval) list \<Rightarrow> jsval" where
  "js_object kvs = JObj (foldl (\<lambda>m kv. AList.update (fst kv) (snd kv) m) [] kvs)"

lemma map_of_foldl_update:
  "map_of (foldl (\<lambda>m kv. AList.update (fst kv) (snd kv) m) m kvs) = map_of m ++ map_of (rev kvs)"
proof (induction kvs arbitrary: m)
  case (Cons kv kvs)
  then show ?case
    by (simp add: update_conv' map_add_assoc [symmetric] map_add_upd_left fun_eq_iff map_add_def
        split: option.splits)
qed simp

lemma js_get_js_object: "js_get (js_object kvs) k =
    (case map_of (rev kvs) k of Some v \<Rightarrow> v | None \<Rightarrow> JUndef)"
  by (simp add: js_object_def map_of_foldl_update)

lemma js_get_spread:
  "js_get (js_object (xs @ ys)) k =
     (case map_of (rev ys) k of Some v \<Rightarrow> v | None \<Rightarrow> js_get (js_object xs) k)"
  by (simp add: js_get_js_object map_add_def split: option.splits)

section \<open>Negative blocks\<close>

definition gate_deny :: "(string \<times> jsval) list \<Rightarrow> string \<Rightarrow> jsval" where
  "gate_deny neg c = js_object ([(''state'', JStr ''BLOCKED''), (''code'', JStr c)] @ neg)"

definition gate_pass :: "(string \<times> jsval) list \<Rightarrow> (string \<times> jsval) list \<Rightarrow> jsval" where
  "gate_pass neg fields = js_object (fields @ neg)"

text \<open>
  What a result must never say: its authority is \<open>NONE\<close>, and none of the listed claims
  is anything but false.
\<close>

definition grants_nothing :: "string list \<Rightarrow> jsval \<Rightarrow> bool" where
  "grants_nothing claims r \<longleftrightarrow> js_get r ''authority'' = JStr ''NONE'' \<and>
     list_all (\<lambda>k. js_get r k = JBool False) claims"

locale negative_block =
  fixes neg :: "(string \<times> jsval) list"
    and claims :: "string list"
  assumes block_authority: "map_of (rev neg) ''authority'' = Some (JStr ''NONE'')"
    and block_claims: "list_all (\<lambda>k. map_of (rev neg) k = Some (JBool False)) claims"
    and block_reserved: "map_of (rev neg) ''state'' = None \<and> map_of (rev neg) ''code'' = None"
begin

lemma deny_state [gate_simps]: "js_get (gate_deny neg c) ''state'' = JStr ''BLOCKED''"
  using block_reserved by (simp add: gate_deny_def js_get_js_object map_add_def)

lemma deny_code [gate_simps]: "js_get (gate_deny neg c) ''code'' = JStr c"
  using block_reserved by (simp add: gate_deny_def js_get_js_object map_add_def)

lemma pass_reserved [gate_simps]:
  "k \<in> {''state'', ''code''} \<Longrightarrow> js_get (gate_pass neg fields) k = js_get (js_object fields) k"
  using block_reserved by (auto simp: gate_pass_def js_get_spread)

lemma pass_grants_nothing: "grants_nothing claims (gate_pass neg fields)"
  using block_authority block_claims
  by (auto simp: grants_nothing_def gate_pass_def js_get_spread list_all_iff)

lemma deny_grants_nothing: "grants_nothing claims (gate_deny neg c)"
  using block_authority block_claims
  by (auto simp: grants_nothing_def gate_deny_def js_get_js_object map_add_def list_all_iff)

end

end
