(* ===== verification/RelayCredentials.thy ===== *)
theory RelayCredentials imports RelayProtocol JsonText Gate
begin

text \<open>
  The credentials of the relay: the bearer token of a worker and the signature of a GitHub
  webhook (\<open>protocol.js\<close>), and the device presentation of \<open>relay-credential-v2.js\<close>.
  WebCrypto is not code of the repository: the MAC, the digest and the ECDSA check are
  parameters. What the code relies on is the predicate \<open>hmac_laws\<close>.
\<close>

section \<open>The MAC\<close>

type_synonym mac_sign = "bytes \<Rightarrow> bytes \<Rightarrow> bytes"
type_synonym mac_verify = "bytes \<Rightarrow> bytes \<Rightarrow> bytes \<Rightarrow> bool"

text \<open>
  WebCrypto: an HMAC-SHA-256 signature has 32 bytes, and \<open>verify(key, signature, data)\<close>
  compares the signature with the one \<open>sign(key, data)\<close> returns.
\<close>

definition hmac_laws :: "mac_sign \<Rightarrow> mac_verify \<Rightarrow> bool" where
  "hmac_laws sign verify \<longleftrightarrow>
     (\<forall>k m. length (sign k m) = 32) \<and> (\<forall>k t m. verify k t m \<longleftrightarrow> t = sign k m)"

section \<open>Bearer tokens\<close>

definition RELAY_TOKEN_CONTEXT :: string where
  "RELAY_TOKEN_CONTEXT = ''bke-worker-relay-v1:''"

definition relayHmacKey :: "string \<Rightarrow> bytes option" where
  "relayHmacKey secretKey = (if length secretKey < 32 then None else Some (utf8 secretKey))"

definition deriveRelayToken :: "mac_sign \<Rightarrow> string \<Rightarrow> string \<Rightarrow> string + string" where
  "deriveRelayToken sign secretKey wid =
     (if \<not> worker_id_re wid then Inl ''WORKER_ID_INVALID''
      else case relayHmacKey secretKey of
             None \<Rightarrow> Inl ''RELAY_TOKEN_KEY_INVALID''
           | Some key \<Rightarrow> Inr (bytesToBase64Url (sign key (utf8 (RELAY_TOKEN_CONTEXT @ wid)))))"

text \<open>\<open>/^Bearer ([A-Za-z0-9_-]{43})$/\<close>: the captured group.\<close>

definition bearer_group :: "string \<Rightarrow> string option" where
  "bearer_group header =
     (if starts_with header ''Bearer '' \<and> class_rep b64url_char 43 43 (drop 7 header)
      then Some (drop 7 header) else None)"

definition relayBearerMatches :: "mac_verify \<Rightarrow> string \<Rightarrow> string \<Rightarrow> string \<Rightarrow> bool" where
  "relayBearerMatches verify header secretKey wid =
     (if \<not> worker_id_re wid then False
      else case bearer_group header of None \<Rightarrow> False
      | Some grp \<Rightarrow>
          (case (base64UrlToBytes grp, relayHmacKey secretKey) of
             (Some supplied, Some key) \<Rightarrow> verify key supplied (utf8 (RELAY_TOKEN_CONTEXT @ wid))
           | _ \<Rightarrow> False))"

section \<open>Webhook signatures\<close>

fun hex_pairs :: "string \<Rightarrow> bytes" where
  "hex_pairs (a # b # r) = char_of (16 * digit_val a + digit_val b) # hex_pairs r"
| "hex_pairs _ = []"

definition hexToBytes :: "string \<Rightarrow> bytes option" where
  "hexToBytes hex = (if class_rep is_hex 64 64 hex then Some (hex_pairs hex) else None)"

text \<open>\<open>/^sha256=([0-9a-f]{64})$/i\<close>: the prefix is matched up to case as well.\<close>

definition signature_group :: "string \<Rightarrow> string option" where
  "signature_group header =
     (if starts_with (to_lower header) ''sha256='' \<and> class_rep is_hex 64 64 (drop 7 header)
      then Some (drop 7 header) else None)"

definition verifyGitHubSignature :: "mac_verify \<Rightarrow> bytes \<Rightarrow> string \<Rightarrow> string \<Rightarrow> bool" where
  "verifyGitHubSignature verify body header secret =
     (if secret = [] \<or> header = [] then False
      else case signature_group header of None \<Rightarrow> False
      | Some grp \<Rightarrow>
          (case hexToBytes grp of None \<Rightarrow> False
           | Some supplied \<Rightarrow> verify (utf8 secret) supplied body))"

section \<open>The device presentation, version 2\<close>

definition AUD :: string where "AUD = ''bke-worker/relay/geckoview-device/v2''"

definition PROOF_AUD :: string where "PROOF_AUD = ''bke-worker/relay/geckoview-wss-proof/v1''"

definition MAX_TTL :: int where "MAX_TTL = 300000"

text \<open>The keys of an object sorted and joined by commas, compared with the joined wanted keys.\<close>

definition exact_joined :: "jsval \<Rightarrow> string list \<Rightarrow> bool" where
  "exact_joined v wanted \<longleftrightarrow> is_object v \<and> join_comma (sort (js_keys v)) = join_comma (sort wanted)"

fun install_re :: "string \<Rightarrow> bool" where
  "install_re [] = False"
| "install_re (c # cs) = (is_digit c \<and> c \<noteq> CHR ''0'' \<and> length cs \<le> 19 \<and> list_all is_digit cs)"

definition hash_re :: "string \<Rightarrow> bool" where
  "hash_re = class_rep is_hex_lower 64 64"

definition boundedTime :: "jsval \<Rightarrow> bool" where
  "boundedTime v \<longleftrightarrow> is_safe_integer v \<and> 0 < the_int v \<and> the_int v < 253402300799999"

definition validHash :: "jsval \<Rightarrow> bool" where
  "validHash v \<longleftrightarrow> is_JStr v \<and> hash_re (str_or_empty v)"

definition validEpoch :: "jsval \<Rightarrow> bool" where
  "validEpoch v \<longleftrightarrow> is_safe_integer v \<and> 1 \<le> the_int v \<and> the_int v \<le> 1000000"

fun decode_field :: "nat \<Rightarrow> nat \<Rightarrow> jsval \<Rightarrow> bytes option" where
  "decode_field chars n (JStr s) = decodeBase64Url chars n s"
| "decode_field chars n _ = None"

text \<open>An array of strings and numbers always has a JSON text.\<close>

definition json_array :: "jsval list \<Rightarrow> string" where
  "json_array xs = (case json_stringify (JArr xs) of Some t \<Rightarrow> t | None \<Rightarrow> [])"

definition relayLeaseV2Message :: "jsval \<Rightarrow> string" where
  "relayLeaseV2Message lease = json_array
     [JStr AUD, js_get lease ''v'', js_get lease ''installation_id'', js_get lease ''worker_id'',
      js_get lease ''device_key_sha256'', js_get lease ''session_binding_sha256'',
      js_get lease ''epoch'', js_get lease ''token_id'', js_get lease ''issued_at_ms'',
      js_get lease ''expires_at_ms'']"

definition relayWssProofV2Message :: "jsval \<Rightarrow> jsval \<Rightarrow> jsval \<Rightarrow> string" where
  "relayWssProofV2Message prf lease tag = json_array
     [JStr PROOF_AUD, js_get prf ''v'', js_get lease ''installation_id'', js_get lease ''worker_id'',
      js_get lease ''token_id'', tag, js_get prf ''nonce'', js_get prf ''method'', js_get prf ''path'']"

definition validPublicKey :: "jsval \<Rightarrow> bool" where
  "validPublicKey jwk \<longleftrightarrow> exact_joined jwk [''crv'', ''kty'', ''x'', ''y''] \<and>
     js_eq (js_get jwk ''kty'') (JStr ''EC'') \<and> js_eq (js_get jwk ''crv'') (JStr ''P-256'') \<and>
     decode_field 43 32 (js_get jwk ''x'') \<noteq> None \<and> decode_field 43 32 (js_get jwk ''y'') \<noteq> None"

definition validLease :: "jsval \<Rightarrow> bool" where
  "validLease lease \<longleftrightarrow>
     exact_joined lease [''device_key_sha256'', ''epoch'', ''expires_at_ms'', ''installation_id'',
       ''issued_at_ms'', ''session_binding_sha256'', ''token_id'', ''v'', ''worker_id''] \<and>
     js_eq (js_get lease ''v'') (JInt 2) \<and>
     is_JStr (js_get lease ''worker_id'') \<and> worker_id_re (str_or_empty (js_get lease ''worker_id'')) \<and>
     is_JStr (js_get lease ''installation_id'') \<and>
     install_re (str_or_empty (js_get lease ''installation_id'')) \<and>
     validHash (js_get lease ''device_key_sha256'') \<and>
     validHash (js_get lease ''session_binding_sha256'') \<and>
     validEpoch (js_get lease ''epoch'') \<and>
     decode_field 22 16 (js_get lease ''token_id'') \<noteq> None \<and>
     boundedTime (js_get lease ''issued_at_ms'') \<and> boundedTime (js_get lease ''expires_at_ms'') \<and>
     the_int (js_get lease ''issued_at_ms'') < the_int (js_get lease ''expires_at_ms'') \<and>
     the_int (js_get lease ''expires_at_ms'') - the_int (js_get lease ''issued_at_ms'') \<le> MAX_TTL"

definition validProof :: "jsval \<Rightarrow> jsval \<Rightarrow> bool" where
  "validProof prf worker \<longleftrightarrow>
     exact_joined prf [''method'', ''nonce'', ''path'', ''signature'', ''v''] \<and>
     js_eq (js_get prf ''v'') (JInt 1) \<and> js_eq (js_get prf ''method'') (JStr ''GET'') \<and>
     js_eq (js_get prf ''path'') (JStr (''/relay/'' @ js_string worker)) \<and>
     decode_field 43 32 (js_get prf ''nonce'') \<noteq> None \<and>
     decode_field 86 64 (js_get prf ''signature'') \<noteq> None"

text \<open>The worker ID is tested without a type check, so it is converted to a string first.\<close>

definition validExpected :: "jsval \<Rightarrow> bool" where
  "validExpected e \<longleftrightarrow>
     exact_joined e [''epoch'', ''installation_id'', ''session_binding_sha256'', ''worker_id''] \<and>
     validEpoch (js_get e ''epoch'') \<and>
     is_JStr (js_get e ''installation_id'') \<and>
     install_re (str_or_empty (js_get e ''installation_id'')) \<and>
     validHash (js_get e ''session_binding_sha256'') \<and>
     worker_id_re (js_string (js_get e ''worker_id''))"

text \<open>
  The platform as the verifier sees it: whether \<open>subtle.verify\<close> and
  \<open>subtle.digest\<close> exist, and their results, \<^const>\<open>None\<close> for an exception.
\<close>

record webcrypto =
  wc_available :: bool
  wc_digest :: "bytes \<Rightarrow> bytes option"
  wc_hmac_verify :: "bytes \<Rightarrow> bytes \<Rightarrow> bytes \<Rightarrow> bool option"
  wc_ecdsa_verify :: "jsval \<Rightarrow> bytes \<Rightarrow> bytes \<Rightarrow> bool option"

definition V2_NEGATIVE :: "(string \<times> jsval) list" where
  "V2_NEGATIVE = [(''authority'', JStr ''NONE'')]"

definition V2_UNCHECKED :: "(string \<times> jsval) list" where
  "V2_UNCHECKED = [(''nonce_authority'', JStr ''NOT_CHECKED''),
     (''paired_device_authority'', JStr ''NOT_CHECKED''),
     (''relay_connection_authority'', JStr ''NONE''), (''renewal_authority'', JStr ''NONE'')]"

abbreviation "v2_block \<equiv> gate_deny V2_NEGATIVE"

definition hex_bytes :: "bytes \<Rightarrow> string" where
  "hex_bytes bs = concat (map (\<lambda>b. [hex_digit (code b div 16), hex_digit (code b mod 16)]) bs)"

definition thumbprint_text :: "jsval \<Rightarrow> string" where
  "thumbprint_text jwk = json_array [JStr ''EC'', JStr ''P-256'', js_get jwk ''x'', js_get jwk ''y'']"

definition v2_crypto :: "webcrypto \<Rightarrow> jsval \<Rightarrow> jsval \<Rightarrow> bytes \<Rightarrow> jsval \<Rightarrow> jsval" where
  "v2_crypto wc credential prf serverKey jwk =
     (let lease = js_get credential ''lease''; tag = js_get credential ''tag'' in
      case wc_digest wc (utf8 (thumbprint_text jwk)) of
        None \<Rightarrow> v2_block ''V2_CRYPTO_DENIED''
      | Some thumbprint \<Rightarrow>
      if \<not> js_eq (js_get lease ''device_key_sha256'') (JStr (hex_bytes thumbprint)) then
        v2_block ''V2_DEVICE_KEY_MISMATCH''
      else case wc_hmac_verify wc serverKey (the (decode_field 43 32 tag)) (utf8 (relayLeaseV2Message lease)) of
        None \<Rightarrow> v2_block ''V2_CRYPTO_DENIED''
      | Some False \<Rightarrow> v2_block ''V2_LEASE_MAC_DENIED''
      | Some True \<Rightarrow>
      (case wc_ecdsa_verify wc jwk (the (decode_field 86 64 (js_get prf ''signature'')))
              (utf8 (relayWssProofV2Message prf lease tag)) of
        None \<Rightarrow> v2_block ''V2_CRYPTO_DENIED''
      | Some False \<Rightarrow> v2_block ''V2_DEVICE_PROOF_DENIED''
      | Some True \<Rightarrow> js_object ([(''state'', JStr ''CRYPTO_VERIFIED_ONLY''),
          (''authority'', JStr ''NONE'')] @ V2_UNCHECKED)))"

text \<open>
  \<open>serverKey\<close> is \<^const>\<open>None\<close> when it is no \<open>Uint8Array\<close>, the clock reading
  is \<^const>\<open>None\<close> when \<open>now()\<close> throws.
\<close>

definition verifyGeckoRelayPresentationV2 ::
  "webcrypto \<Rightarrow> jsval option \<Rightarrow> jsval \<Rightarrow> jsval \<Rightarrow> jsval \<Rightarrow> bytes option \<Rightarrow> jsval \<Rightarrow> jsval" where
  "verifyGeckoRelayPresentationV2 wc clock credential prf expected serverKey jwk =
     (case serverKey of None \<Rightarrow> v2_block ''V2_TRUSTED_CONFIGURATION_REQUIRED''
      | Some key \<Rightarrow>
      if \<not> validExpected expected \<or> length key < 32 \<or> \<not> validPublicKey jwk \<or> \<not> wc_available wc then
        v2_block ''V2_TRUSTED_CONFIGURATION_REQUIRED''
      else let lease = js_get credential ''lease'' in
      if \<not> exact_joined credential [''lease'', ''tag''] \<or> \<not> validLease lease \<or>
         decode_field 43 32 (js_get credential ''tag'') = None then
        v2_block ''V2_CREDENTIAL_MALFORMED''
      else if \<not> js_eq (js_get lease ''worker_id'') (js_get expected ''worker_id'') \<or>
         \<not> js_eq (js_get lease ''installation_id'') (js_get expected ''installation_id'') \<or>
         \<not> js_eq (js_get lease ''session_binding_sha256'') (js_get expected ''session_binding_sha256'') \<or>
         \<not> js_eq (js_get lease ''epoch'') (js_get expected ''epoch'') then
        v2_block ''V2_CREDENTIAL_SCOPE_MISMATCH''
      else case clock of None \<Rightarrow> v2_block ''V2_CLOCK_UNAVAILABLE''
      | Some instant \<Rightarrow>
      if \<not> boundedTime instant \<or> the_int instant < the_int (js_get lease ''issued_at_ms'') \<or>
         the_int (js_get lease ''expires_at_ms'') \<le> the_int instant then
        v2_block ''V2_CREDENTIAL_EXPIRED_OR_FUTURE''
      else if \<not> validProof prf (js_get expected ''worker_id'') then v2_block ''V2_PROOF_MALFORMED''
      else v2_crypto wc credential prf key jwk)"

section \<open>Unambiguous messages\<close>

text \<open>A field of a signed message: plain text or a number that is not negative.\<close>

fun plain_scalar :: "jsval \<Rightarrow> bool" where
  "plain_scalar (JStr s) = list_all plain_char s"
| "plain_scalar (JInt n) = (0 \<le> n)"
| "plain_scalar _ = False"

definition scalar_text :: "jsval \<Rightarrow> string" where
  "scalar_text v = (case json_stringify v of None \<Rightarrow> ''null'' | Some t \<Rightarrow> t)"

lemma json_array_eq: "json_array xs = ''['' @ join_comma (map scalar_text xs) @ '']''"
  by (simp add: json_array_def scalar_text_def [abs_def])

lemma takeWhile_digits: "0 \<le> n \<Longrightarrow> \<not> is_digit c \<Longrightarrow> takeWhile is_digit (int_string n @ c # u) = int_string n"
  using int_string_digits [of n] by (simp add: list_all_iff takeWhile_append2)

lemma int_string_not_quote: "0 \<le> n \<Longrightarrow> int_string n @ u \<noteq> json_quote s @ v"
proof
  assume "0 \<le> n" and eq: "int_string n @ u = json_quote s @ v"
  then obtain c cs where "int_string n = c # cs" "is_digit c"
    using int_string_digits [of n] digits_of_nonempty [of "nat n"]
    by (cases "int_string n") (auto simp: int_string_def)
  with eq show False by (auto simp: json_quote_def is_digit_def code_def)
qed

lemma scalar_text_split:
  assumes "plain_scalar x" "plain_scalar y" and "\<not> is_digit c" "\<not> is_digit d"
    and "scalar_text x @ c # u = scalar_text y @ d # v"
  shows "x = y \<and> c = d \<and> u = v"
proof (cases x)
  case (JStr s)
  show ?thesis
  proof (cases y)
    case (JStr t)
    with \<open>x = JStr s\<close> assms show ?thesis
      using json_quote_split [of s t "c # u" "d # v"] by (simp add: scalar_text_def)
  next
    case (JInt n)
    with \<open>x = JStr s\<close> assms show ?thesis
      using int_string_not_quote [of n "d # v" s "c # u"] by (simp add: scalar_text_def)
  qed (use assms(2) in simp_all)
next
  case (JInt m)
  show ?thesis
  proof (cases y)
    case (JStr t)
    with \<open>x = JInt m\<close> assms show ?thesis
      using int_string_not_quote [of m "c # u" t "d # v"] by (simp add: scalar_text_def)
  next
    case (JInt n)
    with \<open>x = JInt m\<close> assms have eq: "int_string m @ c # u = int_string n @ d # v" "0 \<le> m" "0 \<le> n"
      by (simp_all add: scalar_text_def)
    then have "int_string m = int_string n"
      using takeWhile_digits [of m c u] takeWhile_digits [of n d v] assms(3,4) by simp
    with eq JInt \<open>x = JInt m\<close> show ?thesis using int_string_inj [of m n] by simp
  qed (use assms(2) in simp_all)
qed (use assms(1) in simp_all)

definition scalar_tail :: "jsval list \<Rightarrow> string" where
  "scalar_tail xs = (if xs = [] then '']'' else '','' @ join_comma (map scalar_text xs) @ '']'')"

lemma join_comma_Cons:
  "join_comma (map scalar_text (x # xs)) @ '']'' = scalar_text x @ scalar_tail xs"
  by (cases xs) (simp_all add: scalar_tail_def)

lemma scalar_tail_head: "\<exists>c u. scalar_tail xs = c # u \<and> \<not> is_digit c"
  by (simp add: scalar_tail_def is_digit_def code_def)

lemma scalar_tail_inj:
  assumes "list_all plain_scalar xs" "list_all plain_scalar ys" and "scalar_tail xs = scalar_tail ys"
  shows "xs = ys"
  using assms
proof (induction xs arbitrary: ys)
  case Nil
  then show ?case by (simp add: scalar_tail_def split: if_splits)
next
  case (Cons x xs)
  then obtain y ys' where ys: "ys = y # ys'" by (cases ys) (simp_all add: scalar_tail_def)
  have eq: "scalar_text x @ scalar_tail xs = scalar_text y @ scalar_tail ys'"
    using Cons.prems(3) unfolding ys by (simp add: scalar_tail_def [of "_ # _"] join_comma_Cons del: list.map)
  obtain c u where c: "scalar_tail xs = c # u" "\<not> is_digit c" using scalar_tail_head by blast
  obtain d v where d: "scalar_tail ys' = d # v" "\<not> is_digit d" using scalar_tail_head by blast
  have "x = y \<and> scalar_tail xs = scalar_tail ys'"
    using scalar_text_split [of x y c d u v] Cons.prems eq c d by (simp add: ys)
  then show ?case using Cons ys by simp
qed

lemma join_comma_inj:
  assumes "list_all plain_scalar xs" "list_all plain_scalar ys" "xs \<noteq> []" "ys \<noteq> []"
    and "join_comma (map scalar_text xs) @ '']'' = join_comma (map scalar_text ys) @ '']''"
  shows "xs = ys"
  using scalar_tail_inj [of xs ys] assms by (simp add: scalar_tail_def)

lemma json_array_inj:
  assumes "list_all plain_scalar xs" "list_all plain_scalar ys" "xs \<noteq> []" "ys \<noteq> []"
    and "json_array xs = json_array ys"
  shows "xs = ys"
  using join_comma_inj [OF assms(1-4)] assms(5) by (simp add: json_array_eq)

lemma plain_class_rep: "class_rep p lo hi s \<Longrightarrow> (\<And>c. p c \<Longrightarrow> plain_char c) \<Longrightarrow> list_all plain_char s"
  by (auto simp: class_rep_def list_all_iff)

lemma plain_worker_id: "worker_id_re s \<Longrightarrow> list_all plain_char s"
  by (cases s) (auto simp: worker_id_re_def list_all_iff intro: plain_class)

lemma plain_install: "install_re s \<Longrightarrow> list_all plain_char s"
  by (cases s) (auto simp: list_all_iff intro: plain_class)

lemma plain_hash: "validHash v \<Longrightarrow> plain_scalar v"
  by (cases v) (auto simp: validHash_def hash_re_def class_rep_def list_all_iff intro: plain_class)

lemma plain_decoded: "decode_field n m v = Some bs \<Longrightarrow> plain_scalar v"
  by (cases v) (auto simp: decodeBase64Url_def class_rep_def list_all_iff intro: plain_class split: if_splits)

lemma plain_epoch: "validEpoch v \<Longrightarrow> plain_scalar v"
  by (cases v) (auto simp: validEpoch_def)

lemma plain_time: "boundedTime v \<Longrightarrow> plain_scalar v"
  by (cases v) (auto simp: boundedTime_def)

definition lease_fields :: "jsval \<Rightarrow> jsval list" where
  "lease_fields l = map (js_get l) [''installation_id'', ''worker_id'',
      ''device_key_sha256'', ''session_binding_sha256'',
      ''epoch'', ''token_id'', ''issued_at_ms'', ''expires_at_ms'']"

lemma lease_scalars: "validLease l \<Longrightarrow> list_all plain_scalar (lease_fields l) \<and> js_get l ''v'' = JInt 2"
  by (auto simp: validLease_def lease_fields_def plain_worker_id plain_install plain_hash plain_decoded
      plain_epoch plain_time js_simps)

lemma lease_message_fields:
  assumes "validLease l" and "validLease m" and "relayLeaseV2Message l = relayLeaseV2Message m"
  shows "lease_fields l = lease_fields m"
proof -
  have plain: "plain_scalar (JStr AUD)" by code_simp
  have "JStr AUD # JInt 2 # lease_fields l = JStr AUD # JInt 2 # lease_fields m"
    by (rule json_array_inj)
      (use lease_scalars assms plain in \<open>simp_all add: relayLeaseV2Message_def lease_fields_def\<close>)
  then show ?thesis by simp
qed

text \<open>Two leases the verifier accepts have the same signed message only when all their
  fields are equal, so the lease MAC commits to every field of the lease.\<close>

theorem lease_message_injective:
  assumes "validLease l" and "validLease m" and "relayLeaseV2Message l = relayLeaseV2Message m"
  shows "lease_fields l = lease_fields m \<and> js_get l ''v'' = js_get m ''v''"
  using lease_message_fields [OF assms] lease_scalars assms(1,2) by simp

definition sample_lease :: jsval where
  "sample_lease = JObj [(''v'', JInt 2), (''installation_id'', JStr ''4242''),
     (''worker_id'', JStr ''bke-13''), (''device_key_sha256'', JStr (replicate 64 CHR ''a'')),
     (''session_binding_sha256'', JStr (replicate 64 CHR ''b'')), (''epoch'', JInt 3),
     (''token_id'', JStr (replicate 22 CHR ''A'')), (''issued_at_ms'', JInt 1000),
     (''expires_at_ms'', JInt 61000)]"

lemma sample_lease_valid: "validLease sample_lease"
  by code_simp

theorem lease_message_injective_witness:
  "lease_fields sample_lease = lease_fields sample_lease \<and> js_get sample_lease ''v'' = JInt 2"
  using lease_message_injective [OF sample_lease_valid sample_lease_valid refl]
  by (simp add: sample_lease_def)

section \<open>Bearer tokens\<close>

lemma bearer_group_prefix: "bearer_group (''Bearer '' @ t) =
    (if class_rep b64url_char 43 43 t then Some t else None)"
  by (simp add: bearer_group_def starts_with_def)

lemma hmac_lawsD:
  assumes "hmac_laws sign verify"
  shows "length (sign k m) = 32" and "verify k t m \<longleftrightarrow> t = sign k m"
  using assms by (auto simp: hmac_laws_def)

lemma deriveRelayToken_Inr: "deriveRelayToken sign key wid = Inr tok \<longleftrightarrow> worker_id_re wid \<and>
    32 \<le> length key \<and> tok = bytesToBase64Url (sign (utf8 key) (utf8 (RELAY_TOKEN_CONTEXT @ wid)))"
  by (auto simp: deriveRelayToken_def relayHmacKey_def)

text \<open>A token derived for a worker is the 43-character credential that the relay accepts for
  exactly this worker: it passes for a worker ID if the ID is well formed and the MAC of its
  context is the one the token encodes.\<close>

theorem derived_token_accepted_iff:
  assumes "hmac_laws sign verify" and "deriveRelayToken sign key wid = Inr tok"
  shows "length tok = 43 \<and>
    (relayBearerMatches verify (''Bearer '' @ tok) key other \<longleftrightarrow> worker_id_re other \<and>
       sign (utf8 key) (utf8 (RELAY_TOKEN_CONTEXT @ wid)) =
       sign (utf8 key) (utf8 (RELAY_TOKEN_CONTEXT @ other)))"
proof -
  let ?mac = "sign (utf8 key) (utf8 (RELAY_TOKEN_CONTEXT @ wid))"
  have tok: "tok = bytesToBase64Url ?mac" "32 \<le> length key"
    using assms(2) by (simp_all add: deriveRelayToken_Inr)
  have len: "length ?mac = 32" by (rule hmac_lawsD [OF assms(1)])
  then have "length tok = 43" by (simp add: tok length_bytesToBase64Url)
  moreover from this have "bearer_group (''Bearer '' @ tok) = Some tok"
    unfolding bearer_group_prefix by (simp add: class_rep_def tok bytesToBase64Url_chars)
  moreover have "base64UrlToBytes tok = Some ?mac" unfolding tok by (rule base64UrlToBytes_encode [OF len])
  ultimately show ?thesis
    using tok(2) by (simp add: relayBearerMatches_def relayHmacKey_def hmac_lawsD(2) [OF assms(1)])
qed

text \<open>A MAC for the witnesses: the last 32 bytes of the padded message.\<close>

definition toy_sign :: mac_sign where
  "toy_sign k m = last_n 32 (replicate 32 CHR 0x00 @ m)"

lemma toy_laws: "hmac_laws toy_sign (\<lambda>k t m. t = toy_sign k m)"
  by (simp add: hmac_laws_def toy_sign_def)

theorem derived_token_accepted_iff_witness:
  "relayBearerMatches (\<lambda>k t m. t = toy_sign k m)
     (''Bearer '' @ projr (deriveRelayToken toy_sign (replicate 32 CHR ''k'') ''bke-13''))
     (replicate 32 CHR ''k'') ''bke-13'' \<and>
   \<not> relayBearerMatches (\<lambda>k t m. t = toy_sign k m)
     (''Bearer '' @ projr (deriveRelayToken toy_sign (replicate 32 CHR ''k'') ''bke-13''))
     (replicate 32 CHR ''k'') ''bke-14''"
proof -
  let ?key = "replicate 32 CHR ''k''"
  obtain tok where tok: "deriveRelayToken toy_sign ?key ''bke-13'' = Inr tok"
    by (simp add: deriveRelayToken_Inr worker_id_re_def char_class_defs)
  have ids: "worker_id_re ''bke-13''" "worker_id_re ''bke-14''" by code_simp+
  have "toy_sign (utf8 ?key) (utf8 (RELAY_TOKEN_CONTEXT @ ''bke-13'')) \<noteq>
        toy_sign (utf8 ?key) (utf8 (RELAY_TOKEN_CONTEXT @ ''bke-14''))" by code_simp
  then show ?thesis
    using derived_token_accepted_iff [OF toy_laws tok, of "''bke-13''"]
      derived_token_accepted_iff [OF toy_laws tok, of "''bke-14''"] ids tok by simp
qed

section \<open>Webhook signatures\<close>

lemma hex_digit_facts: "n < 16 \<Longrightarrow> is_hex (hex_digit n) \<and> digit_val (hex_digit n) = n"
  by (auto simp: hex_digit_def is_hex_def is_hex_lower_def is_digit_def is_lower_def digit_val_def)

lemma hex_digit_code: "is_hex (hex_digit (code b div 16)) \<and> is_hex (hex_digit (code b mod 16)) \<and>
    digit_val (hex_digit (code b div 16)) = code b div 16 \<and>
    digit_val (hex_digit (code b mod 16)) = code b mod 16"
  using code_less [of b] hex_digit_facts by (simp add: less_mult_imp_div_less)

lemma hexToBytes_encode: "length bs = 32 \<Longrightarrow> hexToBytes (hex_bytes bs) = Some bs"
proof -
  have "list_all is_hex (hex_bytes bs) \<and> length (hex_bytes bs) = 2 * length bs \<and> hex_pairs (hex_bytes bs) = bs"
    by (induction bs) (simp_all add: hex_bytes_def hex_digit_code)
  then show "length bs = 32 \<Longrightarrow> ?thesis" by (simp add: hexToBytes_def class_rep_def)
qed


text \<open>The webhook accepts the signature of a body, written in hexadecimal after
  \<open>sha256=\<close>, for exactly the bodies with the same MAC, and never with an empty secret.\<close>

theorem webhook_signature_iff:
  assumes "hmac_laws sign verify"
  shows "verifyGitHubSignature verify other (''sha256='' @ hex_bytes (sign (utf8 secret) body)) secret
    \<longleftrightarrow> secret \<noteq> [] \<and> sign (utf8 secret) other = sign (utf8 secret) body"
proof -
  let ?mac = "sign (utf8 secret) body"
  have hex: "hexToBytes (hex_bytes ?mac) = Some ?mac"
    by (rule hexToBytes_encode) (rule hmac_lawsD [OF assms])
  then have "class_rep is_hex 64 64 (hex_bytes ?mac)" by (auto simp: hexToBytes_def split: if_splits)
  moreover have "starts_with (to_lower (''sha256='' @ u)) ''sha256=''" for u
    by (simp add: starts_with_def to_lower_def lower_char_def is_upper_def code_def)
  ultimately have "signature_group (''sha256='' @ hex_bytes ?mac) = Some (hex_bytes ?mac)"
    unfolding signature_group_def by simp
  then show ?thesis by (auto simp: verifyGitHubSignature_def hex hmac_lawsD(2) [OF assms])
qed

theorem webhook_signature_iff_witness:
  "verifyGitHubSignature (\<lambda>k t m. t = toy_sign k m) ''{}''
     (''sha256='' @ hex_bytes (toy_sign (utf8 ''secret'') ''{}'')) ''secret'' \<and>
   \<not> verifyGitHubSignature (\<lambda>k t m. t = toy_sign k m) ''{ }''
     (''sha256='' @ hex_bytes (toy_sign (utf8 ''secret'') ''{}'')) ''secret''"
proof -
  have "toy_sign (utf8 ''secret'') ''{ }'' \<noteq> toy_sign (utf8 ''secret'') ''{}''" by code_simp
  then show ?thesis
    using webhook_signature_iff [OF toy_laws, of "''{}''" "''secret''" "''{}''"]
      webhook_signature_iff [OF toy_laws, of "''{ }''" "''secret''" "''{}''"] by simp
qed

section \<open>What a presentation proves\<close>

interpretation v2: negative_block V2_NEGATIVE "[]"
  by unfold_locales (simp_all add: V2_NEGATIVE_def)

lemmas v2_simps = v2.deny_state v2.deny_code

lemma v2_deny_authority: "js_get (gate_deny V2_NEGATIVE c) ''authority'' = JStr ''NONE''"
  using v2.deny_grants_nothing [of c] by (simp add: grants_nothing_def)

text \<open>The three results of the crypto step.\<close>

lemma v2_crypto_verified:
  assumes "js_get (v2_crypto wc cred prf key jwk) ''state'' = JStr ''CRYPTO_VERIFIED_ONLY''"
  shows "\<exists>h. wc_digest wc (utf8 (thumbprint_text jwk)) = Some h \<and>
      js_get (js_get cred ''lease'') ''device_key_sha256'' = JStr (hex_bytes h) \<and>
      wc_hmac_verify wc key (the (decode_field 43 32 (js_get cred ''tag'')))
        (utf8 (relayLeaseV2Message (js_get cred ''lease''))) = Some True \<and>
      wc_ecdsa_verify wc jwk (the (decode_field 86 64 (js_get prf ''signature'')))
        (utf8 (relayWssProofV2Message prf (js_get cred ''lease'') (js_get cred ''tag''))) = Some True"
  using assms
  by (simp add: v2_crypto_def Let_def v2_simps split: option.splits if_splits bool.splits)

text \<open>No result of the presentation check carries authority. It is a blocked result or the
  result that the cryptography verified, and the latter says that neither the nonce nor the
  paired device was checked and that no connection or renewal is granted.\<close>

theorem v2_never_authority:
  "let r = verifyGeckoRelayPresentationV2 wc clock credential prf expected serverKey jwk in
   js_get r ''authority'' = JStr ''NONE'' \<and>
   (js_get r ''state'' = JStr ''BLOCKED'' \<or>
    js_get r ''state'' = JStr ''CRYPTO_VERIFIED_ONLY'' \<and>
    list_all (\<lambda>kv. js_get r (fst kv) = snd kv) V2_UNCHECKED)"
proof -
  have crypto: "js_get r ''authority'' = JStr ''NONE'' \<and> (js_get r ''state'' = JStr ''BLOCKED'' \<or>
      js_get r ''state'' = JStr ''CRYPTO_VERIFIED_ONLY'' \<and>
      list_all (\<lambda>kv. js_get r (fst kv) = snd kv) V2_UNCHECKED)"
    if "r = v2_crypto wc credential prf key jwk" for r key
    unfolding that v2_crypto_def Let_def
    by (simp add: v2_simps v2_deny_authority js_get_js_object V2_UNCHECKED_def split: option.split bool.split)
  show ?thesis
    unfolding verifyGeckoRelayPresentationV2_def Let_def
    by (simp add: v2_simps v2_deny_authority crypto split: option.split)
qed

lemma utf8_char_split:
  assumes "utf8_char c @ u = utf8_char d @ v"
  shows "c = d \<and> u = v"
proof (cases "code c < 128")
  case True
  then show ?thesis
    using assms code_less [of d] by (auto simp: utf8_char_def char_eq_code split: if_splits)
next
  case False
  have c: "code c div 64 < 4" "code d div 64 < 4" using code_less by (simp_all add: less_mult_imp_div_less)
  show ?thesis
  proof (cases "code d < 128")
    case True
    then show ?thesis using assms False c by (auto simp: utf8_char_def char_eq_code split: if_splits)
  next
    case d: False
    then have eq: "char_of (192 + code c div 64) = (char_of (192 + code d div 64) :: char)"
        "char_of (128 + code c mod 64) = (char_of (128 + code d mod 64) :: char)" "u = v"
      using assms False by (simp_all add: utf8_char_def)
    from arg_cong [OF eq(1), of code] arg_cong [OF eq(2), of code]
    have "code c div 64 = code d div 64" "code c mod 64 = code d mod 64" using c by simp_all
    then have "code c = code d" by (metis div_mult_mod_eq)
    then show ?thesis using eq(3) by (simp add: char_eq_code)
  qed
qed

lemma utf8_inj: "utf8 s = utf8 t \<Longrightarrow> s = t"
proof (induction s arbitrary: t)
  case Nil
  then show ?case by (cases t) (auto simp: utf8_def utf8_char_def split: if_splits)
next
  case (Cons c s)
  then obtain d t' where t: "t = d # t'"
    by (cases t) (auto simp: utf8_def utf8_char_def split: if_splits)
  then show ?case using Cons utf8_char_split [of c "utf8 s" d "utf8 t'"] by (simp add: utf8_def)
qed

text \<open>C8: a presentation whose tag is the MAC the server issued for a lease verifies only with
  that lease: every field is the issued one, the scope is the one the server expects, the clock
  is inside the issued window, the pinned key has the issued thumbprint, and the device signed
  a proof for the path of the expected worker.\<close>

theorem v2_verified_is_issued:
  assumes "\<And>k t d. wc_hmac_verify wc k t d = Some (t = sign k d)"
    and "validLease issued"
    and "decode_field 43 32 (js_get credential ''tag'') = Some (sign key (utf8 (relayLeaseV2Message issued)))"
    and "sign key (utf8 (relayLeaseV2Message issued)) =
         sign key (utf8 (relayLeaseV2Message (js_get credential ''lease''))) \<Longrightarrow>
         utf8 (relayLeaseV2Message issued) = utf8 (relayLeaseV2Message (js_get credential ''lease''))"
    and "js_get (verifyGeckoRelayPresentationV2 wc clock credential prf expected (Some key) jwk) ''state''
         = JStr ''CRYPTO_VERIFIED_ONLY''"
  shows "lease_fields (js_get credential ''lease'') = lease_fields issued \<and>
    js_get issued ''worker_id'' = js_get expected ''worker_id'' \<and>
    js_get issued ''installation_id'' = js_get expected ''installation_id'' \<and>
    js_get issued ''session_binding_sha256'' = js_get expected ''session_binding_sha256'' \<and>
    js_get issued ''epoch'' = js_get expected ''epoch'' \<and>
    (\<exists>t. clock = Some (JInt t) \<and> the_int (js_get issued ''issued_at_ms'') \<le> t \<and>
       t < the_int (js_get issued ''expires_at_ms'')) \<and>
    (\<exists>h. wc_digest wc (utf8 (thumbprint_text jwk)) = Some h \<and>
       js_get issued ''device_key_sha256'' = JStr (hex_bytes h)) \<and>
    js_get prf ''path'' = JStr (''/relay/'' @ js_string (js_get expected ''worker_id'')) \<and>
    wc_ecdsa_verify wc jwk (the (decode_field 86 64 (js_get prf ''signature'')))
      (utf8 (relayWssProofV2Message prf (js_get credential ''lease'') (js_get credential ''tag''))) = Some True"
proof -
  let ?lease = "js_get credential ''lease''"
  obtain instant where instant: "clock = Some instant" "boundedTime instant"
      "\<not> the_int instant < the_int (js_get ?lease ''issued_at_ms'')"
      "\<not> the_int (js_get ?lease ''expires_at_ms'') \<le> the_int instant"
    and lease: "validLease ?lease"
    and scope: "js_eq (js_get ?lease ''worker_id'') (js_get expected ''worker_id'')"
      "js_eq (js_get ?lease ''installation_id'') (js_get expected ''installation_id'')"
      "js_eq (js_get ?lease ''session_binding_sha256'') (js_get expected ''session_binding_sha256'')"
      "js_eq (js_get ?lease ''epoch'') (js_get expected ''epoch'')"
    and proof_ok: "validProof prf (js_get expected ''worker_id'')"
    and crypto: "js_get (v2_crypto wc credential prf key jwk) ''state'' = JStr ''CRYPTO_VERIFIED_ONLY''"
    using assms(5) unfolding verifyGeckoRelayPresentationV2_def Let_def
    by (simp add: v2_simps split: if_splits option.splits)
  from v2_crypto_verified [OF crypto] obtain h where
    h: "wc_digest wc (utf8 (thumbprint_text jwk)) = Some h"
      "js_get ?lease ''device_key_sha256'' = JStr (hex_bytes h)"
    and mac: "sign key (utf8 (relayLeaseV2Message issued)) = sign key (utf8 (relayLeaseV2Message ?lease))"
    and ecdsa: "wc_ecdsa_verify wc jwk (the (decode_field 86 64 (js_get prf ''signature'')))
        (utf8 (relayWssProofV2Message prf ?lease (js_get credential ''tag''))) = Some True"
    by (auto simp: assms(1,3))
  have "relayLeaseV2Message issued = relayLeaseV2Message ?lease"
    by (rule utf8_inj) (rule assms(4) [OF mac])
  then have same: "lease_fields issued = lease_fields ?lease"
    using lease_message_fields [OF assms(2) lease] by simp
  have time: "\<exists>t. instant = JInt t" using instant(2) by (auto simp: boundedTime_def js_simps)
  show ?thesis
    using same scope [THEN js_eq_eq] h instant time ecdsa proof_ok
    by (auto simp: lease_fields_def validProof_def)
qed


definition sample_webcrypto :: webcrypto where
  "sample_webcrypto = \<lparr>wc_available = True, wc_digest = (\<lambda>_. Some (replicate 32 CHR 0xAA)),
     wc_hmac_verify = (\<lambda>k t d. Some (t = toy_sign k d)), wc_ecdsa_verify = (\<lambda>_ _ _. Some True)\<rparr>"

definition sample_key :: bytes where
  "sample_key = replicate 32 CHR ''k''"

definition sample_credential :: jsval where
  "sample_credential = JObj [(''lease'', sample_lease), (''tag'', JStr (bytesToBase64Url
     (toy_sign sample_key (utf8 (relayLeaseV2Message sample_lease)))))]"

definition sample_proof :: jsval where
  "sample_proof = JObj [(''v'', JInt 1), (''method'', JStr ''GET''), (''path'', JStr ''/relay/bke-13''),
     (''nonce'', JStr (replicate 43 CHR ''A'')), (''signature'', JStr (replicate 86 CHR ''A''))]"

definition sample_expected :: jsval where
  "sample_expected = JObj [(''epoch'', JInt 3), (''installation_id'', JStr ''4242''),
     (''session_binding_sha256'', JStr (replicate 64 CHR ''b'')), (''worker_id'', JStr ''bke-13'')]"

definition sample_jwk :: jsval where
  "sample_jwk = JObj [(''kty'', JStr ''EC''), (''crv'', JStr ''P-256''),
     (''x'', JStr (replicate 43 CHR ''A'')), (''y'', JStr (replicate 43 CHR ''A''))]"

lemma sample_tag: "decode_field 43 32 (js_get sample_credential ''tag'') =
      Some (toy_sign sample_key (utf8 (relayLeaseV2Message sample_lease)))"
  by (simp add: sample_credential_def decodeBase64Url_encode toy_sign_def)

lemma hex_bytes_aa: "hex_bytes (replicate n (char_of (170 :: nat))) = replicate (2 * n) CHR ''a''"
proof -
  have "[hex_digit (code (char_of (170 :: nat)) div 16), hex_digit (code (char_of (170 :: nat)) mod 16)] = ''aa''" by code_simp
  then show ?thesis by (induction n) (simp_all add: hex_bytes_def)
qed

lemma char_170: "CHR 0xAA = char_of (170 :: nat)"
  by code_simp

lemma sample_valid:
  "validExpected sample_expected" "validPublicKey sample_jwk" "validProof sample_proof (JStr ''bke-13'')"
  "exact_joined sample_credential [''lease'', ''tag'']" "boundedTime (JInt 2000)"
  by (code_simp, code_simp, code_simp, simp add: exact_joined_def sample_credential_def, code_simp)

lemma sample_key_text: "hex_bytes (replicate 32 CHR 0xAA) = replicate 64 CHR ''a''"
  by (simp only: char_170) (simp add: hex_bytes_aa)

theorem v2_verified_is_issued_witness:
  "js_get (verifyGeckoRelayPresentationV2 sample_webcrypto (Some (JInt 2000)) sample_credential
     sample_proof sample_expected (Some sample_key) sample_jwk) ''state'' = JStr ''CRYPTO_VERIFIED_ONLY'' \<and>
   js_get sample_lease ''epoch'' = js_get sample_expected ''epoch''"
proof -
  have lease: "js_get sample_credential ''lease'' = sample_lease" by (simp add: sample_credential_def)
  have fields: "js_get sample_lease ''worker_id'' = JStr ''bke-13''"
      "js_get sample_expected ''worker_id'' = JStr ''bke-13''"
      "js_get sample_lease ''installation_id'' = JStr ''4242''"
      "js_get sample_expected ''installation_id'' = JStr ''4242''"
      "js_get sample_lease ''session_binding_sha256'' = JStr (replicate 64 CHR ''b'')"
      "js_get sample_expected ''session_binding_sha256'' = JStr (replicate 64 CHR ''b'')"
      "js_get sample_lease ''epoch'' = JInt 3" "js_get sample_expected ''epoch'' = JInt 3"
      "js_get sample_lease ''issued_at_ms'' = JInt 1000" "js_get sample_lease ''expires_at_ms'' = JInt 61000"
      "js_get sample_lease ''device_key_sha256'' = JStr (replicate 64 CHR ''a'')"
    by (simp_all add: sample_lease_def sample_expected_def)
  have law: "wc_hmac_verify sample_webcrypto k t d = Some (t = toy_sign k d)" for k t d
    by (simp add: sample_webcrypto_def)
  have crypto: "js_get (v2_crypto sample_webcrypto sample_credential sample_proof sample_key sample_jwk)
      ''state'' = JStr ''CRYPTO_VERIFIED_ONLY''"
    unfolding v2_crypto_def Let_def lease sample_tag option.sel law
    by (simp add: sample_webcrypto_def fields sample_valid sample_key_text js_get_js_object V2_UNCHECKED_def)
  have verified: "js_get (verifyGeckoRelayPresentationV2 sample_webcrypto (Some (JInt 2000))
      sample_credential sample_proof sample_expected (Some sample_key) sample_jwk) ''state''
      = JStr ''CRYPTO_VERIFIED_ONLY''"
    unfolding verifyGeckoRelayPresentationV2_def Let_def
    by (simp add: lease fields sample_tag sample_valid sample_lease_valid crypto)
      (simp add: sample_key_def sample_webcrypto_def)
  from v2_verified_is_issued [OF law sample_lease_valid sample_tag _ verified] verified
  show ?thesis by (simp add: lease)
qed

end
