(* ===== verification/WorkerSession.thy ===== *)
theory WorkerSession imports RelayCredentials
begin

text \<open>
  \<open>cloudflare-relay/src/index.js\<close>, the class \<open>WorkerSession\<close>: the durable object that
  owns one worker. Its storage keeps the worker ID, the active wake with its phase, one queued
  wake, the recent delivery IDs and the ID of the authoritative connection; the runtime keeps
  the open sockets with their attachments. The input gate of the platform delivers no event
  while a handler waits for its storage, and every handler reads the storage only after its
  last wait for anything else, so each event is one step. The identity check at the start of
  \<open>fetch\<close> is idempotent, so a step that is split after it is two steps.
\<close>

section \<open>State\<close>

record attachment =
  at_workerId :: string
  at_connectionId :: string
  at_registered :: bool
  at_sessionId :: "string option"

record socket =
  so_id :: nat
  so_attachment :: attachment

record session =
  se_worker_id :: "string option"
  se_active :: "active_wake option"
  se_queued :: "wake option"
  se_recent :: "string list option"
  se_connection :: "string option"
  se_sockets :: "socket list"

definition empty_session :: session where
  "empty_session = \<lparr>se_worker_id = None, se_active = None, se_queued = None, se_recent = None,
     se_connection = None, se_sockets = []\<rparr>"

definition RECENT_DELIVERY_LIMIT :: nat where "RECENT_DELIVERY_LIMIT = 64"

text \<open>
  What a handler does besides changing the state, and what its caller sees. \<open>Threw\<close> is an
  exception that leaves the handler. A wake is sent as its JSON text, and a conflict comment
  lists the numbers of the pull requests.
\<close>

datatype effect =
    SendWake nat wake
  | CloseSocket nat nat string
  | PostConflict int "int list"

datatype outcome =
    Respond nat jsval
  | Silent
  | Threw

text \<open>
  A request to the object. Its body is \<^const>\<open>None\<close> when the text is no JSON, which
  \<open>parseJson\<close> turns into \<open>null\<close>.
\<close>

record ws_request =
  rq_worker_id :: string
  rq_path :: string
  rq_authorization :: string
  rq_upgrade :: string
  rq_body :: "jsval option"

text \<open>
  The answers of the environment while the request is handled: the configured token key, the
  MAC check, the random UUID and the identity of a new socket, the assignments GitHub reports
  (or the error), whether an installation token could be minted, and which sockets accept a
  frame (\<open>send\<close> throws on the others).
\<close>

record ws_env =
  en_token_key :: "string option"
  en_verify :: mac_verify
  en_uuid :: string
  en_socket_id :: nat
  en_assignments :: "string + assignment list"
  en_minted :: bool
  en_can_send :: "nat \<Rightarrow> bool"

definition parseJson :: "jsval option \<Rightarrow> jsval" where
  "parseJson body = (case body of None \<Rightarrow> JNull | Some v \<Rightarrow> v)"

fun phase_name :: "phase \<Rightarrow> string" where
  "phase_name Queued = ''queued''"
| "phase_name Sent = ''sent''"
| "phase_name Deferred = ''deferred''"
| "phase_name Accepted = ''accepted''"
| "phase_name RecoveryRequired = ''recovery_required''"

definition js_of_assignment :: "assignment \<Rightarrow> jsval" where
  "js_of_assignment a = JObj [(''workerId'', JStr (as_workerId a)), (''number'', JInt (as_number a)),
     (''headRef'', JStr (as_headRef a)), (''headSha'', JStr (as_headSha a))]"

section \<open>Storage helpers\<close>

definition ensureIdentity :: "string \<Rightarrow> session \<Rightarrow> session \<times> bool" where
  "ensureIdentity wid s =
     (case se_worker_id s of
        None \<Rightarrow> (s\<lparr>se_worker_id := Some wid\<rparr>, True)
      | Some existing \<Rightarrow> (s, existing = wid))"

definition recentDeliveries :: "session \<Rightarrow> string list" where
  "recentDeliveries s = (case se_recent s of None \<Rightarrow> [] | Some ds \<Rightarrow> ds)"

definition remember_in :: "string \<Rightarrow> string list \<Rightarrow> string list" where
  "remember_in d recent = last_n RECENT_DELIVERY_LIMIT (filter (\<lambda>item. item \<noteq> d) recent @ [d])"

definition rememberDelivery :: "string list \<Rightarrow> string \<Rightarrow> session \<Rightarrow> session" where
  "rememberDelivery recent d s = s\<lparr>se_recent := Some (remember_in d recent)\<rparr>"

definition arm :: "wake \<Rightarrow> session \<Rightarrow> session" where
  "arm w s = s\<lparr>se_active := Some \<lparr>aw_wake = w, aw_phase = Queued\<rparr>\<rparr>"

definition authoritativeSocket :: "session \<Rightarrow> socket option" where
  "authoritativeSocket s =
     (case se_connection s of None \<Rightarrow> None
      | Some c \<Rightarrow> if c = [] then None
          else List.find (\<lambda>so. at_registered (so_attachment so) \<and>
                 at_connectionId (so_attachment so) = c) (se_sockets s))"

datatype send_result = NotSent | SentNow | SendThrew

definition sendActiveIfSafe :: "(nat \<Rightarrow> bool) \<Rightarrow> session \<Rightarrow> session \<times> effect list \<times> send_result" where
  "sendActiveIfSafe can_send s =
     (case se_active s of None \<Rightarrow> (s, [], NotSent)
      | Some a \<Rightarrow>
          if aw_phase a \<noteq> Queued then (s, [], NotSent)
          else (case authoritativeSocket s of None \<Rightarrow> (s, [], NotSent)
                | Some so \<Rightarrow>
                    if \<not> can_send (so_id so) then (s, [], SendThrew)
                    else (s\<lparr>se_active := Some (a\<lparr>aw_phase := Sent\<rparr>)\<rparr>,
                          [SendWake (so_id so) (aw_wake a)], SentNow)))"

text \<open>\<open>const sent = await this.sendActiveIfSafe(); return json(...)\<close>.\<close>

definition send_then ::
  "(nat \<Rightarrow> bool) \<Rightarrow> (bool \<Rightarrow> outcome) \<Rightarrow> session \<Rightarrow> session \<times> effect list \<times> outcome" where
  "send_then can_send k s =
     (case sendActiveIfSafe can_send s of
        (s', es, SendThrew) \<Rightarrow> (s', es, Threw)
      | (s', es, SentNow) \<Rightarrow> (s', es, k True)
      | (s', es, NotSent) \<Rightarrow> (s', es, k False))"

section \<open>connect\<close>

definition connect :: "ws_env \<Rightarrow> ws_request \<Rightarrow> string \<Rightarrow> session \<Rightarrow> session \<times> effect list \<times> outcome" where
  "connect env rq wid s =
     (if (case en_token_key env of None \<Rightarrow> True
          | Some key \<Rightarrow> key = [] \<or> \<not> relayBearerMatches (en_verify env) (rq_authorization rq) key wid) then
        (s, [], Respond 401 (JObj [(''error'', JStr ''RELAY_UNAUTHORIZED'')]))
      else if to_lower (rq_upgrade rq) \<noteq> ''websocket'' then
        (s, [], Respond 426 (JObj [(''error'', JStr ''WEBSOCKET_UPGRADE_REQUIRED'')]))
      else
        (s\<lparr>se_sockets := se_sockets s @ [\<lparr>so_id = en_socket_id env, so_attachment =
              \<lparr>at_workerId = wid, at_connectionId = en_uuid env, at_registered = False,
               at_sessionId = None\<rparr>\<rparr>]\<rparr>, [], Respond 101 JNull))"

section \<open>dispatch\<close>

definition conflict_response :: "string \<Rightarrow> active_wake \<Rightarrow> wake \<Rightarrow> outcome" where
  "conflict_response e a w = Respond 409 (JObj [(''error'', JStr e),
     (''active_pr'', JInt (wk_pr_number (aw_wake a))), (''incoming_pr'', JInt (wk_pr_number w))])"

definition accepted_response :: "string \<Rightarrow> wake \<Rightarrow> (string \<times> jsval) list \<Rightarrow> outcome" where
  "accepted_response st w extra = Respond 202 (JObj ([(''state'', JStr st),
     (''delivery_id'', JStr (wk_delivery_id w))] @ extra))"

definition behind_active :: "active_wake \<Rightarrow> (string \<times> jsval) list" where
  "behind_active a = [(''active_delivery_id'', JStr (wk_delivery_id (aw_wake a)))]"

definition superseded_delivery :: "active_wake \<Rightarrow> (string \<times> jsval) list" where
  "superseded_delivery a = [(''superseded_delivery_id'', JStr (wk_delivery_id (aw_wake a)))]"

text \<open>The part of \<open>dispatch\<close> after \<open>rememberDelivery\<close>, when a wake is active.\<close>

definition dispatch_active ::
  "(nat \<Rightarrow> bool) \<Rightarrow> wake \<Rightarrow> active_wake \<Rightarrow> session \<Rightarrow> session \<times> effect list \<times> outcome" where
  "dispatch_active can_send w a s =
     (let same_pr = (wk_pr_number (aw_wake a) = wk_pr_number w);
          new_head = (wk_expected_head_sha (aw_wake a) \<noteq> wk_expected_head_sha w);
          cross = (\<not> same_pr \<and> wk_reason w = ''github_pull_request_cross_pr_recovery'');
          suppressed = (same_pr \<and> aw_phase a \<noteq> Queued \<and> new_head \<and>
             wk_reason w = ''github_pull_request_self_synchronize'');
          stale = (same_pr \<and> new_head \<and> wk_reason w = ''github_pull_request_synchronize'');
          reassigned = (same_pr \<and> wk_reason w = ''github_pull_request_labeled'')
      in
      if suppressed then (s, [], accepted_response ''self_synchronize_suppressed'' w (behind_active a))
      else if wk_reason w = ''github_pull_request_continuation'' \<and> \<not> same_pr then
        (s, [], conflict_response ''CONTINUATION_PR_MISMATCH'' a w)
      else if wk_reason w = ''github_pull_request_continuation'' \<and> aw_phase a \<noteq> Queued then
        (s, [], accepted_response ''continuation_blocked_uncertain'' w (behind_active a))
      else if cross then
        send_then can_send (\<lambda>sent. accepted_response
            (if sent then ''cross_pr_recovered_sent'' else ''cross_pr_recovered_queued'') w
            ([(''superseded_pr'', JInt (wk_pr_number (aw_wake a)))] @ superseded_delivery a))
          (arm w (s\<lparr>se_queued := None\<rparr>))
      else if stale \<or> reassigned then
        send_then can_send (\<lambda>sent. accepted_response
            ((if reassigned then ''recovered'' else ''superseded'') @ (if sent then ''_sent'' else ''_queued'')) w
            (superseded_delivery a))
          (arm w (s\<lparr>se_queued := None\<rparr>))
      else if aw_phase a = Queued then (arm w s, [], accepted_response ''coalesced_queued'' w [])
      else (s\<lparr>se_queued := Some w\<rparr>, [], accepted_response ''queued_behind_active'' w (behind_active a)))"

definition dispatch ::
  "ws_env \<Rightarrow> jsval option \<Rightarrow> string \<Rightarrow> session \<Rightarrow> session \<times> effect list \<times> outcome" where
  "dispatch env body wid s =
     (let v = parseJson body in
      if \<not> validateWake v (Some wid) then (s, [], Respond 400 (JObj [(''error'', JStr ''WAKE_INVALID'')]))
      else
      let w = wake_of_js v; recent = recentDeliveries s in
      if wk_delivery_id w \<in> set recent then
        (s, [], Respond 200 (JObj [(''state'', JStr ''duplicate''), (''delivery_id'', JStr (wk_delivery_id w))]))
      else case se_active s of
        Some a \<Rightarrow>
          if wk_pr_number (aw_wake a) \<noteq> wk_pr_number w \<and>
             wk_reason w \<noteq> ''github_pull_request_cross_pr_recovery'' then
            (s, [], conflict_response ''WORKER_WAKE_IN_FLIGHT'' a w)
          else dispatch_active (en_can_send env) w a (rememberDelivery recent (wk_delivery_id w) s)
      | None \<Rightarrow>
          if wk_reason w = ''github_pull_request_cross_pr_recovery'' then
            (s, [], Respond 409 (JObj [(''error'', JStr ''CROSS_PR_RECOVERY_NOT_REQUIRED'')]))
          else
            send_then (en_can_send env) (\<lambda>sent. accepted_response (if sent then ''sent'' else ''queued'') w [])
              (arm w (rememberDelivery recent (wk_delivery_id w) s)))"

section \<open>recover\<close>

text \<open>
  \<open>recover\<close> calls \<open>planRecovery\<close>, so it needs the name to be bound in the module.
  The import list of \<open>index.js\<close> does not contain it, and the file does not declare it.
\<close>

definition index_imports :: "string list" where
  "index_imports = [''mintInstallationToken'', ''verifyActionsOidcToken'', ''CONTROL_REPOSITORY'',
     ''normalizeRecoveryAssignments'', ''MAX_WEBHOOK_BYTES'', ''relayBearerMatches'', ''isValidWorkerId'',
     ''routeGitHubPullRequest'', ''validateAck'', ''validateRegister'', ''validateRecoveryRequest'',
     ''validateWake'', ''verifyGitHubSignature'', ''DurableObject'', ''WorkerEntrypoint'',
     ''inspectSameDurableObjectCandidate'', ''fulfillCommandCenterAdminRead'',
     ''fulfillCommandCenterAdminCatalog'', ''fulfillCommandCenterAdminAssignments'']"

definition recover_conflict :: "ws_env \<Rightarrow> string \<Rightarrow> assignment list \<Rightarrow> effect list \<times> outcome" where
  "recover_conflict env wid assignments =
     (let checkpointPr = as_number (hd assignments) in
      (if checkpointPr \<noteq> 0 \<and> en_minted env then [PostConflict checkpointPr (map as_number assignments)] else [],
       Respond 409 (JObj [(''state'', JStr ''conflict''), (''worker_id'', JStr wid),
         (''assignments'', JArr (map (\<lambda>a. JObj [(''number'', JInt (as_number a)),
            (''headRef'', JStr (as_headRef a)), (''headSha'', JStr (as_headSha a))]) assignments))])))"

definition recover ::
  "string list \<Rightarrow> ws_env \<Rightarrow> jsval option \<Rightarrow> string \<Rightarrow> session \<Rightarrow> session \<times> effect list \<times> outcome" where
  "recover bound env body wid s =
     (if \<not> validateRecoveryRequest (parseJson body) wid then
        (s, [], Respond 400 (JObj [(''error'', JStr ''RECOVERY_REQUEST_INVALID'')]))
      else case en_assignments env of
        Inl e \<Rightarrow> (s, [], Respond 502 (JObj [(''error'', JStr e)]))
      | Inr assignments \<Rightarrow>
      if 1 < length assignments then (s, recover_conflict env wid assignments)
      else if ''planRecovery'' \<notin> set bound then (s, [], Threw)
      else case planRecovery (map (\<lambda>a. a\<lparr>as_workerId := wid\<rparr>) assignments) (se_active s) of
        PlanConflict \<Rightarrow> (s, [], Threw)
      | PlanWaiting \<Rightarrow> (s\<lparr>se_active := None, se_queued := None\<rparr>, [],
          Respond 200 (JObj [(''state'', JStr ''waiting_for_assignment''), (''worker_id'', JStr wid)]))
      | PlanPreserved a ph d \<Rightarrow> (s, [], Respond 200 (JObj [(''state'', JStr ''preserved_active_assignment''),
          (''worker_id'', JStr wid), (''assignment'', js_of_assignment a),
          (''active_phase'', JStr (phase_name ph)), (''delivery_id'', JStr d)]))
      | PlanConverged a w \<Rightarrow>
          (s\<lparr>se_active := Some \<lparr>aw_wake = w, aw_phase = RecoveryRequired\<rparr>, se_queued := None\<rparr>, [],
           Respond 200 (JObj [(''state'', JStr ''head_converged_without_redelivery''),
             (''worker_id'', JStr wid), (''assignment'', js_of_assignment a),
             (''delivery_id'', JStr (wk_delivery_id w))]))
      | PlanRecovered a w \<Rightarrow>
          send_then (en_can_send env) (\<lambda>sent. Respond 200 (JObj [
              (''state'', JStr (if sent then ''recovered_sent'' else ''recovered_queued'')),
              (''worker_id'', JStr wid), (''assignment'', js_of_assignment a),
              (''delivery_id'', JStr (wk_delivery_id w))]))
            (arm w (s\<lparr>se_queued := None\<rparr>)))"

section \<open>fetch\<close>

definition session_fetch ::
  "string list \<Rightarrow> ws_env \<Rightarrow> ws_request \<Rightarrow> session \<Rightarrow> session \<times> effect list \<times> outcome" where
  "session_fetch bound env rq s =
     (let wid = rq_worker_id rq in
      if \<not> worker_id_re wid then (s, [], Respond 400 (JObj [(''error'', JStr ''WORKER_ID_INVALID'')]))
      else case ensureIdentity wid s of
        (s1, False) \<Rightarrow> (s1, [], Respond 409 (JObj [(''error'', JStr ''WORKER_ID_CONFLICT'')]))
      | (s1, True) \<Rightarrow>
          if rq_path rq = ''/connect'' then connect env rq wid s1
          else if rq_path rq = ''/dispatch'' then dispatch env (rq_body rq) wid s1
          else if rq_path rq = ''/recover'' then recover bound env (rq_body rq) wid s1
          else (s1, [], Respond 404 (JObj [(''error'', JStr ''NOT_FOUND'')])))"

section \<open>Socket events\<close>

definition promoteQueuedWake :: "(nat \<Rightarrow> bool) \<Rightarrow> session \<Rightarrow> session \<times> effect list \<times> outcome" where
  "promoteQueuedWake can_send s =
     (case se_queued s of None \<Rightarrow> (s, [], Silent)
      | Some w \<Rightarrow> send_then can_send (\<lambda>_. Silent) (arm w (s\<lparr>se_queued := None\<rparr>)))"

definition handleAck :: "(nat \<Rightarrow> bool) \<Rightarrow> jsval \<Rightarrow> nat \<Rightarrow> session \<Rightarrow> session \<times> effect list \<times> outcome" where
  "handleAck can_send ack sid s =
     (let d = str_or_empty (js_get ack ''delivery_id''); st = str_or_empty (js_get ack ''state'');
          unknown = (if d \<in> set (recentDeliveries s) then (s, [], Silent)
                     else (s, [CloseSocket sid 1008 ''ack delivery mismatch''], Silent))
      in case se_active s of None \<Rightarrow> unknown
      | Some a \<Rightarrow>
          if wk_delivery_id (aw_wake a) \<noteq> d then unknown
          else if st = ''deferred'' then (s\<lparr>se_active := Some (a\<lparr>aw_phase := Deferred\<rparr>)\<rparr>, [], Silent)
          else if st = ''accepted'' then (s\<lparr>se_active := Some (a\<lparr>aw_phase := Accepted\<rparr>)\<rparr>, [], Silent)
          else if st = ''rejected'' \<or> st = ''completed'' then
            promoteQueuedWake can_send (s\<lparr>se_active := None\<rparr>)
          else (s, [], Silent))"

definition attach :: "nat \<Rightarrow> attachment \<Rightarrow> socket list \<Rightarrow> socket list" where
  "attach sid att sos = map (\<lambda>so. if so_id so = sid then so\<lparr>so_attachment := att\<rparr> else so) sos"

definition replaced :: "nat \<Rightarrow> socket list \<Rightarrow> effect list" where
  "replaced sid sos = map (\<lambda>so. CloseSocket (so_id so) 4001 ''replaced by newer session'')
     (filter (\<lambda>so. so_id so \<noteq> sid \<and> at_registered (so_attachment so)) sos)"

datatype ws_message = TextFrame "jsval option" | BinaryFrame

definition registerSocket ::
  "(nat \<Rightarrow> bool) \<Rightarrow> jsval \<Rightarrow> socket \<Rightarrow> session \<Rightarrow> session \<times> effect list \<times> outcome" where
  "registerSocket can_send v so s =
     (let att = so_attachment so in
      if \<not> validateRegister v (at_workerId att) then (s, [CloseSocket (so_id so) 1008 ''invalid register''], Silent)
      else if at_connectionId att = [] then
        (s, [CloseSocket (so_id so) 1008 ''connection identity missing''], Silent)
      else
        let s1 = s\<lparr>se_connection := Some (at_connectionId att),
              se_sockets := attach (so_id so) (att\<lparr>at_registered := True,
                at_sessionId := Some (str_or_empty (js_get v ''session_id''))\<rparr>) (se_sockets s)\<rparr>
        in case send_then can_send (\<lambda>_. Silent) s1 of
             (s2, es, out) \<Rightarrow> (s2, replaced (so_id so) (se_sockets s) @ es, out))"

definition webSocketMessage ::
  "(nat \<Rightarrow> bool) \<Rightarrow> socket \<Rightarrow> ws_message \<Rightarrow> session \<Rightarrow> session \<times> effect list \<times> outcome" where
  "webSocketMessage can_send so msg s =
     (case msg of BinaryFrame \<Rightarrow> (s, [CloseSocket (so_id so) 1003 ''text frames required''], Silent)
      | TextFrame body \<Rightarrow>
          let att = so_attachment so; v = parseJson body in
          if \<not> at_registered att then registerSocket can_send v so s
          else if \<not> validateAck v (at_workerId att) then (s, [CloseSocket (so_id so) 1008 ''invalid ack''], Silent)
          else if (case se_connection s of None \<Rightarrow> True | Some c \<Rightarrow> c = [] \<or> at_connectionId att \<noteq> c) then
            (s, [CloseSocket (so_id so) 1008 ''stale session''], Silent)
          else handleAck can_send v (so_id so) s)"

definition clearConnectionIfAuthoritative :: "socket \<Rightarrow> session \<Rightarrow> session" where
  "clearConnectionIfAuthoritative so s =
     (if se_connection s = Some (at_connectionId (so_attachment so)) then s\<lparr>se_connection := None\<rparr> else s)"

definition webSocketClose :: "socket \<Rightarrow> session \<Rightarrow> session" where
  "webSocketClose so s = clearConnectionIfAuthoritative so s"

definition webSocketError :: "socket \<Rightarrow> session \<Rightarrow> session" where
  "webSocketError so s = clearConnectionIfAuthoritative so s"

section \<open>Events\<close>

text \<open>
  One event of the object. A socket event names an open socket; after \<open>webSocketClose\<close> the
  runtime no longer lists the socket.
\<close>

datatype event =
    EvFetch ws_env ws_request
  | EvMessage "nat \<Rightarrow> bool" nat ws_message
  | EvClose nat
  | EvError nat

definition find_socket :: "nat \<Rightarrow> session \<Rightarrow> socket option" where
  "find_socket sid s = List.find (\<lambda>so. so_id so = sid) (se_sockets s)"

definition drop_socket :: "nat \<Rightarrow> session \<Rightarrow> session" where
  "drop_socket sid s = s\<lparr>se_sockets := filter (\<lambda>x. so_id x \<noteq> sid) (se_sockets s)\<rparr>"

fun handle :: "string list \<Rightarrow> event \<Rightarrow> session \<Rightarrow> session \<times> effect list \<times> outcome" where
  "handle bound (EvFetch env rq) s = session_fetch bound env rq s"
| "handle bound (EvMessage can_send sid msg) s =
     (case find_socket sid s of None \<Rightarrow> (s, [], Silent)
      | Some so \<Rightarrow> webSocketMessage can_send so msg s)"
| "handle bound (EvClose sid) s =
     (case find_socket sid s of None \<Rightarrow> (s, [], Silent)
      | Some so \<Rightarrow> (drop_socket sid (webSocketClose so s), [], Silent))"
| "handle bound (EvError sid) s =
     (case find_socket sid s of None \<Rightarrow> (s, [], Silent)
      | Some so \<Rightarrow> (webSocketError so s, [], Silent))"

text \<open>
  What the environment keeps to: a new socket gets an identity and a connection UUID that no
  open socket has, and the numbers of pull requests are below \<open>10^14\<close>.
\<close>

definition reported_ok :: "assignment \<Rightarrow> bool" where
  "reported_ok a \<longleftrightarrow> sha_re (as_headSha a) \<and> 0 < as_number a \<and> as_number a < 10 ^ 14"

fun admissible :: "event \<Rightarrow> session \<Rightarrow> bool" where
  "admissible (EvFetch env rq) s \<longleftrightarrow> en_uuid env \<noteq> [] \<and>
     list_all (\<lambda>so. so_id so \<noteq> en_socket_id env \<and> at_connectionId (so_attachment so) \<noteq> en_uuid env)
       (se_sockets s) \<and>
     (case en_assignments env of Inl _ \<Rightarrow> True | Inr as \<Rightarrow> list_all reported_ok as)"
| "admissible _ s \<longleftrightarrow> True"

inductive session_run :: "string list \<Rightarrow> event list \<Rightarrow> effect list \<Rightarrow> session \<Rightarrow> bool"
  for bound :: "string list" where
  run_start: "session_run bound [] [] empty_session"
| run_step: "session_run bound evs effs s \<Longrightarrow> admissible ev s \<Longrightarrow> handle bound ev s = (s', es, out) \<Longrightarrow>
    session_run bound (evs @ [ev]) (effs @ es) s'"

inductive_cases session_runE: "session_run bound evs effs s"

section \<open>The delivery log\<close>

text \<open>
  The contract the session relies on: a log of the last deliveries in which the age of an entry
  is the number of deliveries remembered after it. Remembering a delivery gives it age 0,
  makes the others at most one older, and forgets only what has reached the limit.
\<close>

locale delivery_log =
  fixes remember :: "string \<Rightarrow> 'l \<Rightarrow> 'l"
    and age :: "'l \<Rightarrow> string \<Rightarrow> nat option"
    and size_of :: "'l \<Rightarrow> nat"
    and limit :: nat
  assumes age_new: "age (remember d l) d = Some 0"
    and age_old: "age l d' = Some n \<Longrightarrow> Suc n < limit \<Longrightarrow> \<exists>m \<le> Suc n. age (remember d l) d' = Some m"
    and bounded: "size_of (remember d l) \<le> limit"
begin

definition known_within :: "'l \<Rightarrow> nat \<Rightarrow> string \<Rightarrow> bool" where
  "known_within l n d \<longleftrightarrow> (\<exists>m. age l d = Some m \<and> m < n)"

lemma known_new: "0 < n \<Longrightarrow> known_within (remember d l) n d"
  by (simp add: known_within_def age_new)

lemma known_old:
  "known_within l n d' \<Longrightarrow> n < limit \<Longrightarrow> known_within (remember d l) (Suc n) d'"
  using age_old [of l d'] by (fastforce simp: known_within_def)

lemma known_mono: "known_within l n d \<Longrightarrow> n \<le> m \<Longrightarrow> known_within l m d"
  by (auto simp: known_within_def)

lemma known_fold:
  "known_within l n d \<Longrightarrow> n + length ds \<le> limit \<Longrightarrow> known_within (fold remember ds l) (n + length ds) d"
proof (induction ds arbitrary: l n)
  case (Cons x ds)
  then have "known_within (remember x l) (Suc n) d" by (simp add: known_old)
  then show ?case using Cons.IH [of "remember x l" "Suc n"] Cons.prems by simp
qed simp

end

fun age_in :: "string list \<Rightarrow> string \<Rightarrow> nat option" where
  "age_in [] d = None"
| "age_in (x # xs) d = (case age_in xs d of Some n \<Rightarrow> Some n
     | None \<Rightarrow> if x = d then Some (length xs) else None)"

lemma age_in_known: "age_in xs d = None \<longleftrightarrow> d \<notin> set xs"
  by (induction xs) (auto split: option.splits)

lemma age_in_snoc: "age_in (xs @ [x]) d = (if x = d then Some 0 else map_option Suc (age_in xs d))"
  by (induction xs) (auto split: option.splits)

lemma age_in_less: "age_in xs d = Some n \<Longrightarrow> n < length xs"
  by (induction xs) (fastforce split: option.splits if_splits)+

lemma age_in_drop: "age_in xs d = Some n \<Longrightarrow> n < length xs - k \<Longrightarrow> age_in (drop k xs) d = Some n"
proof (induction xs arbitrary: k)
  case (Cons x xs)
  show ?case
  proof (cases k)
    case (Suc j)
    have "age_in xs d = Some n"
      using Cons.prems Suc by (auto split: option.splits if_splits)
    then show ?thesis using Cons.IH [of j] Cons.prems Suc by simp
  qed (use Cons.prems in simp)
qed simp

lemma age_in_filter: "age_in xs d = Some n \<Longrightarrow> x \<noteq> d \<Longrightarrow>
    \<exists>m \<le> n. age_in (filter (\<lambda>i. i \<noteq> x) xs) d = Some m"
proof (induction xs arbitrary: n)
  case (Cons y xs)
  show ?case
  proof (cases "age_in xs d")
    case None
    then have "age_in (filter (\<lambda>i. i \<noteq> x) xs) d = None" by (simp add: age_in_known)
    with None Cons.prems show ?thesis by (auto split: if_splits)
  next
    case (Some k)
    then show ?thesis using Cons by (auto split: option.splits)
  qed
qed simp

lemma length_filter_neq: "length (filter (\<lambda>i. i \<noteq> x) xs) \<le> length xs"
  by simp

lemma remember_in_old:
  assumes "age_in xs d' = Some n" "Suc n < RECENT_DELIVERY_LIMIT"
  shows "\<exists>m \<le> Suc n. age_in (remember_in d xs) d' = Some m"
proof (cases "d' = d")
  case True
  then show ?thesis
    by (auto simp: remember_in_def RECENT_DELIVERY_LIMIT_def last_n_def age_in_drop age_in_snoc)
next
  case False
  let ?ys = "filter (\<lambda>i. i \<noteq> d) xs"
  obtain m where m: "m \<le> n" "age_in ?ys d' = Some m" using age_in_filter [OF assms(1)] False by metis
  then have snoc: "age_in (?ys @ [d]) d' = Some (Suc m)" using False by (simp add: age_in_snoc)
  have "Suc m < length (?ys @ [d])" using age_in_less [OF snoc] .
  then have "age_in (remember_in d xs) d' = Some (Suc m)"
    unfolding remember_in_def last_n_def
    by (intro age_in_drop [OF snoc]) (use m(1) assms(2) in linarith)
  with m(1) show ?thesis by auto
qed

lemma age_in_remember: "age_in (remember_in d xs) d = Some 0"
  by (auto simp: remember_in_def RECENT_DELIVERY_LIMIT_def last_n_def age_in_drop age_in_snoc)

lemma length_remember_in: "length (remember_in d xs) \<le> RECENT_DELIVERY_LIMIT"
  by (simp add: remember_in_def)

interpretation dl: delivery_log remember_in age_in length RECENT_DELIVERY_LIMIT
  by unfold_locales (auto simp: age_in_remember remember_in_old length_remember_in)

section \<open>Invariants\<close>

definition wakes_ok :: "session \<Rightarrow> bool" where
  "wakes_ok s \<longleftrightarrow>
     (case se_active s of None \<Rightarrow> se_queued s = None
      | Some a \<Rightarrow>
          (case se_worker_id s of None \<Rightarrow> False
           | Some wid \<Rightarrow> wake_ok wid (aw_wake a) \<and>
               (case se_queued s of None \<Rightarrow> True
                | Some q \<Rightarrow> wake_ok wid q \<and> wk_pr_number q = wk_pr_number (aw_wake a) \<and>
                    aw_phase a \<noteq> Queued)))"

definition log_ok :: "session \<Rightarrow> bool" where
  "log_ok s \<longleftrightarrow> length (recentDeliveries s) \<le> RECENT_DELIVERY_LIMIT \<and>
     distinct (recentDeliveries s) \<and> list_all delivery_re (recentDeliveries s)"

definition connection_of :: "socket \<Rightarrow> string" where
  "connection_of so = at_connectionId (so_attachment so)"

definition sockets_ok :: "session \<Rightarrow> bool" where
  "sockets_ok s \<longleftrightarrow>
     distinct (map so_id (se_sockets s)) \<and> distinct (map connection_of (se_sockets s)) \<and>
     list_all (\<lambda>so. connection_of so \<noteq> [] \<and> se_worker_id s = Some (at_workerId (so_attachment so)))
       (se_sockets s) \<and>
     (case se_connection s of None \<Rightarrow> True
      | Some c \<Rightarrow> list_ex (\<lambda>so. at_registered (so_attachment so) \<and> connection_of so = c) (se_sockets s))"

lemma wakes_ok_fields [simp]:
  "wakes_ok (s\<lparr>se_recent := r\<rparr>) = wakes_ok s"
  "wakes_ok (s\<lparr>se_sockets := r'\<rparr>) = wakes_ok s"
  "wakes_ok (s\<lparr>se_connection := r''\<rparr>) = wakes_ok s"
  by (simp_all add: wakes_ok_def cong: option.case_cong)

lemma log_ok_fields [simp]:
  "log_ok (s\<lparr>se_active := a\<rparr>) = log_ok s" "log_ok (s\<lparr>se_queued := q\<rparr>) = log_ok s"
  "log_ok (s\<lparr>se_sockets := r'\<rparr>) = log_ok s" "log_ok (s\<lparr>se_connection := r''\<rparr>) = log_ok s"
  by (simp_all add: log_ok_def recentDeliveries_def)

lemma sockets_ok_fields [simp]:
  "sockets_ok (s\<lparr>se_active := a\<rparr>) = sockets_ok s" "sockets_ok (s\<lparr>se_queued := q\<rparr>) = sockets_ok s"
  "sockets_ok (s\<lparr>se_recent := r\<rparr>) = sockets_ok s"
  by (simp_all add: sockets_ok_def cong: option.case_cong)

lemma arm_simps [simp]:
  "se_worker_id (arm w s) = se_worker_id s" "se_queued (arm w s) = se_queued s"
  "se_recent (arm w s) = se_recent s" "se_connection (arm w s) = se_connection s"
  "se_sockets (arm w s) = se_sockets s" "se_active (arm w s) = Some \<lparr>aw_wake = w, aw_phase = Queued\<rparr>"
  "log_ok (arm w s) = log_ok s" "sockets_ok (arm w s) = sockets_ok s"
  "recentDeliveries (arm w s) = recentDeliveries s"
  by (simp_all add: arm_def recentDeliveries_def)

text \<open>What a send leaves alone: everything but the phase of the active wake.\<close>

lemma send_then_cases:
  assumes "send_then can_send k s = (s', es, out)"
  obtains "s' = s" "es = []" "out \<in> {k False, Threw}"
  | a so where "se_active s = Some a" "aw_phase a = Queued" "authoritativeSocket s = Some so"
      "can_send (so_id so)" "s' = s\<lparr>se_active := Some (a\<lparr>aw_phase := Sent\<rparr>)\<rparr>"
      "es = [SendWake (so_id so) (aw_wake a)]" "out = k True"
  using assms
  by (auto simp: send_then_def sendActiveIfSafe_def split: option.splits if_splits send_result.splits)

lemma send_then_invariants:
  assumes "send_then can_send k s = (s', es, out)"
  shows "wakes_ok s \<Longrightarrow> wakes_ok s'" and "log_ok s' = log_ok s" and "sockets_ok s' = sockets_ok s"
    and "se_worker_id s' = se_worker_id s" and "se_recent s' = se_recent s"
    and "se_sockets s' = se_sockets s" and "se_connection s' = se_connection s"
  by (rule send_then_cases [OF assms]; auto simp: wakes_ok_def split: option.splits)+

lemma wakes_ok_arm:
  "wake_ok wid w \<Longrightarrow> se_worker_id s = Some wid \<Longrightarrow> se_queued s = None \<Longrightarrow> wakes_ok (arm w s)"
  by (simp add: wakes_ok_def)

lemma log_ok_remember:
  assumes "log_ok s" and "delivery_re d"
  shows "log_ok (rememberDelivery (recentDeliveries s) d s)"
proof -
  have "set (remember_in d (recentDeliveries s)) \<subseteq> insert d (set (recentDeliveries s))"
    using set_last_n [of RECENT_DELIVERY_LIMIT "filter (\<lambda>i. i \<noteq> d) (recentDeliveries s) @ [d]"]
    by (auto simp: remember_in_def)
  moreover have "distinct (remember_in d (recentDeliveries s))"
    using assms(1) unfolding remember_in_def by (intro distinct_last_n) (simp add: log_ok_def)
  ultimately show ?thesis
    using assms length_remember_in [of d "recentDeliveries s"]
    by (auto simp: log_ok_def rememberDelivery_def recentDeliveries_def list_all_iff)
qed

lemma rememberDelivery_simps [simp]:
  "se_worker_id (rememberDelivery r d s) = se_worker_id s" "se_active (rememberDelivery r d s) = se_active s"
  "se_queued (rememberDelivery r d s) = se_queued s" "se_sockets (rememberDelivery r d s) = se_sockets s"
  "se_connection (rememberDelivery r d s) = se_connection s"
  "sockets_ok (rememberDelivery r d s) = sockets_ok s" "wakes_ok (rememberDelivery r d s) = wakes_ok s"
  by (simp_all add: rememberDelivery_def)

lemma dispatch_active_invariants:
  assumes "dispatch_active can_send w a s = (s', es, out)"
    and "se_active s = Some a" "se_worker_id s = Some wid" "wake_ok wid w"
    and "wakes_ok s"
    and "wk_pr_number (aw_wake a) = wk_pr_number w \<or> wk_reason w = ''github_pull_request_cross_pr_recovery''"
  shows "wakes_ok s'" and "log_ok s' = log_ok s" and "sockets_ok s' = sockets_ok s"
    and "se_worker_id s' = se_worker_id s" and "se_recent s' = se_recent s"
proof -
  have queued: "aw_phase a = Queued \<Longrightarrow> se_queued s = None"
    using assms(2,3,5) by (auto simp: wakes_ok_def split: option.splits)
  consider (same) "s' = s"
    | (send) k where "send_then can_send k (arm w (s\<lparr>se_queued := None\<rparr>)) = (s', es, out)"
    | (coalesce) "s' = arm w s" "aw_phase a = Queued"
    | (queue) "s' = s\<lparr>se_queued := Some w\<rparr>" "aw_phase a \<noteq> Queued"
        "wk_pr_number (aw_wake a) = wk_pr_number w"
    using assms(1,6) unfolding dispatch_active_def Let_def by (simp split: if_splits) blast+
  then have "wakes_ok s' \<and> log_ok s' = log_ok s \<and> sockets_ok s' = sockets_ok s \<and>
      se_worker_id s' = se_worker_id s \<and> se_recent s' = se_recent s"
  proof cases
    case send
    have "wakes_ok (arm w (s\<lparr>se_queued := None\<rparr>))" by (rule wakes_ok_arm) (use assms(3,4) in simp_all)
    then show ?thesis using send_then_invariants [OF send] by simp
  next
    case coalesce
    then show ?thesis using assms(3,4) queued by (simp add: wakes_ok_arm)
  next
    case queue
    then show ?thesis using assms(2-5) by (auto simp: wakes_ok_def split: option.splits)
  qed (use assms(5) in simp)
  then show "wakes_ok s'" and "log_ok s' = log_ok s" and "sockets_ok s' = sockets_ok s"
    and "se_worker_id s' = se_worker_id s" and "se_recent s' = se_recent s" by simp_all
qed

definition session_ok :: "session \<Rightarrow> bool" where
  "session_ok s \<longleftrightarrow> wakes_ok s \<and> log_ok s \<and> sockets_ok s"

lemma session_okI: "wakes_ok s \<Longrightarrow> log_ok s \<Longrightarrow> sockets_ok s \<Longrightarrow> session_ok s"
  by (simp add: session_ok_def)

lemma send_then_ok: "send_then can_send k s = (s', es, out) \<Longrightarrow> session_ok s \<Longrightarrow> session_ok s'"
  using send_then_invariants by (simp add: session_ok_def)

lemma dispatch_ok:
  assumes "dispatch env body wid s = (s', es, out)" and "session_ok s" and "se_worker_id s = Some wid"
  shows "session_ok s' \<and> se_worker_id s' = Some wid"
proof (cases "s' = s")
  case True
  then show ?thesis using assms(2,3) by simp
next
  case False
  let ?w = "wake_of_js (parseJson body)"
  let ?r = "rememberDelivery (recentDeliveries s) (wk_delivery_id ?w) s"
  have v: "validateWake (parseJson body) (Some wid)" using assms(1) False unfolding dispatch_def Let_def by (simp split: if_splits)
  then have w: "wake_ok wid ?w" by (rule validateWake_wake_ok)
  then have r: "log_ok ?r" "wakes_ok ?r" "sockets_ok ?r"
    using assms(2) by (auto simp: session_ok_def wake_ok_def intro!: log_ok_remember)
  show ?thesis
  proof (cases "se_active s")
    case None
    then have "send_then (en_can_send env) (\<lambda>sent. accepted_response (if sent then ''sent'' else ''queued'') ?w [])
        (arm ?w ?r) = (s', es, out)"
      using assms(1) v False by (simp add: dispatch_def Let_def split: if_splits)
    moreover have "wakes_ok (arm ?w ?r)"
      by (rule wakes_ok_arm [OF w]) (use assms(2,3) None in \<open>auto simp: session_ok_def wakes_ok_def\<close>)
    ultimately show ?thesis
      using send_then_invariants r assms(3) by (auto intro!: session_okI)
  next
    case (Some a)
    then have "dispatch_active (en_can_send env) ?w a ?r = (s', es, out)"
      and "wk_pr_number (aw_wake a) = wk_pr_number ?w \<or> wk_reason ?w = ''github_pull_request_cross_pr_recovery''"
      using assms(1) v False by (auto simp: dispatch_def Let_def split: if_splits)
    then show ?thesis
      using dispatch_active_invariants [of "en_can_send env" ?w a ?r s' es out wid] Some assms(3) w r
      by (auto intro!: session_okI)
  qed
qed

lemma recovery_wake_reported:
  assumes "reported_ok a" and "worker_id_re wid" and "as_workerId a = wid"
  shows "wake_ok wid (recovery_wake a)"
proof -
  have "length (number_text (as_number a)) \<le> 14" and "as_number a < 10 ^ 21"
    using assms(1) length_int_string [of "as_number a" 13] number_text_small [of "as_number a"]
    by (simp_all add: reported_ok_def)
  moreover have "length (as_workerId a) \<le> 63"
    using assms(2,3) head_class_rep_length unfolding worker_id_re_def by fastforce
  ultimately show ?thesis
    using recovery_wake_ok_iff [of a] assms by (simp add: reported_ok_def)
qed

lemma planRecovery_wake:
  "planRecovery as active = PlanConverged a w \<or> planRecovery as active = PlanRecovered a w \<Longrightarrow>
    a \<in> set as \<and> w = recovery_wake a"
  by (auto simp: planRecovery_def Let_def split: list.splits option.splits if_splits)

lemma recover_ok:
  assumes "recover bound env body wid s = (s', es, out)" and "session_ok s" and "se_worker_id s = Some wid"
    and "worker_id_re wid"
    and "case en_assignments env of Inl _ \<Rightarrow> True | Inr as \<Rightarrow> list_all reported_ok as"
  shows "session_ok s' \<and> se_worker_id s' = Some wid"
proof (cases "s' = s")
  case True
  then show ?thesis using assms(2,3) by simp
next
  case False
  then obtain as where as: "en_assignments env = Inr as"
    using assms(1) by (auto simp: recover_def split: if_splits sum.splits)
  let ?as = "map (\<lambda>a. a\<lparr>as_workerId := wid\<rparr>) as"
  have wake: "wake_ok wid w"
    if "planRecovery ?as (se_active s) = PlanConverged a w \<or> planRecovery ?as (se_active s) = PlanRecovered a w" for a w
  proof -
    from planRecovery_wake [OF that] obtain b where "b \<in> set as" "a = b\<lparr>as_workerId := wid\<rparr>"
        "w = recovery_wake a" by auto
    with assms(4,5) as show ?thesis
      using recovery_wake_reported [of a wid] by (auto simp: list_all_iff reported_ok_def)
  qed
  consider (wait) "s' = s\<lparr>se_active := None, se_queued := None\<rparr>"
    | (conv) a w where "planRecovery ?as (se_active s) = PlanConverged a w"
        "s' = s\<lparr>se_active := Some \<lparr>aw_wake = w, aw_phase = RecoveryRequired\<rparr>, se_queued := None\<rparr>"
    | (send) a w k where "planRecovery ?as (se_active s) = PlanRecovered a w"
        "send_then (en_can_send env) k (arm w (s\<lparr>se_queued := None\<rparr>)) = (s', es, out)"
    using assms(1) False as unfolding recover_def
    by (cases "planRecovery ?as (se_active s)") (auto split: if_splits)
  then show ?thesis
  proof cases
    case wait
    then show ?thesis using assms(2,3) by (auto simp: session_ok_def wakes_ok_def)
  next
    case conv
    then show ?thesis using assms(2,3) wake [of a w] by (auto simp: session_ok_def wakes_ok_def)
  next
    case send
    have "wake_ok wid w" using send(1) wake by blast
    then have "wakes_ok (arm w (s\<lparr>se_queued := None\<rparr>))" by (rule wakes_ok_arm) (use assms(3) in simp_all)
    then show ?thesis
      using send_then_invariants [OF send(2)] assms(2,3) by (auto simp: session_ok_def)
  qed
qed

lemma connect_ok:
  assumes "connect env rq wid s = (s', es, out)" and "session_ok s" and "se_worker_id s = Some wid"
    and "admissible (EvFetch env rq') s"
  shows "session_ok s' \<and> se_worker_id s' = Some wid"
proof (cases "s' = s")
  case False
  then have s': "s' = s\<lparr>se_sockets := se_sockets s @ [\<lparr>so_id = en_socket_id env, so_attachment =
      \<lparr>at_workerId = wid, at_connectionId = en_uuid env, at_registered = False, at_sessionId = None\<rparr>\<rparr>]\<rparr>"
    using assms(1) by (simp add: connect_def split: if_splits)
  have "sockets_ok s'"
    using assms(2-4) unfolding s'
    by (auto simp: session_ok_def sockets_ok_def connection_of_def list_all_iff list_ex_iff split: option.splits)
  then show ?thesis using assms(2,3) by (auto simp: session_ok_def s')
qed (use assms in simp)

lemma ensureIdentity_ok:
  assumes "ensureIdentity wid s = (s1, b)" and "session_ok s"
  shows "session_ok s1" and "b \<Longrightarrow> se_worker_id s1 = Some wid"
    and "se_sockets s1 = se_sockets s" and "se_recent s1 = se_recent s"
    and "se_active s1 = se_active s" and "se_queued s1 = se_queued s"
  using assms
  by (auto simp: ensureIdentity_def session_ok_def wakes_ok_def log_ok_def sockets_ok_def
      recentDeliveries_def list_all_iff split: option.splits)

lemma fetch_ok:
  assumes "session_fetch bound env rq s = (s', es, out)" and "session_ok s" and "admissible (EvFetch env rq) s"
  shows "session_ok s'"
proof (cases "worker_id_re (rq_worker_id rq)")
  case True
  obtain s1 b where s1: "ensureIdentity (rq_worker_id rq) s = (s1, b)" by fastforce
  note id = ensureIdentity_ok [OF s1 assms(2)]
  have adm: "admissible (EvFetch env rq) s1" using assms(3) id(3) by simp
  show ?thesis
  proof (cases b)
    case True
    then have wid: "se_worker_id s1 = Some (rq_worker_id rq)" by (rule id(2))
    show ?thesis
      using assms(1) \<open>worker_id_re _\<close> s1 True id(1)
        connect_ok [OF _ id(1) wid adm] dispatch_ok [OF _ id(1) wid] recover_ok [OF _ id(1) wid \<open>worker_id_re _\<close>] adm
      by (auto simp: session_fetch_def Let_def split: if_splits)
  qed (use assms s1 id \<open>worker_id_re _\<close> in \<open>simp add: session_fetch_def\<close>)
qed (use assms in \<open>simp add: session_fetch_def\<close>)

lemma find_socketD: "find_socket sid s = Some so \<Longrightarrow> so \<in> set (se_sockets s) \<and> so_id so = sid"
  by (auto simp: find_socket_def dest: find_SomeD)

lemma attach_ids: "map so_id (attach sid att sos) = map so_id sos"
  by (simp add: attach_def)

lemma attach_connections:
  assumes "distinct (map so_id sos)" and "so \<in> set sos" and "at_connectionId att = connection_of so"
  shows "map connection_of (attach (so_id so) att sos) = map connection_of sos"
  using assms by (auto simp: attach_def connection_of_def dest: eq_key_imp_eq_value
      intro!: map_idI) (metis (no_types, lifting) distinct_map inj_onD)

lemma register_ok:
  assumes "registerSocket can_send v so s = (s', es, out)" and "session_ok s" and "so \<in> set (se_sockets s)"
  shows "session_ok s'"
proof -
  let ?att = "(so_attachment so)\<lparr>at_registered := True, at_sessionId := Some (str_or_empty (js_get v ''session_id''))\<rparr>"
  let ?s = "s\<lparr>se_connection := Some (connection_of so), se_sockets := attach (so_id so) ?att (se_sockets s)\<rparr>"
  have ids: "distinct (map so_id (se_sockets s))" using assms(2) by (simp add: session_ok_def sockets_ok_def)
  have conn: "map connection_of (attach (so_id so) ?att (se_sockets s)) = map connection_of (se_sockets s)"
    by (rule attach_connections [OF ids assms(3)]) (simp add: connection_of_def)
  let ?P = "\<lambda>x. connection_of x \<noteq> [] \<and> se_worker_id s = Some (at_workerId (so_attachment x))"
  have P: "?P x" if "x \<in> set (se_sockets s)" for x
    using assms(2) that by (simp add: session_ok_def sockets_ok_def list_all_iff)
  have "list_all ?P (attach (so_id so) ?att (se_sockets s))"
    unfolding list_all_iff attach_def set_map
  proof (intro ballI, elim imageE)
    fix y x
    assume "y = (if so_id x = so_id so then x\<lparr>so_attachment := ?att\<rparr> else x)" "x \<in> set (se_sockets s)"
    then show "?P y" using P [of x] P [OF assms(3)] by (simp add: connection_of_def)
  qed
  moreover have "list_ex (\<lambda>x. at_registered (so_attachment x) \<and> connection_of x = connection_of so)
      (attach (so_id so) ?att (se_sockets s))"
    unfolding list_ex_iff attach_def set_map using assms(3)
    by (intro bexI [of _ "so\<lparr>so_attachment := ?att\<rparr>"]) (auto simp: connection_of_def image_iff)
  ultimately have "sockets_ok ?s"
    using ids conn assms(2) by (simp add: session_ok_def sockets_ok_def attach_ids)
  then have ok: "session_ok ?s" using assms(2) by (simp add: session_ok_def)
  consider "s' = s" | k es' where "send_then can_send k ?s = (s', es', out)"
    using assms(1) by (auto simp: registerSocket_def Let_def connection_of_def split: if_splits prod.splits)
  then show ?thesis
  proof cases
    case 2
    then show ?thesis using ok by (rule send_then_ok)
  qed (use assms(2) in simp)
qed

lemma handleAck_cases:
  assumes "handleAck can_send v sid s = (s', es, out)"
  obtains (same) "s' = s" "es = [] \<or> es = [CloseSocket sid 1008 ''ack delivery mismatch'']"
  | (phase) a p where "se_active s = Some a" "p \<noteq> Queued" "s' = s\<lparr>se_active := Some (a\<lparr>aw_phase := p\<rparr>)\<rparr>" "es = []"
      "wk_delivery_id (aw_wake a) = str_or_empty (js_get v ''delivery_id'')"
  | (clear) a where "se_active s = Some a" "se_queued s = None" "s' = s\<lparr>se_active := None\<rparr>" "es = []"
      "wk_delivery_id (aw_wake a) = str_or_empty (js_get v ''delivery_id'')"
      "str_or_empty (js_get v ''state'') \<in> {''rejected'', ''completed''}"
  | (promote) a w where "se_active s = Some a" "se_queued s = Some w"
      "send_then can_send (\<lambda>_. Silent) (arm w (s\<lparr>se_active := None, se_queued := None\<rparr>)) = (s', es, out)"
      "wk_delivery_id (aw_wake a) = str_or_empty (js_get v ''delivery_id'')"
      "str_or_empty (js_get v ''state'') \<in> {''rejected'', ''completed''}"
proof (cases "se_active s")
  case None
  then show ?thesis using assms same by (simp add: handleAck_def Let_def split: if_splits)
next
  case (Some a)
  let ?d = "str_or_empty (js_get v ''delivery_id'')" and ?st = "str_or_empty (js_get v ''state'')"
  show ?thesis
  proof (cases "wk_delivery_id (aw_wake a) = ?d")
    case False
    then show ?thesis using assms Some same by (simp add: handleAck_def Let_def split: if_splits)
  next
    case True
    consider "?st = ''deferred''" | "?st = ''accepted''" | "?st \<in> {''rejected'', ''completed''}"
      | "?st \<notin> {''deferred'', ''accepted'', ''rejected'', ''completed''}" by blast
    then show ?thesis
    proof cases
      case 1
      then show ?thesis using assms Some True phase [of a Deferred] by (simp add: handleAck_def Let_def)
    next
      case 2
      then show ?thesis using assms Some True phase [of a Accepted] by (simp add: handleAck_def Let_def)
    next
      case 3
      then have p: "promoteQueuedWake can_send (s\<lparr>se_active := None\<rparr>) = (s', es, out)"
        using assms Some True by (auto simp: handleAck_def Let_def)
      show ?thesis
      proof (cases "se_queued s")
        case None
        then show ?thesis using p clear [OF Some None _ _ True 3] by (simp add: promoteQueuedWake_def)
      next
        case (Some w)
        then show ?thesis using p promote [OF \<open>se_active s = Some a\<close> Some _ True 3]
          by (simp add: promoteQueuedWake_def)
      qed
    next
      case 4
      then show ?thesis using assms Some True same by (simp add: handleAck_def Let_def)
    qed
  qed
qed

lemma ack_ok:
  assumes "handleAck can_send v sid s = (s', es, out)" and "session_ok s"
  shows "session_ok s'"
  using assms(1)
proof (cases rule: handleAck_cases)
  case (phase a p)
  then show ?thesis using assms(2) by (auto simp: session_ok_def wakes_ok_def split: option.splits)
next
  case (clear a)
  then show ?thesis using assms(2) by (simp add: session_ok_def wakes_ok_def)
next
  case (promote a w)
  obtain wid where "se_worker_id s = Some wid" "wake_ok wid w"
    using assms(2) promote(1,2) by (auto simp: session_ok_def wakes_ok_def split: option.splits)
  then have "wakes_ok (arm w (s\<lparr>se_active := None, se_queued := None\<rparr>))" by (simp add: wakes_ok_arm)
  then show ?thesis using send_then_ok [OF promote(3)] assms(2) by (simp add: session_ok_def)
qed (use assms(2) in simp)

lemma message_ok:
  assumes "webSocketMessage can_send so msg s = (s', es, out)" and "session_ok s" and "so \<in> set (se_sockets s)"
  shows "session_ok s'"
  using assms ack_ok [OF _ assms(2)] register_ok [OF _ assms(2,3)]
  unfolding webSocketMessage_def Let_def by (auto split: ws_message.splits if_splits)

lemma close_ok:
  assumes "session_ok s" and "so \<in> set (se_sockets s)"
  shows "session_ok (drop_socket (so_id so) (webSocketClose so s))"
proof -
  let ?s = "drop_socket (so_id so) (webSocketClose so s)"
  let ?sos = "filter (\<lambda>x. so_id x \<noteq> so_id so) (se_sockets s)"
  have ids: "distinct (map so_id (se_sockets s))" and conns: "distinct (map connection_of (se_sockets s))"
    and all: "list_all (\<lambda>so. connection_of so \<noteq> [] \<and> se_worker_id s = Some (at_workerId (so_attachment so)))
      (se_sockets s)"
    using assms(1) by (simp_all add: session_ok_def sockets_ok_def)
  have fields: "se_sockets ?s = ?sos" "se_worker_id ?s = se_worker_id s"
      "se_connection ?s = (if se_connection s = Some (connection_of so) then None else se_connection s)"
    by (simp_all add: drop_socket_def webSocketClose_def clearConnectionIfAuthoritative_def connection_of_def)
  have "list_ex (\<lambda>x. at_registered (so_attachment x) \<and> connection_of x = c) ?sos"
    if c: "se_connection s = Some c" "c \<noteq> connection_of so" for c
  proof -
    obtain x where x: "x \<in> set (se_sockets s)" "at_registered (so_attachment x)" "connection_of x = c"
      using assms(1) c(1) by (auto simp: session_ok_def sockets_ok_def list_ex_iff)
    then have "so_id x \<noteq> so_id so" using c(2) ids assms(2) by (auto simp: distinct_map dest: inj_onD)
    with x show ?thesis by (auto simp: list_ex_iff)
  qed
  moreover have "list_all (\<lambda>so. connection_of so \<noteq> [] \<and> se_worker_id s = Some (at_workerId (so_attachment so))) ?sos"
    using all unfolding list_all_iff by (metis filter_is_subset subsetD)
  ultimately have "sockets_ok ?s"
    unfolding sockets_ok_def fields
    using distinct_map_filter [OF ids] distinct_map_filter [OF conns] by (auto split: option.splits)
  then show ?thesis
    using assms(1) by (simp add: session_ok_def drop_socket_def webSocketClose_def clearConnectionIfAuthoritative_def)
qed

lemma error_ok: "session_ok s \<Longrightarrow> session_ok (webSocketError so s)"
  by (auto simp: session_ok_def webSocketError_def clearConnectionIfAuthoritative_def sockets_ok_def)

lemma handle_ok:
  assumes "handle bound ev s = (s', es, out)" and "session_ok s" and "admissible ev s"
  shows "session_ok s'"
proof (cases ev)
  case (EvFetch env rq)
  then show ?thesis using assms fetch_ok by auto
next
  case (EvMessage can_send sid msg)
  then show ?thesis using assms message_ok by (auto split: option.splits dest: find_socketD)
next
  case (EvClose sid)
  then show ?thesis using assms close_ok [OF assms(2)]
    by (auto split: option.splits dest: find_socketD)
next
  case (EvError sid)
  then show ?thesis using assms error_ok by (auto split: option.splits)
qed

lemma empty_session_ok: "session_ok empty_session"
  by (simp add: session_ok_def empty_session_def wakes_ok_def log_ok_def sockets_ok_def recentDeliveries_def)

lemma run_ok: "session_run bound evs effs s \<Longrightarrow> session_ok s"
  by (induction rule: session_run.induct) (auto intro: empty_session_ok handle_ok)

end
