(* ===== verification/WorkerSessionRuns.thy ===== *)
theory WorkerSessionRuns imports WorkerSession
begin

text \<open>
  What the session of \<open>WorkerSession\<close> guarantees along a run: how often a wake is sent,
  to whom, what survives the connection, and what the handlers do on each branch. The runs at
  the end are the concrete executions the witnesses use.
\<close>

section \<open>Counting sends\<close>

fun is_send :: "string \<Rightarrow> effect \<Rightarrow> bool" where
  "is_send d (SendWake sid w) = (wk_delivery_id w = d)"
| "is_send d _ = False"

definition sends :: "string \<Rightarrow> effect list \<Rightarrow> nat" where
  "sends d es = length (filter (is_send d) es)"

definition pending :: "string \<Rightarrow> session \<Rightarrow> nat" where
  "pending d s =
     (case se_active s of None \<Rightarrow> 0
      | Some a \<Rightarrow> if aw_phase a = Queued \<and> wk_delivery_id (aw_wake a) = d then 1 else 0) +
     (case se_queued s of None \<Rightarrow> 0 | Some q \<Rightarrow> if wk_delivery_id q = d then 1 else 0)"

lemma sends_simps [simp]: "sends d [] = 0" "sends d (es @ es') = sends d es + sends d es'"
  "sends d (replaced sid sos) = 0"
  by (simp_all add: sends_def replaced_def filter_map comp_def)

lemma pending_fields [simp]:
  "pending d (s\<lparr>se_recent := r\<rparr>) = pending d s" "pending d (s\<lparr>se_worker_id := i\<rparr>) = pending d s"
  "pending d (s\<lparr>se_sockets := r'\<rparr>) = pending d s" "pending d (s\<lparr>se_connection := r''\<rparr>) = pending d s"
  "pending d (rememberDelivery rr dd s) = pending d s"
  by (simp_all add: pending_def rememberDelivery_def cong: option.case_cong)

lemma pending_arm: "pending d (arm w (s\<lparr>se_queued := None\<rparr>)) = (if wk_delivery_id w = d then 1 else 0)"
  by (simp add: pending_def)

lemma send_then_count:
  assumes "send_then can_send k s = (s', es, out)"
  shows "sends d es + pending d s' = pending d s"
  by (rule send_then_cases [OF assms]) (auto simp: pending_def sends_def)

lemma dispatch_active_count:
  assumes "dispatch_active can_send w a s = (s', es, out)" and "se_active s = Some a"
    and "aw_phase a = Queued \<Longrightarrow> se_queued s = None"
  shows "sends d es + pending d s' \<le> pending d s + (if wk_delivery_id w = d then 1 else 0)"
proof -
  consider (same) "s' = s" "es = []"
    | (send) k where "send_then can_send k (arm w (s\<lparr>se_queued := None\<rparr>)) = (s', es, out)"
    | (coalesce) "s' = arm w s" "aw_phase a = Queued" "es = []"
    | (queue) "s' = s\<lparr>se_queued := Some w\<rparr>" "aw_phase a \<noteq> Queued" "es = []"
    using assms(1) unfolding dispatch_active_def Let_def by (simp split: if_splits)
  then show ?thesis
  proof cases
    case send
    then show ?thesis using send_then_count [OF send, of d] pending_arm [of d w s] by simp
  next
    case coalesce
    then show ?thesis using assms(2,3) by (simp add: pending_def)
  next
    case queue
    then show ?thesis using assms(2) by (simp add: pending_def)
  qed simp
qed

text \<open>
  How a step changes the log and the pending sends of one delivery: it keeps the log and starts
  nothing, or it remembers a delivery that was not in the log and starts at most this one.
\<close>

definition step_keeps :: "string \<Rightarrow> session \<Rightarrow> session \<Rightarrow> effect list \<Rightarrow> bool" where
  "step_keeps d s s' es \<longleftrightarrow> recentDeliveries s' = recentDeliveries s \<and> sends d es + pending d s' \<le> pending d s"

definition step_starts :: "string \<Rightarrow> string \<Rightarrow> session \<Rightarrow> session \<Rightarrow> effect list \<Rightarrow> bool" where
  "step_starts d0 d s s' es \<longleftrightarrow> d0 \<notin> set (recentDeliveries s) \<and>
     recentDeliveries s' = remember_in d0 (recentDeliveries s) \<and>
     sends d es + pending d s' \<le> pending d s + (if d0 = d then 1 else 0)"

lemma recentDeliveries_remember [simp]: "recentDeliveries (rememberDelivery r d s) = remember_in d r"
  by (simp add: rememberDelivery_def recentDeliveries_def)

lemma recentDeliveries_fields [simp]:
  "recentDeliveries (s\<lparr>se_active := a\<rparr>) = recentDeliveries s"
  "recentDeliveries (s\<lparr>se_queued := q\<rparr>) = recentDeliveries s"
  "recentDeliveries (s\<lparr>se_worker_id := i\<rparr>) = recentDeliveries s"
  "recentDeliveries (s\<lparr>se_sockets := r'\<rparr>) = recentDeliveries s"
  "recentDeliveries (s\<lparr>se_connection := r''\<rparr>) = recentDeliveries s"
  by (simp_all add: recentDeliveries_def)

lemma step_keeps_same [simp]: "step_keeps d s s []"
  by (simp add: step_keeps_def)

lemma send_then_keeps: "send_then can_send k s = (s', es, out) \<Longrightarrow> step_keeps d s s' es"
  using send_then_count [of can_send k s s' es out d] send_then_invariants(5) [of can_send k s s' es out]
  by (simp add: step_keeps_def recentDeliveries_def)

lemma step_keeps_trans: "step_keeps d s s1 [] \<Longrightarrow> step_keeps d s1 s' es \<Longrightarrow> step_keeps d s s' es"
  by (simp add: step_keeps_def)

lemma dispatch_count:
  assumes "dispatch env body wid s = (s', es, out)" and "session_ok s" and "se_worker_id s = Some wid"
  shows "s' = s \<and> es = [] \<or>
    step_starts (wk_delivery_id (wake_of_js (parseJson body))) d s s' es \<and>
    validateWake (parseJson body) (Some wid)"
proof (cases "s' = s \<and> es = []")
  case False
  let ?w = "wake_of_js (parseJson body)"
  let ?r = "rememberDelivery (recentDeliveries s) (wk_delivery_id ?w) s"
  have new: "validateWake (parseJson body) (Some wid)" "wk_delivery_id ?w \<notin> set (recentDeliveries s)"
    using assms(1) False unfolding dispatch_def Let_def by (simp_all split: if_splits)
  show ?thesis
  proof (cases "se_active s")
    case None
    then obtain k where send: "send_then (en_can_send env) k (arm ?w ?r) = (s', es, out)"
      using assms(1) new False unfolding dispatch_def Let_def by (simp split: if_splits)
    have "se_queued s = None" using assms(2) None by (simp add: session_ok_def wakes_ok_def)
    then have "pending d (arm ?w ?r) = (if wk_delivery_id ?w = d then 1 else 0)"
      by (simp add: pending_def)
    then show ?thesis
      using send_then_count [OF send, of d] send_then_invariants(5) [OF send] new
      by (simp add: step_starts_def recentDeliveries_def [of s'])
        (simp add: rememberDelivery_def)
  next
    case (Some a)
    then have act: "dispatch_active (en_can_send env) ?w a ?r = (s', es, out)"
      using assms(1) new False unfolding dispatch_def Let_def by (simp split: if_splits)
    have "aw_phase a = Queued \<Longrightarrow> se_queued s = None"
      using assms(2,3) Some by (auto simp: session_ok_def wakes_ok_def split: option.splits)
    then have "sends d es + pending d s' \<le> pending d ?r + (if wk_delivery_id ?w = d then 1 else 0)"
      using dispatch_active_count [OF act, of d] Some by simp
    moreover have "se_recent s' = se_recent ?r"
    proof -
      consider "s' = ?r" | k where "send_then (en_can_send env) k (arm ?w (?r\<lparr>se_queued := None\<rparr>)) = (s', es, out)"
        | "s' = arm ?w ?r" | "s' = ?r\<lparr>se_queued := Some ?w\<rparr>"
        using act unfolding dispatch_active_def Let_def by (simp split: if_splits)
      then show ?thesis by cases (auto dest: send_then_invariants(5))
    qed
    ultimately show ?thesis
      using new by (simp add: step_starts_def recentDeliveries_def [of s']) (simp add: rememberDelivery_def)
  qed
qed simp

lemma recovery_id: "starts_with (wk_delivery_id (recovery_wake a)) ''recovery-''"
  by (simp add: recovery_wake_def starts_with_def)

lemma recover_unbound:
  "''planRecovery'' \<notin> set bound \<Longrightarrow> recover bound env body wid s = (s', es, out) \<Longrightarrow> s' = s \<and> sends d es = 0"
  by (auto simp: recover_def recover_conflict_def Let_def sends_def split: if_splits sum.splits)

lemma recover_count:
  assumes "recover bound env body wid s = (s', es, out)"
    and "''planRecovery'' \<notin> set bound \<or> \<not> starts_with d ''recovery-''"
  shows "step_keeps d s s' es"
  using assms(2)
proof
  assume "''planRecovery'' \<notin> set bound"
  from recover_unbound [OF this assms(1), of d] show ?thesis by (simp add: step_keeps_def)
next
  assume other: "\<not> starts_with d ''recovery-''"
  have not_d: "wk_delivery_id w \<noteq> d"
    if "planRecovery as active = PlanConverged a w \<or> planRecovery as active = PlanRecovered a w" for as active a w
    using planRecovery_wake [OF that] recovery_id [of a] other by auto
  consider (same) "s' = s" "sends d es = 0"
    | (wait) "s' = s\<lparr>se_active := None, se_queued := None\<rparr>" "es = []"
    | (conv) w where "s' = s\<lparr>se_active := Some \<lparr>aw_wake = w, aw_phase = RecoveryRequired\<rparr>, se_queued := None\<rparr>" "es = []"
    | (send) w k where "wk_delivery_id w \<noteq> d" "send_then (en_can_send env) k (arm w (s\<lparr>se_queued := None\<rparr>)) = (s', es, out)"
    using assms(1) not_d unfolding recover_def recover_conflict_def Let_def
    by (fastforce simp: sends_def split: if_splits sum.splits plan.splits)
  then show ?thesis
  proof cases
    case send
    then show ?thesis
      using send_then_keeps [OF send(2), of d] pending_arm [of d w s] by (auto simp: step_keeps_def)
  qed (auto simp: step_keeps_def pending_def)
qed

lemma pending_shrink:
  assumes "se_queued s' = se_queued s" and "se_active s = Some a" and "se_active s' = Some a'"
    and "aw_phase a' \<noteq> Queued"
  shows "pending d s' \<le> pending d s"
  using assms by (auto simp: pending_def)

lemma ack_count:
  assumes "handleAck can_send v sid s = (s', es, out)"
  shows "step_keeps d s s' es"
  using assms
proof (cases rule: handleAck_cases)
  case same
  then show ?thesis by (auto simp: step_keeps_def sends_def)
next
  case (phase a p)
  then show ?thesis using pending_shrink [of s' s a] by (simp add: step_keeps_def)
next
  case (clear a)
  then show ?thesis by (simp add: step_keeps_def pending_def)
next
  case (promote a w)
  have "pending d (arm w (s\<lparr>se_active := None, se_queued := None\<rparr>)) \<le> pending d s"
    using promote(1,2) by (simp add: pending_def)
  then show ?thesis using send_then_keeps [OF promote(3), of d] by (simp add: step_keeps_def)
qed

lemma message_count:
  assumes "webSocketMessage can_send so msg s = (s', es, out)"
  shows "step_keeps d s s' es"
proof -
  consider (same) "s' = s" "sends d es = 0"
    | (ack) v where "handleAck can_send v (so_id so) s = (s', es, out)"
    | (reg) v where "registerSocket can_send v so s = (s', es, out)"
    using assms by (auto simp: webSocketMessage_def Let_def sends_def split: ws_message.splits if_splits)
  then show ?thesis
  proof cases
    case reg
    then consider "s' = s" "sends d es = 0"
      | k es' sos where "send_then can_send k (s\<lparr>se_connection := Some (at_connectionId (so_attachment so)), se_sockets := sos\<rparr>)
            = (s', es', out)" "es = replaced (so_id so) (se_sockets s) @ es'"
      by (auto simp: registerSocket_def Let_def sends_def split: if_splits prod.splits)
    then show ?thesis
    proof cases
      case 2
      from send_then_keeps [OF 2(1), of d] show ?thesis by (simp add: step_keeps_def 2(2))
    qed (simp add: step_keeps_def)
  next
    case ack
    then show ?thesis by (rule ack_count)
  qed (simp add: step_keeps_def)
qed

fun is_dispatch :: "event \<Rightarrow> bool" where
  "is_dispatch (EvFetch env rq) = (rq_path rq = ''/dispatch'')"
| "is_dispatch _ = False"

lemma ensureIdentity_pending: "ensureIdentity wid s = (s1, b) \<Longrightarrow> pending d s1 = pending d s"
  by (auto simp: ensureIdentity_def split: option.splits)

lemma fetch_count:
  assumes "session_fetch bound env rq s = (s', es, out)" and "session_ok s"
    and "''planRecovery'' \<notin> set bound \<or> \<not> starts_with d ''recovery-''"
  shows "step_keeps d s s' es \<or> rq_path rq = ''/dispatch'' \<and> (\<exists>d0. step_starts d0 d s s' es)"
proof -
  obtain s1 b where s1: "ensureIdentity (rq_worker_id rq) s = (s1, b)" by fastforce
  note id = ensureIdentity_ok [OF s1 assms(2)]
  have recent: "recentDeliveries s1 = recentDeliveries s" "pending d s1 = pending d s"
    using id(4) ensureIdentity_pending [OF s1] by (simp_all add: recentDeliveries_def)
  consider (same) "s' = s \<or> s' = s1" "es = []"
    | (connect) "connect env rq (rq_worker_id rq) s1 = (s', es, out)"
    | (dispatch) "b" "rq_path rq = ''/dispatch''" "dispatch env (rq_body rq) (rq_worker_id rq) s1 = (s', es, out)"
    | (recover) "recover bound env (rq_body rq) (rq_worker_id rq) s1 = (s', es, out)"
    using assms(1) unfolding session_fetch_def Let_def s1 by (cases b) (simp_all split: if_splits)
  then show ?thesis
  proof cases
    case same
    then show ?thesis using recent by (auto simp: step_keeps_def)
  next
    case connect
    then have "recentDeliveries s' = recentDeliveries s1 \<and> pending d s' = pending d s1 \<and> es = []"
      by (auto simp: connect_def split: if_splits)
    then show ?thesis using recent by (simp add: step_keeps_def)
  next
    case dispatch
    from dispatch_count [OF dispatch(3) id(1) id(2) [OF dispatch(1)], of d] show ?thesis
    proof
      assume "s' = s1 \<and> es = []"
      then show ?thesis using recent by (simp add: step_keeps_def)
    next
      assume "step_starts (wk_delivery_id (wake_of_js (parseJson (rq_body rq)))) d s1 s' es \<and>
        validateWake (parseJson (rq_body rq)) (Some (rq_worker_id rq))"
      then have "step_starts (wk_delivery_id (wake_of_js (parseJson (rq_body rq)))) d s s' es"
        unfolding step_starts_def recent by blast
      then show ?thesis using dispatch(2) by blast
    qed
  next
    case recover
    then show ?thesis using recover_count [OF recover assms(3)] recent by (simp add: step_keeps_def)
  qed
qed

lemma handle_count:
  assumes "handle bound ev s = (s', es, out)" and "session_ok s"
    and "''planRecovery'' \<notin> set bound \<or> \<not> starts_with d ''recovery-''"
  shows "step_keeps d s s' es \<or> is_dispatch ev \<and> (\<exists>d0. step_starts d0 d s s' es)"
proof (cases ev)
  case (EvFetch env rq)
  then show ?thesis using fetch_count [OF _ assms(2,3)] assms(1) by simp
next
  case (EvMessage can_send sid msg)
  then show ?thesis using assms(1) message_count by (auto split: option.splits)
next
  case (EvClose sid)
  then show ?thesis using assms(1)
    by (auto simp: step_keeps_def drop_socket_def webSocketClose_def clearConnectionIfAuthoritative_def split: option.splits)
next
  case (EvError sid)
  then show ?thesis using assms(1)
    by (auto simp: step_keeps_def webSocketError_def clearConnectionIfAuthoritative_def split: option.splits)
qed

text \<open>
  Along a run a delivery that was started is known to the log at an age below the number of
  dispatch requests, so within the limit of the log it is started only once.
\<close>

definition dispatches :: "event list \<Rightarrow> nat" where
  "dispatches evs = length (filter is_dispatch evs)"

lemma dispatches_snoc: "dispatches (evs @ [ev]) = dispatches evs + (if is_dispatch ev then 1 else 0)"
  by (simp add: dispatches_def)

abbreviation "log_knows s n d \<equiv> dl.known_within (recentDeliveries s) n d"

lemma known_in_log: "log_knows s n d \<Longrightarrow> d \<in> set (recentDeliveries s)"
  using age_in_known [of "recentDeliveries s" d] by (cases "d \<in> set (recentDeliveries s)") (auto simp: dl.known_within_def)

lemma run_count:
  assumes "session_run bound evs effs s" and "dispatches evs \<le> RECENT_DELIVERY_LIMIT"
    and "''planRecovery'' \<notin> set bound \<or> \<not> starts_with d ''recovery-''"
  shows "sends d effs + pending d s = 0 \<or>
    sends d effs + pending d s \<le> 1 \<and> log_knows s (dispatches evs) d"
  using assms(1,2)
proof (induction rule: session_run.induct)
  case run_start
  then show ?case by (simp add: pending_def empty_session_def)
next
  case (run_step evs effs s ev s' es out)
  note IH = run_step.IH
  let ?n = "dispatches evs"
  have le: "?n \<le> RECENT_DELIVERY_LIMIT" using run_step.prems by (simp add: dispatches_snoc split: if_splits)
  from handle_count [OF run_step.hyps(3) run_ok [OF run_step.hyps(1)] assms(3)] show ?case
  proof
    assume keeps: "step_keeps d s s' es"
    have "log_knows s' (dispatches (evs @ [ev])) d" if "log_knows s ?n d"
      using dl.known_mono [OF that, of "dispatches (evs @ [ev])"] keeps by (simp add: step_keeps_def dispatches_snoc)
    then show ?thesis using IH [OF le] keeps by (auto simp: step_keeps_def)
  next
    assume "is_dispatch ev \<and> (\<exists>d0. step_starts d0 d s s' es)"
    then obtain d0 where ev: "is_dispatch ev" and start: "step_starts d0 d s s' es" by blast
    have n: "dispatches (evs @ [ev]) = Suc ?n" "?n < RECENT_DELIVERY_LIMIT"
      using ev run_step.prems by (simp_all add: dispatches_snoc)
    have recent: "recentDeliveries s' = remember_in d0 (recentDeliveries s)"
      and fresh: "d0 \<notin> set (recentDeliveries s)" using start by (simp_all add: step_starts_def)
    show ?thesis
    proof (cases "d0 = d")
      case True
      then have "\<not> log_knows s ?n d" using known_in_log fresh by blast
      then have "sends d effs + pending d s = 0" using IH [OF le] by simp
      moreover have "log_knows s' (Suc ?n) d" using dl.known_new [of "Suc ?n" d] recent True by simp
      ultimately show ?thesis using start True by (simp add: step_starts_def n)
    next
      case False
      have "log_knows s' (Suc ?n) d" if "log_knows s ?n d"
        using dl.known_old [OF that n(2), of d0] recent by simp
      then show ?thesis using IH [OF le] start False by (auto simp: step_starts_def n)
    qed
  qed
qed

section \<open>Running events\<close>

fun exec :: "string list \<Rightarrow> event list \<Rightarrow> session \<Rightarrow> (effect list \<times> session) option" where
  "exec bound [] s = Some ([], s)"
| "exec bound (ev # evs) s =
     (if \<not> admissible ev s then None
      else case handle bound ev s of (s1, es, _) \<Rightarrow>
        (case exec bound evs s1 of None \<Rightarrow> None | Some (es', s') \<Rightarrow> Some (es @ es', s')))"

lemma exec_run_from:
  "session_run bound evs0 effs0 s \<Longrightarrow> exec bound evs s = Some (effs, s') \<Longrightarrow>
    session_run bound (evs0 @ evs) (effs0 @ effs) s'"
proof (induction evs arbitrary: evs0 effs0 s effs)
  case (Cons ev evs)
  obtain s1 es out where h: "handle bound ev s = (s1, es, out)" by (cases "handle bound ev s")
  then obtain es' where "effs = es @ es'" "exec bound evs s1 = Some (es', s')" "admissible ev s"
    using Cons.prems(2) by (auto split: if_splits option.splits prod.splits)
  then show ?case using Cons.IH [OF run_step [OF Cons.prems(1) _ h]] by simp
qed simp

lemma exec_run: "exec bound evs empty_session = Some (effs, s) \<Longrightarrow> session_run bound evs effs s"
  using exec_run_from [OF run_start] by simp

definition sample_env :: "nat \<Rightarrow> string \<Rightarrow> ws_env" where
  "sample_env sid uuid = \<lparr>en_token_key = Some (replicate 32 CHR ''k''), en_verify = (\<lambda>_ _ _. True), en_uuid = uuid,
     en_socket_id = sid, en_assignments = Inr [sample_assignment], en_minted = True, en_can_send = (\<lambda>_. True)\<rparr>"

definition sample_request :: "string \<Rightarrow> jsval \<Rightarrow> ws_request" where
  "sample_request path body = \<lparr>rq_worker_id = ''worker-a'', rq_path = path,
     rq_authorization = ''Bearer '' @ replicate 43 CHR ''A'', rq_upgrade = ''WebSocket'', rq_body = Some body\<rparr>"

definition sample_register :: jsval where
  "sample_register = JObj [(''protocol'', JInt 1), (''type'', JStr ''register''),
     (''worker_id'', JStr ''worker-a''), (''session_id'', JStr ''s'')]"

definition sample_ack :: "string \<Rightarrow> string \<Rightarrow> jsval" where
  "sample_ack d st = JObj [(''protocol'', JInt 1), (''type'', JStr ''ack''),
     (''worker_id'', JStr ''worker-a''), (''delivery_id'', JStr d), (''state'', JStr st)]"

definition sample_dispatch :: "string \<Rightarrow> event" where
  "sample_dispatch d = EvFetch (sample_env 9 ''u9'')
     (sample_request ''/dispatch'' (js_of_wake (sample_wake ''github_pull_request_opened'' d)))"

definition sample_connected :: "event list" where
  "sample_connected = [EvFetch (sample_env 1 ''u1'') (sample_request ''/connect'' JNull),
     EvMessage (\<lambda>_. True) 1 (TextFrame (Some sample_register))]"

definition sample_session :: session where
  "sample_session = \<lparr>se_worker_id = Some ''worker-a'', se_active = None, se_queued = None, se_recent = None,
     se_connection = Some ''u1'', se_sockets = [\<lparr>so_id = 1, so_attachment = \<lparr>at_workerId = ''worker-a'',
       at_connectionId = ''u1'', at_registered = True, at_sessionId = Some ''s''\<rparr>\<rparr>]\<rparr>"

lemma sample_connected_run: "session_run index_imports sample_connected [] sample_session"
  by (rule exec_run) code_simp

definition sample_opened :: "string \<Rightarrow> wake" where
  "sample_opened d = sample_wake ''github_pull_request_opened'' d"

definition sample_sent :: session where
  "sample_sent = sample_session\<lparr>se_active := Some \<lparr>aw_wake = sample_opened ''d1'', aw_phase = Sent\<rparr>,
     se_recent := Some [''d1'']\<rparr>"

definition sample_behind :: session where
  "sample_behind = sample_sent\<lparr>se_queued := Some (sample_opened ''d2''), se_recent := Some [''d1'', ''d2'']\<rparr>"

lemma sample_step1: "exec index_imports [sample_dispatch ''d1''] sample_session =
    Some ([SendWake 1 (sample_opened ''d1'')], sample_sent)"
  by code_simp

lemma sample_step2: "exec index_imports [sample_dispatch ''d2''] sample_sent = Some ([], sample_behind)"
  by code_simp

lemma sample_sent_run: "session_run index_imports (sample_connected @ [sample_dispatch ''d1''])
    [SendWake 1 (sample_opened ''d1'')] sample_sent"
  using exec_run_from [OF sample_connected_run sample_step1] by simp

lemma sample_behind_run: "session_run index_imports
    ((sample_connected @ [sample_dispatch ''d1'']) @ [sample_dispatch ''d2''])
    [SendWake 1 (sample_opened ''d1'')] sample_behind"
  using exec_run_from [OF sample_sent_run sample_step2] by simp

section \<open>Every send goes through \<open>sendActiveIfSafe\<close>\<close>

fun is_send_frame :: "effect \<Rightarrow> bool" where
  "is_send_frame (SendWake sid w) = True"
| "is_send_frame _ = False"

definition sent_by :: "effect list \<Rightarrow> session \<Rightarrow> bool" where
  "sent_by es s' \<longleftrightarrow> (\<forall>sid w. SendWake sid w \<in> set es \<longrightarrow>
     se_active s' = Some \<lparr>aw_wake = w, aw_phase = Sent\<rparr> \<and>
     (\<exists>so. authoritativeSocket s' = Some so \<and> so_id so = sid))"

lemma sent_by_quiet: "filter is_send_frame es = [] \<Longrightarrow> sent_by es s'"
  by (auto simp: sent_by_def filter_empty_conv)

lemma sent_by_append: "sent_by es s' \<Longrightarrow> filter is_send_frame es' = [] \<Longrightarrow> sent_by (es' @ es) s'"
  by (auto simp: sent_by_def filter_empty_conv)

lemma sent_by_simps [simp]: "sent_by [] s'" "sent_by [CloseSocket i c r] s'" "sent_by [PostConflict n ns] s'"
  by (simp_all add: sent_by_def)

lemma authoritativeSocket_active [simp]:
  "authoritativeSocket (s\<lparr>se_active := a\<rparr>) = authoritativeSocket s"
  by (simp add: authoritativeSocket_def cong: option.case_cong if_cong)

lemma send_then_sent_by: "send_then can_send k s = (s', es, out) \<Longrightarrow> sent_by es s'"
  by (erule send_then_cases) (auto simp: sent_by_def)

lemma handle_sent_by:
  assumes "handle bound ev s = (s', es, out)"
  shows "sent_by es s'"
proof (cases ev)
  case (EvFetch env rq)
  obtain s1 b where s1: "ensureIdentity (rq_worker_id rq) s = (s1, b)" by fastforce
  have "session_fetch bound env rq s = (s', es, out)" using assms EvFetch by simp
  then consider (quiet) "es = []"
    | (dispatch) "dispatch env (rq_body rq) (rq_worker_id rq) s1 = (s', es, out)"
    | (recover) "recover bound env (rq_body rq) (rq_worker_id rq) s1 = (s', es, out)"
    unfolding session_fetch_def Let_def s1 connect_def by (cases b) (auto split: if_splits)
  then show ?thesis
  proof cases
    case dispatch
    then consider "es = []" | k s2 where "send_then (en_can_send env) k s2 = (s', es, out)"
      unfolding dispatch_def dispatch_active_def Let_def by (auto split: if_splits option.splits)
    then show ?thesis by cases (auto intro: send_then_sent_by)
  next
    case recover
    then consider "es = []" | n ns where "es = [PostConflict n ns]"
      | k s2 where "send_then (en_can_send env) k s2 = (s', es, out)"
      unfolding recover_def recover_conflict_def Let_def
      by (auto split: if_splits sum.splits plan.splits)
    then show ?thesis by cases (auto intro: send_then_sent_by)
  qed simp
next
  case (EvMessage can_send sid msg)
  show ?thesis
  proof (cases "find_socket sid s")
    case (Some so)
    then have "webSocketMessage can_send so msg s = (s', es, out)" using assms EvMessage by simp
    then consider "es = []" | i c r where "es = [CloseSocket i c r]"
      | v where "handleAck can_send v (so_id so) s = (s', es, out)"
      | v where "registerSocket can_send v so s = (s', es, out)"
      unfolding webSocketMessage_def Let_def by (auto split: ws_message.splits if_splits)
    then show ?thesis
    proof cases
      case 3
      then show ?thesis by (rule handleAck_cases) (auto intro: send_then_sent_by)
    next
      case (4 v)
      then consider "es = []" | i c r where "es = [CloseSocket i c r]"
        | k s2 es' where "send_then can_send k s2 = (s', es', out)" "es = replaced (so_id so) (se_sockets s) @ es'"
        unfolding registerSocket_def Let_def by (auto split: if_splits prod.splits)
      then show ?thesis
        by cases (auto simp: replaced_def filter_empty_conv intro!: sent_by_append intro: send_then_sent_by)
    qed simp_all
  qed (use assms EvMessage in simp)
qed (use assms in \<open>auto split: option.splits\<close>)

section \<open>Properties\<close>



text \<open>C3: wherever a step sends a wake, the receiver is an open socket that has registered as
  the worker the wake names, its connection is the authoritative one, and the wake is recorded
  as sent.\<close>

theorem sends_only_to_authoritative:
  assumes "session_run bound evs effs s" and "admissible ev s" and "handle bound ev s = (s', es, out)"
    and "SendWake sid w \<in> set es"
  shows "se_active s' = Some \<lparr>aw_wake = w, aw_phase = Sent\<rparr> \<and>
    (\<exists>so \<in> set (se_sockets s'). so_id so = sid \<and> at_registered (so_attachment so) \<and>
       at_workerId (so_attachment so) = wk_worker_id w \<and> se_connection s' = Some (connection_of so))"
proof -
  have ok: "session_ok s'" by (rule handle_ok [OF assms(3) run_ok [OF assms(1)] assms(2)])
  from handle_sent_by [OF assms(3)] assms(4) obtain so where
    active: "se_active s' = Some \<lparr>aw_wake = w, aw_phase = Sent\<rparr>"
    and so: "authoritativeSocket s' = Some so" "so_id so = sid"
    by (auto simp: sent_by_def)
  obtain c where c: "se_connection s' = Some c" "at_registered (so_attachment so)" "connection_of so = c"
      "so \<in> set (se_sockets s')"
    using so(1) by (auto simp: authoritativeSocket_def connection_of_def split: option.splits if_splits dest: find_SomeD)
  have "se_worker_id s' = Some (at_workerId (so_attachment so))"
    using ok c(4) by (simp add: session_ok_def sockets_ok_def list_all_iff)
  then have "at_workerId (so_attachment so) = wk_worker_id w"
    using ok active by (auto simp: session_ok_def wakes_ok_def wake_ok_def split: option.splits)
  with active so(2) c show ?thesis by auto
qed

theorem sends_only_to_authoritative_witness:
  "\<exists>so \<in> set (se_sockets sample_sent). so_id so = 1 \<and> se_connection sample_sent = Some (connection_of so)"
proof -
  obtain s' es out where h: "handle index_imports (sample_dispatch ''d1'') sample_session = (s', es, out)"
    by (cases "handle index_imports (sample_dispatch ''d1'') sample_session")
  with sample_step1 have "admissible (sample_dispatch ''d1'') sample_session"
    "s' = sample_sent" "es = [SendWake 1 (sample_opened ''d1'')]"
    by (auto split: if_splits)
  then show ?thesis
    using sends_only_to_authoritative [OF sample_connected_run _ h, of 1 "sample_opened ''d1''"] by auto
qed

text \<open>C1: at most one delivery per delivery ID. In a run of the session with at most 64 dispatch
  requests, whatever else happens in it (connections, replacements, disconnects, acks in any
  order, recoveries), a wake with a given delivery ID is sent to the worker at most once. The
  module as it stands (\<open>index_imports\<close>) does not bind \<open>planRecovery\<close>, so no recovery makes a wake,
  and this holds of every ID. Were the name bound, it holds of every ID that does not start with
  \<open>recovery-\<close>, the prefix of the IDs a recovery makes: a recovery's own wake is not written to the log
  of deliveries, and an assignment recovered again after the worker finished it is sent again.\<close>

theorem at_most_once_delivery:
  assumes "session_run bound evs effs s" and "dispatches evs \<le> RECENT_DELIVERY_LIMIT"
    and "''planRecovery'' \<notin> set bound \<or> \<not> starts_with d ''recovery-''"
  shows "sends d effs \<le> 1"
  using run_count [OF assms] by auto

theorem at_most_once_delivery_witness:
  "sends ''d1'' [SendWake 1 (sample_opened ''d1'')] \<le> 1 \<and>
   sends ''recovery-worker-a'' [SendWake 1 (sample_opened ''d1'')] \<le> 1"
proof -
  have few: "dispatches ((sample_connected @ [sample_dispatch ''d1'']) @ [sample_dispatch ''d2'']) \<le> RECENT_DELIVERY_LIMIT"
    and unbound: "''planRecovery'' \<notin> set index_imports"
    by code_simp+
  show ?thesis
    using at_most_once_delivery [OF sample_behind_run few] unbound by blast
qed

fun finishing_ack :: "event \<Rightarrow> active_wake \<Rightarrow> bool" where
  "finishing_ack (EvMessage can_send sid (TextFrame (Some v))) a \<longleftrightarrow>
     str_or_empty (js_get v ''delivery_id'') = wk_delivery_id (aw_wake a) \<and>
     str_or_empty (js_get v ''state'') \<in> {''rejected'', ''completed''}"
| "finishing_ack _ a \<longleftrightarrow> False"

lemma close_simps [simp]:
  "se_active (webSocketClose so s) = se_active s" "se_queued (webSocketClose so s) = se_queued s"
  "se_active (webSocketError so s) = se_active s" "se_queued (webSocketError so s) = se_queued s"
  "se_active (drop_socket sid s) = se_active s" "se_queued (drop_socket sid s) = se_queued s"
  by (simp_all add: webSocketClose_def webSocketError_def clearConnectionIfAuthoritative_def drop_socket_def)

lemma known_remember: "d \<in> set (remember_in d xs)"
  using age_in_known [of "remember_in d xs" d] age_in_remember [of d xs] by auto

definition in_flight :: "active_wake option \<Rightarrow> wake \<Rightarrow> bool" where
  "in_flight active w \<longleftrightarrow> (case active of None \<Rightarrow> False | Some a \<Rightarrow> aw_wake a = w \<and> aw_phase a \<noteq> Queued)"

lemma send_then_in_flight:
  assumes "send_then can_send k s = (s', es, out)" and "se_active s = Some a" and "aw_phase a \<noteq> Queued"
  shows "s' = s \<and> es = []"
  by (rule send_then_cases [OF assms(1)]) (use assms(2,3) in auto)

lemma register_in_flight:
  assumes "registerSocket can_send v so s = (s', es, out)" and "se_active s = Some a" and "aw_phase a \<noteq> Queued"
  shows "se_active s' = Some a \<and> se_queued s' = se_queued s \<and> filter is_send_frame es = []"
proof -
  consider "s' = s" "filter is_send_frame es = []"
    | k es' sos where "send_then can_send k (s\<lparr>se_connection := Some (at_connectionId (so_attachment so)), se_sockets := sos\<rparr>)
            = (s', es', out)" "es = replaced (so_id so) (se_sockets s) @ es'"
    using assms(1) by (auto simp: registerSocket_def Let_def split: if_splits prod.splits)
  then show ?thesis
  proof cases
    case 2
    from send_then_in_flight [OF 2(1)] assms(2,3) 2(2) show ?thesis
      by (simp add: replaced_def filter_empty_conv)
  qed (use assms(2) in simp)
qed

lemma message_in_flight:
  assumes "webSocketMessage can_send so msg s = (s', es, out)" and "se_active s = Some a"
    and "aw_phase a \<noteq> Queued" and "\<not> finishing_ack (EvMessage can_send sid msg) a"
  shows "in_flight (se_active s') (aw_wake a) \<and> se_queued s' = se_queued s \<and> filter is_send_frame es = []"
proof (cases msg)
  case BinaryFrame
  then show ?thesis using assms by (auto simp: webSocketMessage_def in_flight_def)
next
  case (TextFrame body)
  then consider "s' = s" "filter is_send_frame es = []"
    | "validateAck (parseJson body) (at_workerId (so_attachment so))" "handleAck can_send (parseJson body) (so_id so) s = (s', es, out)"
    | "registerSocket can_send (parseJson body) so s = (s', es, out)"
    using assms(1) unfolding webSocketMessage_def Let_def by (auto split: if_splits)
  then show ?thesis
  proof cases
    case 1
    then show ?thesis using assms(2,3) by (simp add: in_flight_def)
  next
    case 2
    obtain v where v: "body = Some v" "parseJson body = v"
      using 2(1) by (cases body) (simp_all add: parseJson_def validateAck_def exact_keys_def)
    from 2(2) show ?thesis
      by (rule handleAck_cases) (use assms(2-4) TextFrame v in \<open>auto simp: in_flight_def\<close>)
  next
    case 3
    then show ?thesis using register_in_flight [OF 3 assms(2,3)] assms(3) by (simp add: in_flight_def)
  qed
qed

text \<open>C4: a wake in flight is never delivered again because of the connection. Closing, an
  error, a reconnect with its registration, a replaced session and every message but the
  worker's own rejection or completion of this wake leave it active with the same content and
  out of the queue, and send nothing.\<close>

theorem in_flight_not_redelivered:
  assumes "se_active s = Some a" and "aw_phase a \<noteq> Queued" and "handle bound ev s = (s', es, out)"
    and "\<forall>env rq. ev = EvFetch env rq \<longrightarrow> rq_path rq = ''/connect''" and "\<not> finishing_ack ev a"
  shows "in_flight (se_active s') (aw_wake a) \<and> se_queued s' = se_queued s \<and> filter is_send_frame es = []"
proof (cases ev)
  case (EvFetch env rq)
  then have path: "rq_path rq = ''/connect''" using assms(4) by simp
  obtain s1 b where s1: "ensureIdentity (rq_worker_id rq) s = (s1, b)" by fastforce
  have fetch: "session_fetch bound env rq s = (s', es, out)" using assms(3) EvFetch by simp
  have "se_active s1 = se_active s \<and> se_queued s1 = se_queued s"
    using s1 by (auto simp: ensureIdentity_def split: option.splits)
  moreover have "(s' = s \<or> s' = s1 \<or> (\<exists>sos. s' = s1\<lparr>se_sockets := sos\<rparr>)) \<and> es = []"
    using fetch path unfolding session_fetch_def Let_def s1 connect_def
    by (cases b) (auto split: if_splits)
  ultimately show ?thesis using assms(1,2) by (auto simp: in_flight_def)
next
  case (EvMessage can_send sid msg)
  show ?thesis
  proof (cases "find_socket sid s")
    case (Some so)
    then have "webSocketMessage can_send so msg s = (s', es, out)" using assms(3) EvMessage by simp
    then show ?thesis using message_in_flight assms(1,2,5) EvMessage by blast
  qed (use assms EvMessage in \<open>simp add: in_flight_def\<close>)
next
  case (EvClose sid)
  then show ?thesis using assms(1-3)
    by (auto simp: in_flight_def split: option.splits)
next
  case (EvError sid)
  then show ?thesis using assms(1-3)
    by (auto simp: in_flight_def split: option.splits)
qed

theorem in_flight_not_redelivered_witness:
  "in_flight (se_active (fst (handle index_imports (EvClose 1) sample_sent))) (sample_opened ''d1'')"
proof -
  obtain s' es out where h: "handle index_imports (EvClose 1) sample_sent = (s', es, out)"
    by (cases "handle index_imports (EvClose 1) sample_sent")
  have "se_active sample_sent = Some \<lparr>aw_wake = sample_opened ''d1'', aw_phase = Sent\<rparr>"
    by (simp add: sample_sent_def)
  from in_flight_not_redelivered [OF this _ h] h show ?thesis by simp
qed

lemma dispatch_cases:
  assumes "dispatch env body wid s = (s', es, out)"
  defines "w \<equiv> wake_of_js (parseJson body)"
  obtains (refused) st b where "out = Respond st b" "st \<in> {200, 409} \<or> st = 400 \<and> \<not> validateWake (parseJson body) (Some wid)"
      "s' = s" "es = []"
  | (idle) "validateWake (parseJson body) (Some wid)" "wk_delivery_id w \<notin> set (recentDeliveries s)"
      "se_active s = None" "send_then (en_can_send env)
        (\<lambda>sent. accepted_response (if sent then ''sent'' else ''queued'') w [])
        (arm w (rememberDelivery (recentDeliveries s) (wk_delivery_id w) s)) = (s', es, out)"
  | (active) a where "validateWake (parseJson body) (Some wid)" "wk_delivery_id w \<notin> set (recentDeliveries s)"
      "se_active s = Some a"
      "wk_pr_number (aw_wake a) = wk_pr_number w \<or> wk_reason w = ''github_pull_request_cross_pr_recovery''"
      "dispatch_active (en_can_send env) w a
        (rememberDelivery (recentDeliveries s) (wk_delivery_id w) s) = (s', es, out)"
proof (cases "validateWake (parseJson body) (Some wid) \<and> wk_delivery_id w \<notin> set (recentDeliveries s)")
  case False
  then show ?thesis
    using assms(1) refused unfolding dispatch_def Let_def w_def by (auto split: if_splits)
next
  case True
  show ?thesis
  proof (cases "se_active s")
    case None
    then show ?thesis using assms(1) True idle refused unfolding dispatch_def Let_def w_def
      by (auto split: if_splits)
  next
    case (Some a)
    then show ?thesis using assms(1) True active refused unfolding dispatch_def Let_def w_def
      by (auto simp: conflict_response_def split: if_splits)
  qed
qed

definition accepting :: "(bool \<Rightarrow> outcome) \<Rightarrow> bool" where
  "accepting k \<longleftrightarrow> (\<forall>sent. \<exists>b. k sent = Respond 202 b)"

lemma accepting_response: "accepting (\<lambda>sent. accepted_response (f sent) w extra)"
  by (simp add: accepting_def accepted_response_def)

text \<open>The results of \<open>dispatch_active\<close>: an accepted wake that is not sent, or a send.\<close>

definition accepted_result :: "(nat \<Rightarrow> bool) \<Rightarrow> wake \<Rightarrow> session \<Rightarrow> session \<times> effect list \<times> outcome \<Rightarrow> bool" where
  "accepted_result can_send w s r \<longleftrightarrow>
     (\<exists>s' b. r = (s', [], Respond 202 b) \<and> (s' = s \<or> s' = arm w s \<or> s' = s\<lparr>se_queued := Some w\<rparr>)) \<or>
     (\<exists>k. accepting k \<and> r = send_then can_send k (arm w (s\<lparr>se_queued := None\<rparr>)))"

lemma accepted_result_if:
  "(b \<Longrightarrow> accepted_result c w s x) \<Longrightarrow> (\<not> b \<Longrightarrow> accepted_result c w s y) \<Longrightarrow>
    accepted_result c w s (if b then x else y)"
  by simp

lemma accepted_result_intros:
  "accepted_result c w s (s, [], accepted_response st w e)"
  "accepted_result c w s (arm w s, [], accepted_response st w e)"
  "accepted_result c w s (s\<lparr>se_queued := Some w\<rparr>, [], accepted_response st w e)"
  "accepted_result c w s (send_then c (\<lambda>sent. accepted_response (f sent) w e) (arm w (s\<lparr>se_queued := None\<rparr>)))"
  by (simp_all add: accepted_result_def accepted_response_def)
    (use accepting_response [of f w e] in \<open>auto simp: accepted_response_def\<close>)

lemma dispatch_active_result:
  assumes "wk_pr_number (aw_wake a) = wk_pr_number w \<or> wk_reason w = ''github_pull_request_cross_pr_recovery''"
  shows "accepted_result can_send w s (dispatch_active can_send w a s)"
  unfolding dispatch_active_def Let_def
  by (intro accepted_result_if accepted_result_intros) (use assms in simp)

lemma dispatch_active_cases:
  assumes "dispatch_active can_send w a s = (s', es, out)"
    and "wk_pr_number (aw_wake a) = wk_pr_number w \<or> wk_reason w = ''github_pull_request_cross_pr_recovery''"
  obtains (quiet) "s' = s \<or> s' = arm w s \<or> s' = s\<lparr>se_queued := Some w\<rparr>" "es = []" "\<exists>b. out = Respond 202 b"
  | (send) k where "accepting k" "send_then can_send k (arm w (s\<lparr>se_queued := None\<rparr>)) = (s', es, out)"
  using dispatch_active_result [OF assms(2), of can_send s] assms(1) that
  unfolding accepted_result_def by auto

text \<open>What a dispatch request does, on every branch. A refused request (400, 409) and a
  duplicate (200) change nothing and send nothing; an accepted one (202) carries a valid wake
  whose ID was not in the log and now is; and if sending throws, the wake is active, queued
  and remembered, and nothing was sent.\<close>

theorem dispatch_outcomes:
  assumes "session_run bound evs effs s" and "dispatch env body wid s = (s', es, out)"
  shows "(\<exists>st b. out = Respond st b \<and> st \<in> {200, 400, 409} \<and> s' = s \<and> es = []) \<or>
    validateWake (parseJson body) (Some wid) \<and>
    wk_delivery_id (wake_of_js (parseJson body)) \<notin> set (recentDeliveries s) \<and>
    wk_delivery_id (wake_of_js (parseJson body)) \<in> set (recentDeliveries s') \<and>
    ((\<exists>b. out = Respond 202 b) \<or>
     out = Threw \<and> es = [] \<and> se_queued s' = None \<and>
     se_active s' = Some \<lparr>aw_wake = wake_of_js (parseJson body), aw_phase = Queued\<rparr>)"
  using assms(2)
proof (cases rule: dispatch_cases)
  case (refused st b)
  then show ?thesis by blast
next
  case idle
  have "se_queued s = None"
    using run_ok [OF assms(1)] idle(3) by (simp add: session_ok_def wakes_ok_def)
  then show ?thesis
    using idle(1,2) by (rule_tac send_then_cases [OF idle(4)])
      (auto simp: accepted_response_def known_remember)
next
  case (active a)
  let ?w = "wake_of_js (parseJson body)"
  let ?r = "rememberDelivery (recentDeliveries s) (wk_delivery_id ?w) s"
  from active(5,4) show ?thesis
  proof (cases rule: dispatch_active_cases)
    case quiet
    then have "recentDeliveries s' = recentDeliveries ?r" by auto
    then show ?thesis using active(1,2) known_remember quiet(3) by simp
  next
    case (send k)
    have "recentDeliveries s' = recentDeliveries ?r"
      using send_then_invariants(5) [OF send(2)] by (simp add: recentDeliveries_def)
    moreover have "(\<exists>b. out = Respond 202 b) \<or> out = Threw \<and> es = [] \<and> se_queued s' = None \<and>
        se_active s' = Some \<lparr>aw_wake = ?w, aw_phase = Queued\<rparr>"
      by (rule send_then_cases [OF send(2)]) (use send(1) in \<open>auto simp: accepting_def\<close>)
    ultimately show ?thesis using active(1,2) known_remember by simp
  qed
qed


theorem dispatch_outcomes_witness:
  "\<exists>b. snd (snd (dispatch (sample_env 9 ''u9'') (Some (js_of_wake (sample_opened ''d2''))) ''worker-a'' sample_sent))
     = Respond 202 b"
proof -
  obtain s' es out where h: "dispatch (sample_env 9 ''u9'') (Some (js_of_wake (sample_opened ''d2''))) ''worker-a''
      sample_sent = (s', es, out)" by (cases "dispatch (sample_env 9 ''u9'') (Some (js_of_wake (sample_opened ''d2'')))
      ''worker-a'' sample_sent")
  moreover have "fst (dispatch (sample_env 9 ''u9'') (Some (js_of_wake (sample_opened ''d2''))) ''worker-a'' sample_sent)
      = sample_behind" by code_simp
  ultimately have "s' = sample_behind" by simp
  then have "se_queued s' \<noteq> se_queued sample_sent" "se_queued s' \<noteq> None"
    by (simp_all add: sample_behind_def sample_sent_def sample_session_def)
  moreover from this(1) have "s' \<noteq> sample_sent" by auto
  ultimately show ?thesis using dispatch_outcomes [OF sample_sent_run h] h by auto
qed

text \<open>The recovery request of \<open>index.js\<close> cannot succeed. For a valid request and at most
  one open assignment the handler throws before it reads or changes the state, because
  \<open>planRecovery\<close> is not among the names the module imports.\<close>

theorem recover_unbound_throws:
  assumes "validateRecoveryRequest (parseJson body) wid" and "en_assignments env = Inr as" and "length as \<le> 1"
  shows "recover index_imports env body wid s = (s, [], Threw)"
proof -
  have "''planRecovery'' \<notin> set index_imports" by code_simp
  then show ?thesis using assms by (simp add: recover_def)
qed

definition sample_recover_body :: jsval where
  "sample_recover_body = JObj [(''protocol'', JInt 1), (''type'', JStr ''recover''), (''worker_id'', JStr ''worker-a'')]"

lemma sample_recover_valid: "validateRecoveryRequest (parseJson (Some sample_recover_body)) ''worker-a''"
  by code_simp

theorem recover_unbound_throws_witness:
  "recover index_imports (sample_env 9 ''u9'') (Some sample_recover_body) ''worker-a'' sample_sent = (sample_sent, [], Threw)"
  by (rule recover_unbound_throws [OF sample_recover_valid, of _ "[sample_assignment]"]) (simp_all add: sample_env_def)

text \<open>With \<open>planRecovery\<close> bound, a recovery for the pull request of a wake in flight never
  sends anything. At the same head the state does not change at all; at a new head the wake is
  replaced by the recovery wake of the assignment in phase \<open>recovery_required\<close>, which no
  later step sends, and the queued wake is dropped.\<close>

theorem recover_bound_no_replay:
  assumes "''planRecovery'' \<in> set bound" and "validateRecoveryRequest (parseJson body) wid"
    and "en_assignments env = Inr [x]" and "se_active s = Some a" and "aw_phase a \<noteq> Queued"
    and "as_number x = wk_pr_number (aw_wake a)"
  shows "\<exists>b. recover bound env body wid s =
    (if as_headSha x = wk_expected_head_sha (aw_wake a) then s
     else s\<lparr>se_active := Some \<lparr>aw_wake = recovery_wake (x\<lparr>as_workerId := wid\<rparr>), aw_phase = RecoveryRequired\<rparr>,
            se_queued := None\<rparr>, [], Respond 200 b)"
  using assms by (simp add: recover_def planRecovery_def)

theorem recover_bound_no_replay_witness:
  "fst (recover (''planRecovery'' # index_imports) (sample_env 9 ''u9'') (Some sample_recover_body) ''worker-a'' sample_sent)
     = sample_sent"
proof -
  have "\<exists>b. recover (''planRecovery'' # index_imports) (sample_env 9 ''u9'') (Some sample_recover_body) ''worker-a''
      sample_sent = (if as_headSha sample_assignment = wk_expected_head_sha (sample_opened ''d1'') then sample_sent
        else sample_sent\<lparr>se_active := Some \<lparr>aw_wake = recovery_wake (sample_assignment\<lparr>as_workerId := ''worker-a''\<rparr>),
               aw_phase = RecoveryRequired\<rparr>, se_queued := None\<rparr>, [], Respond 200 b)"
    using recover_bound_no_replay [OF _ sample_recover_valid, of "''planRecovery'' # index_imports" "sample_env 9 ''u9''"
        sample_assignment sample_sent "\<lparr>aw_wake = sample_opened ''d1'', aw_phase = Sent\<rparr>"]
    by (simp add: sample_env_def sample_sent_def sample_opened_def sample_wake_def sample_assignment_def)
  then show ?thesis by (auto simp: sample_opened_def sample_wake_def sample_assignment_def)
qed

text \<open>C5: liveness of the queue. When the authoritative socket reports that the active wake is
  rejected or completed, the wake queued behind it is sent to this socket at once, exactly
  once, and the queue is empty afterwards.\<close>

theorem ack_promotes_queued:
  assumes "session_run bound evs effs s" and "se_active s = Some a" and "se_queued s = Some q"
    and "find_socket sid s = Some so" and "at_registered (so_attachment so)"
    and "se_connection s = Some (connection_of so)" and "can_send sid"
    and "validateAck v (at_workerId (so_attachment so))"
    and "js_get v ''delivery_id'' = JStr (wk_delivery_id (aw_wake a))"
    and "js_get v ''state'' \<in> {JStr ''rejected'', JStr ''completed''}"
  shows "handle bound (EvMessage can_send sid (TextFrame (Some v))) s =
    (s\<lparr>se_active := Some \<lparr>aw_wake = q, aw_phase = Sent\<rparr>, se_queued := None\<rparr>, [SendWake sid q], Silent)"
proof -
  have ok: "session_ok s" by (rule run_ok [OF assms(1)])
  have so: "so \<in> set (se_sockets s)" "so_id so = sid" using find_socketD [OF assms(4)] by simp_all
  have nonempty: "connection_of so \<noteq> []" and conns: "distinct (map connection_of (se_sockets s))"
    using ok so(1) by (auto simp: session_ok_def sockets_ok_def list_all_iff)
  have "authoritativeSocket s = Some so"
  proof -
    have "List.find (\<lambda>x. at_registered (so_attachment x) \<and> at_connectionId (so_attachment x) = connection_of so)
        (se_sockets s) \<noteq> None"
      using so(1) assms(5) by (auto simp: find_None_iff connection_of_def)
    then obtain x where x: "List.find (\<lambda>x. at_registered (so_attachment x) \<and>
        at_connectionId (so_attachment x) = connection_of so) (se_sockets s) = Some x" by blast
    then have "connection_of x = connection_of so" "x \<in> set (se_sockets s)"
      using find_SomeD [OF x] by (simp_all add: connection_of_def)
    then have "x = so" using so(1) conns by (simp add: distinct_map inj_on_def)
    with x show ?thesis using assms(6) nonempty by (simp add: authoritativeSocket_def)
  qed
  then have auth: "authoritativeSocket (arm q (s\<lparr>se_active := None, se_queued := None\<rparr>)) = Some so"
    by (simp add: authoritativeSocket_def cong: option.case_cong if_cong)
  have "webSocketMessage can_send so (TextFrame (Some v)) s = handleAck can_send v sid s"
    using assms(5,6,8) nonempty so(2) by (simp add: webSocketMessage_def parseJson_def connection_of_def)
  also have "\<dots> = promoteQueuedWake can_send (s\<lparr>se_active := None\<rparr>)"
    using assms(2,9,10) by (auto simp: handleAck_def)
  also have "\<dots> = (s\<lparr>se_active := Some \<lparr>aw_wake = q, aw_phase = Sent\<rparr>, se_queued := None\<rparr>, [SendWake sid q], Silent)"
    using assms(3,7) auth so(2) by (simp add: promoteQueuedWake_def send_then_def sendActiveIfSafe_def arm_def)
  finally show ?thesis using assms(4) by simp
qed

theorem ack_promotes_queued_witness:
  "fst (snd (handle index_imports (EvMessage (\<lambda>_. True) 1 (TextFrame (Some (sample_ack ''d1'' ''completed'')))) sample_behind))
     = [SendWake 1 (sample_opened ''d2'')]"
proof -
  let ?so = "hd (se_sockets sample_behind)"
  have facts: "se_active sample_behind = Some \<lparr>aw_wake = sample_opened ''d1'', aw_phase = Sent\<rparr>"
    "se_queued sample_behind = Some (sample_opened ''d2'')" "find_socket 1 sample_behind = Some ?so"
    "at_registered (so_attachment ?so)" "se_connection sample_behind = Some (connection_of ?so)"
    by (simp_all add: sample_behind_def sample_sent_def sample_session_def find_socket_def connection_of_def)
  have ack: "validateAck (sample_ack ''d1'' ''completed'') (at_workerId (so_attachment ?so))"
    by (simp add: sample_behind_def sample_sent_def sample_session_def) code_simp
  have "js_get (sample_ack ''d1'' ''completed'') ''delivery_id'' = JStr (wk_delivery_id (sample_opened ''d1''))"
    "js_get (sample_ack ''d1'' ''completed'') ''state'' \<in> {JStr ''rejected'', JStr ''completed''}"
    by (simp_all add: sample_ack_def sample_opened_def sample_wake_def)
  then show ?thesis
    using ack_promotes_queued [OF sample_behind_run facts _ ack, of "\<lambda>_. True"] by simp
qed

text \<open>Only the authoritative connection changes the wakes. When a message changes the active or
  the queued wake, its sender is the socket whose connection is authoritative after the step,
  and it was registered before or registers with this message.\<close>

theorem only_authoritative_changes_wakes:
  assumes "handle bound (EvMessage can_send sid msg) s = (s', es, out)"
    and "se_active s' \<noteq> se_active s \<or> se_queued s' \<noteq> se_queued s"
  shows "\<exists>so. find_socket sid s = Some so \<and> se_connection s' = Some (connection_of so) \<and>
    (if at_registered (so_attachment so) then se_connection s = Some (connection_of so)
     else \<exists>v. msg = TextFrame (Some v) \<and> validateRegister v (at_workerId (so_attachment so)))"
proof (cases "find_socket sid s")
  case None
  then show ?thesis using assms by simp
next
  case (Some so)
  then have m: "webSocketMessage can_send so msg s = (s', es, out)" using assms(1) by simp
  then obtain body where msg: "msg = TextFrame body"
    using assms(2) by (cases msg) (auto simp: webSocketMessage_def)
  show ?thesis
  proof (cases "at_registered (so_attachment so)")
    case True
    then have conn: "se_connection s = Some (connection_of so)"
      and ack: "handleAck can_send (parseJson body) (so_id so) s = (s', es, out)"
      using m assms(2) unfolding msg webSocketMessage_def Let_def
      by (auto simp: connection_of_def split: if_splits option.splits)
    from ack have "se_connection s' = se_connection s"
      by (rule handleAck_cases) (auto dest: send_then_invariants(7))
    then show ?thesis using Some True conn by simp
  next
    case False
    then have "registerSocket can_send (parseJson body) so s = (s', es, out)"
      using m by (simp add: msg webSocketMessage_def)
    then obtain k sos es' where reg: "validateRegister (parseJson body) (at_workerId (so_attachment so))"
        "send_then can_send k (s\<lparr>se_connection := Some (connection_of so), se_sockets := sos\<rparr>) = (s', es', out)"
      using assms(2) unfolding registerSocket_def Let_def connection_of_def
      by (auto split: if_splits prod.splits)
    then obtain v where "body = Some v" "parseJson body = v"
      by (cases body) (simp_all add: parseJson_def validateRegister_def exact_keys_def)
    then show ?thesis using Some False reg(1) send_then_invariants(7) [OF reg(2)] msg by auto
  qed
qed

theorem only_authoritative_changes_wakes_witness:
  "\<exists>so. find_socket 1 sample_behind = Some so \<and> se_connection sample_behind = Some (connection_of so)"
proof -
  let ?ev = "EvMessage (\<lambda>_. True) 1 (TextFrame (Some (sample_ack ''d1'' ''completed'')))"
  obtain s' es out where h: "handle index_imports ?ev sample_behind = (s', es, out)"
    by (cases "handle index_imports ?ev sample_behind")
  moreover have "se_queued (fst (handle index_imports ?ev sample_behind)) = None" by code_simp
  ultimately have "se_queued s' \<noteq> se_queued sample_behind" by (simp add: sample_behind_def)
  then obtain so where "find_socket 1 sample_behind = Some so"
      "if at_registered (so_attachment so) then se_connection sample_behind = Some (connection_of so)
       else \<exists>v. TextFrame (Some (sample_ack ''d1'' ''completed'')) = TextFrame (Some v) \<and> validateRegister v (at_workerId (so_attachment so))"
    using only_authoritative_changes_wakes [OF h] by blast
  moreover from this(1) have "at_registered (so_attachment so)"
    by (auto simp: sample_behind_def sample_sent_def sample_session_def find_socket_def split: if_splits)
  ultimately show ?thesis by auto
qed

lemma message_worker_id:
  assumes "webSocketMessage can_send so msg s = (s', es, out)"
  shows "se_worker_id s' = se_worker_id s"
proof -
  consider "s' = s" | v where "handleAck can_send v (so_id so) s = (s', es, out)"
    | v where "registerSocket can_send v so s = (s', es, out)"
    using assms unfolding webSocketMessage_def Let_def by (auto split: ws_message.splits if_splits)
  then show ?thesis
  proof cases
    case 2
    then show ?thesis by (rule handleAck_cases) (auto dest: send_then_invariants(4))
  next
    case 3
    then consider "s' = s" | k c sos es' where
      "send_then can_send k (s\<lparr>se_connection := c, se_sockets := sos\<rparr>) = (s', es', out)"
      unfolding registerSocket_def Let_def by (auto split: if_splits prod.splits)
    then show ?thesis by cases (auto dest: send_then_invariants(4))
  qed simp
qed

text \<open>A session object belongs to the first worker that reaches it. Once the worker ID is
  stored, no event changes it, and a request for any other worker is refused without an effect
  on the state.\<close>

theorem session_identity:
  assumes "session_run bound evs effs s" and "admissible ev s" and "handle bound ev s = (s', es, out)"
    and "se_worker_id s = Some wid"
  shows "se_worker_id s' = Some wid \<and>
    (\<forall>env rq. ev = EvFetch env rq \<and> rq_worker_id rq \<noteq> wid \<longrightarrow>
       s' = s \<and> es = [] \<and> (\<exists>b. out = Respond 400 b \<or> out = Respond 409 b))"
proof (cases ev)
  case (EvFetch env rq)
  have ok: "session_ok s" by (rule run_ok [OF assms(1)])
  have f: "session_fetch bound env rq s = (s', es, out)" using assms(3) EvFetch by simp
  show ?thesis
  proof (cases "rq_worker_id rq = wid \<and> worker_id_re wid")
    case True
    have id: "ensureIdentity wid s = (s, True)" using assms(4) by (simp add: ensureIdentity_def)
    have adm: "admissible (EvFetch env rq) s" using assms(2) EvFetch by simp
    have "se_worker_id s' = Some wid"
      using f True connect_ok [OF _ ok assms(4) adm] dispatch_ok [OF _ ok assms(4)]
        recover_ok [OF _ ok assms(4)] adm assms(4)
      unfolding session_fetch_def Let_def by (auto simp: id split: if_splits)
    with True EvFetch show ?thesis by simp
  next
    case False
    then show ?thesis using f EvFetch assms(4)
      by (auto simp: session_fetch_def Let_def ensureIdentity_def split: if_splits bool.splits)
  qed
next
  case (EvMessage can_send sid msg)
  then show ?thesis using assms(3,4) message_worker_id by (auto split: option.splits)
next
  case (EvClose sid)
  then show ?thesis using assms(3,4)
    by (auto simp: drop_socket_def webSocketClose_def clearConnectionIfAuthoritative_def split: option.splits)
next
  case (EvError sid)
  then show ?thesis using assms(3,4)
    by (auto simp: webSocketError_def clearConnectionIfAuthoritative_def split: option.splits)
qed

theorem session_identity_witness:
  "fst (handle index_imports (EvFetch (sample_env 9 ''u9'')
     (sample_request ''/recover'' JNull \<lparr>rq_worker_id := ''worker-b''\<rparr>)) sample_sent) = sample_sent"
proof -
  let ?ev = "EvFetch (sample_env 9 ''u9'') (sample_request ''/recover'' JNull \<lparr>rq_worker_id := ''worker-b''\<rparr>)"
  obtain s' es out where h: "handle index_imports ?ev sample_sent = (s', es, out)"
    by (cases "handle index_imports ?ev sample_sent")
  have adm: "admissible ?ev sample_sent" by code_simp
  have wid: "se_worker_id sample_sent = Some ''worker-a''"
    by (simp add: sample_sent_def sample_session_def)
  from session_identity [OF sample_sent_run adm h wid] have "s' = sample_sent"
    by (simp add: sample_request_def)
  with h show ?thesis by simp
qed

end
