(* ===== verification/RelayHttp.thy ===== *)
theory RelayHttp imports WorkerSessionRuns
begin

text \<open>
  \<open>cloudflare-relay/src/index.js\<close>, the Worker in front of the session objects: path
  dispatch, the GitHub webhook, the relay upgrade and recovery endpoints, the token broker
  endpoint and the reconstruction of assignments from the GitHub API. The session objects are
  a map from object names to states of \<open>WorkerSession\<close>.
\<close>

section \<open>Paths\<close>

text \<open>\<open>decodeURIComponent\<close>: the code points of a percent-encoded text, with the UTF-8
  sequences checked; \<^const>\<open>None\<close> is the \<open>URIError\<close>.\<close>

fun hex_octet :: "string \<Rightarrow> nat option" where
  "hex_octet (a # b # r) = (if is_hex a \<and> is_hex b then Some (16 * digit_val a + digit_val b) else None)"
| "hex_octet _ = None"

fun continuation_octets :: "nat \<Rightarrow> nat \<Rightarrow> string \<Rightarrow> nat option" where
  "continuation_octets 0 acc s = Some acc"
| "continuation_octets (Suc n) acc s =
     (if take 1 s \<noteq> ''%'' then None
      else case hex_octet (drop 1 s) of None \<Rightarrow> None
      | Some b \<Rightarrow> if 128 \<le> b \<and> b < 192 then continuation_octets n (64 * acc + (b - 128)) (drop 3 s) else None)"

text \<open>The number of continuation octets of a leading octet, its payload and the least code point.\<close>

definition lead_octet :: "nat \<Rightarrow> (nat \<times> nat \<times> nat) option" where
  "lead_octet b = (if b < 128 then Some (0, b, 0)
     else if 192 \<le> b \<and> b < 224 then Some (1, b - 192, 128)
     else if 224 \<le> b \<and> b < 240 then Some (2, b - 224, 2048)
     else if 240 \<le> b \<and> b < 248 then Some (3, b - 240, 65536) else None)"

definition scalar_value :: "nat \<Rightarrow> nat \<Rightarrow> bool" where
  "scalar_value least c \<longleftrightarrow> least \<le> c \<and> c < 1114112 \<and> \<not> (55296 \<le> c \<and> c < 57344)"

function decodeURIComponent :: "string \<Rightarrow> nat list option" where
  "decodeURIComponent s =
     (case s of [] \<Rightarrow> Some []
      | c # r \<Rightarrow>
          if c \<noteq> CHR ''%'' then map_option ((#) (code c)) (decodeURIComponent r)
          else case Option.bind (hex_octet r) lead_octet of None \<Rightarrow> None
          | Some (n, payload, least) \<Rightarrow>
              (case continuation_octets n payload (drop 2 r) of None \<Rightarrow> None
               | Some p \<Rightarrow> if scalar_value least p
                   then map_option ((#) p) (decodeURIComponent (drop (2 + 3 * n) r)) else None))"
  by pat_completeness auto
termination by (relation "measure length") auto

text \<open>A decoded text as a string of the model; other texts hold a character no worker ID has.\<close>

definition narrow :: "nat list \<Rightarrow> string option" where
  "narrow cs = (if list_all (\<lambda>c. c < 256) cs then Some (map char_of cs) else None)"

definition valid_decoded :: "nat list \<Rightarrow> string option" where
  "valid_decoded cs = (case narrow cs of None \<Rightarrow> None | Some s \<Rightarrow> if worker_id_re s then Some s else None)"

definition relayPathWorkerId :: "string \<Rightarrow> nat list option" where
  "relayPathWorkerId pathname =
     (if \<not> starts_with pathname ''/relay/'' then None
      else let remainder = drop 7 pathname in
        if remainder = [] \<or> CHR ''/'' \<in> set remainder then None else decodeURIComponent remainder)"

definition ends_with :: "string \<Rightarrow> string \<Rightarrow> bool" where
  "ends_with s t \<longleftrightarrow> length t \<le> length s \<and> drop (length s - length t) s = t"

text \<open>\<open>/^\/relay\/([^/]+)\/recover$/u\<close>: the captured group.\<close>

definition recovery_match :: "string \<Rightarrow> string option" where
  "recovery_match pathname =
     (let g = take (length pathname - 15) (drop 7 pathname) in
      if starts_with pathname ''/relay/'' \<and> 15 < length pathname \<and> ends_with pathname ''/recover'' \<and>
         CHR ''/'' \<notin> set g then Some g else None)"

section \<open>Requests, objects and effects\<close>

record http_request =
  hq_method :: string
  hq_path :: string
  hq_authorization :: string
  hq_upgrade :: string
  hq_delivery :: string
  hq_signature :: string
  hq_event :: string
  hq_content_length :: string
  hq_body :: bytes

text \<open>
  The environment: the webhook secret, \<open>JSON.parse\<close> of the decoded body, whether the
  checkpoint comment could be posted, the answers of the token broker of \<open>github-app.js\<close>
  (the error message or success), and the environment of the session objects.
\<close>

record http_env =
  he_webhook_secret :: "string option"
  he_parse :: "bytes \<Rightarrow> jsval option"
  he_minted :: bool
  he_oidc :: "string \<Rightarrow> string option"
  he_mint :: "string + jsval"
  he_session :: ws_env

type_synonym objects = "string \<Rightarrow> session option"

definition workerSessionObjectId :: "string \<Rightarrow> string" where
  "workerSessionObjectId wid = ''v2:'' @ wid"

definition object_at :: "objects \<Rightarrow> string \<Rightarrow> session" where
  "object_at objs wid = (case objs (workerSessionObjectId wid) of None \<Rightarrow> empty_session | Some s \<Rightarrow> s)"

text \<open>The comment of a checkpoint: the repository and issue it goes to, and what it says.\<close>

datatype http_effect =
    InSession string effect
  | PostCheckpoint string int string wake

definition error_body :: "string \<Rightarrow> jsval" where
  "error_body e = JObj [(''error'', JStr e)]"

definition stub_fetch ::
  "string list \<Rightarrow> ws_env \<Rightarrow> string \<Rightarrow> ws_request \<Rightarrow> objects \<Rightarrow> objects \<times> http_effect list \<times> outcome" where
  "stub_fetch bound env wid rq objs =
     (case session_fetch bound env rq (object_at objs wid) of
        (s', es, out) \<Rightarrow> (objs(workerSessionObjectId wid \<mapsto> s'), map (InSession wid) es, out))"

section \<open>The webhook\<close>

definition postRelayCheckpoint :: "http_env \<Rightarrow> wake \<Rightarrow> string \<Rightarrow> http_effect list" where
  "postRelayCheckpoint env w relayState =
     (if he_minted env then [PostCheckpoint CONTROL_REPOSITORY (wk_pr_number w) relayState w] else [])"

fun js_opt_int :: "int option \<Rightarrow> jsval" where
  "js_opt_int None = JUndef"
| "js_opt_int (Some n) = JInt n"

text \<open>\<open>String(durableResult?.state || durableResult?.error || "unknown")\<close>.\<close>

definition relay_state :: "jsval \<Rightarrow> string" where
  "relay_state r = js_string (if truthy (js_get r ''state'') then js_get r ''state''
     else if truthy (js_get r ''error'') then js_get r ''error'' else JStr ''unknown'')"

definition dispatch_request :: "string \<Rightarrow> wake \<Rightarrow> ws_request" where
  "dispatch_request wid w = \<lparr>rq_worker_id = wid, rq_path = ''/dispatch'', rq_authorization = [],
     rq_upgrade = [], rq_body = Some (js_of_wake w)\<rparr>"

definition too_large :: "jsval \<Rightarrow> bool" where
  "too_large n = (case n of JInt k \<Rightarrow> MAX_WEBHOOK_BYTES < k | JFrac q \<Rightarrow> of_int MAX_WEBHOOK_BYTES < q | _ \<Rightarrow> False)"

definition deliver_wake ::
  "string list \<Rightarrow> http_env \<Rightarrow> string \<Rightarrow> string \<Rightarrow> wake \<Rightarrow> objects \<Rightarrow> objects \<times> http_effect list \<times> outcome" where
  "deliver_wake bound env delivery wid w objs =
     (case stub_fetch bound (he_session env) wid (dispatch_request wid w) objs of
        (objs', es, Respond st result) \<Rightarrow>
          (objs', es @ postRelayCheckpoint env w (relay_state result),
           Respond st (JObj [(''accepted'', JBool (200 \<le> st \<and> st < 300)), (''delivery'', JStr delivery),
             (''worker_id'', JStr wid), (''pull_request'', JInt (wk_pr_number w)), (''relay'', result)]))
      | (objs', es, other) \<Rightarrow> (objs', es, Threw))"

definition handleGitHubWebhook ::
  "string list \<Rightarrow> http_env \<Rightarrow> http_request \<Rightarrow> objects \<Rightarrow> objects \<times> http_effect list \<times> outcome" where
  "handleGitHubWebhook bound env rq objs =
     (case he_webhook_secret env of None \<Rightarrow> (objs, [], Respond 503 (error_body ''WEBHOOK_SECRET_UNCONFIGURED''))
      | Some secret \<Rightarrow>
      if secret = [] then (objs, [], Respond 503 (error_body ''WEBHOOK_SECRET_UNCONFIGURED''))
      else if too_large (string_to_number (if hq_content_length rq = [] then ''0'' else hq_content_length rq)) then
        (objs, [], Respond 413 (error_body ''GITHUB_PAYLOAD_TOO_LARGE''))
      else if MAX_WEBHOOK_BYTES < int (length (hq_body rq)) then
        (objs, [], Respond 413 (error_body ''GITHUB_PAYLOAD_TOO_LARGE''))
      else if \<not> verifyGitHubSignature (en_verify (he_session env)) (hq_body rq) (hq_signature rq) secret then
        (objs, [], Respond 401 (error_body ''GITHUB_SIGNATURE_INVALID''))
      else if hq_event rq = ''ping'' then
        (objs, [], Respond 200 (JObj [(''accepted'', JBool True), (''reason'', JStr ''PING''),
           (''repo'', JStr CONTROL_REPOSITORY)]))
      else if hq_event rq \<noteq> ''pull_request'' then
        (objs, [], Respond 202 (JObj [(''accepted'', JBool False), (''reason'', JStr ''IGNORED_EVENT'')]))
      else let payload = parseJson (he_parse env (hq_body rq)) in
      if payload = JNull then (objs, [], Respond 400 (error_body ''GITHUB_PAYLOAD_INVALID''))
      else case routeGitHubPullRequest payload (JStr (hq_delivery rq)) of
        RError st e pr labels \<Rightarrow>
          (objs, [], Respond st (JObj [(''error'', JStr e), (''pull_request'', js_opt_int pr),
             (''labels'', if labels = [] then JUndef else JArr (map JStr labels))]))
      | RIgnore reason pr \<Rightarrow>
          (objs, [], Respond 202 (JObj [(''accepted'', JBool False), (''delivery'', JStr (hq_delivery rq)),
             (''reason'', JStr reason), (''pull_request'', js_opt_int pr)]))
      | RRoute wid w \<Rightarrow> deliver_wake bound env (hq_delivery rq) wid w objs)"

section \<open>The token broker endpoint\<close>

text \<open>\<open>/^Bearer\s+(.+)$/iu\<close>: the captured group, with the backtracking of \<open>\s+\<close>.\<close>

definition no_newline :: "string \<Rightarrow> bool" where
  "no_newline s \<longleftrightarrow> list_all (\<lambda>c. code c \<noteq> 10 \<and> code c \<noteq> 13) s"

definition bearer_rest :: "string \<Rightarrow> string option" where
  "bearer_rest header =
     (let r = drop 6 header; ws = takeWhile is_space r; t = dropWhile is_space r;
          g = (if t = [] \<and> 2 \<le> length ws then [last ws] else t)
      in if to_lower (take 6 header) = ''bearer'' \<and> ws \<noteq> [] \<and> g \<noteq> [] \<and> no_newline g then Some g else None)"

definition broker_status :: "string \<Rightarrow> nat" where
  "broker_status e = (if starts_with e ''OIDC_'' then 401 else if ends_with e ''_UNCONFIGURED'' then 503 else 502)"

definition handleGitHubAppInstallToken :: "http_env \<Rightarrow> http_request \<Rightarrow> outcome" where
  "handleGitHubAppInstallToken env rq =
     (case bearer_rest (hq_authorization rq) of None \<Rightarrow> Respond 401 (error_body ''ACTIONS_OIDC_REQUIRED'')
      | Some token \<Rightarrow>
          (case he_oidc env token of Some e \<Rightarrow> Respond (broker_status e) (error_body e)
           | None \<Rightarrow> (case he_mint env of Inl e \<Rightarrow> Respond (broker_status e) (error_body e)
                      | Inr minted \<Rightarrow> Respond 200 minted)))"

section \<open>Reconstruction of assignments\<close>

text \<open>An answer of the GitHub API; its body is \<^const>\<open>None\<close> when it is no JSON.\<close>

record gh_response =
  gr_status :: nat
  gr_json :: "jsval option"

definition gr_ok :: "gh_response \<Rightarrow> bool" where
  "gr_ok r \<longleftrightarrow> 200 \<le> gr_status r \<and> gr_status r < 300"

definition candidateNumbers :: "jsval list \<Rightarrow> int list" where
  "candidateNumbers issues = filter (\<lambda>n. 0 < n) (map the_int (filter is_integer (map item_number
     (filter (\<lambda>i. truthy (js_get i ''pull_request'') \<and> js_eq (js_get i ''state'') (JStr ''open'')) issues))))"

definition fetch_detail :: "(int \<Rightarrow> gh_response) \<Rightarrow> int \<Rightarrow> string + jsval" where
  "fetch_detail pull_of n =
     (let r = pull_of n in
      if \<not> gr_ok r \<or> \<not> is_object (parseJson (gr_json r)) then
        Inl (''GITHUB_ASSIGNMENT_DETAIL_FAILED:'' @ int_string n @ '':'' @ int_string (int (gr_status r)))
      else Inr (parseJson (gr_json r)))"

definition recoverAssignedPullRequests ::
  "string option \<Rightarrow> gh_response \<Rightarrow> (int \<Rightarrow> gh_response) \<Rightarrow> string \<Rightarrow> string + assignment list" where
  "recoverAssignedPullRequests mint_error issues pull_of wid =
     (case mint_error of Some e \<Rightarrow> Inl e
      | None \<Rightarrow>
      (case gr_json issues of
         Some (JArr items) \<Rightarrow>
           if \<not> gr_ok issues then
             Inl (''GITHUB_ASSIGNMENT_RECOVERY_FAILED:'' @ int_string (int (gr_status issues)))
           else if 100 \<le> length items then Inl ''GITHUB_ASSIGNMENT_RECOVERY_PAGE_AMBIGUOUS''
           else (case map_result (fetch_detail pull_of) (candidateNumbers items) of
                   Inl e \<Rightarrow> Inl e
                 | Inr pulls \<Rightarrow> normalizeRecoveryAssignments (JArr items) (JArr pulls) wid)
       | _ \<Rightarrow> Inl (''GITHUB_ASSIGNMENT_RECOVERY_FAILED:'' @ int_string (int (gr_status issues)))))"

section \<open>The relay endpoints\<close>

text \<open>The checks \<open>handleRelayRecovery\<close> and \<open>handleRelayUpgrade\<close> start with.\<close>

definition relay_gate :: "http_env \<Rightarrow> http_request \<Rightarrow> nat list \<Rightarrow> outcome + string" where
  "relay_gate env rq decoded =
     (case valid_decoded decoded of None \<Rightarrow> Inl (Respond 400 (error_body ''WORKER_ID_INVALID''))
      | Some wid \<Rightarrow>
          (case en_token_key (he_session env) of
             None \<Rightarrow> Inl (Respond 503 (error_body ''RELAY_TOKEN_UNCONFIGURED''))
           | Some key \<Rightarrow>
               if key = [] then Inl (Respond 503 (error_body ''RELAY_TOKEN_UNCONFIGURED''))
               else if \<not> relayBearerMatches (en_verify (he_session env)) (hq_authorization rq) key wid then
                 Inl (Respond 401 (error_body ''RELAY_UNAUTHORIZED''))
               else Inr wid))"

definition handleRelayRecovery ::
  "string list \<Rightarrow> http_env \<Rightarrow> http_request \<Rightarrow> nat list \<Rightarrow> objects \<Rightarrow> objects \<times> http_effect list \<times> outcome" where
  "handleRelayRecovery bound env rq decoded objs =
     (case relay_gate env rq decoded of Inl out \<Rightarrow> (objs, [], out)
      | Inr wid \<Rightarrow> stub_fetch bound (he_session env) wid
          \<lparr>rq_worker_id = wid, rq_path = ''/recover'', rq_authorization = [], rq_upgrade = [],
           rq_body = Some (JObj [(''worker_id'', JStr wid)])\<rparr> objs)"

definition handleRelayUpgrade ::
  "string list \<Rightarrow> http_env \<Rightarrow> http_request \<Rightarrow> nat list \<Rightarrow> objects \<Rightarrow> objects \<times> http_effect list \<times> outcome" where
  "handleRelayUpgrade bound env rq decoded objs =
     (case relay_gate env rq decoded of Inl out \<Rightarrow> (objs, [], out)
      | Inr wid \<Rightarrow>
          if to_lower (hq_upgrade rq) \<noteq> ''websocket'' then
            (objs, [], Respond 426 (error_body ''WEBSOCKET_UPGRADE_REQUIRED''))
          else stub_fetch bound (he_session env) wid
            \<lparr>rq_worker_id = wid, rq_path = ''/connect'', rq_authorization = hq_authorization rq,
             rq_upgrade = hq_upgrade rq, rq_body = None\<rparr> objs)"

section \<open>The entry point\<close>

definition relay_fetch ::
  "string list \<Rightarrow> http_env \<Rightarrow> http_request \<Rightarrow> objects \<Rightarrow> objects \<times> http_effect list \<times> outcome" where
  "relay_fetch bound env rq objs =
     (let refuse = (\<lambda>st e. (objs, [], Respond st (error_body e))) in
      if hq_path rq = ''/webhooks/github'' then
        (if hq_method rq \<noteq> ''POST'' then refuse 405 ''METHOD_NOT_ALLOWED''
         else handleGitHubWebhook bound env rq objs)
      else if hq_path rq = ''/github/app/install-token'' then
        (if hq_method rq \<noteq> ''POST'' then refuse 405 ''METHOD_NOT_ALLOWED''
         else (objs, [], handleGitHubAppInstallToken env rq))
      else case relayPathWorkerId (hq_path rq) of
        Some decoded \<Rightarrow>
          if ends_with (hq_path rq) ''/recover'' then refuse 400 ''RECOVERY_PATH_INVALID''
          else if hq_method rq \<noteq> ''GET'' then refuse 405 ''METHOD_NOT_ALLOWED''
          else handleRelayUpgrade bound env rq decoded objs
      | None \<Rightarrow>
      (case recovery_match (hq_path rq) of None \<Rightarrow> refuse 404 ''NOT_FOUND''
       | Some g \<Rightarrow>
           (case decodeURIComponent g of None \<Rightarrow> (objs, [], Threw)
            | Some decoded \<Rightarrow>
                if hq_method rq \<noteq> ''POST'' then refuse 405 ''METHOD_NOT_ALLOWED''
                else handleRelayRecovery bound env rq decoded objs)))"

section \<open>One object per worker\<close>

definition object_ok :: "string \<Rightarrow> session \<Rightarrow> bool" where
  "object_ok wid s \<longleftrightarrow> session_ok s \<and> (se_worker_id s = None \<or> se_worker_id s = Some wid)"

definition objects_ok :: "objects \<Rightarrow> bool" where
  "objects_ok objs \<longleftrightarrow> (\<forall>wid. object_ok wid (object_at objs wid))"

definition env_ok :: "http_env \<Rightarrow> objects \<Rightarrow> bool" where
  "env_ok env objs \<longleftrightarrow> (\<forall>wid rq. admissible (EvFetch (he_session env) rq) (object_at objs wid))"

lemma object_id_inj: "workerSessionObjectId a = workerSessionObjectId b \<longleftrightarrow> a = b"
  by (simp add: workerSessionObjectId_def)

lemma object_at_update: "object_at (objs(workerSessionObjectId a \<mapsto> s)) b = (if a = b then s else object_at objs b)"
  by (auto simp: object_at_def object_id_inj)

lemma empty_object_ok: "object_ok wid empty_session"
  using empty_session_ok by (simp add: object_ok_def empty_session_def)

text \<open>The session of a request of its own worker.\<close>

lemma own_fetch:
  assumes "object_ok wid s" and "rq_worker_id rq = wid" and "worker_id_re wid"
  obtains s1 where "ensureIdentity wid s = (s1, True)" "session_ok s1" "se_worker_id s1 = Some wid"
    "se_sockets s1 = se_sockets s" "se_active s1 = se_active s" "se_queued s1 = se_queued s"
    "se_recent s1 = se_recent s" "se_connection s1 = se_connection s"
    "session_fetch bound env rq s =
      (if rq_path rq = ''/connect'' then connect env rq wid s1
       else if rq_path rq = ''/dispatch'' then dispatch env (rq_body rq) wid s1
       else if rq_path rq = ''/recover'' then recover bound env (rq_body rq) wid s1
       else (s1, [], Respond 404 (JObj [(''error'', JStr ''NOT_FOUND'')])))"
proof -
  obtain s1 where s1: "ensureIdentity wid s = (s1, True)"
    using assms(1) by (auto simp: object_ok_def ensureIdentity_def)
  have ok: "session_ok s" using assms(1) by (simp add: object_ok_def)
  have conn: "se_connection s1 = se_connection s"
    using s1 by (auto simp: ensureIdentity_def split: option.splits)
  show ?thesis
    by (rule that [OF s1]) (use ensureIdentity_ok [OF s1 ok] conn assms(2,3) s1 in \<open>simp_all add: session_fetch_def\<close>)
qed

lemma own_fetch_ok:
  assumes "object_ok wid s" and "rq_worker_id rq = wid" and "worker_id_re wid"
    and "admissible (EvFetch env rq) s" and "session_fetch bound env rq s = (s', es, out)"
  shows "object_ok wid s'"
proof -
  from own_fetch [OF assms(1-3)] obtain s1 where s1: "session_ok s1" "se_worker_id s1 = Some wid"
      "se_sockets s1 = se_sockets s" "session_fetch bound env rq s =
      (if rq_path rq = ''/connect'' then connect env rq wid s1
       else if rq_path rq = ''/dispatch'' then dispatch env (rq_body rq) wid s1
       else if rq_path rq = ''/recover'' then recover bound env (rq_body rq) wid s1
       else (s1, [], Respond 404 (JObj [(''error'', JStr ''NOT_FOUND'')])))" by metis
  have adm: "admissible (EvFetch env rq) s1" using assms(4) s1(3) by simp
  have "session_ok s' \<and> se_worker_id s' = Some wid"
    using assms(5) s1(1,2) adm assms(3) unfolding s1(4)
    by (auto split: if_splits dest!: connect_ok [OF _ s1(1,2) adm] dispatch_ok [OF _ s1(1,2)]
        recover_ok [OF _ s1(1,2) assms(3)])
  then show ?thesis by (simp add: object_ok_def)
qed

lemma stub_fetch_ok:
  assumes "stub_fetch bound (he_session env) wid rq objs = (objs', es, out)" and "objects_ok objs"
    and "env_ok env objs" and "rq_worker_id rq = wid" and "worker_id_re wid"
  shows "objects_ok objs' \<and> (\<forall>k. k \<noteq> workerSessionObjectId wid \<longrightarrow> objs' k = objs k)"
proof -
  obtain s' es' where s': "session_fetch bound (he_session env) rq (object_at objs wid) = (s', es', out)"
      "objs' = objs(workerSessionObjectId wid \<mapsto> s')"
    using assms(1) by (auto simp: stub_fetch_def split: prod.splits)
  have "object_ok wid s'"
    using own_fetch_ok [OF _ assms(4,5) _ s'(1)] assms(2,3) by (simp add: objects_ok_def env_ok_def)
  then show ?thesis
    using assms(2) by (auto simp: s'(2) objects_ok_def object_at_update)
qed

lemma relay_gate_Inr: "relay_gate env rq decoded = Inr wid \<longleftrightarrow> valid_decoded decoded = Some wid \<and>
    (\<exists>key. en_token_key (he_session env) = Some key \<and> key \<noteq> [] \<and>
       relayBearerMatches (en_verify (he_session env)) (hq_authorization rq) key wid)"
  by (auto simp: relay_gate_def split: option.splits if_splits)

lemma valid_decoded_re: "valid_decoded decoded = Some wid \<Longrightarrow> worker_id_re wid"
  by (auto simp: valid_decoded_def split: option.splits if_splits)

lemma webhook_cases:
  assumes "handleGitHubWebhook bound env rq objs = (objs', es, out)"
  obtains (stop) st b where "objs' = objs" "es = []" "out = Respond st b"
  | (route) secret wid w where "he_webhook_secret env = Some secret" "secret \<noteq> []"
      "int (length (hq_body rq)) \<le> MAX_WEBHOOK_BYTES"
      "verifyGitHubSignature (en_verify (he_session env)) (hq_body rq) (hq_signature rq) secret"
      "hq_event rq = ''pull_request''"
      "routeGitHubPullRequest (parseJson (he_parse env (hq_body rq))) (JStr (hq_delivery rq)) = RRoute wid w"
      "deliver_wake bound env (hq_delivery rq) wid w objs = (objs', es, out)"
  using assms unfolding handleGitHubWebhook_def Let_def
  by (auto split: option.splits if_splits routing.splits)

lemma deliver_wake_ok:
  assumes "deliver_wake bound env d wid w objs = (objs', es, out)" and "objects_ok objs" and "env_ok env objs"
    and "wake_ok wid w"
  shows "objects_ok objs' \<and> (\<forall>k. k \<noteq> workerSessionObjectId wid \<longrightarrow> objs' k = objs k)"
proof -
  obtain es' out' where "stub_fetch bound (he_session env) wid (dispatch_request wid w) objs = (objs', es', out')"
    using assms(1) by (auto simp: deliver_wake_def split: prod.splits outcome.splits)
  from stub_fetch_ok [OF this assms(2,3)] assms(4) show ?thesis
    by (simp add: dispatch_request_def wake_ok_def)
qed

text \<open>The system invariant of the relay. Whatever a request is, the session object of every
  worker stays well formed and never takes the identity of another worker.\<close>

theorem relay_objects_invariant:
  assumes "objects_ok objs" and "env_ok env objs" and "relay_fetch bound env rq objs = (objs', es, out)"
  shows "objects_ok objs'"
proof -
  consider "objs' = objs" | "handleGitHubWebhook bound env rq objs = (objs', es, out)"
    | d where "handleRelayUpgrade bound env rq d objs = (objs', es, out)"
    | d where "handleRelayRecovery bound env rq d objs = (objs', es, out)"
    using assms(3) unfolding relay_fetch_def Let_def by (auto split: if_splits option.splits)
  then show ?thesis
  proof cases
    case 2
    then show ?thesis
    proof (cases rule: webhook_cases)
      case (route secret wid w)
      then show ?thesis using deliver_wake_ok [OF route(7) assms(1,2)] routed_wake_facts [OF route(6)] by simp
    qed (use assms(1) in simp)
  next
    case (3 d)
    then show ?thesis using assms(1) stub_fetch_ok [OF _ assms(1,2)]
      by (auto simp: handleRelayUpgrade_def relay_gate_Inr split: sum.splits if_splits dest: valid_decoded_re)
  next
    case (4 d)
    then show ?thesis using assms(1) stub_fetch_ok [OF _ assms(1,2)]
      by (auto simp: handleRelayRecovery_def relay_gate_Inr split: sum.splits if_splits dest: valid_decoded_re)
  qed (use assms(1) in simp)
qed

text \<open>C9: nothing unsigned gets in. A webhook request that changes an object or has an effect
  carries a body of at most one mebibyte whose signature verifies under the secret, is a
  pull-request event that routes to a worker, and changes the object of this worker only.\<close>

theorem webhook_authentic:
  assumes "objects_ok objs" and "env_ok env objs"
    and "handleGitHubWebhook bound env rq objs = (objs', es, out)" and "objs' \<noteq> objs \<or> es \<noteq> []"
  shows "\<exists>secret wid w. he_webhook_secret env = Some secret \<and> secret \<noteq> [] \<and> length (hq_body rq) \<le> 1048576 \<and>
    verifyGitHubSignature (en_verify (he_session env)) (hq_body rq) (hq_signature rq) secret \<and>
    hq_event rq = ''pull_request'' \<and>
    routeGitHubPullRequest (parseJson (he_parse env (hq_body rq))) (JStr (hq_delivery rq)) = RRoute wid w \<and>
    (\<forall>k. k \<noteq> workerSessionObjectId wid \<longrightarrow> objs' k = objs k)"
  using assms(3)
proof (cases rule: webhook_cases)
  case (route secret wid w)
  have "wake_ok wid w" using routed_wake_facts [OF route(6)] by simp
  then show ?thesis
    using route deliver_wake_ok [OF route(7) assms(1,2)] by (auto simp: MAX_WEBHOOK_BYTES_def)
qed (use assms(4) in simp)

text \<open>What routing produces is always understood. When the webhook hands a routed wake to the
  session object of its worker, the answer is never the refusal of a malformed wake or of a
  foreign worker: it is a duplicate (200), accepted (202), a conflict (409) or the exception
  of a failed send.\<close>

theorem routed_wake_understood:
  assumes "objects_ok objs" and "routeGitHubPullRequest payload (JStr d) = RRoute wid w"
    and "deliver_wake bound env d wid w objs = (objs', es, out)"
  shows "out = Threw \<or> (\<exists>st b. out = Respond st b \<and> st \<in> {200, 202, 409})"
proof -
  have w: "wake_ok wid w" using routed_wake_facts [OF assms(2)] by simp
  have obj: "object_ok wid (object_at objs wid)" using assms(1) by (simp add: objects_ok_def)
  from own_fetch [OF obj, of "dispatch_request wid w" bound "he_session env"] w obtain s1 where
    f: "session_fetch bound (he_session env) (dispatch_request wid w) (object_at objs wid) =
      dispatch (he_session env) (Some (js_of_wake w)) wid s1"
    by (auto simp: dispatch_request_def wake_ok_def)
  obtain s' es' out' where dp: "dispatch (he_session env) (Some (js_of_wake w)) wid s1 = (s', es', out')"
    by (cases "dispatch (he_session env) (Some (js_of_wake w)) wid s1")
  have v: "validateWake (js_of_wake w) (Some wid)" using w by simp
  from dp have "out' = Threw \<or> (\<exists>st b. out' = Respond st b \<and> st \<in> {200, 202, 409})"
  proof (cases rule: dispatch_cases)
    case (refused st b)
    then show ?thesis using v by (auto simp: parseJson_def)
  next
    case idle
    then show ?thesis by (rule_tac send_then_cases [OF idle(4)]) (auto simp: accepted_response_def)
  next
    case (active a)
    from active(5,4) show ?thesis
    proof (cases rule: dispatch_active_cases)
      case (send k)
      then show ?thesis by (rule_tac send_then_cases [OF send(2)]) (auto simp: accepting_def)
    qed auto
  qed
  then show ?thesis
    using assms(3) by (auto simp: deliver_wake_def stub_fetch_def f dp)
qed

definition no_objects :: objects where
  "no_objects = (\<lambda>_. None)"

lemma no_objects_ok: "objects_ok no_objects"
  using empty_object_ok by (simp add: objects_ok_def object_at_def no_objects_def)

definition sample_http_env :: http_env where
  "sample_http_env = \<lparr>he_webhook_secret = Some ''s'', he_parse = (\<lambda>_. Some (sample_event ''opened'' [] [])),
     he_minted = True, he_oidc = (\<lambda>_. None), he_mint = Inl ''GITHUB_APP_UNCONFIGURED'', he_session = sample_env 2 ''u2''\<rparr>"

definition sample_http :: "string \<Rightarrow> string \<Rightarrow> http_request" where
  "sample_http method path = \<lparr>hq_method = method, hq_path = path,
     hq_authorization = ''Bearer '' @ replicate 43 CHR ''A'', hq_upgrade = ''websocket'', hq_delivery = ''d-1'',
     hq_signature = ''sha256='' @ replicate 64 CHR ''a'', hq_event = ''pull_request'', hq_content_length = ''2'',
     hq_body = ''{}''\<rparr>"

lemma sample_http_env_ok: "env_ok sample_http_env no_objects"
proof -
  have "reported_ok sample_assignment" by code_simp
  then show ?thesis
    by (simp add: env_ok_def object_at_def no_objects_def empty_session_def sample_http_env_def sample_env_def)
qed

definition sample_objects :: objects where
  "sample_objects = no_objects(''v2:worker-a'' \<mapsto> empty_session\<lparr>se_worker_id := Some ''worker-a'',
     se_active := Some \<lparr>aw_wake = sample_wake ''github_pull_request_opened'' ''d-1'', aw_phase = Queued\<rparr>,
     se_recent := Some [''d-1'']\<rparr>)"

definition sample_checkpoint :: http_effect where
  "sample_checkpoint = PostCheckpoint CONTROL_REPOSITORY 7 ''queued'' (sample_wake ''github_pull_request_opened'' ''d-1'')"

lemma sample_deliver: "\<exists>b. deliver_wake index_imports sample_http_env ''d-1'' ''worker-a''
    (sample_wake ''github_pull_request_opened'' ''d-1'') no_objects = (sample_objects, [sample_checkpoint], Respond 202 b)"
proof -
  let ?rq = "dispatch_request ''worker-a'' (sample_wake ''github_pull_request_opened'' ''d-1'')"
  have f: "session_fetch index_imports (sample_env 2 ''u2'') ?rq empty_session =
      (empty_session\<lparr>se_worker_id := Some ''worker-a'',
         se_active := Some \<lparr>aw_wake = sample_wake ''github_pull_request_opened'' ''d-1'', aw_phase = Queued\<rparr>,
         se_recent := Some [''d-1'']\<rparr>, [],
       Respond 202 (JObj [(''state'', JStr ''queued''), (''delivery_id'', JStr ''d-1'')]))"
    by code_simp
  show ?thesis
    by (simp add: deliver_wake_def stub_fetch_def object_at_def no_objects_def sample_http_env_def f
        sample_objects_def workerSessionObjectId_def postRelayCheckpoint_def relay_state_def sample_checkpoint_def)
      (simp add: sample_wake_def)
qed

lemma sample_objects_ok: "objects_ok sample_objects"
proof -
  obtain b where h: "deliver_wake index_imports sample_http_env ''d-1'' ''worker-a''
    (sample_wake ''github_pull_request_opened'' ''d-1'') no_objects = (sample_objects, [sample_checkpoint], Respond 202 b)"
    using sample_deliver by blast
  have "wake_ok ''worker-a'' (sample_wake ''github_pull_request_opened'' ''d-1'')" by code_simp
  then show ?thesis using deliver_wake_ok [OF h no_objects_ok sample_http_env_ok] by simp
qed

lemma sample_webhook: "\<exists>b. handleGitHubWebhook index_imports sample_http_env (sample_http ''POST'' ''/webhooks/github'') no_objects
    = (sample_objects, [sample_checkpoint], Respond 202 b)"
proof -
  have large: "\<not> too_large (string_to_number ''2'')" by code_simp
  have signature: "verifyGitHubSignature (en_verify (sample_env 2 ''u2'')) ''{}'' (''sha256='' @ replicate 64 CHR ''a'') ''s''"
    by code_simp
  show ?thesis
    using sample_deliver sample_opened_routes large signature
    by (simp add: handleGitHubWebhook_def sample_http_env_def sample_http_def MAX_WEBHOOK_BYTES_def parseJson_def)
      (simp add: sample_event_def)
qed

theorem relay_objects_invariant_witness: "objects_ok sample_objects"
proof -
  obtain b where "relay_fetch index_imports sample_http_env (sample_http ''POST'' ''/webhooks/github'') no_objects
      = (sample_objects, [sample_checkpoint], Respond 202 b)"
    using sample_webhook by (auto simp: relay_fetch_def sample_http_def)
  then show ?thesis by (rule relay_objects_invariant [OF no_objects_ok sample_http_env_ok])
qed

theorem webhook_authentic_witness:
  "\<exists>secret. he_webhook_secret sample_http_env = Some secret \<and>
     verifyGitHubSignature (en_verify (he_session sample_http_env)) ''{}'' (''sha256='' @ replicate 64 CHR ''a'') secret"
proof -
  obtain b where h: "handleGitHubWebhook index_imports sample_http_env (sample_http ''POST'' ''/webhooks/github'') no_objects
    = (sample_objects, [sample_checkpoint], Respond 202 b)" using sample_webhook by blast
  from webhook_authentic [OF no_objects_ok sample_http_env_ok h] show ?thesis by (auto simp: sample_http_def)
qed

theorem routed_wake_understood_witness:
  "\<exists>st b. snd (snd (deliver_wake index_imports sample_http_env ''d-1'' ''worker-a''
     (sample_wake ''github_pull_request_opened'' ''d-1'') no_objects)) = Respond st b \<and> st \<in> {200, 202, 409}"
proof -
  obtain b where h: "deliver_wake index_imports sample_http_env ''d-1'' ''worker-a''
    (sample_wake ''github_pull_request_opened'' ''d-1'') no_objects = (sample_objects, [sample_checkpoint], Respond 202 b)"
    using sample_deliver by blast
  from routed_wake_understood [OF no_objects_ok sample_opened_routes h] h show ?thesis by auto
qed

section \<open>The relay endpoints\<close>

text \<open>C10: the recovery endpoint never recovers. A request that passes every check of
  \<open>handleRelayRecovery\<close> is answered 400 \<open>RECOVERY_REQUEST_INVALID\<close> by the session object,
  because the endpoint sends \<open>{worker_id}\<close> and the object requires \<open>protocol\<close> and
  \<open>type\<close> too; no wake is changed, and nothing is sent.\<close>

theorem recovery_endpoint_always_refused:
  assumes "objects_ok objs" and "relay_gate env rq decoded = Inr wid"
  shows "\<exists>objs'. handleRelayRecovery bound env rq decoded objs =
      (objs', [], Respond 400 (error_body ''RECOVERY_REQUEST_INVALID'')) \<and>
    se_active (object_at objs' wid) = se_active (object_at objs wid) \<and>
    se_queued (object_at objs' wid) = se_queued (object_at objs wid)"
proof -
  let ?rq = "\<lparr>rq_worker_id = wid, rq_path = ''/recover'', rq_authorization = [], rq_upgrade = [],
           rq_body = Some (JObj [(''worker_id'', JStr wid)])\<rparr>"
  have re: "worker_id_re wid" using assms(2) valid_decoded_re by (auto simp: relay_gate_Inr)
  have obj: "object_ok wid (object_at objs wid)" using assms(1) by (simp add: objects_ok_def)
  from own_fetch [OF obj _ re, of ?rq bound "he_session env"] obtain s1 where
    s1: "se_active s1 = se_active (object_at objs wid)" "se_queued s1 = se_queued (object_at objs wid)"
      "session_fetch bound (he_session env) ?rq (object_at objs wid) =
        recover bound (he_session env) (Some (JObj [(''worker_id'', JStr wid)])) wid s1"
    by auto
  have "\<not> validateRecoveryRequest (parseJson (Some (JObj [(''worker_id'', JStr wid)]))) wid"
    by (simp add: validateRecoveryRequest_def exact_keys_def parseJson_def)
  then have "session_fetch bound (he_session env) ?rq (object_at objs wid) =
      (s1, [], Respond 400 (error_body ''RECOVERY_REQUEST_INVALID''))"
    by (simp add: s1(3) recover_def error_body_def)
  then show ?thesis
    using s1(1,2) by (auto simp: handleRelayRecovery_def assms(2) stub_fetch_def object_at_update)
qed

lemma sample_gate: "relay_gate sample_http_env (sample_http ''POST'' ''/relay/worker-a/recover'') (map code ''worker-a'')
    = Inr ''worker-a''"
  by code_simp

theorem recovery_endpoint_always_refused_witness:
  "snd (snd (handleRelayRecovery (''planRecovery'' # index_imports) sample_http_env
     (sample_http ''POST'' ''/relay/worker-a/recover'') (map code ''worker-a'') sample_objects))
   = Respond 400 (error_body ''RECOVERY_REQUEST_INVALID'')"
proof -
  from recovery_endpoint_always_refused [OF sample_objects_ok sample_gate, of "''planRecovery'' # index_imports"]
  show ?thesis by auto
qed


text \<open>A socket is handed out only to the holder of the worker's token. When the upgrade
  endpoint answers 101, the request carries the bearer token of the worker its path names, and
  the object of this worker, and no other, gets one new socket, which is not registered; no
  wake is changed or sent.\<close>

theorem upgrade_needs_token:
  assumes "objects_ok objs" and "handleRelayUpgrade bound env rq decoded objs = (objs', es, Respond 101 b)"
  shows "\<exists>wid key so. valid_decoded decoded = Some wid \<and> en_token_key (he_session env) = Some key \<and>
    relayBearerMatches (en_verify (he_session env)) (hq_authorization rq) key wid \<and> es = [] \<and>
    (\<forall>other. other \<noteq> wid \<longrightarrow> object_at objs' other = object_at objs other) \<and>
    se_sockets (object_at objs' wid) = se_sockets (object_at objs wid) @ [so] \<and>
    \<not> at_registered (so_attachment so) \<and> at_workerId (so_attachment so) = wid \<and>
    se_active (object_at objs' wid) = se_active (object_at objs wid)"
proof -
  obtain wid where gate: "relay_gate env rq decoded = Inr wid"
    using assms(2) by (cases "relay_gate env rq decoded")
      (auto simp: handleRelayUpgrade_def relay_gate_def split: option.splits if_splits)
  let ?rq = "\<lparr>rq_worker_id = wid, rq_path = ''/connect'', rq_authorization = hq_authorization rq,
             rq_upgrade = hq_upgrade rq, rq_body = None\<rparr>"
  have re: "worker_id_re wid" using gate valid_decoded_re by (auto simp: relay_gate_Inr)
  have obj: "object_ok wid (object_at objs wid)" using assms(1) by (simp add: objects_ok_def)
  from own_fetch [OF obj _ re, of ?rq bound "he_session env"] obtain s1 where
    s1: "se_sockets s1 = se_sockets (object_at objs wid)" "se_active s1 = se_active (object_at objs wid)"
      "session_fetch bound (he_session env) ?rq (object_at objs wid) = connect (he_session env) ?rq wid s1"
    by auto
  have up: "to_lower (hq_upgrade rq) = ''websocket''"
    using assms(2) gate by (simp add: handleRelayUpgrade_def split: if_splits)
  from gate obtain key where key: "en_token_key (he_session env) = Some key" "key \<noteq> []"
      "relayBearerMatches (en_verify (he_session env)) (hq_authorization rq) key wid" "valid_decoded decoded = Some wid"
    by (auto simp: relay_gate_Inr)
  let ?so = "\<lparr>so_id = en_socket_id (he_session env), so_attachment = \<lparr>at_workerId = wid,
      at_connectionId = en_uuid (he_session env), at_registered = False, at_sessionId = None\<rparr>\<rparr>"
  have "objs' = objs(workerSessionObjectId wid \<mapsto> s1\<lparr>se_sockets := se_sockets s1 @ [?so]\<rparr>)" "es = []"
    using assms(2) gate up key by (simp_all add: handleRelayUpgrade_def stub_fetch_def s1(3) connect_def)
  then show ?thesis using key s1(1,2)
    by (intro exI [of _ wid] exI [of _ key] exI [of _ ?so]) (simp add: object_at_update)
qed

theorem upgrade_needs_token_witness:
  "\<exists>key. en_token_key (he_session sample_http_env) = Some key \<and>
     relayBearerMatches (en_verify (he_session sample_http_env)) (''Bearer '' @ replicate 43 CHR ''A'') key ''worker-a''"
proof -
  let ?h = "handleRelayUpgrade index_imports sample_http_env (sample_http ''GET'' ''/relay/worker-a'') (map code ''worker-a'') no_objects"
  obtain objs' es out where h: "?h = (objs', es, out)" by (cases ?h)
  moreover have "snd (snd ?h) = Respond 101 JNull" by code_simp
  ultimately have h': "?h = (objs', es, Respond 101 JNull)" by simp
  have "valid_decoded (map code ''worker-a'') = Some ''worker-a''" by code_simp
  with upgrade_needs_token [OF no_objects_ok h'] show ?thesis by (auto simp: sample_http_def)
qed

section \<open>Reconstruction\<close>

lemma recoverAssigned_Inr:
  assumes "recoverAssignedPullRequests mint_error issues pull_of wid = Inr as"
  obtains items pulls where "gr_json issues = Some (JArr items)" "gr_ok issues" "length items < 100"
    "map (fetch_detail pull_of) (candidateNumbers items) = map Inr pulls"
    "normalizeRecoveryAssignments (JArr items) (JArr pulls) wid = Inr as"
  using assms
  by (auto simp: recoverAssignedPullRequests_def map_result_Inr
      split: option.splits jsval.splits if_splits sum.splits)

text \<open>The reconstruction of assignments from GitHub fails rather than guesses. When it
  succeeds, the issue list was a complete page of fewer than 100 items, the details of every
  candidate were read successfully, and every open pull request with the worker's label is an
  assignment unless its details say it is closed.\<close>

theorem reconstruction_complete:
  assumes "recoverAssignedPullRequests mint_error issues pull_of wid = Inr as"
  shows "mint_error = None \<and> gr_ok issues \<and> (\<exists>items. gr_json issues = Some (JArr items) \<and> length items < 100 \<and>
    (\<forall>n \<in> set (candidateNumbers items). gr_ok (pull_of n)) \<and>
    (\<forall>i \<in> set items. issue_candidate (to_lower (ASSIGNMENT_LABEL_PREFIX @ wid)) i \<longrightarrow>
       (\<exists>a \<in> set as. as_number a = the_int (item_number i)) \<or>
       (\<exists>n \<in> set (candidateNumbers items). js_get (parseJson (gr_json (pull_of n))) ''state'' = JStr ''closed'' \<and>
          the_int (item_number (parseJson (gr_json (pull_of n)))) = the_int (item_number i))))"
proof -
  obtain items pulls where r: "gr_json issues = Some (JArr items)" "gr_ok issues" "length items < 100"
    "map (fetch_detail pull_of) (candidateNumbers items) = map Inr pulls"
    "normalizeRecoveryAssignments (JArr items) (JArr pulls) wid = Inr as"
    by (rule recoverAssigned_Inr [OF assms])
  have mint: "mint_error = None" using assms by (auto simp: recoverAssignedPullRequests_def split: option.splits)
  have detail: "gr_ok (pull_of n) \<and> fetch_detail pull_of n = Inr (parseJson (gr_json (pull_of n)))"
    if n: "n \<in> set (candidateNumbers items)" for n
  proof -
    have "fetch_detail pull_of n \<in> set (map Inr pulls)" using n r(4) by (metis list.set_map image_eqI)
    then show ?thesis by (auto simp: fetch_detail_def Let_def split: if_splits)
  qed
  have pulls: "pulls = map (\<lambda>n. parseJson (gr_json (pull_of n))) (candidateNumbers items)"
  proof -
    have "map (Inr :: jsval \<Rightarrow> string + jsval) pulls = map Inr (map (\<lambda>n. parseJson (gr_json (pull_of n))) (candidateNumbers items))"
      unfolding r(4) [symmetric] map_map by (rule map_cong) (use detail in auto)
    then show ?thesis by (simp add: inj_map_eq_map inj_def del: map_map)
  qed
  have closed: "\<exists>n \<in> set (candidateNumbers items). js_get (parseJson (gr_json (pull_of n))) ''state'' = JStr ''closed'' \<and>
          the_int (item_number (parseJson (gr_json (pull_of n)))) = k"
    if "pull_by_number pulls k = Some p" "js_get p ''state'' = JStr ''closed''" for k p
  proof -
    from that(1) have "p \<in> set pulls \<and> the_int (item_number p) = k"
      by (auto simp: pull_by_number_def dest!: map_of_SomeD)
    with that(2) show ?thesis by (auto simp: pulls)
  qed
  show ?thesis
    using mint r(1-3) detail recovery_assignments_found [OF r(5)] closed by blast
qed

definition sample_page :: gh_response where
  "sample_page = \<lparr>gr_status = 200, gr_json = Some (JArr [sample_issue 7, sample_issue 8])\<rparr>"

definition sample_detail :: "int \<Rightarrow> gh_response" where
  "sample_detail n = \<lparr>gr_status = 200, gr_json = Some (sample_pull n (if n = 7 then ''open'' else ''closed''))\<rparr>"

theorem reconstruction_complete_witness:
  "gr_ok sample_page \<and> recoverAssignedPullRequests None sample_page sample_detail ''worker-a'' = Inr [sample_assignment]"
proof -
  have h: "recoverAssignedPullRequests None sample_page sample_detail ''worker-a'' = Inr [sample_assignment]"
    by code_simp
  from reconstruction_complete [OF h] h show ?thesis by blast
qed

section \<open>Two repositories\<close>

text \<open>The session tells pull requests apart by their number only. A wake that waits for a
  connection is dropped, without ever being sent, when a wake for the pull request with the
  same number of the other control repository arrives.\<close>

theorem cross_repository_wake_dropped:
  assumes "se_active s = Some \<lparr>aw_wake = w, aw_phase = Queued\<rparr>" and "validateWake (js_of_wake w') (Some wid)"
    and "wk_repo w \<noteq> wk_repo w'" and "wk_pr_number w = wk_pr_number w'"
    and "wk_reason w' = ''github_pull_request_opened''" and "wk_delivery_id w' \<notin> set (recentDeliveries s)"
  shows "\<exists>s' b. dispatch env (Some (js_of_wake w')) wid s = (s', [], Respond 202 b) \<and>
    se_active s' = Some \<lparr>aw_wake = w', aw_phase = Queued\<rparr> \<and> se_queued s' = se_queued s"
  using assms
  by (simp add: dispatch_def dispatch_active_def parseJson_def accepted_response_def)

definition sample_demo_wake :: wake where
  "sample_demo_wake = (sample_wake ''github_pull_request_opened'' ''d-2'')\<lparr>wk_repo := ''jan2xo/bke-demo-app''\<rparr>"

theorem cross_repository_wake_dropped_witness:
  "se_active (fst (dispatch (sample_env 2 ''u2'') (Some (js_of_wake sample_demo_wake)) ''worker-a''
     (object_at sample_objects ''worker-a''))) = Some \<lparr>aw_wake = sample_demo_wake, aw_phase = Queued\<rparr>"
proof -
  let ?s = "object_at sample_objects ''worker-a''"
  have s: "se_active ?s = Some \<lparr>aw_wake = sample_wake ''github_pull_request_opened'' ''d-1'', aw_phase = Queued\<rparr>"
    "recentDeliveries ?s = [''d-1'']"
    by (simp_all add: object_at_def sample_objects_def workerSessionObjectId_def recentDeliveries_def)
  have v: "validateWake (js_of_wake sample_demo_wake) (Some ''worker-a'')" by code_simp
  have "wk_repo (sample_wake ''github_pull_request_opened'' ''d-1'') \<noteq> wk_repo sample_demo_wake"
    "wk_pr_number (sample_wake ''github_pull_request_opened'' ''d-1'') = wk_pr_number sample_demo_wake"
    "wk_reason sample_demo_wake = ''github_pull_request_opened''" "wk_delivery_id sample_demo_wake \<notin> set (recentDeliveries ?s)"
    by (simp_all add: sample_demo_wake_def sample_wake_def CONTROL_REPOSITORY_def s(2))
  from cross_repository_wake_dropped [OF s(1) v this, of "sample_env 2 ''u2''"] show ?thesis by auto
qed

end
