(* ===== verification/JsonFacts.thy ===== *)
theory JsonFacts imports RelayCredentials
begin

text \<open>
  Facts on \<open>JSON.stringify\<close>: a quoted string can be read back from the front of a text
  whatever its characters, a list of strings is determined by its JSON text, and the length of
  a text is bounded by the size of the value.
\<close>

section \<open>Quoted strings\<close>

text \<open>A quoted string can be read back from the front of a text, whatever its characters.\<close>

fun read_char :: "string \<Rightarrow> (char \<times> string) option" where
  "read_char [] = None"
| "read_char (c # u) =
     (if c = CHR 0x22 then None
      else if c \<noteq> CHR 0x5C then Some (c, u)
      else case u of [] \<Rightarrow> None
      | e # v \<Rightarrow>
          if e = CHR ''u'' then Some (char_of (16 * digit_val (v ! 2) + digit_val (v ! 3)), drop 4 v)
          else Some (if e = CHR ''b'' then char_of (8::nat) else if e = CHR ''t'' then char_of (9::nat)
            else if e = CHR ''n'' then char_of (10::nat) else if e = CHR ''f'' then char_of (12::nat)
            else if e = CHR ''r'' then char_of (13::nat) else e, v))"

lemma code_eq: "code c = n \<Longrightarrow> c = char_of n"
  by (auto simp: code_def)

lemma digit_val_hex: "n < 16 \<Longrightarrow> digit_val (hex_digit n) = n"
  by (auto simp: digit_val_def hex_digit_def is_digit_def is_lower_def is_upper_def code_def)

lemma read_char_json: "read_char (json_char c @ u) = Some (c, u)"
proof -
  have "char_of (16 * digit_val (hex_digit (code c div 16)) + digit_val (hex_digit (code c mod 16))) = c"
    if "code c < 32"
    using that by (simp add: digit_val_hex code_def)
  then show ?thesis by (auto simp: json_char_def dest: code_eq)
qed

lemma read_char_quote: "read_char (CHR 0x22 # u) = None"
  by simp

lemma quoted_split:
  "concat (map json_char s) @ CHR 0x22 # u = concat (map json_char t) @ CHR 0x22 # v \<Longrightarrow> s = t \<and> u = v"
proof (induction s arbitrary: t)
  case Nil
  then show ?case
  proof (cases t)
    case (Cons d t')
    have "read_char (CHR 0x22 # u) = read_char (json_char d @ concat (map json_char t') @ CHR 0x22 # v)"
      using Nil.prems Cons by simp
    then show ?thesis unfolding read_char_json read_char_quote by simp
  qed (use Nil in simp)
next
  case (Cons c s)
  show ?case
  proof (cases t)
    case Nil
    have "read_char (json_char c @ concat (map json_char s) @ CHR 0x22 # u) = read_char (CHR 0x22 # v)"
      using Cons.prems Nil by simp
    then show ?thesis unfolding read_char_json read_char_quote by simp
  next
    case t: (Cons d t')
    have "read_char (json_char c @ concat (map json_char s) @ CHR 0x22 # u) =
        read_char (json_char d @ concat (map json_char t') @ CHR 0x22 # v)"
      using Cons.prems t by simp
    then have "c = d \<and> concat (map json_char s) @ CHR 0x22 # u = concat (map json_char t') @ CHR 0x22 # v"
      unfolding read_char_json by simp
    with Cons.IH t show ?thesis by blast
  qed
qed

lemma json_quote_front: "json_quote s @ u = json_quote t @ v \<Longrightarrow> s = t \<and> u = v"
  using quoted_split [of s u t v] by (simp add: json_quote_def)

definition quoted_tail :: "string list \<Rightarrow> string" where
  "quoted_tail ss = concat (map (\<lambda>s. '','' @ json_quote s) ss) @ '']''"

lemma quoted_join: "join_comma (map json_quote (s # ss)) @ '']'' = json_quote s @ quoted_tail ss"
proof (induction ss arbitrary: s)
  case (Cons t ss)
  then show ?case by (simp add: quoted_tail_def)
qed (simp add: quoted_tail_def)

lemma quoted_tail_inj: "quoted_tail ss = quoted_tail ts \<Longrightarrow> ss = ts"
proof (induction ss arbitrary: ts)
  case Nil
  then show ?case by (cases ts) (simp_all add: quoted_tail_def)
next
  case (Cons s ss)
  then obtain t ts' where ts: "ts = t # ts'" by (cases ts) (simp_all add: quoted_tail_def)
  have "json_quote s @ quoted_tail ss = json_quote t @ quoted_tail ts'"
    using Cons.prems by (simp add: ts quoted_tail_def)
  from json_quote_front [OF this] Cons.IH show ?case by (simp add: ts)
qed

lemma quoted_join_inj:
  assumes "join_comma (map json_quote ss) = join_comma (map json_quote ts)"
  shows "ss = ts"
proof -
  have empty: "join_comma (map json_quote ss) = [] \<Longrightarrow> ss = []" for ss
    by (cases ss rule: join_comma.cases) (simp_all add: json_quote_def)
  show ?thesis
  proof (cases ss)
    case Nil
    with assms empty [of ts] show ?thesis by simp
  next
    case (Cons s ss')
    then obtain t ts' where ts: "ts = t # ts'" using assms empty [of ss] by (cases ts) auto
    have "json_quote s @ quoted_tail ss' = json_quote t @ quoted_tail ts'"
      using assms unfolding Cons ts quoted_join [symmetric] by simp
    from json_quote_front [OF this] quoted_tail_inj show ?thesis by (simp add: Cons ts)
  qed
qed

lemma int_string_not_quoted: "int_string n @ u \<noteq> CHR 0x22 # v"
proof -
  obtain c cs where "digits_of (nat \<bar>n\<bar>) = c # cs" "is_digit c"
    using digits_of_nonempty [of "nat \<bar>n\<bar>"] digits_of_digits [of "nat \<bar>n\<bar>"]
    by (cases "digits_of (nat \<bar>n\<bar>)") auto
  then show ?thesis by (auto simp: int_string_def is_digit_def code_def)
qed

section \<open>The size of a text\<close>

text \<open>An upper bound of the number of characters of a JSON text.\<close>

fun js_size :: "jsval \<Rightarrow> nat" where
  "js_size (JStr s) = 2 + 6 * length s"
| "js_size (JInt n) = length (int_string n)"
| "js_size (JFrac q) = length (js_string (JFrac q))"
| "js_size (JArr xs) = 2 + sum_list (map (\<lambda>x. Suc (js_size x)) xs)"
| "js_size (JObj kvs) = 2 + sum_list (map (\<lambda>kv. 4 + 6 * length (fst kv) + js_size (snd kv)) kvs)"
| "js_size _ = 5"

lemma length_join_comma: "length (join_comma ss) \<le> sum_list (map (\<lambda>s. Suc (length s)) ss)"
  by (induction ss rule: join_comma.induct) auto

lemma length_json_char: "length (json_char c) \<le> 6"
  by (simp add: json_char_def)

lemma length_json_quote: "length (json_quote s) \<le> 2 + 6 * length s"
proof -
  have "length (concat (map json_char s)) \<le> 6 * length s"
  proof (induction s)
    case (Cons c s)
    then show ?case using length_json_char [of c] by simp
  qed simp
  then show ?thesis by (simp add: json_quote_def)
qed

lemma length_members:
  assumes "\<And>kv t. kv \<in> set kvs \<Longrightarrow> f kv = Some t \<Longrightarrow> length t \<le> g kv"
  shows "sum_list (map (\<lambda>s. Suc (length s)) (concat (map (\<lambda>kv. case f kv of None \<Rightarrow> []
      | Some t \<Rightarrow> [json_quote (fst kv) @ '':'' @ t]) kvs))) \<le> sum_list (map (\<lambda>kv. 4 + 6 * length (fst kv) + g kv) kvs)"
  using assms
proof (induction kvs)
  case (Cons kv kvs)
  then show ?case using length_json_quote [of "fst kv"] by (fastforce split: option.split)
qed simp

lemma undefined_text: "json_stringify v = None \<Longrightarrow> v = JUndef \<or> v = JHole"
  by (cases v) simp_all

lemma scalar_text_le:
  "(\<And>t. json_stringify v = Some t \<Longrightarrow> length t \<le> js_size v) \<Longrightarrow> length (scalar_text v) \<le> js_size v"
  by (cases "json_stringify v") (auto simp: scalar_text_def dest: undefined_text)

lemma length_json: "json_stringify v = Some t \<Longrightarrow> length t \<le> js_size v"
proof (induction v arbitrary: t rule: json_stringify.induct)
  case (9 s)
  then show ?case using length_json_quote [of s] by auto
next
  case (10 xs)
  have "sum_list (map (\<lambda>x. Suc (length (scalar_text x))) xs) \<le> sum_list (map (\<lambda>x. Suc (js_size x)) xs)"
  proof (rule sum_list_mono)
    fix x assume "x \<in> set xs"
    then have "length (scalar_text x) \<le> js_size x" by (intro scalar_text_le 10(1)) auto
    then show "Suc (length (scalar_text x)) \<le> Suc (js_size x)" by simp
  qed
  moreover have "t = ''['' @ join_comma (map scalar_text xs) @ '']''"
    using 10(2) by (simp add: scalar_text_def [abs_def])
  ultimately show ?case using length_join_comma [of "map scalar_text xs"] by (simp add: comp_def)
next
  case (11 kvs)
  then have "sum_list (map (\<lambda>s. Suc (length s)) (concat (map (\<lambda>kv. case json_stringify (snd kv) of None \<Rightarrow> []
      | Some t \<Rightarrow> [json_quote (fst kv) @ '':'' @ t]) kvs))) \<le> sum_list (map (\<lambda>kv. 4 + 6 * length (fst kv) + js_size (snd kv)) kvs)"
    by (intro length_members) auto
  from order_trans [OF length_join_comma this] 11(2) show ?case by auto
qed auto

lemma byte_length_le: "byte_length s \<le> 2 * length s"
  by (induction s) (auto simp: byte_length_def utf8_def utf8_char_def)

lemma length_json_array: "length (json_array xs) \<le> js_size (JArr xs)"
proof -
  obtain t where "json_stringify (JArr xs) = Some t" by simp
  then show ?thesis using length_json unfolding json_array_def by (metis option.case(2))
qed

end
