(* ===== verification/RetirementFence.thy ===== *)
theory RetirementFence imports RelayHttp JsonFacts
begin

text \<open>
  The dormant retirement modules of the relay: the fence policy
  (\<open>relay-retirement-fence-policy.js\<close>), the storage witness
  (\<open>relay-retirement-witness.js\<close>), the staging transaction
  (\<open>relay-retirement-transaction-kernel.js\<close>) and the observation of a fence
  (\<open>relay-retirement-route-fence.js\<close>).
\<close>

section \<open>Reading a storage\<close>

text \<open>
  A store maps keys to values, \<^const>\<open>JUndef\<close> for an absent key. Code that reads key after
  key with an \<open>await\<close> in between may see a different store at every read, and a read may
  throw, so a reader answers the n-th read of a key with a value or \<^const>\<open>None\<close>.
\<close>

type_synonym store = "string \<Rightarrow> jsval"
type_synonym reader = "nat \<Rightarrow> string \<Rightarrow> jsval option"

definition steady :: "store \<Rightarrow> reader" where
  "steady st n k = Some (st k)"

fun read_keys :: "reader \<Rightarrow> nat \<Rightarrow> string list \<Rightarrow> jsval list option" where
  "read_keys rd n [] = Some []"
| "read_keys rd n (k # ks) =
     (case rd n k of None \<Rightarrow> None
      | Some v \<Rightarrow> (case read_keys rd (Suc n) ks of None \<Rightarrow> None | Some vs \<Rightarrow> Some (v # vs)))"

lemma read_keys_steady [simp]: "read_keys (steady st) n ks = Some (map st ks)"
  by (induction ks arbitrary: n) (simp_all add: steady_def)

declare read_keys.simps(2) [simp del]

section \<open>The fence policy\<close>

definition RETIREMENT_FENCE_KEY :: string where "RETIREMENT_FENCE_KEY = ''retirement_fence_v1''"

definition FENCED_OPERATIONS :: "string list" where
  "FENCED_OPERATIONS = [''connect'', ''register'', ''dispatch'', ''recover'', ''send'', ''ack'',
     ''promote'', ''socket-close'', ''socket-error'']"

definition decision_id_re :: "string \<Rightarrow> bool" where
  "decision_id_re = class_rep delivery_char 1 128"

definition RECORD_KEYS :: "string list" where
  "RECORD_KEYS = [''schema_version'', ''status'', ''worker_id'', ''repo'', ''pr_number'',
     ''expected_head_sha'', ''retirement_id'', ''epoch'', ''created_at_ms'']"

definition TARGET_KEYS :: "string list" where
  "TARGET_KEYS = [''worker_id'', ''repo'', ''pr_number'', ''expected_head_sha'']"

definition PROPOSAL_KEYS :: "string list" where
  "PROPOSAL_KEYS = [''target'', ''persisted_fence'', ''retirement_id'', ''created_at_ms'']"

text \<open>The claims of a negative block that are false, and the block itself.\<close>

definition false_claims :: "string list \<Rightarrow> (string \<times> jsval) list" where
  "false_claims ks = (''authority'', JStr ''NONE'') # map (\<lambda>k. (k, JBool False)) ks"

definition POLICY_CLAIMS :: "string list" where
  "POLICY_CLAIMS = [''can_commit'', ''can_dispatch'', ''can_reconnect'', ''can_release_assignment'',
     ''can_reuse_worker_id'', ''delivery_ack_proven'', ''delivery_fenced'', ''atomic_commit_proven'',
     ''credential_revocation_proven'']"

definition POLICY_NEGATIVE :: "(string \<times> jsval) list" where
  "POLICY_NEGATIVE = false_claims POLICY_CLAIMS"

definition same_target :: "jsval \<Rightarrow> jsval \<Rightarrow> bool" where
  "same_target a b \<longleftrightarrow> list_all (\<lambda>k. js_eq (js_get a k) (js_get b k)) TARGET_KEYS"

definition decision_id :: "jsval \<Rightarrow> bool" where
  "decision_id v \<longleftrightarrow> is_JStr v \<and> decision_id_re (str_or_empty v)"

definition positive_safe :: "jsval \<Rightarrow> bool" where
  "positive_safe v \<longleftrightarrow> is_safe_integer v \<and> 0 < the_int v"

definition validateRetirementTarget :: "jsval \<Rightarrow> bool" where
  "validateRetirementTarget target \<longleftrightarrow> exact_own target TARGET_KEYS \<and>
     isValidWorkerId (js_get target ''worker_id'') \<and> control_repository (js_get target ''repo'') \<and>
     positive_safe (js_get target ''pr_number'') \<and> is_sha (js_get target ''expected_head_sha'')"

definition target_of :: "jsval \<Rightarrow> jsval" where
  "target_of v = JObj (map (\<lambda>k. (k, js_get v k)) TARGET_KEYS)"

definition validateRetiredFenceRecord :: "jsval \<Rightarrow> bool" where
  "validateRetiredFenceRecord v \<longleftrightarrow> exact_own v RECORD_KEYS \<and>
     js_eq (js_get v ''schema_version'') (JInt 1) \<and> js_eq (js_get v ''status'') (JStr ''retired'') \<and>
     validateRetirementTarget (target_of v) \<and> decision_id (js_get v ''retirement_id'') \<and>
     positive_safe (js_get v ''epoch'') \<and> positive_safe (js_get v ''created_at_ms'')"

definition fenced_operation :: "jsval \<Rightarrow> bool" where
  "fenced_operation op \<longleftrightarrow> is_JStr op \<and> str_or_empty op \<in> set FENCED_OPERATIONS"

definition retired_blocked :: "(string \<times> jsval) list \<Rightarrow> jsval \<Rightarrow> jsval" where
  "retired_blocked neg op = gate_pass neg [(''state'', JStr ''RETIRED_BLOCKED''),
     (''code'', JStr ''WORKER_RETIRED''), (''operation'', op)]"

definition inspectRetirementOperation :: "jsval \<Rightarrow> jsval \<Rightarrow> jsval \<Rightarrow> jsval" where
  "inspectRetirementOperation persistedFence target op =
     (let deny = gate_deny POLICY_NEGATIVE in
      if \<not> validateRetirementTarget target then deny ''TARGET_INVALID''
      else if \<not> fenced_operation op then deny ''OPERATION_UNKNOWN''
      else if persistedFence = JUndef then deny ''FENCE_ABSENT_UNVERIFIED''
      else if \<not> validateRetiredFenceRecord persistedFence then deny ''FENCE_MALFORMED''
      else if \<not> same_target persistedFence target then deny ''FENCE_TARGET_MISMATCH''
      else retired_blocked POLICY_NEGATIVE op)"

text \<open>The entries of an object, as a spread copies them.\<close>

fun js_entries :: "jsval \<Rightarrow> (string \<times> jsval) list" where
  "js_entries (JObj kvs) = kvs"
| "js_entries _ = []"

definition fence_candidate :: "jsval \<Rightarrow> jsval \<Rightarrow> jsval \<Rightarrow> jsval" where
  "fence_candidate target decision created = js_object ([(''schema_version'', JInt 1),
     (''status'', JStr ''retired'')] @ js_entries target @ [(''retirement_id'', decision),
     (''epoch'', JInt 1), (''created_at_ms'', created)])"

definition proposeRetirementTombstone :: "jsval \<Rightarrow> jsval" where
  "proposeRetirementTombstone request =
     (let deny = gate_deny POLICY_NEGATIVE; target = js_get request ''target'';
          fence = js_get request ''persisted_fence'' in
      if \<not> exact_own request PROPOSAL_KEYS \<or> \<not> validateRetirementTarget target \<or>
         \<not> decision_id (js_get request ''retirement_id'') \<or>
         \<not> positive_safe (js_get request ''created_at_ms'') then deny ''PROPOSAL_INVALID''
      else if fence \<noteq> JUndef then
        (if \<not> validateRetiredFenceRecord fence then deny ''EXISTING_FENCE_MALFORMED''
         else if \<not> same_target fence target then deny ''EXISTING_FENCE_TARGET_MISMATCH''
         else deny ''ALREADY_FENCED_REQUIRES_AUTHORITATIVE_READBACK'')
      else gate_pass POLICY_NEGATIVE [(''state'', JStr ''PROPOSAL_ONLY''),
        (''code'', JStr ''OWNER_AUTH_AND_ATOMIC_DO_CAS_REQUIRED''),
        (''candidate'', fence_candidate target (js_get request ''retirement_id'')
           (js_get request ''created_at_ms''))])"

section \<open>The storage witness\<close>

definition PHASES :: "string list" where
  "PHASES = [''queued'', ''sent'', ''deferred'', ''accepted'', ''recovery_required'']"

definition MAX_RECENT :: nat where "MAX_RECENT = 64"

definition WITNESS_NEGATIVE :: "(string \<times> jsval) list" where
  "WITNESS_NEGATIVE = [(''authority'', JStr ''NONE''), (''can_retire'', JBool False)]"

definition describeWake :: "jsval \<Rightarrow> string \<Rightarrow> jsval option" where
  "describeWake v wid = (if \<not> validateWake v (Some wid) then None
     else Some (JObj (map (\<lambda>k. (k, js_get v k)) [''delivery_id'', ''repo'', ''pr_number'', ''expected_head_sha''])))"

definition WITNESS_KEYS :: "string list" where
  "WITNESS_KEYS = [''worker_id'', ''active_wake'', ''queued_wake'', ''active_connection_id'', ''recent_deliveries'']"

definition context_matches :: "jsval \<Rightarrow> jsval \<Rightarrow> bool" where
  "context_matches expected summary \<longleftrightarrow>
     list_all (\<lambda>k. js_eq (js_get summary k) (js_get expected k)) [''repo'', ''pr_number'', ''expected_head_sha'']"

definition recent_malformed :: "jsval \<Rightarrow> bool" where
  "recent_malformed recent \<longleftrightarrow> recent \<noteq> JUndef \<and>
     (\<not> is_JArr recent \<or> MAX_RECENT < length (the_arr recent) \<or>
      list_ex (\<lambda>i. \<not> isValidDeliveryId i) (the_arr recent))"

text \<open>\<^const>\<open>JNull\<close> stands for a summary that is absent.\<close>

definition active_summary :: "jsval \<Rightarrow> string \<Rightarrow> string + jsval" where
  "active_summary active wid =
     (if active = JUndef then Inr JNull
      else if \<not> exact_own active [''wake'', ''phase''] \<or>
         \<not> (is_JStr (js_get active ''phase'') \<and> str_or_empty (js_get active ''phase'') \<in> set PHASES) then
        Inl ''ACTIVE_PHASE_MALFORMED''
      else case describeWake (js_get active ''wake'') wid of None \<Rightarrow> Inl ''ACTIVE_WAKE_MALFORMED''
      | Some d \<Rightarrow> Inr (JObj (js_entries d @ [(''phase'', js_get active ''phase'')])))"

definition queued_summary :: "jsval \<Rightarrow> string \<Rightarrow> string + jsval" where
  "queued_summary queued wid =
     (if queued = JUndef then Inr JNull
      else case describeWake queued wid of None \<Rightarrow> Inl ''QUEUED_WAKE_MALFORMED'' | Some d \<Rightarrow> Inr d)"

definition witness_fields :: "jsval \<Rightarrow> jsval \<Rightarrow> jsval \<Rightarrow> jsval \<Rightarrow> jsval \<Rightarrow> jsval" where
  "witness_fields expected active queued registered recent = JObj [
     (''state'', JStr ''OBSERVED_ONLY''), (''authority'', JStr ''NONE''), (''can_retire'', JBool False),
     (''worker_id'', js_get expected ''worker_id''), (''repo'', js_get expected ''repo''),
     (''pr_number'', js_get expected ''pr_number''),
     (''expected_head_sha'', js_get expected ''expected_head_sha''),
     (''active'', active), (''queued'', queued),
     (''active_connection_id_present'', JBool (registered \<noteq> JUndef)),
     (''recent_delivery_count'', JInt (int (length (the_arr recent)))),
     (''snapshot_atomic'', JBool False), (''delivery_ack_proven'', JBool False),
     (''delivery_fenced'', JBool False), (''owner_gate_required'', JBool True)]"

definition witness_of :: "jsval \<Rightarrow> jsval list \<Rightarrow> jsval" where
  "witness_of expected vs =
     (let blocked = gate_deny WITNESS_NEGATIVE; identity = vs ! 0; active = vs ! 1; queued = vs ! 2;
          registered = vs ! 3; recent = vs ! 4; wid = str_or_empty (js_get expected ''worker_id'') in
      if \<not> js_eq identity (js_get expected ''worker_id'') then blocked ''IDENTITY_MISMATCH_OR_MISSING''
      else if registered \<noteq> JUndef \<and> (\<not> is_JStr registered \<or> registered = JStr []) then
        blocked ''CONNECTION_METADATA_MALFORMED''
      else if recent_malformed recent then blocked ''RECENT_DELIVERIES_MALFORMED''
      else case active_summary active wid of Inl e \<Rightarrow> blocked e
      | Inr a \<Rightarrow>
      (case queued_summary queued wid of Inl e \<Rightarrow> blocked e
       | Inr q \<Rightarrow>
           if (a \<noteq> JNull \<and> \<not> context_matches expected a) \<or> (q \<noteq> JNull \<and> \<not> context_matches expected q) then
             blocked ''WAKE_CONTEXT_MISMATCH''
           else witness_fields expected a q registered recent))"

text \<open>The expected context is checked as a retirement target is; \<open>pr_number\<close> at least 1 is
  the same as positive.\<close>

definition readRelayRetirementWitness :: "reader option \<Rightarrow> nat \<Rightarrow> jsval \<Rightarrow> jsval" where
  "readRelayRetirementWitness storage n expected =
     (let blocked = gate_deny WITNESS_NEGATIVE in
      if \<not> validateRetirementTarget expected then blocked ''EXPECTED_CONTEXT_INVALID''
      else case storage of None \<Rightarrow> blocked ''STORAGE_NOT_TRUSTED''
      | Some rd \<Rightarrow> (case read_keys rd n WITNESS_KEYS of None \<Rightarrow> blocked ''STORAGE_READ_FAILED''
                    | Some vs \<Rightarrow> witness_of expected vs))"

section \<open>Staging a fence\<close>

definition RETIREMENT_EPOCH_KEY :: string where "RETIREMENT_EPOCH_KEY = ''retirement_epoch_v1''"

definition REQUEST_KEYS :: "string list" where
  "REQUEST_KEYS = [''target'', ''retirement_id'', ''created_at_ms'', ''expected_delivery_ids'']"

definition KERNEL_CLAIMS :: "string list" where
  "KERNEL_CLAIMS = [''human_owner_authenticated'', ''human_consent_verified'',
     ''current_github_assignment_verified'', ''same_do_provenance_verified'', ''nonce_consumed'',
     ''replay_protection_proven'', ''can_commit'', ''can_retire'', ''can_dispatch'', ''can_reconnect'',
     ''can_release_assignment'', ''can_reuse_worker_id'', ''delivery_fenced'', ''delivery_ack_proven'',
     ''socket_membership_verified'', ''all_paths_fenced'', ''atomic_commit_proven'',
     ''credential_revocation_proven'']"

definition KERNEL_NEGATIVE :: "(string \<times> jsval) list" where
  "KERNEL_NEGATIVE = false_claims KERNEL_CLAIMS"

definition sameRecord :: "jsval \<Rightarrow> jsval \<Rightarrow> bool" where
  "sameRecord a b \<longleftrightarrow> list_all (\<lambda>k. js_eq (js_get a k) (js_get b k)) RECORD_KEYS"

text \<open>A request after it was copied, the delivery IDs as strings.\<close>

record stage_request =
  sr_target :: jsval
  sr_retirement_id :: jsval
  sr_created_at_ms :: jsval
  sr_expected_delivery_ids :: "string list"

definition ids_canonical :: "jsval list \<Rightarrow> bool" where
  "ids_canonical ids \<longleftrightarrow> 1 \<le> length ids \<and> length ids \<le> 2 \<and> list_all isValidDeliveryId ids \<and>
     (let s = map str_or_empty ids in sort s = s \<and> distinct s)"

definition snapshotRequest :: "jsval \<Rightarrow> stage_request option" where
  "snapshotRequest request =
     (let ids = js_get request ''expected_delivery_ids''; target = js_get request ''target'' in
      if exact_own request REQUEST_KEYS \<and> exact_own target TARGET_KEYS \<and> is_JArr ids \<and>
         validateRetirementTarget (target_of target) \<and> decision_id (js_get request ''retirement_id'') \<and>
         positive_safe (js_get request ''created_at_ms'') \<and> ids_canonical (the_arr ids)
      then Some \<lparr>sr_target = target_of target, sr_retirement_id = js_get request ''retirement_id'',
        sr_created_at_ms = js_get request ''created_at_ms'',
        sr_expected_delivery_ids = map str_or_empty (the_arr ids)\<rparr>
      else None)"

definition makeFence :: "stage_request \<Rightarrow> jsval" where
  "makeFence req = fence_candidate (sr_target req) (sr_retirement_id req) (sr_created_at_ms req)"

datatype tx_outcome = TxBlocked jsval | TxExisting jsval | TxStaged jsval | TxOther

text \<open>The check of a stored fence and high-water mark: a refusal, or whether they exist.\<close>

definition existing_fence :: "jsval \<Rightarrow> jsval \<Rightarrow> stage_request \<Rightarrow> string + bool" where
  "existing_fence storedFence highWater req =
     (if storedFence = JUndef \<and> highWater = JUndef then Inr False
      else if \<not> validateRetiredFenceRecord storedFence \<or> \<not> positive_safe highWater \<or>
         \<not> js_eq (js_get storedFence ''epoch'') highWater then Inl ''FENCE_EPOCH_INCONSISTENT''
      else if \<not> same_target storedFence (sr_target req) then Inl ''EXISTING_FENCE_TARGET_CONFLICT''
      else if \<not> js_eq (js_get storedFence ''retirement_id'') (sr_retirement_id req) \<or>
         \<not> js_eq (js_get storedFence ''created_at_ms'') (sr_created_at_ms req) then
        Inl ''EXISTING_FENCE_DECISION_CONFLICT''
      else Inr True)"

text \<open>The distinct delivery IDs of the active and the queued wake, sorted.\<close>

definition delivery_set :: "jsval \<Rightarrow> string list" where
  "delivery_set witness = sort (remdups (map str_or_empty (filter (\<lambda>v. v \<noteq> JUndef)
     [js_get (js_get witness ''active'') ''delivery_id'', js_get (js_get witness ''queued'') ''delivery_id''])))"

text \<open>The outcome of the callback and the writes it makes; \<^const>\<open>None\<close> when a read throws.\<close>

definition inTransaction :: "reader \<Rightarrow> stage_request \<Rightarrow> (tx_outcome \<times> (string \<times> jsval) list) option" where
  "inTransaction rd req =
     (let refuse = (\<lambda>c. Some (TxBlocked (gate_deny KERNEL_NEGATIVE c), [])) in
      case read_keys rd 0 [RETIREMENT_FENCE_KEY, RETIREMENT_EPOCH_KEY] of None \<Rightarrow> None
      | Some vs \<Rightarrow>
      (case existing_fence (vs ! 0) (vs ! 1) req of Inl e \<Rightarrow> refuse e
       | Inr existing \<Rightarrow>
      let witness = readRelayRetirementWitness (Some rd) 2 (sr_target req) in
      if js_get witness ''state'' \<noteq> JStr ''OBSERVED_ONLY'' then refuse ''PERSISTED_WAKE_OR_IDENTITY_UNTRUSTED''
      else if \<not> truthy (js_get witness ''active'') \<and> \<not> truthy (js_get witness ''queued'') then
        refuse ''NO_PERSISTED_WAKE_TO_RECONCILE''
      else if truthy (js_get witness ''active_connection_id_present'') then
        refuse ''CONNECTION_ID_PRESENT_SOCKET_UNVERIFIED''
      else if delivery_set witness \<noteq> sr_expected_delivery_ids req then refuse ''DELIVERY_SET_MISMATCH''
      else if existing then Some (TxExisting (vs ! 0), [])
      else let record = makeFence req in
      if \<not> validateRetiredFenceRecord record then refuse ''CANDIDATE_RECORD_INVALID''
      else Some (TxStaged record,
        [(RETIREMENT_FENCE_KEY, record), (RETIREMENT_EPOCH_KEY, js_get record ''epoch'')])))"

text \<open>
  A storage for the kernel: how it reads inside the transaction, what \<open>transaction\<close> answers
  when the callback returns or throws (\<^const>\<open>None\<close> is a rejection), and how it reads after.
\<close>

record tx_storage =
  ts_reader :: reader
  ts_answer :: "tx_outcome option \<Rightarrow> tx_outcome option"
  ts_readback :: reader

definition readback :: "tx_outcome \<Rightarrow> jsval \<Rightarrow> reader \<Rightarrow> jsval" where
  "readback outcome record rd =
     (let blocked = gate_deny KERNEL_NEGATIVE in
      if \<not> validateRetiredFenceRecord record then blocked ''TRANSACTION_RESULT_INVALID''
      else case read_keys rd 0 [RETIREMENT_FENCE_KEY, RETIREMENT_EPOCH_KEY] of
        None \<Rightarrow> blocked ''POST_TRANSACTION_READBACK_UNCERTAIN''
      | Some vs \<Rightarrow>
          if \<not> validateRetiredFenceRecord (vs ! 0) \<or> \<not> positive_safe (vs ! 1) \<or>
             \<not> js_eq (vs ! 1) (js_get (vs ! 0) ''epoch'') \<or> \<not> sameRecord (vs ! 0) record then
            blocked ''POST_TRANSACTION_READBACK_MISMATCH''
          else gate_pass KERNEL_NEGATIVE [
            (''state'', JStr (if outcome = TxStaged record then ''STAGED_SHAPE_READBACK_ONLY''
                              else ''EXISTING_SHAPE_READBACK_ONLY'')),
            (''code'', JStr ''OWNER_DO_PROVENANCE_AND_ALL_PATH_FENCE_REQUIRED''),
            (''observed_epoch'', vs ! 1)])"

definition stageRetirementFenceCandidate :: "tx_storage option \<Rightarrow> jsval \<Rightarrow> jsval" where
  "stageRetirementFenceCandidate storage request =
     (let blocked = gate_deny KERNEL_NEGATIVE in
      case snapshotRequest request of None \<Rightarrow> blocked ''REQUEST_INVALID''
      | Some req \<Rightarrow>
      (case storage of None \<Rightarrow> blocked ''TRANSACTION_UNAVAILABLE''
       | Some ts \<Rightarrow>
      (case ts_answer ts (map_option fst (inTransaction (ts_reader ts) req)) of
         None \<Rightarrow> blocked ''TRANSACTION_OUTCOME_UNCERTAIN''
       | Some (TxBlocked r) \<Rightarrow> r
       | Some TxOther \<Rightarrow> blocked ''TRANSACTION_RESULT_INVALID''
       | Some (TxStaged record) \<Rightarrow> readback (TxStaged record) record (ts_readback ts)
       | Some (TxExisting record) \<Rightarrow> readback (TxExisting record) record (ts_readback ts))))"

text \<open>The kernel on the storage of one object: a serialised transaction that commits its writes.\<close>

definition apply_writes :: "(string \<times> jsval) list \<Rightarrow> store \<Rightarrow> store" where
  "apply_writes ws st = foldl (\<lambda>s kv. s(fst kv := snd kv)) st ws"

definition stage_on_store :: "store \<Rightarrow> jsval \<Rightarrow> store \<times> jsval" where
  "stage_on_store st request =
     (let st' = (case Option.bind (snapshotRequest request) (inTransaction (steady st)) of
                   None \<Rightarrow> st | Some (_, ws) \<Rightarrow> apply_writes ws st)
      in (st', stageRetirementFenceCandidate (Some \<lparr>ts_reader = steady st, ts_answer = id, ts_readback = steady st'\<rparr>)
            request))"

section \<open>Observing a fence\<close>

definition ROUTE_CLAIMS :: "string list" where
  "ROUTE_CLAIMS = [''human_owner_authenticated'', ''human_consent_verified'',
     ''current_github_assignment_verified'', ''same_do_provenance_verified'', ''nonce_consumed'',
     ''replay_protection_proven'', ''dispatch_permitted'', ''connect_permitted'', ''read_permitted'',
     ''can_retire'', ''can_release_assignment'', ''can_reuse_worker_id'', ''delivery_fenced'',
     ''all_paths_fenced'', ''atomic_commit_proven'', ''credential_revocation_proven'']"

definition ROUTE_NEGATIVE :: "(string \<times> jsval) list" where
  "ROUTE_NEGATIVE = false_claims ROUTE_CLAIMS"

definition capture_route :: "jsval \<Rightarrow> (jsval \<times> jsval) option" where
  "capture_route input =
     (let target = js_get input ''target''; op = js_get input ''operation'' in
      if exact_own input [''target'', ''operation''] \<and> exact_own target TARGET_KEYS \<and>
         validateRetirementTarget (target_of target) \<and> fenced_operation op
      then Some (target_of target, op) else None)"

definition inspectInsideTransaction :: "reader \<Rightarrow> jsval \<Rightarrow> jsval \<Rightarrow> jsval option" where
  "inspectInsideTransaction rd target op =
     (case read_keys rd 0 [''worker_id'', RETIREMENT_FENCE_KEY, RETIREMENT_EPOCH_KEY] of None \<Rightarrow> None
      | Some vs \<Rightarrow>
          let blocked = (\<lambda>c. Some (gate_deny ROUTE_NEGATIVE c)); fence = vs ! 1; epoch = vs ! 2 in
          if \<not> js_eq (vs ! 0) (js_get target ''worker_id'') then blocked ''PERSISTED_WORKER_ID_MISMATCH''
          else if fence = JUndef \<and> epoch = JUndef then blocked ''FENCE_ABSENT_UNVERIFIED''
          else if \<not> validateRetiredFenceRecord fence \<or> \<not> positive_safe epoch \<or>
             \<not> js_eq (js_get fence ''epoch'') epoch then blocked ''FENCE_EPOCH_INCONSISTENT''
          else if \<not> same_target fence target then blocked ''FENCE_TARGET_MISMATCH''
          else Some (retired_blocked ROUTE_NEGATIVE op))"

text \<open>
  The answer of an injected \<open>transaction\<close>: a rejection, or how often the callback completed and
  whether the result is the object of its last completion.
\<close>

datatype tx_answer = TxRejects | TxResolves nat bool

definition upper_code :: "jsval \<Rightarrow> bool" where
  "upper_code v \<longleftrightarrow> is_JStr v \<and> class_rep (\<lambda>c. is_upper c \<or> c = CHR ''_'') 1 64 (str_or_empty v)"

definition rebuild_route :: "jsval \<Rightarrow> jsval \<Rightarrow> jsval" where
  "rebuild_route op result =
     (let blocked = gate_deny ROUTE_NEGATIVE; state = js_get result ''state'' in
      if state \<noteq> JStr ''BLOCKED'' \<and> state \<noteq> JStr ''RETIRED_BLOCKED'' then blocked ''TRANSACTION_RESULT_INVALID''
      else if state = JStr ''RETIRED_BLOCKED'' \<and> \<not> js_eq (js_get result ''operation'') op then
        blocked ''TRANSACTION_RESULT_INVALID''
      else if state = JStr ''RETIRED_BLOCKED'' then retired_blocked ROUTE_NEGATIVE op
      else blocked (if upper_code (js_get result ''code'') then str_or_empty (js_get result ''code'')
                    else ''TRANSACTION_RESULT_INVALID''))"

definition inspectDormantRetirementRouteFence ::
  "(reader \<times> (jsval option \<Rightarrow> tx_answer)) option \<Rightarrow> jsval \<Rightarrow> jsval" where
  "inspectDormantRetirementRouteFence storage input =
     (let blocked = gate_deny ROUTE_NEGATIVE in
      case capture_route input of None \<Rightarrow> blocked ''REQUEST_INVALID''
      | Some (target, op) \<Rightarrow>
      (case storage of None \<Rightarrow> blocked ''TRANSACTION_UNAVAILABLE''
       | Some (rd, answer) \<Rightarrow>
           let observed = inspectInsideTransaction rd target op in
           (case answer observed of TxRejects \<Rightarrow> blocked ''TRANSACTION_READ_UNCERTAIN''
            | TxResolves calls same \<Rightarrow>
                (case observed of None \<Rightarrow> blocked ''TRANSACTION_RESULT_INVALID''
                 | Some result \<Rightarrow>
                     if calls \<noteq> 1 \<or> \<not> same then blocked ''TRANSACTION_RESULT_INVALID''
                     else rebuild_route op result))))"

definition honest :: "jsval option \<Rightarrow> tx_answer" where
  "honest observed = (case observed of None \<Rightarrow> TxRejects | Some _ \<Rightarrow> TxResolves 1 True)"

section \<open>The negative blocks\<close>

lemma map_of_false: "map_of (rev (map (\<lambda>k. (k, JBool False)) ks)) k = (if k \<in> set ks then Some (JBool False) else None)"
  by (induction ks) (auto simp: map_add_def)

lemma map_of_false_claims: "map_of (rev (false_claims ks)) k =
    (if k \<in> set ks then Some (JBool False) else if k = ''authority'' then Some (JStr ''NONE'') else None)"
  by (simp add: false_claims_def map_of_false map_add_def)

lemma false_claims_block:
  assumes "''authority'' \<notin> set ks" "''state'' \<notin> set ks" "''code'' \<notin> set ks"
  shows "negative_block (false_claims ks) ks"
  by unfold_locales (use assms in \<open>auto simp: map_of_false_claims list_all_iff\<close>)

interpretation policy: negative_block POLICY_NEGATIVE POLICY_CLAIMS
  unfolding POLICY_NEGATIVE_def by (rule false_claims_block) (simp_all add: POLICY_CLAIMS_def)

interpretation kernel: negative_block KERNEL_NEGATIVE KERNEL_CLAIMS
  unfolding KERNEL_NEGATIVE_def by (rule false_claims_block) (simp_all add: KERNEL_CLAIMS_def)

interpretation route: negative_block ROUTE_NEGATIVE ROUTE_CLAIMS
  unfolding ROUTE_NEGATIVE_def by (rule false_claims_block) (simp_all add: ROUTE_CLAIMS_def)

interpretation witness: negative_block WITNESS_NEGATIVE "[''can_retire'']"
  by unfold_locales (simp_all add: WITNESS_NEGATIVE_def)

lemmas retirement_gates =
  policy.deny_state policy.deny_code kernel.deny_state kernel.deny_code
  route.deny_state route.deny_code witness.deny_state witness.deny_code

lemma pass_state [simp]: "js_get (js_object ((''state'', v) # xs)) ''state'' =
    (case map_of (rev xs) ''state'' of Some u \<Rightarrow> u | None \<Rightarrow> v)"
  by (simp add: js_get_js_object map_add_def split: option.splits)

section \<open>Objects built from entries\<close>

lemma keys_js_object: "distinct (js_keys (js_object kvs)) \<and> set (js_keys (js_object kvs)) = fst ` set kvs"
proof -
  have "distinct (map fst (foldl (\<lambda>m kv. AList.update (fst kv) (snd kv) m) m kvs)) \<and>
      fst ` set (foldl (\<lambda>m kv. AList.update (fst kv) (snd kv) m) m kvs) = fst ` set m \<union> fst ` set kvs"
    if "distinct (map fst m)" for m
    using that
  proof (induction kvs arbitrary: m)
    case (Cons kv kvs)
    have "distinct (map fst (AList.update (fst kv) (snd kv) m))" using Cons.prems by (simp add: distinct_update)
    from Cons.IH [OF this] show ?case by (auto simp: dom_update)
  qed simp
  from this [of "[]"] show ?thesis by (simp add: js_object_def)
qed

lemma exact_own_js_object:
  assumes "distinct wanted" and "fst ` set kvs = set wanted"
  shows "exact_own (js_object kvs) wanted"
proof -
  have "length (js_keys (js_object kvs)) = card (set (js_keys (js_object kvs)))"
    using distinct_card [of "js_keys (js_object kvs)"] keys_js_object [of kvs] by simp
  also have "\<dots> = length wanted" using keys_js_object [of kvs] assms by (simp add: distinct_card)
  finally show ?thesis
    using keys_js_object assms by (simp add: exact_own_def js_object_def list_all_iff)
qed

lemma exact_own_entries:
  assumes "exact_own v wanted" and "distinct wanted"
  obtains kvs where "v = JObj kvs" "distinct (map fst kvs)" "fst ` set kvs = set wanted"
proof -
  from assms have "exact_keys v wanted" by (simp add: exact_keys_exact_own)
  then obtain kvs where "v = JObj kvs" "mset (map fst kvs) = mset wanted"
    by (auto simp: exact_keys_def js_simps sort_eq_iff_mset)
  moreover from this(2) have "distinct (map fst kvs)" using assms(2) by (metis mset_eq_imp_distinct_iff)
  moreover have "set (map fst kvs) = set wanted" using calculation(2) by (rule mset_eq_setD)
  ultimately show ?thesis using that by simp
qed

lemma map_of_rev_distinct: "distinct (map fst kvs) \<Longrightarrow> map_of (rev kvs) = map_of kvs"
proof (induction kvs)
  case (Cons kv kvs)
  then have "map_of kvs (fst kv) = None" by (simp add: map_of_eq_None_iff)
  with Cons show ?case by (auto simp: fun_eq_iff map_add_def split: option.splits)
qed simp

lemma target_keys_distinct: "distinct TARGET_KEYS" "distinct RECORD_KEYS"
  by (simp_all add: TARGET_KEYS_def RECORD_KEYS_def)

lemma fence_candidate_get:
  assumes "exact_own target TARGET_KEYS"
  shows "js_get (fence_candidate target d c) k =
    (if k = ''created_at_ms'' then c else if k = ''epoch'' then JInt 1 else if k = ''retirement_id'' then d
     else if k \<in> set TARGET_KEYS then js_get target k
     else if k = ''status'' then JStr ''retired'' else if k = ''schema_version'' then JInt 1 else JUndef)"
proof -
  obtain kvs where kvs: "target = JObj kvs" "distinct (map fst kvs)" "fst ` set kvs = set TARGET_KEYS"
    by (rule exact_own_entries [OF assms target_keys_distinct(1)])
  have rev: "map_of (rev kvs) = map_of kvs" by (rule map_of_rev_distinct [OF kvs(2)])
  have none: "map_of kvs k = None \<longleftrightarrow> k \<notin> set TARGET_KEYS" using kvs(3) by (simp add: map_of_eq_None_iff)
  show ?thesis
  proof (cases "k \<in> set TARGET_KEYS")
    case True
    then obtain v where "map_of kvs k = Some v" using none by auto
    moreover have "k \<notin> {''created_at_ms'', ''epoch'', ''retirement_id'', ''status'', ''schema_version''}"
      using True by (auto simp: TARGET_KEYS_def)
    ultimately show ?thesis using True
      by (simp add: fence_candidate_def js_get_js_object kvs(1) map_add_def rev)
  next
    case False
    then show ?thesis using none by (simp add: fence_candidate_def js_get_js_object kvs(1) map_add_def rev)
  qed
qed

lemma target_fields: "validateRetirementTarget t \<longleftrightarrow> exact_own t TARGET_KEYS \<and> validateRetirementTarget (target_of t)"
  by (auto simp: validateRetirementTarget_def target_of_def TARGET_KEYS_def exact_own_def)

lemma target_of_get: "k \<in> set TARGET_KEYS \<Longrightarrow> js_get (target_of t) k = js_get t k"
  by (auto simp: target_of_def TARGET_KEYS_def)

lemma target_of_cong:
  "(\<And>k. k \<in> set TARGET_KEYS \<Longrightarrow> js_get a k = js_get b k) \<Longrightarrow> target_of a = target_of b"
  by (simp add: target_of_def)

text \<open>The compared fields of a valid target are strings and numbers, which \<open>===\<close> compares by value.\<close>

lemma target_scalar:
  assumes "validateRetirementTarget t" and "k \<in> set TARGET_KEYS"
  shows "js_eq (js_get t k) v \<longleftrightarrow> v = js_get t k"
proof -
  obtain w r n h where "js_get t ''worker_id'' = JStr w" "js_get t ''repo'' = JStr r"
      "js_get t ''pr_number'' = JInt n" "js_get t ''expected_head_sha'' = JStr h"
    using assms(1)
    by (cases "js_get t ''repo''"; cases "js_get t ''expected_head_sha''")
      (auto simp: validateRetirementTarget_def positive_safe_def js_simps)
  with assms(2) show ?thesis by (auto simp: TARGET_KEYS_def)
qed

lemma same_target_refl:
  assumes "validateRetirementTarget t" and "\<And>k. k \<in> set TARGET_KEYS \<Longrightarrow> js_get a k = js_get t k"
  shows "same_target a t"
  using assms by (simp add: same_target_def list_all_iff target_scalar [OF assms(1)])

lemma fence_candidate_valid:
  assumes "validateRetirementTarget target" and "decision_id d" and "positive_safe c"
  shows "validateRetiredFenceRecord (fence_candidate target d c)" and "same_target (fence_candidate target d c) target"
proof -
  have own: "exact_own target TARGET_KEYS" using assms(1) by (simp add: validateRetirementTarget_def)
  obtain kvs where kvs: "target = JObj kvs" "distinct (map fst kvs)" "fst ` set kvs = set TARGET_KEYS"
    by (rule exact_own_entries [OF own target_keys_distinct(1)])
  have "exact_own (fence_candidate target d c) RECORD_KEYS"
    unfolding fence_candidate_def
    by (rule exact_own_js_object [OF target_keys_distinct(2)]) (auto simp: kvs(1,3) image_Un RECORD_KEYS_def TARGET_KEYS_def)
  moreover have fields: "js_get (fence_candidate target d c) k = js_get target k" if "k \<in> set TARGET_KEYS" for k
    using that by (subst fence_candidate_get [OF own]) (auto simp: TARGET_KEYS_def)
  then have "target_of (fence_candidate target d c) = target_of target" by (rule target_of_cong)
  then have "validateRetirementTarget (target_of (fence_candidate target d c))"
    using assms(1) target_fields [of target] by metis
  moreover have "js_get (fence_candidate target d c) ''schema_version'' = JInt 1"
    "js_get (fence_candidate target d c) ''status'' = JStr ''retired''"
    "js_get (fence_candidate target d c) ''retirement_id'' = d"
    "js_get (fence_candidate target d c) ''epoch'' = JInt 1"
    "js_get (fence_candidate target d c) ''created_at_ms'' = c"
    by (simp_all add: fence_candidate_get [OF own] TARGET_KEYS_def)
  moreover have "positive_safe (JInt 1)" by (simp add: positive_safe_def safe_int_def max_safe_def)
  ultimately show "validateRetiredFenceRecord (fence_candidate target d c)"
    using assms(2,3) unfolding validateRetiredFenceRecord_def by simp
  show "same_target (fence_candidate target d c) target"
    using assms(1) fields by (rule same_target_refl)
qed

text \<open>A proposal describes a fence that works and grants nothing. When a tombstone is
  proposed, the candidate is a valid fence record for the target, persisting it makes the
  policy block every operation of the list for this target, and the proposal itself claims
  none of the powers of its negative block.\<close>

theorem proposed_tombstone_blocks:
  assumes "js_get (proposeRetirementTombstone request) ''state'' = JStr ''PROPOSAL_ONLY''"
    and "op \<in> set FENCED_OPERATIONS"
  shows "grants_nothing POLICY_CLAIMS (proposeRetirementTombstone request) \<and>
    validateRetiredFenceRecord (js_get (proposeRetirementTombstone request) ''candidate'') \<and>
    js_get (inspectRetirementOperation (js_get (proposeRetirementTombstone request) ''candidate'')
      (js_get request ''target'') (JStr op)) ''state'' = JStr ''RETIRED_BLOCKED''"
proof -
  let ?t = "js_get request ''target''" and ?d = "js_get request ''retirement_id''"
    and ?c = "js_get request ''created_at_ms''"
  have ok: "validateRetirementTarget ?t" "decision_id ?d" "positive_safe ?c"
    and r: "proposeRetirementTombstone request = gate_pass POLICY_NEGATIVE [(''state'', JStr ''PROPOSAL_ONLY''),
        (''code'', JStr ''OWNER_AUTH_AND_ATOMIC_DO_CAS_REQUIRED''), (''candidate'', fence_candidate ?t ?d ?c)]"
    using assms(1) unfolding proposeRetirementTombstone_def Let_def
    by (auto simp: retirement_gates split: if_splits)
  have cand: "js_get (proposeRetirementTombstone request) ''candidate'' = fence_candidate ?t ?d ?c"
    unfolding r gate_pass_def
    by (simp add: js_get_js_object map_add_def POLICY_NEGATIVE_def map_of_false_claims POLICY_CLAIMS_def)
  have "fence_candidate ?t ?d ?c \<noteq> JUndef" by (simp add: fence_candidate_def js_object_def)
  then have "inspectRetirementOperation (fence_candidate ?t ?d ?c) ?t (JStr op) = retired_blocked POLICY_NEGATIVE (JStr op)"
    using ok assms(2) fence_candidate_valid [OF ok] by (simp add: inspectRetirementOperation_def fenced_operation_def)
  moreover have "js_get (retired_blocked POLICY_NEGATIVE (JStr op)) ''state'' = JStr ''RETIRED_BLOCKED''"
    by (simp add: retired_blocked_def policy.pass_reserved js_get_js_object)
  moreover have "grants_nothing POLICY_CLAIMS (proposeRetirementTombstone request)"
    unfolding r by (rule policy.pass_grants_nothing)
  ultimately show ?thesis using fence_candidate_valid(1) [OF ok] by (simp add: cand)
qed

section \<open>Facts of the kernel\<close>

lemma snapshotRequest_Some:
  assumes "snapshotRequest request = Some req"
  shows "validateRetirementTarget (sr_target req)" "decision_id (sr_retirement_id req)"
    "positive_safe (sr_created_at_ms req)" "target_of (sr_target req) = sr_target req"
  using assms
  by (auto simp: snapshotRequest_def Let_def target_of_def TARGET_KEYS_def split: if_splits)

lemma makeFence_facts:
  assumes "snapshotRequest request = Some req"
  shows "validateRetiredFenceRecord (makeFence req)" "same_target (makeFence req) (sr_target req)"
    "js_get (makeFence req) ''epoch'' = JInt 1" "js_get (makeFence req) ''retirement_id'' = sr_retirement_id req"
    "js_get (makeFence req) ''created_at_ms'' = sr_created_at_ms req" "makeFence req \<noteq> JUndef"
proof -
  note s = snapshotRequest_Some [OF assms]
  have own: "exact_own (sr_target req) TARGET_KEYS" using s(1) by (simp add: validateRetirementTarget_def)
  show "validateRetiredFenceRecord (makeFence req)" "same_target (makeFence req) (sr_target req)"
    using fence_candidate_valid [OF s(1-3)] by (simp_all add: makeFence_def)
  show "js_get (makeFence req) ''epoch'' = JInt 1" "js_get (makeFence req) ''retirement_id'' = sr_retirement_id req"
    "js_get (makeFence req) ''created_at_ms'' = sr_created_at_ms req"
    by (simp_all add: makeFence_def fence_candidate_get [OF own])
  show "makeFence req \<noteq> JUndef" by (simp add: makeFence_def fence_candidate_def js_object_def)
qed

lemma positive_one: "positive_safe (JInt 1)"
  by (simp add: positive_safe_def safe_int_def max_safe_def)

lemma scalar_refl: "is_JStr v \<or> is_safe_integer v \<Longrightarrow> js_eq v v"
  by (cases v) auto

text \<open>The witness of the transaction, and what the transaction needs of it.\<close>

definition witness_ready :: "jsval \<Rightarrow> stage_request \<Rightarrow> bool" where
  "witness_ready w req \<longleftrightarrow> js_get w ''state'' = JStr ''OBSERVED_ONLY'' \<and>
     (truthy (js_get w ''active'') \<or> truthy (js_get w ''queued'')) \<and>
     \<not> truthy (js_get w ''active_connection_id_present'') \<and>
     delivery_set w = sr_expected_delivery_ids req"

lemma inTransaction_staged:
  assumes "inTransaction (steady st) req = Some (TxStaged r, ws)"
  shows "st RETIREMENT_FENCE_KEY = JUndef" "st RETIREMENT_EPOCH_KEY = JUndef" "r = makeFence req"
    "ws = [(RETIREMENT_FENCE_KEY, makeFence req), (RETIREMENT_EPOCH_KEY, js_get (makeFence req) ''epoch'')]"
    "witness_ready (readRelayRetirementWitness (Some (steady st)) 2 (sr_target req)) req"
  using assms
  by (auto simp: inTransaction_def Let_def existing_fence_def witness_ready_def split: sum.splits if_splits)

lemma inTransaction_existing:
  assumes "existing_fence (st RETIREMENT_FENCE_KEY) (st RETIREMENT_EPOCH_KEY) req = Inr True"
    and "witness_ready (readRelayRetirementWitness (Some (steady st)) 2 (sr_target req)) req"
  shows "inTransaction (steady st) req = Some (TxExisting (st RETIREMENT_FENCE_KEY), [])"
  using assms by (simp add: inTransaction_def witness_ready_def Let_def)

lemma inTransaction_writes:
  assumes "inTransaction (steady st) req = Some (outcome, ws)" and "ws \<noteq> []"
  shows "\<exists>r. outcome = TxStaged r"
  using assms by (auto simp: inTransaction_def Let_def split: sum.splits if_splits)

lemma fence_keys: "RETIREMENT_FENCE_KEY \<notin> set WITNESS_KEYS" "RETIREMENT_EPOCH_KEY \<notin> set WITNESS_KEYS"
    "RETIREMENT_FENCE_KEY \<noteq> RETIREMENT_EPOCH_KEY"
  by (simp_all add: RETIREMENT_FENCE_KEY_def RETIREMENT_EPOCH_KEY_def WITNESS_KEYS_def)

lemma witness_cong:
  assumes "\<And>k. k \<in> set WITNESS_KEYS \<Longrightarrow> st k = st' k"
  shows "readRelayRetirementWitness (Some (steady st)) n t = readRelayRetirementWitness (Some (steady st')) n t"
proof -
  have "map st WITNESS_KEYS = map st' WITNESS_KEYS" using assms by simp
  then show ?thesis unfolding readRelayRetirementWitness_def Let_def option.case read_keys_steady by (simp only:)
qed

lemma witness_identity:
  assumes "js_get (readRelayRetirementWitness (Some (steady st)) n t) ''state'' = JStr ''OBSERVED_ONLY''"
  shows "js_eq (st ''worker_id'') (js_get t ''worker_id'')"
  using assms
  by (auto simp: readRelayRetirementWitness_def witness_of_def Let_def retirement_gates WITNESS_KEYS_def
      split: if_splits)

lemma sameRecord_refl: "validateRetiredFenceRecord r \<Longrightarrow> sameRecord r r"
proof -
  assume v: "validateRetiredFenceRecord r"
  then have t: "validateRetirementTarget (target_of r)" by (simp add: validateRetiredFenceRecord_def)
  have "js_eq (js_get r k) (js_get r k)" if "k \<in> set TARGET_KEYS" for k
    using target_scalar [OF t that] target_of_get [OF that] by metis
  then show ?thesis
    using v scalar_refl by (auto simp: sameRecord_def RECORD_KEYS_def TARGET_KEYS_def validateRetiredFenceRecord_def
        decision_id_def positive_safe_def)
qed

text \<open>What a first, successful staging says of the store before and after.\<close>

lemma stage_staged:
  assumes "stage_on_store st request = (st', r)"
    and "js_get r ''state'' = JStr ''STAGED_SHAPE_READBACK_ONLY''"
  obtains req where "snapshotRequest request = Some req" "st RETIREMENT_FENCE_KEY = JUndef"
    "st RETIREMENT_EPOCH_KEY = JUndef"
    "st' = st(RETIREMENT_FENCE_KEY := makeFence req, RETIREMENT_EPOCH_KEY := JInt 1)"
    "witness_ready (readRelayRetirementWitness (Some (steady st)) 2 (sr_target req)) req"
proof -
  let ?ts = "\<lambda>st'. \<lparr>ts_reader = steady st, ts_answer = id, ts_readback = steady st'\<rparr>"
  have r: "r = stageRetirementFenceCandidate (Some (?ts st')) request"
    and st': "st' = (case Option.bind (snapshotRequest request) (inTransaction (steady st)) of
                   None \<Rightarrow> st | Some (_, ws) \<Rightarrow> apply_writes ws st)"
    using assms(1) by (auto simp: stage_on_store_def Let_def)
  obtain req where req: "snapshotRequest request = Some req"
    using assms(2) r by (cases "snapshotRequest request")
      (auto simp: stageRetirementFenceCandidate_def retirement_gates)
  have pass: "js_get (readback (TxExisting rec) rec rd) ''state'' \<noteq> JStr ''STAGED_SHAPE_READBACK_ONLY''" for rec rd
    by (simp add: readback_def Let_def retirement_gates kernel.pass_reserved js_get_js_object split: option.split)
  have blocked: "js_get (gate_deny KERNEL_NEGATIVE c) ''state'' \<noteq> JStr ''STAGED_SHAPE_READBACK_ONLY''" for c
    by (simp add: retirement_gates)
  obtain rec ws where tx: "inTransaction (steady st) req = Some (TxStaged rec, ws)"
  proof (cases "inTransaction (steady st) req")
    case None
    then show ?thesis using assms(2) r req by (simp add: stageRetirementFenceCandidate_def retirement_gates)
  next
    case (Some p)
    then obtain outcome ws where p: "inTransaction (steady st) req = Some (outcome, ws)" by (cases p) auto
    show ?thesis
    proof (cases outcome)
      case (TxBlocked b)
      then have "\<exists>c. b = gate_deny KERNEL_NEGATIVE c"
        using p by (auto simp: inTransaction_def Let_def split: sum.splits if_splits)
      then show ?thesis using assms(2) r req p TxBlocked blocked by (auto simp: stageRetirementFenceCandidate_def)
    qed (use that assms(2) r req p pass blocked in \<open>auto simp: stageRetirementFenceCandidate_def\<close>)
  qed
  note f = inTransaction_staged [OF tx]
  have "st' = st(RETIREMENT_FENCE_KEY := makeFence req, RETIREMENT_EPOCH_KEY := JInt 1)"
    using st' req tx f(4) makeFence_facts(3) [OF req] by (simp add: apply_writes_def)
  with f req that show ?thesis by blast
qed

text \<open>C11: a staged fence holds. When a request is staged on the storage of an object, only the
  fence and its high-water mark are written; the route fence then observes every operation of
  the list as blocked for the target; and staging the same request again changes nothing and
  reports the existing fence.\<close>

theorem staged_fence_holds:
  assumes "stage_on_store st request = (st', r)"
    and "js_get r ''state'' = JStr ''STAGED_SHAPE_READBACK_ONLY''" and "op \<in> set FENCED_OPERATIONS"
  shows "(\<forall>k. k \<notin> {RETIREMENT_FENCE_KEY, RETIREMENT_EPOCH_KEY} \<longrightarrow> st' k = st k) \<and>
    js_get (inspectDormantRetirementRouteFence (Some (steady st', honest))
      (JObj [(''target'', target_of (js_get request ''target'')), (''operation'', JStr op)])) ''state''
      = JStr ''RETIRED_BLOCKED'' \<and>
    fst (stage_on_store st' request) = st' \<and>
    js_get (snd (stage_on_store st' request)) ''state'' = JStr ''EXISTING_SHAPE_READBACK_ONLY''"
proof -
  obtain req where req: "snapshotRequest request = Some req"
    and st': "st' = st(RETIREMENT_FENCE_KEY := makeFence req, RETIREMENT_EPOCH_KEY := JInt 1)"
    and ready: "witness_ready (readRelayRetirementWitness (Some (steady st)) 2 (sr_target req)) req"
    by (rule stage_staged [OF assms(1,2)])
  note s = snapshotRequest_Some [OF req] and f = makeFence_facts [OF req]
  have tgt: "sr_target req = target_of (js_get request ''target'')"
    using req by (auto simp: snapshotRequest_def Let_def split: if_splits)
  have at: "st' RETIREMENT_FENCE_KEY = makeFence req" "st' RETIREMENT_EPOCH_KEY = JInt 1" using fence_keys by (simp_all add: st')
  have same: "st k = st' k" if "k \<in> set WITNESS_KEYS" for k using that fence_keys by (auto simp: st')
  have identity: "js_eq (st' ''worker_id'') (js_get (sr_target req) ''worker_id'')"
    using witness_identity [of st 2 "sr_target req"] ready same [of "''worker_id''"]
    by (simp add: witness_ready_def WITNESS_KEYS_def)
  let ?input = "JObj [(''target'', sr_target req), (''operation'', JStr op)]"
  have own: "exact_own (sr_target req) TARGET_KEYS" using s(1) by (simp add: validateRetirementTarget_def)
  have "capture_route ?input = Some (sr_target req, JStr op)"
    using s(1,4) own assms(3) by (simp add: capture_route_def exact_own_def fenced_operation_def)
  moreover have "inspectInsideTransaction (steady st') (sr_target req) (JStr op) = Some (retired_blocked ROUTE_NEGATIVE (JStr op))"
    using identity f positive_one by (simp add: inspectInsideTransaction_def at)
  moreover have "js_get (rebuild_route (JStr op) (retired_blocked ROUTE_NEGATIVE (JStr op))) ''state'' = JStr ''RETIRED_BLOCKED''"
    by (simp add: rebuild_route_def Let_def retired_blocked_def route.pass_reserved js_get_js_object)
      (simp add: gate_pass_def js_get_js_object map_add_def ROUTE_NEGATIVE_def map_of_false_claims ROUTE_CLAIMS_def)
  ultimately have observed: "js_get (inspectDormantRetirementRouteFence (Some (steady st', honest)) ?input) ''state''
      = JStr ''RETIRED_BLOCKED''"
    by (simp add: inspectDormantRetirementRouteFence_def honest_def)
  have "existing_fence (st' RETIREMENT_FENCE_KEY) (st' RETIREMENT_EPOCH_KEY) req = Inr True"
    using f s(2,3) positive_one scalar_refl
    by (simp add: existing_fence_def at decision_id_def positive_safe_def)
  moreover have "witness_ready (readRelayRetirementWitness (Some (steady st')) 2 (sr_target req)) req"
    using ready witness_cong [of st st' 2 "sr_target req"] same by simp
  ultimately have tx: "inTransaction (steady st') req = Some (TxExisting (makeFence req), [])"
    using inTransaction_existing [of st' req] at by simp
  have "js_get (readback (TxExisting (makeFence req)) (makeFence req) (steady st')) ''state'' = JStr ''EXISTING_SHAPE_READBACK_ONLY''"
    using f positive_one sameRecord_refl [OF f(1)]
    by (simp add: readback_def at kernel.pass_reserved js_get_js_object)
  then show ?thesis
    using observed tx req by (auto simp: tgt stage_on_store_def apply_writes_def stageRetirementFenceCandidate_def st' Let_def)
qed

text \<open>A persisted fence is immutable. Once a store has a fence or a high-water mark, no
  staging request changes the store, whatever the request.\<close>

theorem fence_immutable:
  assumes "st RETIREMENT_FENCE_KEY \<noteq> JUndef \<or> st RETIREMENT_EPOCH_KEY \<noteq> JUndef"
  shows "fst (stage_on_store st request) = st"
proof (cases "Option.bind (snapshotRequest request) (inTransaction (steady st))")
  case (Some p)
  then obtain req outcome ws where "snapshotRequest request = Some req"
    and tx: "inTransaction (steady st) req = Some (outcome, ws)" "p = (outcome, ws)"
    by (cases p; cases "snapshotRequest request") auto
  have "ws = []"
    using inTransaction_writes [OF tx(1)] inTransaction_staged(1,2) tx(1) assms by blast
  with Some tx(2) show ?thesis by (simp add: stage_on_store_def apply_writes_def)
qed (simp add: stage_on_store_def)

section \<open>What the observation proves\<close>

lemma inside_transaction_cases:
  assumes "inspectInsideTransaction rd target op = Some v"
  shows "(\<exists>c. v = gate_deny ROUTE_NEGATIVE c) \<or> v = retired_blocked ROUTE_NEGATIVE op \<and>
    (\<exists>identity fence epoch. read_keys rd 0 [''worker_id'', RETIREMENT_FENCE_KEY, RETIREMENT_EPOCH_KEY] = Some [identity, fence, epoch] \<and>
      js_eq identity (js_get target ''worker_id'') \<and> validateRetiredFenceRecord fence \<and>
      same_target fence target \<and> js_eq (js_get fence ''epoch'') epoch)"
proof -
  obtain vs where vs: "read_keys rd 0 [''worker_id'', RETIREMENT_FENCE_KEY, RETIREMENT_EPOCH_KEY] = Some vs"
    using assms by (auto simp: inspectInsideTransaction_def split: option.splits)
  then obtain identity fence epoch where "vs = [identity, fence, epoch]"
    by (auto simp: read_keys.simps split: option.splits)
  with vs assms show ?thesis
    by (auto simp: inspectInsideTransaction_def Let_def split: if_splits)
qed

lemma retired_blocked_state: "js_get (retired_blocked ROUTE_NEGATIVE op) ''state'' = JStr ''RETIRED_BLOCKED''"
  by (simp add: retired_blocked_def route.pass_reserved js_get_js_object)

lemma retired_blocked_grants_nothing: "grants_nothing ROUTE_CLAIMS (retired_blocked ROUTE_NEGATIVE op)"
  unfolding retired_blocked_def by (rule route.pass_grants_nothing)

lemma rebuild_route_cases:
  "(\<exists>c. rebuild_route op v = gate_deny ROUTE_NEGATIVE c) \<or>
   rebuild_route op v = retired_blocked ROUTE_NEGATIVE op \<and> js_get v ''state'' = JStr ''RETIRED_BLOCKED''"
  by (auto simp: rebuild_route_def Let_def)

lemma rebuild_deny: "\<exists>c'. rebuild_route op (gate_deny ROUTE_NEGATIVE c) = gate_deny ROUTE_NEGATIVE c'"
  using rebuild_route_cases [of op "gate_deny ROUTE_NEGATIVE c"] by (auto simp: retirement_gates)

text \<open>The route fence only ever blocks. Whatever the storage answers and however its
  \<open>transaction\<close> behaves, the result grants nothing and is a refusal or the observation of a
  retirement; the latter only when the reads showed the worker's identity, a valid fence
  record for the target and the matching high-water mark.\<close>

theorem route_fence_only_blocks:
  "let r = inspectDormantRetirementRouteFence storage input in
   grants_nothing ROUTE_CLAIMS r \<and>
   (js_get r ''state'' = JStr ''BLOCKED'' \<or>
    js_get r ''state'' = JStr ''RETIRED_BLOCKED'' \<and>
    (\<exists>rd answer target op identity fence epoch. storage = Some (rd, answer) \<and> capture_route input = Some (target, op) \<and>
       read_keys rd 0 [''worker_id'', RETIREMENT_FENCE_KEY, RETIREMENT_EPOCH_KEY] = Some [identity, fence, epoch] \<and>
       js_eq identity (js_get target ''worker_id'') \<and> validateRetiredFenceRecord fence \<and>
       same_target fence target \<and> js_eq (js_get fence ''epoch'') epoch))"
proof (cases "capture_route input")
  case None
  then show ?thesis by (simp add: inspectDormantRetirementRouteFence_def retirement_gates route.deny_grants_nothing)
next
  case (Some p)
  obtain target op where p: "capture_route input = Some (target, op)" using Some by (cases p) auto
  show ?thesis
  proof (cases storage)
    case None
    then show ?thesis using p
      by (simp add: inspectDormantRetirementRouteFence_def retirement_gates route.deny_grants_nothing)
  next
    case st: (Some s)
    obtain rd answer where s: "storage = Some (rd, answer)" using st by (cases s) auto
    let ?o = "inspectInsideTransaction rd target op"
    let ?r = "inspectDormantRetirementRouteFence storage input"
    have "?r = gate_deny ROUTE_NEGATIVE ''TRANSACTION_READ_UNCERTAIN'' \<or>
        ?r = gate_deny ROUTE_NEGATIVE ''TRANSACTION_RESULT_INVALID'' \<or>
        (\<exists>v. ?o = Some v \<and> ?r = rebuild_route op v)"
      by (auto simp: inspectDormantRetirementRouteFence_def p s Let_def split: tx_answer.split option.split)
    then consider c where "?r = gate_deny ROUTE_NEGATIVE c"
      | v where "?o = Some v" "?r = rebuild_route op v" by blast
    then show ?thesis
    proof cases
      case 1
      then show ?thesis by (simp add: retirement_gates route.deny_grants_nothing)
    next
      case (2 v)
      from 2(1) have "(\<exists>c. v = gate_deny ROUTE_NEGATIVE c) \<or> v = retired_blocked ROUTE_NEGATIVE op \<and>
        (\<exists>identity fence epoch. read_keys rd 0 [''worker_id'', RETIREMENT_FENCE_KEY, RETIREMENT_EPOCH_KEY] = Some [identity, fence, epoch] \<and>
          js_eq identity (js_get target ''worker_id'') \<and> validateRetiredFenceRecord fence \<and>
          same_target fence target \<and> js_eq (js_get fence ''epoch'') epoch)"
        by (rule inside_transaction_cases)
      then show ?thesis
        using 2 rebuild_route_cases [of op v] p s
        by (auto simp: retirement_gates route.deny_grants_nothing rebuild_deny retired_blocked_grants_nothing retired_blocked_state)
    qed
  qed
qed

end
