(* ===== verification/RetirementInspection.thy ===== *)
theory RetirementInspection imports RetirementFence
begin

text \<open>
  The read-only inspection of a session object: what the storage witness says of a reachable
  session, the socket witness (\<open>relay-socket-membership-witness.js\<close>), the two-pass
  inspection (\<open>relay-retirement-inspection-consistency.js\<close>), the signed command
  (\<open>relay-owner-inspection-command.js\<close>) and the receiver inside the object
  (\<open>relay-owner-same-do-inspection.js\<close>), which ties them together.
\<close>

section \<open>The witness of a session\<close>

text \<open>The storage of a session object, as the platform keeps it.\<close>

definition js_of_active :: "active_wake \<Rightarrow> jsval" where
  "js_of_active a = JObj [(''wake'', js_of_wake (aw_wake a)), (''phase'', JStr (phase_name (aw_phase a)))]"

definition store_of_session :: "session \<Rightarrow> store" where
  "store_of_session s k =
     (if k = ''worker_id'' then (case se_worker_id s of None \<Rightarrow> JUndef | Some w \<Rightarrow> JStr w)
      else if k = ''active_wake'' then (case se_active s of None \<Rightarrow> JUndef | Some a \<Rightarrow> js_of_active a)
      else if k = ''queued_wake'' then (case se_queued s of None \<Rightarrow> JUndef | Some q \<Rightarrow> js_of_wake q)
      else if k = ''recent_deliveries'' then (case se_recent s of None \<Rightarrow> JUndef | Some ds \<Rightarrow> JArr (map JStr ds))
      else if k = ''active_connection_id'' then (case se_connection s of None \<Rightarrow> JUndef | Some c \<Rightarrow> JStr c)
      else JUndef)"

definition wake_in_context :: "jsval \<Rightarrow> wake \<Rightarrow> bool" where
  "wake_in_context t w \<longleftrightarrow> js_get t ''repo'' = JStr (wk_repo w) \<and> js_get t ''pr_number'' = JInt (wk_pr_number w) \<and>
     js_get t ''expected_head_sha'' = JStr (wk_expected_head_sha w)"

definition wake_summary :: "wake \<Rightarrow> (string \<times> jsval) list" where
  "wake_summary w = [(''delivery_id'', JStr (wk_delivery_id w)), (''repo'', JStr (wk_repo w)),
     (''pr_number'', JInt (wk_pr_number w)), (''expected_head_sha'', JStr (wk_expected_head_sha w))]"

lemma js_of_wake_get [simp]:
  "js_get (js_of_wake w) ''delivery_id'' = JStr (wk_delivery_id w)"
  "js_get (js_of_wake w) ''repo'' = JStr (wk_repo w)"
  "js_get (js_of_wake w) ''pr_number'' = JInt (wk_pr_number w)"
  "js_get (js_of_wake w) ''expected_head_sha'' = JStr (wk_expected_head_sha w)"
  by (simp_all add: js_of_wake_def)

lemma describe_session_wake: "wake_ok wid w \<Longrightarrow> describeWake (js_of_wake w) wid = Some (JObj (wake_summary w))"
  by (simp add: describeWake_def wake_summary_def)

lemma phase_name_known: "phase_name p \<in> set PHASES"
  by (cases p) (simp_all add: PHASES_def)

lemma summary_in_context:
  assumes "validateRetirementTarget t"
  shows "context_matches t (JObj (wake_summary w @ xs)) \<longleftrightarrow> wake_in_context t w"
  by (auto simp: context_matches_def wake_summary_def wake_in_context_def)

lemma active_summary_session:
  "wake_ok wid (aw_wake a) \<Longrightarrow> active_summary (js_of_active a) wid =
    Inr (JObj (wake_summary (aw_wake a) @ [(''phase'', JStr (phase_name (aw_phase a)))]))"
  using phase_name_known [of "aw_phase a"] describe_session_wake [of wid "aw_wake a"]
  by (simp add: active_summary_def js_of_active_def exact_own_def)

lemma queued_summary_session:
  "wake_ok wid q \<Longrightarrow> queued_summary (js_of_wake q) wid = Inr (JObj (wake_summary q @ []))"
  using describe_session_wake [of wid q] by (simp add: queued_summary_def js_of_wake_def)

lemma recent_session_ok: "log_ok s \<Longrightarrow> \<not> recent_malformed (store_of_session s ''recent_deliveries'')"
  by (auto simp: recent_malformed_def store_of_session_def log_ok_def recentDeliveries_def
      RECENT_DELIVERY_LIMIT_def MAX_RECENT_def list_all_iff list_ex_iff split: option.splits)

lemma store_values: "map (store_of_session s) WITNESS_KEYS = [store_of_session s ''worker_id'',
    store_of_session s ''active_wake'', store_of_session s ''queued_wake'',
    store_of_session s ''active_connection_id'', store_of_session s ''recent_deliveries'']"
  by (simp add: WITNESS_KEYS_def)

lemma connection_session_ok:
  "sockets_ok s \<Longrightarrow> store_of_session s ''active_connection_id'' \<noteq> JStr []"
  by (auto simp: store_of_session_def sockets_ok_def list_ex_iff list_all_iff split: option.splits)

lemma witness_of_session:
  assumes "session_ok s" and "se_worker_id s = Some wid" and "js_get t ''worker_id'' = JStr wid"
    and "validateRetirementTarget t"
    and "a = (case se_active s of None \<Rightarrow> JNull
      | Some x \<Rightarrow> JObj (wake_summary (aw_wake x) @ [(''phase'', JStr (phase_name (aw_phase x)))]))"
    and "q = (case se_queued s of None \<Rightarrow> JNull | Some x \<Rightarrow> JObj (wake_summary x @ []))"
  shows "readRelayRetirementWitness (Some (steady (store_of_session s))) n t =
    (if (a \<noteq> JNull \<and> \<not> context_matches t a) \<or> (q \<noteq> JNull \<and> \<not> context_matches t q)
     then gate_deny WITNESS_NEGATIVE ''WAKE_CONTEXT_MISMATCH''
     else witness_fields t a q (store_of_session s ''active_connection_id'') (store_of_session s ''recent_deliveries''))"
proof -
  have "active_summary (store_of_session s ''active_wake'') wid = Inr a"
  proof (cases "se_active s")
    case None
    then show ?thesis by (simp add: assms(5) store_of_session_def active_summary_def)
  next
    case (Some x)
    then have "wake_ok wid (aw_wake x)" using assms(1,2) by (auto simp: session_ok_def wakes_ok_def)
    then show ?thesis using Some by (simp add: assms(5) store_of_session_def active_summary_session)
  qed
  moreover have "queued_summary (store_of_session s ''queued_wake'') wid = Inr q"
  proof (cases "se_queued s")
    case None
    then show ?thesis by (simp add: assms(6) store_of_session_def queued_summary_def)
  next
    case (Some x)
    then have "wake_ok wid x" using assms(1,2) by (auto simp: session_ok_def wakes_ok_def split: option.splits)
    then show ?thesis using Some queued_summary_session [of wid x] by (simp add: assms(6) store_of_session_def)
  qed
  moreover have "store_of_session s ''worker_id'' = JStr wid" by (simp add: store_of_session_def assms(2))
  moreover have "\<not> (store_of_session s ''active_connection_id'' \<noteq> JUndef \<and>
      (\<not> is_JStr (store_of_session s ''active_connection_id'') \<or> store_of_session s ''active_connection_id'' = JStr []))"
    using assms(1) connection_session_ok [of s] by (auto simp: session_ok_def store_of_session_def split: option.splits)
  moreover have "\<not> recent_malformed (store_of_session s ''recent_deliveries'')"
    using assms(1) recent_session_ok by (simp add: session_ok_def)
  ultimately show ?thesis
    using assms(3,4)
    by (simp only: readRelayRetirementWitness_def store_values witness_of_def Let_def option.case read_keys_steady) auto
qed

text \<open>The witness reads every reachable session. For a state a run of the session reaches and a
  target of its worker, the storage is never found malformed: the witness observes it when the
  stored wakes are of the target, and otherwise reports the mismatch. An observation tells
  exactly the stored delivery IDs and whether a connection is recorded.\<close>

theorem witness_reads_reachable_session:
  assumes "session_run bound evs effs s" and "se_worker_id s = Some wid"
    and "validateRetirementTarget t" and "js_get t ''worker_id'' = JStr wid"
    and "r = readRelayRetirementWitness (Some (steady (store_of_session s))) n t"
  shows "if (\<forall>a. se_active s = Some a \<longrightarrow> wake_in_context t (aw_wake a)) \<and> (\<forall>q. se_queued s = Some q \<longrightarrow> wake_in_context t q)
    then js_get r ''state'' = JStr ''OBSERVED_ONLY'' \<and>
      delivery_set r = sort (remdups (map (\<lambda>a. wk_delivery_id (aw_wake a)) (case se_active s of None \<Rightarrow> [] | Some a \<Rightarrow> [a])
        @ map wk_delivery_id (case se_queued s of None \<Rightarrow> [] | Some q \<Rightarrow> [q]))) \<and>
      js_get r ''active_connection_id_present'' = JBool (se_connection s \<noteq> None)
    else js_get r ''code'' = JStr ''WAKE_CONTEXT_MISMATCH''"
proof -
  let ?a = "case se_active s of None \<Rightarrow> JNull
      | Some x \<Rightarrow> JObj (wake_summary (aw_wake x) @ [(''phase'', JStr (phase_name (aw_phase x)))])"
  let ?q = "case se_queued s of None \<Rightarrow> JNull | Some x \<Rightarrow> JObj (wake_summary x @ [])"
  let ?bad = "(?a \<noteq> JNull \<and> \<not> context_matches t ?a) \<or> (?q \<noteq> JNull \<and> \<not> context_matches t ?q)"
  have r: "r = (if ?bad then gate_deny WITNESS_NEGATIVE ''WAKE_CONTEXT_MISMATCH''
     else witness_fields t ?a ?q (store_of_session s ''active_connection_id'') (store_of_session s ''recent_deliveries''))"
    unfolding assms(5) by (rule witness_of_session [OF run_ok [OF assms(1)] assms(2,4,3) refl refl])
  have bad: "?bad \<longleftrightarrow> \<not> ((\<forall>a. se_active s = Some a \<longrightarrow> wake_in_context t (aw_wake a)) \<and>
      (\<forall>q. se_queued s = Some q \<longrightarrow> wake_in_context t q))"
    using summary_in_context [OF assms(3)] summary_in_context [OF assms(3), of _ "[]"] by (auto split: option.splits)
  show ?thesis
  proof (cases ?bad)
    case True
    then show ?thesis using bad by (simp add: r retirement_gates)
  next
    case False
    then have rr: "r = witness_fields t ?a ?q (store_of_session s ''active_connection_id'') (store_of_session s ''recent_deliveries'')"
      using r by presburger
    have "store_of_session s ''active_connection_id'' \<noteq> JUndef \<longleftrightarrow> se_connection s \<noteq> None"
      by (simp add: store_of_session_def split: option.splits)
    moreover have "js_get r ''active'' = ?a" "js_get r ''queued'' = ?q" "js_get r ''state'' = JStr ''OBSERVED_ONLY''"
      "js_get r ''active_connection_id_present'' = JBool (store_of_session s ''active_connection_id'' \<noteq> JUndef)"
      unfolding rr witness_fields_def by simp_all
    ultimately show ?thesis
      using False bad by (simp add: delivery_set_def wake_summary_def split: option.splits)
  qed
qed

section \<open>The socket membership witness\<close>

definition MAX_SOCKETS :: nat where "MAX_SOCKETS = 128"

definition MEMBERSHIP_CLAIMS :: "string list" where
  "MEMBERSHIP_CLAIMS = [''can_retire'', ''delivery_fenced'', ''delivery_ack_proven'',
     ''socket_liveness_proven'', ''snapshot_atomic'', ''socket_sample_atomic'']"

definition NEGATIVE_GATES :: "(string \<times> jsval) list" where
  "NEGATIVE_GATES = false_claims MEMBERSHIP_CLAIMS"

text \<open>
  What \<open>getWebSockets()\<close> answers: it throws, it returns no array, or an array of sockets,
  each with the attachment it deserialises, \<^const>\<open>None\<close> for one that cannot be read.
\<close>

datatype socket_answer = SocketsThrow | SocketsOther | Sockets "jsval option list"

record do_context =
  dc_reader :: reader
  dc_sockets :: socket_answer

definition short_string :: "jsval \<Rightarrow> bool" where
  "short_string v \<longleftrightarrow> is_JStr v \<and> 1 \<le> length (str_or_empty v) \<and> length (str_or_empty v) \<le> 128"

definition attachment_ok :: "jsval \<Rightarrow> jsval \<Rightarrow> bool" where
  "attachment_ok wid att \<longleftrightarrow>
     exact_own att [''workerId'', ''connectionId'', ''registered'', ''sessionId''] \<and>
     js_eq (js_get att ''workerId'') wid \<and> short_string (js_get att ''connectionId'') \<and>
     is_JBool (js_get att ''registered'') \<and>
     (js_get att ''registered'' = JBool True \<longrightarrow> short_string (js_get att ''sessionId'')) \<and>
     (js_get att ''registered'' = JBool False \<longrightarrow> js_get att ''sessionId'' = JNull)"

text \<open>The number of registered sockets with the stored connection ID.\<close>

fun sample_sockets :: "jsval \<Rightarrow> jsval \<Rightarrow> nat \<Rightarrow> jsval option list \<Rightarrow> string + nat" where
  "sample_sockets wid stored matched [] = Inr matched"
| "sample_sockets wid stored matched (None # rest) = Inl ''SOCKET_ATTACHMENT_UNREADABLE''"
| "sample_sockets wid stored matched (Some att # rest) =
     (if \<not> attachment_ok wid att then Inl ''SOCKET_ATTACHMENT_CONFLICT''
      else if js_get att ''registered'' = JBool True then
        (if stored = JUndef \<or> \<not> js_eq (js_get att ''connectionId'') stored then Inl ''REGISTERED_SOCKET_CONFLICT''
         else if 1 < Suc matched then Inl ''DUPLICATE_REGISTERED_SOCKET''
         else sample_sockets wid stored (Suc matched) rest)
      else sample_sockets wid stored matched rest)"

definition membership_of :: "jsval \<Rightarrow> jsval \<Rightarrow> jsval \<Rightarrow> jsval \<Rightarrow> socket_answer \<Rightarrow> jsval" where
  "membership_of expected baseline storedBefore storedAfter answer =
     (let blocked = gate_deny NEGATIVE_GATES in
      if (storedBefore \<noteq> JUndef) \<noteq> (js_get baseline ''active_connection_id_present'' = JBool True) \<or>
         \<not> js_eq storedBefore storedAfter then blocked ''CONNECTION_STATE_CHANGED''
      else if storedBefore \<noteq> JUndef \<and> \<not> short_string storedBefore then blocked ''CONNECTION_METADATA_MALFORMED''
      else case answer of Sockets sockets \<Rightarrow>
          (if MAX_SOCKETS < length sockets then blocked ''SOCKET_COLLECTION_INVALID''
           else case sample_sockets (js_get expected ''worker_id'') storedBefore 0 sockets of
             Inl e \<Rightarrow> blocked e
           | Inr matched \<Rightarrow> gate_pass NEGATIVE_GATES (js_entries baseline @
               [(''registered_socket_id_match_observed'', JBool (matched = 1)),
                (''socket_collection_sample_size'', JInt (int (length sockets)))]))
      | _ \<Rightarrow> blocked ''SOCKET_COLLECTION_INVALID'')"

text \<open>The baseline reads five keys from moment \<open>n\<close>; the connection ID is read twice after that.\<close>

definition readRelaySocketMembershipWitness :: "do_context option \<Rightarrow> nat \<Rightarrow> jsval \<Rightarrow> jsval" where
  "readRelaySocketMembershipWitness deps n expected =
     (let blocked = gate_deny NEGATIVE_GATES in
      case deps of None \<Rightarrow> blocked ''DO_CONTEXT_REQUIRED''
      | Some dc \<Rightarrow>
          let baseline = readRelayRetirementWitness (Some (dc_reader dc)) n expected in
          if js_get baseline ''state'' \<noteq> JStr ''OBSERVED_ONLY'' then
            blocked (if js_get baseline ''state'' = JStr ''BLOCKED'' then str_or_empty (js_get baseline ''code'')
                     else ''BASELINE_UNAVAILABLE'')
          else case read_keys (dc_reader dc) (n + 5) [''active_connection_id'', ''active_connection_id''] of
            None \<Rightarrow> blocked ''SOCKET_OBSERVATION_FAILED''
          | Some vs \<Rightarrow>
              if dc_sockets dc = SocketsThrow then blocked ''SOCKET_OBSERVATION_FAILED''
              else membership_of expected baseline (vs ! 0) (vs ! 1) (dc_sockets dc))"

section \<open>The two-pass inspection\<close>

definition OBSERVED_KEYS :: "string list" where
  "OBSERVED_KEYS = [''worker_id'', ''active_wake'', ''queued_wake'', ''recent_deliveries'',
     ''active_connection_id'', RETIREMENT_FENCE_KEY]"

definition MAX_SNAPSHOT_BYTES :: nat where "MAX_SNAPSHOT_BYTES = 65536"

definition INSPECTION_CLAIMS :: "string list" where
  "INSPECTION_CLAIMS = [''can_retire'', ''can_dispatch'', ''can_release_assignment'', ''can_reuse_worker_id'',
     ''delivery_ack_proven'', ''delivery_fenced'', ''atomic_commit_proven'', ''credential_revocation_proven'',
     ''owner_authenticated'', ''do_provenance_verified'', ''snapshot_atomic'', ''socket_sample_atomic'',
     ''socket_liveness_proven'']"

definition INSPECTION_NEGATIVE :: "(string \<times> jsval) list" where
  "INSPECTION_NEGATIVE = false_claims INSPECTION_CLAIMS @ [(''owner_gate_required'', JBool True)]"

definition encode_value :: "jsval \<Rightarrow> string" where
  "encode_value v = json_array [JBool (v = JUndef), v]"

text \<open>
  The values of the keys, read one after the other: \<open>None\<close> when a read throws,
  \<open>Some None\<close> when a value is oversized.
\<close>

fun capture_values :: "reader \<Rightarrow> nat \<Rightarrow> string list \<Rightarrow> jsval list option option" where
  "capture_values rd n [] = Some (Some [])"
| "capture_values rd n (k # ks) =
     (case rd n k of None \<Rightarrow> None
      | Some v \<Rightarrow>
          if MAX_SNAPSHOT_BYTES < byte_length (encode_value v) then Some None
          else case capture_values rd (Suc n) ks of None \<Rightarrow> None
               | Some None \<Rightarrow> Some None | Some (Some vs) \<Rightarrow> Some (Some (v # vs)))"

definition fingerprint_of :: "jsval list \<Rightarrow> string" where
  "fingerprint_of vs = json_array (map (\<lambda>v. JStr (encode_value v)) vs)"

definition capture :: "reader \<Rightarrow> nat \<Rightarrow> (string \<times> jsval) option option" where
  "capture rd n =
     (case capture_values rd n OBSERVED_KEYS of None \<Rightarrow> None
      | Some None \<Rightarrow> Some None
      | Some (Some vs) \<Rightarrow>
          let fingerprint = fingerprint_of vs in
          if MAX_SNAPSHOT_BYTES < byte_length fingerprint then Some None
          else Some (Some (fingerprint, vs ! 5)))"

definition inspection_fields :: "jsval \<Rightarrow> jsval \<Rightarrow> jsval \<Rightarrow> jsval" where
  "inspection_fields expected sampled fence = gate_pass INSPECTION_NEGATIVE
     ([(''state'', JStr ''OBSERVED_ONLY'')] @ map (\<lambda>k. (k, js_get expected k)) TARGET_KEYS @
      map (\<lambda>k. (k, js_get sampled k)) [''active'', ''queued'', ''recent_delivery_count'',
        ''active_connection_id_present'', ''registered_socket_id_match_observed'', ''socket_collection_sample_size''] @
      [(''retired_record_schema_observed'', JBool (fence \<noteq> JUndef)),
       (''retired_epoch_shape_observed'', if fence = JUndef then JNull else js_get fence ''epoch'')])"

text \<open>The moments of the reads: the first pass from \<open>n\<close>, the witness after it, then the second pass.\<close>

definition readRetirementInspectionConsistency :: "do_context option \<Rightarrow> nat \<Rightarrow> jsval \<Rightarrow> jsval" where
  "readRetirementInspectionConsistency deps n expected =
     (let block = gate_deny INSPECTION_NEGATIVE in
      if \<not> validateRetirementTarget expected then block ''TARGET_INVALID''
      else case deps of None \<Rightarrow> block ''DO_CONTEXT_REQUIRED''
      | Some dc \<Rightarrow>
      (case capture (dc_reader dc) n of None \<Rightarrow> block ''INSPECTION_READ_FAILED''
       | Some None \<Rightarrow> block ''SNAPSHOT_INVALID_OR_OVERSIZED''
       | Some (Some first) \<Rightarrow>
      let sampled = readRelaySocketMembershipWitness (Some dc) (n + 6) expected in
      (case capture (dc_reader dc) (n + 13) of None \<Rightarrow> block ''INSPECTION_READ_FAILED''
       | Some None \<Rightarrow> block ''SNAPSHOT_INVALID_OR_OVERSIZED''
       | Some (Some second) \<Rightarrow>
      let fence = snd first in
      if fst first \<noteq> fst second then block ''DO_STATE_CHANGED_DURING_INSPECTION''
      else if js_get sampled ''state'' \<noteq> JStr ''OBSERVED_ONLY'' then
        block (if js_get sampled ''state'' = JStr ''BLOCKED'' then str_or_empty (js_get sampled ''code'')
               else ''SOCKET_WITNESS_UNAVAILABLE'')
      else if fence \<noteq> JUndef \<and> \<not> validateRetiredFenceRecord fence then block ''FENCE_RECORD_MALFORMED''
      else if fence \<noteq> JUndef \<and> \<not> same_target fence expected then block ''FENCE_TARGET_MISMATCH''
      else inspection_fields expected sampled fence)))"

section \<open>The signed inspection command\<close>

definition COMMAND_PURPOSE :: string where "COMMAND_PURPOSE = ''read_retirement_witness_v1''"

definition COMMAND_DOMAIN :: string where
  "COMMAND_DOMAIN = ''bke-worker/owner-inspection-command/v1''"

definition MAX_AGE_MS :: int where "MAX_AGE_MS = 30000"

definition ENVELOPE_KEYS :: "string list" where
  "ENVELOPE_KEYS = [''version'', ''purpose'', ''worker_id'', ''repo'', ''pr_number'', ''expected_head_sha'',
     ''nonce'', ''issued_at_ms'', ''expires_at_ms'', ''signature'']"

definition COMMAND_CLAIMS :: "string list" where
  "COMMAND_CLAIMS = [''human_owner_authenticated'', ''human_consent_verified'',
     ''current_github_assignment_verified'', ''same_do_verified'', ''nonce_consumed'',
     ''replay_protection_proven'', ''read_permitted'', ''can_retire'', ''can_release_assignment'',
     ''can_reuse_worker_id'', ''delivery_fenced'', ''delivery_ack_proven'', ''credential_revocation_proven'']"

definition COMMAND_NEGATIVE :: "(string \<times> jsval) list" where
  "COMMAND_NEGATIVE = false_claims COMMAND_CLAIMS"

text \<open>\<open>decode32\<close>: 43 characters, exactly 32 bytes, canonical.\<close>

definition decode32 :: "jsval \<Rightarrow> bytes option" where
  "decode32 raw = decode_field 43 32 raw"

text \<open>A verifier of the platform may throw: \<^const>\<open>None\<close>.\<close>

type_synonym mac_verifier = "bytes \<Rightarrow> bytes \<Rightarrow> bytes \<Rightarrow> bool option"

definition command_message :: "jsval \<Rightarrow> string" where
  "command_message command = json_array ([JStr COMMAND_DOMAIN, JInt 1, JStr COMMAND_PURPOSE] @
     map (js_get command) [''worker_id'', ''repo'', ''pr_number'', ''expected_head_sha'', ''nonce'',
       ''issued_at_ms'', ''expires_at_ms''])"

definition command_shape :: "jsval \<Rightarrow> bool" where
  "command_shape command \<longleftrightarrow> exact_own command ENVELOPE_KEYS \<and>
     js_eq (js_get command ''version'') (JInt 1) \<and> js_eq (js_get command ''purpose'') (JStr COMMAND_PURPOSE) \<and>
     validateRetirementTarget (target_of command) \<and> validHash (js_get command ''nonce'') \<and>
     is_JStr (js_get command ''signature'') \<and>
     class_rep b64url_char 43 43 (str_or_empty (js_get command ''signature''))"

definition command_window :: "jsval \<Rightarrow> bool" where
  "command_window command \<longleftrightarrow>
     (let issued = js_get command ''issued_at_ms''; expires = js_get command ''expires_at_ms'' in
      is_safe_integer issued \<and> is_safe_integer expires \<and> 0 < the_int issued \<and>
      the_int issued < the_int expires \<and> the_int expires - the_int issued \<le> MAX_AGE_MS)"

definition command_pass :: "jsval \<Rightarrow> jsval" where
  "command_pass expected = gate_pass COMMAND_NEGATIVE
     ([(''state'', JStr ''COMMAND_SIGNATURE_VERIFIED_ONLY''),
       (''code'', JStr ''OWNER_AUTH_GITHUB_AND_DO_PROVENANCE_REQUIRED'')] @
      map (\<lambda>k. (k, js_get expected k)) TARGET_KEYS)"

text \<open>The clock may throw; the crypto implementation may lack the two functions.\<close>

definition verifyOwnerInspectionCommand ::
  "jsval \<Rightarrow> jsval \<Rightarrow> jsval \<Rightarrow> mac_verifier option \<Rightarrow> jsval option \<Rightarrow> jsval" where
  "verifyOwnerInspectionCommand env command expected cryptoImpl clock =
     (let block = gate_deny COMMAND_NEGATIVE in
      if js_get env ''BKE_PREPRODUCTION'' \<noteq> JStr ''true'' \<or>
         js_get env ''BKE_G0_OWNER_INSPECTION_ENABLED'' \<noteq> JStr ''true'' then block ''OWNER_INSPECTION_LOCKED''
      else if \<not> validateRetirementTarget expected \<or> \<not> command_shape command then
        block ''OWNER_INSPECTION_COMMAND_INVALID''
      else if \<not> same_target command expected then block ''OWNER_INSPECTION_TARGET_MISMATCH''
      else if \<not> command_window command then block ''OWNER_INSPECTION_WINDOW_INVALID''
      else case clock of None \<Rightarrow> block ''OWNER_INSPECTION_CLOCK_UNAVAILABLE''
      | Some now \<Rightarrow>
          if \<not> is_safe_integer now \<or> the_int now < the_int (js_get command ''issued_at_ms'') \<or>
             the_int (js_get command ''expires_at_ms'') \<le> the_int now then
            block ''OWNER_INSPECTION_EXPIRED_OR_FUTURE''
          else case (decode32 (js_get env ''BKE_G0_OWNER_INSPECTION_KEY_B64''), decode32 (js_get command ''signature'')) of
            (Some secret, Some signature) \<Rightarrow>
              (case cryptoImpl of None \<Rightarrow> block ''OWNER_INSPECTION_CRYPTO_UNAVAILABLE''
               | Some verify \<Rightarrow>
                   (case verify secret signature (utf8 (command_message command)) of
                      None \<Rightarrow> block ''OWNER_INSPECTION_CRYPTO_UNAVAILABLE''
                    | Some False \<Rightarrow> block ''OWNER_INSPECTION_SIGNATURE_INVALID''
                    | Some True \<Rightarrow> command_pass expected))
          | _ \<Rightarrow> block ''OWNER_INSPECTION_CRYPTO_UNCONFIGURED'')"

section \<open>The inspection inside the session object\<close>

definition SAME_DO_CLAIMS :: "string list" where
  "SAME_DO_CLAIMS = [''human_owner_authenticated'', ''human_consent_verified'',
     ''current_github_assignment_verified'', ''same_do_verified'', ''nonce_consumed'',
     ''replay_protection_proven'', ''read_permitted'', ''can_retire'', ''can_release_assignment'',
     ''delivery_fenced'', ''credential_revocation_proven'', ''snapshot_atomic'']"

definition SAME_DO_NEGATIVE :: "(string \<times> jsval) list" where
  "SAME_DO_NEGATIVE = false_claims SAME_DO_CLAIMS"

definition targetFromWake :: "jsval \<Rightarrow> jsval \<Rightarrow> jsval option" where
  "targetFromWake wake workerId =
     (let result = JObj [(''worker_id'', workerId), (''repo'', js_get wake ''repo''),
        (''pr_number'', js_get wake ''pr_number''), (''expected_head_sha'', js_get wake ''expected_head_sha'')] in
      if is_object wake \<and> js_eq (js_get wake ''worker_id'') workerId \<and> validateRetirementTarget result
      then Some result else None)"

definition identity_options :: "jsval \<Rightarrow> jsval \<Rightarrow> jsval \<Rightarrow> jsval option list" where
  "identity_options workerId active queued =
     (if active \<noteq> JUndef then [targetFromWake (js_get active ''wake'') workerId] else []) @
     (if queued \<noteq> JUndef then [targetFromWake queued workerId] else [])"

definition identity_fingerprint :: "jsval list \<Rightarrow> string" where
  "identity_fingerprint vs = json_array (map (\<lambda>v. JArr [JBool (v = JUndef), v]) vs)"

definition identity_of :: "jsval list \<Rightarrow> (jsval \<times> string) option" where
  "identity_of vs =
     (let workerId = vs ! 0; active = vs ! 1; queued = vs ! 2 in
      if \<not> is_JStr workerId then None
      else if active = JUndef \<and> queued = JUndef then None
      else if active \<noteq> JUndef \<and> (\<not> exact_joined active [''phase'', ''wake''] \<or> \<not> is_JStr (js_get active ''phase'')) then None
      else case those (identity_options workerId active queued) of None \<Rightarrow> None
      | Some targets \<Rightarrow>
          if list_ex (\<lambda>x. \<not> same_target x (hd targets)) targets \<or>
             65536 < byte_length (identity_fingerprint vs) then None
          else Some (hd targets, identity_fingerprint vs))"

text \<open>\<open>None\<close> when a read throws.\<close>

definition readIdentity :: "reader \<Rightarrow> nat \<Rightarrow> (jsval \<times> string) option option" where
  "readIdentity rd n = map_option identity_of (read_keys rd n [''worker_id'', ''active_wake'', ''queued_wake''])"

definition candidate_fields :: "jsval \<Rightarrow> jsval \<Rightarrow> jsval" where
  "candidate_fields expected observed = gate_pass SAME_DO_NEGATIVE
     ([(''state'', JStr ''INSPECTION_CANDIDATE_ONLY'')] @ map (\<lambda>k. (k, js_get expected k)) TARGET_KEYS @
      [(''active_wake_present'', JBool (js_get observed ''active'' \<noteq> JNull)),
       (''queued_wake_present'', JBool (js_get observed ''queued'' \<noteq> JNull)),
       (''registered_socket_id_match_observed'', js_get observed ''registered_socket_id_match_observed''),
       (''retired_record_schema_observed'', js_get observed ''retired_record_schema_observed'')])"

text \<open>The part after the command was verified.\<close>

definition inspect_persisted :: "do_context \<Rightarrow> jsval \<Rightarrow> jsval" where
  "inspect_persisted dc signedTarget =
     (let block = gate_deny SAME_DO_NEGATIVE; rd = dc_reader dc in
      case readIdentity rd 0 of None \<Rightarrow> block ''SAME_DO_IDENTITY_READ_FAILED''
      | Some None \<Rightarrow> block ''SAME_DO_PERSISTED_TARGET_AMBIGUOUS''
      | Some (Some (expected, fingerprint)) \<Rightarrow>
          if \<not> same_target signedTarget expected then block ''SAME_DO_PERSISTED_TARGET_MISMATCH''
          else let observed = readRetirementInspectionConsistency (Some dc) 3 expected in
          (case readIdentity rd 22 of None \<Rightarrow> block ''SAME_DO_INSPECTION_FAILED''
           | Some None \<Rightarrow> block ''SAME_DO_IDENTITY_CHANGED''
           | Some (Some (expected', fingerprint')) \<Rightarrow>
               if fingerprint' \<noteq> fingerprint \<or> \<not> same_target expected' expected then block ''SAME_DO_IDENTITY_CHANGED''
               else if js_get observed ''state'' \<noteq> JStr ''OBSERVED_ONLY'' then block ''SAME_DO_WITNESS_UNAVAILABLE''
               else candidate_fields expected observed))"

definition inspectSameDurableObjectCandidate ::
  "jsval \<Rightarrow> jsval \<Rightarrow> do_context option \<Rightarrow> mac_verifier option \<Rightarrow> jsval option \<Rightarrow> jsval" where
  "inspectSameDurableObjectCandidate env command context cryptoImpl clock =
     (let block = gate_deny SAME_DO_NEGATIVE; signedTarget = target_of command in
      if js_get env ''BKE_PREPRODUCTION'' \<noteq> JStr ''true'' \<or>
         js_get env ''BKE_G0_OWNER_INSPECTION_ENABLED'' \<noteq> JStr ''true'' \<or>
         js_get env ''BKE_G0_SAME_DO_RECEIVER_ENABLED'' \<noteq> JStr ''true'' then block ''SAME_DO_RECEIVER_LOCKED''
      else case context of None \<Rightarrow> block ''SAME_DO_CONTEXT_INVALID''
      | Some dc \<Rightarrow>
          if \<not> validateRetirementTarget signedTarget then block ''SAME_DO_SIGNATURE_OR_SCOPE_DENIED''
          else if js_get (verifyOwnerInspectionCommand env command signedTarget cryptoImpl clock) ''state''
            \<noteq> JStr ''COMMAND_SIGNATURE_VERIFIED_ONLY'' then block ''SAME_DO_SIGNATURE_OR_SCOPE_DENIED''
          else inspect_persisted dc signedTarget)"

text \<open>The method of the session object: its own storage and sockets.\<close>

definition inspectRetirementCandidate :: "jsval \<Rightarrow> do_context \<Rightarrow> mac_verifier option \<Rightarrow> jsval option \<Rightarrow> jsval \<Rightarrow> jsval" where
  "inspectRetirementCandidate env ctx cryptoImpl clock command =
     inspectSameDurableObjectCandidate env command (Some ctx) cryptoImpl clock"

section \<open>The negative blocks\<close>

interpretation membership: negative_block NEGATIVE_GATES MEMBERSHIP_CLAIMS
  unfolding NEGATIVE_GATES_def by (rule false_claims_block) (simp_all add: MEMBERSHIP_CLAIMS_def)

interpretation inspection: negative_block INSPECTION_NEGATIVE INSPECTION_CLAIMS
  by unfold_locales
    (simp_all add: INSPECTION_NEGATIVE_def INSPECTION_CLAIMS_def map_of_false_claims map_add_def)

interpretation command: negative_block COMMAND_NEGATIVE COMMAND_CLAIMS
  unfolding COMMAND_NEGATIVE_def by (rule false_claims_block) (simp_all add: COMMAND_CLAIMS_def)

interpretation same_do: negative_block SAME_DO_NEGATIVE SAME_DO_CLAIMS
  unfolding SAME_DO_NEGATIVE_def by (rule false_claims_block) (simp_all add: SAME_DO_CLAIMS_def)

lemmas inspection_gates =
  membership.deny_state membership.deny_code membership.deny_grants_nothing membership.pass_grants_nothing
  inspection.deny_state inspection.deny_code inspection.deny_grants_nothing inspection.pass_grants_nothing
  command.deny_state command.deny_code command.deny_grants_nothing command.pass_grants_nothing
  same_do.deny_state same_do.deny_code same_do.deny_grants_nothing same_do.pass_grants_nothing

text \<open>An answer of an inspection is one of the block's two forms, whichever branch gives it.\<close>

definition gate_answer :: "(string \<times> jsval) list \<Rightarrow> jsval \<Rightarrow> bool" where
  "gate_answer negative r \<longleftrightarrow> (\<exists>c. r = gate_deny negative c) \<or> (\<exists>fs. r = gate_pass negative fs)"

lemma gate_answer_deny: "gate_answer negative (gate_deny negative c)" by (auto simp: gate_answer_def)

lemma gate_answer_pass: "gate_answer negative (gate_pass negative fs)" by (auto simp: gate_answer_def)

lemma gate_answer_if: "gate_answer negative r \<Longrightarrow> gate_answer negative r' \<Longrightarrow> gate_answer negative (if b then r else r')" by simp

lemma gate_answer_option:
  "gate_answer negative r \<Longrightarrow> (\<And>x. gate_answer negative (f x)) \<Longrightarrow> gate_answer negative (case v of None \<Rightarrow> r | Some x \<Rightarrow> f x)"
  by (cases v) simp_all

lemma gate_answer_bool: "gate_answer negative r \<Longrightarrow> gate_answer negative r' \<Longrightarrow> gate_answer negative (case b of True \<Rightarrow> r | False \<Rightarrow> r')"
  by (cases b) simp_all

lemma gate_answer_pair: "(\<And>x y. gate_answer negative (f x y)) \<Longrightarrow> gate_answer negative (case p of (x, y) \<Rightarrow> f x y)"
  by (cases p) simp

lemma gate_answer_sum:
  "(\<And>e. gate_answer negative (f e)) \<Longrightarrow> (\<And>x. gate_answer negative (g x)) \<Longrightarrow> gate_answer negative (case v of Inl e \<Rightarrow> f e | Inr x \<Rightarrow> g x)"
  by (cases v) simp_all

lemma gate_answer_sockets:
  "gate_answer negative r \<Longrightarrow> (\<And>x. gate_answer negative (f x)) \<Longrightarrow> gate_answer negative r' \<Longrightarrow>
   gate_answer negative (case v of SocketsThrow \<Rightarrow> r | SocketsOther \<Rightarrow> r' | Sockets x \<Rightarrow> f x)"
  by (cases v) simp_all

lemmas gate_answers = gate_answer_deny gate_answer_pass gate_answer_if gate_answer_option gate_answer_bool
  gate_answer_pair gate_answer_sum gate_answer_sockets

lemma membership_cases: "gate_answer NEGATIVE_GATES (readRelaySocketMembershipWitness deps n t)"
  unfolding readRelaySocketMembershipWitness_def membership_of_def Let_def by (intro gate_answers)

lemma inspection_cases: "gate_answer INSPECTION_NEGATIVE (readRetirementInspectionConsistency deps n t)"
  unfolding readRetirementInspectionConsistency_def inspection_fields_def Let_def by (intro gate_answers)

lemma command_cases: "gate_answer COMMAND_NEGATIVE (verifyOwnerInspectionCommand env cmd t crypto clock)"
  unfolding verifyOwnerInspectionCommand_def command_pass_def Let_def by (intro gate_answers)

lemma same_do_cases: "gate_answer SAME_DO_NEGATIVE (inspectSameDurableObjectCandidate env cmd ctx crypto clock)"
  unfolding inspectSameDurableObjectCandidate_def inspect_persisted_def candidate_fields_def Let_def by (intro gate_answers)

text \<open>No inspection authorizes anything. Whatever the storage, the sockets, the command, the
  clock and the verifier answer, no result of the socket witness, the two-pass inspection, the
  command verifier or the receiver inside the session object carries authority or one of the
  claims it lists.\<close>

theorem retirement_inspection_never_authorizes:
  "grants_nothing MEMBERSHIP_CLAIMS (readRelaySocketMembershipWitness deps n target) \<and>
   grants_nothing INSPECTION_CLAIMS (readRetirementInspectionConsistency deps n target) \<and>
   grants_nothing COMMAND_CLAIMS (verifyOwnerInspectionCommand env cmd target crypto clock) \<and>
   grants_nothing SAME_DO_CLAIMS (inspectSameDurableObjectCandidate env cmd deps crypto clock)"
  using membership_cases [of deps n target] inspection_cases [of deps n target]
    command_cases [of env cmd target crypto clock] same_do_cases [of env cmd deps crypto clock]
    inspection_gates unfolding gate_answer_def by metis

text \<open>What each positive result rests on.\<close>

lemma inspection_observed:
  assumes "js_get (readRetirementInspectionConsistency deps n t) ''state'' = JStr ''OBSERVED_ONLY''"
  shows "\<exists>dc fp fence fence'. deps = Some dc \<and> validateRetirementTarget t \<and>
    capture (dc_reader dc) n = Some (Some (fp, fence)) \<and> capture (dc_reader dc) (n + 13) = Some (Some (fp, fence')) \<and>
    (fence \<noteq> JUndef \<longrightarrow> validateRetiredFenceRecord fence \<and> same_target fence t) \<and>
    js_get (readRelaySocketMembershipWitness (Some dc) (n + 6) t) ''state'' = JStr ''OBSERVED_ONLY''"
  using assms unfolding readRetirementInspectionConsistency_def Let_def
  by (auto simp: inspection_gates split: if_splits option.splits)

lemma command_verified:
  assumes "js_get (verifyOwnerInspectionCommand env cmd t crypto clock) ''state'' = JStr ''COMMAND_SIGNATURE_VERIFIED_ONLY''"
  shows "\<exists>now secret sig verify. js_get env ''BKE_PREPRODUCTION'' = JStr ''true'' \<and>
      js_get env ''BKE_G0_OWNER_INSPECTION_ENABLED'' = JStr ''true'' \<and>
      validateRetirementTarget t \<and> command_shape cmd \<and> same_target cmd t \<and> command_window cmd \<and>
      clock = Some (JInt now) \<and> the_int (js_get cmd ''issued_at_ms'') \<le> now \<and>
      now < the_int (js_get cmd ''expires_at_ms'') \<and>
      decode32 (js_get env ''BKE_G0_OWNER_INSPECTION_KEY_B64'') = Some secret \<and>
      decode32 (js_get cmd ''signature'') = Some sig \<and> crypto = Some verify \<and>
      verify secret sig (utf8 (command_message cmd)) = Some True"
  using assms unfolding verifyOwnerInspectionCommand_def Let_def
  by (auto simp: inspection_gates is_safe_integer_iff not_le not_less split: if_splits option.splits bool.splits)

lemma same_do_candidate:
  assumes "js_get (inspectSameDurableObjectCandidate env cmd ctx crypto clock) ''state'' = JStr ''INSPECTION_CANDIDATE_ONLY''"
  shows "\<exists>dc expected fp expected'. ctx = Some dc \<and> js_get env ''BKE_G0_SAME_DO_RECEIVER_ENABLED'' = JStr ''true'' \<and>
    js_get (verifyOwnerInspectionCommand env cmd (target_of cmd) crypto clock) ''state'' = JStr ''COMMAND_SIGNATURE_VERIFIED_ONLY'' \<and>
    readIdentity (dc_reader dc) 0 = Some (Some (expected, fp)) \<and> readIdentity (dc_reader dc) 22 = Some (Some (expected', fp)) \<and>
    same_target (target_of cmd) expected \<and>
    js_get (readRetirementInspectionConsistency (Some dc) 3 expected) ''state'' = JStr ''OBSERVED_ONLY''"
  using assms unfolding inspectSameDurableObjectCandidate_def inspect_persisted_def Let_def
  by (auto simp: inspection_gates split: if_splits option.splits)

section \<open>Fingerprints\<close>

lemma fingerprint_inj:
  assumes "fingerprint_of vs = fingerprint_of ws"
  shows "map encode_value vs = map encode_value ws"
proof (rule quoted_join_inj)
  have "fingerprint_of vs = ''['' @ join_comma (map json_quote (map encode_value vs)) @ '']''" for vs
    by (simp add: fingerprint_of_def json_array_eq scalar_text_def comp_def)
  with assms show "join_comma (map json_quote (map encode_value vs)) = join_comma (map json_quote (map encode_value ws))"
    by simp
qed

lemma encode_string:
  assumes "encode_value (JStr s) = encode_value v"
  shows "v = JStr s"
proof -
  have eq: "''[false,'' @ json_quote s @ '']'' = encode_value v"
    unfolding assms [symmetric] by (simp add: encode_value_def json_array_eq scalar_text_def)
  then have "v \<noteq> JUndef" by (auto simp: encode_value_def json_array_eq scalar_text_def json_quote_def)
  then have "json_quote s @ '']'' = scalar_text v @ '']''"
    using eq by (simp add: encode_value_def json_array_eq scalar_text_def)
  moreover have "\<exists>u. json_quote s @ '']'' = CHR 0x22 # u" by (simp add: json_quote_def)
  ultimately obtain u where u: "scalar_text v @ '']'' = CHR 0x22 # u" by metis
  show ?thesis
  proof (cases v)
    case (JStr t)
    with \<open>json_quote s @ _ = _\<close> show ?thesis using json_quote_front [of s "'']''" t "'']''"]
      by (simp add: scalar_text_def)
  next
    case (JInt n)
    then show ?thesis using u int_string_not_quoted by (simp add: scalar_text_def)
  next
    case (JFrac q)
    then show ?thesis using u int_string_not_quoted by (simp add: scalar_text_def)
  qed (use u in \<open>auto simp: scalar_text_def split: if_splits\<close>)
qed

lemma capture_values_read:
  "capture_values rd n ks = Some (Some vs) \<Longrightarrow> read_keys rd n ks = Some vs"
  by (induction ks arbitrary: n vs) (auto simp: read_keys.simps split: option.splits if_splits)

lemma capture_read:
  assumes "capture rd n = Some (Some (fp, fence))"
  shows "\<exists>vs. read_keys rd n OBSERVED_KEYS = Some vs \<and> fp = fingerprint_of vs \<and> fence = vs ! 5"
  using assms capture_values_read by (auto simp: capture_def Let_def split: option.splits if_splits)

text \<open>The inspection notices a change. When the two-pass inspection observes, all six keys were
  read twice, every key had the same JSON text both times, a key that held a string held the
  same string, and a stored fence is a valid record for the target.\<close>

theorem inspection_detects_change:
  assumes "js_get (readRetirementInspectionConsistency (Some dc) n target) ''state'' = JStr ''OBSERVED_ONLY''"
  shows "\<exists>vs ws. read_keys (dc_reader dc) n OBSERVED_KEYS = Some vs \<and>
    read_keys (dc_reader dc) (n + 13) OBSERVED_KEYS = Some ws \<and>
    list_all2 (\<lambda>v w. encode_value v = encode_value w \<and> (is_JStr v \<longrightarrow> w = v)) vs ws \<and>
    (vs ! 5 \<noteq> JUndef \<longrightarrow> validateRetiredFenceRecord (vs ! 5) \<and> same_target (vs ! 5) target)"
proof -
  obtain fp fence fence' where cap: "capture (dc_reader dc) n = Some (Some (fp, fence))"
      "capture (dc_reader dc) (n + 13) = Some (Some (fp, fence'))"
    and fence: "fence \<noteq> JUndef \<longrightarrow> validateRetiredFenceRecord fence \<and> same_target fence target"
    using inspection_observed [OF assms] by auto
  obtain vs ws where vs: "read_keys (dc_reader dc) n OBSERVED_KEYS = Some vs" "fp = fingerprint_of vs" "fence = vs ! 5"
    and ws: "read_keys (dc_reader dc) (n + 13) OBSERVED_KEYS = Some ws" "fp = fingerprint_of ws"
    using capture_read [OF cap(1)] capture_read [OF cap(2)] by blast
  have same: "map encode_value vs = map encode_value ws" by (rule fingerprint_inj) (simp add: vs(2) [symmetric] ws(2) [symmetric])
  have "list_all2 (\<lambda>v w. encode_value v = encode_value w) vs ws"
    using same by (metis (mono_tags) list.rel_eq list.rel_map(1) list.rel_map(2))
  then have "list_all2 (\<lambda>v w. encode_value v = encode_value w \<and> (is_JStr v \<longrightarrow> w = v)) vs ws"
    by (rule list.rel_mono_strong) (auto simp: is_JStr_iff dest: encode_string)
  then show ?thesis using vs(1) ws(1) fence unfolding vs(3) by blast
qed

section \<open>The command message\<close>

lemma plain_repository: "control_repository v \<Longrightarrow> plain_scalar v"
  by (cases v) (auto simp: CONTROL_REPOSITORIES_def CONTROL_REPOSITORY_def plain_char_def code_def)

lemma plain_worker: "isValidWorkerId v \<Longrightarrow> plain_scalar v"
  by (cases v) (simp_all add: plain_worker_id)

lemma plain_sha: "is_sha v \<Longrightarrow> plain_scalar v"
  by (cases v) (auto simp: sha_re_def class_rep_def list_all_iff intro: plain_class)

lemma plain_target:
  assumes "validateRetirementTarget t"
  shows "list_all plain_scalar (map (js_get t) TARGET_KEYS)"
  using assms plain_worker plain_repository plain_sha
  by (auto simp: validateRetirementTarget_def TARGET_KEYS_def positive_safe_def is_safe_integer_iff)

definition SIGNED_KEYS :: "string list" where
  "SIGNED_KEYS = TARGET_KEYS @ [''nonce'', ''issued_at_ms'', ''expires_at_ms'']"

lemma command_message_signed: "command_message c =
    json_array ([JStr COMMAND_DOMAIN, JInt 1, JStr COMMAND_PURPOSE] @ map (js_get c) SIGNED_KEYS)"
  by (simp add: command_message_def SIGNED_KEYS_def TARGET_KEYS_def)

lemma plain_signed:
  assumes "command_shape c" and "command_window c"
  shows "list_all plain_scalar ([JStr COMMAND_DOMAIN, JInt 1, JStr COMMAND_PURPOSE] @ map (js_get c) SIGNED_KEYS)"
proof -
  have "map (js_get (target_of c)) TARGET_KEYS = map (js_get c) TARGET_KEYS" by (simp add: target_of_get)
  then have "list_all plain_scalar (map (js_get c) TARGET_KEYS)"
    using assms(1) plain_target [of "target_of c"] unfolding command_shape_def by (metis (no_types, lifting))
  moreover have "plain_scalar (js_get c ''nonce'')" using assms(1) plain_hash by (simp add: command_shape_def)
  moreover have "plain_scalar (js_get c ''issued_at_ms'')" "plain_scalar (js_get c ''expires_at_ms'')"
    using assms(2) by (auto simp: command_window_def Let_def is_safe_integer_iff)
  moreover have "plain_scalar (JStr COMMAND_DOMAIN)" "plain_scalar (JStr COMMAND_PURPOSE)"
    by (simp_all add: COMMAND_DOMAIN_def COMMAND_PURPOSE_def plain_char_def code_def)
  ultimately show ?thesis by (simp add: SIGNED_KEYS_def)
qed

lemma command_message_inj:
  assumes "command_shape c" "command_window c" "command_shape d" "command_window d"
    and "command_message c = command_message d"
  shows "map (js_get c) SIGNED_KEYS = map (js_get d) SIGNED_KEYS"
  using json_array_inj [OF plain_signed [OF assms(1,2)] plain_signed [OF assms(3,4)]] assms(5)
  by (simp add: command_message_signed)

section \<open>The receiver in the session object\<close>

definition wake_of_command :: "jsval \<Rightarrow> jsval \<Rightarrow> bool" where
  "wake_of_command issued wake \<longleftrightarrow> list_all (\<lambda>k. js_get wake k = js_get issued k) TARGET_KEYS"

lemma same_target_get: "same_target a b \<Longrightarrow> k \<in> set TARGET_KEYS \<Longrightarrow> js_get a k = js_get b k"
  by (auto simp: same_target_def list_all_iff dest: js_eq_eq)

lemma targetFromWake_get:
  assumes "targetFromWake wake w = Some t" and "k \<in> set TARGET_KEYS"
  shows "js_get wake k = js_get t k"
  using assms by (auto simp: targetFromWake_def Let_def TARGET_KEYS_def dest: js_eq_eq split: if_splits)

lemma targetFromWake_worker: "targetFromWake wake w = Some t \<Longrightarrow> js_get t ''worker_id'' = w"
  by (auto simp: targetFromWake_def Let_def split: if_splits)

lemma identity_of_Some:
  assumes "identity_of [w, active, queued] = Some (expected, fp)"
  shows "js_get expected ''worker_id'' = w \<and> (active \<noteq> JUndef \<or> queued \<noteq> JUndef) \<and>
    (active \<noteq> JUndef \<longrightarrow> wake_of_command expected (js_get active ''wake'')) \<and>
    (queued \<noteq> JUndef \<longrightarrow> wake_of_command expected queued)"
proof -
  obtain targets where t: "those (identity_options w active queued) = Some targets" "expected = hd targets"
    and some: "active \<noteq> JUndef \<or> queued \<noteq> JUndef" and same: "\<forall>x\<in>set targets. same_target x (hd targets)"
    using assms by (auto simp: identity_of_def Let_def list_ex_iff split: if_splits option.splits)
  have wake: "wake_of_command expected wake" if "targetFromWake wake w = Some x" "x \<in> set targets" for wake x
    using targetFromWake_get [OF that(1)] same_target_get [of x expected] same that(2) t(2)
    by (auto simp: wake_of_command_def list_all_iff)
  show ?thesis
    using t some wake targetFromWake_worker
    by (auto simp: identity_options_def split: if_splits option.splits)
qed

lemma readIdentity_Some:
  assumes "readIdentity rd n = Some (Some (expected, fp))"
  obtains w active queued where "read_keys rd n [''worker_id'', ''active_wake'', ''queued_wake''] = Some [w, active, queued]"
    "identity_of [w, active, queued] = Some (expected, fp)"
proof -
  obtain vs where vs: "read_keys rd n [''worker_id'', ''active_wake'', ''queued_wake''] = Some vs" "identity_of vs = Some (expected, fp)"
    using assms by (auto simp: readIdentity_def)
  moreover obtain w active queued where "vs = [w, active, queued]"
    using vs(1) by (auto simp: read_keys.simps split: option.splits)
  ultimately show ?thesis using that by simp
qed

text \<open>C12: a candidate answers a signed command about the stored wakes. Let the verifier accept only
  what \<open>sign\<close> returns, let the signature of the command be the MAC of an issued command, and
  let the two messages not collide. When the session object reports a candidate, every signed field of the command is the
  issued one, the clock is inside the issued window, and the worker ID and the wakes read from
  the object's own storage are those the issued command names.\<close>

theorem same_do_candidate_is_signed:
  assumes "js_get (inspectRetirementCandidate env ctx (Some verify) (Some (JInt now)) cmd) ''state'' = JStr ''INSPECTION_CANDIDATE_ONLY''"
    and "\<And>k t m. verify k t m = Some True \<Longrightarrow> t = sign k m"
    and "decode32 (js_get env ''BKE_G0_OWNER_INSPECTION_KEY_B64'') = Some key"
    and "decode32 (js_get cmd ''signature'') = Some (sign key (utf8 (command_message issued)))"
    and "sign key (utf8 (command_message issued)) = sign key (utf8 (command_message cmd)) \<Longrightarrow>
      utf8 (command_message issued) = utf8 (command_message cmd)"
    and "command_shape issued" and "command_window issued"
  shows "map (js_get cmd) SIGNED_KEYS = map (js_get issued) SIGNED_KEYS \<and>
    the_int (js_get issued ''issued_at_ms'') \<le> now \<and> now < the_int (js_get issued ''expires_at_ms'') \<and>
    (\<exists>active queued. read_keys (dc_reader ctx) 0 [''worker_id'', ''active_wake'', ''queued_wake''] =
        Some [js_get issued ''worker_id'', active, queued] \<and> (active \<noteq> JUndef \<or> queued \<noteq> JUndef) \<and>
      (active \<noteq> JUndef \<longrightarrow> wake_of_command issued (js_get active ''wake'')) \<and>
      (queued \<noteq> JUndef \<longrightarrow> wake_of_command issued queued))"
proof -
  obtain expected fp where proof_ok: "js_get (verifyOwnerInspectionCommand env cmd (target_of cmd) (Some verify) (Some (JInt now))) ''state''
        = JStr ''COMMAND_SIGNATURE_VERIFIED_ONLY''"
    and ident: "readIdentity (dc_reader ctx) 0 = Some (Some (expected, fp))"
    and tgt: "same_target (target_of cmd) expected"
    using same_do_candidate [OF assms(1) [unfolded inspectRetirementCandidate_def]] by auto
  obtain sig where cmd: "command_shape cmd" "command_window cmd" "the_int (js_get cmd ''issued_at_ms'') \<le> now"
      "now < the_int (js_get cmd ''expires_at_ms'')" "decode32 (js_get cmd ''signature'') = Some sig"
      "verify key sig (utf8 (command_message cmd)) = Some True"
    using command_verified [OF proof_ok] assms(3) by auto
  have "utf8 (command_message issued) = utf8 (command_message cmd)"
    by (rule assms(5)) (use cmd(5) assms(4) assms(2) [OF cmd(6)] in simp)
  then have "command_message cmd = command_message issued" using utf8_inj by metis
  then have fields: "map (js_get cmd) SIGNED_KEYS = map (js_get issued) SIGNED_KEYS"
    by (rule command_message_inj [OF cmd(1,2) assms(6,7)])
  have each: "js_get cmd k = js_get issued k" if "k \<in> set SIGNED_KEYS" for k
    using that fields by (metis map_eq_conv)
  have target: "js_get expected k = js_get issued k" if "k \<in> set TARGET_KEYS" for k
  proof -
    have "k \<in> set SIGNED_KEYS" using that by (simp add: SIGNED_KEYS_def)
    with same_target_get [OF tgt that] target_of_get [OF that] each show ?thesis by metis
  qed
  obtain w active queued where rd: "read_keys (dc_reader ctx) 0 [''worker_id'', ''active_wake'', ''queued_wake''] = Some [w, active, queued]"
    and id: "identity_of [w, active, queued] = Some (expected, fp)"
    by (rule readIdentity_Some [OF ident])
  have "w = js_get issued ''worker_id''" using identity_of_Some [OF id] target by (simp add: TARGET_KEYS_def)
  moreover have "wake_of_command expected v \<longleftrightarrow> wake_of_command issued v" for v
    using target by (simp add: wake_of_command_def list_all_iff)
  moreover have "js_get cmd ''issued_at_ms'' = js_get issued ''issued_at_ms''" "js_get cmd ''expires_at_ms'' = js_get issued ''expires_at_ms''"
    using each by (simp_all add: SIGNED_KEYS_def)
  ultimately show ?thesis using fields cmd(3,4) rd identity_of_Some [OF id] by metis
qed

section \<open>Small storages fit\<close>

lemma length_encode: "length (encode_value v) \<le> 9 + js_size v"
  using length_json_array [of "[JBool (v = JUndef), v]"] by (simp add: encode_value_def)

lemma length_fingerprint:
  "length (fingerprint_of vs) \<le> 2 + sum_list (map (\<lambda>v. 57 + 6 * js_size v) vs)"
proof -
  have "sum_list (map (\<lambda>v. Suc (js_size (JStr (encode_value v)))) vs) \<le> sum_list (map (\<lambda>v. 57 + 6 * js_size v) vs)"
  proof (rule sum_list_mono)
    fix v
    show "Suc (js_size (JStr (encode_value v))) \<le> 57 + 6 * js_size v" using length_encode [of v] by simp
  qed
  then show ?thesis
    using length_json_array [of "map (\<lambda>v. JStr (encode_value v)) vs"] by (simp add: fingerprint_of_def comp_def)
qed

lemma capture_values_small:
  "read_keys rd n ks = Some vs \<Longrightarrow> \<forall>v\<in>set vs. js_size v \<le> 32000 \<Longrightarrow> capture_values rd n ks = Some (Some vs)"
proof (induction ks arbitrary: n vs)
  case (Cons k ks)
  then obtain v vs' where v: "rd n k = Some v" "read_keys rd (Suc n) ks = Some vs'" "vs = v # vs'"
    by (auto simp: read_keys.simps split: option.splits)
  have "byte_length (encode_value v) \<le> MAX_SNAPSHOT_BYTES"
    using byte_length_le [of "encode_value v"] length_encode [of v] Cons.prems(2) by (simp add: v(3) MAX_SNAPSHOT_BYTES_def)
  then show ?case using Cons v by simp
qed (simp add: read_keys.simps)

lemma capture_small:
  assumes "read_keys rd n OBSERVED_KEYS = Some vs" and "sum_list (map js_size vs) \<le> 5000"
  shows "capture rd n = Some (Some (fingerprint_of vs, vs ! 5))"
proof -
  have len: "length vs = 6"
    using assms(1) by (auto simp: OBSERVED_KEYS_def read_keys.simps split: option.splits)
  have "\<forall>v\<in>set vs. js_size v \<le> 32000"
  proof
    fix v assume "v \<in> set vs"
    then have "js_size v \<le> sum_list (map js_size vs)" by (intro member_le_sum_list) auto
    with assms(2) show "js_size v \<le> 32000" by linarith
  qed
  then have "capture_values rd n OBSERVED_KEYS = Some (Some vs)" by (rule capture_values_small [OF assms(1)])
  moreover have "sum_list (map (\<lambda>v. 57 + 6 * js_size v) vs) = 57 * length vs + 6 * sum_list (map js_size vs)"
    by (induction vs) auto
  then have "byte_length (fingerprint_of vs) \<le> MAX_SNAPSHOT_BYTES"
    using byte_length_le [of "fingerprint_of vs"] length_fingerprint [of vs] assms(2) len by (simp add: MAX_SNAPSHOT_BYTES_def)
  ultimately show ?thesis by (simp add: capture_def Let_def)
qed

section \<open>Samples\<close>

definition sample_target :: jsval where
  "sample_target = JObj [(''worker_id'', JStr ''worker-a''), (''repo'', JStr CONTROL_REPOSITORY),
     (''pr_number'', JInt 7), (''expected_head_sha'', JStr sample_sha)]"

definition sample_retirement_session :: session where
  "sample_retirement_session = empty_session\<lparr>se_worker_id := Some ''worker-a'',
     se_active := Some \<lparr>aw_wake = sample_wake ''github_pull_request_opened'' ''d-1'', aw_phase = Queued\<rparr>,
     se_recent := Some [''d-1'']\<rparr>"

definition sample_proposal :: jsval where
  "sample_proposal = JObj [(''target'', sample_target), (''persisted_fence'', JUndef),
     (''retirement_id'', JStr ''r-1''), (''created_at_ms'', JInt 5)]"

definition sample_stage :: jsval where
  "sample_stage = JObj [(''target'', sample_target), (''retirement_id'', JStr ''r-1''),
     (''created_at_ms'', JInt 5), (''expected_delivery_ids'', JArr [JStr ''d-1''])]"

lemma sample_proposes: "js_get (proposeRetirementTombstone sample_proposal) ''state'' = JStr ''PROPOSAL_ONLY''"
  by code_simp

theorem proposed_tombstone_blocks_witness:
  "js_get (inspectRetirementOperation (js_get (proposeRetirementTombstone sample_proposal) ''candidate'')
      sample_target (JStr ''ack'')) ''state'' = JStr ''RETIRED_BLOCKED''"
proof -
  have "''ack'' \<in> set FENCED_OPERATIONS" by (simp add: FENCED_OPERATIONS_def)
  moreover have "js_get sample_proposal ''target'' = sample_target" by (simp add: sample_proposal_def)
  ultimately show ?thesis using proposed_tombstone_blocks [OF sample_proposes, of "''ack''"] by simp
qed

lemma sample_stages: "js_get (snd (stage_on_store (store_of_session sample_retirement_session) sample_stage)) ''state''
    = JStr ''STAGED_SHAPE_READBACK_ONLY''"
  by code_simp

theorem staged_fence_holds_witness:
  "js_get (inspectDormantRetirementRouteFence (Some (steady (fst (stage_on_store
      (store_of_session sample_retirement_session) sample_stage)), honest))
      (JObj [(''target'', target_of (js_get sample_stage ''target'')), (''operation'', JStr ''send'')])) ''state''
      = JStr ''RETIRED_BLOCKED''"
  using staged_fence_holds [OF surjective_pairing sample_stages, of "''send''"] by (simp add: FENCED_OPERATIONS_def)

theorem fence_immutable_witness:
  "fst (stage_on_store ((store_of_session sample_retirement_session)(RETIREMENT_EPOCH_KEY := JInt 1)) sample_stage)
    = (store_of_session sample_retirement_session)(RETIREMENT_EPOCH_KEY := JInt 1)"
  by (rule fence_immutable) simp

theorem witness_reads_reachable_session_witness:
  "js_get (readRelayRetirementWitness (Some (steady (store_of_session sample_behind))) 0 sample_target) ''state'' = JStr ''OBSERVED_ONLY''"
proof -
  have "validateRetirementTarget sample_target" by code_simp
  moreover have "se_worker_id sample_behind = Some ''worker-a''" "js_get sample_target ''worker_id'' = JStr ''worker-a''"
    by (simp_all add: sample_behind_def sample_sent_def sample_session_def sample_target_def)
  moreover have "wake_in_context sample_target (sample_opened ''d1'')" "wake_in_context sample_target (sample_opened ''d2'')"
    by (simp_all add: wake_in_context_def sample_target_def sample_opened_def sample_wake_def)
  ultimately show ?thesis
    using witness_reads_reachable_session [OF sample_behind_run, of "''worker-a''" sample_target _ 0, OF _ _ _ refl]
    by (simp add: sample_behind_def sample_sent_def)
qed

definition sample_context :: do_context where
  "sample_context = \<lparr>dc_reader = steady (store_of_session sample_retirement_session), dc_sockets = Sockets []\<rparr>"

lemma capture_values_steady: "capture_values (steady st) n ks = capture_values (steady st) 0 ks"
proof (induction ks arbitrary: n)
  case (Cons k ks)
  show ?case using Cons [of "Suc n"] Cons [of "Suc 0"] by (simp add: steady_def [of _ _ k])
qed simp

lemma capture_steady: "capture (steady st) n = capture (steady st) 0"
  by (simp only: capture_def capture_values_steady [of st n])

lemma sample_captured: "\<exists>fp. capture (dc_reader sample_context) n = Some (Some (fp, JUndef))"
proof -
  have "read_keys (dc_reader sample_context) n OBSERVED_KEYS = Some (map (store_of_session sample_retirement_session) OBSERVED_KEYS)"
    by (simp add: sample_context_def)
  moreover have "sum_list (map js_size (map (store_of_session sample_retirement_session) OBSERVED_KEYS)) \<le> 5000"
    by code_simp
  moreover have "map (store_of_session sample_retirement_session) OBSERVED_KEYS ! 5 = JUndef" by code_simp
  ultimately show ?thesis using capture_small by metis
qed

lemma sample_member: "js_get (readRelaySocketMembershipWitness (Some sample_context) n sample_target) ''state'' = JStr ''OBSERVED_ONLY''"
proof -
  have "js_get (readRelaySocketMembershipWitness (Some sample_context) 0 sample_target) ''state'' = JStr ''OBSERVED_ONLY''"
    by code_simp
  moreover have "readRelaySocketMembershipWitness (Some sample_context) n sample_target = readRelaySocketMembershipWitness (Some sample_context) 0 sample_target"
    unfolding readRelaySocketMembershipWitness_def readRelayRetirementWitness_def sample_context_def Let_def option.case
      do_context.select_convs read_keys_steady ..
  ultimately show ?thesis by simp
qed

lemma sample_observed:
  "js_get (readRetirementInspectionConsistency (Some sample_context) n sample_target) ''state'' = JStr ''OBSERVED_ONLY''"
proof -
  have "validateRetirementTarget sample_target" by code_simp
  moreover obtain fp where "capture (dc_reader sample_context) n = Some (Some (fp, JUndef))"
      "capture (dc_reader sample_context) (n + 13) = Some (Some (fp, JUndef))"
  proof -
    obtain fp where fp: "capture (dc_reader sample_context) n = Some (Some (fp, JUndef))" using sample_captured by blast
    moreover have "capture (dc_reader sample_context) (n + 13) = capture (dc_reader sample_context) n"
      using capture_steady [of _ "n + 13"] capture_steady [of _ n] by (simp add: sample_context_def)
    ultimately show ?thesis using that by simp
  qed
  ultimately show ?thesis
    using sample_member [of "n + 6"]
    by (simp add: readRetirementInspectionConsistency_def inspection_fields_def inspection.pass_reserved js_get_js_object Let_def TARGET_KEYS_def)
qed

theorem inspection_detects_change_witness:
  "\<exists>vs ws. read_keys (dc_reader sample_context) 0 OBSERVED_KEYS = Some vs \<and>
    read_keys (dc_reader sample_context) 13 OBSERVED_KEYS = Some ws \<and>
    list_all2 (\<lambda>v w. encode_value v = encode_value w \<and> (is_JStr v \<longrightarrow> w = v)) vs ws"
  using inspection_detects_change [OF sample_observed [of 0]] unfolding add_0 by blast

definition sample_command_with :: "string \<Rightarrow> jsval" where
  "sample_command_with sig = JObj [(''version'', JInt 1), (''purpose'', JStr COMMAND_PURPOSE), (''worker_id'', JStr ''worker-a''),
     (''repo'', JStr CONTROL_REPOSITORY), (''pr_number'', JInt 7), (''expected_head_sha'', JStr sample_sha),
     (''nonce'', JStr (replicate 64 CHR ''a'')), (''issued_at_ms'', JInt 1000), (''expires_at_ms'', JInt 21000),
     (''signature'', JStr sig)]"

definition sample_inspection_env :: jsval where
  "sample_inspection_env = JObj [(''BKE_PREPRODUCTION'', JStr ''true''), (''BKE_G0_OWNER_INSPECTION_ENABLED'', JStr ''true''),
     (''BKE_G0_SAME_DO_RECEIVER_ENABLED'', JStr ''true''),
     (''BKE_G0_OWNER_INSPECTION_KEY_B64'', JStr (bytesToBase64Url sample_key))]"

lemma sample_command_message: "command_message (sample_command_with sig) = command_message (sample_command_with [])"
  by (simp add: command_message_def sample_command_with_def)

definition sample_signature :: bytes where
  "sample_signature = toy_sign sample_key (utf8 (command_message (sample_command_with [])))"

definition sample_command :: jsval where
  "sample_command = sample_command_with (bytesToBase64Url sample_signature)"

lemma sample_command_message': "sample_signature = toy_sign sample_key (utf8 (command_message sample_command))"
  unfolding sample_command_def sample_command_message [of "bytesToBase64Url sample_signature"]
  unfolding sample_signature_def ..

lemma decode32_encode: "length bs = 32 \<Longrightarrow> decode32 (JStr (bytesToBase64Url bs)) = Some bs"
  by (simp add: decode32_def decodeBase64Url_encode)

lemma sample_decoded: "decode32 (js_get sample_command ''signature'') = Some sample_signature"
    "decode32 (js_get sample_inspection_env ''BKE_G0_OWNER_INSPECTION_KEY_B64'') = Some sample_key"
  by (simp_all add: sample_command_def sample_command_with_def sample_inspection_env_def decode32_encode
      sample_signature_def toy_sign_def sample_key_def)

lemma sample_command_shape: "command_shape sample_command" "command_window sample_command"
proof -
  have "class_rep b64url_char 43 43 (bytesToBase64Url sample_signature)"
    using sample_decoded(1) by (auto simp: sample_command_def sample_command_with_def decode32_def decodeBase64Url_def split: if_splits)
  moreover have "target_of sample_command = sample_target"
    by (simp add: sample_command_def sample_command_with_def sample_target_def target_of_def TARGET_KEYS_def)
  moreover have "validateRetirementTarget sample_target" "validHash (JStr (replicate 64 CHR ''a''))" by code_simp+
  ultimately show "command_shape sample_command"
    by (simp add: command_shape_def sample_command_def sample_command_with_def exact_own_def ENVELOPE_KEYS_def)
  show "command_window sample_command"
    by (simp add: command_window_def sample_command_def sample_command_with_def safe_int_def max_safe_def MAX_AGE_MS_def)
qed

lemma sample_identity: "\<exists>fp. readIdentity (dc_reader sample_context) n = Some (Some (sample_target, fp))"
proof -
  let ?vs = "map (store_of_session sample_retirement_session) [''worker_id'', ''active_wake'', ''queued_wake'']"
  have vs: "?vs = [JStr ''worker-a'', js_of_active \<lparr>aw_wake = sample_wake ''github_pull_request_opened'' ''d-1'', aw_phase = Queued\<rparr>, JUndef]"
    by (simp add: store_of_session_def sample_retirement_session_def empty_session_def)
  have "js_size (JArr (map (\<lambda>v. JArr [JBool (v = JUndef), v]) ?vs)) \<le> 30000" unfolding vs by code_simp
  then have "byte_length (identity_fingerprint ?vs) \<le> 65536"
    using byte_length_le [of "identity_fingerprint ?vs"] length_json_array [of "map (\<lambda>v. JArr [JBool (v = JUndef), v]) ?vs"]
    unfolding identity_fingerprint_def by linarith
  moreover have "targetFromWake (js_of_wake (sample_wake ''github_pull_request_opened'' ''d-1'')) (JStr ''worker-a'') = Some sample_target"
    by code_simp
  moreover have "same_target sample_target sample_target" by code_simp
  ultimately have "identity_of ?vs = Some (sample_target, identity_fingerprint ?vs)"
    unfolding vs by (simp add: identity_of_def identity_options_def js_of_active_def exact_joined_def)
  then show ?thesis by (simp add: readIdentity_def sample_context_def)
qed

lemma sample_candidate: "js_get (inspectRetirementCandidate sample_inspection_env sample_context
    (Some (\<lambda>k t m. Some (t = toy_sign k m))) (Some (JInt 2000)) sample_command) ''state'' = JStr ''INSPECTION_CANDIDATE_ONLY''"
proof -
  let ?verify = "\<lambda>k t m. Some (t = toy_sign k m)"
  have tgt: "target_of sample_command = sample_target"
    by (simp add: sample_command_def sample_command_with_def sample_target_def target_of_def TARGET_KEYS_def)
  have ok: "validateRetirementTarget sample_target" "same_target sample_target sample_target" by code_simp+
  have env: "js_get sample_inspection_env ''BKE_PREPRODUCTION'' = JStr ''true''"
      "js_get sample_inspection_env ''BKE_G0_OWNER_INSPECTION_ENABLED'' = JStr ''true''"
      "js_get sample_inspection_env ''BKE_G0_SAME_DO_RECEIVER_ENABLED'' = JStr ''true''"
    by (simp_all add: sample_inspection_env_def)
  have same: "same_target sample_command sample_target"
    by (simp add: same_target_def sample_command_def sample_command_with_def sample_target_def TARGET_KEYS_def)
  have time: "js_get sample_command ''issued_at_ms'' = JInt 1000" "js_get sample_command ''expires_at_ms'' = JInt 21000"
    by (simp_all add: sample_command_def sample_command_with_def)
  have "verifyOwnerInspectionCommand sample_inspection_env sample_command sample_target (Some ?verify) (Some (JInt 2000)) = command_pass sample_target"
    using env ok same time sample_command_shape sample_decoded sample_command_message'
    by (simp add: verifyOwnerInspectionCommand_def safe_int_def max_safe_def)
  then have "js_get (verifyOwnerInspectionCommand sample_inspection_env sample_command sample_target (Some ?verify) (Some (JInt 2000))) ''state''
      = JStr ''COMMAND_SIGNATURE_VERIFIED_ONLY''"
    by (simp add: command_pass_def command.pass_reserved js_get_js_object TARGET_KEYS_def)
  moreover obtain fp where "readIdentity (dc_reader sample_context) 0 = Some (Some (sample_target, fp))"
      "readIdentity (dc_reader sample_context) 22 = Some (Some (sample_target, fp))"
    using sample_identity [of 0] by (auto simp: readIdentity_def sample_context_def)
  ultimately show ?thesis
    using env ok tgt sample_observed [of 3]
    by (simp add: inspectRetirementCandidate_def inspectSameDurableObjectCandidate_def inspect_persisted_def candidate_fields_def Let_def
        same_do.pass_reserved js_get_js_object TARGET_KEYS_def)
qed

theorem same_do_candidate_is_signed_witness:
  "js_get (inspectRetirementCandidate sample_inspection_env sample_context
    (Some (\<lambda>k t m. Some (t = toy_sign k m))) (Some (JInt 2000)) sample_command) ''state'' = JStr ''INSPECTION_CANDIDATE_ONLY'' \<and>
   (\<exists>active queued. read_keys (dc_reader sample_context) 0 [''worker_id'', ''active_wake'', ''queued_wake''] =
     Some [js_get sample_command ''worker_id'', active, queued])"
  using same_do_candidate_is_signed [where sign = toy_sign and issued = sample_command, OF sample_candidate _ sample_decoded(2)
      sample_decoded(1) [unfolded sample_command_message'] _ sample_command_shape]
    sample_candidate by auto

end
