(* ===== verification/IsoTime.thy ===== *)
theory IsoTime imports JsValue
begin

text \<open>
  The timestamps of the extension's gates (\<open>validIsoUtc\<close> of
  \<open>browser-extension/src/bootstrap-fence.ts\<close> and its copies): \<open>Date.parse\<close> is only
  used on texts of one fixed form that \<open>toISOString\<close> must give back, so it is calendar
  arithmetic, and the order of the accepted times is the order of their texts.
\<close>

section \<open>Timestamps\<close>

definition leap_year :: "int \<Rightarrow> bool" where
  "leap_year y \<longleftrightarrow> y mod 4 = 0 \<and> (y mod 100 \<noteq> 0 \<or> y mod 400 = 0)"

definition month_lengths :: "int \<Rightarrow> int list" where
  "month_lengths y = [31, if leap_year y then 29 else 28, 31, 30, 31, 30, 31, 31, 30, 31, 30, 31]"

text \<open>The days from 1 January of year 0 to 1 January of year \<open>y\<close>.\<close>

definition days_before_year :: "int \<Rightarrow> int" where
  "days_before_year y = 365 * y + (y + 3) div 4 + (y + 399) div 400 - (y + 99) div 100"

definition days_before_month :: "int \<Rightarrow> int \<Rightarrow> int" where
  "days_before_month y mo = sum_list (take (nat (mo - 1)) (month_lengths y))"

definition number_at :: "string \<Rightarrow> nat \<Rightarrow> nat \<Rightarrow> int" where
  "number_at s i n = foldl (\<lambda>m c. m * 10 + int (digit_val c)) 0 (take n (drop i s))"

text \<open>\<open>ISO_UTC_MILLIS\<close>: a digit where the form has a digit, the form's character elsewhere.\<close>

definition iso_form :: string where
  "iso_form = ''0000-00-00T00:00:00.000Z''"

definition iso_utc_millis :: "string \<Rightarrow> bool" where
  "iso_utc_millis s \<longleftrightarrow> length s = length iso_form \<and>
     list_all (\<lambda>(f, c). if f = CHR ''0'' then is_digit c else c = f) (zip iso_form s)"

text \<open>Milliseconds since 1 January 1970, for a text that names a day and a time of the calendar.\<close>

definition iso_time :: "string \<Rightarrow> int option" where
  "iso_time s =
     (let y = number_at s 0 4; mo = number_at s 5 2; d = number_at s 8 2; h = number_at s 11 2;
          mi = number_at s 14 2; sec = number_at s 17 2; ms = number_at s 20 3 in
      if 1 \<le> mo \<and> mo \<le> 12 \<and> 1 \<le> d \<and> d \<le> month_lengths y ! nat (mo - 1) \<and> h < 24 \<and> mi < 60 \<and> sec < 60
      then Some ((((days_before_year y + days_before_month y mo + (d - 1) - 719528) * 24 + h) * 60
             + mi) * 60000 + sec * 1000 + ms)
      else None)"

fun validIsoUtc :: "jsval \<Rightarrow> int option" where
  "validIsoUtc (JStr s) = (if iso_utc_millis s then iso_time s else None)"
| "validIsoUtc _ = None"

section \<open>The order of timestamps\<close>

text \<open>The calendar: a year has the days of its months, and the days of a date lie inside its year.\<close>

lemma div_step:
  assumes k: "0 < (k::int)" and j: "j = k - 1"
  shows "(y + k) div k = (y + j) div k + (if y mod k = 0 then 1 else 0)"
proof -
  let ?q = "y div k" and ?r = "y mod k"
  have y: "y = k * ?q + ?r" and r: "0 \<le> ?r" "?r < k" using k by simp_all
  have up: "(y + k) div k = ?q + 1" using k by simp
  show ?thesis
  proof (cases "?r = 0")
    case True
    have "(y + (k - 1)) div k = ?q" by (rule int_div_pos_eq [of _ _ _ "k - 1"]) (use y True k in auto)
    then show ?thesis using up True j by simp
  next
    case False
    have "(y + (k - 1)) div k = ?q + 1"
      by (rule int_div_pos_eq [of _ _ _ "?r - 1"]) (use y r False in \<open>auto simp: algebra_simps\<close>)
    then show ?thesis using up False j by simp
  qed
qed

lemma year_length: "days_before_year (y + 1) = days_before_year y + (if leap_year y then 366 else 365)"
proof -
  have split: "y mod 400 = 0 \<Longrightarrow> y mod 100 = 0" "y mod 100 = 0 \<Longrightarrow> y mod 4 = 0" by presburger+
  have e: "y + 1 + 3 = y + 4" "y + 1 + 99 = y + 100" "y + 1 + 399 = y + 400" by simp_all
  define a b c where "a = (y + 3) div 4" and "b = (y + 99) div 100" and "c = (y + 399) div 400"
  have steps: "(y + 4) div 4 = a + (if y mod 4 = 0 then 1 else 0)" "(y + 100) div 100 = b + (if y mod 100 = 0 then 1 else 0)"
      "(y + 400) div 400 = c + (if y mod 400 = 0 then 1 else 0)"
    unfolding a_def b_def c_def by (rule div_step; simp)+
  show ?thesis
    unfolding days_before_year_def e steps leap_year_def
    unfolding a_def [symmetric] b_def [symmetric] c_def [symmetric]
    using split by (cases "y mod 4 = 0"; cases "y mod 100 = 0"; cases "y mod 400 = 0") simp_all
qed

lemma year_mono: "y < y' \<Longrightarrow> days_before_year y + (if leap_year y then 366 else 365) \<le> days_before_year y'"
proof -
  assume "y < y'"
  moreover have "days_before_year (y + 1) \<le> days_before_year (y + 1 + int n)" for n
  proof (induction n)
    case (Suc n)
    then show ?case using year_length [of "y + 1 + int n"] by (simp add: algebra_simps split: if_splits)
  qed simp
  from this [of "nat (y' - (y + 1))"] \<open>y < y'\<close> show ?thesis using year_length [of y] by simp
qed

lemma month_cases: "1 \<le> mo \<Longrightarrow> mo \<le> 12 \<Longrightarrow>
    mo = 1 \<or> mo = 2 \<or> mo = 3 \<or> mo = 4 \<or> mo = 5 \<or> mo = 6 \<or> mo = 7 \<or> mo = 8 \<or> mo = 9 \<or> mo = 10 \<or> mo = 11 \<or> mo = (12::int)"
  by presburger

lemma month_lengths_nonneg: "list_all (\<lambda>n. 0 \<le> n) (month_lengths y)"
  by (simp add: month_lengths_def)

lemma month_step:
  assumes "1 \<le> mo" "mo \<le> 12"
  shows "days_before_month y (mo + 1) = days_before_month y mo + month_lengths y ! nat (mo - 1)"
proof -
  have "nat (mo + 1 - 1) = Suc (nat (mo - 1))" "nat (mo - 1) < length (month_lengths y)"
    using assms by (auto simp: month_lengths_def)
  then show ?thesis by (simp add: days_before_month_def take_Suc_conv_app_nth)
qed

lemma month_mono: "mo \<le> mo' \<Longrightarrow> days_before_month y mo \<le> days_before_month y mo'"
proof -
  assume "mo \<le> mo'"
  then have "nat (mo - 1) \<le> nat (mo' - 1)" by simp
  then obtain n where "nat (mo' - 1) = nat (mo - 1) + n" using le_Suc_ex by blast
  moreover have "0 \<le> sum_list (take n (drop (nat (mo - 1)) (month_lengths y)))"
    using month_lengths_nonneg by (intro sum_list_nonneg) (auto simp: list_all_iff dest!: in_set_takeD in_set_dropD)
  ultimately show ?thesis by (simp add: days_before_month_def take_add)
qed

lemma year_days: "days_before_month y 13 = (if leap_year y then 366 else 365)"
  by (simp add: days_before_month_def month_lengths_def)

text \<open>A date of the calendar and its day.\<close>

definition date_ok :: "int \<Rightarrow> int \<Rightarrow> int \<Rightarrow> bool" where
  "date_ok y mo d \<longleftrightarrow> 1 \<le> mo \<and> mo \<le> 12 \<and> 1 \<le> d \<and> d \<le> month_lengths y ! nat (mo - 1)"

definition day_number :: "int \<Rightarrow> int \<Rightarrow> int \<Rightarrow> int" where
  "day_number y mo d = days_before_year y + days_before_month y mo + (d - 1)"

lemma day_number_less:
  assumes "date_ok y mo d" "date_ok y' mo' d'" and "y < y' \<or> y = y' \<and> (mo < mo' \<or> mo = mo' \<and> d < d')"
  shows "day_number y mo d < day_number y' mo' d'"
proof -
  have ok: "1 \<le> mo" "mo \<le> 12" "d \<le> month_lengths y ! nat (mo - 1)" "1 \<le> mo'" "1 \<le> d'"
    using assms(1,2) by (auto simp: date_ok_def)
  have inside: "days_before_month y mo + (d - 1) < days_before_month y (mo + 1)"
    using month_step [OF ok(1,2), of y] ok(3) by simp
  have "0 \<le> days_before_month y' mo'"
    using month_mono [of 1 mo' y'] ok(4) by (simp add: days_before_month_def)
  then show ?thesis
    using assms(3) inside month_mono [of "mo + 1" 13 y] month_mono [of "mo + 1" mo' y] year_mono [of y y'] year_days [of y] ok
    by (auto simp: day_number_def)
qed

text \<open>Texts of the fixed form compare part by part.\<close>

lemma append_less: "length a = length b \<Longrightarrow> a @ u < b @ v \<longleftrightarrow> a < b \<or> a = b \<and> u < (v :: string)"
  by (induction a b rule: list_induct2) auto

definition digits_value :: "string \<Rightarrow> int" where
  "digits_value s = foldl (\<lambda>m c. m * 10 + int (digit_val c)) 0 s"

lemma digits_value_snoc: "digits_value (s @ [c]) = digits_value s * 10 + int (digit_val c)"
  by (simp add: digits_value_def)

lemma digit_order: "is_digit c \<Longrightarrow> is_digit e \<Longrightarrow> (c < e \<longleftrightarrow> digit_val c < digit_val e) \<and> (c = e \<longleftrightarrow> digit_val c = digit_val e)"
proof -
  assume d: "is_digit c" "is_digit e"
  then have v: "digit_val c = code c - 48" "digit_val e = code e - 48" "48 \<le> code c" "48 \<le> code e"
    by (auto simp: digit_val_def is_digit_def)
  have "c = e \<longleftrightarrow> code c = code e" "c < e \<longleftrightarrow> code c < code e" by (simp_all add: code_def less_char_def)
  then show ?thesis using v by auto
qed

lemma digit_val_le: "is_digit c \<Longrightarrow> digit_val c \<le> 9"
  by (auto simp: digit_val_def is_digit_def)

lemma digits_order:
  "length a = length b \<Longrightarrow> list_all is_digit a \<Longrightarrow> list_all is_digit b \<Longrightarrow>
    (a < b \<longleftrightarrow> digits_value a < digits_value b) \<and> (a = b \<longleftrightarrow> digits_value a = digits_value b)"
proof (induction a arbitrary: b rule: rev_induct)
  case Nil
  then show ?case by (simp add: digits_value_def)
next
  case (snoc c a)
  then obtain b' e where b: "b = b' @ [e]" by (cases b rule: rev_cases) auto
  have ih: "(a < b' \<longleftrightarrow> digits_value a < digits_value b') \<and> (a = b' \<longleftrightarrow> digits_value a = digits_value b')"
    using snoc.prems by (intro snoc.IH) (simp_all add: b)
  have d: "is_digit c" "is_digit e" using snoc.prems by (simp_all add: b)
  show ?case
    using ih digit_order [OF d] digit_val_le [OF d(1)] digit_val_le [OF d(2)] snoc.prems(1)
    by (auto simp: b append_less digits_value_snoc)
qed

text \<open>A text of the form, taken apart.\<close>

lemma iso_parts:
  assumes "iso_utc_millis s"
  obtains y mo d h mi sec ms where
    "s = y @ ''-'' @ mo @ ''-'' @ d @ ''T'' @ h @ '':'' @ mi @ '':'' @ sec @ ''.'' @ ms @ ''Z''"
    "length y = 4" "length mo = 2" "length d = 2" "length h = 2" "length mi = 2" "length sec = 2" "length ms = 3"
    "list_all is_digit y" "list_all is_digit mo" "list_all is_digit d" "list_all is_digit h"
    "list_all is_digit mi" "list_all is_digit sec" "list_all is_digit ms"
    "number_at s 0 4 = digits_value y" "number_at s 5 2 = digits_value mo" "number_at s 8 2 = digits_value d"
    "number_at s 11 2 = digits_value h" "number_at s 14 2 = digits_value mi" "number_at s 17 2 = digits_value sec"
    "number_at s 20 3 = digits_value ms"
proof -
  obtain c0 c1 c2 c3 c4 c5 c6 c7 c8 c9 c10 c11 c12 c13 c14 c15 c16 c17 c18 c19 c20 c21 c22 c23 where
    s: "s = [c0, c1, c2, c3, c4, c5, c6, c7, c8, c9, c10, c11, c12, c13, c14, c15, c16, c17, c18, c19, c20, c21, c22, c23]"
    using assms by (auto simp: iso_utc_millis_def iso_form_def length_Suc_conv numeral_eq_Suc)
  show ?thesis
    using assms
    by (intro that [of "[c0, c1, c2, c3]" "[c5, c6]" "[c8, c9]" "[c11, c12]" "[c14, c15]" "[c17, c18]" "[c20, c21, c22]"])
      (simp_all add: s iso_utc_millis_def iso_form_def number_at_def digits_value_def)
qed

lemma digits_value_bounds: "list_all is_digit s \<Longrightarrow> 0 \<le> digits_value s \<and> digits_value s < 10 ^ length s"
proof (induction s rule: rev_induct)
  case (snoc c s)
  then show ?case using digit_val_le [of c] by (auto simp: digits_value_snoc)
qed (simp add: digits_value_def)

lemma iso_time_Some:
  "iso_time s = Some t \<longleftrightarrow> date_ok (number_at s 0 4) (number_at s 5 2) (number_at s 8 2) \<and>
     number_at s 11 2 < 24 \<and> number_at s 14 2 < 60 \<and> number_at s 17 2 < 60 \<and>
     t = (((day_number (number_at s 0 4) (number_at s 5 2) (number_at s 8 2) - 719528) * 24 + number_at s 11 2) * 60
       + number_at s 14 2) * 60000 + number_at s 17 2 * 1000 + number_at s 20 3"
  by (auto simp: iso_time_def Let_def date_ok_def day_number_def)

lemma clock_less:
  fixes a :: int
  assumes "0 \<le> h'" "0 \<le> mi'" "0 \<le> sec'" "0 \<le> ms'" "h < 24" "mi < 60" "sec < 60" "ms < 1000"
    and "a < a' \<or> a = a' \<and> (h < h' \<or> h = h' \<and> (mi < mi' \<or> mi = mi' \<and> (sec < sec' \<or> sec = sec' \<and> ms < ms')))"
  shows "(((a - 719528) * 24 + h) * 60 + mi) * 60000 + sec * 1000 + ms <
    (((a' - 719528) * 24 + h') * 60 + mi') * 60000 + sec' * 1000 + ms'"
  using assms by (auto simp: algebra_simps)

lemma iso_time_mono:
  assumes "iso_utc_millis s" "iso_time s = Some a" "iso_utc_millis t" "iso_time t = Some b" "s < t"
  shows "a < b"
proof -
  obtain y mo d h mi sec ms where s: "s = y @ ''-'' @ mo @ ''-'' @ d @ ''T'' @ h @ '':'' @ mi @ '':'' @ sec @ ''.'' @ ms @ ''Z''"
    "length y = 4" "length mo = 2" "length d = 2" "length h = 2" "length mi = 2" "length sec = 2" "length ms = 3"
    "list_all is_digit y" "list_all is_digit mo" "list_all is_digit d" "list_all is_digit h"
    "list_all is_digit mi" "list_all is_digit sec" "list_all is_digit ms"
    and sn: "number_at s 0 4 = digits_value y" "number_at s 5 2 = digits_value mo" "number_at s 8 2 = digits_value d"
    "number_at s 11 2 = digits_value h" "number_at s 14 2 = digits_value mi" "number_at s 17 2 = digits_value sec"
    "number_at s 20 3 = digits_value ms" by (rule iso_parts [OF assms(1)])
  obtain y' mo' d' h' mi' sec' ms' where t: "t = y' @ ''-'' @ mo' @ ''-'' @ d' @ ''T'' @ h' @ '':'' @ mi' @ '':'' @ sec' @ ''.'' @ ms' @ ''Z''"
    "length y' = 4" "length mo' = 2" "length d' = 2" "length h' = 2" "length mi' = 2" "length sec' = 2" "length ms' = 3"
    "list_all is_digit y'" "list_all is_digit mo'" "list_all is_digit d'" "list_all is_digit h'"
    "list_all is_digit mi'" "list_all is_digit sec'" "list_all is_digit ms'"
    and tn: "number_at t 0 4 = digits_value y'" "number_at t 5 2 = digits_value mo'" "number_at t 8 2 = digits_value d'"
    "number_at t 11 2 = digits_value h'" "number_at t 14 2 = digits_value mi'" "number_at t 17 2 = digits_value sec'"
    "number_at t 20 3 = digits_value ms'" by (rule iso_parts [OF assms(3)])
  have lex: "y < y' \<or> y = y' \<and> (mo < mo' \<or> mo = mo' \<and> (d < d' \<or> d = d' \<and> (h < h' \<or> h = h' \<and>
      (mi < mi' \<or> mi = mi' \<and> (sec < sec' \<or> sec = sec' \<and> ms < ms')))))"
    using assms(5) unfolding s(1) t(1) by (simp add: append_less s(2-8) t(2-8))
  have order: "(p < q \<longleftrightarrow> digits_value p < digits_value q) \<and> (p = q \<longleftrightarrow> digits_value p = digits_value q)"
    if "length p = length q" "list_all is_digit p" "list_all is_digit q" for p q
    using that by (rule digits_order)
  have ord: "y < y' \<longleftrightarrow> digits_value y < digits_value y'" "y = y' \<longleftrightarrow> digits_value y = digits_value y'"
    "mo < mo' \<longleftrightarrow> digits_value mo < digits_value mo'" "mo = mo' \<longleftrightarrow> digits_value mo = digits_value mo'"
    "d < d' \<longleftrightarrow> digits_value d < digits_value d'" "d = d' \<longleftrightarrow> digits_value d = digits_value d'"
    "h < h' \<longleftrightarrow> digits_value h < digits_value h'" "h = h' \<longleftrightarrow> digits_value h = digits_value h'"
    "mi < mi' \<longleftrightarrow> digits_value mi < digits_value mi'" "mi = mi' \<longleftrightarrow> digits_value mi = digits_value mi'"
    "sec < sec' \<longleftrightarrow> digits_value sec < digits_value sec'" "sec = sec' \<longleftrightarrow> digits_value sec = digits_value sec'"
    "ms < ms' \<longleftrightarrow> digits_value ms < digits_value ms'"
    using order s(2-15) t(2-15) by simp_all
  have bounds: "0 \<le> digits_value h'" "0 \<le> digits_value mi'" "0 \<le> digits_value sec'" "0 \<le> digits_value ms'"
      "digits_value ms < 1000"
    using digits_value_bounds [OF t(12)] digits_value_bounds [OF t(13)] digits_value_bounds [OF t(14)]
      digits_value_bounds [OF t(15)] digits_value_bounds [OF s(15)] s(8) by simp_all
  let ?D = "day_number (digits_value y) (digits_value mo) (digits_value d)"
    and ?D' = "day_number (digits_value y') (digits_value mo') (digits_value d')"
  have at: "date_ok (digits_value y) (digits_value mo) (digits_value d)" "digits_value h < 24" "digits_value mi < 60"
      "digits_value sec < 60" "date_ok (digits_value y') (digits_value mo') (digits_value d')"
    and val: "a = (((?D - 719528) * 24 + digits_value h) * 60 + digits_value mi) * 60000 + digits_value sec * 1000 + digits_value ms"
      "b = (((?D' - 719528) * 24 + digits_value h') * 60 + digits_value mi') * 60000 + digits_value sec' * 1000 + digits_value ms'"
    using assms(2,4) unfolding iso_time_Some sn tn by simp_all
  have "?D < ?D' \<or> ?D = ?D' \<and> (digits_value h < digits_value h' \<or> digits_value h = digits_value h' \<and>
      (digits_value mi < digits_value mi' \<or> digits_value mi = digits_value mi' \<and>
       (digits_value sec < digits_value sec' \<or> digits_value sec = digits_value sec' \<and> digits_value ms < digits_value ms')))"
    using lex day_number_less [OF at(1,5)] unfolding ord by metis
  then show ?thesis unfolding val by (intro clock_less bounds at)
qed

text \<open>Timestamps are compared as their texts are. Two texts that \<open>validIsoUtc\<close> accepts
  have the same order as times and as strings, and the same time only when they are the same
  text: no two spellings of one instant pass.\<close>

theorem timestamps_ordered_as_texts:
  assumes "validIsoUtc (JStr s) = Some a" and "validIsoUtc (JStr t) = Some b"
  shows "(a < b \<longleftrightarrow> s < t) \<and> (a = b \<longleftrightarrow> s = t)"
proof -
  have s: "iso_utc_millis s" "iso_time s = Some a" and t: "iso_utc_millis t" "iso_time t = Some b"
    using assms by (auto split: if_splits)
  consider "s < t" | "s = t" | "t < s" by force
  then show ?thesis
  proof cases
    case 1
    then show ?thesis using iso_time_mono [OF s t] by auto
  next
    case 2
    then show ?thesis using s(2) t(2) by simp
  next
    case 3
    then show ?thesis using iso_time_mono [OF t s] by auto
  qed
qed

theorem timestamps_ordered_as_texts_witness:
  "validIsoUtc (JStr ''1970-01-01T00:00:00.000Z'') = Some 0 \<and>
   validIsoUtc (JStr ''2026-02-29T00:00:00.000Z'') = None \<and>
   ''2026-03-01T00:00:00.000Z'' < ''2026-03-01T00:00:00.001Z''"
proof -
  have at: "validIsoUtc (JStr ''2026-03-01T00:00:00.000Z'') = Some 1772323200000"
      "validIsoUtc (JStr ''2026-03-01T00:00:00.001Z'') = Some 1772323200001"
      "validIsoUtc (JStr ''1970-01-01T00:00:00.000Z'') = Some 0" "validIsoUtc (JStr ''2026-02-29T00:00:00.000Z'') = None"
    by code_simp+
  then show ?thesis using timestamps_ordered_as_texts [OF at(1,2)] by simp
qed

end
