(* ===== verification/ExtensionBase.thy ===== *)
theory ExtensionBase imports Gate IsoTime RelayCredentials
begin

text \<open>
  What the gates of the extension share: the identifier patterns, the history of conversation
  IDs, the reading of a conversation from a page's URL (\<open>new URL\<close> is the platform's and a
  parameter), and the comparison of records field by field.
\<close>

section \<open>Names and identifiers\<close>

definition attempt_id_re :: "string \<Rightarrow> bool" where
  "attempt_id_re = head_class_rep is_lower_alnum (\<lambda>c. is_lower_alnum c \<or> c = CHR ''-'') 95"

definition repository_char :: "char \<Rightarrow> bool" where
  "repository_char c \<longleftrightarrow> is_alnum c \<or> c \<in> {CHR ''_'', CHR ''.'', CHR ''-''}"

definition repository_re :: "string \<Rightarrow> bool" where
  "repository_re s =
     (let owner = takeWhile (\<lambda>c. c \<noteq> CHR ''/'') s; rest = dropWhile (\<lambda>c. c \<noteq> CHR ''/'') s in
      owner \<noteq> [] \<and> list_all repository_char owner \<and> 1 < length rest \<and> list_all repository_char (tl rest))"

definition identifier_re :: "string \<Rightarrow> bool" where
  "identifier_re = class_rep b64url_char 8 128"

text \<open>The value of a string field that must be one of the listed names.\<close>

definition one_of :: "(string \<times> 'a) list \<Rightarrow> jsval \<Rightarrow> 'a option" where
  "one_of table v = (if is_JStr v then map_of table (str_or_empty v) else None)"

definition MAX_PRIOR_CONVERSATION_IDS :: nat where "MAX_PRIOR_CONVERSATION_IDS = 1024"

section \<open>Pages\<close>

text \<open>The parts of a \<open>URL\<close> the code reads; \<^const>\<open>None\<close> when the constructor throws.\<close>

record url =
  url_protocol :: string
  url_origin :: string
  url_username :: string
  url_password :: string
  url_search :: string
  url_hash :: string
  url_pathname :: string

type_synonym url_parser = "string \<Rightarrow> url option"

definition CHATGPT_ORIGIN :: string where "CHATGPT_ORIGIN = ''https://chatgpt.com''"

definition CHATGPT_LANDING :: string where "CHATGPT_LANDING = ''https://chatgpt.com/''"

definition denseValidHistory :: "jsval \<Rightarrow> bool" where
  "denseValidHistory v \<longleftrightarrow> is_JArr v \<and> length (the_arr v) \<le> MAX_PRIOR_CONVERSATION_IDS \<and>
     list_all (\<lambda>x. is_JStr x \<and> identifier_re (str_or_empty x)) (the_arr v) \<and> distinct (the_arr v)"

definition conversationIdFromUrl :: "url_parser \<Rightarrow> string \<Rightarrow> string option" where
  "conversationIdFromUrl parse raw =
     (case parse raw of None \<Rightarrow> None
      | Some u \<Rightarrow>
          if url_origin u \<noteq> CHATGPT_ORIGIN \<or> url_username u \<noteq> [] \<or> url_password u \<noteq> [] \<or>
             url_search u \<noteq> [] \<or> url_hash u \<noteq> [] then None
          else if starts_with (url_pathname u) ''/c/'' \<and> identifier_re (drop 3 (url_pathname u))
          then Some (drop 3 (url_pathname u)) else None)"

section \<open>Fields\<close>

text \<open>The fields two records share, compared with \<open>===\<close>.\<close>

definition same_fields :: "string list \<Rightarrow> jsval \<Rightarrow> jsval \<Rightarrow> bool" where
  "same_fields ks a b \<longleftrightarrow> list_all (\<lambda>k. js_eq (js_get a k) (js_get b k)) ks"

text \<open>\<open>typeof v === "object"\<close> and not null: an object or an array.\<close>

definition is_reference :: "jsval \<Rightarrow> bool" where
  "is_reference v \<longleftrightarrow> is_object v \<or> is_JArr v"

definition str_re :: "(string \<Rightarrow> bool) \<Rightarrow> jsval \<Rightarrow> bool" where
  "str_re p v \<longleftrightarrow> is_JStr v \<and> p (str_or_empty v)"

definition safe_at_least :: "int \<Rightarrow> jsval \<Rightarrow> bool" where
  "safe_at_least n v \<longleftrightarrow> is_safe_integer v \<and> n \<le> the_int v"

text \<open>\<open>!t\<close> holds of a missing timestamp and of the epoch itself.\<close>

definition falsy_time :: "int option \<Rightarrow> bool" where
  "falsy_time t \<longleftrightarrow> t = None \<or> t = Some 0"

section \<open>A parser for the URLs of the samples\<close>

definition sample_url :: url_parser where
  "sample_url raw = (if starts_with raw CHATGPT_LANDING
     then Some \<lparr>url_protocol = ''https:'', url_origin = CHATGPT_ORIGIN, url_username = [], url_password = [], url_search = [], url_hash = [],
       url_pathname = drop (length CHATGPT_ORIGIN) raw\<rparr> else None)"

end
