(* ===== verification/BootstrapFence.thy ===== *)
theory BootstrapFence imports ExtensionBase
begin

text \<open>
  The first-message boundary of the extension (\<open>browser-extension/src/bootstrap-fence.ts\<close>):
  a pure evaluation of a proposed transition. \<open>new URL\<close> is the platform's and a
  parameter.
\<close>

section \<open>Constants, states and codes\<close>

definition BOOTSTRAP_PROTOCOL_VERSION :: int where "BOOTSTRAP_PROTOCOL_VERSION = 1"

definition BOOTSTRAP_OBSERVATION_MAX_AGE_MS :: int where "BOOTSTRAP_OBSERVATION_MAX_AGE_MS = 10000"

definition BOOTSTRAP_CLOCK_SKEW_MS :: int where "BOOTSTRAP_CLOCK_SKEW_MS = 2000"

datatype bootstrap_state =
    UNAUTHORIZED | AUTHORIZED_PREPARE | FENCED_READY_TO_SEND | FENCED_MAY_HAVE_SENT
  | CONFIRMED_NEW_CONVERSATION | DELIVERY_UNCERTAIN | BLOCKED

datatype bootstrap_event =
    PREPARE | VERIFY_FENCE_COMMIT | CONFIRM_NEW_CONVERSATION | MARK_DELIVERY_UNCERTAIN | RECOVER_AFTER_RESTART

datatype delivery_knowledge = NOT_SENT | MAY_HAVE_SENT | CONFIRMED | UNCERTAIN

datatype chat_ui_state = NEW_CHAT_LANDING | THREAD | BUSY | AUTH_REQUIRED | UNKNOWN

definition bootstrap_states :: "(string \<times> bootstrap_state) list" where
  "bootstrap_states = [(''UNAUTHORIZED'', UNAUTHORIZED), (''AUTHORIZED_PREPARE'', AUTHORIZED_PREPARE),
     (''FENCED_READY_TO_SEND'', FENCED_READY_TO_SEND), (''FENCED_MAY_HAVE_SENT'', FENCED_MAY_HAVE_SENT),
     (''CONFIRMED_NEW_CONVERSATION'', CONFIRMED_NEW_CONVERSATION), (''DELIVERY_UNCERTAIN'', DELIVERY_UNCERTAIN),
     (''BLOCKED'', BLOCKED)]"

definition bootstrap_events :: "(string \<times> bootstrap_event) list" where
  "bootstrap_events = [(''PREPARE'', PREPARE), (''VERIFY_FENCE_COMMIT'', VERIFY_FENCE_COMMIT),
     (''CONFIRM_NEW_CONVERSATION'', CONFIRM_NEW_CONVERSATION),
     (''MARK_DELIVERY_UNCERTAIN'', MARK_DELIVERY_UNCERTAIN), (''RECOVER_AFTER_RESTART'', RECOVER_AFTER_RESTART)]"

definition delivery_knowledges :: "(string \<times> delivery_knowledge) list" where
  "delivery_knowledges = [(''NOT_SENT'', NOT_SENT), (''MAY_HAVE_SENT'', MAY_HAVE_SENT),
     (''CONFIRMED'', CONFIRMED), (''UNCERTAIN'', UNCERTAIN)]"

definition chat_ui_states :: "(string \<times> chat_ui_state) list" where
  "chat_ui_states = [(''NEW_CHAT_LANDING'', NEW_CHAT_LANDING), (''THREAD'', THREAD), (''BUSY'', BUSY),
     (''AUTH_REQUIRED'', AUTH_REQUIRED), (''UNKNOWN'', UNKNOWN)]"

datatype bootstrap_code =
    INVALID_INPUT | GITHUB_ASSIGNMENT_CONFLICT | GITHUB_HEAD_CHANGED | PR_NOT_RUNNABLE
  | ATTEMPT_NOT_AUTHORIZED | PREVIOUS_ATTEMPT_UNRESOLVED | PRIOR_HISTORY_INVALID | ATTEMPT_STATE_CONFLICT
  | DURABLE_FENCE_REQUIRED | FENCE_INVALID | FENCE_REPLAY_OR_WRONG_EXECUTION | BROWSER_TARGET_CONFLICT
  | CHATGPT_AUTH_REQUIRED | CHATGPT_BUSY | CHATGPT_UI_UNAVAILABLE | OBSERVATION_STALE
  | FIRST_MESSAGE_RECEIPT_INVALID | CONVERSATION_ID_REUSED | FENCE_CANDIDATE | PREPARE_CANDIDATE
  | FIRST_SEND_CAS_CANDIDATE | NEW_CONVERSATION_CANDIDATE | CODE_DELIVERY_UNCERTAIN
  | SAFE_TO_REEVALUATE_PREPARE | ATTEMPT_TERMINAL

text \<open>A result: its decision, its state and its code. The authority of every result is \<open>NONE\<close>.\<close>

datatype bootstrap_result = Blocked bootstrap_state bootstrap_code | Candidate bootstrap_state bootstrap_code

section \<open>The checks\<close>

definition request_of :: "jsval \<Rightarrow> jsval" where "request_of i = js_get i ''request''"

definition github_of :: "jsval \<Rightarrow> jsval" where "github_of i = js_get i ''github''"

definition browser_of :: "jsval \<Rightarrow> jsval" where "browser_of i = js_get i ''browser''"

definition page_of :: "jsval \<Rightarrow> jsval" where "page_of i = js_get (browser_of i) ''current''"

definition targetMatchesRequest :: "jsval \<Rightarrow> bool" where
  "targetMatchesRequest i =
     (let rq = request_of i; browser = browser_of i; page = page_of i in
      js_get browser ''profileIsolated'' = JBool True \<and> js_get browser ''sharedWritableProfile'' = JBool False \<and>
      js_eq (js_get browser ''matchingWritableTargetCount'') (JInt 1) \<and>
      js_eq (js_get browser ''ownedTargetId'') (js_get rq ''targetId'') \<and>
      js_eq (js_get browser ''ownedProfileId'') (js_get rq ''profileId'') \<and>
      js_eq (js_get browser ''ownedTargetTabId'') (js_get rq ''targetTabId'') \<and>
      js_eq (js_get page ''targetId'') (js_get rq ''targetId'') \<and>
      js_eq (js_get page ''profileId'') (js_get rq ''profileId'') \<and>
      js_eq (js_get page ''tabId'') (js_get rq ''targetTabId''))"

definition now_of :: "jsval \<Rightarrow> int option" where "now_of i = validIsoUtc (js_get i ''nowIso'')"

definition currentPageIsFresh :: "jsval \<Rightarrow> bool" where
  "currentPageIsFresh i =
     (case (now_of i, validIsoUtc (js_get (page_of i) ''observedAt'')) of
        (Some now, Some observed) \<Rightarrow> observed \<le> now + BOOTSTRAP_CLOCK_SKEW_MS \<and>
          now - observed \<le> BOOTSTRAP_OBSERVATION_MAX_AGE_MS
      | _ \<Rightarrow> False)"

definition ui_of :: "jsval \<Rightarrow> chat_ui_state option" where
  "ui_of page = one_of chat_ui_states (js_get page ''uiState'')"

definition landingPageReady :: "jsval \<Rightarrow> bootstrap_code option" where
  "landingPageReady i =
     (let page = page_of i in
      if ui_of page = Some AUTH_REQUIRED then Some CHATGPT_AUTH_REQUIRED
      else if ui_of page = Some BUSY \<or> truthy (js_get page ''turnBusy'') then Some CHATGPT_BUSY
      else if \<not> currentPageIsFresh i then Some OBSERVATION_STALE
      else if ui_of page \<noteq> Some NEW_CHAT_LANDING \<or> js_get page ''url'' \<noteq> JStr CHATGPT_LANDING \<or>
         \<not> truthy (js_get page ''visible'') \<or> \<not> truthy (js_get page ''composerAvailable'') then
        Some CHATGPT_UI_UNAVAILABLE
      else None)"

definition threadPageReady :: "url_parser \<Rightarrow> jsval \<Rightarrow> bootstrap_code option" where
  "threadPageReady parse i =
     (let page = page_of i in
      if ui_of page = Some AUTH_REQUIRED then Some CHATGPT_AUTH_REQUIRED
      else if ui_of page = Some BUSY \<or> truthy (js_get page ''turnBusy'') then Some CHATGPT_BUSY
      else if \<not> currentPageIsFresh i then Some OBSERVATION_STALE
      else if \<not> truthy (js_get page ''visible'') \<or> \<not> truthy (js_get page ''composerAvailable'') \<or>
         ui_of page \<noteq> Some THREAD \<or> conversationIdFromUrl parse (str_or_empty (js_get page ''url'')) = None then
        Some CHATGPT_UI_UNAVAILABLE
      else None)"

definition BOUND_FIELDS :: "string list" where
  "BOUND_FIELDS = [''attemptId'', ''workerId'', ''headSha'', ''targetId'', ''profileId'', ''targetTabId'', ''executionId'']"

definition validFence :: "jsval \<Rightarrow> bool" where
  "validFence i =
     (let fence = js_get (github_of i) ''fence'' in
      is_reference fence \<and> js_get fence ''durable'' = JBool True \<and>
      str_re identifier_re (js_get fence ''fenceId'') \<and> str_re sha_re (js_get fence ''commitSha'') \<and>
      same_fields BOUND_FIELDS fence (request_of i) \<and> js_eq (js_get fence ''generation'') (JInt 1) \<and>
      (case (validIsoUtc (js_get (github_of i) ''attemptAuthorizedAt''), validIsoUtc (js_get fence ''committedAt'')) of
         (Some authorizedAt, Some committedAt) \<Rightarrow> authorizedAt - BOOTSTRAP_CLOCK_SKEW_MS \<le> committedAt
       | _ \<Rightarrow> False))"

definition validateFenceCommitReceipt :: "jsval \<Rightarrow> bool" where
  "validateFenceCommitReceipt i =
     (let receipt = js_get (browser_of i) ''fenceCommitReceipt''; fence = js_get (github_of i) ''fence'' in
      is_reference receipt \<and> is_reference fence \<and>
      js_get receipt ''event'' = JStr ''FENCE_COMMIT_RETURNED'' \<and>
      same_fields [''fenceId'', ''commitSha''] receipt fence \<and> same_fields BOUND_FIELDS receipt (request_of i) \<and>
      (case (validIsoUtc (js_get receipt ''observedAt''), validIsoUtc (js_get fence ''committedAt''), now_of i) of
         (Some receiptAt, Some committedAt, Some now) \<Rightarrow> committedAt \<le> receiptAt \<and>
           receiptAt \<le> now + BOOTSTRAP_CLOCK_SKEW_MS \<and> now - receiptAt \<le> BOOTSTRAP_OBSERVATION_MAX_AGE_MS
       | _ \<Rightarrow> False))"

definition validSendClaim :: "jsval \<Rightarrow> bool" where
  "validSendClaim i =
     (let sendClaim = js_get (github_of i) ''sendClaim''; fence = js_get (github_of i) ''fence'' in
      is_reference sendClaim \<and> is_reference fence \<and> js_get sendClaim ''durable'' = JBool True \<and>
      str_re identifier_re (js_get sendClaim ''claimId'') \<and> str_re sha_re (js_get sendClaim ''commitSha'') \<and>
      str_re identifier_re (js_get sendClaim ''fenceId'') \<and> str_re sha_re (js_get sendClaim ''fenceCommitSha'') \<and>
      js_eq (js_get sendClaim ''fenceId'') (js_get fence ''fenceId'') \<and>
      js_eq (js_get sendClaim ''fenceCommitSha'') (js_get fence ''commitSha'') \<and>
      same_fields BOUND_FIELDS sendClaim (request_of i) \<and> js_eq (js_get sendClaim ''generation'') (JInt 1) \<and>
      (case (validIsoUtc (js_get sendClaim ''claimedAt''), validIsoUtc (js_get fence ''committedAt''), now_of i) of
         (Some claimedAt, Some committedAt, Some now) \<Rightarrow> committedAt \<le> claimedAt \<and>
           claimedAt \<le> now + BOOTSTRAP_CLOCK_SKEW_MS
       | _ \<Rightarrow> False))"

section \<open>The evaluation\<close>

definition valid_request :: "jsval \<Rightarrow> bool" where
  "valid_request rq \<longleftrightarrow>
     js_eq (js_get rq ''protocolVersion'') (JInt BOOTSTRAP_PROTOCOL_VERSION) \<and>
     str_re repository_re (js_get rq ''repository'') \<and> str_re worker_id_re (js_get rq ''workerId'') \<and>
     safe_at_least 1 (js_get rq ''prNumber'') \<and> str_re sha_re (js_get rq ''headSha'') \<and>
     str_re attempt_id_re (js_get rq ''attemptId'') \<and> str_re attempt_id_re (js_get rq ''executionId'') \<and>
     one_of bootstrap_events (js_get rq ''event'') \<noteq> None \<and>
     str_re identifier_re (js_get rq ''targetId'') \<and> str_re identifier_re (js_get rq ''profileId'') \<and>
     safe_at_least 0 (js_get rq ''targetTabId'')"

definition valid_github :: "jsval \<Rightarrow> bool" where
  "valid_github github \<longleftrightarrow>
     is_JStr (js_get github ''repository'') \<and> is_number (js_get github ''prNumber'') \<and>
     str_re sha_re (js_get github ''currentHeadSha'') \<and> is_JStr (js_get github ''assignedWorkerId'') \<and>
     is_number (js_get github ''workerOpenPrAssignments'') \<and> is_number (js_get github ''prAssignedWorkerCount'') \<and>
     is_JBool (js_get github ''prOpen'') \<and> is_JStr (js_get github ''currentAttemptId'') \<and>
     one_of bootstrap_states (js_get github ''state'') \<noteq> None \<and>
     is_JBool (js_get github ''previousAttemptResolved'') \<and>
     one_of delivery_knowledges (js_get github ''deliveryKnowledge'') \<noteq> None \<and>
     (js_get github ''previousConversationId'' = JNull \<or> str_re identifier_re (js_get github ''previousConversationId'')) \<and>
     is_JStr (js_get github ''attemptAuthorizedAt'')"

definition valid_browser :: "jsval \<Rightarrow> bool" where
  "valid_browser browser \<longleftrightarrow>
     (let page = js_get browser ''current'' in
      is_JStr (js_get browser ''ownedTargetId'') \<and> is_JStr (js_get browser ''ownedProfileId'') \<and>
      safe_at_least 0 (js_get browser ''ownedTargetTabId'') \<and>
      is_safe_integer (js_get browser ''matchingWritableTargetCount'') \<and>
      is_JBool (js_get browser ''profileIsolated'') \<and> is_JBool (js_get browser ''sharedWritableProfile'') \<and>
      is_JStr (js_get page ''targetId'') \<and> is_JStr (js_get page ''profileId'') \<and>
      safe_at_least 0 (js_get page ''tabId'') \<and>
      is_JStr (js_get page ''observedAt'') \<and> is_JStr (js_get page ''url'') \<and> ui_of page \<noteq> None \<and>
      is_JBool (js_get page ''visible'') \<and> is_JBool (js_get page ''composerAvailable'') \<and>
      is_JBool (js_get page ''turnBusy''))"

definition valid_input :: "jsval \<Rightarrow> bool" where
  "valid_input i \<longleftrightarrow> is_object i \<and>
     truthy (request_of i) \<and> truthy (github_of i) \<and> truthy (browser_of i) \<and> truthy (page_of i) \<and>
     valid_request (request_of i) \<and> valid_github (github_of i) \<and> valid_browser (browser_of i) \<and>
     is_JStr (js_get i ''nowIso'')"

definition prior_ids :: "jsval \<Rightarrow> jsval list" where
  "prior_ids i = the_arr (js_get (github_of i) ''priorConversationIds'')"

text \<open>The refusals that do not depend on the attempt's state.\<close>

definition assignment_refusal :: "jsval \<Rightarrow> bootstrap_code option" where
  "assignment_refusal i =
     (let rq = request_of i; github = github_of i in
      if \<not> js_eq (js_get github ''repository'') (js_get rq ''repository'') \<or>
         \<not> js_eq (js_get github ''prNumber'') (js_get rq ''prNumber'') \<or>
         \<not> js_eq (js_get github ''assignedWorkerId'') (js_get rq ''workerId'') \<or>
         js_get github ''workerOpenPrAssignments'' \<noteq> JInt 1 \<or> js_get github ''prAssignedWorkerCount'' \<noteq> JInt 1
      then Some GITHUB_ASSIGNMENT_CONFLICT
      else if \<not> js_eq (js_get github ''currentHeadSha'') (js_get rq ''headSha'') then Some GITHUB_HEAD_CHANGED
      else if \<not> truthy (js_get github ''prOpen'') then Some PR_NOT_RUNNABLE
      else if \<not> js_eq (js_get github ''currentAttemptId'') (js_get rq ''attemptId'') then Some ATTEMPT_NOT_AUTHORIZED
      else if \<not> truthy (js_get github ''previousAttemptResolved'') then Some PREVIOUS_ATTEMPT_UNRESOLVED
      else if \<not> denseValidHistory (js_get github ''priorConversationIds'') \<or>
         (js_get github ''previousConversationId'' \<noteq> JNull \<and> js_get github ''previousConversationId'' \<notin> set (prior_ids i))
      then Some PRIOR_HISTORY_INVALID
      else if validIsoUtc (js_get github ''attemptAuthorizedAt'') = None then Some INVALID_INPUT
      else None)"

definition state_of :: "jsval \<Rightarrow> bootstrap_state" where
  "state_of i = (case one_of bootstrap_states (js_get (github_of i) ''state'') of Some st \<Rightarrow> st | None \<Rightarrow> BLOCKED)"

definition knowledge_of :: "jsval \<Rightarrow> delivery_knowledge" where
  "knowledge_of i = (case one_of delivery_knowledges (js_get (github_of i) ''deliveryKnowledge'') of
     Some k \<Rightarrow> k | None \<Rightarrow> UNCERTAIN)"

definition has_fence :: "jsval \<Rightarrow> bool" where
  "has_fence i \<longleftrightarrow> js_get (github_of i) ''fence'' \<noteq> JUndef"

definition has_claim :: "jsval \<Rightarrow> bool" where
  "has_claim i \<longleftrightarrow> js_get (github_of i) ''sendClaim'' \<noteq> JUndef"

definition evaluate_recovery :: "jsval \<Rightarrow> bootstrap_result" where
  "evaluate_recovery i =
     (if state_of i = FENCED_MAY_HAVE_SENT \<or> state_of i = DELIVERY_UNCERTAIN \<or>
         knowledge_of i = MAY_HAVE_SENT \<or> knowledge_of i = UNCERTAIN then Blocked DELIVERY_UNCERTAIN CODE_DELIVERY_UNCERTAIN
      else if state_of i = AUTHORIZED_PREPARE \<and> knowledge_of i = NOT_SENT \<and> \<not> has_fence i then
        Candidate AUTHORIZED_PREPARE SAFE_TO_REEVALUATE_PREPARE
      else Blocked (state_of i) ATTEMPT_TERMINAL)"

text \<open>The refusals that depend on the state and on what is known of the delivery.\<close>

definition attempt_refusal :: "bootstrap_event \<Rightarrow> jsval \<Rightarrow> bootstrap_result option" where
  "attempt_refusal ev i =
     (let st = state_of i; k = knowledge_of i in
      if st = UNAUTHORIZED then Some (Blocked BLOCKED ATTEMPT_NOT_AUTHORIZED)
      else if st = BLOCKED then Some (Blocked BLOCKED ATTEMPT_TERMINAL)
      else if st = CONFIRMED_NEW_CONVERSATION \<or> k = CONFIRMED then Some (Blocked CONFIRMED_NEW_CONVERSATION ATTEMPT_TERMINAL)
      else if st = DELIVERY_UNCERTAIN \<or> k = UNCERTAIN then Some (Blocked DELIVERY_UNCERTAIN CODE_DELIVERY_UNCERTAIN)
      else if (st = FENCED_MAY_HAVE_SENT \<or> k = MAY_HAVE_SENT) \<and>
        (st \<noteq> FENCED_MAY_HAVE_SENT \<or> k \<noteq> MAY_HAVE_SENT \<or> ev \<noteq> CONFIRM_NEW_CONVERSATION)
      then Some (Blocked DELIVERY_UNCERTAIN CODE_DELIVERY_UNCERTAIN)
      else if st = FENCED_READY_TO_SEND \<and> k \<noteq> NOT_SENT then Some (Blocked st ATTEMPT_STATE_CONFLICT)
      else if \<not> targetMatchesRequest i then Some (Blocked BLOCKED BROWSER_TARGET_CONFLICT)
      else None)"

definition evaluate_prepare :: "jsval \<Rightarrow> bootstrap_result" where
  "evaluate_prepare i =
     (let st = state_of i in
      if st \<noteq> AUTHORIZED_PREPARE \<or> knowledge_of i \<noteq> NOT_SENT then
        Blocked st (if st = FENCED_MAY_HAVE_SENT then FENCE_REPLAY_OR_WRONG_EXECUTION else ATTEMPT_STATE_CONFLICT)
      else if has_fence i then Blocked st ATTEMPT_STATE_CONFLICT
      else case landingPageReady i of Some e \<Rightarrow> Blocked st e
      | None \<Rightarrow> Candidate AUTHORIZED_PREPARE PREPARE_CANDIDATE)"

definition evaluate_verify :: "jsval \<Rightarrow> bootstrap_result" where
  "evaluate_verify i =
     (let st = state_of i; k = knowledge_of i; maybe_sent = (st = FENCED_MAY_HAVE_SENT \<or> k = MAY_HAVE_SENT) in
      if st \<noteq> FENCED_READY_TO_SEND \<or> k \<noteq> NOT_SENT then
        Blocked (if maybe_sent then DELIVERY_UNCERTAIN else st)
          (if st = AUTHORIZED_PREPARE then DURABLE_FENCE_REQUIRED
           else if maybe_sent then CODE_DELIVERY_UNCERTAIN else ATTEMPT_STATE_CONFLICT)
      else if has_claim i then Blocked st FENCE_REPLAY_OR_WRONG_EXECUTION
      else if \<not> validFence i then Blocked st FENCE_INVALID
      else if \<not> validateFenceCommitReceipt i then Blocked st FENCE_REPLAY_OR_WRONG_EXECUTION
      else case landingPageReady i of Some e \<Rightarrow> Blocked st e
      | None \<Rightarrow> Candidate FENCED_READY_TO_SEND FIRST_SEND_CAS_CANDIDATE)"

definition conversation_receipt_ok :: "url_parser \<Rightarrow> jsval \<Rightarrow> bool" where
  "conversation_receipt_ok parse i =
     (let rq = request_of i; page = page_of i; receipt = js_get (browser_of i) ''firstMessageReceipt'';
          fence = js_get (github_of i) ''fence''; sendClaim = js_get (github_of i) ''sendClaim'';
          sentAt = validIsoUtc (js_get receipt ''sendStartedAt''); confirmedAt = validIsoUtc (js_get receipt ''confirmedAt'');
          conversationId = conversationIdFromUrl parse (str_or_empty (js_get page ''url''));
          afterId = (if is_JStr (js_get receipt ''afterUrl'')
                     then conversationIdFromUrl parse (str_or_empty (js_get receipt ''afterUrl'')) else None) in
      truthy receipt \<and> js_get receipt ''event'' = JStr ''FIRST_MESSAGE_CREATED_CONVERSATION'' \<and>
      same_fields [''attemptId'', ''workerId'', ''headSha'', ''targetId'', ''profileId'', ''targetTabId''] receipt rq \<and>
      js_eq (js_get receipt ''fenceId'') (js_get fence ''fenceId'') \<and>
      js_eq (js_get receipt ''fenceCommitSha'') (js_get fence ''commitSha'') \<and>
      js_eq (js_get receipt ''sendClaimId'') (js_get sendClaim ''claimId'') \<and>
      js_eq (js_get receipt ''sendClaimCommitSha'') (js_get sendClaim ''commitSha'') \<and>
      js_get receipt ''beforeUrl'' = JStr CHATGPT_LANDING \<and>
      (case conversationId of None \<Rightarrow> False
       | Some c \<Rightarrow> afterId = Some c \<and> js_get receipt ''conversationId'' = JStr c \<and> JStr c \<notin> set (prior_ids i)) \<and>
      \<not> falsy_time sentAt \<and> \<not> falsy_time confirmedAt \<and>
      (case (sentAt, confirmedAt, now_of i, validIsoUtc (js_get page ''observedAt''), validIsoUtc (js_get sendClaim ''claimedAt'')) of
         (Some sent, Some confirmed, Some now, Some observed, Some claimed) \<Rightarrow>
           claimed \<le> sent \<and> sent \<le> confirmed \<and> confirmed \<le> observed + BOOTSTRAP_CLOCK_SKEW_MS \<and>
           confirmed \<le> now + BOOTSTRAP_CLOCK_SKEW_MS
       | _ \<Rightarrow> False))"

definition evaluate_confirm :: "url_parser \<Rightarrow> jsval \<Rightarrow> bootstrap_result" where
  "evaluate_confirm parse i =
     (let st = state_of i; cid = js_get (js_get (browser_of i) ''firstMessageReceipt'') ''conversationId'' in
      if st \<noteq> FENCED_MAY_HAVE_SENT \<or> knowledge_of i \<noteq> MAY_HAVE_SENT then
        Blocked st (if st = AUTHORIZED_PREPARE then DURABLE_FENCE_REQUIRED else ATTEMPT_STATE_CONFLICT)
      else if \<not> validFence i then Blocked st FENCE_INVALID
      else if \<not> validSendClaim i then Blocked DELIVERY_UNCERTAIN CODE_DELIVERY_UNCERTAIN
      else case threadPageReady parse i of Some e \<Rightarrow> Blocked st e
      | None \<Rightarrow>
          if conversation_receipt_ok parse i then Candidate CONFIRMED_NEW_CONVERSATION NEW_CONVERSATION_CANDIDATE
          else Blocked st (if JStr (str_or_empty cid) \<in> set (prior_ids i) then CONVERSATION_ID_REUSED
                           else FIRST_MESSAGE_RECEIPT_INVALID))"

definition evaluate_mark :: "jsval \<Rightarrow> bootstrap_result" where
  "evaluate_mark i =
     (if state_of i = FENCED_MAY_HAVE_SENT \<and> knowledge_of i = MAY_HAVE_SENT then
        Blocked DELIVERY_UNCERTAIN CODE_DELIVERY_UNCERTAIN
      else Blocked (state_of i) (if state_of i = AUTHORIZED_PREPARE then DURABLE_FENCE_REQUIRED else ATTEMPT_STATE_CONFLICT))"

definition evaluateBootstrapFence :: "url_parser \<Rightarrow> jsval \<Rightarrow> bootstrap_result" where
  "evaluateBootstrapFence parse i =
     (if \<not> valid_input i then Blocked BLOCKED INVALID_INPUT
      else case assignment_refusal i of Some e \<Rightarrow> Blocked BLOCKED e
      | None \<Rightarrow>
          if has_claim i \<and> state_of i \<noteq> FENCED_MAY_HAVE_SENT then Blocked (state_of i) FENCE_REPLAY_OR_WRONG_EXECUTION
          else case one_of bootstrap_events (js_get (request_of i) ''event'') of
            None \<Rightarrow> Blocked BLOCKED INVALID_INPUT
          | Some RECOVER_AFTER_RESTART \<Rightarrow> evaluate_recovery i
          | Some ev \<Rightarrow>
              (case attempt_refusal ev i of Some r \<Rightarrow> r
               | None \<Rightarrow>
                   (case ev of PREPARE \<Rightarrow> evaluate_prepare i
                    | VERIFY_FENCE_COMMIT \<Rightarrow> evaluate_verify i
                    | CONFIRM_NEW_CONVERSATION \<Rightarrow> evaluate_confirm parse i
                    | MARK_DELIVERY_UNCERTAIN \<Rightarrow> evaluate_mark i
                    | RECOVER_AFTER_RESTART \<Rightarrow> evaluate_recovery i)))"

section \<open>What a candidate proves\<close>

lemma attempt_refusal_None:
  assumes "attempt_refusal ev i = None"
  shows "targetMatchesRequest i \<and> state_of i \<in> {AUTHORIZED_PREPARE, FENCED_READY_TO_SEND, FENCED_MAY_HAVE_SENT} \<and>
    (state_of i = FENCED_MAY_HAVE_SENT \<longrightarrow> knowledge_of i = MAY_HAVE_SENT \<and> ev = CONFIRM_NEW_CONVERSATION) \<and>
    (state_of i \<noteq> FENCED_MAY_HAVE_SENT \<longrightarrow> knowledge_of i = NOT_SENT)"
proof -
  obtain st k where st: "state_of i = st" and k: "knowledge_of i = k" by simp
  show ?thesis
    using assms unfolding attempt_refusal_def Let_def st k
    by (cases st; cases k) (auto split: if_splits)
qed

lemma attempt_refusal_blocked: "attempt_refusal ev i = Some r \<Longrightarrow> \<exists>st c. r = Blocked st c"
  by (auto simp: attempt_refusal_def Let_def split: if_splits)

lemma candidate_context:
  assumes "evaluateBootstrapFence parse i = Candidate st c"
  shows "valid_input i \<and> assignment_refusal i = None \<and> (has_claim i \<longrightarrow> state_of i = FENCED_MAY_HAVE_SENT)"
  using assms by (auto simp: evaluateBootstrapFence_def split: if_splits option.splits)

text \<open>The four ways to a candidate, one for each event that has one.\<close>

lemma candidate_cases:
  assumes "evaluateBootstrapFence parse i = Candidate st c"
  obtains "one_of bootstrap_events (js_get (request_of i) ''event'') = Some RECOVER_AFTER_RESTART"
      "evaluate_recovery i = Candidate st c"
  | "one_of bootstrap_events (js_get (request_of i) ''event'') = Some PREPARE" "attempt_refusal PREPARE i = None"
      "evaluate_prepare i = Candidate st c"
  | "one_of bootstrap_events (js_get (request_of i) ''event'') = Some VERIFY_FENCE_COMMIT"
      "attempt_refusal VERIFY_FENCE_COMMIT i = None" "evaluate_verify i = Candidate st c"
  | "one_of bootstrap_events (js_get (request_of i) ''event'') = Some CONFIRM_NEW_CONVERSATION"
      "attempt_refusal CONFIRM_NEW_CONVERSATION i = None" "evaluate_confirm parse i = Candidate st c"
proof -
  have mark: "evaluate_mark i \<noteq> Candidate st c" by (simp add: evaluate_mark_def)
  obtain ev where ev: "one_of bootstrap_events (js_get (request_of i) ''event'') = Some ev"
    using assms by (auto simp: evaluateBootstrapFence_def split: if_splits option.splits)
  have main: "(if ev = RECOVER_AFTER_RESTART then evaluate_recovery i
     else case attempt_refusal ev i of Some r \<Rightarrow> r
       | None \<Rightarrow> (case ev of PREPARE \<Rightarrow> evaluate_prepare i | VERIFY_FENCE_COMMIT \<Rightarrow> evaluate_verify i
                | CONFIRM_NEW_CONVERSATION \<Rightarrow> evaluate_confirm parse i | MARK_DELIVERY_UNCERTAIN \<Rightarrow> evaluate_mark i
                | RECOVER_AFTER_RESTART \<Rightarrow> evaluate_recovery i)) = Candidate st c"
    using assms by (cases ev) (auto simp: evaluateBootstrapFence_def ev split: if_splits option.splits)
  show ?thesis
    by (cases ev; cases "attempt_refusal ev i")
      (use main ev that mark attempt_refusal_blocked [of ev i] in \<open>auto\<close>)
qed

lemma landing_ready:
  "landingPageReady i = None \<Longrightarrow> currentPageIsFresh i \<and> js_get (page_of i) ''url'' = JStr CHATGPT_LANDING"
  by (auto simp: landingPageReady_def Let_def split: if_splits)

text \<open>C16: a send is proposed only for an unclaimed, bound fence. The first-send candidate needs a
  durable fence that names the attempt, worker, head, target, profile, tab and execution of the
  request, committed no earlier than the attempt was authorised; no send claim; a receipt of the
  fence's commit that is at most ten seconds old; exactly one writable target; and a fresh
  observation of the empty landing page.\<close>

theorem first_send_needs_unclaimed_fence:
  assumes "evaluateBootstrapFence parse i = Candidate st FIRST_SEND_CAS_CANDIDATE"
  shows "one_of bootstrap_events (js_get (request_of i) ''event'') = Some VERIFY_FENCE_COMMIT \<and>
    st = FENCED_READY_TO_SEND \<and> state_of i = FENCED_READY_TO_SEND \<and> knowledge_of i = NOT_SENT \<and>
    \<not> has_claim i \<and> validFence i \<and> validateFenceCommitReceipt i \<and>
    (\<forall>k \<in> set BOUND_FIELDS. js_get (js_get (github_of i) ''fence'') k = js_get (request_of i) k) \<and>
    js_get (browser_of i) ''matchingWritableTargetCount'' = JInt 1 \<and>
    js_get (page_of i) ''url'' = JStr CHATGPT_LANDING \<and>
    (\<exists>now observed receiptAt committedAt authorizedAt. now_of i = Some now \<and>
       validIsoUtc (js_get (page_of i) ''observedAt'') = Some observed \<and> \<bar>now - observed\<bar> \<le> 10000 \<and>
       validIsoUtc (js_get (js_get (browser_of i) ''fenceCommitReceipt'') ''observedAt'') = Some receiptAt \<and>
       now - receiptAt \<le> 10000 \<and> committedAt \<le> receiptAt \<and>
       validIsoUtc (js_get (js_get (github_of i) ''fence'') ''committedAt'') = Some committedAt \<and>
       validIsoUtc (js_get (github_of i) ''attemptAuthorizedAt'') = Some authorizedAt \<and>
       authorizedAt - 2000 \<le> committedAt)"
  using assms
proof (cases rule: candidate_cases)
  case 3
  then have v: "st = FENCED_READY_TO_SEND" "state_of i = FENCED_READY_TO_SEND" "knowledge_of i = NOT_SENT"
      "\<not> has_claim i" "validFence i" "validateFenceCommitReceipt i" "landingPageReady i = None"
    by (auto simp: evaluate_verify_def Let_def split: if_splits option.splits)
  note page = landing_ready [OF v(7)]
  have target: "js_get (browser_of i) ''matchingWritableTargetCount'' = JInt 1"
    using attempt_refusal_None [OF 3(2)] by (simp add: targetMatchesRequest_def Let_def)
  have bound: "\<forall>k \<in> set BOUND_FIELDS. js_get (js_get (github_of i) ''fence'') k = js_get (request_of i) k"
    using v(5) by (auto simp: validFence_def Let_def same_fields_def list_all_iff dest: js_eq_eq)
  have "\<exists>now observed receiptAt committedAt authorizedAt. now_of i = Some now \<and>
       validIsoUtc (js_get (page_of i) ''observedAt'') = Some observed \<and> \<bar>now - observed\<bar> \<le> 10000 \<and>
       validIsoUtc (js_get (js_get (browser_of i) ''fenceCommitReceipt'') ''observedAt'') = Some receiptAt \<and>
       now - receiptAt \<le> 10000 \<and> committedAt \<le> receiptAt \<and>
       validIsoUtc (js_get (js_get (github_of i) ''fence'') ''committedAt'') = Some committedAt \<and>
       validIsoUtc (js_get (github_of i) ''attemptAuthorizedAt'') = Some authorizedAt \<and>
       authorizedAt - 2000 \<le> committedAt"
    using v(5,6) page unfolding validFence_def validateFenceCommitReceipt_def currentPageIsFresh_def Let_def
      BOOTSTRAP_CLOCK_SKEW_MS_def BOOTSTRAP_OBSERVATION_MAX_AGE_MS_def
    by (auto split: option.splits)
  then show ?thesis using v(1-6) page target bound 3(1) by blast
qed (auto simp: evaluate_recovery_def evaluate_prepare_def evaluate_confirm_def Let_def split: if_splits option.splits)

text \<open>C17: a claimed attempt is never sent again. Once the observation has a send claim, whatever its
  value, or the state or the delivery knowledge says that a send may have happened, no event
  gets a candidate to prepare, to send or to start over; the only candidate left is the
  confirmation of a new conversation, which needs a valid claim and fence for this request, and
  a conversation that is the one of the page and of the receipt and not a prior one.\<close>

theorem claimed_attempt_never_resends:
  assumes "has_claim i \<or> state_of i = FENCED_MAY_HAVE_SENT \<or> knowledge_of i \<noteq> NOT_SENT"
  shows "case evaluateBootstrapFence parse i of
      Blocked _ _ \<Rightarrow> True
    | Candidate st c \<Rightarrow> c = NEW_CONVERSATION_CANDIDATE \<and> st = CONFIRMED_NEW_CONVERSATION \<and>
        state_of i = FENCED_MAY_HAVE_SENT \<and> validFence i \<and> validSendClaim i \<and>
        (\<exists>cid. conversationIdFromUrl parse (str_or_empty (js_get (page_of i) ''url'')) = Some cid \<and>
           js_get (js_get (browser_of i) ''firstMessageReceipt'') ''conversationId'' = JStr cid \<and>
           JStr cid \<notin> set (prior_ids i))"
proof (cases "evaluateBootstrapFence parse i")
  case (Candidate st c)
  note ctx = candidate_context [OF Candidate]
  have "c = NEW_CONVERSATION_CANDIDATE \<and> st = CONFIRMED_NEW_CONVERSATION \<and>
        state_of i = FENCED_MAY_HAVE_SENT \<and> validFence i \<and> validSendClaim i \<and> conversation_receipt_ok parse i"
    using Candidate
  proof (cases rule: candidate_cases)
    case 1
    then show ?thesis using assms ctx by (auto simp: evaluate_recovery_def split: if_splits)
  next
    case 2
    then show ?thesis using assms ctx by (auto simp: evaluate_prepare_def Let_def split: if_splits option.splits)
  next
    case 3
    then show ?thesis using assms ctx by (auto simp: evaluate_verify_def Let_def split: if_splits option.splits)
  next
    case 4
    then show ?thesis by (auto simp: evaluate_confirm_def Let_def split: if_splits option.splits)
  qed
  moreover from this have "\<exists>cid. conversationIdFromUrl parse (str_or_empty (js_get (page_of i) ''url'')) = Some cid \<and>
           js_get (js_get (browser_of i) ''firstMessageReceipt'') ''conversationId'' = JStr cid \<and>
           JStr cid \<notin> set (prior_ids i)"
    unfolding conversation_receipt_ok_def Let_def by (auto split: option.splits)
  ultimately show ?thesis by (simp add: Candidate)
qed simp

section \<open>Samples\<close>

definition sample_boot_request :: "string \<Rightarrow> jsval" where
  "sample_boot_request ev = JObj [(''protocolVersion'', JInt 1), (''repository'', JStr ''jan2xo/bke-worker''),
     (''workerId'', JStr ''bke-13''), (''prNumber'', JInt 7), (''headSha'', JStr (replicate 40 CHR ''a'')),
     (''attemptId'', JStr ''attempt-1''), (''executionId'', JStr ''exec-1''), (''event'', JStr ev),
     (''targetId'', JStr ''target_1''), (''profileId'', JStr ''profile1''), (''targetTabId'', JInt 3)]"

definition sample_bound :: "(string \<times> jsval) list" where
  "sample_bound = [(''attemptId'', JStr ''attempt-1''), (''workerId'', JStr ''bke-13''),
     (''headSha'', JStr (replicate 40 CHR ''a'')), (''targetId'', JStr ''target_1''), (''profileId'', JStr ''profile1''),
     (''targetTabId'', JInt 3), (''executionId'', JStr ''exec-1'')]"

definition sample_fence :: jsval where
  "sample_fence = JObj ([(''durable'', JBool True), (''fenceId'', JStr ''fence_01''),
     (''commitSha'', JStr (replicate 40 CHR ''b'')), (''generation'', JInt 1),
     (''committedAt'', JStr ''2026-10-02T10:00:01.000Z'')] @ sample_bound)"

definition sample_claim :: jsval where
  "sample_claim = JObj ([(''durable'', JBool True), (''claimId'', JStr ''claim_01''),
     (''commitSha'', JStr (replicate 40 CHR ''c'')), (''fenceId'', JStr ''fence_01''),
     (''fenceCommitSha'', JStr (replicate 40 CHR ''b'')), (''generation'', JInt 1),
     (''claimedAt'', JStr ''2026-10-02T10:00:02.000Z'')] @ sample_bound)"

definition sample_github :: "string \<Rightarrow> string \<Rightarrow> (string \<times> jsval) list \<Rightarrow> jsval" where
  "sample_github st k extra = JObj ([(''repository'', JStr ''jan2xo/bke-worker''), (''prNumber'', JInt 7),
     (''currentHeadSha'', JStr (replicate 40 CHR ''a'')), (''assignedWorkerId'', JStr ''bke-13''),
     (''workerOpenPrAssignments'', JInt 1), (''prAssignedWorkerCount'', JInt 1), (''prOpen'', JBool True),
     (''currentAttemptId'', JStr ''attempt-1''), (''state'', JStr st), (''previousAttemptResolved'', JBool True),
     (''deliveryKnowledge'', JStr k), (''previousConversationId'', JNull),
     (''priorConversationIds'', JArr [JStr ''old_conversation'']),
     (''attemptAuthorizedAt'', JStr ''2026-10-02T10:00:00.000Z''), (''fence'', sample_fence)] @ extra)"

definition sample_browser :: "string \<Rightarrow> string \<Rightarrow> (string \<times> jsval) list \<Rightarrow> jsval" where
  "sample_browser ui page_url extra = JObj ([(''ownedTargetId'', JStr ''target_1''), (''ownedProfileId'', JStr ''profile1''),
     (''ownedTargetTabId'', JInt 3), (''matchingWritableTargetCount'', JInt 1), (''profileIsolated'', JBool True),
     (''sharedWritableProfile'', JBool False),
     (''current'', JObj [(''targetId'', JStr ''target_1''), (''profileId'', JStr ''profile1''), (''tabId'', JInt 3),
        (''observedAt'', JStr ''2026-10-02T10:00:04.000Z''), (''url'', JStr page_url), (''uiState'', JStr ui),
        (''visible'', JBool True), (''composerAvailable'', JBool True), (''turnBusy'', JBool False)])] @ extra)"

definition sample_commit_receipt :: jsval where
  "sample_commit_receipt = JObj ([(''event'', JStr ''FENCE_COMMIT_RETURNED''), (''fenceId'', JStr ''fence_01''),
     (''commitSha'', JStr (replicate 40 CHR ''b'')), (''observedAt'', JStr ''2026-10-02T10:00:02.000Z'')] @ sample_bound)"

definition sample_conversation_receipt :: jsval where
  "sample_conversation_receipt = JObj ([(''event'', JStr ''FIRST_MESSAGE_CREATED_CONVERSATION''),
     (''fenceId'', JStr ''fence_01''), (''fenceCommitSha'', JStr (replicate 40 CHR ''b'')),
     (''sendClaimId'', JStr ''claim_01''), (''sendClaimCommitSha'', JStr (replicate 40 CHR ''c'')),
     (''beforeUrl'', JStr CHATGPT_LANDING), (''afterUrl'', JStr ''https://chatgpt.com/c/new_conversation''),
     (''conversationId'', JStr ''new_conversation''), (''sendStartedAt'', JStr ''2026-10-02T10:00:02.500Z''),
     (''confirmedAt'', JStr ''2026-10-02T10:00:03.000Z'')] @ sample_bound)"

definition sample_boot :: "string \<Rightarrow> jsval \<Rightarrow> jsval \<Rightarrow> jsval" where
  "sample_boot ev github browser = JObj [(''request'', sample_boot_request ev), (''github'', github),
     (''browser'', browser), (''nowIso'', JStr ''2026-10-02T10:00:05.000Z'')]"

definition sample_verify_input :: jsval where
  "sample_verify_input = sample_boot ''VERIFY_FENCE_COMMIT'' (sample_github ''FENCED_READY_TO_SEND'' ''NOT_SENT'' [])
     (sample_browser ''NEW_CHAT_LANDING'' CHATGPT_LANDING [(''fenceCommitReceipt'', sample_commit_receipt)])"

definition sample_confirm_input :: jsval where
  "sample_confirm_input = sample_boot ''CONFIRM_NEW_CONVERSATION''
     (sample_github ''FENCED_MAY_HAVE_SENT'' ''MAY_HAVE_SENT'' [(''sendClaim'', sample_claim)])
     (sample_browser ''THREAD'' ''https://chatgpt.com/c/new_conversation''
        [(''firstMessageReceipt'', sample_conversation_receipt)])"

lemma sample_verifies: "evaluateBootstrapFence sample_url sample_verify_input = Candidate FENCED_READY_TO_SEND FIRST_SEND_CAS_CANDIDATE"
  by code_simp

theorem first_send_needs_unclaimed_fence_witness:
  "evaluateBootstrapFence sample_url sample_verify_input = Candidate FENCED_READY_TO_SEND FIRST_SEND_CAS_CANDIDATE \<and>
   \<not> has_claim sample_verify_input \<and> validFence sample_verify_input"
  using first_send_needs_unclaimed_fence [OF sample_verifies] sample_verifies by blast

lemma sample_confirms: "evaluateBootstrapFence sample_url sample_confirm_input = Candidate CONFIRMED_NEW_CONVERSATION NEW_CONVERSATION_CANDIDATE"
  by code_simp

theorem claimed_attempt_never_resends_witness:
  "has_claim sample_confirm_input \<and> validSendClaim sample_confirm_input"
proof -
  have "has_claim sample_confirm_input" by code_simp
  then show ?thesis using claimed_attempt_never_resends [of sample_confirm_input sample_url] by (simp add: sample_confirms)
qed

end
