(* ===== verification/FreshAttemptGate.thy ===== *)
theory FreshAttemptGate imports BootstrapFence
begin

text \<open>
  The preflight for a fresh conversation per attempt
  (\<open>browser-extension/src/fresh-attempt-gate.ts\<close>). \<open>new URL\<close> and \<open>Date.parse\<close> on
  free texts are the platform's and parameters.
\<close>

section \<open>Requests and codes\<close>

definition ATTEMPT_PROTOCOL_VERSION :: int where "ATTEMPT_PROTOCOL_VERSION = 1"

definition OBSERVATION_MAX_AGE_MS :: int where "OBSERVATION_MAX_AGE_MS = 10000"

definition CLOCK_SKEW_MS :: int where "CLOCK_SKEW_MS = 2000"

datatype gate_code =
    FA_INVALID_INPUT | FA_GITHUB_ASSIGNMENT_CONFLICT | FA_GITHUB_HEAD_CHANGED | FA_PR_NOT_RUNNABLE
  | FA_ATTEMPT_NOT_AUTHORIZED | FA_PREVIOUS_ATTEMPT_UNRESOLVED | DISPATCH_NOT_NEW
  | BROWSER_TARGET_AMBIGUOUS | FA_CHATGPT_UI_UNAVAILABLE | FA_CHATGPT_BUSY | CHATGPT_OBSERVATION_STALE
  | FRESH_CONVERSATION_UNCONFIRMED | FRESH_CONVERSATION_REUSED | FRESH_CONVERSATION_STALE

text \<open>A refusal, or the one candidate; the authority of both is \<open>NONE\<close>.\<close>

datatype fresh_result = FreshBlocked gate_code | FreshCandidate

text \<open>The history check and the conversation of a URL are copies of the bootstrap fence's.\<close>

definition isDenseValidConversationHistory :: "jsval \<Rightarrow> bool" where
  "isDenseValidConversationHistory v \<longleftrightarrow> is_JArr v \<and> length (the_arr v) \<le> 1024 \<and>
     list_all (\<lambda>x. is_JStr x \<and> identifier_re (str_or_empty x)) (the_arr v) \<and> distinct (the_arr v)"

definition fa_conversationIdFromUrl :: "url_parser \<Rightarrow> string \<Rightarrow> string option" where
  "fa_conversationIdFromUrl parse raw =
     (case parse raw of None \<Rightarrow> None
      | Some u \<Rightarrow>
          if url_origin u \<noteq> CHATGPT_ORIGIN \<or> url_username u \<noteq> [] \<or> url_password u \<noteq> [] \<or>
             url_search u \<noteq> [] \<or> url_hash u \<noteq> [] then None
          else if starts_with (url_pathname u) ''/c/'' \<and> identifier_re (drop 3 (url_pathname u))
          then Some (drop 3 (url_pathname u)) else None)"

definition validIso :: "string \<Rightarrow> int option" where
  "validIso raw = (if iso_utc_millis raw then iso_time raw else None)"

definition fresh_request :: "jsval \<Rightarrow> bool" where
  "fresh_request req \<longleftrightarrow>
     js_eq (js_get req ''protocolVersion'') (JInt ATTEMPT_PROTOCOL_VERSION) \<and>
     str_re worker_id_re (js_get req ''workerId'') \<and> str_re repository_re (js_get req ''repository'') \<and>
     safe_at_least 1 (js_get req ''prNumber'') \<and> str_re sha_re (js_get req ''headSha'') \<and>
     str_re attempt_id_re (js_get req ''attemptId'') \<and>
     js_get req ''kind'' \<in> {JStr ''IMPLEMENT'', JStr ''REMEDIATE''}"

definition fresh_github :: "jsval \<Rightarrow> bool" where
  "fresh_github gh \<longleftrightarrow>
     str_re sha_re (js_get gh ''currentHeadSha'') \<and> is_JStr (js_get gh ''assignedWorkerId'') \<and>
     is_number (js_get gh ''workerOpenPrAssignments'') \<and> is_number (js_get gh ''prAssignedWorkerCount'') \<and>
     is_JBool (js_get gh ''previousAttemptResolved'') \<and> is_JBool (js_get gh ''prOpen'') \<and>
     is_JStr (js_get gh ''currentAttemptId'') \<and>
     js_get gh ''currentAttemptDelivery'' \<in> JStr ` {''NOT_SENT'', ''IN_FLIGHT'', ''UNCERTAIN'', ''COMPLETED''}"

definition fresh_target :: "jsval \<Rightarrow> bool" where
  "fresh_target target \<longleftrightarrow>
     (let page = js_get target ''current'' in
      is_JBool (js_get target ''sharedWritableProfile'') \<and>
      is_JStr (js_get page ''url'') \<and> is_JStr (js_get page ''observedAt'') \<and>
      is_JBool (js_get page ''visible'') \<and> is_JBool (js_get page ''composerAvailable'') \<and>
      is_JBool (js_get page ''turnBusy'') \<and> safe_at_least 0 (js_get page ''tabId'') \<and>
      safe_at_least 0 (js_get target ''ownedTargetTabId'') \<and>
      is_safe_integer (js_get target ''matchingWritableTargetCount''))"

definition fresh_input :: "jsval \<Rightarrow> bool" where
  "fresh_input i \<longleftrightarrow> is_reference i \<and>
     truthy (request_of i) \<and> truthy (github_of i) \<and> truthy (browser_of i) \<and> truthy (page_of i) \<and>
     fresh_request (request_of i) \<and> fresh_github (github_of i) \<and> fresh_target (browser_of i) \<and>
     is_JStr (js_get i ''nowIso'')"

section \<open>The checks, in the order of the code\<close>

definition previous_id :: "jsval \<Rightarrow> jsval" where
  "previous_id i = js_get (github_of i) ''previousConversationId''"

definition github_refusal :: "jsval \<Rightarrow> gate_code option" where
  "github_refusal i =
     (let req = request_of i; gh = github_of i in
      if \<not> js_eq (js_get gh ''repository'') (js_get req ''repository'') \<or>
         \<not> js_eq (js_get gh ''prNumber'') (js_get req ''prNumber'') \<or>
         \<not> js_eq (js_get gh ''assignedWorkerId'') (js_get req ''workerId'') \<or>
         js_get gh ''workerOpenPrAssignments'' \<noteq> JInt 1 \<or> js_get gh ''prAssignedWorkerCount'' \<noteq> JInt 1
      then Some FA_GITHUB_ASSIGNMENT_CONFLICT
      else if \<not> js_eq (js_get gh ''currentHeadSha'') (js_get req ''headSha'') then Some FA_GITHUB_HEAD_CHANGED
      else if \<not> truthy (js_get gh ''prOpen'') then Some FA_PR_NOT_RUNNABLE
      else if \<not> js_eq (js_get gh ''currentAttemptId'') (js_get req ''attemptId'') then Some FA_ATTEMPT_NOT_AUTHORIZED
      else if \<not> truthy (js_get gh ''previousAttemptResolved'') then Some FA_PREVIOUS_ATTEMPT_UNRESOLVED
      else if js_get gh ''currentAttemptDelivery'' \<noteq> JStr ''NOT_SENT'' then Some DISPATCH_NOT_NEW
      else if (previous_id i \<noteq> JNull \<and> \<not> str_re identifier_re (previous_id i)) \<or>
         \<not> isDenseValidConversationHistory (js_get gh ''priorConversationIds'') \<or>
         (previous_id i \<noteq> JNull \<and> previous_id i \<notin> set (prior_ids i)) \<or>
         \<not> is_JStr (js_get gh ''attemptAuthorizedAt'') then Some FRESH_CONVERSATION_UNCONFIRMED
      else None)"

text \<open>\<open>/^\d{4}-\d\d-\d\dT/\<close>.\<close>

definition date_prefix :: "string \<Rightarrow> bool" where
  "date_prefix s \<longleftrightarrow> 11 \<le> length s \<and>
     list_all (\<lambda>(f, c). if f = CHR ''0'' then is_digit c else c = f) (zip ''0000-00-00T'' s)"

definition observation_stale :: "(string \<Rightarrow> int option) \<Rightarrow> jsval \<Rightarrow> bool" where
  "observation_stale date_parse i =
     (let nowIso = str_or_empty (js_get i ''nowIso''); observedAt = str_or_empty (js_get (page_of i) ''observedAt'') in
      case (date_parse nowIso, date_parse observedAt) of
        (Some now, Some observed) \<Rightarrow> \<not> date_prefix observedAt \<or> \<not> date_prefix nowIso \<or>
          now + CLOCK_SKEW_MS < observed \<or> OBSERVATION_MAX_AGE_MS < now - observed
      | _ \<Rightarrow> True)"

definition browser_refusal :: "url_parser \<Rightarrow> (string \<Rightarrow> int option) \<Rightarrow> jsval \<Rightarrow> gate_code option" where
  "browser_refusal parse date_parse i =
     (let target = browser_of i; page = page_of i in
      if truthy (js_get target ''sharedWritableProfile'') \<or>
         js_get target ''matchingWritableTargetCount'' \<noteq> JInt 1 \<or>
         \<not> js_eq (js_get page ''tabId'') (js_get target ''ownedTargetTabId'') then Some BROWSER_TARGET_AMBIGUOUS
      else case parse (str_or_empty (js_get page ''url'')) of None \<Rightarrow> Some FA_CHATGPT_UI_UNAVAILABLE
      | Some u \<Rightarrow>
          if url_protocol u \<noteq> ''https:'' \<or> url_origin u \<noteq> CHATGPT_ORIGIN \<or> \<not> truthy (js_get page ''visible'') \<or>
             \<not> truthy (js_get page ''composerAvailable'') then Some FA_CHATGPT_UI_UNAVAILABLE
          else if truthy (js_get page ''turnBusy'') then Some FA_CHATGPT_BUSY
          else if observation_stale date_parse i then Some CHATGPT_OBSERVATION_STALE
          else None)"

definition confirmation_shape :: "jsval \<Rightarrow> jsval \<Rightarrow> bool" where
  "confirmation_shape i confirmed \<longleftrightarrow>
     truthy confirmed \<and> js_get confirmed ''event'' = JStr ''NEW_CHAT_CREATED'' \<and>
     same_fields [''attemptId'', ''workerId'', ''headSha''] confirmed (request_of i) \<and>
     js_eq (js_get confirmed ''targetTabId'') (js_get (browser_of i) ''ownedTargetTabId'') \<and>
     list_all (\<lambda>k. is_JStr (js_get confirmed k))
       [''beforeUrl'', ''afterUrl'', ''newConversationId'', ''creationStartedAt'', ''confirmedAt'']"

text \<open>The time window of a confirmation; \<open>now\<close> and \<open>observed\<close> were found finite before.\<close>

definition confirmation_stale :: "(string \<Rightarrow> int option) \<Rightarrow> jsval \<Rightarrow> jsval \<Rightarrow> bool" where
  "confirmation_stale date_parse i confirmed =
     (case (validIso (str_or_empty (js_get (github_of i) ''attemptAuthorizedAt'')),
            validIso (str_or_empty (js_get confirmed ''creationStartedAt'')),
            validIso (str_or_empty (js_get confirmed ''confirmedAt'')),
            date_parse (str_or_empty (js_get i ''nowIso'')),
            date_parse (str_or_empty (js_get (page_of i) ''observedAt''))) of
        (Some authorizedAt, Some start, Some confirmedAt, Some now, Some observed) \<Rightarrow>
          start < authorizedAt - CLOCK_SKEW_MS \<or> confirmedAt < start \<or>
          observed + CLOCK_SKEW_MS < confirmedAt \<or> now + CLOCK_SKEW_MS < confirmedAt
      | _ \<Rightarrow> True)"

definition confirmation_refusal :: "url_parser \<Rightarrow> (string \<Rightarrow> int option) \<Rightarrow> jsval \<Rightarrow> gate_code option" where
  "confirmation_refusal parse date_parse i =
     (let confirmed = js_get (browser_of i) ''newConversation'';
          id_of = (\<lambda>v. fa_conversationIdFromUrl parse (str_or_empty v));
          currentId = id_of (js_get (page_of i) ''url''); afterId = id_of (js_get confirmed ''afterUrl'');
          beforeId = id_of (js_get confirmed ''beforeUrl'') in
      if \<not> confirmation_shape i confirmed then Some FRESH_CONVERSATION_UNCONFIRMED
      else case (currentId, afterId) of
        (Some currentC, Some afterC) \<Rightarrow>
          if \<not> identifier_re (str_or_empty (js_get confirmed ''newConversationId'')) \<or>
             currentC \<noteq> afterC \<or> JStr currentC \<noteq> js_get confirmed ''newConversationId'' \<or>
             (previous_id i \<noteq> JNull \<and> map_option JStr beforeId \<noteq> Some (previous_id i)) \<or>
             (previous_id i = JNull \<and> js_get confirmed ''beforeUrl'' \<noteq> JStr CHATGPT_LANDING)
          then Some FRESH_CONVERSATION_UNCONFIRMED
          else if Some currentC = beforeId \<or> JStr currentC = previous_id i \<or> JStr currentC \<in> set (prior_ids i)
          then Some FRESH_CONVERSATION_REUSED
          else if confirmation_stale date_parse i confirmed then Some FRESH_CONVERSATION_STALE
          else None
      | _ \<Rightarrow> Some FRESH_CONVERSATION_UNCONFIRMED)"

definition evaluateFreshAttempt :: "url_parser \<Rightarrow> (string \<Rightarrow> int option) \<Rightarrow> jsval \<Rightarrow> fresh_result" where
  "evaluateFreshAttempt parse date_parse i =
     (if \<not> fresh_input i then FreshBlocked FA_INVALID_INPUT
      else case github_refusal i of Some e \<Rightarrow> FreshBlocked e
      | None \<Rightarrow> (case browser_refusal parse date_parse i of Some e \<Rightarrow> FreshBlocked e
      | None \<Rightarrow> (case confirmation_refusal parse date_parse i of Some e \<Rightarrow> FreshBlocked e
      | None \<Rightarrow> FreshCandidate)))"

section \<open>What the candidate proves\<close>

text \<open>C18: a fresh conversation is new and of this attempt. The candidate needs the one open
  assignment of the worker, the attempt of the request, not sent before; the page, the receipt
  and the receipt's URL name the same conversation; it is not among the prior ones nor the one
  the controller left, which is the previous one when there was one and the empty landing page
  otherwise; and it was made after the attempt was authorised and confirmed before the page was
  observed, up to the clock skew.\<close>

theorem fresh_candidate_is_new:
  assumes "evaluateFreshAttempt parse date_parse i = FreshCandidate"
  shows "js_get (github_of i) ''workerOpenPrAssignments'' = JInt 1 \<and>
    js_get (github_of i) ''currentAttemptDelivery'' = JStr ''NOT_SENT'' \<and>
    same_fields [''attemptId'', ''workerId'', ''headSha''] (js_get (browser_of i) ''newConversation'') (request_of i) \<and>
    (\<exists>cid beforeId. conversationIdFromUrl parse (str_or_empty (js_get (page_of i) ''url'')) = Some cid \<and>
       conversationIdFromUrl parse (str_or_empty (js_get (js_get (browser_of i) ''newConversation'') ''afterUrl'')) = Some cid \<and>
       js_get (js_get (browser_of i) ''newConversation'') ''newConversationId'' = JStr cid \<and>
       JStr cid \<notin> set (prior_ids i) \<and>
       conversationIdFromUrl parse (str_or_empty (js_get (js_get (browser_of i) ''newConversation'') ''beforeUrl'')) = beforeId \<and>
       beforeId \<noteq> Some cid \<and>
       (if previous_id i = JNull then js_get (js_get (browser_of i) ''newConversation'') ''beforeUrl'' = JStr CHATGPT_LANDING
        else map_option JStr beforeId = Some (previous_id i) \<and> previous_id i \<in> set (prior_ids i))) \<and>
    (\<exists>authorizedAt start confirmedAt observed.
       validIso (str_or_empty (js_get (github_of i) ''attemptAuthorizedAt'')) = Some authorizedAt \<and>
       validIso (str_or_empty (js_get (js_get (browser_of i) ''newConversation'') ''creationStartedAt'')) = Some start \<and>
       validIso (str_or_empty (js_get (js_get (browser_of i) ''newConversation'') ''confirmedAt'')) = Some confirmedAt \<and>
       date_parse (str_or_empty (js_get (page_of i) ''observedAt'')) = Some observed \<and>
       authorizedAt - 2000 \<le> start \<and> start \<le> confirmedAt \<and> confirmedAt \<le> observed + 2000)"
proof -
  have url: "fa_conversationIdFromUrl = conversationIdFromUrl"
    by (simp add: fun_eq_iff fa_conversationIdFromUrl_def conversationIdFromUrl_def)
  have gh: "github_refusal i = None" and cr: "confirmation_refusal parse date_parse i = None"
    using assms by (auto simp: evaluateFreshAttempt_def split: if_splits option.splits)
  let ?c = "js_get (browser_of i) ''newConversation''"
  have shape: "confirmation_shape i ?c" and stale: "\<not> confirmation_stale date_parse i ?c"
    using cr by (auto simp: confirmation_refusal_def Let_def split: if_splits option.splits)
  obtain cid where cid: "conversationIdFromUrl parse (str_or_empty (js_get (page_of i) ''url'')) = Some cid"
      "conversationIdFromUrl parse (str_or_empty (js_get ?c ''afterUrl'')) = Some cid"
      "js_get ?c ''newConversationId'' = JStr cid" "JStr cid \<notin> set (prior_ids i)"
      "conversationIdFromUrl parse (str_or_empty (js_get ?c ''beforeUrl'')) \<noteq> Some cid"
      "previous_id i = JNull \<longrightarrow> js_get ?c ''beforeUrl'' = JStr CHATGPT_LANDING"
      "previous_id i \<noteq> JNull \<longrightarrow> map_option JStr (conversationIdFromUrl parse (str_or_empty (js_get ?c ''beforeUrl''))) = Some (previous_id i)"
    using cr by (auto simp: confirmation_refusal_def Let_def url split: if_splits option.splits)
  have "js_get (github_of i) ''workerOpenPrAssignments'' = JInt 1"
      "js_get (github_of i) ''currentAttemptDelivery'' = JStr ''NOT_SENT''"
      "previous_id i \<noteq> JNull \<longrightarrow> previous_id i \<in> set (prior_ids i)"
    using gh by (auto simp: github_refusal_def Let_def split: if_splits)
  moreover have "same_fields [''attemptId'', ''workerId'', ''headSha''] ?c (request_of i)"
    using shape by (simp add: confirmation_shape_def)
  moreover obtain authorizedAt start confirmedAt observed where
      "validIso (str_or_empty (js_get (github_of i) ''attemptAuthorizedAt'')) = Some authorizedAt"
      "validIso (str_or_empty (js_get ?c ''creationStartedAt'')) = Some start"
      "validIso (str_or_empty (js_get ?c ''confirmedAt'')) = Some confirmedAt"
      "date_parse (str_or_empty (js_get (page_of i) ''observedAt'')) = Some observed"
      "authorizedAt - 2000 \<le> start" "start \<le> confirmedAt" "confirmedAt \<le> observed + 2000"
    using stale by (auto simp: confirmation_stale_def CLOCK_SKEW_MS_def split: option.splits)
  ultimately show ?thesis using cid by auto
qed

section \<open>A sample\<close>

definition sample_fresh_input :: jsval where
  "sample_fresh_input = JObj [
     (''request'', JObj [(''protocolVersion'', JInt 1), (''repository'', JStr ''jan2xo/bke-worker''),
        (''workerId'', JStr ''bke-13''), (''prNumber'', JInt 7), (''headSha'', JStr (replicate 40 CHR ''a'')),
        (''attemptId'', JStr ''attempt-1''), (''kind'', JStr ''IMPLEMENT'')]),
     (''github'', JObj [(''repository'', JStr ''jan2xo/bke-worker''), (''prNumber'', JInt 7),
        (''currentHeadSha'', JStr (replicate 40 CHR ''a'')), (''assignedWorkerId'', JStr ''bke-13''),
        (''workerOpenPrAssignments'', JInt 1), (''prAssignedWorkerCount'', JInt 1), (''prOpen'', JBool True),
        (''previousAttemptResolved'', JBool True), (''currentAttemptId'', JStr ''attempt-1''),
        (''currentAttemptDelivery'', JStr ''NOT_SENT''), (''previousConversationId'', JStr ''old_conversation''),
        (''priorConversationIds'', JArr [JStr ''old_conversation'']),
        (''attemptAuthorizedAt'', JStr ''2026-10-02T10:00:00.000Z'')]),
     (''browser'', JObj [(''ownedTargetTabId'', JInt 3), (''matchingWritableTargetCount'', JInt 1),
        (''sharedWritableProfile'', JBool False),
        (''current'', JObj [(''observedAt'', JStr ''2026-10-02T10:00:04.000Z''),
           (''url'', JStr ''https://chatgpt.com/c/new_conversation''), (''visible'', JBool True),
           (''composerAvailable'', JBool True), (''turnBusy'', JBool False), (''tabId'', JInt 3)]),
        (''newConversation'', JObj [(''event'', JStr ''NEW_CHAT_CREATED''), (''attemptId'', JStr ''attempt-1''),
           (''workerId'', JStr ''bke-13''), (''headSha'', JStr (replicate 40 CHR ''a'')), (''targetTabId'', JInt 3),
           (''beforeUrl'', JStr ''https://chatgpt.com/c/old_conversation''),
           (''afterUrl'', JStr ''https://chatgpt.com/c/new_conversation''),
           (''newConversationId'', JStr ''new_conversation''),
           (''creationStartedAt'', JStr ''2026-10-02T10:00:01.000Z''), (''confirmedAt'', JStr ''2026-10-02T10:00:03.000Z'')])]),
     (''nowIso'', JStr ''2026-10-02T10:00:05.000Z'')]"

lemma sample_fresh: "evaluateFreshAttempt sample_url validIso sample_fresh_input = FreshCandidate"
  by code_simp

theorem fresh_candidate_is_new_witness:
  "evaluateFreshAttempt sample_url validIso sample_fresh_input = FreshCandidate \<and>
   previous_id sample_fresh_input \<in> set (prior_ids sample_fresh_input)"
proof -
  have "previous_id sample_fresh_input \<noteq> JNull" by code_simp
  then show ?thesis using fresh_candidate_is_new [OF sample_fresh] sample_fresh by auto
qed

end
