(* ===== verification/SendOnceClaim.thy ===== *)
theory SendOnceClaim imports ExtensionBase
begin

text \<open>
  The one-shot send claim: the protocol of \<open>browser-extension/src/send-once-claim.ts\<close> and the
  GitHub transport of \<open>native-host/claim/send-once-claim-adapter.ts\<close>. Every \<open>await\<close> of the
  protocol is one step; the network, the token provider and GitHub's store of refs answer.
\<close>

section \<open>The protocol\<close>

datatype claim_code =
    CLAIM_INVALID_INPUT | WRONG_WORKER_OR_SCOPE | STALE_HEAD | ATTEMPT_NOT_ACTIVE | CLAIM_ALREADY_EXISTS
  | CLAIM_CONFLICT | READ_UNCERTAIN | WRITE_UNCERTAIN | READBACK_MISMATCH | CLAIM_RECORDED

text \<open>A pattern that is tested without a look at the type: the argument is converted to a string.\<close>

definition test_re :: "(string \<Rightarrow> bool) \<Rightarrow> jsval \<Rightarrow> bool" where
  "test_re p v \<longleftrightarrow> p (js_string v)"

definition valid_attempt :: "jsval \<Rightarrow> bool" where
  "valid_attempt r \<longleftrightarrow> truthy r \<and> test_re repository_re (js_get r ''repository'') \<and>
     safe_at_least 1 (js_get r ''prNumber'') \<and> test_re sha_re (js_get r ''headSha'') \<and>
     test_re worker_id_re (js_get r ''workerId'') \<and> test_re attempt_id_re (js_get r ''attemptId'')"

definition authorityCode :: "jsval \<Rightarrow> jsval \<Rightarrow> claim_code option" where
  "authorityCode a r =
     (if \<not> truthy a \<or> \<not> truthy (js_get a ''installationAuthenticated'') \<or>
         \<not> js_eq (js_get a ''repository'') (js_get r ''repository'') \<or>
         \<not> js_eq (js_get a ''installationRepository'') (js_get r ''repository'') \<or>
         \<not> js_eq (js_get a ''prNumber'') (js_get r ''prNumber'') \<or>
         \<not> js_eq (js_get a ''assignedWorkerId'') (js_get r ''workerId'') \<or>
         \<not> js_eq (js_get a ''authenticatedWorkerId'') (js_get r ''workerId'') \<or>
         js_get a ''activeWorkerPrCount'' \<noteq> JInt 1 \<or> js_get a ''prWorkerCount'' \<noteq> JInt 1 \<or>
         \<not> truthy (js_get a ''prOpen'') then Some WRONG_WORKER_OR_SCOPE
      else if \<not> js_eq (js_get a ''headSha'') (js_get r ''headSha'') then Some STALE_HEAD
      else if \<not> js_eq (js_get a ''attemptId'') (js_get r ''attemptId'') then Some ATTEMPT_NOT_ACTIVE
      else None)"

definition claimRef :: "jsval \<Rightarrow> string" where
  "claimRef r = ''refs/bke/claims/'' @ js_string (js_get r ''prNumber'') @ ''/'' @ js_string (js_get r ''attemptId'')"

text \<open>Where a claim waits for an answer, and what it waits for.\<close>

datatype claim_pc = AtAuthority | AtRef | AtCreate | AtDiagnostic | AtReadback | AtReauthority | Finished claim_code

datatype claim_call = ReadAuthority | ReadRef string | CreateRefIfAbsent string jsval

fun claim_call_at :: "jsval \<Rightarrow> claim_pc \<Rightarrow> claim_call option" where
  "claim_call_at r AtAuthority = Some ReadAuthority"
| "claim_call_at r AtRef = Some (ReadRef (claimRef r))"
| "claim_call_at r AtCreate = Some (CreateRefIfAbsent (claimRef r) (js_get r ''headSha''))"
| "claim_call_at r AtDiagnostic = Some (ReadRef (claimRef r))"
| "claim_call_at r AtReadback = Some (ReadRef (claimRef r))"
| "claim_call_at r AtReauthority = Some ReadAuthority"
| "claim_call_at r (Finished c) = None"

definition claim_start :: "jsval \<Rightarrow> claim_pc" where
  "claim_start r = (if valid_attempt r then AtAuthority else Finished CLAIM_INVALID_INPUT)"

text \<open>The next position after an answer; \<^const>\<open>None\<close> is a rejected promise.\<close>

fun claim_next :: "jsval \<Rightarrow> claim_pc \<Rightarrow> jsval option \<Rightarrow> claim_pc" where
  "claim_next r AtAuthority ans = (case ans of None \<Rightarrow> Finished READ_UNCERTAIN
     | Some a \<Rightarrow> (case authorityCode a r of Some c \<Rightarrow> Finished c | None \<Rightarrow> AtRef))"
| "claim_next r AtRef ans = (case ans of None \<Rightarrow> Finished READ_UNCERTAIN
     | Some v \<Rightarrow> if v \<noteq> JNull then Finished CLAIM_ALREADY_EXISTS else AtCreate)"
| "claim_next r AtCreate ans = (case ans of None \<Rightarrow> AtDiagnostic
     | Some v \<Rightarrow> if v = JStr ''EXISTS'' then Finished CLAIM_CONFLICT
         else if v \<noteq> JStr ''CREATED'' then Finished WRITE_UNCERTAIN else AtReadback)"
| "claim_next r AtDiagnostic ans = Finished WRITE_UNCERTAIN"
| "claim_next r AtReadback ans = (case ans of None \<Rightarrow> Finished READ_UNCERTAIN
     | Some v \<Rightarrow> if \<not> js_eq v (js_get r ''headSha'') then Finished READBACK_MISMATCH else AtReauthority)"
| "claim_next r AtReauthority ans = (case ans of None \<Rightarrow> Finished READ_UNCERTAIN
     | Some a \<Rightarrow> (case authorityCode a r of Some c \<Rightarrow> Finished c | None \<Rightarrow> Finished CLAIM_RECORDED))"
| "claim_next r (Finished c) ans = Finished c"

fun claim_left :: "claim_pc \<Rightarrow> nat" where
  "claim_left AtAuthority = 5"
| "claim_left AtRef = 4"
| "claim_left AtCreate = 3"
| "claim_left AtDiagnostic = 1"
| "claim_left AtReadback = 2"
| "claim_left AtReauthority = 1"
| "claim_left (Finished c) = 0"

lemma claim_next_left: "claim_call_at r pc = Some call \<Longrightarrow> claim_left (claim_next r pc ans) < claim_left pc"
  by (cases pc) (simp_all split: option.split)

text \<open>
  The whole call: the \<open>n\<close>-th call gets the \<open>n\<close>-th answer. The result is the code and the calls
  made; a recorded claim also returns its ref.
\<close>

fun finished_code :: "claim_pc \<Rightarrow> claim_code" where
  "finished_code (Finished c) = c"
| "finished_code _ = WRITE_UNCERTAIN"

function claim_from :: "(nat \<Rightarrow> claim_call \<Rightarrow> jsval option) \<Rightarrow> jsval \<Rightarrow> nat \<Rightarrow> claim_pc \<Rightarrow> claim_code \<times> claim_call list" where
  "claim_from answer r n pc =
     (case claim_call_at r pc of None \<Rightarrow> (finished_code pc, [])
      | Some call \<Rightarrow>
          (let (c, calls) = claim_from answer r (Suc n) (claim_next r pc (answer n call)) in (c, call # calls)))"
  by pat_completeness auto
termination
  by (relation "measure (\<lambda>(answer, r, n, pc). claim_left pc)") (simp_all add: claim_next_left)

definition claimSendOnce :: "(nat \<Rightarrow> claim_call \<Rightarrow> jsval option) \<Rightarrow> jsval \<Rightarrow> claim_code \<times> claim_call list" where
  "claimSendOnce answer r = claim_from answer r 0 (claim_start r)"

declare claim_from.simps [simp del]

section \<open>The transport\<close>

text \<open>
  One exchange with the network: what the token provider gives (\<^const>\<open>None\<close> when it throws),
  whether the deadline fired before the request was started or before it was answered, and
  the answer: a status and the parsed body, \<^const>\<open>None\<close> for a body that is no JSON.
\<close>

record exchange =
  ex_token :: "jsval option"
  ex_aborted :: bool
  ex_late :: bool
  ex_fetch :: "(int \<times> jsval option) option"

definition token_ok :: "jsval option \<Rightarrow> bool" where
  "token_ok t \<longleftrightarrow> (case t of Some (JStr s) \<Rightarrow> js_trim s \<noteq> [] | _ \<Rightarrow> False)"

text \<open>Whether the request leaves the process.\<close>

definition request_sent :: "exchange \<Rightarrow> bool" where
  "request_sent x \<longleftrightarrow> token_ok (ex_token x) \<and> \<not> ex_aborted x"

definition rest_call :: "exchange \<Rightarrow> string + (int \<times> jsval)" where
  "rest_call x =
     (if ex_aborted x \<or> ex_late x then Inl ''GITHUB_TRANSPORT_UNCERTAIN''
      else if \<not> token_ok (ex_token x) then Inl ''GITHUB_AUTH_UNAVAILABLE''
      else case ex_fetch x of None \<Rightarrow> Inl ''GITHUB_TRANSPORT_UNCERTAIN''
      | Some (status, body) \<Rightarrow>
          if status \<notin> {200, 201, 422} then Inr (status, JUndef)
          else case body of None \<Rightarrow> Inl ''GITHUB_RESPONSE_INVALID'' | Some v \<Rightarrow> Inr (status, v))"

definition as_record :: "jsval \<Rightarrow> string + jsval" where
  "as_record v = (if is_object v then Inr v else Inl ''GITHUB_RESPONSE_INVALID'')"

definition as_sha :: "jsval \<Rightarrow> string + jsval" where
  "as_sha v = (if is_JStr v \<and> sha_re (str_or_empty v) then Inr v else Inl ''GITHUB_SHA_INVALID'')"

definition sha_of_record :: "jsval \<Rightarrow> string + jsval" where
  "sha_of_record v = (case as_record v of Inl e \<Rightarrow> Inl e | Inr obj \<Rightarrow> as_sha (js_get obj ''sha''))"

definition cleanLabel :: "jsval \<Rightarrow> string + string" where
  "cleanLabel v = (case as_record v of Inl e \<Rightarrow> Inl e
     | Inr label \<Rightarrow> if is_JStr (js_get label ''name'') then Inr (str_or_empty (js_get label ''name''))
                    else Inl ''GITHUB_LABEL_INVALID'')"

section \<open>The adapter\<close>

record adapter =
  ad_accessProven :: bool
  ad_writeAuthorityProven :: bool
  ad_createAttempted :: bool

definition adapter_new :: "jsval \<Rightarrow> jsval \<Rightarrow> string + adapter" where
  "adapter_new r timeoutMs =
     (if \<not> truthy r \<or> \<not> test_re repository_re (js_get r ''repository'') \<or>
         \<not> safe_at_least 1 (js_get r ''prNumber'') \<or> \<not> test_re attempt_id_re (js_get r ''attemptId'') \<or>
         \<not> test_re sha_re (js_get r ''headSha'') then Inl ''GITHUB_REQUEST_INVALID''
      else if \<not> safe_at_least 1 timeoutMs \<or> 10000 < the_int timeoutMs then Inl ''GITHUB_DEADLINE_INVALID''
      else Inr \<lparr>ad_accessProven = False, ad_writeAuthorityProven = False, ad_createAttempted = False\<rparr>)"

text \<open>Each method gets the exchange of its one request; the result is the new state and a value or an error.\<close>

definition proveRepositoryAccess :: "jsval \<Rightarrow> exchange \<Rightarrow> adapter \<Rightarrow> adapter \<times> (string + unit)" where
  "proveRepositoryAccess r x ad =
     (case rest_call x of Inl e \<Rightarrow> (ad, Inl e)
      | Inr (status, body) \<Rightarrow>
          if status \<noteq> 200 then (ad, Inl ''GITHUB_REPOSITORY_ACCESS_NOT_PROVEN'')
          else if \<not> is_object body then (ad, Inl ''GITHUB_RESPONSE_INVALID'')
          else if \<not> js_eq (js_get body ''full_name'') (js_get r ''repository'') then (ad, Inl ''GITHUB_REPOSITORY_MISMATCH'')
          else (ad\<lparr>ad_accessProven := True\<rparr>, Inr ()))"

text \<open>The pull request of an answer: whether it is open, its head, and the worker of its one assignment label.\<close>

definition assignment_labels :: "jsval list \<Rightarrow> string + string list" where
  "assignment_labels labels = (case map_result cleanLabel labels of Inl e \<Rightarrow> Inl e
     | Inr names \<Rightarrow> Inr (filter (\<lambda>s. starts_with s ''bke-worker:'') names))"

definition read_pull :: "jsval \<Rightarrow> int \<Rightarrow> jsval \<Rightarrow> string + (bool \<times> jsval \<times> string)" where
  "read_pull r status body =
     (if status \<noteq> 200 then Inl ''GITHUB_PR_READ_FAILED''
      else if \<not> is_object body then Inl ''GITHUB_RESPONSE_INVALID''
      else if \<not> js_eq (js_get body ''number'') (js_get r ''prNumber'') \<or>
         js_get body ''state'' \<notin> {JStr ''open'', JStr ''closed''} then Inl ''GITHUB_PR_INVALID''
      else case sha_of_record (js_get body ''head'') of Inl e \<Rightarrow> Inl e
      | Inr headSha \<Rightarrow>
          if \<not> is_JArr (js_get body ''labels'') then Inl ''GITHUB_LABELS_MISSING''
          else case assignment_labels (the_arr (js_get body ''labels'')) of Inl e \<Rightarrow> Inl e
          | Inr owners \<Rightarrow>
              if length owners \<noteq> 1 \<or> \<not> worker_id_re (drop 11 (hd owners)) then Inl ''GITHUB_WORKER_ASSIGNMENT_AMBIGUOUS''
              else Inr (js_get body ''state'' = JStr ''open'', headSha, drop 11 (hd owners)))"

text \<open>\<open>evidence\<close> is the adapter's \<open>proof\<close>: the separately authenticated inputs.\<close>

definition readAuthority :: "jsval \<Rightarrow> jsval \<Rightarrow> exchange \<Rightarrow> adapter \<Rightarrow> adapter \<times> (string + jsval)" where
  "readAuthority r evidence x ad =
     (let ad0 = ad\<lparr>ad_writeAuthorityProven := False\<rparr> in
      case rest_call x of Inl e \<Rightarrow> (ad0, Inl e)
      | Inr (status, body) \<Rightarrow>
          (case read_pull r status body of Inl e \<Rightarrow> (ad0, Inl e)
           | Inr (is_open, headSha, assigned) \<Rightarrow>
               if \<not> js_eq (js_get evidence ''installationRepository'') (js_get r ''repository'') \<or>
                  js_get evidence ''installationAuthenticated'' \<noteq> JBool True \<or>
                  \<not> is_JStr (js_get evidence ''authenticatedWorkerId'') \<or>
                  \<not> is_safe_integer (js_get evidence ''activeWorkerPrCount'') \<or>
                  \<not> is_JStr (js_get evidence ''currentAttemptId'')
               then (ad0, Inl ''GITHUB_EXTERNAL_AUTHORITY_REQUIRED'')
               else (ad0\<lparr>ad_accessProven := True,
                   ad_writeAuthorityProven := is_open \<and> js_eq headSha (js_get r ''headSha'') \<and>
                     js_eq (JStr assigned) (js_get r ''workerId'') \<and>
                     js_eq (js_get evidence ''authenticatedWorkerId'') (js_get r ''workerId'') \<and>
                     js_get evidence ''activeWorkerPrCount'' = JInt 1 \<and>
                     js_eq (js_get evidence ''currentAttemptId'') (js_get r ''attemptId'')\<rparr>,
                 Inr (JObj [(''repository'', js_get r ''repository''),
                   (''installationRepository'', js_get evidence ''installationRepository''),
                   (''installationAuthenticated'', js_get evidence ''installationAuthenticated''),
                   (''prNumber'', js_get r ''prNumber''), (''prOpen'', JBool is_open), (''headSha'', headSha),
                   (''attemptId'', js_get evidence ''currentAttemptId''), (''assignedWorkerId'', JStr assigned),
                   (''authenticatedWorkerId'', js_get evidence ''authenticatedWorkerId''),
                   (''activeWorkerPrCount'', js_get evidence ''activeWorkerPrCount''),
                   (''prWorkerCount'', JInt 1)]))))"

definition readRef :: "jsval \<Rightarrow> string \<Rightarrow> exchange \<Rightarrow> adapter \<Rightarrow> adapter \<times> (string + jsval)" where
  "readRef r ref x ad =
     (if ref \<noteq> claimRef r then (ad, Inl ''GITHUB_REF_OUT_OF_SCOPE'')
      else case rest_call x of Inl e \<Rightarrow> (ad, Inl e)
      | Inr (status, body) \<Rightarrow>
          if status = 404 then
            (if ad_accessProven ad then (ad, Inr JNull) else (ad, Inl ''GITHUB_REF_404_ACCESS_UNPROVEN''))
          else if status \<noteq> 200 then (ad, Inl ''GITHUB_REF_READ_FAILED'')
          else if \<not> is_object body then (ad, Inl ''GITHUB_RESPONSE_INVALID'')
          else if js_get body ''ref'' \<noteq> JStr ref then (ad, Inl ''GITHUB_REF_MISMATCH'')
          else (ad, sha_of_record (js_get body ''object'')))"

definition write_authorized :: "jsval \<Rightarrow> string \<Rightarrow> jsval \<Rightarrow> adapter \<Rightarrow> bool" where
  "write_authorized r ref headSha ad \<longleftrightarrow> ref = claimRef r \<and> js_eq headSha (js_get r ''headSha'') \<and>
     ad_writeAuthorityProven ad \<and> \<not> ad_createAttempted ad"

definition createRefIfAbsent :: "jsval \<Rightarrow> string \<Rightarrow> jsval \<Rightarrow> exchange \<Rightarrow> adapter \<Rightarrow> adapter \<times> (string + jsval)" where
  "createRefIfAbsent r ref headSha x ad =
     (if \<not> write_authorized r ref headSha ad then (ad, Inl ''GITHUB_REF_WRITE_NOT_AUTHORIZED'')
      else let ad' = ad\<lparr>ad_createAttempted := True, ad_writeAuthorityProven := False\<rparr> in
      case rest_call x of Inl e \<Rightarrow> (ad', Inl e)
      | Inr (status, body) \<Rightarrow>
          if status = 422 then
            (ad', if \<not> is_object body then Inl ''GITHUB_RESPONSE_INVALID''
                  else if js_get body ''message'' = JStr ''Reference already exists'' then Inr (JStr ''EXISTS'')
                  else Inl ''GITHUB_REF_VALIDATION_FAILED'')
          else if status \<noteq> 201 then (ad', Inl ''GITHUB_REF_WRITE_FAILED'')
          else if \<not> is_object body then (ad', Inl ''GITHUB_RESPONSE_INVALID'')
          else (ad', if js_get body ''ref'' \<noteq> JStr ref then Inl ''GITHUB_REF_WRITE_RECEIPT_INVALID''
                     else case sha_of_record (js_get body ''object'') of Inl e \<Rightarrow> Inl e
                     | Inr s \<Rightarrow> if js_eq s headSha then Inr (JStr ''CREATED'') else Inl ''GITHUB_REF_WRITE_RECEIPT_INVALID''))"

text \<open>A call of the protocol through the adapter, and whether it posts a ref.\<close>

fun adapter_call :: "jsval \<Rightarrow> jsval \<Rightarrow> claim_call \<Rightarrow> exchange \<Rightarrow> adapter \<Rightarrow> adapter \<times> (string + jsval)" where
  "adapter_call r evidence ReadAuthority x ad = readAuthority r evidence x ad"
| "adapter_call r evidence (ReadRef ref) x ad = readRef r ref x ad"
| "adapter_call r evidence (CreateRefIfAbsent ref headSha) x ad = createRefIfAbsent r ref headSha x ad"

fun posts :: "jsval \<Rightarrow> claim_call \<Rightarrow> exchange \<Rightarrow> adapter \<Rightarrow> bool" where
  "posts r (CreateRefIfAbsent ref headSha) x ad = (write_authorized r ref headSha ad \<and> request_sent x)"
| "posts r _ x ad = False"

section \<open>One caller\<close>

definition is_create :: "claim_call \<Rightarrow> bool" where
  "is_create call \<longleftrightarrow> (case call of CreateRefIfAbsent _ _ \<Rightarrow> True | _ \<Rightarrow> False)"

lemma claim_from_calls:
  "length (snd (claim_from answer r n pc)) \<le> claim_left pc \<and>
   length (filter is_create (snd (claim_from answer r n pc))) \<le> (if pc \<in> {AtAuthority, AtRef, AtCreate} then 1 else 0)"
proof (induction answer r n pc rule: claim_from.induct)
  case (1 answer r n pc)
  show ?case
  proof (cases "claim_call_at r pc")
    case None
    then show ?thesis by (simp add: claim_from.simps)
  next
    case (Some call)
    let ?pc = "claim_next r pc (answer n call)"
    obtain c calls where rest: "claim_from answer r (Suc n) ?pc = (c, calls)" by (cases "claim_from answer r (Suc n) ?pc") auto
    have "length calls \<le> claim_left ?pc \<and> length (filter is_create calls) \<le> (if ?pc \<in> {AtAuthority, AtRef, AtCreate} then 1 else 0)"
      using 1 [OF Some] rest by simp
    moreover have "snd (claim_from answer r n pc) = call # calls"
      by (subst claim_from.simps) (simp add: Some rest)
    moreover have "claim_left ?pc < claim_left pc" by (rule claim_next_left [OF Some])
    moreover have "(if is_create call then 1 else 0) + (if ?pc \<in> {AtAuthority, AtRef, AtCreate} then 1 else 0) \<le>
        (if pc \<in> {AtAuthority, AtRef, AtCreate} then 1 else (0::nat))"
      using Some by (cases pc) (auto simp: is_create_def split: option.splits if_splits)
    ultimately show ?thesis by (auto split: if_splits)
  qed
qed

lemma claim_from_step:
  "claim_call_at r pc = Some call \<Longrightarrow>
    fst (claim_from answer r n pc) = fst (claim_from answer r (Suc n) (claim_next r pc (answer n call)))"
  by (subst claim_from.simps) (simp split: prod.split)

lemma claim_from_finished [simp]: "fst (claim_from answer r n (Finished c)) = c"
  by (subst claim_from.simps) simp

lemma authority_not_recorded: "authorityCode a r \<noteq> Some CLAIM_RECORDED"
  by (simp add: authorityCode_def)

lemma recorded_reauthority:
  "fst (claim_from answer r n AtReauthority) = CLAIM_RECORDED \<Longrightarrow> \<exists>a. answer n ReadAuthority = Some a \<and> authorityCode a r = None"
  using authority_not_recorded by (auto simp: claim_from_step split: option.splits)

lemma recorded_readback:
  "fst (claim_from answer r n AtReadback) = CLAIM_RECORDED \<Longrightarrow>
    (\<exists>v. answer n (ReadRef (claimRef r)) = Some v \<and> js_eq v (js_get r ''headSha'')) \<and>
    (\<exists>a. answer (Suc n) ReadAuthority = Some a \<and> authorityCode a r = None)"
  using recorded_reauthority [of answer r "Suc n"] by (auto simp: claim_from_step split: option.splits if_splits)

lemma recorded_create:
  "fst (claim_from answer r n AtCreate) = CLAIM_RECORDED \<Longrightarrow>
    answer n (CreateRefIfAbsent (claimRef r) (js_get r ''headSha'')) = Some (JStr ''CREATED'') \<and>
    fst (claim_from answer r (Suc n) AtReadback) = CLAIM_RECORDED"
  by (auto simp: claim_from_step [of r AtCreate] claim_from_step [of r AtDiagnostic] split: option.splits if_splits)

lemma recorded_ref:
  "fst (claim_from answer r n AtRef) = CLAIM_RECORDED \<Longrightarrow>
    answer n (ReadRef (claimRef r)) = Some JNull \<and> fst (claim_from answer r (Suc n) AtCreate) = CLAIM_RECORDED"
  by (auto simp: claim_from_step [of r AtRef] split: option.splits if_splits)

lemma recorded_authority:
  "fst (claim_from answer r n AtAuthority) = CLAIM_RECORDED \<Longrightarrow>
    (\<exists>a. answer n ReadAuthority = Some a \<and> authorityCode a r = None) \<and>
    fst (claim_from answer r (Suc n) AtRef) = CLAIM_RECORDED"
  using authority_not_recorded by (auto simp: claim_from_step [of r AtAuthority] split: option.splits)

text \<open>C15: a claim always ends, and tries once. Whatever the provider answers, the call returns
  after at most five requests, at most one of them a create; it records a claim only for a valid
  request whose authority was confirmed before and after, whose ref was read absent, created by
  this call and read back with the request's head.\<close>

theorem claim_ends_and_tries_once:
  "length (snd (claimSendOnce answer r)) \<le> 5 \<and>
   length (filter is_create (snd (claimSendOnce answer r))) \<le> 1 \<and>
   (fst (claimSendOnce answer r) = CLAIM_RECORDED \<longrightarrow>
     valid_attempt r \<and> (\<exists>a. answer 0 ReadAuthority = Some a \<and> authorityCode a r = None) \<and>
     answer 1 (ReadRef (claimRef r)) = Some JNull \<and>
     answer 2 (CreateRefIfAbsent (claimRef r) (js_get r ''headSha'')) = Some (JStr ''CREATED'') \<and>
     (\<exists>v. answer 3 (ReadRef (claimRef r)) = Some v \<and> js_eq v (js_get r ''headSha'')) \<and>
     (\<exists>a. answer 4 ReadAuthority = Some a \<and> authorityCode a r = None))"
proof (cases "valid_attempt r")
  case True
  then have start: "claimSendOnce answer r = claim_from answer r 0 AtAuthority"
    by (simp add: claimSendOnce_def claim_start_def)
  have "fst (claim_from answer r 0 AtAuthority) = CLAIM_RECORDED \<Longrightarrow>
      (\<exists>a. answer 0 ReadAuthority = Some a \<and> authorityCode a r = None) \<and>
      answer 1 (ReadRef (claimRef r)) = Some JNull \<and>
      answer 2 (CreateRefIfAbsent (claimRef r) (js_get r ''headSha'')) = Some (JStr ''CREATED'') \<and>
      (\<exists>v. answer 3 (ReadRef (claimRef r)) = Some v \<and> js_eq v (js_get r ''headSha'')) \<and>
      (\<exists>a. answer 4 ReadAuthority = Some a \<and> authorityCode a r = None)"
    using recorded_authority [of answer r 0] recorded_ref [of answer r 1] recorded_create [of answer r 2]
      recorded_readback [of answer r 3] by (simp add: numeral_eq_Suc)
  then show ?thesis
    using claim_from_calls [of answer r 0 AtAuthority] True by (auto simp: start)
next
  case False
  then have "claimSendOnce answer r = (CLAIM_INVALID_INPUT, [])"
    by (simp add: claimSendOnce_def claim_start_def) (simp add: claim_from.simps)
  then show ?thesis by simp
qed

section \<open>One-shot names\<close>

text \<open>
  What the claims need of a store of names: whoever is told that a create made the name was the
  one who made it, and no create makes a taken name free.
\<close>

locale one_shot =
  fixes create :: "'w \<Rightarrow> string \<Rightarrow> bool \<Rightarrow> 'w \<Rightarrow> bool"
    and taken :: "'w \<Rightarrow> string \<Rightarrow> bool"
  assumes told_created: "create w r True w' \<Longrightarrow> \<not> taken w r \<and> taken w' r"
    and stays_taken: "create w r b w' \<Longrightarrow> taken w q \<Longrightarrow> taken w' q"
begin

lemma told_once: "create w r b w' \<Longrightarrow> taken w r \<Longrightarrow> \<not> b"
  using told_created [of w r w'] by (cases b) auto

end

type_synonym refs = "string \<Rightarrow> string option"

text \<open>
  GitHub's \<open>POST /git/refs\<close>: the ref is made when it is absent and left alone otherwise, and a
  201 is only sent by the request that made it. Any other answer, or none, says nothing.
\<close>

definition github_post :: "refs \<Rightarrow> string \<Rightarrow> jsval \<Rightarrow> exchange \<Rightarrow> refs \<Rightarrow> bool" where
  "github_post refs ref headSha x refs' \<longleftrightarrow>
     (refs' = refs \<or> refs ref = None \<and> refs' = refs(ref \<mapsto> str_or_empty headSha)) \<and>
     (\<forall>body. ex_fetch x = Some (201, body) \<longrightarrow> refs ref = None \<and> refs' = refs(ref \<mapsto> str_or_empty headSha))"

text \<open>A create through the adapter, and whether the adapter says that it made the ref.\<close>

definition adapter_create :: "refs \<Rightarrow> string \<Rightarrow> bool \<Rightarrow> refs \<Rightarrow> bool" where
  "adapter_create refs ref told refs' \<longleftrightarrow>
     (\<exists>r headSha x ad. told = (snd (createRefIfAbsent r ref headSha x ad) = Inr (JStr ''CREATED'')) \<and>
        (if posts r (CreateRefIfAbsent ref headSha) x ad then github_post refs ref headSha x refs' else refs' = refs))"

lemma rest_call_sent: "rest_call x = Inr (status, body) \<Longrightarrow> request_sent x \<and> (\<exists>b. ex_fetch x = Some (status, b))"
  by (auto simp: rest_call_def request_sent_def split: if_splits option.splits prod.splits)

lemma created_posts:
  assumes "snd (createRefIfAbsent r ref headSha x ad) = Inr (JStr ''CREATED'')"
  shows "posts r (CreateRefIfAbsent ref headSha) x ad \<and> (\<exists>b. ex_fetch x = Some (201, b))"
proof -
  obtain body where "write_authorized r ref headSha ad" "rest_call x = Inr (201, body)"
    using assms by (auto simp: createRefIfAbsent_def Let_def split: if_splits sum.splits)
  with rest_call_sent show ?thesis by auto
qed

interpretation github: one_shot adapter_create "\<lambda>refs r. refs r \<noteq> None"
proof
  fix w r w' assume "adapter_create w r True w'"
  then obtain q headSha x ad where told: "snd (createRefIfAbsent q r headSha x ad) = Inr (JStr ''CREATED'')"
    and step: "if posts q (CreateRefIfAbsent r headSha) x ad then github_post w r headSha x w' else w' = w"
    by (auto simp: adapter_create_def)
  from created_posts [OF told] step show "\<not> w r \<noteq> None \<and> w' r \<noteq> None"
    by (auto simp: github_post_def)
next
  fix w r b w' q assume "adapter_create w r b w'" "w q \<noteq> None"
  then show "w' q \<noteq> None" by (auto simp: adapter_create_def github_post_def split: if_splits)
qed

section \<open>Many callers\<close>

text \<open>
  The callers of one repository's claims, each with its own adapter, interleaved call by call.
  \<open>cs_winner\<close> is a history: who was told that it created a ref. Callers may arrive at any
  time, every exchange is arbitrary but for \<^const>\<open>github_post\<close>, and others may add refs.
\<close>

record claimer =
  cl_request :: jsval
  cl_evidence :: jsval
  cl_pc :: claim_pc
  cl_adapter :: adapter

record claim_system =
  cs_refs :: refs
  cs_claimers :: "claimer list"
  cs_winner :: "string \<Rightarrow> nat option"

definition claim_answer :: "string + jsval \<Rightarrow> jsval option" where
  "claim_answer res = (case res of Inl _ \<Rightarrow> None | Inr v \<Rightarrow> Some v)"

definition told_creation :: "claim_call \<Rightarrow> string + jsval \<Rightarrow> bool" where
  "told_creation call res \<longleftrightarrow> is_create call \<and> res = Inr (JStr ''CREATED'')"

inductive claim_step :: "claim_system \<Rightarrow> claim_system \<Rightarrow> bool" where
  arrive: "adapter_new r timeoutMs = Inr ad \<Longrightarrow>
    claim_step s (s\<lparr>cs_claimers := cs_claimers s @
      [\<lparr>cl_request = r, cl_evidence = ev, cl_pc = claim_start r, cl_adapter = ad\<rparr>]\<rparr>)"
| call: "i < length (cs_claimers s) \<Longrightarrow> cs_claimers s ! i = c \<Longrightarrow>
    claim_call_at (cl_request c) (cl_pc c) = Some call \<Longrightarrow>
    adapter_call (cl_request c) (cl_evidence c) call x (cl_adapter c) = (ad, res) \<Longrightarrow>
    (if posts (cl_request c) call x (cl_adapter c)
     then github_post (cs_refs s) (claimRef (cl_request c)) (js_get (cl_request c) ''headSha'') x refs'
     else refs' = cs_refs s) \<Longrightarrow>
    claim_step s (s\<lparr>cs_refs := refs',
      cs_claimers := (cs_claimers s)[i := c\<lparr>cl_pc := claim_next (cl_request c) (cl_pc c) (claim_answer res), cl_adapter := ad\<rparr>],
      cs_winner := (if told_creation call res then (cs_winner s)(claimRef (cl_request c) \<mapsto> i) else cs_winner s)\<rparr>)"
| other: "(\<And>q. cs_refs s q \<noteq> None \<Longrightarrow> refs' q = cs_refs s q) \<Longrightarrow> claim_step s (s\<lparr>cs_refs := refs'\<rparr>)"

definition no_claims :: claim_system where
  "no_claims = \<lparr>cs_refs = Map.empty, cs_claimers = [], cs_winner = Map.empty\<rparr>"

inductive claim_run :: "claim_system \<Rightarrow> bool" where
  start: "claim_run no_claims"
| step: "claim_run s \<Longrightarrow> claim_step s s' \<Longrightarrow> claim_run s'"

text \<open>What a position proves: a caller past the creation was told that it created the ref.\<close>

definition past_creation :: "claim_pc \<Rightarrow> bool" where
  "past_creation pc \<longleftrightarrow> pc \<in> {AtReadback, AtReauthority, Finished CLAIM_RECORDED}"

definition claims_ok :: "claim_system \<Rightarrow> bool" where
  "claims_ok s \<longleftrightarrow>
     (\<forall>q i. cs_winner s q = Some i \<longrightarrow> cs_refs s q \<noteq> None) \<and>
     (\<forall>i < length (cs_claimers s). past_creation (cl_pc (cs_claimers s ! i)) \<longrightarrow>
        cs_winner s (claimRef (cl_request (cs_claimers s ! i))) = Some i)"

lemma start_not_past: "\<not> past_creation (claim_start r)"
  by (simp add: past_creation_def claim_start_def)

lemma next_past:
  assumes "claim_call_at r pc = Some call" and "past_creation (claim_next r pc (claim_answer res))"
  shows "past_creation pc \<or> told_creation call res"
proof (cases pc)
  case AtCreate
  with assms show ?thesis
    by (auto simp: past_creation_def told_creation_def is_create_def claim_answer_def split: sum.splits if_splits)
qed (use assms authority_not_recorded in \<open>auto simp: past_creation_def split: option.splits if_splits\<close>)

text \<open>A step as an observer of the ledger sees it.\<close>

datatype slot = Free | Taken | Won nat

definition claim_ledger :: "claim_system \<Rightarrow> string \<Rightarrow> slot" where
  "claim_ledger s q = (case cs_refs s q of None \<Rightarrow> Free
     | Some _ \<Rightarrow> (case cs_winner s q of None \<Rightarrow> Taken | Some i \<Rightarrow> Won i))"

inductive ledger_step :: "(string \<Rightarrow> slot) \<Rightarrow> (string \<Rightarrow> slot) \<Rightarrow> bool" where
  win: "l q = Free \<Longrightarrow> ledger_step l (l(q := Won i))"
| lose: "(\<And>q. l' q = l q \<or> l q = Free \<and> l' q = Taken) \<Longrightarrow> ledger_step l l'"

inductive_cases claim_stepE: "claim_step s s'"

lemma call_creates:
  assumes "claim_call_at r pc = Some call" and "adapter_call r ev call x ad = (ad', res)"
    and "if posts r call x ad then github_post refs (claimRef r) (js_get r ''headSha'') x refs' else refs' = refs"
  shows "if is_create call then adapter_create refs (claimRef r) (told_creation call res) refs' else refs' = refs"
proof (cases "is_create call")
  case True
  then have "call = CreateRefIfAbsent (claimRef r) (js_get r ''headSha'')"
    using assms(1) by (cases pc) (auto simp: is_create_def)
  with assms(2,3) show ?thesis unfolding adapter_create_def by (auto simp: told_creation_def is_create_def) (metis snd_conv)+
next
  case False
  then have "\<not> posts r call x ad" by (cases call) (auto simp: is_create_def)
  with False assms(3) show ?thesis by simp
qed

lemma call_refs:
  assumes "if posts r call x ad then github_post refs ref headSha x refs' else refs' = refs"
  shows "refs' = refs \<or> refs ref = None \<and> refs' = refs(ref \<mapsto> str_or_empty headSha)"
  using assms by (auto simp: github_post_def split: if_splits)

lemma claims_ok_start: "claims_ok no_claims"
  by (simp add: claims_ok_def no_claims_def)

lemma claims_ok_step:
  assumes "claim_step s s'" and "claims_ok s"
  shows "claims_ok s'"
  using assms(1)
proof cases
  case (arrive r timeoutMs ad ev)
  then show ?thesis using assms(2) start_not_past by (auto simp: claims_ok_def nth_append)
next
  case (call i c call x ad res refs')
  let ?q = "claimRef (cl_request c)"
  have create: "if is_create call then adapter_create (cs_refs s) ?q (told_creation call res) refs' else refs' = cs_refs s"
    by (rule call_creates [OF call(4-6)])
  have keeps: "cs_refs s q \<noteq> None \<Longrightarrow> refs' q \<noteq> None" for q
    using create github.stays_taken [of "cs_refs s" ?q "told_creation call res" refs' q] by (auto split: if_splits)
  have past: "past_creation (cl_pc c) \<or> told_creation call res"
    if "past_creation (claim_next (cl_request c) (cl_pc c) (claim_answer res))"
    by (rule next_past [OF call(4) that])
  show ?thesis
  proof (cases "told_creation call res")
    case True
    then have "cs_refs s ?q = None" "refs' ?q \<noteq> None"
      using create github.told_created [of "cs_refs s" ?q refs'] by (auto simp: told_creation_def)
    moreover from this have "cs_winner s ?q = None" using assms(2) by (auto simp: claims_ok_def)
    moreover have "claimRef (cl_request (cs_claimers s ! j)) \<noteq> ?q"
      if "j < length (cs_claimers s)" "past_creation (cl_pc (cs_claimers s ! j))" for j
      using assms(2) that calculation(3) by (auto simp: claims_ok_def)
    ultimately show ?thesis using assms(2) keeps True call(2,3) by (auto simp: call(1) claims_ok_def nth_list_update)
  next
    case False
    then show ?thesis using assms(2) keeps past call(2,3) by (auto simp: call(1) claims_ok_def nth_list_update)
  qed
next
  case (other refs')
  then show ?thesis using assms(2) by (fastforce simp: claims_ok_def)
qed

lemma claims_ok_run: "claim_run s \<Longrightarrow> claims_ok s"
  by (induction rule: claim_run.induct) (auto intro: claims_ok_start claims_ok_step)

lemma recorded_won:
  assumes "claim_run s" and "i < length (cs_claimers s)" and "cl_pc (cs_claimers s ! i) = Finished CLAIM_RECORDED"
  shows "claim_ledger s (claimRef (cl_request (cs_claimers s ! i))) = Won i"
proof -
  have "cs_winner s (claimRef (cl_request (cs_claimers s ! i))) = Some i"
    using claims_ok_run [OF assms(1)] assms(2,3) by (simp add: claims_ok_def past_creation_def)
  moreover from this have "cs_refs s (claimRef (cl_request (cs_claimers s ! i))) \<noteq> None"
    using claims_ok_run [OF assms(1)] by (auto simp: claims_ok_def)
  ultimately show ?thesis by (auto simp: claim_ledger_def)
qed

text \<open>C14: the claims refine a one-shot ledger. Seen through the store of refs and the history of
  creations, every step of any number of interleaved callers, with lost, late and stale
  answers and foreign refs, is a step of the ledger: a free slot is won or lost, and nothing
  else ever changes; and a caller that records its claim has won the slot of its ref.\<close>

theorem claims_refine_ledger:
  assumes "claim_run s" and "claim_step s s'"
  shows "ledger_step (claim_ledger s) (claim_ledger s') \<and>
    (\<forall>i < length (cs_claimers s'). cl_pc (cs_claimers s' ! i) = Finished CLAIM_RECORDED \<longrightarrow>
       claim_ledger s' (claimRef (cl_request (cs_claimers s' ! i))) = Won i)"
proof
  have ok: "claims_ok s" using assms(1) by (rule claims_ok_run)
  show "\<forall>i < length (cs_claimers s'). cl_pc (cs_claimers s' ! i) = Finished CLAIM_RECORDED \<longrightarrow>
       claim_ledger s' (claimRef (cl_request (cs_claimers s' ! i))) = Won i"
    using recorded_won claim_run.step [OF assms] by blast
  show "ledger_step (claim_ledger s) (claim_ledger s')"
    using assms(2)
  proof cases
    case (arrive r timeoutMs ad ev)
    then have "claim_ledger s' = claim_ledger s" by (simp add: claim_ledger_def fun_eq_iff cong: option.case_cong)
    then show ?thesis by (auto intro: ledger_step.lose)
  next
    case (call i c call x ad res refs')
    let ?q = "claimRef (cl_request c)"
    have create: "if is_create call then adapter_create (cs_refs s) ?q (told_creation call res) refs' else refs' = cs_refs s"
      by (rule call_creates [OF call(4-6)])
    note refs = call_refs [OF call(6)]
    show ?thesis
    proof (cases "told_creation call res")
      case True
      then have "cs_refs s ?q = None" "refs' ?q \<noteq> None"
        using create github.told_created [of "cs_refs s" ?q refs'] by (auto simp: told_creation_def)
      then have "claim_ledger s ?q = Free" and "claim_ledger s' = (claim_ledger s)(?q := Won i)"
        using refs True by (auto simp: call(1) claim_ledger_def fun_eq_iff cong: option.case_cong)
      then show ?thesis by (auto intro: ledger_step.win)
    next
      case False
      have "claim_ledger s' q = claim_ledger s q \<or> claim_ledger s q = Free \<and> claim_ledger s' q = Taken" for q
      proof -
        have "cs_refs s q = None \<longrightarrow> cs_winner s q = None" using ok by (auto simp: claims_ok_def)
        with refs False show ?thesis by (auto simp: call(1) claim_ledger_def split: option.splits if_splits)
      qed
      then show ?thesis by (rule ledger_step.lose)
    qed
  next
    case (other refs')
    have "claim_ledger s' q = claim_ledger s q \<or> claim_ledger s q = Free \<and> claim_ledger s' q = Taken" for q
      using other ok by (cases "cs_refs s q") (auto simp: claim_ledger_def claims_ok_def split: option.splits)
    then show ?thesis by (rule ledger_step.lose)
  qed
qed

text \<open>C13: at most one claim per attempt. In any run of any number of callers, two callers that
  recorded a claim for the same pull request and attempt are the same caller.\<close>

theorem at_most_one_claim:
  assumes "claim_run s" and "i < length (cs_claimers s)" and "j < length (cs_claimers s)"
    and "cl_pc (cs_claimers s ! i) = Finished CLAIM_RECORDED" and "cl_pc (cs_claimers s ! j) = Finished CLAIM_RECORDED"
    and "js_get (cl_request (cs_claimers s ! i)) ''prNumber'' = js_get (cl_request (cs_claimers s ! j)) ''prNumber''"
    and "js_get (cl_request (cs_claimers s ! i)) ''attemptId'' = js_get (cl_request (cs_claimers s ! j)) ''attemptId''"
  shows "i = j"
  using recorded_won [OF assms(1,2,4)] recorded_won [OF assms(1,3,5)] assms(6,7) by (simp add: claimRef_def)

section \<open>Samples\<close>

definition sample_attempt :: jsval where
  "sample_attempt = JObj [(''repository'', JStr ''jan2xo/bke-worker''), (''prNumber'', JInt 7),
     (''headSha'', JStr sample_sha), (''attemptId'', JStr ''attempt-1''), (''workerId'', JStr ''bke-13'')]"

lemma valid_sample: "valid_attempt sample_attempt"
  by code_simp

definition sample_evidence :: jsval where
  "sample_evidence = JObj [(''installationRepository'', JStr ''jan2xo/bke-worker''), (''installationAuthenticated'', JBool True),
     (''authenticatedWorkerId'', JStr ''bke-13''), (''activeWorkerPrCount'', JInt 1), (''currentAttemptId'', JStr ''attempt-1'')]"

definition sample_authority :: jsval where
  "sample_authority = JObj [(''repository'', JStr ''jan2xo/bke-worker''), (''installationRepository'', JStr ''jan2xo/bke-worker''),
     (''installationAuthenticated'', JBool True), (''prNumber'', JInt 7), (''prOpen'', JBool True), (''headSha'', JStr sample_sha),
     (''attemptId'', JStr ''attempt-1''), (''assignedWorkerId'', JStr ''bke-13''), (''authenticatedWorkerId'', JStr ''bke-13''),
     (''activeWorkerPrCount'', JInt 1), (''prWorkerCount'', JInt 1)]"

definition sample_ref :: string where "sample_ref = ''refs/bke/claims/7/attempt-1''"

definition exchange_of :: "int \<Rightarrow> jsval \<Rightarrow> exchange" where
  "exchange_of status body = \<lparr>ex_token = Some (JStr ''t''), ex_aborted = False, ex_late = False, ex_fetch = Some (status, Some body)\<rparr>"

definition sample_pull_answer :: exchange where
  "sample_pull_answer = exchange_of 200 (JObj [(''number'', JInt 7), (''state'', JStr ''open''),
     (''head'', JObj [(''sha'', JStr sample_sha)]), (''labels'', JArr [JObj [(''name'', JStr ''bke-worker:bke-13'')]])])"

definition sample_ref_answer :: "int \<Rightarrow> exchange" where
  "sample_ref_answer status = exchange_of status (JObj [(''ref'', JStr sample_ref), (''object'', JObj [(''sha'', JStr sample_sha)])])"

definition sample_exchanges :: "exchange list" where
  "sample_exchanges = [sample_pull_answer, sample_ref_answer 404, sample_ref_answer 201, sample_ref_answer 200, sample_pull_answer]"

text \<open>Calls of one caller in a row; a post to a taken ref is not executed.\<close>

fun exec_calls :: "nat \<Rightarrow> exchange list \<Rightarrow> claim_system \<Rightarrow> claim_system" where
  "exec_calls i [] s = s"
| "exec_calls i (x # xs) s =
     (if length (cs_claimers s) \<le> i then s
      else let c = cs_claimers s ! i; r = cl_request c in
      case claim_call_at r (cl_pc c) of None \<Rightarrow> s
      | Some call \<Rightarrow>
          if posts r call x (cl_adapter c) \<and> cs_refs s (claimRef r) \<noteq> None then s
          else case adapter_call r (cl_evidence c) call x (cl_adapter c) of (ad, res) \<Rightarrow>
          exec_calls i xs (s\<lparr>cs_refs := (if posts r call x (cl_adapter c)
              then (cs_refs s)(claimRef r \<mapsto> str_or_empty (js_get r ''headSha'')) else cs_refs s),
            cs_claimers := (cs_claimers s)[i := c\<lparr>cl_pc := claim_next r (cl_pc c) (claim_answer res), cl_adapter := ad\<rparr>],
            cs_winner := (if told_creation call res then (cs_winner s)(claimRef r \<mapsto> i) else cs_winner s)\<rparr>))"

lemma exec_calls_run: "claim_run s \<Longrightarrow> claim_run (exec_calls i xs s)"
proof (induction i xs s rule: exec_calls.induct)
  case (2 i x xs s)
  let ?c = "cs_claimers s ! i"
  show ?case
  proof (cases "i < length (cs_claimers s)")
    case i: True
    show ?thesis
    proof (cases "claim_call_at (cl_request ?c) (cl_pc ?c)")
      case (Some call)
      obtain ad res where res: "adapter_call (cl_request ?c) (cl_evidence ?c) call x (cl_adapter ?c) = (ad, res)" by fastforce
      show ?thesis
      proof (cases "posts (cl_request ?c) call x (cl_adapter ?c) \<and> cs_refs s (claimRef (cl_request ?c)) \<noteq> None")
        case False
        define refs' where "refs' = (if posts (cl_request ?c) call x (cl_adapter ?c)
          then (cs_refs s)(claimRef (cl_request ?c) \<mapsto> str_or_empty (js_get (cl_request ?c) ''headSha'')) else cs_refs s)"
        let ?s = "s\<lparr>cs_refs := refs', cs_claimers := (cs_claimers s)[i := ?c\<lparr>cl_pc := claim_next (cl_request ?c) (cl_pc ?c) (claim_answer res),
          cl_adapter := ad\<rparr>], cs_winner := (if told_creation call res then (cs_winner s)(claimRef (cl_request ?c) \<mapsto> i) else cs_winner s)\<rparr>"
        have "claim_step s ?s"
          by (rule claim_step.call [OF i refl Some res]) (use False in \<open>auto simp: refs'_def github_post_def\<close>)
        then have "claim_run ?s" by (rule claim_run.step [OF 2(2)])
        then have "claim_run (exec_calls i xs ?s)"
          using 2(1) [OF _ refl refl Some _ res [symmetric]] i False unfolding refs'_def by simp
        moreover have "exec_calls i (x # xs) s = exec_calls i xs ?s"
          unfolding refs'_def exec_calls.simps Let_def using i False by (auto simp: Some res)
        ultimately show ?thesis by simp
      qed (use 2(2) i Some in \<open>simp add: Let_def\<close>)
    qed (use 2(2) i in simp)
  qed (use 2(2) in simp)
qed simp

definition sample_claims :: "nat \<Rightarrow> claim_system" where
  "sample_claims n = no_claims\<lparr>cs_claimers := replicate n \<lparr>cl_request = sample_attempt, cl_evidence = sample_evidence,
     cl_pc = AtAuthority, cl_adapter = \<lparr>ad_accessProven = False, ad_writeAuthorityProven = False, ad_createAttempted = False\<rparr>\<rparr>\<rparr>"

lemma sample_claims_run: "claim_run (sample_claims n)"
proof (induction n)
  case 0
  then show ?case using claim_run.start by (simp add: sample_claims_def no_claims_def)
next
  case (Suc n)
  have "adapter_new sample_attempt (JInt 5000) = Inr \<lparr>ad_accessProven = False, ad_writeAuthorityProven = False, ad_createAttempted = False\<rparr>"
    by code_simp
  from claim_step.arrive [OF this, of "sample_claims n" sample_evidence]
  have "claim_step (sample_claims n) (sample_claims (Suc n))"
    by (simp add: sample_claims_def claim_start_def valid_sample replicate_append_same)
  with Suc show ?case by (rule claim_run.step)
qed

lemma sample_first_claim: "claim_run (exec_calls 0 (take n sample_exchanges) (sample_claims 2))"
  by (rule exec_calls_run [OF sample_claims_run])

definition sample_recorded :: claim_system where
  "sample_recorded = exec_calls 1 [sample_pull_answer, sample_ref_answer 200]
     (exec_calls 0 sample_exchanges (sample_claims 2))"

lemma sample_recorded_run: "claim_run sample_recorded"
  unfolding sample_recorded_def by (intro exec_calls_run sample_claims_run)

lemma sample_recorded_codes: "map cl_pc (cs_claimers sample_recorded) = [Finished CLAIM_RECORDED, Finished CLAIM_ALREADY_EXISTS]"
  by code_simp

theorem at_most_one_claim_witness:
  "cl_pc (cs_claimers sample_recorded ! 0) = Finished CLAIM_RECORDED \<and>
   cl_pc (cs_claimers sample_recorded ! 1) \<noteq> Finished CLAIM_RECORDED"
proof -
  have len: "length (cs_claimers sample_recorded) = 2"
    using arg_cong [OF sample_recorded_codes, of length] by simp
  have same: "map cl_request (cs_claimers sample_recorded) = [sample_attempt, sample_attempt]" by code_simp
  have nth: "cl_request (cs_claimers sample_recorded ! j) = sample_attempt" if "j < 2" for j
    using that len same nth_map [of j "cs_claimers sample_recorded" cl_request] by (auto simp: less_2_cases_iff)
  have first: "cl_pc (cs_claimers sample_recorded ! 0) = Finished CLAIM_RECORDED"
    using nth_map [of 0 "cs_claimers sample_recorded" cl_pc] len sample_recorded_codes by simp
  have "0 = (1 :: nat)" if "cl_pc (cs_claimers sample_recorded ! 1) = Finished CLAIM_RECORDED"
    by (rule at_most_one_claim [OF sample_recorded_run _ _ first that]) (simp_all add: len nth)
  with first show ?thesis by auto
qed


text \<open>The step in which the first caller of the samples creates its ref.\<close>

definition sample_before :: claim_system where
  "sample_before = exec_calls 0 (take 2 sample_exchanges) (sample_claims 2)"

definition sample_after :: claim_system where
  "sample_after = sample_before\<lparr>cs_refs := (cs_refs sample_before)(sample_ref \<mapsto> sample_sha),
     cs_claimers := (cs_claimers sample_before)[0 := (cs_claimers sample_before ! 0)\<lparr>cl_pc := AtReadback,
       cl_adapter := \<lparr>ad_accessProven = True, ad_writeAuthorityProven = False, ad_createAttempted = True\<rparr>\<rparr>],
     cs_winner := (cs_winner sample_before)(sample_ref \<mapsto> 0)\<rparr>"

lemma sample_before_facts:
  "0 < length (cs_claimers sample_before)" "cl_request (cs_claimers sample_before ! 0) = sample_attempt"
  "cl_pc (cs_claimers sample_before ! 0) = AtCreate" "cl_evidence (cs_claimers sample_before ! 0) = sample_evidence"
  "cs_refs sample_before sample_ref = None"
  "cl_adapter (cs_claimers sample_before ! 0) = \<lparr>ad_accessProven = True, ad_writeAuthorityProven = True, ad_createAttempted = False\<rparr>"
  by (code_simp, code_simp, code_simp, code_simp, code_simp, code_simp)

lemma sample_creates: "claim_step sample_before sample_after"
proof -
  let ?c = "cs_claimers sample_before ! 0"
  let ?call = "CreateRefIfAbsent sample_ref (JStr sample_sha)"
  have ref: "claimRef sample_attempt = sample_ref" and sha: "js_get sample_attempt ''headSha'' = JStr sample_sha"
    by code_simp+
  have "claim_call_at (cl_request ?c) (cl_pc ?c) = Some ?call" by (simp add: sample_before_facts ref sha)
  moreover have "adapter_call (cl_request ?c) (cl_evidence ?c) ?call (sample_ref_answer 201) (cl_adapter ?c) =
      (\<lparr>ad_accessProven = True, ad_writeAuthorityProven = False, ad_createAttempted = True\<rparr>, Inr (JStr ''CREATED''))"
    unfolding sample_before_facts by code_simp
  moreover have "posts (cl_request ?c) ?call (sample_ref_answer 201) (cl_adapter ?c)"
    unfolding sample_before_facts by code_simp
  ultimately have "claim_step sample_before (sample_before\<lparr>cs_refs := (cs_refs sample_before)(sample_ref \<mapsto> sample_sha),
      cs_claimers := (cs_claimers sample_before)[0 := ?c\<lparr>cl_pc := claim_next (cl_request ?c) (cl_pc ?c) (claim_answer (Inr (JStr ''CREATED''))),
        cl_adapter := \<lparr>ad_accessProven = True, ad_writeAuthorityProven = False, ad_createAttempted = True\<rparr>\<rparr>],
      cs_winner := (if told_creation ?call (Inr (JStr ''CREATED'')) then (cs_winner sample_before)(claimRef (cl_request ?c) \<mapsto> 0) else cs_winner sample_before)\<rparr>)"
    by (intro claim_step.call [OF sample_before_facts(1) refl]) (auto simp: github_post_def sample_before_facts ref sha)
  moreover have "told_creation ?call (Inr (JStr ''CREATED''))" by (simp add: told_creation_def is_create_def)
  moreover have "claim_next (cl_request ?c) (cl_pc ?c) (claim_answer (Inr (JStr ''CREATED''))) = AtReadback"
    by (simp add: sample_before_facts claim_answer_def)
  ultimately show ?thesis by (simp add: sample_after_def sample_before_facts(2) ref)
qed

theorem claims_refine_ledger_witness:
  "claim_ledger sample_before sample_ref = Free \<and> claim_ledger sample_after sample_ref = Won 0 \<and>
   ledger_step (claim_ledger sample_before) (claim_ledger sample_after)"
proof -
  have "claim_run sample_before" unfolding sample_before_def by (intro exec_calls_run sample_claims_run)
  from claims_refine_ledger [OF this sample_creates] show ?thesis
    by (simp add: claim_ledger_def sample_before_facts) (simp add: sample_after_def)
qed

text \<open>The answers of a recorded claim, as the protocol sees them.\<close>

definition sample_answers :: "nat \<Rightarrow> claim_call \<Rightarrow> jsval option" where
  "sample_answers n call = map_of [(0, sample_authority), (1, JNull), (2, JStr ''CREATED''), (3, JStr sample_sha), (4, sample_authority)] n"

theorem claim_ends_and_tries_once_witness:
  "fst (claimSendOnce sample_answers sample_attempt) = CLAIM_RECORDED \<and>
   length (filter is_create (snd (claimSendOnce sample_answers sample_attempt))) = 1 \<and>
   sample_answers 1 (ReadRef sample_ref) = Some JNull"
proof -
  have recorded: "fst (claimSendOnce sample_answers sample_attempt) = CLAIM_RECORDED"
      "length (filter is_create (snd (claimSendOnce sample_answers sample_attempt))) = 1"
    by code_simp+
  moreover have "claimRef sample_attempt = sample_ref" by code_simp
  ultimately show ?thesis using claim_ends_and_tries_once [of sample_answers sample_attempt] by simp
qed

end
