(* ===== verification/ExtensionProtocol.thy ===== *)
theory ExtensionProtocol imports ExtensionBase
begin

text \<open>
  \<open>browser-extension/src/protocol.ts\<close>: the configuration of the bridge and the status a content
  script reports of a ChatGPT page. \<open>new URL\<close> is the platform's and a parameter.
\<close>

definition PROTOCOL_VERSION :: int where "PROTOCOL_VERSION = 1"

datatype connection_state = DISABLED | UNPAIRED | READY_FOR_TRANSPORT

record bridge_config =
  bc_workerId :: string
  bc_controllerUrl :: string

text \<open>The controller's URL is also read for its host name.\<close>

record controller_url = url +
  url_hostname :: string

definition isValidWorkerId :: "string \<Rightarrow> bool" where
  "isValidWorkerId v = worker_id_re (js_trim v)"

definition isAllowedControllerUrl :: "(string \<Rightarrow> controller_url option) \<Rightarrow> string \<Rightarrow> bool" where
  "isAllowedControllerUrl parse v =
     (let trimmed = js_trim v in
      if trimmed = [] then True
      else case parse trimmed of None \<Rightarrow> False
      | Some u \<Rightarrow>
          if url_username u \<noteq> [] \<or> url_password u \<noteq> [] \<or> url_hash u \<noteq> [] then False
          else if url_protocol u = ''wss:'' then True
          else if url_protocol u \<noteq> ''ws:'' then False
          else url_hostname u \<in> {''127.0.0.1'', ''localhost''})"

definition validateConfig ::
  "(string \<Rightarrow> controller_url option) \<Rightarrow> string \<Rightarrow> string \<Rightarrow> string + bridge_config" where
  "validateConfig parse workerId controllerUrl =
     (let w = js_trim workerId; u = js_trim controllerUrl in
      if \<not> isValidWorkerId w then Inl ''WORKER_ID_INVALID''
      else if \<not> isAllowedControllerUrl parse u then Inl ''CONTROLLER_URL_INVALID''
      else Inr \<lparr>bc_workerId = w, bc_controllerUrl = u\<rparr>)"

definition deriveConnectionState :: "bridge_config \<Rightarrow> connection_state" where
  "deriveConnectionState c =
     (if bc_workerId c = [] then DISABLED else if bc_controllerUrl c = [] then UNPAIRED else READY_FOR_TRANSPORT)"

definition chat_origin :: "url_parser \<Rightarrow> string \<Rightarrow> bool" where
  "chat_origin parse u = (case parse u of None \<Rightarrow> False | Some r \<Rightarrow> url_origin r = CHATGPT_ORIGIN)"

definition isValidChatGptPageStatus :: "url_parser \<Rightarrow> jsval \<Rightarrow> bool" where
  "isValidChatGptPageStatus parse v \<longleftrightarrow> is_reference v \<and>
     js_eq (js_get v ''protocolVersion'') (JInt PROTOCOL_VERSION) \<and> is_JStr (js_get v ''observedAt'') \<and>
     is_JStr (js_get v ''url'') \<and> is_JBool (js_get v ''visible'') \<and> is_JBool (js_get v ''composerAvailable'') \<and>
     is_JBool (js_get v ''turnBusy'') \<and> chat_origin parse (str_or_empty (js_get v ''url''))"

section \<open>Trimming\<close>

lemma dropWhile_trim: "dropWhile p (rev (dropWhile p (rev (dropWhile p s)))) = rev (dropWhile p (rev (dropWhile p s)))"
proof (cases "dropWhile p s")
  case (Cons c t)
  then have "\<not> p c" by (metis hd_dropWhile list.sel(1) list.distinct(1))
  moreover from this have "dropWhile p (rev t @ [c]) \<noteq> []" by auto
  then have "rev (dropWhile p (rev t @ [c])) = c # rev (dropWhile p (rev t)) \<or> rev (dropWhile p (rev t @ [c])) = [c]"
    using \<open>\<not> p c\<close> by (cases "\<forall>x\<in>set t. p x") (auto simp: dropWhile_append)
  ultimately show ?thesis using Cons by auto
next
  case Nil
  then show ?thesis by (simp only: rev.simps dropWhile.simps)
qed

lemma js_trim_idem [simp]: "js_trim (js_trim s) = js_trim s"
  unfolding js_trim_def by (subst dropWhile_trim) simp

text \<open>
  A configuration that is saved is normal: validating it again changes nothing, and it is the
  state of the connection that the worker ID is present.
\<close>

lemma validateConfig_idem:
  assumes "validateConfig parse w u = Inr c"
  shows "validateConfig parse (bc_workerId c) (bc_controllerUrl c) = Inr c" "deriveConnectionState c \<noteq> DISABLED"
proof -
  have c: "c = \<lparr>bc_workerId = js_trim w, bc_controllerUrl = js_trim u\<rparr>" "isValidWorkerId (js_trim w)"
      "isAllowedControllerUrl parse (js_trim u)"
    using assms by (auto simp: validateConfig_def Let_def split: if_splits)
  then show "validateConfig parse (bc_workerId c) (bc_controllerUrl c) = Inr c"
    by (simp add: validateConfig_def Let_def)
  show "deriveConnectionState c \<noteq> DISABLED"
    using c by (auto simp: deriveConnectionState_def isValidWorkerId_def worker_id_re_def)
qed

end
