(* ===== verification/TargetBinding.thy ===== *)
theory TargetBinding imports ExtensionProtocol
begin

text \<open>
  \<open>browser-extension/src/target-binding.ts\<close>: the tab the owner has selected and the page status
  observed in it. The operations are asynchronous: each one runs to its next \<open>await\<close>, and any
  other operation or browser event may run before it resumes. An operation that waits is a
  program point with its local variables; the answers of the browser (the tabs, the top frame, the
  guarded action) arrive with the step that resumes it. Objects the code compares by reference
  carry the number of their allocation.
\<close>

section \<open>State\<close>

record selected =
  sl_ref :: nat
  sl_workerId :: string
  sl_keySha256 :: string
  sl_tabId :: int
  sl_documentId :: "string option"
  sl_url :: "string option"

record seen_status =
  sn_ref :: nat
  sn_payload :: jsval

record binding =
  bd_selected :: "selected option"
  bd_status :: "seen_status option"
  bd_generation :: nat
  bd_navigationEpoch :: nat
  bd_next_ref :: nat

definition fresh_binding :: binding where
  "fresh_binding = \<lparr>bd_selected = None, bd_status = None, bd_generation = 0, bd_navigationEpoch = 0, bd_next_ref = 0\<rparr>"

text \<open>The browser's side: how URLs parse and the extension's own ID.\<close>

record browser_env =
  be_parse :: url_parser
  be_extensionId :: string

definition invalidate :: "binding \<Rightarrow> binding" where
  "invalidate b = b\<lparr>bd_generation := Suc (bd_generation b), bd_selected := None, bd_status := None\<rparr>"

definition sameOwner :: "binding \<Rightarrow> string \<Rightarrow> string \<Rightarrow> bool" where
  "sameOwner b workerId keySha256 \<longleftrightarrow>
     (case bd_selected b of None \<Rightarrow> False | Some s \<Rightarrow> sl_workerId s = workerId \<and> sl_keySha256 s = keySha256)"

definition tabChanged :: "int \<Rightarrow> binding \<Rightarrow> binding" where
  "tabChanged tabId b =
     (let b' = b\<lparr>bd_navigationEpoch := Suc (bd_navigationEpoch b)\<rparr> in
      if map_option sl_tabId (bd_selected b') = Some tabId then invalidate b' else b')"

section \<open>Tabs and frames\<close>

definition isChatUrl :: "url_parser \<Rightarrow> jsval \<Rightarrow> bool" where
  "isChatUrl parse v \<longleftrightarrow> is_JStr v \<and> chat_origin parse (str_or_empty v)"

definition safeTab :: "url_parser \<Rightarrow> jsval \<Rightarrow> bool" where
  "safeTab parse tab \<longleftrightarrow> is_safe_integer (js_get tab ''id'') \<and> 0 \<le> the_int (js_get tab ''id'') \<and>
     js_eq (js_get tab ''incognito'') (JBool False) \<and> isChatUrl parse (js_get tab ''url'')"

text \<open>\<^const>\<open>None\<close> is a call that throws.\<close>

definition census :: "url_parser \<Rightarrow> jsval option \<Rightarrow> int \<Rightarrow> string \<Rightarrow> bool" where
  "census parse answer tabId u =
     (case answer of Some (JArr [tab]) \<Rightarrow> safeTab parse tab \<and> js_eq (js_get tab ''id'') (JInt tabId) \<and> js_eq (js_get tab ''url'') (JStr u)
      | _ \<Rightarrow> False)"

definition frameMatches :: "jsval option \<Rightarrow> string \<Rightarrow> string \<Rightarrow> bool" where
  "frameMatches answer documentId u =
     (case answer of None \<Rightarrow> False
      | Some frame \<Rightarrow> js_eq (js_get frame ''url'') (JStr u) \<and> js_eq (js_get frame ''documentId'') (JStr documentId) \<and>
          js_eq (js_get frame ''documentLifecycle'') (JStr ''active'') \<and>
          js_eq (js_get frame ''frameType'') (JStr ''outermost_frame'') \<and>
          js_eq (js_get frame ''parentFrameId'') (JInt (- 1)) \<and> js_get frame ''errorOccurred'' \<noteq> JBool True)"

text \<open>\<open>/^[a-f0-9]{8}(?:-[a-f0-9]{4}){3}-[a-f0-9]{12}$/i\<close>.\<close>

definition uuid_re :: "string \<Rightarrow> bool" where
  "uuid_re s \<longleftrightarrow> length s = 36 \<and> list_all (\<lambda>k. if k \<in> {8, 13, 18, 23} then s ! k = CHR ''-'' else is_hex (s ! k)) [0..<36]"

section \<open>Operations\<close>

datatype outcome =
    TargetBlocked string
  | TargetSelected
  | TargetObserved
  | TargetStatus "jsval option"
  | TargetValue jsval

text \<open>The locals of \<open>withCurrentTargetObservation\<close>.\<close>

record guard =
  gd_snapshot :: selected
  gd_seen :: seen_status
  gd_started :: nat
  gd_workerId :: string
  gd_keySha256 :: string

text \<open>Who awaits \<open>current\<close>: a caller outside, or the guard before or after its action.\<close>

datatype caller = Alone | Before guard | After guard jsval

datatype point =
    SelectTabs nat nat string string
  | ObserveTabs selected nat jsval string string
  | ObserveFrame selected nat jsval string string
  | CurrentTabs caller selected seen_status nat string string
  | CurrentFrame caller selected seen_status nat string string
  | Returned caller "seen_status option"
  | Running guard
  | Done outcome

definition select_start :: "string \<Rightarrow> string \<Rightarrow> binding \<Rightarrow> binding \<times> point" where
  "select_start workerId keySha256 b =
     (let b' = invalidate b in
      if \<not> isValidWorkerId workerId \<or> js_trim workerId \<noteq> workerId \<or> \<not> hash_re keySha256
      then (b', Done (TargetBlocked ''TARGET_OWNER_INVALID''))
      else (b', SelectTabs (bd_generation b') (bd_navigationEpoch b') workerId keySha256))"

definition select_resume ::
  "browser_env \<Rightarrow> nat \<Rightarrow> nat \<Rightarrow> string \<Rightarrow> string \<Rightarrow> jsval option \<Rightarrow> binding \<Rightarrow> binding \<times> point" where
  "select_resume env generationAtStart navigationAtStart workerId keySha256 answer b =
     (case answer of None \<Rightarrow> (b, Done (TargetBlocked ''TARGET_TABS_UNAVAILABLE''))
      | Some tabs \<Rightarrow>
          if bd_generation b \<noteq> generationAtStart \<or> bd_navigationEpoch b \<noteq> navigationAtStart
          then (b, Done (TargetBlocked ''TARGET_SELECTION_STALE''))
          else (case tabs of
              JArr [tab] \<Rightarrow>
                if \<not> safeTab (be_parse env) tab then (b, Done (TargetBlocked ''TARGET_NOT_UNIQUE''))
                else (b\<lparr>bd_selected := Some \<lparr>sl_ref = bd_next_ref b, sl_workerId = workerId, sl_keySha256 = keySha256,
                         sl_tabId = the_int (js_get tab ''id''), sl_documentId = None, sl_url = None\<rparr>,
                       bd_next_ref := Suc (bd_next_ref b)\<rparr>, Done TargetSelected)
            | _ \<Rightarrow> (b, Done (TargetBlocked ''TARGET_NOT_UNIQUE''))))"

definition observe_start ::
  "browser_env \<Rightarrow> jsval \<Rightarrow> jsval \<Rightarrow> string \<Rightarrow> string \<Rightarrow> binding \<Rightarrow> binding \<times> point" where
  "observe_start env payload sender workerId keySha256 b =
     (case bd_selected b of None \<Rightarrow> (b, Done (TargetBlocked ''TARGET_NOT_SELECTED''))
      | Some cur \<Rightarrow>
          let deny = (\<lambda>c. (invalidate b, Done (TargetBlocked c)));
              documentId = str_or_empty (js_get sender ''documentId''); u = str_or_empty (js_get sender ''url'') in
          if \<not> sameOwner b workerId keySha256 then deny ''TARGET_OWNER_CHANGED''
          else if \<not> isValidChatGptPageStatus (be_parse env) payload \<or>
             \<not> js_eq (js_get sender ''id'') (JStr (be_extensionId env)) \<or> \<not> js_eq (js_get sender ''frameId'') (JInt 0) \<or>
             \<not> js_eq (js_get sender ''documentLifecycle'') (JStr ''active'') \<or>
             \<not> is_JStr (js_get sender ''documentId'') \<or> \<not> uuid_re documentId \<or>
             \<not> safeTab (be_parse env) (js_get sender ''tab'') \<or>
             \<not> js_eq (js_get (js_get sender ''tab'') ''id'') (JInt (sl_tabId cur)) \<or>
             \<not> js_eq (js_get sender ''url'') (js_get payload ''url'') \<or> \<not> isChatUrl (be_parse env) (js_get sender ''url'')
          then deny ''TARGET_SENDER_DENIED''
          else if sl_documentId cur \<noteq> None \<and> sl_documentId cur \<noteq> Some documentId then deny ''TARGET_DOCUMENT_CHANGED''
          else if sl_url cur \<noteq> None \<and> sl_url cur \<noteq> Some u then deny ''TARGET_URL_CHANGED''
          else (b, ObserveTabs cur (bd_generation b) payload documentId u))"

text \<open>\<open>selected !== s\<close>.\<close>

definition other_selected :: "binding \<Rightarrow> selected \<Rightarrow> bool" where
  "other_selected b s \<longleftrightarrow> map_option sl_ref (bd_selected b) \<noteq> Some (sl_ref s)"

definition observe_tabs ::
  "browser_env \<Rightarrow> selected \<Rightarrow> nat \<Rightarrow> jsval \<Rightarrow> string \<Rightarrow> string \<Rightarrow> jsval option \<Rightarrow> binding \<Rightarrow> binding \<times> point" where
  "observe_tabs env cur started payload documentId u answer b =
     (if \<not> census (be_parse env) answer (sl_tabId cur) u
      then (invalidate b, Done (TargetBlocked ''TARGET_CENSUS_CHANGED''))
      else (b, ObserveFrame cur started payload documentId u))"

definition observe_frame ::
  "selected \<Rightarrow> nat \<Rightarrow> jsval \<Rightarrow> string \<Rightarrow> string \<Rightarrow> jsval option \<Rightarrow> binding \<Rightarrow> binding \<times> point" where
  "observe_frame cur started payload documentId u answer b =
     (if \<not> frameMatches answer documentId u
      then (invalidate b, Done (TargetBlocked ''TARGET_CENSUS_CHANGED''))
      else if bd_generation b \<noteq> started \<or> other_selected b cur
      then (b, Done (TargetBlocked ''TARGET_OBSERVATION_STALE''))
      else (b\<lparr>bd_selected := Some (cur\<lparr>sl_ref := bd_next_ref b, sl_documentId := Some documentId, sl_url := Some u\<rparr>),
              bd_status := Some \<lparr>sn_ref = Suc (bd_next_ref b), sn_payload = payload\<rparr>,
              bd_next_ref := Suc (Suc (bd_next_ref b))\<rparr>, Done TargetObserved))"

text \<open>The result of \<open>current\<close>, handed to whoever awaits it.\<close>

fun return_current :: "caller \<Rightarrow> seen_status option \<Rightarrow> point" where
  "return_current Alone r = Done (TargetStatus (map_option sn_payload r))"
| "return_current c r = Returned c r"

definition current_start :: "caller \<Rightarrow> string \<Rightarrow> string \<Rightarrow> binding \<Rightarrow> binding \<times> point" where
  "current_start c workerId keySha256 b =
     (case (bd_selected b, bd_status b) of
        (Some snapshot, Some seen) \<Rightarrow>
          if \<not> sameOwner b workerId keySha256 then (invalidate b, return_current c None)
          else (case (sl_documentId snapshot, sl_url snapshot) of
              (Some documentId, Some u) \<Rightarrow> (b, CurrentTabs c snapshot seen (bd_generation b) documentId u)
            | _ \<Rightarrow> (invalidate b, return_current c None))
      | _ \<Rightarrow> (b, return_current c None))"

definition current_tabs ::
  "browser_env \<Rightarrow> caller \<Rightarrow> selected \<Rightarrow> seen_status \<Rightarrow> nat \<Rightarrow> string \<Rightarrow> string \<Rightarrow> jsval option \<Rightarrow> binding \<Rightarrow> binding \<times> point" where
  "current_tabs env c snapshot seen started documentId u answer b =
     (if \<not> census (be_parse env) answer (sl_tabId snapshot) u then (invalidate b, return_current c None)
      else (b, CurrentFrame c snapshot seen started documentId u))"

definition current_frame ::
  "caller \<Rightarrow> selected \<Rightarrow> seen_status \<Rightarrow> nat \<Rightarrow> string \<Rightarrow> string \<Rightarrow> jsval option \<Rightarrow> binding \<Rightarrow> binding \<times> point" where
  "current_frame c snapshot seen started documentId u answer b =
     (if \<not> frameMatches answer documentId u then (invalidate b, return_current c None)
      else if bd_generation b \<noteq> started \<or> other_selected b snapshot then (b, return_current c None)
      else (b, return_current c (Some seen)))"

text \<open>What makes the guard give up: another selection, another status or another generation.\<close>

definition guard_changed :: "guard \<Rightarrow> binding \<Rightarrow> bool" where
  "guard_changed g b \<longleftrightarrow> other_selected b (gd_snapshot g) \<or>
     map_option sn_ref (bd_status b) \<noteq> Some (sn_ref (gd_seen g)) \<or> bd_generation b \<noteq> gd_started g"

definition guard_start :: "string \<Rightarrow> string \<Rightarrow> binding \<Rightarrow> binding \<times> point" where
  "guard_start workerId keySha256 b =
     (case (bd_selected b, bd_status b) of
        (Some snapshot, Some seen) \<Rightarrow>
          current_start (Before \<lparr>gd_snapshot = snapshot, gd_seen = seen, gd_started = bd_generation b,
            gd_workerId = workerId, gd_keySha256 = keySha256\<rparr>) workerId keySha256 b
      | _ \<Rightarrow> (b, Done (TargetBlocked ''TARGET_NATIVE_OBSERVATION_UNAVAILABLE'')))"

fun guard_resume :: "caller \<Rightarrow> seen_status option \<Rightarrow> binding \<Rightarrow> binding \<times> point" where
  "guard_resume (Before g) r b =
     (if r = None \<or> guard_changed g b then (b, Done (TargetBlocked ''TARGET_NATIVE_OBSERVATION_UNAVAILABLE''))
      else (b, Running g))"
| "guard_resume (After g v) r b =
     (if map_option sn_ref r \<noteq> Some (sn_ref (gd_seen g)) \<or> guard_changed g b
      then (b, Done (TargetBlocked ''TARGET_NATIVE_OBSERVATION_REVOKED''))
      else (b, Done (TargetValue v)))"
| "guard_resume Alone r b = (b, Done (TargetStatus (map_option sn_payload r)))"

definition guard_ran :: "guard \<Rightarrow> jsval option \<Rightarrow> binding \<Rightarrow> binding \<times> point" where
  "guard_ran g answer b =
     (case answer of None \<Rightarrow> (b, Done (TargetBlocked ''TARGET_NATIVE_PROOF_UNCERTAIN''))
      | Some v \<Rightarrow> current_start (After g v) (gd_workerId g) (gd_keySha256 g) b)"

section \<open>Interleaved runs\<close>

fun resume :: "browser_env \<Rightarrow> point \<Rightarrow> jsval option \<Rightarrow> binding \<Rightarrow> binding \<times> point" where
  "resume env (SelectTabs g n w k) answer b = select_resume env g n w k answer b"
| "resume env (ObserveTabs cur g payload d u) answer b = observe_tabs env cur g payload d u answer b"
| "resume env (ObserveFrame cur g payload d u) answer b = observe_frame cur g payload d u answer b"
| "resume env (CurrentTabs c s sn g d u) answer b = current_tabs env c s sn g d u answer b"
| "resume env (CurrentFrame c s sn g d u) answer b = current_frame c s sn g d u answer b"
| "resume env (Returned c r) answer b = guard_resume c r b"
| "resume env (Running g) answer b = guard_ran g answer b"
| "resume env (Done out) answer b = (b, Done out)"

datatype binding_event =
    StartSelect string string
  | StartObserve jsval jsval string string
  | StartCurrent string string
  | StartGuarded string string
  | Resume nat "jsval option"
  | TabChanged int
  | Invalidate

type_synonym binding_world = "binding \<times> point list"

definition started :: "binding_world \<Rightarrow> (binding \<Rightarrow> binding \<times> point) \<Rightarrow> binding_world" where
  "started w f = (case f (fst w) of (b, p) \<Rightarrow> (b, snd w @ [p]))"

fun binding_step :: "browser_env \<Rightarrow> binding_event \<Rightarrow> binding_world \<Rightarrow> binding_world" where
  "binding_step env (StartSelect w k) s = started s (select_start w k)"
| "binding_step env (StartObserve payload sender w k) s = started s (observe_start env payload sender w k)"
| "binding_step env (StartCurrent w k) s = started s (current_start Alone w k)"
| "binding_step env (StartGuarded w k) s = started s (guard_start w k)"
| "binding_step env (Resume i answer) s =
     (if i < length (snd s) then (case resume env (snd s ! i) answer (fst s) of (b, p) \<Rightarrow> (b, (snd s)[i := p])) else s)"
| "binding_step env (TabChanged t) s = (tabChanged t (fst s), snd s)"
| "binding_step env Invalidate s = (invalidate (fst s), snd s)"

lemma started_eq: "started w f = (fst (f (fst w)), snd w @ [snd (f (fst w))])"
  by (simp add: started_def split: prod.split)

lemma resume_step_eq:
  "binding_step env (Resume i answer) s = (if i < length (snd s)
     then (fst (resume env (snd s ! i) answer (fst s)), (snd s)[i := snd (resume env (snd s ! i) answer (fst s))]) else s)"
  by (simp split: prod.split)

definition binding_run :: "browser_env \<Rightarrow> binding_event list \<Rightarrow> binding_world \<Rightarrow> binding_world" where
  "binding_run env evs s = fold (binding_step env) evs s"

declare binding_step.simps(5) [simp del] resume_step_eq [simp]

section \<open>How a step may change the binding\<close>

text \<open>
  The generation and the allocation counter never go back, and as long as the generation stays the
  selection stays as well, unless a freshly allocated one has replaced it.
\<close>

definition advances :: "binding \<Rightarrow> binding \<Rightarrow> bool" where
  "advances b b' \<longleftrightarrow> bd_generation b \<le> bd_generation b' \<and> bd_next_ref b \<le> bd_next_ref b' \<and>
     (bd_generation b' = bd_generation b \<longrightarrow>
        bd_selected b' = bd_selected b \<and> bd_status b' = bd_status b \<or>
        (\<exists>s. bd_selected b' = Some s \<and> bd_next_ref b \<le> sl_ref s))"

lemma advances_refl [simp, intro]: "advances b b"
  by (simp add: advances_def)

lemma advances_trans: "advances a b \<Longrightarrow> advances b c \<Longrightarrow> advances a c"
  by (auto simp: advances_def)

lemma advances_invalidate [simp, intro]: "advances b (invalidate b)"
  by (simp add: advances_def invalidate_def)

lemma advances_tabChanged: "advances b (tabChanged t b)"
  by (auto simp: tabChanged_def Let_def invalidate_def advances_def)

lemma advances_current_start: "current_start c w k b = (b', p) \<Longrightarrow> advances b b'"
  by (auto simp: current_start_def split: option.splits if_splits)

lemma advances_start:
  "select_start w k b = (b', p) \<Longrightarrow> advances b b'"
  "observe_start env payload sender w k b = (b', p) \<Longrightarrow> advances b b'"
  "guard_start w k b = (b', p) \<Longrightarrow> advances b b'"
  by (auto simp: select_start_def observe_start_def guard_start_def Let_def dest: advances_current_start
      split: option.splits if_splits)

lemma advances_resume: "resume env p answer b = (b', p') \<Longrightarrow> advances b b'"
proof (cases p)
  case (SelectTabs g n w k)
  assume "resume env p answer b = (b', p')"
  then show ?thesis using SelectTabs
    by (auto simp: select_resume_def advances_def split: option.splits if_splits jsval.splits list.splits)
next
  case (ObserveFrame cur g payload d u)
  assume "resume env p answer b = (b', p')"
  then show ?thesis using ObserveFrame
    by (auto simp: observe_frame_def advances_def invalidate_def split: if_splits)
next
  case (Returned c r)
  assume "resume env p answer b = (b', p')"
  then show ?thesis using Returned by (cases c) (auto split: if_splits)
qed (auto simp: observe_tabs_def current_tabs_def current_frame_def guard_ran_def
      dest: advances_current_start split: if_splits option.splits)

lemma advances_step: "advances (fst s) (fst (binding_step env ev s))"
proof (cases ev)
  case (Resume i answer)
  then show ?thesis
    using advances_resume [of env "snd s ! i" answer "fst s"] by (cases "resume env (snd s ! i) answer (fst s)") simp
qed (auto simp: started_eq intro: advances_tabChanged advances_start [OF surjective_pairing] advances_current_start [OF surjective_pairing])

lemma binding_run_simps [simp]:
  "binding_run env [] s = s" "binding_run env (ev # evs) s = binding_run env evs (binding_step env ev s)"
  "binding_run env (xs @ ys) s = binding_run env ys (binding_run env xs s)"
  by (simp_all add: binding_run_def)

lemma advances_run: "advances (fst s) (fst (binding_run env evs s))"
proof (induction evs arbitrary: s)
  case (Cons ev evs)
  show ?case unfolding binding_run_simps(2) by (rule advances_trans [OF advances_step Cons.IH])
qed simp

section \<open>One guarded action\<close>

text \<open>The program points of a guard after its start.\<close>

fun guard_point :: "guard \<Rightarrow> point \<Rightarrow> bool" where
  "guard_point g (CurrentTabs c s sn n d u) \<longleftrightarrow> c = Before g \<or> (\<exists>v. c = After g v)"
| "guard_point g (CurrentFrame c s sn n d u) \<longleftrightarrow> c = Before g \<or> (\<exists>v. c = After g v)"
| "guard_point g (Returned c r) \<longleftrightarrow> c = Before g \<or> (\<exists>v. c = After g v)"
| "guard_point g (Running h) \<longleftrightarrow> h = g"
| "guard_point g (Done out) \<longleftrightarrow> True"
| "guard_point g _ \<longleftrightarrow> False"

lemma guard_current_start:
  "current_start c w k b = (b', p) \<Longrightarrow> c = Before g \<or> (\<exists>v. c = After g v) \<Longrightarrow> guard_point g p \<and> (\<forall>v. p \<noteq> Done (TargetValue v))"
  by (auto simp: current_start_def split: option.splits if_splits)

lemma guard_resumes:
  "resume env p answer b = (b', p') \<Longrightarrow> guard_point g p \<Longrightarrow> guard_point g p'"
  by (cases p) (auto simp: current_tabs_def current_frame_def guard_ran_def
      dest: guard_current_start split: if_splits option.splits)

lemma guard_value:
  assumes "resume env p answer b = (b', Done (TargetValue v))" and "guard_point g p" and "\<forall>out. p \<noteq> Done out"
  shows "b' = b \<and> \<not> guard_changed g b"
  using assms by (cases p) (auto simp: current_tabs_def current_frame_def guard_ran_def
      dest: guard_current_start split: if_splits option.splits)

text \<open>What holds of a program point and is kept when it resumes holds of it from then on.\<close>

lemma point_run:
  assumes "\<And>p answer b. P p \<Longrightarrow> P (snd (resume env p answer b))"
    and "i < length (snd s)" and "P (snd s ! i)"
  shows "i < length (snd (binding_run env evs s)) \<and> P (snd (binding_run env evs s) ! i)"
  using assms(2,3)
proof (induction evs arbitrary: s)
  case (Cons ev evs)
  have "i < length (snd (binding_step env ev s)) \<and> P (snd (binding_step env ev s) ! i)"
    using Cons.prems assms(1) by (cases ev) (auto simp: started_eq nth_append nth_list_update)
  then show ?case using Cons.IH by simp
qed simp

text \<open>A point that cannot give a value any more.\<close>

fun doomed :: "point \<Rightarrow> bool" where
  "doomed (Returned (Before g) r) = (r = None)"
| "doomed (Done out) = (\<forall>v. out \<noteq> TargetValue v)"
| "doomed _ = False"

lemma doomed_resumes: "doomed p \<Longrightarrow> doomed (snd (resume env p answer b))"
  by (cases p rule: doomed.cases) auto

section \<open>What a guarded action proves\<close>

text \<open>The events that end the selection of a tab.\<close>

fun revokes :: "int \<Rightarrow> binding_event \<Rightarrow> bool" where
  "revokes tabId (StartSelect w k) = True"
| "revokes tabId (TabChanged t) = (t = tabId)"
| "revokes tabId Invalidate = True"
| "revokes tabId _ = False"

lemma revoking_step:
  assumes "bd_selected (fst s) = Some sl" and "revokes (sl_tabId sl) ev"
  shows "bd_generation (fst s) < bd_generation (fst (binding_step env ev s))"
  using assms by (cases ev) (auto simp: started_eq select_start_def Let_def invalidate_def tabChanged_def)

lemma unrevoked_run:
  assumes "bd_selected b = Some sl" and "sl_ref sl < bd_next_ref b" and "bd_status b = Some sn"
    and "s = (b, ps)" and "bd_generation (fst (binding_run env evs s)) = bd_generation b"
    and "map_option sl_ref (bd_selected (fst (binding_run env evs s))) = Some (sl_ref sl)"
  shows "bd_selected (fst (binding_run env evs s)) = Some sl \<and> bd_status (fst (binding_run env evs s)) = Some sn \<and>
    list_all (\<lambda>ev. \<not> revokes (sl_tabId sl) ev) evs"
  using assms
proof (induction evs arbitrary: b ps s)
  case (Cons ev evs)
  let ?t = "binding_step env ev s"
  have a: "advances b (fst ?t)" using advances_step [of s env ev] Cons.prems(4) by simp
  have r: "advances (fst ?t) (fst (binding_run env evs ?t))" by (rule advances_run)
  have gen: "bd_generation (fst ?t) = bd_generation b"
    using a r Cons.prems(5) by (auto simp: advances_def)
  have keep: "bd_selected (fst ?t) = Some sl \<and> bd_status (fst ?t) = Some sn"
  proof (rule ccontr)
    assume "\<not> ?thesis"
    then obtain s' where s': "bd_selected (fst ?t) = Some s'" "bd_next_ref b \<le> sl_ref s'"
      using a gen Cons.prems(1,3) by (auto simp: advances_def)
    moreover have "bd_next_ref b \<le> bd_next_ref (fst ?t)" using a by (simp add: advances_def)
    ultimately have "bd_next_ref b \<le> the (map_option sl_ref (bd_selected (fst (binding_run env evs ?t))))"
      using r gen Cons.prems(5) by (auto simp: advances_def)
    then show False using Cons.prems(2,6) by auto
  qed
  have "sl_ref sl < bd_next_ref (fst ?t)" using a Cons.prems(2) by (simp add: advances_def)
  with keep gen Cons.IH [of "fst ?t" ?t "snd ?t"] Cons.prems(5,6)
  have "bd_selected (fst (binding_run env evs ?t)) = Some sl \<and> bd_status (fst (binding_run env evs ?t)) = Some sn \<and>
    list_all (\<lambda>ev. \<not> revokes (sl_tabId sl) ev) evs" by simp
  moreover have "\<not> revokes (sl_tabId sl) ev"
    using revoking_step [of s sl ev env] Cons.prems(1,4) gen by auto
  ultimately show ?case by simp
qed simp

text \<open>
  The allocation counter is above every reference in the binding.
\<close>

definition binding_refs_ok :: "binding \<Rightarrow> bool" where
  "binding_refs_ok b \<longleftrightarrow> (\<forall>s. bd_selected b = Some s \<longrightarrow> sl_ref s < bd_next_ref b)"

text \<open>
  C21: let a guarded action start in a binding, let any operations and browser events run, and let the
  step that resumes it give its value. Then when it started the owner had selected a tab for this very
  worker and key, with a document, a URL and an observed status; the same selection and the same status
  are in place when it ends; and in between nobody selected again, nothing invalidated the binding, and
  the selected tab neither navigated nor closed.
\<close>

theorem guarded_value_unrevoked:
  assumes "binding_refs_ok b"
    and "binding_run env evs (binding_step env (StartGuarded w k) (b, ps)) = (b1, ps1)"
    and "\<forall>out. ps1 ! length ps \<noteq> Done out"
    and "binding_step env (Resume (length ps) answer) (b1, ps1) = (b2, ps2)"
    and "ps2 ! length ps = Done (TargetValue v)"
  shows "\<exists>sl sn. bd_selected b = Some sl \<and> bd_status b = Some sn \<and> sl_workerId sl = w \<and> sl_keySha256 sl = k \<and>
    sl_documentId sl \<noteq> None \<and> sl_url sl \<noteq> None \<and> bd_selected b2 = Some sl \<and> bd_status b2 = Some sn \<and>
    bd_generation b2 = bd_generation b \<and> list_all (\<lambda>ev. \<not> revokes (sl_tabId sl) ev) evs"
proof -
  let ?s = "binding_step env (StartGuarded w k) (b, ps)"
  have kept: "length ps < length ps1 \<and> P (ps1 ! length ps)"
    if "\<And>p answer b. P p \<Longrightarrow> P (snd (resume env p answer b))" and "P (snd (guard_start w k b))" for P
    using point_run [of P env "length ps" ?s evs] that assms(2) by (simp add: started_eq)
  have ran: "length ps < length ps1 \<Longrightarrow> resume env (ps1 ! length ps) answer b1 = (b2, Done (TargetValue v))"
    using assms(4,5) by (cases "resume env (ps1 ! length ps) answer b1") auto
  have "\<not> doomed (snd (guard_start w k b))"
  proof
    assume "doomed (snd (guard_start w k b))"
    then have "length ps < length ps1" "doomed (ps1 ! length ps)" using kept [of doomed] doomed_resumes by blast+
    then show False using doomed_resumes [of "ps1 ! length ps" env answer b1] ran by simp
  qed
  then obtain sl sn d u where sel: "bd_selected b = Some sl" "bd_status b = Some sn" "sl_workerId sl = w" "sl_keySha256 sl = k"
      "sl_documentId sl = Some d" "sl_url sl = Some u"
    by (auto simp: guard_start_def current_start_def sameOwner_def split: option.splits if_splits)
  let ?g = "\<lparr>gd_snapshot = sl, gd_seen = sn, gd_started = bd_generation b, gd_workerId = w, gd_keySha256 = k\<rparr>"
  have start: "guard_start w k b = (b, CurrentTabs (Before ?g) sl sn (bd_generation b) d u)"
    using sel by (simp add: guard_start_def current_start_def sameOwner_def)
  have "guard_point ?g (snd (resume env p a x))" if "guard_point ?g p" for p a x
    using guard_resumes [OF surjective_pairing that] .
  then have point: "length ps < length ps1" "guard_point ?g (ps1 ! length ps)" using kept [of "guard_point ?g"] start by auto
  then have res: "resume env (ps1 ! length ps) answer b1 = (b2, Done (TargetValue v))" using ran by blast
  have same: "b2 = b1" "\<not> guard_changed ?g b1" using guard_value [OF res point(2) assms(3)] by auto
  have s: "?s = (b, snd ?s)" using start by (simp add: started_eq)
  then show ?thesis
    using unrevoked_run [OF sel(1) _ sel(2) s, of env evs] same sel assms(1,2)
    by (auto simp: guard_changed_def other_selected_def binding_refs_ok_def)
qed

section \<open>The invariant of the binding\<close>

definition owner_ok :: "selected \<Rightarrow> bool" where
  "owner_ok s \<longleftrightarrow> worker_id_re (sl_workerId s) \<and> hash_re (sl_keySha256 s)"

definition page_ok :: "browser_env \<Rightarrow> jsval \<Rightarrow> string \<Rightarrow> string \<Rightarrow> bool" where
  "page_ok env payload d u \<longleftrightarrow> uuid_re d \<and> js_get payload ''url'' = JStr u \<and> isValidChatGptPageStatus (be_parse env) payload"

definition binding_ok :: "browser_env \<Rightarrow> binding \<Rightarrow> bool" where
  "binding_ok env b \<longleftrightarrow> binding_refs_ok b \<and>
     (\<forall>s. bd_selected b = Some s \<longrightarrow> owner_ok s) \<and>
     (\<forall>sn. bd_status b = Some sn \<longrightarrow> (\<exists>s d u. bd_selected b = Some s \<and> sl_documentId s = Some d \<and> sl_url s = Some u \<and>
        page_ok env (sn_payload sn) d u))"

fun point_ok :: "browser_env \<Rightarrow> binding \<Rightarrow> point \<Rightarrow> bool" where
  "point_ok env b (SelectTabs g n w k) \<longleftrightarrow> worker_id_re w \<and> hash_re k \<and> g \<le> bd_generation b \<and>
     (bd_generation b = g \<longrightarrow> bd_selected b = None \<and> bd_status b = None)"
| "point_ok env b (ObserveTabs cur g payload d u) \<longleftrightarrow> owner_ok cur \<and> page_ok env payload d u"
| "point_ok env b (ObserveFrame cur g payload d u) \<longleftrightarrow> owner_ok cur \<and> page_ok env payload d u"
| "point_ok env b _ \<longleftrightarrow> True"

text \<open>The generations the waiting selections started in are different.\<close>

fun pending_selection :: "point \<Rightarrow> nat list" where
  "pending_selection (SelectTabs g n w k) = [g]"
| "pending_selection _ = []"

definition pending_selections :: "point list \<Rightarrow> nat list" where
  "pending_selections ps = concat (map pending_selection ps)"

definition world_ok :: "browser_env \<Rightarrow> binding_world \<Rightarrow> bool" where
  "world_ok env s \<longleftrightarrow> binding_ok env (fst s) \<and> list_all (point_ok env (fst s)) (snd s) \<and> distinct (pending_selections (snd s))"

lemma pending_append [simp]:
  "pending_selections [] = []" "pending_selections (xs @ ys) = pending_selections xs @ pending_selections ys"
  "pending_selections (p # ps) = pending_selection p @ pending_selections ps"
  by (simp_all add: pending_selections_def)

lemma pending_update:
  assumes "pending_selection p = []" and "i < length ps"
  shows "set (pending_selections (ps[i := p])) \<subseteq> set (pending_selections ps)"
    and "distinct (pending_selections ps) \<Longrightarrow> distinct (pending_selections (ps[i := p])) \<and>
      set (pending_selection (ps ! i)) \<inter> set (pending_selections (ps[i := p])) = {}"
proof -
  have "ps = take i ps @ ps ! i # drop (Suc i) ps" using assms(2) by (rule id_take_nth_drop)
  then have old: "pending_selections ps = pending_selections (take i ps) @ pending_selection (ps ! i) @ pending_selections (drop (Suc i) ps)"
    by (metis pending_append(2,3))
  have new: "pending_selections (ps[i := p]) = pending_selections (take i ps) @ pending_selections (drop (Suc i) ps)"
    using assms by (simp add: upd_conv_take_nth_drop)
  show "set (pending_selections (ps[i := p])) \<subseteq> set (pending_selections ps)" unfolding old new by auto
  show "distinct (pending_selections ps) \<Longrightarrow> distinct (pending_selections (ps[i := p])) \<and>
      set (pending_selection (ps ! i)) \<inter> set (pending_selections (ps[i := p])) = {}"
    unfolding old new by auto
qed

lemma pending_member: "g \<in> set (pending_selections ps) \<longleftrightarrow> (\<exists>p\<in>set ps. g \<in> set (pending_selection p))"
  by (auto simp: pending_selections_def)

lemma current_start_not_pending: "c \<noteq> Alone \<or> True \<Longrightarrow> pending_selection (snd (current_start c w k b)) = []"
  by (cases c) (auto simp: current_start_def split: option.splits)

lemma resume_not_pending: "pending_selection (snd (resume env p answer b)) = []"
proof (cases p)
  case (SelectTabs g n w k)
  then show ?thesis by (simp add: select_resume_def split: option.split jsval.split list.split)
next
  case (CurrentTabs c s sn g d u)
  then show ?thesis by (cases c) (simp_all add: current_tabs_def)
next
  case (CurrentFrame c s sn g d u)
  then show ?thesis by (cases c) (simp_all add: current_frame_def)
next
  case (Returned c r)
  then show ?thesis by (cases c) simp_all
next
  case (Running g)
  then show ?thesis by (simp add: guard_ran_def current_start_not_pending split: option.split)
qed (simp_all add: observe_tabs_def observe_frame_def)

section \<open>Every step keeps it\<close>

lemma page_ok_observed:
  assumes "observe_start env payload sender w k b = (b', ObserveTabs cur g payload' d u)"
  shows "bd_selected b = Some cur \<and> page_ok env payload' d u"
  using assms by (auto simp: observe_start_def page_ok_def isChatUrl_def Let_def dest!: js_eq_eq split: option.splits if_splits simp: js_simps)

lemma binding_ok_invalidate [simp, intro]: "binding_ok env (invalidate b)"
  by (simp add: binding_ok_def binding_refs_ok_def invalidate_def)

lemma binding_ok_tabChanged: "binding_ok env b \<Longrightarrow> binding_ok env (tabChanged t b)"
  by (auto simp: tabChanged_def Let_def invalidate_def binding_ok_def binding_refs_ok_def)

lemma binding_ok_current_start: "binding_ok env b \<Longrightarrow> binding_ok env (fst (current_start c w k b))"
  by (auto simp: current_start_def split: option.splits)

lemma binding_ok_start:
  assumes "binding_ok env b"
  shows "binding_ok env (fst (select_start w k b))" "binding_ok env (fst (observe_start env payload sender w k b))"
    "binding_ok env (fst (guard_start w k b))"
  using assms
  by (auto simp: select_start_def observe_start_def guard_start_def Let_def binding_ok_current_start split: option.splits)

lemma binding_ok_resume:
  assumes "binding_ok env b" and "point_ok env b p"
  shows "binding_ok env (fst (resume env p answer b))"
proof (cases p)
  case (SelectTabs g n w k)
  then show ?thesis using assms
    by (auto simp: select_resume_def binding_ok_def binding_refs_ok_def owner_ok_def split: option.splits jsval.splits list.splits)
next
  case (ObserveFrame cur g payload d u)
  then show ?thesis using assms
    by (auto simp: observe_frame_def binding_ok_def binding_refs_ok_def owner_ok_def invalidate_def)
next
  case (Returned c r)
  then show ?thesis using assms by (cases c) simp_all
next
  case (Running g)
  then show ?thesis using assms by (auto simp: guard_ran_def binding_ok_current_start split: option.splits)
qed (use assms in \<open>simp_all add: observe_tabs_def current_tabs_def current_frame_def\<close>)

text \<open>The other waiting operations are not disturbed by a step.\<close>

lemma point_ok_later:
  assumes "advances b b'" and "point_ok env b p" and "\<And>g. g \<in> set (pending_selection p) \<Longrightarrow> bd_generation b' = g \<Longrightarrow>
    bd_selected b' = bd_selected b \<and> bd_status b' = bd_status b"
  shows "point_ok env b' p"
  using assms by (cases p) (auto simp: advances_def)

text \<open>
  A step that keeps the generation and changes the selection or the status commits a selection, or
  an observation of a selection that is in place.
\<close>

lemma resume_commits:
  assumes "bd_generation (fst (resume env p answer b)) = bd_generation b"
  shows "bd_selected (fst (resume env p answer b)) = bd_selected b \<and> bd_status (fst (resume env p answer b)) = bd_status b \<or>
    bd_generation b \<in> set (pending_selection p) \<or> bd_selected b \<noteq> None"
proof (cases p)
  case (SelectTabs g n w k)
  then show ?thesis by (auto simp: select_resume_def split: option.splits jsval.splits list.splits)
next
  case (ObserveFrame cur g payload d u)
  then show ?thesis using assms by (auto simp: observe_frame_def invalidate_def other_selected_def)
next
  case (Returned c r)
  then show ?thesis by (cases c) simp_all
next
  case (Running g)
  then show ?thesis using assms
    by (auto simp: guard_ran_def current_start_def invalidate_def split: option.splits)
qed (use assms in \<open>auto simp: observe_tabs_def current_tabs_def current_frame_def invalidate_def\<close>)

lemma point_ok_resumed:
  assumes "point_ok env b p"
  shows "point_ok env b' (snd (resume env p answer b))"
proof (cases p)
  case (SelectTabs g n w k)
  then show ?thesis by (simp add: select_resume_def split: option.split jsval.split list.split)
next
  case (CurrentTabs c s sn g d u)
  then show ?thesis by (cases c) (simp_all add: current_tabs_def)
next
  case (CurrentFrame c s sn g d u)
  then show ?thesis by (cases c) (simp_all add: current_frame_def)
next
  case (Returned c r)
  then show ?thesis by (cases c) simp_all
next
  case (Running g)
  then show ?thesis by (auto simp: guard_ran_def current_start_def split: option.split)
qed (use assms in \<open>simp_all add: observe_tabs_def observe_frame_def\<close>)

lemma pending_le: "point_ok env b p \<Longrightarrow> g \<in> set (pending_selection p) \<Longrightarrow> g \<le> bd_generation b"
  by (cases p) simp_all

lemma world_ok_started:
  assumes "world_ok env s" and "advances (fst s) (fst (f (fst s)))" and "binding_ok env (fst (f (fst s)))"
    and "point_ok env (fst (f (fst s))) (snd (f (fst s)))"
    and "\<And>g. g \<in> set (pending_selection (snd (f (fst s)))) \<Longrightarrow> bd_generation (fst s) < g"
    and "bd_generation (fst (f (fst s))) = bd_generation (fst s) \<Longrightarrow>
      bd_selected (fst (f (fst s))) = bd_selected (fst s) \<and> bd_status (fst (f (fst s))) = bd_status (fst s)"
  shows "world_ok env (started s f)"
proof -
  have "list_all (point_ok env (fst (f (fst s)))) (snd s)"
    using assms(1,2,6) point_ok_later [of "fst s" "fst (f (fst s))" env]
    by (fastforce simp: world_ok_def list_all_iff advances_def elim: point_ok.elims pending_selection.elims)
  moreover have "g \<le> bd_generation (fst s)" if "g \<in> set (pending_selections (snd s))" for g
    using that assms(1) pending_le by (fastforce simp: world_ok_def list_all_iff pending_member)
  moreover have "distinct (pending_selection p)" for p by (cases p) simp_all
  ultimately show ?thesis
    using assms(1,3-5) by (fastforce simp: world_ok_def started_eq)
qed

lemma world_ok_step:
  assumes "world_ok env s"
  shows "world_ok env (binding_step env ev s)"
proof (cases ev)
  case (StartSelect w k)
  have "world_ok env (started s (select_start w k))"
    using assms by (intro world_ok_started)
      (auto simp: select_start_def Let_def invalidate_def isValidWorkerId_def advances_def binding_ok_def binding_refs_ok_def split: if_splits)
  then show ?thesis using StartSelect by simp
next
  case (StartObserve payload sender w k)
  have "point_ok env (fst (observe_start env payload sender w k b)) (snd (observe_start env payload sender w k b))"
    if "binding_ok env b" for b
  proof (cases "snd (observe_start env payload sender w k b)")
    case (ObserveTabs cur g payload' d u)
    then show ?thesis
      using page_ok_observed [of env payload sender w k b "fst (observe_start env payload sender w k b)" cur g payload' d u] that
      by (metis binding_ok_def point_ok.simps(2) prod.collapse)
  qed (auto simp: observe_start_def Let_def split: option.splits if_splits)
  moreover have "pending_selection (snd (observe_start env payload sender w k b)) = []" for b
    by (simp add: observe_start_def Let_def split: option.split)
  ultimately have "world_ok env (started s (observe_start env payload sender w k))"
    using assms by (intro world_ok_started advances_start [OF surjective_pairing] binding_ok_start)
      (auto simp: world_ok_def, auto simp: observe_start_def invalidate_def Let_def split: option.splits if_splits)
  then show ?thesis using StartObserve by simp
next
  case (StartCurrent w k)
  have "world_ok env (started s (current_start Alone w k))"
    using assms by (intro world_ok_started advances_current_start [OF surjective_pairing] binding_ok_current_start)
      (auto simp: world_ok_def current_start_not_pending, auto simp: current_start_def invalidate_def split: option.splits if_splits)
  then show ?thesis using StartCurrent by simp
next
  case (StartGuarded w k)
  have "world_ok env (started s (guard_start w k))"
    using assms by (intro world_ok_started advances_start [OF surjective_pairing] binding_ok_start)
      (auto simp: world_ok_def, auto simp: guard_start_def current_start_def invalidate_def split: option.splits if_splits)
  then show ?thesis using StartGuarded by simp
next
  case (Resume i answer)
  show ?thesis
  proof (cases "i < length (snd s)")
    case True
    let ?p = "snd s ! i" and ?r = "resume env (snd s ! i) answer (fst s)"
    have p: "point_ok env (fst s) ?p" and b: "binding_ok env (fst s)" and all: "list_all (point_ok env (fst s)) (snd s)"
        and dist: "distinct (pending_selections (snd s))"
      using assms True by (auto simp: world_ok_def list_all_iff)
    note upd = pending_update [OF resume_not_pending True, of env ?p answer "fst s"]
    have "point_ok env (fst ?r) q" if q: "q \<in> set ((snd s)[i := snd ?r])" for q
    proof (cases "q = snd ?r")
      case True
      then show ?thesis using point_ok_resumed [OF p] by simp
    next
      case False
      then have old: "q \<in> set (snd s)" using q set_update_subset_insert by fastforce
      have pend: "set (pending_selection q) \<subseteq> set (pending_selections ((snd s)[i := snd ?r]))"
        using q by (auto simp: pending_member)
      show ?thesis
      proof (rule point_ok_later)
        show "advances (fst s) (fst ?r)" by (rule advances_resume [OF surjective_pairing])
        show ok: "point_ok env (fst s) q" using old all by (simp add: list_all_iff)
        fix g
        assume g: "g \<in> set (pending_selection q)" "bd_generation (fst ?r) = g"
        then have le: "g \<le> bd_generation (fst s)" and none: "bd_generation (fst s) = g \<longrightarrow> bd_selected (fst s) = None"
          using ok by (cases q; simp)+
        have "bd_generation (fst s) \<le> bd_generation (fst ?r)"
          using advances_resume [OF surjective_pairing, where env = env and p = "snd s ! i" and answer = answer and b = "fst s"] by (simp add: advances_def)
        with le g(2) have gen: "bd_generation (fst ?r) = bd_generation (fst s)" by simp
        have "g \<notin> set (pending_selection ?p)" using upd(2) dist pend g(1) by blast
        with resume_commits [OF gen] none gen g(2)
        show "bd_selected (fst ?r) = bd_selected (fst s) \<and> bd_status (fst ?r) = bd_status (fst s)" by auto
      qed
    qed
    then show ?thesis
      using Resume True binding_ok_resume [OF b p] upd(2) dist by (auto simp: world_ok_def list_all_iff)
  qed (use Resume assms in simp)
next
  case (TabChanged t)
  have "point_ok env (tabChanged t b) p" if "point_ok env b p" for b p
    using that by (cases p) (simp_all add: tabChanged_def Let_def invalidate_def)
  then show ?thesis using TabChanged assms binding_ok_tabChanged by (simp add: world_ok_def list_all_iff)
next
  case Invalidate
  have "point_ok env (invalidate b) p" if "point_ok env b p" for b p
    using that by (cases p) (simp_all add: invalidate_def)
  then show ?thesis using Invalidate assms by (simp add: world_ok_def list_all_iff)
qed

lemma world_ok_run: "world_ok env (binding_run env evs (fresh_binding, []))"
proof -
  have "world_ok env s \<Longrightarrow> world_ok env (binding_run env evs s)" for s
    by (induction evs arbitrary: s) (simp_all add: world_ok_step)
  moreover have "world_ok env (fresh_binding, [])"
    by (simp add: world_ok_def binding_ok_def binding_refs_ok_def fresh_binding_def)
  ultimately show ?thesis by blast
qed

text \<open>
  C22: from a fresh start, under any interleaving of operations, answers and browser events, a stored
  status belongs to the selected document: its URL is the one of the selection, the document is
  identified, the status is a valid one of a ChatGPT page, and the selection is bound to a valid worker
  and key.
\<close>

theorem status_of_selected_document:
  assumes "binding_run env evs (fresh_binding, []) = (b, ps)" and "bd_status b = Some sn"
  shows "\<exists>s d u. bd_selected b = Some s \<and> sl_documentId s = Some d \<and> sl_url s = Some u \<and> uuid_re d \<and>
    js_get (sn_payload sn) ''url'' = JStr u \<and> isValidChatGptPageStatus (be_parse env) (sn_payload sn) \<and>
    worker_id_re (sl_workerId s) \<and> hash_re (sl_keySha256 s)"
  using world_ok_run [of env evs] assms
  by (fastforce simp: world_ok_def binding_ok_def page_ok_def owner_ok_def)

section \<open>A run that observes and guards\<close>

definition sample_browser :: browser_env where
  "sample_browser = \<lparr>be_parse = sample_url, be_extensionId = replicate 32 CHR ''a''\<rparr>"

definition sample_page_url :: string where "sample_page_url = ''https://chatgpt.com/c/abcdefgh''"

definition sample_document :: string where "sample_document = ''0123abcd-0123-0123-0123-0123456789ab''"

definition sample_key :: string where "sample_key = replicate 64 CHR ''a''"

definition sample_tab :: jsval where
  "sample_tab = JObj [(''id'', JInt 7), (''url'', JStr sample_page_url), (''incognito'', JBool False)]"

definition sample_frame :: jsval where
  "sample_frame = JObj [(''url'', JStr sample_page_url), (''documentId'', JStr sample_document), (''documentLifecycle'', JStr ''active''),
     (''frameType'', JStr ''outermost_frame''), (''parentFrameId'', JInt (- 1)), (''errorOccurred'', JBool False)]"

definition sample_status :: jsval where
  "sample_status = JObj [(''protocolVersion'', JInt 1), (''observedAt'', JStr ''2026-01-01T00:00:00.000Z''), (''url'', JStr sample_page_url),
     (''visible'', JBool True), (''composerAvailable'', JBool True), (''turnBusy'', JBool False)]"

definition sample_sender :: jsval where
  "sample_sender = JObj [(''id'', JStr (replicate 32 CHR ''a'')), (''frameId'', JInt 0), (''documentLifecycle'', JStr ''active''),
     (''documentId'', JStr sample_document), (''tab'', sample_tab), (''url'', JStr sample_page_url)]"

definition sample_observation :: "binding_event list" where
  "sample_observation = [StartSelect ''bke-13'' sample_key, Resume 0 (Some (JArr [sample_tab])),
     StartObserve sample_status sample_sender ''bke-13'' sample_key, Resume 1 (Some (JArr [sample_tab])), Resume 1 (Some sample_frame)]"

definition sample_selected :: selected where
  "sample_selected = \<lparr>sl_ref = 1, sl_workerId = ''bke-13'', sl_keySha256 = sample_key, sl_tabId = 7,
     sl_documentId = Some sample_document, sl_url = Some sample_page_url\<rparr>"

definition sample_seen :: seen_status where
  "sample_seen = \<lparr>sn_ref = 2, sn_payload = sample_status\<rparr>"

definition sample_bound :: binding_world where
  "sample_bound = (\<lparr>bd_selected = Some sample_selected, bd_status = Some sample_seen, bd_generation = 1,
     bd_navigationEpoch = 0, bd_next_ref = 3\<rparr>, [Done TargetSelected, Done TargetObserved])"

definition sample_guarding :: "binding_event list" where
  "sample_guarding = [Resume 2 (Some (JArr [sample_tab])), Resume 2 (Some sample_frame), Resume 2 None, TabChanged 9,
     Resume 2 (Some (JBool True)), Resume 2 (Some (JArr [sample_tab])), Resume 2 (Some sample_frame)]"

lemma sample_bound_run: "binding_run sample_browser sample_observation (fresh_binding, []) = sample_bound"
  by code_simp

lemma sample_bound_status: "bd_status (fst sample_bound) = Some sample_seen"
  by (simp add: sample_bound_def)

theorem status_of_selected_document_witness:
  "map_option sl_url (bd_selected (fst sample_bound)) = Some (Some sample_page_url)"
proof -
  have "binding_run sample_browser sample_observation (fresh_binding, []) = (fst sample_bound, snd sample_bound)"
    by (simp add: sample_bound_run)
  from status_of_selected_document [OF this sample_bound_status] show ?thesis by (auto simp: sample_seen_def sample_status_def)
qed

fun is_done :: "point \<Rightarrow> bool" where
  "is_done (Done out) = True"
| "is_done _ = False"

fun done_value :: "point \<Rightarrow> jsval option" where
  "done_value (Done (TargetValue v)) = Some v"
| "done_value _ = None"

lemma done_value_Some: "done_value p = Some v \<longleftrightarrow> p = Done (TargetValue v)"
  by (cases p rule: done_value.cases) auto

lemma sample_points: "length (snd sample_bound) = 2"
  by (simp add: sample_bound_def)

lemma sample_waits:
  "is_done (snd (binding_run sample_browser sample_guarding (binding_step sample_browser (StartGuarded ''bke-13'' sample_key) sample_bound)) ! 2) = False"
  by code_simp

lemma sample_value:
  "done_value (snd (binding_run sample_browser (StartGuarded ''bke-13'' sample_key # sample_guarding @ [Resume 2 None]) sample_bound) ! 2) = Some (JBool True)"
  by code_simp

theorem guarded_value_unrevoked_witness:
  "\<exists>sl. bd_selected (fst sample_bound) = Some sl \<and> sl_workerId sl = ''bke-13'' \<and> \<not> revokes (sl_tabId sl) (TabChanged 9)"
proof -
  let ?s = "binding_run sample_browser sample_guarding (binding_step sample_browser (StartGuarded ''bke-13'' sample_key) sample_bound)"
  let ?t = "binding_step sample_browser (Resume 2 None) ?s"
  have ok: "binding_refs_ok (fst sample_bound)"
    using world_ok_run [of sample_browser sample_observation] by (simp add: world_ok_def binding_ok_def sample_bound_run)
  have run: "binding_run sample_browser sample_guarding (binding_step sample_browser (StartGuarded ''bke-13'' sample_key)
      (fst sample_bound, snd sample_bound)) = (fst ?s, snd ?s)" by simp
  have step: "binding_step sample_browser (Resume (length (snd sample_bound)) None) (fst ?s, snd ?s) = (fst ?t, snd ?t)"
    unfolding sample_points by (simp only: prod.collapse)
  have waits: "\<forall>out. snd ?s ! length (snd sample_bound) \<noteq> Done out"
    using sample_waits unfolding sample_points by (metis is_done.simps(1))
  have gives: "snd ?t ! length (snd sample_bound) = Done (TargetValue (JBool True))"
    using sample_value unfolding sample_points done_value_Some binding_run_simps by simp
  obtain sl where "bd_selected (fst sample_bound) = Some sl" "sl_workerId sl = ''bke-13''"
      "list_all (\<lambda>ev. \<not> revokes (sl_tabId sl) ev) sample_guarding"
    using guarded_value_unrevoked [OF ok run waits step gives] by blast
  then show ?thesis by (auto simp: sample_guarding_def)
qed

end
