(* ===== verification/NativeFraming.thy ===== *)
theory NativeFraming imports JsonFacts
begin

text \<open>
  \<open>native-host/framing.mjs\<close>: the length-framed channel between the extension and the native
  host. A frame is the byte length of a JSON text as a little-endian 32-bit integer, followed by
  the text in UTF-8. The reader keeps the bytes that have arrived and are not consumed; the
  stream delivers them in chunks of any size. \<open>TextDecoder\<close> in fatal mode followed by
  \<open>JSON.parse\<close> is the parameter \<open>parse\<close>.
\<close>

section \<open>Writing\<close>

definition MAX_FRAME_BYTES :: nat where "MAX_FRAME_BYTES = 16384"

definition MAX_RESPONSE_BYTES :: nat where "MAX_RESPONSE_BYTES = 4096"

definition uint32_le :: "nat \<Rightarrow> bytes" where
  "uint32_le n = map (\<lambda>k. char_of (n div 256 ^ k mod 256)) [0, 1, 2, 3]"

definition encodeFrame :: "jsval \<Rightarrow> nat \<Rightarrow> string + bytes" where
  "encodeFrame v maximum =
     (case json_stringify v of None \<Rightarrow> Inl ''ERR_INVALID_ARG_TYPE''
      | Some text \<Rightarrow>
          let bytes = utf8 text in
          if bytes = [] \<or> maximum < length bytes then Inl ''NATIVE_FRAME_OVERSIZE''
          else if 256 ^ 4 \<le> length bytes then Inl ''ERR_OUT_OF_RANGE''
          else Inr (uint32_le (length bytes) @ bytes))"

section \<open>Reading\<close>

text \<open>What the iteration of the stream delivers: a chunk, or an error that ends it.\<close>

datatype stream_item = Chunk bytes | Fault string

record frame_reader =
  fr_pending :: bytes
  fr_closed :: bool
  fr_stream :: "stream_item list"

definition nativeFrameReader :: "stream_item list \<Rightarrow> frame_reader" where
  "nativeFrameReader items = \<lparr>fr_pending = [], fr_closed = False, fr_stream = items\<rparr>"

definition read_uint32_le :: "bytes \<Rightarrow> nat" where
  "read_uint32_le bs = (\<Sum>k\<leftarrow>[0, 1, 2, 3]. code (bs ! k) * 256 ^ k)"

text \<open>The loop that waits until \<open>n\<close> bytes are pending.\<close>

fun fill :: "nat \<Rightarrow> nat \<Rightarrow> bytes \<Rightarrow> stream_item list \<Rightarrow> bytes \<times> stream_item list \<times> string option" where
  "fill maximum n pending [] =
     (pending, [], if n \<le> length pending then None else Some ''NATIVE_FRAME_TRUNCATED'')"
| "fill maximum n pending (item # items) =
     (if n \<le> length pending then (pending, item # items, None)
      else case item of Fault e \<Rightarrow> (pending, [], Some e)
      | Chunk bs \<Rightarrow>
          if maximum * 2 + 8 < length (pending @ bs) then (pending @ bs, items, Some ''NATIVE_FRAME_OVERFLOW'')
          else fill maximum n (pending @ bs) items)"

definition decode_body :: "(bytes \<Rightarrow> jsval option) \<Rightarrow> bytes \<Rightarrow> string + jsval" where
  "decode_body parse body =
     (case parse body of None \<Rightarrow> Inl ''NATIVE_FRAME_INVALID_JSON''
      | Some v \<Rightarrow> if is_object v then Inr v else Inl ''NATIVE_FRAME_INVALID_OBJECT'')"

definition next_frame ::
  "(bytes \<Rightarrow> jsval option) \<Rightarrow> nat \<Rightarrow> frame_reader \<Rightarrow> frame_reader \<times> (string + jsval)" where
  "next_frame parse maximum r =
     (if fr_closed r then (r, Inl ''NATIVE_CHANNEL_CLOSED'')
      else case fill maximum 4 (fr_pending r) (fr_stream r) of
        (p, items, Some e) \<Rightarrow> (r\<lparr>fr_pending := p, fr_stream := items\<rparr>, Inl e)
      | (p, items, None) \<Rightarrow>
          let n = read_uint32_le p in
          if n = 0 \<or> maximum < n then (r\<lparr>fr_pending := p, fr_stream := items\<rparr>, Inl ''NATIVE_FRAME_OVERSIZE'')
          else case fill maximum (n + 4) p items of
            (q, items', Some e) \<Rightarrow> (r\<lparr>fr_pending := q, fr_stream := items'\<rparr>, Inl e)
          | (q, items', None) \<Rightarrow>
              (r\<lparr>fr_pending := drop (n + 4) q, fr_stream := items'\<rparr>, decode_body parse (take n (drop 4 q))))"

definition close_reader :: "frame_reader \<Rightarrow> frame_reader" where
  "close_reader r = r\<lparr>fr_closed := True\<rparr>"

section \<open>The length prefix\<close>

lemma length_uint32_le [simp]: "length (uint32_le n) = 4"
  by (simp add: uint32_le_def)

lemma read_uint32_le_append: "4 \<le> length p \<Longrightarrow> read_uint32_le (p @ t) = read_uint32_le p"
  by (auto simp add: read_uint32_le_def nth_append)

lemma read_uint32_le_encoded:
  assumes "n < 256 ^ 4"
  shows "read_uint32_le (uint32_le n @ t) = n"
proof -
  let ?a = "n div 256" and ?b = "n div 65536" and ?c = "n div 16777216"
  have div: "?b = ?a div 256" "?c = ?b div 256" by (simp_all add: div_mult2_eq [symmetric])
  have c: "?c mod 256 = ?c" using assms by (simp add: less_mult_imp_div_less)
  have "256 * ?a + n mod 256 = n" "256 * ?b + ?a mod 256 = ?a" "256 * ?c + ?b mod 256 = ?b"
    unfolding div by (rule mult_div_mod_eq)+
  with c have "n mod 256 + 256 * (?a mod 256) + 65536 * (?b mod 256) + 16777216 * (?c mod 256) = n" by linarith
  then show ?thesis by (simp add: uint32_le_def read_uint32_le_def code_def algebra_simps c)
qed

section \<open>Filling\<close>

lemma fill_chunks:
  assumes "n \<le> length (pending @ concat cs)" and "length (pending @ concat cs) \<le> maximum * 2 + 8"
  shows "\<exists>p ds. fill maximum n pending (map Chunk cs) = (p, map Chunk ds, None) \<and>
    p @ concat ds = pending @ concat cs \<and> n \<le> length p"
  using assms
proof (induction cs arbitrary: pending)
  case Nil
  then show ?case by (intro exI [of _ pending] exI [of _ "[]"]) simp
next
  case (Cons c cs)
  show ?case
  proof (cases "n \<le> length pending")
    case True
    then show ?thesis by (intro exI [of _ pending] exI [of _ "c # cs"]) simp
  next
    case False
    then show ?thesis using Cons.IH [of "pending @ c"] Cons.prems by auto
  qed
qed

lemma fill_truncated:
  assumes "length (pending @ concat cs) < n" and "length (pending @ concat cs) \<le> maximum * 2 + 8"
  shows "fill maximum n pending (map Chunk cs) = (pending @ concat cs, [], Some ''NATIVE_FRAME_TRUNCATED'')"
  using assms by (induction cs arbitrary: pending) auto

section \<open>Frames\<close>

lemma encodeFrame_Inr:
  "encodeFrame v maximum = Inr f \<longleftrightarrow> (\<exists>text. json_stringify v = Some text \<and> utf8 text \<noteq> [] \<and>
     length (utf8 text) \<le> maximum \<and> length (utf8 text) < 256 ^ 4 \<and> f = uint32_le (length (utf8 text)) @ utf8 text)"
  by (auto simp: encodeFrame_def Let_def split: option.splits)

text \<open>One frame is read whatever the chunks are, and what follows it stays pending.\<close>

lemma next_frame_reads:
  assumes printed: "json_stringify v = Some t" and frame: "encodeFrame v maximum = Inr f"
    and parse: "parse (utf8 t) = Some v" "is_object v"
    and bytes: "pending @ concat cs = f @ rest" "length (pending @ concat cs) \<le> maximum * 2 + 8"
  shows "\<exists>p ds. next_frame parse maximum \<lparr>fr_pending = pending, fr_closed = False, fr_stream = map Chunk cs\<rparr> =
      (\<lparr>fr_pending = p, fr_closed = False, fr_stream = map Chunk ds\<rparr>, Inr v) \<and> p @ concat ds = rest"
proof -
  let ?n = "length (utf8 t)"
  have f: "f = uint32_le ?n @ utf8 t" and n: "0 < ?n" "?n \<le> maximum" "?n < 256 ^ 4"
    using frame printed by (auto simp: encodeFrame_Inr)
  have "4 \<le> length (pending @ concat cs)" using bytes(1) f by simp
  from fill_chunks [OF this bytes(2)] obtain p ds where
    first: "fill maximum 4 pending (map Chunk cs) = (p, map Chunk ds, None)" and
    p: "p @ concat ds = f @ rest" "4 \<le> length p"
    using bytes(1) by auto
  have "read_uint32_le p = read_uint32_le (p @ concat ds)" using p(2) by (simp add: read_uint32_le_append)
  also have "\<dots> = ?n" using n(3) by (simp add: p(1) f read_uint32_le_encoded)
  finally have len: "read_uint32_le p = ?n" .
  have "?n + 4 \<le> length (p @ concat ds)" "length (p @ concat ds) \<le> maximum * 2 + 8"
    using p(1) f bytes by simp_all
  from fill_chunks [OF this] obtain q es where
    second: "fill maximum (?n + 4) p (map Chunk ds) = (q, map Chunk es, None)" and
    q: "q @ concat es = f @ rest" "?n + 4 \<le> length q"
    using p(1) by auto
  have "take (?n + 4) q = take (?n + 4) (q @ concat es)" using q(2) by simp
  also have "\<dots> = f" by (simp add: q(1) f)
  finally have head: "take (?n + 4) q = f" .
  have body: "take ?n (drop 4 q) = utf8 t"
    using head by (simp add: take_drop f add.commute)
  have "drop (?n + 4) q @ concat es = drop (?n + 4) (q @ concat es)" using q(2) by simp
  also have "\<dots> = rest" by (simp add: q(1) f)
  finally have tail: "drop (?n + 4) q @ concat es = rest" .
  have "\<not> (?n = 0 \<or> maximum < ?n)" using n by simp
  then show ?thesis
    using first second len body tail parse
    by (intro exI [of _ "drop (?n + 4) q"] exI [of _ es]) (simp add: next_frame_def decode_body_def Let_def)
qed

text \<open>
  C19: two frames that each fit the frame limit, written one after the other and delivered in any
  chunks, are read back as the two values, in order: the overflow limit is exactly the room the
  hello and the proof of one session can need. (\<open>JSON.parse\<close> is assumed to read back the two
  texts.)
\<close>

theorem two_frames_any_chunks:
  assumes "encodeFrame v MAX_FRAME_BYTES = Inr f" and "encodeFrame w MAX_FRAME_BYTES = Inr g"
    and "\<And>text. json_stringify v = Some text \<Longrightarrow> parse (utf8 text) = Some v"
    and "\<And>text. json_stringify w = Some text \<Longrightarrow> parse (utf8 text) = Some w"
    and "is_object v" and "is_object w" and "concat cs = f @ g"
  shows "\<exists>r s. next_frame parse MAX_FRAME_BYTES (nativeFrameReader (map Chunk cs)) = (r, Inr v) \<and>
    next_frame parse MAX_FRAME_BYTES r = (s, Inr w) \<and>
    next_frame parse MAX_FRAME_BYTES s = (s\<lparr>fr_stream := []\<rparr>, Inl ''NATIVE_FRAME_TRUNCATED'')"
proof -
  obtain t where t: "json_stringify v = Some t" "length f \<le> MAX_FRAME_BYTES + 4"
    using assms(1) by (auto simp: encodeFrame_Inr)
  obtain u where u: "json_stringify w = Some u" "length g \<le> MAX_FRAME_BYTES + 4"
    using assms(2) by (auto simp: encodeFrame_Inr)
  have "length ([] @ concat cs) \<le> MAX_FRAME_BYTES * 2 + 8" using assms(7) t(2) u(2) by simp
  with next_frame_reads [where parse = parse and pending = "[]" and cs = cs and rest = g, OF t(1) assms(1) assms(3) [OF t(1)] assms(5)] assms(7)
  obtain p ds where first: "next_frame parse MAX_FRAME_BYTES (nativeFrameReader (map Chunk cs)) =
      (\<lparr>fr_pending = p, fr_closed = False, fr_stream = map Chunk ds\<rparr>, Inr v)" and p: "p @ concat ds = g @ []"
    by (auto simp: nativeFrameReader_def)
  have "length (p @ concat ds) \<le> MAX_FRAME_BYTES * 2 + 8" using p u(2) by simp
  from next_frame_reads [where parse = parse, OF u(1) assms(2) assms(4) [OF u(1)] assms(6) p this]
  obtain q es where second: "next_frame parse MAX_FRAME_BYTES \<lparr>fr_pending = p, fr_closed = False, fr_stream = map Chunk ds\<rparr> =
      (\<lparr>fr_pending = q, fr_closed = False, fr_stream = map Chunk es\<rparr>, Inr w)" and q: "q @ concat es = []"
    by blast
  have "fill MAX_FRAME_BYTES 4 q (map Chunk es) = ([], [], Some ''NATIVE_FRAME_TRUNCATED'')"
    using fill_truncated [of q es 4 MAX_FRAME_BYTES] q by simp
  then have "next_frame parse MAX_FRAME_BYTES \<lparr>fr_pending = q, fr_closed = False, fr_stream = map Chunk es\<rparr> =
      (\<lparr>fr_pending = q, fr_closed = False, fr_stream = []\<rparr>, Inl ''NATIVE_FRAME_TRUNCATED'')"
    using q by (simp add: next_frame_def)
  with first second show ?thesis
    by (intro exI [of _ "\<lparr>fr_pending = p, fr_closed = False, fr_stream = map Chunk ds\<rparr>"]
        exI [of _ "\<lparr>fr_pending = q, fr_closed = False, fr_stream = map Chunk es\<rparr>"]) simp
qed

theorem two_frames_any_chunks_witness:
  "\<exists>r s. next_frame (\<lambda>b. if b = ''{}'' then Some (JObj []) else None) MAX_FRAME_BYTES
      (nativeFrameReader (map Chunk [uint32_le 2, ''{'', ''}'' @ uint32_le 2 @ ''{}''])) = (r, Inr (JObj [])) \<and>
    next_frame (\<lambda>b. if b = ''{}'' then Some (JObj []) else None) MAX_FRAME_BYTES r = (s, Inr (JObj []))"
proof -
  have "json_stringify (JObj []) = Some ''{}''" "utf8 ''{}'' = ''{}''" by code_simp+
  moreover from this have frame: "encodeFrame (JObj []) MAX_FRAME_BYTES = Inr (uint32_le 2 @ ''{}'')"
    by (simp add: encodeFrame_def MAX_FRAME_BYTES_def numeral_2_eq_2)
  ultimately show ?thesis
    using two_frames_any_chunks [OF frame frame, of "\<lambda>b. if b = ''{}'' then Some (JObj []) else None"
        "[uint32_le 2, ''{'', ''}'' @ uint32_le 2 @ ''{}'']"]
    by auto
qed

text \<open>A stream that ends inside a frame, or before one, yields no value.\<close>

lemma truncated_frame_refused:
  assumes "concat cs = take k f" and "k < length f" and "encodeFrame v MAX_FRAME_BYTES = Inr f"
  shows "snd (next_frame parse MAX_FRAME_BYTES (nativeFrameReader (map Chunk cs))) = Inl ''NATIVE_FRAME_TRUNCATED''"
proof -
  obtain t where t: "f = uint32_le (length (utf8 t)) @ utf8 t" "length f \<le> MAX_FRAME_BYTES + 4"
      "0 < length (utf8 t)" "length (utf8 t) \<le> MAX_FRAME_BYTES" "length (utf8 t) < 256 ^ 4"
    using assms(3) by (auto simp: encodeFrame_Inr)
  have short: "length (concat cs) < length f" "length (concat cs) \<le> MAX_FRAME_BYTES * 2 + 8"
    using assms(1,2) t(2) by simp_all
  show ?thesis
  proof (cases "4 \<le> length (concat cs)")
    case False
    then show ?thesis
      using fill_truncated [of "[]" cs 4 MAX_FRAME_BYTES] short by (simp add: next_frame_def nativeFrameReader_def)
  next
    case True
    from fill_chunks [of 4 "[]" cs MAX_FRAME_BYTES] True short obtain p ds where
      first: "fill MAX_FRAME_BYTES 4 [] (map Chunk cs) = (p, map Chunk ds, None)" and
      p: "p @ concat ds = concat cs" "4 \<le> length p" by auto
    have "read_uint32_le p = read_uint32_le (concat cs @ drop k f)"
      using p by (simp add: read_uint32_le_append flip: p(1))
    also have "\<dots> = length (utf8 t)" using assms(1) t(5) by (simp add: t(1) read_uint32_le_encoded del: take_append drop_append)
    finally have len: "read_uint32_le p = length (utf8 t)" .
    have "length (p @ concat ds) < length (utf8 t) + 4" using short(1) p(1) t(1) by simp
    from fill_truncated [OF this, of MAX_FRAME_BYTES] short(2) p(1)
    show ?thesis using first len t(3,4) by (simp add: next_frame_def nativeFrameReader_def Let_def)
  qed
qed

end
