(* ===== verification/NativePolicy.thy ===== *)
theory NativePolicy imports JsonFacts
begin

text \<open>
  The owner's policy of the native host, validated twice: \<open>native-host/host.mjs\<close>
  (\<open>validNativeHostPolicy\<close>) before it answers anything, and
  \<open>native-policy-gate.ts\<close> (\<open>checkOwnerNativePolicy\<close>) in the popup before it connects.
  The host is meant to admit what the popup admits; the theory proves when the two agree, and
  shows the policies on which they do not.
\<close>

section \<open>The host\<close>

definition RESOURCE_FIELDS :: "string list" where
  "RESOURCE_FIELDS = [''bridge_identity_sha256'', ''browser_profile_sha256'', ''chatgpt_target_sha256'']"

definition POLICY_FIELDS :: "string list" where
  "POLICY_FIELDS = [''allowed_origin'', ''expires_at_ms'', ''profile_binding_sha256'', ''public_key_sha256'',
     ''resources'', ''version'', ''worker_id'']"

definition in_range :: "char \<Rightarrow> char \<Rightarrow> char \<Rightarrow> bool" where
  "in_range a b c \<longleftrightarrow> code a \<le> code c \<and> code c \<le> code b"

text \<open>\<open>/^chrome-extension:\/\/[a-p]{32}\/$/\<close>.\<close>

definition origin_re :: "string \<Rightarrow> bool" where
  "origin_re s \<longleftrightarrow> length s = 52 \<and> starts_with s ''chrome-extension://'' \<and>
     list_all (in_range CHR ''a'' CHR ''p'') (take 32 (drop 19 s)) \<and> s ! 51 = CHR ''/''"

fun js_values :: "jsval \<Rightarrow> jsval list" where
  "js_values (JObj kvs) = map snd kvs"
| "js_values _ = []"

definition validResources :: "jsval \<Rightarrow> bool" where
  "validResources x \<longleftrightarrow> exact_joined x RESOURCE_FIELDS \<and> list_all validHash (js_values x)"

definition POLICY_LIFETIME_MS :: int where "POLICY_LIFETIME_MS = 30 * 86400000"

text \<open>The size of a \<open>Set\<close> of strings is the number of different ones.\<close>

definition validNativeHostPolicy :: "jsval \<Rightarrow> int \<Rightarrow> bool" where
  "validNativeHostPolicy p started \<longleftrightarrow>
     safe_int started \<and> 0 < started \<and> exact_joined p POLICY_FIELDS \<and> js_eq (js_get p ''version'') (JInt 1) \<and>
     is_JStr (js_get p ''allowed_origin'') \<and> origin_re (str_or_empty (js_get p ''allowed_origin'')) \<and>
     is_JStr (js_get p ''worker_id'') \<and> worker_id_re (str_or_empty (js_get p ''worker_id'')) \<and>
     validHash (js_get p ''public_key_sha256'') \<and> validHash (js_get p ''profile_binding_sha256'') \<and>
     validResources (js_get p ''resources'') \<and>
     is_safe_integer (js_get p ''expires_at_ms'') \<and> started < the_int (js_get p ''expires_at_ms'') \<and>
     the_int (js_get p ''expires_at_ms'') \<le> started + POLICY_LIFETIME_MS \<and>
     card (set (js_get p ''public_key_sha256'' # js_get p ''profile_binding_sha256'' #
       js_values (js_get p ''resources''))) = 5"

section \<open>The popup\<close>

text \<open>What the popup expects; its own fields are the values the caller passes.\<close>

record policy_expected =
  px_origin :: jsval
  px_workerId :: jsval
  px_publicKeySha256 :: jsval
  px_now :: jsval

datatype policy_result =
    PolicyMatch (pm_profileBinding: jsval) (pm_chatgpt: jsval) (pm_browser: jsval) (pm_bridge: jsval)
  | PolicyBlocked string

text \<open>\<open>HASH.test(v)\<close> without a type test reads \<open>String(v)\<close>.\<close>

definition hash_test :: "jsval \<Rightarrow> bool" where
  "hash_test v = hash_re (js_string v)"

text \<open>Whether a \<open>Set\<close> of the values has as many members: no two are the same value.\<close>

fun all_different :: "jsval list \<Rightarrow> bool" where
  "all_different [] = True"
| "all_different (v # vs) = (list_all (\<lambda>w. \<not> js_eq v w) vs \<and> all_different vs)"

definition checkOwnerNativePolicy :: "jsval \<Rightarrow> policy_expected \<Rightarrow> policy_result" where
  "checkOwnerNativePolicy v x =
     (let resources = js_get v ''resources'';
          pin = js_get resources in
      if \<not> exact_joined v POLICY_FIELDS \<or> \<not> js_eq (js_get v ''version'') (JInt 1) \<or>
         \<not> is_JStr (px_origin x) \<or> \<not> origin_re (str_or_empty (px_origin x)) \<or>
         \<not> is_JStr (px_workerId x) \<or> \<not> worker_id_re (str_or_empty (px_workerId x)) \<or>
         \<not> hash_test (px_publicKeySha256 x) \<or> \<not> is_safe_integer (px_now x) \<or> the_int (px_now x) \<le> 0
      then PolicyBlocked ''NATIVE_POLICY_SCHEMA_INVALID''
      else if \<not> js_eq (js_get v ''allowed_origin'') (px_origin x) \<or> \<not> js_eq (js_get v ''worker_id'') (px_workerId x) \<or>
         \<not> js_eq (js_get v ''public_key_sha256'') (px_publicKeySha256 x)
      then PolicyBlocked ''NATIVE_POLICY_IDENTITY_MISMATCH''
      else if \<not> exact_joined resources RESOURCE_FIELDS then PolicyBlocked ''NATIVE_POLICY_PINS_OR_EXPIRY_INVALID''
      else if \<not> hash_test (js_get v ''profile_binding_sha256'') \<or>
         \<not> list_all (\<lambda>k. hash_test (pin k)) [''browser_profile_sha256'', ''bridge_identity_sha256'', ''chatgpt_target_sha256''] \<or>
         \<not> is_safe_integer (js_get v ''expires_at_ms'') \<or> the_int (js_get v ''expires_at_ms'') \<le> the_int (px_now x) \<or>
         the_int (px_now x) + POLICY_LIFETIME_MS < the_int (js_get v ''expires_at_ms'')
      then PolicyBlocked ''NATIVE_POLICY_PINS_OR_EXPIRY_INVALID''
      else if \<not> all_different ([px_publicKeySha256 x, js_get v ''profile_binding_sha256''] @
         map pin [''browser_profile_sha256'', ''bridge_identity_sha256'', ''chatgpt_target_sha256''])
      then PolicyBlocked ''NATIVE_POLICY_DUPLICATE_PINS''
      else PolicyMatch (js_get v ''profile_binding_sha256'') (pin ''chatgpt_target_sha256'')
        (pin ''browser_profile_sha256'') (pin ''bridge_identity_sha256''))"

section \<open>Exact key sets\<close>

text \<open>
  The joined comparison could be met by one key that contains commas. It cannot once the number
  of keys is known: the commas of the text are those of the keys and one between each two.
\<close>

definition commas :: "string \<Rightarrow> nat" where
  "commas s = length (filter (\<lambda>c. c = CHR '','') s)"

lemma commas_simps [simp]: "commas [] = 0" "commas (s @ t) = commas s + commas t" "commas (c # s) = (if c = CHR '','' then Suc (commas s) else commas s)"
  by (simp_all add: commas_def)

lemma commas_join: "xs \<noteq> [] \<Longrightarrow> Suc (commas (join_comma xs)) = sum_list (map commas xs) + length xs"
  by (induction xs rule: join_comma.induct) auto

lemma commas_0: "commas s = 0 \<longleftrightarrow> CHR '','' \<notin> set s"
  by (auto simp: commas_def filter_empty_conv)

lemma join_comma_plain_inj:
  assumes "list_all (\<lambda>s. commas s = 0) xs" "list_all (\<lambda>s. commas s = 0) ys" and "length xs = length ys"
    and "join_comma xs = join_comma ys"
  shows "xs = ys"
  using assms
proof (induction xs arbitrary: ys)
  case (Cons x xs)
  then obtain y zs where ys: "ys = y # zs" by (cases ys) auto
  show ?case
  proof (cases xs)
    case Nil
    then show ?thesis using Cons.prems ys by simp
  next
    case (Cons x' xs')
    then obtain z zs' where zs: "zs = z # zs'" using Cons.prems(3) ys by (cases zs) auto
    have "x @ CHR '','' # join_comma xs = y @ CHR '','' # join_comma zs"
      using Cons.prems(4) ys zs Cons by simp
    then have "x = y \<and> join_comma xs = join_comma zs"
      using split_at_delim [of "CHR '',''" x y] Cons.prems(1,2) ys by (simp add: commas_0)
    then show ?thesis using Cons.IH [of zs] Cons.prems ys by simp
  qed
qed simp

lemma sort_empty_iff: "sort xs = [] \<longleftrightarrow> xs = []"
  by (metis length_sort length_0_conv)

lemma exact_joined_keys:
  assumes "exact_joined v ks" and "length (js_keys v) = length ks" and "list_all (\<lambda>s. commas s = 0) ks" and "ks \<noteq> []"
  shows "sort (js_keys v) = sort ks"
proof -
  have joined: "join_comma (sort (js_keys v)) = join_comma (sort ks)" using assms(1) by (simp add: exact_joined_def)
  have "sort (js_keys v) \<noteq> []" "sort ks \<noteq> []" using assms(2,4) by (auto simp: sort_empty_iff)
  then have "sum_list (map commas (sort (js_keys v))) = sum_list (map commas (sort ks))"
    using commas_join [of "sort (js_keys v)"] commas_join [of "sort ks"] joined assms(2) by simp
  also have "\<dots> = 0" using assms(3) by (simp add: sum_list_eq_0_iff list_all_iff)
  finally have "list_all (\<lambda>s. commas s = 0) (sort (js_keys v))" by (simp add: list_all_iff)
  moreover have "list_all (\<lambda>s. commas s = 0) (sort ks)" using assms(3) by (simp add: list_all_iff)
  ultimately show ?thesis using join_comma_plain_inj [OF _ _ _ joined] assms(2) by simp
qed

section \<open>The two validations agree on texts\<close>

definition own_expected :: "jsval \<Rightarrow> int \<Rightarrow> policy_expected" where
  "own_expected p now = \<lparr>px_origin = js_get p ''allowed_origin'', px_workerId = js_get p ''worker_id'',
     px_publicKeySha256 = js_get p ''public_key_sha256'', px_now = JInt now\<rparr>"

definition pins_of :: "jsval \<Rightarrow> jsval list" where
  "pins_of p = js_get p ''public_key_sha256'' # js_get p ''profile_binding_sha256'' #
     map (js_get (js_get p ''resources'')) RESOURCE_FIELDS"

lemma all_different_strings: "list_all is_JStr vs \<Longrightarrow> all_different vs \<longleftrightarrow> distinct vs"
  by (induction vs) (auto simp: list_all_iff js_simps)

lemma values_of_keys: "distinct (js_keys v) \<Longrightarrow> js_values v = map (js_get v) (js_keys v)"
proof (cases v)
  case (JObj kvs)
  assume "distinct (js_keys v)"
  then have "map_of kvs (fst kv) = Some (snd kv)" if "kv \<in> set kvs" for kv
    using that JObj by (cases kv) simp
  then show ?thesis using JObj by simp
qed simp_all

lemma resource_fields_plain: "list_all (\<lambda>s. commas s = 0) RESOURCE_FIELDS" "length RESOURCE_FIELDS = 3"
  by code_simp+

lemma resource_key_count: "exact_joined v RESOURCE_FIELDS \<Longrightarrow> length (js_keys v) \<le> 3"
proof (cases "js_keys v = []")
  case False
  assume "exact_joined v RESOURCE_FIELDS"
  then have "join_comma (sort (js_keys v)) = join_comma (sort RESOURCE_FIELDS)" by (simp add: exact_joined_def)
  moreover have "Suc (commas (join_comma (sort RESOURCE_FIELDS))) = 3" by code_simp
  moreover have "sort (js_keys v) \<noteq> []" using False by (simp add: sort_empty_iff)
  ultimately show ?thesis using commas_join [of "sort (js_keys v)"] by simp
qed simp

lemma resource_values:
  assumes "exact_joined v RESOURCE_FIELDS" and "3 \<le> length (js_keys v)"
  shows "mset (js_values v) = mset (map (js_get v) RESOURCE_FIELDS)"
proof -
  have "length (js_keys v) = length RESOURCE_FIELDS"
    using resource_key_count [OF assms(1)] assms(2) resource_fields_plain(2) by simp
  from arg_cong [OF exact_joined_keys [OF assms(1) this resource_fields_plain(1)], of mset]
  have perm: "mset (js_keys v) = mset RESOURCE_FIELDS"
    by (simp add: RESOURCE_FIELDS_def del: mset.simps)
  then have "distinct (js_keys v)"
    using mset_eq_imp_distinct_iff [of "js_keys v" RESOURCE_FIELDS] by (simp add: RESOURCE_FIELDS_def)
  then show ?thesis using perm by (simp add: values_of_keys)
qed

lemma resources_both:
  assumes "exact_joined v RESOURCE_FIELDS" and "list_all is_JStr (map (js_get v) RESOURCE_FIELDS)"
  shows "mset (js_values v) = mset (map (js_get v) RESOURCE_FIELDS)"
proof -
  have "set RESOURCE_FIELDS \<subseteq> set (js_keys v)"
  proof
    fix k
    assume "k \<in> set RESOURCE_FIELDS"
    then have "is_JStr (js_get v k)" using assms(2) by (simp add: list_all_iff)
    then show "k \<in> set (js_keys v)" by (intro js_get_in_keys) auto
  qed
  then have "card (set RESOURCE_FIELDS) \<le> card (set (js_keys v))" by (simp add: card_mono)
  moreover have "card (set RESOURCE_FIELDS) = 3" by (simp add: RESOURCE_FIELDS_def)
  ultimately have "3 \<le> length (js_keys v)" using card_length [of "js_keys v"] by linarith
  then show ?thesis by (rule resource_values [OF assms(1)])
qed

lemma card_set_5: "length xs = 5 \<Longrightarrow> card (set xs) = 5 \<longleftrightarrow> distinct xs"
  by (metis card_distinct distinct_card)

lemma policy_chain:
  "(if c1 then PolicyBlocked e1 else if c2 then PolicyBlocked e2 else if c3 then PolicyBlocked e3
    else if c4 then PolicyBlocked e4 else if c5 then PolicyBlocked e5 else PolicyMatch w x y z) = PolicyMatch w x y z
    \<longleftrightarrow> \<not> c1 \<and> \<not> c2 \<and> \<not> c3 \<and> \<not> c4 \<and> \<not> c5"
  by simp

text \<open>
  Whenever the five pins of a policy are strings, the host admits the policy at a moment if and
  only if the popup, expecting the policy's own identity, matches it at that moment, and the match
  reports exactly the pins.
\<close>

theorem policies_agree:
  assumes "list_all is_JStr (pins_of p)" and "safe_int now"
  shows "validNativeHostPolicy p now \<longleftrightarrow>
    checkOwnerNativePolicy p (own_expected p now) =
      PolicyMatch (js_get p ''profile_binding_sha256'') (js_get (js_get p ''resources'') ''chatgpt_target_sha256'')
        (js_get (js_get p ''resources'') ''browser_profile_sha256'') (js_get (js_get p ''resources'') ''bridge_identity_sha256'')"
    (is "?host \<longleftrightarrow> ?popup")
proof (cases "exact_joined (js_get p ''resources'') RESOURCE_FIELDS")
  case False
  then show ?thesis by (auto simp: validNativeHostPolicy_def validResources_def checkOwnerNativePolicy_def Let_def)
next
  case True
  let ?r = "js_get p ''resources''" and ?pk = "js_get p ''public_key_sha256''" and ?pr = "js_get p ''profile_binding_sha256''"
  let ?a = "js_get ?r ''bridge_identity_sha256''" and ?b = "js_get ?r ''browser_profile_sha256''" and ?c = "js_get ?r ''chatgpt_target_sha256''"
  have strings: "is_JStr ?pk" "is_JStr ?pr" "is_JStr ?a" "is_JStr ?b" "is_JStr ?c"
    using assms(1) by (simp_all add: pins_of_def RESOURCE_FIELDS_def)
  have vals: "mset (js_values ?r) = mset [?a, ?b, ?c]"
    using resources_both [OF True] strings by (simp add: RESOURCE_FIELDS_def)
  then have set: "set (js_values ?r) = {?a, ?b, ?c}" by (metis set_mset_mset list.simps(15) list.set(1))
  have "card (set [?pk, ?pr, ?b, ?a, ?c]) = 5 \<longleftrightarrow> distinct [?pk, ?pr, ?b, ?a, ?c]"
    by (rule card_set_5) simp
  moreover have "set (?pk # ?pr # js_values ?r) = set [?pk, ?pr, ?b, ?a, ?c]" using set by auto
  ultimately have card: "card (set (?pk # ?pr # js_values ?r)) = 5 \<longleftrightarrow> all_different [?pk, ?pr, ?b, ?a, ?c]"
    using strings by (subst all_different_strings) auto
  have hash: "validHash v \<longleftrightarrow> hash_test v" if "is_JStr v" for v
    using that by (auto simp: validHash_def hash_test_def js_simps)
  have pins: "list_all validHash (js_values ?r) \<longleftrightarrow> hash_test ?b \<and> hash_test ?a \<and> hash_test ?c"
    using set hash strings by (auto simp: list_all_iff)
  have self: "js_eq v v" if "is_JStr v" for v using that by (cases v) auto
  let ?common = "exact_joined p POLICY_FIELDS \<and> js_eq (js_get p ''version'') (JInt 1) \<and>
     is_JStr (js_get p ''allowed_origin'') \<and> origin_re (str_or_empty (js_get p ''allowed_origin'')) \<and>
     is_JStr (js_get p ''worker_id'') \<and> worker_id_re (str_or_empty (js_get p ''worker_id'')) \<and>
     hash_test ?pk \<and> 0 < now \<and> hash_test ?pr \<and> (hash_test ?b \<and> hash_test ?a \<and> hash_test ?c) \<and>
     is_safe_integer (js_get p ''expires_at_ms'') \<and> now < the_int (js_get p ''expires_at_ms'') \<and>
     the_int (js_get p ''expires_at_ms'') \<le> now + POLICY_LIFETIME_MS \<and> all_different [?pk, ?pr, ?b, ?a, ?c]"
  have "?popup \<longleftrightarrow> ?common"
    unfolding checkOwnerNativePolicy_def Let_def own_expected_def policy_expected.simps policy_chain
      is_safe_integer.simps the_int.simps list.map append.simps list.pred_inject(2) not_le not_less not_not de_Morgan_disj
    using True self [OF strings(1)] self [of "js_get p ''allowed_origin''"] self [of "js_get p ''worker_id''"] assms(2) by (simp only: list.pred_inject(1) simp_thms) blast
  moreover have "?host \<longleftrightarrow> ?common"
    unfolding validNativeHostPolicy_def validResources_def card pins
    using hash [OF strings(1)] hash [OF strings(2)] assms(2) True by blast
  ultimately show ?thesis by blast
qed

section \<open>A policy on which they do not\<close>

definition wide_hash :: "char \<Rightarrow> string" where "wide_hash c = replicate 64 c"

definition sample_origin :: string where
  "sample_origin = ''chrome-extension://'' @ replicate 32 CHR ''a'' @ ''/''"

definition sample_policy :: "jsval \<Rightarrow> jsval" where
  "sample_policy profile = JObj [(''version'', JInt 1), (''allowed_origin'', JStr sample_origin),
     (''worker_id'', JStr ''bke-13''), (''public_key_sha256'', JStr (wide_hash CHR ''a'')),
     (''profile_binding_sha256'', profile), (''expires_at_ms'', JInt 2000000),
     (''resources'', JObj [(''chatgpt_target_sha256'', JStr (wide_hash CHR ''c'')),
        (''browser_profile_sha256'', JStr (wide_hash CHR ''d'')), (''bridge_identity_sha256'', JStr (wide_hash CHR ''e''))])]"

lemma wide_hash_facts: "hash_re (wide_hash c) \<longleftrightarrow> is_hex_lower c" "wide_hash c = wide_hash d \<longleftrightarrow> c = d"
  by (auto simp: hash_re_def class_rep_def wide_hash_def list_all_iff)

lemma wide_digits: "is_hex_lower CHR ''1''" "is_hex_lower CHR ''2''" "is_hex_lower CHR ''a''" "is_hex_lower CHR ''b''" "is_hex_lower CHR ''c''"
   "is_hex_lower CHR ''d''" "is_hex_lower CHR ''e''"
  by code_simp+

lemma sample_origin_ok: "origin_re sample_origin" by code_simp

lemma sample_policy_shape:
  "exact_joined (sample_policy v) POLICY_FIELDS" "exact_joined (js_get (sample_policy v) ''resources'') RESOURCE_FIELDS"
  by (simp_all add: sample_policy_def exact_joined_def POLICY_FIELDS_def RESOURCE_FIELDS_def)

lemma sample_policy_matches:
  assumes "v = JStr (wide_hash CHR ''b'') \<or> v = JArr [JStr (wide_hash CHR ''b'')]"
  shows "checkOwnerNativePolicy (sample_policy v) (own_expected (sample_policy v) 1000000) =
     PolicyMatch v (JStr (wide_hash CHR ''c'')) (JStr (wide_hash CHR ''d'')) (JStr (wide_hash CHR ''e''))"
proof -
  have "worker_id_re ''bke-13''" by code_simp
  then show ?thesis
    using assms sample_policy_shape [of v]
    by (auto simp: checkOwnerNativePolicy_def own_expected_def Let_def sample_policy_def sample_origin_ok hash_test_def wide_hash_facts
        wide_digits safe_int_def max_safe_def POLICY_LIFETIME_MS_def)
qed

theorem policies_agree_witness:
  "validNativeHostPolicy (sample_policy (JStr (wide_hash CHR ''b''))) 1000000"
proof -
  have "list_all is_JStr (pins_of (sample_policy (JStr (wide_hash CHR ''b''))))"
    by (simp add: pins_of_def RESOURCE_FIELDS_def sample_policy_def)
  moreover have "safe_int 1000000" by code_simp
  ultimately show ?thesis using policies_agree [of "sample_policy (JStr (wide_hash CHR ''b''))" 1000000]
      sample_policy_matches [of "JStr (wide_hash CHR ''b'')"] by (simp add: sample_policy_def)
qed

text \<open>
  A pin given as an array of one hash passes the popup, which tests the text of the value, and is
  denied by the host, which tests its type.
\<close>

lemma array_pin_divergence:
  "checkOwnerNativePolicy (sample_policy (JArr [JStr (wide_hash CHR ''b'')]))
     (own_expected (sample_policy (JArr [JStr (wide_hash CHR ''b'')])) 1000000) =
     PolicyMatch (JArr [JStr (wide_hash CHR ''b'')]) (JStr (wide_hash CHR ''c'')) (JStr (wide_hash CHR ''d'')) (JStr (wide_hash CHR ''e''))"
  "\<not> validNativeHostPolicy (sample_policy (JArr [JStr (wide_hash CHR ''b'')])) 1000000"
  using sample_policy_matches by (auto simp: validNativeHostPolicy_def validHash_def sample_policy_def)

end
