(* ===== verification/NativeHost.thy ===== *)
theory NativeHost imports NativeFraming NativePolicy
begin

text \<open>
  \<open>native-host/host.mjs\<close> and \<open>native-host/entry.mjs\<close>: one session of the native host. It
  validates the owner's policy, reads a hello, issues a challenge, reads a proof and checks the
  P-256 signature of the pinned device key over a message that binds the whole session. SHA-256,
  key import and ECDSA are parameters; so are the clock, the random nonce, the stream, the
  timers and the outcome of each write.
\<close>

section \<open>Cryptography\<close>

text \<open>
  The operations of \<open>node:crypto\<close> the host uses. \<open>nc_key_ok\<close> is false when
  \<open>createPublicKey\<close> throws, \<open>nc_verify\<close> is \<^const>\<open>None\<close> when \<open>verify\<close> throws.
\<close>

record node_crypto =
  nc_sha256 :: "bytes \<Rightarrow> bytes"
  nc_key_ok :: "jsval \<Rightarrow> bool"
  nc_verify :: "jsval \<Rightarrow> bytes \<Rightarrow> bytes \<Rightarrow> bool option"

definition publicThumbprint :: "node_crypto \<Rightarrow> jsval \<Rightarrow> string" where
  "publicThumbprint nc jwk =
     (case json_stringify (JObj [(''crv'', JStr ''P-256''), (''kty'', JStr ''EC''),
        (''x'', js_get jwk ''x''), (''y'', js_get jwk ''y'')]) of
        Some t \<Rightarrow> hex_bytes (nc_sha256 nc (utf8 t)) | None \<Rightarrow> [])"

definition validPublic :: "jsval \<Rightarrow> bool" where
  "validPublic x \<longleftrightarrow> exact_joined x [''crv'', ''kty'', ''x'', ''y''] \<and>
     js_eq (js_get x ''crv'') (JStr ''P-256'') \<and> js_eq (js_get x ''kty'') (JStr ''EC'') \<and>
     (\<forall>k \<in> set [''x'', ''y'']. is_JStr (js_get x k) \<and> class_rep b64url_char 43 43 (str_or_empty (js_get x k)))"

section \<open>Messages\<close>

definition HOST_AUD :: string where "HOST_AUD = ''bke-worker/desktop/native-key-proof/v1''"

definition HELLO_FIELDS :: "string list" where
  "HELLO_FIELDS = [''client_nonce'', ''public_key'', ''resources'', ''type'', ''version'', ''worker_id'']"

definition PROOF_FIELDS :: "string list" where
  "PROOF_FIELDS = [''client_nonce'', ''device_signature'', ''server_nonce'', ''type'', ''version'']"

definition MAX_CLOCK_SKEW :: int where "MAX_CLOCK_SKEW = 30000"

definition sameResources :: "jsval \<Rightarrow> jsval \<Rightarrow> bool" where
  "sameResources a b \<longleftrightarrow> length (js_keys a) = 3 \<and>
     list_all (\<lambda>k. js_eq (js_get a k) (js_get b k)) RESOURCE_FIELDS"

text \<open>What the device signs: the fields of the session, as a JSON array.\<close>

definition proof_fields :: "jsval \<Rightarrow> jsval \<Rightarrow> jsval \<Rightarrow> jsval \<Rightarrow> jsval \<Rightarrow> int \<Rightarrow> jsval list" where
  "proof_fields origin worker_id policy client_nonce server_nonce expires_at_ms =
     [JStr HOST_AUD, JStr ''prove'', origin, worker_id, js_get policy ''public_key_sha256'',
      js_get policy ''profile_binding_sha256'', js_get (js_get policy ''resources'') ''chatgpt_target_sha256'',
      js_get (js_get policy ''resources'') ''browser_profile_sha256'',
      js_get (js_get policy ''resources'') ''bridge_identity_sha256'', client_nonce, server_nonce, JInt expires_at_ms]"

definition nativeProofMessage :: "jsval list \<Rightarrow> string" where
  "nativeProofMessage fs = json_array fs"

definition matchesHello :: "node_crypto \<Rightarrow> jsval \<Rightarrow> jsval \<Rightarrow> bool" where
  "matchesHello nc v policy \<longleftrightarrow>
     exact_joined v HELLO_FIELDS \<and> js_eq (js_get v ''type'') (JStr ''HELLO'') \<and> js_eq (js_get v ''version'') (JInt 1) \<and>
     js_eq (js_get v ''worker_id'') (js_get policy ''worker_id'') \<and> validPublic (js_get v ''public_key'') \<and>
     validResources (js_get v ''resources'') \<and> sameResources (js_get v ''resources'') (js_get policy ''resources'') \<and>
     validHash (js_get v ''client_nonce'') \<and> nc_key_ok nc (js_get v ''public_key'') \<and>
     js_eq (js_get policy ''public_key_sha256'') (JStr (publicThumbprint nc (js_get v ''public_key'')))"

definition decodeP1363 :: "jsval \<Rightarrow> bytes option" where
  "decodeP1363 v = decode_field 86 64 v"

definition matchesProof ::
  "node_crypto \<Rightarrow> jsval \<Rightarrow> jsval \<Rightarrow> jsval \<Rightarrow> jsval \<Rightarrow> jsval \<Rightarrow> int \<Rightarrow> bool" where
  "matchesProof nc v issued hello policy origin now \<longleftrightarrow>
     exact_joined v PROOF_FIELDS \<and> js_eq (js_get v ''type'') (JStr ''PROOF'') \<and> js_eq (js_get v ''version'') (JInt 1) \<and>
     js_eq (js_get v ''client_nonce'') (js_get hello ''client_nonce'') \<and>
     js_eq (js_get v ''server_nonce'') (js_get issued ''server_nonce'') \<and>
     now < the_int (js_get issued ''expires_at_ms'') \<and>
     (case decodeP1363 (js_get v ''device_signature'') of None \<Rightarrow> False
      | Some signature \<Rightarrow> nc_key_ok nc (js_get hello ''public_key'') \<and>
          nc_verify nc (js_get hello ''public_key'') (utf8 (nativeProofMessage (proof_fields origin
            (js_get hello ''worker_id'') policy (js_get hello ''client_nonce'') (js_get issued ''server_nonce'')
            (the_int (js_get issued ''expires_at_ms''))))) signature = Some True)"

section \<open>One session\<close>

text \<open>
  \<open>nh_now k\<close> is the \<open>k\<close>-th reading of the clock, \<open>nh_late k\<close> whether the timer of the
  \<open>k\<close>-th bounded read ends before the read does, \<open>nh_write k\<close> the error of the
  \<open>k\<close>-th write. A result lists the frames that were written.
\<close>

record native_env =
  nh_crypto :: node_crypto
  nh_parse :: "bytes \<Rightarrow> jsval option"
  nh_now :: "nat \<Rightarrow> int"
  nh_nonce :: jsval
  nh_late :: "nat \<Rightarrow> bool"
  nh_write :: "nat \<Rightarrow> string option"
  nh_input :: "stream_item list"

definition bounded_read :: "native_env \<Rightarrow> nat \<Rightarrow> frame_reader \<Rightarrow> frame_reader \<times> (string + jsval)" where
  "bounded_read env k r = (if nh_late env k then (r, Inl ''NATIVE_TIMEOUT'') else next_frame (nh_parse env) MAX_FRAME_BYTES r)"

definition writeFrame :: "native_env \<Rightarrow> nat \<Rightarrow> jsval \<Rightarrow> bytes list \<Rightarrow> bytes list \<times> string option" where
  "writeFrame env k v sent =
     (case encodeFrame v MAX_RESPONSE_BYTES of Inl e \<Rightarrow> (sent, Some e)
      | Inr frame \<Rightarrow> (sent @ [frame], nh_write env k))"

definition challenge_of :: "jsval \<Rightarrow> jsval \<Rightarrow> jsval \<Rightarrow> int \<Rightarrow> jsval" where
  "challenge_of policy server_nonce client_nonce expires_at_ms =
     JObj [(''type'', JStr ''CHALLENGE''), (''version'', JInt 1), (''server_nonce'', server_nonce),
       (''client_nonce'', client_nonce), (''expires_at_ms'', JInt expires_at_ms),
       (''profile_binding_sha256'', js_get policy ''profile_binding_sha256'')]"

definition receipt_of :: "jsval \<Rightarrow> jsval" where
  "receipt_of policy = JObj [(''type'', JStr ''LOCAL_PROOF_OK''), (''version'', JInt 1),
     (''worker_id'', js_get policy ''worker_id''), (''public_key_sha256'', js_get policy ''public_key_sha256''),
     (''admission_authority'', JStr ''NONE''), (''dispatch_authority'', JStr ''NONE'')]"

text \<open>From the accepted hello on.\<close>

definition prove_session ::
  "native_env \<Rightarrow> jsval \<Rightarrow> jsval \<Rightarrow> int \<Rightarrow> jsval \<Rightarrow> frame_reader \<Rightarrow> (string + string) \<times> bytes list" where
  "prove_session env policy claimedOrigin timeoutMs hello r =
     (let server_nonce = nh_nonce env; moment = nh_now env 1; deadline = the_int (js_get policy ''expires_at_ms'') in
      if \<not> validHash server_nonce \<or> js_eq server_nonce (js_get hello ''client_nonce'') then (Inl ''NATIVE_NONCE_DENIED'', [])
      else if moment < nh_now env 0 - MAX_CLOCK_SKEW \<or> deadline \<le> moment then (Inl ''NATIVE_CLOCK_DENIED'', [])
      else let issued = challenge_of policy server_nonce (js_get hello ''client_nonce'') (min (moment + timeoutMs) deadline) in
      case writeFrame env 0 issued [] of
        (sent, Some e) \<Rightarrow> (Inl e, sent)
      | (sent, None) \<Rightarrow>
          (case snd (bounded_read env 1 r) of Inl e \<Rightarrow> (Inl e, sent)
           | Inr v \<Rightarrow>
               if \<not> matchesProof (nh_crypto env) v issued hello policy claimedOrigin (nh_now env 2) then (Inl ''NATIVE_PROOF_DENIED'', sent)
               else case writeFrame env 1 (receipt_of policy) sent of
                 (sent', Some e) \<Rightarrow> (Inl e, sent')
               | (sent', None) \<Rightarrow> (Inr ''LOCAL_PROOF_OK'', sent')))"

definition runNativeProofHost ::
  "native_env \<Rightarrow> jsval \<Rightarrow> jsval \<Rightarrow> jsval \<Rightarrow> (string + string) \<times> bytes list" where
  "runNativeProofHost env policy claimedOrigin timeoutMs =
     (if \<not> validNativeHostPolicy policy (nh_now env 0) \<or>
         \<not> js_eq claimedOrigin (js_get policy ''allowed_origin'') \<or>
         \<not> is_safe_integer timeoutMs \<or> the_int timeoutMs < 100 \<or> 15000 < the_int timeoutMs
      then (Inl ''NATIVE_POLICY_DENIED'', [])
      else case bounded_read env 0 (nativeFrameReader (nh_input env)) of
        (r, Inl e) \<Rightarrow> (Inl e, [])
      | (r, Inr hello) \<Rightarrow>
          if \<not> matchesHello (nh_crypto env) hello policy then (Inl ''NATIVE_HELLO_DENIED'', [])
          else prove_session env policy claimedOrigin (the_int timeoutMs) hello r)"

section \<open>The process\<close>

text \<open>
  What the operating system tells of the policy file. \<open>pf_text\<close> is the parsed contents,
  \<^const>\<open>None\<close> when reading or parsing throws.
\<close>

record policy_file =
  pf_supported :: bool
  pf_opens :: bool
  pf_regular :: bool
  pf_size :: int
  pf_mode :: nat
  pf_uid :: nat
  pf_text :: "jsval option"

text \<open>\<open>isAbsolute(path)\<close> on a POSIX system, the only kind the host accepts.\<close>

definition path_ok :: "string \<Rightarrow> bool" where
  "path_ok path \<longleftrightarrow> starts_with path ''/'' \<and> CHR 0x00 \<notin> set path"

text \<open>\<open>0o022\<close>: the write bits of the group and of others.\<close>

definition readOwnerPinnedPolicy :: "policy_file \<Rightarrow> nat \<Rightarrow> string \<Rightarrow> string + jsval" where
  "readOwnerPinnedPolicy f uid path =
     (if \<not> path_ok path then Inl ''NATIVE_POLICY_PATH_INVALID''
      else if \<not> pf_supported f then Inl ''NATIVE_OS_POLICY_NOT_CERTIFIED''
      else if \<not> pf_opens f then Inl ''ENOENT''
      else if \<not> pf_regular f \<or> pf_size f < 8 \<or> 4096 < pf_size f \<or> and (pf_mode f) 18 \<noteq> 0 \<or> pf_uid f \<noteq> uid
      then Inl ''NATIVE_POLICY_OWNER_INVALID''
      else case pf_text f of None \<Rightarrow> Inl ''SyntaxError'' | Some p \<Rightarrow> Inr p)"

text \<open>\<open>main\<close> and the exit code of the process, with the frames written.\<close>

definition main :: "native_env \<Rightarrow> (string \<Rightarrow> policy_file) \<Rightarrow> nat \<Rightarrow> string list \<Rightarrow> (string + string) \<times> bytes list" where
  "main env files uid args =
     (case args of [policyPath, claimedOrigin] \<Rightarrow>
         (case readOwnerPinnedPolicy (files policyPath) uid policyPath of Inl e \<Rightarrow> (Inl e, [])
          | Inr policy \<Rightarrow> runNativeProofHost env policy (JStr claimedOrigin) (JInt 15000))
      | _ \<Rightarrow> (Inl ''NATIVE_INVOCATION_DENIED'', []))"

definition exit_code :: "(string + string) \<times> bytes list \<Rightarrow> nat" where
  "exit_code r = (case fst r of Inl _ \<Rightarrow> 1 | Inr _ \<Rightarrow> 0)"

section \<open>What a proof shows\<close>

lemma prove_session_ok:
  assumes "prove_session env policy origin timeoutMs hello r = (Inr ok, frames)"
  defines "expires \<equiv> min (nh_now env 1 + timeoutMs) (the_int (js_get policy ''expires_at_ms''))"
  defines "issued \<equiv> challenge_of policy (nh_nonce env) (js_get hello ''client_nonce'') expires"
  shows "validHash (nh_nonce env) \<and> \<not> js_eq (nh_nonce env) (js_get hello ''client_nonce'') \<and>
    (\<exists>v f g. matchesProof (nh_crypto env) v issued hello policy origin (nh_now env 2) \<and>
       encodeFrame issued MAX_RESPONSE_BYTES = Inr f \<and> encodeFrame (receipt_of policy) MAX_RESPONSE_BYTES = Inr g \<and>
       frames = [f, g])"
  using assms(1) unfolding prove_session_def Let_def issued_def expires_def
  by (auto simp: writeFrame_def split: if_splits sum.splits option.splits prod.splits)

lemma run_host_ok:
  assumes "runNativeProofHost env policy origin timeoutMs = (Inr ok, frames)"
  obtains hello r where "validNativeHostPolicy policy (nh_now env 0)" "origin = js_get policy ''allowed_origin''"
    "the_int timeoutMs \<le> 15000" "matchesHello (nh_crypto env) hello policy"
    "prove_session env policy origin (the_int timeoutMs) hello r = (Inr ok, frames)"
  using assms unfolding runNativeProofHost_def
  by (auto split: if_splits sum.splits prod.splits dest: js_eq_eq)

lemma plain_origin: "origin_re s \<Longrightarrow> list_all plain_char s"
proof -
  assume o: "origin_re s"
  have "starts_with s ''chrome-extension://''" "length s = 52" using o by (simp_all add: origin_re_def)
  then obtain t where s: "s = ''chrome-extension://'' @ t" by (auto simp: starts_with_iff)
  then have "length t = 33" "list_all (in_range CHR ''a'' CHR ''p'') (take 32 t)" "t ! 32 = CHR ''/''"
    using o by (auto simp: origin_re_def nth_append)
  then have "t = take 32 t @ [CHR ''/'']" using take_Suc_conv_app_nth [of 32 t] by simp
  moreover have "list_all plain_char (take 32 t)"
    using \<open>list_all (in_range CHR ''a'' CHR ''p'') (take 32 t)\<close>
    by (auto simp: list_all_iff in_range_def plain_char_def code_def)
  ultimately obtain u where "t = u @ [CHR ''/'']" "list_all plain_char u" by blast
  then show ?thesis using s by (simp add: plain_char_def code_def)
qed


lemma valid_policy_plain:
  assumes "validNativeHostPolicy p now"
  shows "list_all plain_scalar [js_get p ''allowed_origin'', js_get p ''worker_id'', js_get p ''public_key_sha256'',
    js_get p ''profile_binding_sha256''] \<and> 0 < now \<and> now < the_int (js_get p ''expires_at_ms'')"
proof -
  obtain origin worker where "js_get p ''allowed_origin'' = JStr origin" "origin_re origin"
      "js_get p ''worker_id'' = JStr worker" "worker_id_re worker"
    using assms by (auto simp: validNativeHostPolicy_def js_simps)
  then show ?thesis
    using assms plain_hash plain_origin plain_worker_id by (auto simp: validNativeHostPolicy_def)
qed

lemma same_resources_plain:
  assumes "validResources a" and "sameResources a b"
  shows "list_all plain_scalar (map (js_get b) RESOURCE_FIELDS)"
proof -
  have "mset (js_values a) = mset (map (js_get a) RESOURCE_FIELDS)"
    using resource_values [of a] assms by (simp add: validResources_def sameResources_def)
  then have "set (js_values a) = set (map (js_get a) RESOURCE_FIELDS)" by (rule mset_eq_setD)
  then have "list_all validHash (map (js_get a) RESOURCE_FIELDS)"
    using assms(1) by (auto simp: validResources_def list_all_iff)
  moreover have "map (js_get a) RESOURCE_FIELDS = map (js_get b) RESOURCE_FIELDS"
    using assms(2) by (auto simp: sameResources_def RESOURCE_FIELDS_def dest: js_eq_eq)
  ultimately show ?thesis using plain_hash by (auto simp: list_all_iff)
qed

lemma proof_fields_plain:
  assumes "validNativeHostPolicy policy now" and "validResources res" and "sameResources res (js_get policy ''resources'')"
    and "validHash c" and "validHash n" and "0 \<le> e"
  shows "list_all plain_scalar (proof_fields (js_get policy ''allowed_origin'') (js_get policy ''worker_id'') policy c n e)"
proof -
  have "list_all plain_scalar [JStr HOST_AUD, JStr ''prove'']" by code_simp
  then show ?thesis
    using valid_policy_plain [OF assms(1)] same_resources_plain [OF assms(2,3)] plain_hash [OF assms(4)] plain_hash [OF assms(5)] assms(6)
    by (simp add: proof_fields_def RESOURCE_FIELDS_def)
qed

text \<open>
  C20: let the owner's policy pin a device key, and let whoever holds a key of that thumbprint have
  signed only the messages of \<open>signed\<close>. If the host reports a local proof, then one of those
  messages is the message of this very session: its origin, worker, pins and profile are those of the
  policy, its server nonce is the one this session drew, different from the client's, and its
  deadline is not past and within both the policy and fifteen seconds of the challenge. The host has
  written the challenge and a receipt that grants no authority, and nothing else.
\<close>

theorem native_proof_binds_session:
  assumes "runNativeProofHost env policy origin timeoutMs = (Inr ok, frames)"
    and "\<And>key m s. js_get policy ''public_key_sha256'' = JStr (publicThumbprint (nh_crypto env) key) \<Longrightarrow>
      nc_verify (nh_crypto env) key m s = Some True \<Longrightarrow> \<exists>fs \<in> signed. m = utf8 (nativeProofMessage fs)"
    and "\<And>fs. fs \<in> signed \<Longrightarrow> list_all plain_scalar fs \<and> fs \<noteq> []"
    and "0 \<le> nh_now env 2"
  shows "origin = js_get policy ''allowed_origin'' \<and>
    (\<exists>client expires f g. proof_fields origin (js_get policy ''worker_id'') policy client (nh_nonce env) expires \<in> signed \<and>
      client \<noteq> nh_nonce env \<and> nh_now env 2 < expires \<and> expires \<le> the_int (js_get policy ''expires_at_ms'') \<and>
      expires \<le> nh_now env 1 + 15000 \<and> frames = [f, g] \<and>
      encodeFrame (challenge_of policy (nh_nonce env) client expires) MAX_RESPONSE_BYTES = Inr f \<and>
      encodeFrame (receipt_of policy) MAX_RESPONSE_BYTES = Inr g)"
proof -
  obtain hello r where pol: "validNativeHostPolicy policy (nh_now env 0)" and origin: "origin = js_get policy ''allowed_origin''"
      and timeout: "the_int timeoutMs \<le> 15000" and hello: "matchesHello (nh_crypto env) hello policy"
      and run: "prove_session env policy origin (the_int timeoutMs) hello r = (Inr ok, frames)"
    using run_host_ok [OF assms(1)] by blast
  let ?e = "min (nh_now env 1 + the_int timeoutMs) (the_int (js_get policy ''expires_at_ms''))"
  let ?c = "js_get hello ''client_nonce''"
  obtain v f g where nonce: "validHash (nh_nonce env)" "\<not> js_eq (nh_nonce env) ?c"
      and accepted: "matchesProof (nh_crypto env) v (challenge_of policy (nh_nonce env) ?c ?e) hello policy origin (nh_now env 2)"
      and frames: "encodeFrame (challenge_of policy (nh_nonce env) ?c ?e) MAX_RESPONSE_BYTES = Inr f"
        "encodeFrame (receipt_of policy) MAX_RESPONSE_BYTES = Inr g" "frames = [f, g]"
    using prove_session_ok [OF run] by blast
  have issued: "js_get (challenge_of policy (nh_nonce env) ?c ?e) ''server_nonce'' = nh_nonce env"
      "js_get (challenge_of policy (nh_nonce env) ?c ?e) ''expires_at_ms'' = JInt ?e"
    by (simp_all add: challenge_of_def)
  have worker: "js_get hello ''worker_id'' = js_get policy ''worker_id''"
    using hello by (auto simp: matchesHello_def dest: js_eq_eq)
  have client: "validHash ?c" and res: "validResources (js_get hello ''resources'')"
      "sameResources (js_get hello ''resources'') (js_get policy ''resources'')"
    and pin: "js_get policy ''public_key_sha256'' = JStr (publicThumbprint (nh_crypto env) (js_get hello ''public_key''))"
    using hello by (simp_all add: matchesHello_def)
  let ?fs = "proof_fields origin (js_get policy ''worker_id'') policy ?c (nh_nonce env) ?e"
  obtain s where "nc_verify (nh_crypto env) (js_get hello ''public_key'') (utf8 (nativeProofMessage ?fs)) s = Some True"
      and late: "nh_now env 2 < ?e"
    using accepted unfolding matchesProof_def issued worker by (auto split: option.splits)
  then obtain fs where fs: "fs \<in> signed" "utf8 (nativeProofMessage ?fs) = utf8 (nativeProofMessage fs)"
    using assms(2) [OF pin] by metis
  have "nativeProofMessage ?fs = nativeProofMessage fs" by (rule utf8_inj [OF fs(2)])
  moreover have "list_all plain_scalar ?fs"
    using proof_fields_plain [OF pol res client nonce(1)] late assms(4) origin by simp
  ultimately have "?fs = fs"
    using json_array_inj [of ?fs fs] assms(3) [OF fs(1)] by (simp add: nativeProofMessage_def proof_fields_def)
  moreover have "?c \<noteq> nh_nonce env"
    using nonce by (auto simp: validHash_def js_simps)
  ultimately show ?thesis using origin fs(1) late frames timeout by (intro conjI exI [of _ ?c] exI [of _ ?e] exI [of _ f] exI [of _ g]) auto
qed

section \<open>A session that succeeds\<close>

definition sample_public :: jsval where
  "sample_public = JObj [(''crv'', JStr ''P-256''), (''kty'', JStr ''EC''), (''x'', JStr (replicate 43 CHR ''A'')), (''y'', JStr (replicate 43 CHR ''A''))]"

definition sample_pinned :: jsval where
  "sample_pinned = sample_policy (JStr (wide_hash CHR ''b''))"

definition sample_hello :: jsval where
  "sample_hello = JObj [(''type'', JStr ''HELLO''), (''version'', JInt 1), (''worker_id'', JStr ''bke-13''),
     (''public_key'', sample_public), (''resources'', js_get sample_pinned ''resources''), (''client_nonce'', JStr (wide_hash CHR ''1''))]"

definition sample_device_proof :: jsval where
  "sample_device_proof = JObj [(''type'', JStr ''PROOF''), (''version'', JInt 1), (''client_nonce'', JStr (wide_hash CHR ''1'')),
     (''server_nonce'', JStr (wide_hash CHR ''2'')), (''device_signature'', JStr (replicate 86 CHR ''A''))]"

definition sample_signed :: "jsval list" where
  "sample_signed = proof_fields (JStr sample_origin) (JStr ''bke-13'') sample_pinned (JStr (wide_hash CHR ''1''))
     (JStr (wide_hash CHR ''2'')) 1015001"

definition sample_node_crypto :: node_crypto where
  "sample_node_crypto = \<lparr>nc_sha256 = \<lambda>_. replicate 32 (char_of (170 :: nat)), nc_key_ok = \<lambda>_. True,
     nc_verify = \<lambda>k m s. Some (m = utf8 (nativeProofMessage sample_signed))\<rparr>"

definition the_text :: "jsval \<Rightarrow> string" where
  "the_text v = (case json_stringify v of Some t \<Rightarrow> t | None \<Rightarrow> [])"

definition the_frame :: "jsval \<Rightarrow> bytes" where
  "the_frame v = uint32_le (length (utf8 (the_text v))) @ utf8 (the_text v)"

definition sample_native_env :: native_env where
  "sample_native_env = \<lparr>nh_crypto = sample_node_crypto,
     nh_parse = \<lambda>b. map_of [(utf8 (the_text sample_hello), sample_hello), (utf8 (the_text sample_device_proof), sample_device_proof)] b,
     nh_now = \<lambda>k. 1000000 + int k, nh_nonce = JStr (wide_hash CHR ''2''), nh_late = \<lambda>_. False, nh_write = \<lambda>_. None,
     nh_input = map Chunk [the_frame sample_hello @ the_frame sample_device_proof]\<rparr>"

lemma frame_fits:
  assumes "is_object v" and "2 * js_size v \<le> maximum" and "maximum < 256 ^ 4"
  shows "encodeFrame v maximum = Inr (the_frame v)" and "json_stringify v = Some (the_text v)"
proof -
  obtain t where t: "json_stringify v = Some t" "t \<noteq> []" using assms(1) by (auto simp: is_object_iff)
  have "utf8 t \<noteq> []" using t(2) length_le_byte_length [of t] by (auto simp: byte_length_def)
  moreover have "length (utf8 t) \<le> maximum"
    using byte_length_le [of t] length_json [OF t(1)] assms(2) by (simp add: byte_length_def)
  ultimately show "encodeFrame v maximum = Inr (the_frame v)"
    using t(1) assms(3) by (auto simp: encodeFrame_Inr the_frame_def the_text_def)
  show "json_stringify v = Some (the_text v)" using t(1) by (simp add: the_text_def)
qed

lemma sample_is_object:
  "is_object sample_hello" "is_object sample_device_proof" "is_object (receipt_of p)" "is_object (challenge_of p n c e)"
  by (simp_all add: sample_hello_def sample_device_proof_def receipt_of_def challenge_of_def)

lemma sample_size_hello: "js_size sample_hello \<le> 8000" by code_simp
lemma sample_size_proof: "js_size sample_device_proof \<le> 8000" by code_simp
lemma sample_size_challenge:
  "js_size (challenge_of sample_pinned (JStr (wide_hash CHR ''2'')) (JStr (wide_hash CHR ''1'')) 1015001) \<le> 2000"
proof -
  have "length (int_string 1015001) \<le> Suc 6" by (rule length_int_string) simp_all
  moreover have "length (int_string 1) \<le> Suc 0" by (rule length_int_string) simp_all
  ultimately show ?thesis
    by (simp add: challenge_of_def wide_hash_def sample_pinned_def sample_policy_def)
qed

lemma sample_size_receipt: "js_size (receipt_of sample_pinned) \<le> 2000" by code_simp


lemma sample_frames:
  "encodeFrame sample_hello MAX_FRAME_BYTES = Inr (the_frame sample_hello)"
  "encodeFrame sample_device_proof MAX_FRAME_BYTES = Inr (the_frame sample_device_proof)"
  "encodeFrame (challenge_of sample_pinned (JStr (wide_hash CHR ''2'')) (JStr (wide_hash CHR ''1'')) 1015001) MAX_RESPONSE_BYTES =
     Inr (the_frame (challenge_of sample_pinned (JStr (wide_hash CHR ''2'')) (JStr (wide_hash CHR ''1'')) 1015001))"
  "encodeFrame (receipt_of sample_pinned) MAX_RESPONSE_BYTES = Inr (the_frame (receipt_of sample_pinned))"
  using sample_size_hello sample_size_proof sample_size_challenge sample_size_receipt
  by (auto intro!: frame_fits sample_is_object simp: MAX_FRAME_BYTES_def MAX_RESPONSE_BYTES_def)

lemma sample_texts:
  "json_stringify sample_hello = Some (the_text sample_hello)"
  "json_stringify sample_device_proof = Some (the_text sample_device_proof)"
  using frame_fits(2) [OF sample_is_object(1), of 16384] frame_fits(2) [OF sample_is_object(2), of 16384]
    sample_size_hello sample_size_proof by simp_all

lemma sample_text_heads:
  "\<exists>u. the_text sample_hello = CHR ''{'' # json_quote ''type'' @ CHR '':'' # json_quote ''HELLO'' @ u"
  "\<exists>u. the_text sample_device_proof = CHR ''{'' # json_quote ''type'' @ CHR '':'' # json_quote ''PROOF'' @ u"
  by (simp_all add: the_text_def sample_hello_def sample_device_proof_def)

lemma sample_texts_differ: "utf8 (the_text sample_hello) \<noteq> utf8 (the_text sample_device_proof)"
proof
  assume "utf8 (the_text sample_hello) = utf8 (the_text sample_device_proof)"
  then have "the_text sample_hello = the_text sample_device_proof" by (rule utf8_inj)
  moreover obtain u where u: "the_text sample_hello = CHR ''{'' # json_quote ''type'' @ CHR '':'' # json_quote ''HELLO'' @ u"
    using sample_text_heads(1) by blast
  moreover obtain v where v: "the_text sample_device_proof = CHR ''{'' # json_quote ''type'' @ CHR '':'' # json_quote ''PROOF'' @ v"
    using sample_text_heads(2) by blast
  ultimately have eq: "json_quote ''HELLO'' @ u = json_quote ''PROOF'' @ v" by simp
  have "list_all plain_char ''HELLO''" "list_all plain_char ''PROOF''" by code_simp+
  from json_quote_split [OF this eq] show False by simp
qed

lemma sample_hello_ok: "matchesHello sample_node_crypto sample_hello sample_pinned"
proof -
  have "hex_bytes (replicate 32 (char_of (170 :: nat))) = wide_hash CHR ''a''" unfolding hex_bytes_aa wide_hash_def by simp
  then have thumb: "publicThumbprint sample_node_crypto v = wide_hash CHR ''a''" if "is_JStr (js_get v ''x'')" "is_JStr (js_get v ''y'')" for v
    using that by (auto simp: publicThumbprint_def sample_node_crypto_def js_simps)
  have "exact_joined sample_hello HELLO_FIELDS" by (simp add: exact_joined_def HELLO_FIELDS_def sample_hello_def)
  moreover have "validPublic sample_public" by code_simp
  moreover have res: "js_get sample_pinned ''resources'' = JObj [(''chatgpt_target_sha256'', JStr (wide_hash CHR ''c'')),
      (''browser_profile_sha256'', JStr (wide_hash CHR ''d'')), (''bridge_identity_sha256'', JStr (wide_hash CHR ''e''))]"
    by (simp add: sample_pinned_def sample_policy_def)
  have "validResources (js_get sample_pinned ''resources'')"
     "sameResources (js_get sample_pinned ''resources'') (js_get sample_pinned ''resources'')"
    by (simp_all add: res validResources_def sameResources_def exact_joined_def RESOURCE_FIELDS_def validHash_def wide_hash_facts wide_digits)
  moreover have "validHash (JStr (wide_hash CHR ''1''))" by (simp add: validHash_def wide_hash_facts wide_digits)
  ultimately show ?thesis
    using thumb [of sample_public]
    by (simp add: matchesHello_def sample_hello_def) (simp add: sample_pinned_def sample_policy_def sample_public_def sample_node_crypto_def)
qed

lemma sample_proof_ok:
  "matchesProof sample_node_crypto sample_device_proof
     (challenge_of sample_pinned (JStr (wide_hash CHR ''2'')) (JStr (wide_hash CHR ''1'')) 1015001)
     sample_hello sample_pinned (JStr sample_origin) 1000002"
proof -
  have "decodeBase64Url 86 64 (bytesToBase64Url (replicate 64 CHR 0x00)) = Some (replicate 64 CHR 0x00)"
    by (rule decodeBase64Url_encode) simp_all
  moreover have "bytesToBase64Url (replicate 64 CHR 0x00) = replicate 86 CHR ''A''" by code_simp
  ultimately have sig: "decodeP1363 (js_get sample_device_proof ''device_signature'') = Some (replicate 64 CHR 0x00)"
    by (simp add: decodeP1363_def sample_device_proof_def)
  have fs: "proof_fields (JStr sample_origin) (js_get sample_hello ''worker_id'') sample_pinned (js_get sample_hello ''client_nonce'')
      (JStr (wide_hash CHR ''2'')) 1015001 = sample_signed"
    by (simp add: sample_signed_def sample_hello_def)
  show ?thesis
    unfolding matchesProof_def sig option.case
    by (simp add: fs challenge_of_def sample_node_crypto_def) (simp add: sample_device_proof_def sample_hello_def exact_joined_def PROOF_FIELDS_def)
qed

lemma sample_host_reads:
  "\<exists>r. bounded_read sample_native_env 0 (nativeFrameReader (nh_input sample_native_env)) = (r, Inr sample_hello) \<and>
     snd (bounded_read sample_native_env 1 r) = Inr sample_device_proof"
proof -
  have parses: "nh_parse sample_native_env (utf8 (the_text sample_hello)) = Some sample_hello"
      "nh_parse sample_native_env (utf8 (the_text sample_device_proof)) = Some sample_device_proof"
    using sample_texts_differ by (simp_all add: sample_native_env_def)
  have size: "length (the_frame sample_hello @ the_frame sample_device_proof) \<le> MAX_FRAME_BYTES * 2 + 8"
    using sample_frames(1,2) sample_texts by (auto simp: encodeFrame_Inr)
  obtain p ds where read1: "bounded_read sample_native_env 0 (nativeFrameReader (nh_input sample_native_env)) =
      (\<lparr>fr_pending = p, fr_closed = False, fr_stream = map Chunk ds\<rparr>, Inr sample_hello)"
      and p: "p @ concat ds = the_frame sample_device_proof @ []"
    using next_frame_reads [where parse = "nh_parse sample_native_env", OF sample_texts(1) sample_frames(1) parses(1) sample_is_object(1),
        of "[]" "[the_frame sample_hello @ the_frame sample_device_proof]" "the_frame sample_device_proof"] size
    by (auto simp: bounded_read_def nativeFrameReader_def sample_native_env_def)
  have "length (p @ concat ds) \<le> MAX_FRAME_BYTES * 2 + 8" using p size by simp
  from next_frame_reads [where parse = "nh_parse sample_native_env", OF sample_texts(2) sample_frames(2) parses(2) sample_is_object(2) p this]
  have "snd (bounded_read sample_native_env 1 \<lparr>fr_pending = p, fr_closed = False, fr_stream = map Chunk ds\<rparr>) = Inr sample_device_proof"
    by (auto simp: bounded_read_def sample_native_env_def)
  then show ?thesis using read1 by blast
qed


lemma sample_run:
  "\<exists>frames. runNativeProofHost sample_native_env sample_pinned (JStr sample_origin) (JInt 15000) = (Inr ''LOCAL_PROOF_OK'', frames)"
proof -
  let ?c = "challenge_of sample_pinned (JStr (wide_hash CHR ''2'')) (JStr (wide_hash CHR ''1'')) 1015001"
  obtain r where read1: "bounded_read sample_native_env 0 (nativeFrameReader (nh_input sample_native_env)) = (r, Inr sample_hello)"
      and read2: "snd (bounded_read sample_native_env 1 r) = Inr sample_device_proof"
    using sample_host_reads by blast
  have env: "nh_now sample_native_env k = 1000000 + int k" "nh_nonce sample_native_env = JStr (wide_hash CHR ''2'')"
      "nh_crypto sample_native_env = sample_node_crypto" "nh_write sample_native_env k = None" for k
    by (simp_all add: sample_native_env_def)
  have pol: "validNativeHostPolicy sample_pinned 1000000" "js_get sample_pinned ''allowed_origin'' = JStr sample_origin"
      "the_int (js_get sample_pinned ''expires_at_ms'') = 2000000" "validHash (JStr (wide_hash CHR ''2''))"
      "js_get sample_hello ''client_nonce'' = JStr (wide_hash CHR ''1'')" "wide_hash CHR ''1'' \<noteq> wide_hash CHR ''2''" "safe_int 15000"
    by code_simp+
  show ?thesis
    unfolding runNativeProofHost_def prove_session_def Let_def env
    by (simp add: pol pol(6) [symmetric] read1 read2 [unfolded One_nat_def] MAX_CLOCK_SKEW_def env sample_hello_ok sample_proof_ok sample_frames writeFrame_def)
qed

theorem native_proof_binds_session_witness:
  "\<exists>client expires. proof_fields (JStr sample_origin) (JStr ''bke-13'') sample_pinned client (JStr (wide_hash CHR ''2'')) expires
     \<in> {sample_signed} \<and> 1000002 < expires \<and> expires \<le> 2000000"
proof -
  obtain frames where run: "runNativeProofHost sample_native_env sample_pinned (JStr sample_origin) (JInt 15000) = (Inr ''LOCAL_PROOF_OK'', frames)"
    using sample_run by blast
  have "list_all plain_scalar sample_signed \<and> sample_signed \<noteq> []" by code_simp
  then show ?thesis
    using native_proof_binds_session [OF run, of "{sample_signed}"]
    by (auto simp: sample_native_env_def sample_node_crypto_def sample_pinned_def sample_policy_def)
qed

end
