(* ===== verification/DeviceIdentity.thy ===== *)
theory DeviceIdentity imports NativeHost ExtensionProtocol
begin

text \<open>
  \<open>browser-extension/src/device-identity.ts\<close>: the device key of a browser profile and the two
  signatures it gives, one for an enrolment challenge and one for a native proof. The record with the
  key lives in IndexedDB together with the nonces that have been used; a signature first reserves its
  nonce in a transaction and only then signs. Web cryptography and IndexedDB are the platform's: their
  results are parameters, and a transaction has one of three fates.
\<close>

section \<open>The stored record\<close>

record crypto_key =
  ck_handle :: nat
  ck_type :: string
  ck_extractable :: bool
  ck_algorithm :: string
  ck_namedCurve :: string
  ck_usages :: "string list"

text \<open>
  The value under the record's key: its own property names and its fields, untyped but for the key,
  which is \<^const>\<open>None\<close> when the field is no \<open>CryptoKey\<close>.
\<close>

record identity_record =
  ir_keys :: "string list"
  ir_schema :: jsval
  ir_worker_id :: jsval
  ir_public_key :: jsval
  ir_private_key :: "crypto_key option"
  ir_used :: jsval

text \<open>\<^const>\<open>None\<close> is an absent record.\<close>

datatype stored = NoRecord | Stored identity_record

type_synonym identity_store = "stored option"

definition LIMIT :: nat where "LIMIT = 100"

definition validWorker :: "string \<Rightarrow> bool" where
  "validWorker w \<longleftrightarrow> 1 \<le> length w \<and> length w \<le> 63 \<and> isValidWorkerId w \<and> w = js_trim w"

definition used_entry_ok :: "jsval \<Rightarrow> bool" where
  "used_entry_ok e \<longleftrightarrow> exact_joined e [''nonce'', ''expires_at_ms''] \<and> validHash (js_get e ''nonce'') \<and>
     is_safe_integer (js_get e ''expires_at_ms'') \<and> 0 < the_int (js_get e ''expires_at_ms'')"

definition validRecord :: "identity_record \<Rightarrow> bool" where
  "validRecord r \<longleftrightarrow>
     join_comma (sort (ir_keys r)) = join_comma (sort [''schema'', ''worker_id'', ''public_key'', ''private_key'', ''used'']) \<and>
     js_eq (ir_schema r) (JInt 1) \<and> is_JStr (ir_worker_id r) \<and> validWorker (str_or_empty (ir_worker_id r)) \<and>
     validPublic (ir_public_key r) \<and>
     (case ir_private_key r of None \<Rightarrow> False
      | Some k \<Rightarrow> ck_type k = ''private'' \<and> \<not> ck_extractable k \<and> ck_algorithm k = ''ECDSA'' \<and>
          ck_namedCurve k = ''P-256'' \<and> ''sign'' \<in> set (ck_usages k)) \<and>
     is_JArr (ir_used r) \<and> length (the_arr (ir_used r)) \<le> LIMIT \<and>
     list_all used_entry_ok (the_arr (ir_used r)) \<and> distinct (map (\<lambda>e. js_get e ''nonce'') (the_arr (ir_used r)))"

definition assertProfile :: "identity_store \<Rightarrow> string \<Rightarrow> string + identity_record" where
  "assertProfile row worker =
     (case row of None \<Rightarrow> Inl ''IDENTITY_NOT_PROVISIONED''
      | Some NoRecord \<Rightarrow> Inl ''IDENTITY_STORAGE_CORRUPT''
      | Some (Stored r) \<Rightarrow>
          if \<not> validRecord r then Inl ''IDENTITY_STORAGE_CORRUPT''
          else if \<not> js_eq (ir_worker_id r) (JStr worker) then Inl ''IDENTITY_WORKER_MISMATCH''
          else Inr r)"

section \<open>Transactions\<close>

text \<open>
  A transaction completes, or it is rolled back (or never opened), or it completes without the caller
  learning of it. The operation returns its result and the value to put, if any.
\<close>

datatype fate = Completes | RollsBack | CompletesUnreported

definition atomic ::
  "fate \<Rightarrow> (identity_store \<Rightarrow> 'a \<times> identity_record option) \<Rightarrow> identity_store \<Rightarrow> identity_store \<times> 'a option" where
  "atomic fate operation row =
     (case operation row of (out, put) \<Rightarrow>
        let row' = (case put of None \<Rightarrow> row | Some r \<Rightarrow> Some (Stored r)) in
        case fate of Completes \<Rightarrow> (row', Some out) | RollsBack \<Rightarrow> (row, None) | CompletesUnreported \<Rightarrow> (row', None))"

section \<open>Challenges\<close>

definition DEVICE_CHALLENGE_AUDIENCE :: string where
  "DEVICE_CHALLENGE_AUDIENCE = ''bke-command-center/preproduction/device-key-possession/v1''"

definition NATIVE_AUD :: string where "NATIVE_AUD = ''bke-worker/desktop/native-key-proof/v1''"

definition NATIVE_FIELDS :: "string list" where
  "NATIVE_FIELDS = [''origin'', ''worker_id'', ''public_key_sha256'', ''profile_binding_sha256'', ''resources'',
     ''client_nonce'', ''server_nonce'', ''expires_at_ms'']"

definition CHALLENGE_FIELDS :: "string list" where
  "CHALLENGE_FIELDS = [''installation_id'', ''worker_id'', ''proposal_sha256'', ''subject_sha256'', ''nonce'', ''expires_at_ms'']"

definition clockNow :: "int \<Rightarrow> int option" where
  "clockNow n = (if safe_int n \<and> 0 < n \<and> n < max_safe - 31000 then Some n else None)"

definition validChallenge :: "jsval \<Rightarrow> string \<Rightarrow> int \<Rightarrow> bool" where
  "validChallenge v worker now \<longleftrightarrow> exact_joined v CHALLENGE_FIELDS \<and>
     str_re install_re (js_get v ''installation_id'') \<and> js_eq (js_get v ''worker_id'') (JStr worker) \<and>
     validHash (js_get v ''proposal_sha256'') \<and> validHash (js_get v ''subject_sha256'') \<and> validHash (js_get v ''nonce'') \<and>
     is_safe_integer (js_get v ''expires_at_ms'') \<and> now < the_int (js_get v ''expires_at_ms'') \<and>
     the_int (js_get v ''expires_at_ms'') \<le> now + 30000"

definition validNativeProof :: "jsval \<Rightarrow> string \<Rightarrow> int \<Rightarrow> bool" where
  "validNativeProof v worker now \<longleftrightarrow> exact_joined v NATIVE_FIELDS \<and> js_eq (js_get v ''worker_id'') (JStr worker) \<and>
     str_re origin_re (js_get v ''origin'') \<and> validHash (js_get v ''public_key_sha256'') \<and>
     validHash (js_get v ''profile_binding_sha256'') \<and> validHash (js_get v ''client_nonce'') \<and>
     validHash (js_get v ''server_nonce'') \<and> \<not> js_eq (js_get v ''client_nonce'') (js_get v ''server_nonce'') \<and>
     is_safe_integer (js_get v ''expires_at_ms'') \<and> now < the_int (js_get v ''expires_at_ms'') \<and>
     the_int (js_get v ''expires_at_ms'') \<le> now + 15000 \<and>
     exact_joined (js_get v ''resources'') RESOURCE_FIELDS \<and>
     list_all (\<lambda>k. validHash (js_get (js_get v ''resources'') k)) RESOURCE_FIELDS"

definition device_fields :: "jsval \<Rightarrow> jsval list" where
  "device_fields v = [JStr DEVICE_CHALLENGE_AUDIENCE, JStr ''prepare'', js_get v ''installation_id'', js_get v ''worker_id'',
     js_get v ''proposal_sha256'', js_get v ''subject_sha256'', js_get v ''nonce'', js_get v ''expires_at_ms'']"

definition canonicalDeviceChallenge :: "jsval \<Rightarrow> string" where
  "canonicalDeviceChallenge v = json_array (device_fields v)"

definition native_fields :: "jsval \<Rightarrow> jsval list" where
  "native_fields v = [JStr NATIVE_AUD, JStr ''prove'', js_get v ''origin'', js_get v ''worker_id'', js_get v ''public_key_sha256'',
     js_get v ''profile_binding_sha256'', js_get (js_get v ''resources'') ''chatgpt_target_sha256'',
     js_get (js_get v ''resources'') ''browser_profile_sha256'', js_get (js_get v ''resources'') ''bridge_identity_sha256'',
     js_get v ''client_nonce'', js_get v ''server_nonce'', js_get v ''expires_at_ms'']"

definition canonicalNativeProofMessage :: "jsval \<Rightarrow> string" where
  "canonicalNativeProofMessage v = json_array (native_fields v)"

section \<open>Reading and creating the identity\<close>

text \<open>\<open>crypto.subtle.digest\<close>; \<^const>\<open>None\<close> is a rejected promise.\<close>

type_synonym digest = "bytes \<Rightarrow> bytes option"

text \<open>The hash of \<open>JSON.stringify(record.public_key)\<close>; its properties stand in the order the record has them.\<close>

definition key_hash :: "digest \<Rightarrow> jsval \<Rightarrow> string option" where
  "key_hash digest key = (case json_stringify key of None \<Rightarrow> None | Some t \<Rightarrow> map_option hex_bytes (digest (utf8 t)))"

text \<open>The worker, the public key and its hash. A rejected digest rejects the call.\<close>

datatype read_result = Ready string jsval string | ReadBlocked string | ReadThrows

definition read_identity :: "digest \<Rightarrow> bool \<Rightarrow> fate \<Rightarrow> string \<Rightarrow> identity_store \<Rightarrow> read_result" where
  "read_identity digest validDeps fate worker row =
     (if \<not> validDeps then ReadBlocked ''IDENTITY_ADAPTER_INVALID''
      else if \<not> validWorker worker then ReadBlocked ''IDENTITY_WORKER_INVALID''
      else case snd (atomic fate (\<lambda>row. (row, None)) row) of None \<Rightarrow> ReadBlocked ''IDENTITY_STORAGE_UNAVAILABLE''
      | Some found \<Rightarrow>
          (case assertProfile found worker of Inl e \<Rightarrow> ReadBlocked e
           | Inr r \<Rightarrow> (case key_hash digest (ir_public_key r) of None \<Rightarrow> ReadThrows
               | Some h \<Rightarrow> Ready worker (ir_public_key r) h)))"

definition canonicalPublic :: "jsval \<Rightarrow> jsval option" where
  "canonicalPublic v =
     (if \<not> js_eq (js_get v ''crv'') (JStr ''P-256'') \<or> \<not> js_eq (js_get v ''kty'') (JStr ''EC'') \<or>
         \<not> is_JStr (js_get v ''x'') \<or> \<not> is_JStr (js_get v ''y'') then None
      else let key = JObj [(''crv'', JStr ''P-256''), (''kty'', JStr ''EC''), (''x'', js_get v ''x''), (''y'', js_get v ''y'')] in
        if validPublic key then Some key else None)"

definition new_record :: "string \<Rightarrow> jsval \<Rightarrow> crypto_key \<Rightarrow> identity_record" where
  "new_record worker pub key = \<lparr>ir_keys = [''schema'', ''worker_id'', ''public_key'', ''private_key'', ''used''],
     ir_schema = JInt 1, ir_worker_id = JStr worker, ir_public_key = pub, ir_private_key = Some key, ir_used = JArr []\<rparr>"

text \<open>The transaction of \<open>initialize\<close>: a code, or nothing when the record exists or is created.\<close>

definition create_record ::
  "string \<Rightarrow> jsval \<Rightarrow> crypto_key \<Rightarrow> identity_store \<Rightarrow> string option \<times> identity_record option" where
  "create_record worker pub key row =
     (case row of None \<Rightarrow> (None, Some (new_record worker pub key))
      | Some old \<Rightarrow> (case assertProfile (Some old) worker of Inl e \<Rightarrow> (Some e, None) | Inr r \<Rightarrow> (None, None)))"

text \<open>The generated private key and the exported public key; \<^const>\<open>None\<close> when either call rejects.\<close>

definition initialize ::
  "digest \<Rightarrow> bool \<Rightarrow> (crypto_key \<times> jsval) option \<Rightarrow> fate \<Rightarrow> fate \<Rightarrow> string \<Rightarrow> identity_store \<Rightarrow> identity_store \<times> read_result" where
  "initialize digest validDeps generated fate read_fate worker row =
     (if \<not> validDeps then (row, ReadBlocked ''IDENTITY_ADAPTER_INVALID'')
      else if \<not> validWorker worker then (row, ReadBlocked ''IDENTITY_WORKER_INVALID'')
      else case generated of None \<Rightarrow> (row, ReadBlocked ''IDENTITY_STORAGE_OR_CRYPTO_UNAVAILABLE'')
      | Some (key, exported) \<Rightarrow>
          (case canonicalPublic exported of None \<Rightarrow> (row, ReadBlocked ''IDENTITY_KEY_GENERATION_FAILED'')
           | Some pub \<Rightarrow>
               if ck_extractable key \<or> ck_type key \<noteq> ''private'' then (row, ReadBlocked ''IDENTITY_KEY_GENERATION_FAILED'')
               else (case atomic fate (create_record worker pub key) row of
                   (row', None) \<Rightarrow> (row', ReadBlocked ''IDENTITY_STORAGE_OR_CRYPTO_UNAVAILABLE'')
                 | (row', Some (Some e)) \<Rightarrow> (row', ReadBlocked e)
                 | (row', Some None) \<Rightarrow> (row', read_identity digest validDeps read_fate worker row'))))"

datatype identity_summary = Provisioned string string | NotProvisioned | SummaryBlocked string | SummaryThrows

definition publicIdentitySummary :: "read_result \<Rightarrow> identity_summary" where
  "publicIdentitySummary r =
     (case r of Ready w k h \<Rightarrow> Provisioned w h
      | ReadBlocked c \<Rightarrow> if c = ''IDENTITY_NOT_PROVISIONED'' then NotProvisioned else SummaryBlocked c
      | ReadThrows \<Rightarrow> SummaryThrows)"

section \<open>Signing\<close>

text \<open>
  \<open>sign\<close> and \<open>signNativeProof\<close>, cut at their awaits. Both reserve the nonce of a challenge in one
  transaction, read the clock again, sign, check the length and verify under the stored public key.
\<close>

datatype kind = Enrolment | NativeProof

definition challenge_nonce :: "kind \<Rightarrow> jsval \<Rightarrow> string" where
  "challenge_nonce k ch = (case k of Enrolment \<Rightarrow> str_or_empty (js_get ch ''nonce'')
     | NativeProof \<Rightarrow> str_or_empty (js_get ch ''server_nonce''))"

definition challenge_expires :: "jsval \<Rightarrow> int" where
  "challenge_expires ch = the_int (js_get ch ''expires_at_ms'')"

definition challenge_message :: "kind \<Rightarrow> jsval \<Rightarrow> string" where
  "challenge_message k ch = (case k of Enrolment \<Rightarrow> canonicalDeviceChallenge ch | NativeProof \<Rightarrow> canonicalNativeProofMessage ch)"

datatype signing =
    Reserving kind string jsval int
  | Reserved kind jsval identity_record
  | Signing kind jsval identity_record
  | Verifying kind jsval identity_record bytes
  | Finished "string + string"

definition sign_start :: "bool \<Rightarrow> string \<Rightarrow> jsval \<Rightarrow> int \<Rightarrow> signing" where
  "sign_start validDeps worker ch now =
     (if \<not> validDeps then Finished (Inl ''IDENTITY_ADAPTER_INVALID'')
      else if \<not> validWorker worker then Finished (Inl ''IDENTITY_WORKER_INVALID'')
      else case clockNow now of None \<Rightarrow> Finished (Inl ''IDENTITY_CHALLENGE_REJECTED'')
      | Some current \<Rightarrow>
          if \<not> validChallenge ch worker current then Finished (Inl ''IDENTITY_CHALLENGE_REJECTED'')
          else Reserving Enrolment worker ch current)"

definition signNativeProof_start :: "bool \<Rightarrow> string \<Rightarrow> jsval \<Rightarrow> int \<Rightarrow> signing" where
  "signNativeProof_start validDeps worker ch now =
     (if \<not> validDeps then Finished (Inl ''IDENTITY_ADAPTER_INVALID'')
      else if \<not> validWorker worker then Finished (Inl ''IDENTITY_WORKER_INVALID'')
      else case clockNow now of None \<Rightarrow> Finished (Inl ''IDENTITY_NATIVE_CHALLENGE_REJECTED'')
      | Some current \<Rightarrow>
          if \<not> validNativeProof ch worker current then Finished (Inl ''IDENTITY_NATIVE_CHALLENGE_REJECTED'')
          else Reserving NativeProof worker ch current)"

definition used_entry :: "string \<Rightarrow> int \<Rightarrow> jsval" where
  "used_entry nonce expires = JObj [(''nonce'', JStr nonce), (''expires_at_ms'', JInt expires)]"

definition live_entries :: "int \<Rightarrow> identity_record \<Rightarrow> jsval list" where
  "live_entries current r = filter (\<lambda>x. current < the_int (js_get x ''expires_at_ms'')) (the_arr (ir_used r))"

definition claim_nonce ::
  "string \<Rightarrow> string \<Rightarrow> int \<Rightarrow> int \<Rightarrow> identity_store \<Rightarrow> (string + identity_record) \<times> identity_record option" where
  "claim_nonce worker nonce expires current row =
     (case assertProfile row worker of Inl e \<Rightarrow> (Inl e, None)
      | Inr r \<Rightarrow>
          let seen = live_entries current r in
          if list_ex (\<lambda>x. js_eq (js_get x ''nonce'') (JStr nonce)) seen then (Inl ''IDENTITY_CHALLENGE_REPLAY'', None)
          else if LIMIT \<le> length seen then (Inl ''IDENTITY_REPLAY_REGISTRY_FULL'', None)
          else (Inr r, Some (r\<lparr>ir_used := JArr (seen @ [used_entry nonce expires])\<rparr>)))"

text \<open>What awaiting the transaction leads to; a transaction that is not reported to complete blocks.\<close>

definition reserve ::
  "kind \<Rightarrow> string \<Rightarrow> jsval \<Rightarrow> int \<Rightarrow> fate \<Rightarrow> identity_store \<Rightarrow> identity_store \<times> signing" where
  "reserve k worker ch current fate row =
     (case atomic fate (claim_nonce worker (challenge_nonce k ch) (challenge_expires ch) current) row of
        (row', None) \<Rightarrow> (row', Finished (Inl ''IDENTITY_STORAGE_UNAVAILABLE''))
      | (row', Some (Inl e)) \<Rightarrow> (row', Finished (Inl e))
      | (row', Some (Inr r)) \<Rightarrow> (row', Reserved k ch r))"

text \<open>The code that stops a reserved signature before the key is used.\<close>

definition fresh_refusal :: "jsval \<Rightarrow> int \<Rightarrow> string option" where
  "fresh_refusal ch now =
     (case clockNow now of None \<Rightarrow> Some ''IDENTITY_CHALLENGE_EXPIRED''
      | Some fresh \<Rightarrow> if challenge_expires ch \<le> fresh then Some ''IDENTITY_CHALLENGE_EXPIRED'' else None)"

definition native_key_refusal :: "digest \<Rightarrow> jsval \<Rightarrow> identity_record \<Rightarrow> string option" where
  "native_key_refusal digest ch r =
     (case key_hash digest (ir_public_key r) of None \<Rightarrow> Some ''IDENTITY_SIGNING_FAILED''
      | Some h \<Rightarrow> if \<not> js_eq (js_get ch ''public_key_sha256'') (JStr h) then Some ''IDENTITY_NATIVE_KEY_MISMATCH'' else None)"

definition use_refusal :: "digest \<Rightarrow> kind \<Rightarrow> jsval \<Rightarrow> identity_record \<Rightarrow> int \<Rightarrow> string option" where
  "use_refusal digest k ch r now =
     (case k of Enrolment \<Rightarrow> fresh_refusal ch now
      | NativeProof \<Rightarrow> (case native_key_refusal digest ch r of Some e \<Rightarrow> Some e | None \<Rightarrow> fresh_refusal ch now))"

definition signature_answer :: "kind \<Rightarrow> jsval \<Rightarrow> identity_record \<Rightarrow> bytes option \<Rightarrow> signing" where
  "signature_answer k ch r answer =
     (case answer of None \<Rightarrow> Finished (Inl ''IDENTITY_SIGNING_FAILED'')
      | Some signature \<Rightarrow>
          if length signature \<noteq> 64 then Finished (Inl ''IDENTITY_SIGNATURE_INVALID'') else Verifying k ch r signature)"

definition verify_answer :: "bytes \<Rightarrow> bool option \<Rightarrow> signing" where
  "verify_answer signature answer =
     (case answer of None \<Rightarrow> Finished (Inl ''IDENTITY_SIGNING_FAILED'')
      | Some verified \<Rightarrow>
          if verified then Finished (Inr (bytesToBase64Url signature)) else Finished (Inl ''IDENTITY_KEYPAIR_MISMATCH''))"

section \<open>Interleaved signatures\<close>

text \<open>
  Any number of calls over one stored record, each at its own await. A use of the private key is
  logged when \<open>subtle.sign\<close> is called. The clock moves only by its own event.
\<close>

record key_use =
  ku_kind :: kind
  ku_challenge :: jsval
  ku_record :: identity_record
  ku_time :: int

record signer =
  sg_row :: identity_store
  sg_clock :: int
  sg_calls :: "signing list"
  sg_uses :: "key_use list"

datatype signer_event =
    Clock int
  | Initialize "(crypto_key \<times> jsval) option" fate fate string
  | StartSign string jsval
  | StartNativeProof string jsval
  | Transact nat fate
  | UseKey nat
  | SignatureAnswer nat "bytes option"
  | VerifyAnswer nat "bool option"

definition call_at :: "signer \<Rightarrow> nat \<Rightarrow> signing" where
  "call_at s i = (if i < length (sg_calls s) then sg_calls s ! i else Finished (Inl []))"

definition set_call :: "nat \<Rightarrow> signing \<Rightarrow> signer \<Rightarrow> signer" where
  "set_call i p s = s\<lparr>sg_calls := (sg_calls s)[i := p]\<rparr>"

definition add_call :: "signing \<Rightarrow> signer \<Rightarrow> signer" where
  "add_call p s = s\<lparr>sg_calls := sg_calls s @ [p]\<rparr>"

fun signer_step :: "digest \<Rightarrow> bool \<Rightarrow> signer_event \<Rightarrow> signer \<Rightarrow> signer" where
  "signer_step digest deps (Clock n) s = s\<lparr>sg_clock := n\<rparr>"
| "signer_step digest deps (Initialize generated f g worker) s =
     s\<lparr>sg_row := fst (initialize digest deps generated f g worker (sg_row s))\<rparr>"
| "signer_step digest deps (StartSign worker ch) s = add_call (sign_start deps worker ch (sg_clock s)) s"
| "signer_step digest deps (StartNativeProof worker ch) s = add_call (signNativeProof_start deps worker ch (sg_clock s)) s"
| "signer_step digest deps (Transact i f) s =
     (case call_at s i of Reserving k worker ch current \<Rightarrow>
        (case reserve k worker ch current f (sg_row s) of (row', p) \<Rightarrow> set_call i p (s\<lparr>sg_row := row'\<rparr>))
      | _ \<Rightarrow> s)"
| "signer_step digest deps (UseKey i) s =
     (case call_at s i of Reserved k ch r \<Rightarrow>
        (case use_refusal digest k ch r (sg_clock s) of Some e \<Rightarrow> set_call i (Finished (Inl e)) s
         | None \<Rightarrow> set_call i (Signing k ch r)
             (s\<lparr>sg_uses := sg_uses s @ [\<lparr>ku_kind = k, ku_challenge = ch, ku_record = r, ku_time = sg_clock s\<rparr>]\<rparr>))
      | _ \<Rightarrow> s)"
| "signer_step digest deps (SignatureAnswer i answer) s =
     (case call_at s i of Signing k ch r \<Rightarrow> set_call i (signature_answer k ch r answer) s | _ \<Rightarrow> s)"
| "signer_step digest deps (VerifyAnswer i answer) s =
     (case call_at s i of Verifying k ch r signature \<Rightarrow> set_call i (verify_answer signature answer) s | _ \<Rightarrow> s)"

definition signer_run :: "digest \<Rightarrow> bool \<Rightarrow> signer_event list \<Rightarrow> signer \<Rightarrow> signer" where
  "signer_run digest deps evs s = fold (signer_step digest deps) evs s"

definition fresh_signer :: "identity_store \<Rightarrow> int \<Rightarrow> signer" where
  "fresh_signer row n = \<lparr>sg_row = row, sg_clock = n, sg_calls = [], sg_uses = []\<rparr>"

text \<open>The clock is never set back.\<close>

fun clock_forward :: "int \<Rightarrow> signer_event list \<Rightarrow> bool" where
  "clock_forward n [] \<longleftrightarrow> True"
| "clock_forward n (Clock m # evs) \<longleftrightarrow> n \<le> m \<and> clock_forward m evs"
| "clock_forward n (ev # evs) \<longleftrightarrow> clock_forward n evs"

section \<open>Claims\<close>

definition use_id :: "key_use \<Rightarrow> string \<times> int" where
  "use_id u = (challenge_nonce (ku_kind u) (ku_challenge u), challenge_expires (ku_challenge u))"

fun pending :: "signing \<Rightarrow> (string \<times> int) multiset" where
  "pending (Reserved k ch r) = {#(challenge_nonce k ch, challenge_expires ch)#}"
| "pending p = {#}"

text \<open>The nonces reserved by a call that has yet to use the key, and those of the uses.\<close>

definition claims :: "signer \<Rightarrow> (string \<times> int) multiset" where
  "claims s = image_mset use_id (mset (sg_uses s)) + sum_list (map pending (sg_calls s))"

definition recorded :: "identity_store \<Rightarrow> string \<times> int \<Rightarrow> bool" where
  "recorded row x \<longleftrightarrow> (case row of Some (Stored r) \<Rightarrow> used_entry (fst x) (snd x) \<in> set (the_arr (ir_used r)) | _ \<Rightarrow> False)"

text \<open>A claim that has not expired is in the stored record, and no two such claims share a nonce.\<close>

definition claims_ok :: "int \<Rightarrow> identity_store \<Rightarrow> (string \<times> int) multiset \<Rightarrow> bool" where
  "claims_ok now row M \<longleftrightarrow> (\<forall>x \<in># M. now < snd x \<longrightarrow> recorded row x) \<and>
     (\<forall>n. size {#x \<in># M. now < snd x \<and> fst x = n#} \<le> 1)"

definition challenge_ok :: "kind \<Rightarrow> string \<Rightarrow> jsval \<Rightarrow> int \<Rightarrow> bool" where
  "challenge_ok k worker ch now = (case k of Enrolment \<Rightarrow> validChallenge ch worker now | NativeProof \<Rightarrow> validNativeProof ch worker now)"

definition admitted :: "kind \<Rightarrow> jsval \<Rightarrow> bool" where
  "admitted k ch \<longleftrightarrow> (\<exists>worker now. validWorker worker \<and> 0 < now \<and> challenge_ok k worker ch now)"

fun call_ok :: "int \<Rightarrow> signing \<Rightarrow> bool" where
  "call_ok now (Reserving k worker ch current) = (admitted k ch \<and> current \<le> now)"
| "call_ok now (Reserved k ch r) = admitted k ch"
| "call_ok now p = True"

definition use_ok :: "int \<Rightarrow> key_use \<Rightarrow> bool" where
  "use_ok now u \<longleftrightarrow> admitted (ku_kind u) (ku_challenge u) \<and> ku_time u \<le> now \<and> ku_time u < challenge_expires (ku_challenge u)"

definition expired_before :: "key_use \<Rightarrow> key_use \<Rightarrow> bool" where
  "expired_before u v \<longleftrightarrow> fst (use_id u) = fst (use_id v) \<longrightarrow> snd (use_id u) \<le> ku_time v"

definition signer_ok :: "signer \<Rightarrow> bool" where
  "signer_ok s \<longleftrightarrow> list_all (call_ok (sg_clock s)) (sg_calls s) \<and> list_all (use_ok (sg_clock s)) (sg_uses s) \<and>
     claims_ok (sg_clock s) (sg_row s) (claims s) \<and> sorted_wrt expired_before (sg_uses s)"

lemma claims_ok_later: "claims_ok now row M \<Longrightarrow> now \<le> later \<Longrightarrow> claims_ok later row M"
proof -
  assume ok: "claims_ok now row M" and le: "now \<le> later"
  have "size {#x \<in># M. later < snd x \<and> fst x = n#} \<le> size {#x \<in># M. now < snd x \<and> fst x = n#}" for n
    by (rule size_mset_mono, rule mset_subset_eqI) (use le in auto)
  then show ?thesis using ok le unfolding claims_ok_def by (meson le_less_trans order_trans)
qed

lemma claims_ok_subset: "claims_ok now row M \<Longrightarrow> N \<subseteq># M \<Longrightarrow> claims_ok now row N"
proof -
  assume ok: "claims_ok now row M" and sub: "N \<subseteq># M"
  have "size {#x \<in># N. now < snd x \<and> fst x = n#} \<le> size {#x \<in># M. now < snd x \<and> fst x = n#}" for n
    by (rule size_mset_mono, rule multiset_filter_mono [OF sub])
  then show ?thesis using ok mset_subset_eqD [OF sub] unfolding claims_ok_def by (meson order_trans)
qed

lemma claims_ok_row:
  "claims_ok now row M \<Longrightarrow> (\<And>x. now < snd x \<Longrightarrow> recorded row x \<Longrightarrow> recorded row' x) \<Longrightarrow> claims_ok now row' M"
  by (auto simp: claims_ok_def)

lemma claims_ok_add:
  assumes "claims_ok now row M" and "recorded row x" and "\<And>y. y \<in># M \<Longrightarrow> now < snd y \<Longrightarrow> fst y \<noteq> fst x"
  shows "claims_ok now row (add_mset x M)"
proof -
  have "{#y \<in># M. now < snd y \<and> fst y = fst x#} = {#}" by (rule multiset_eqI) (use assms(3) in \<open>auto simp: count_eq_zero_iff\<close>)
  then show ?thesis using assms(1,2) by (auto simp: claims_ok_def)
qed

lemma claims_ok_unique:
  assumes "claims_ok now row (add_mset x M)" and "now < snd x" and "y \<in># M" and "fst y = fst x"
  shows "snd y \<le> now"
proof (rule ccontr)
  assume "\<not> snd y \<le> now"
  obtain N where "M = add_mset y N" using assms(3) by (metis insert_DiffM)
  then have "size {#z \<in># add_mset x M. now < snd z \<and> fst z = fst x#} \<ge> 2"
    using assms(2,4) \<open>\<not> snd y \<le> now\<close> by simp
  moreover have "size {#z \<in># add_mset x M. now < snd z \<and> fst z = fst x#} \<le> 1"
    using assms(1) unfolding claims_ok_def by blast
  ultimately show False by linarith
qed

lemma pending_set_call:
  "i < length calls \<Longrightarrow> sum_list (map pending (calls[i := p])) + pending (calls ! i) = sum_list (map pending calls) + pending p"
  by (induction calls arbitrary: i) (auto simp: nth_Cons ac_simps split: nat.split)

lemma call_at_some: "call_at s i = p \<Longrightarrow> (\<And>e. p \<noteq> Finished e) \<Longrightarrow> i < length (sg_calls s) \<and> sg_calls s ! i = p"
  by (auto simp: call_at_def split: if_splits)

lemma claims_set_call:
  "i < length (sg_calls s) \<Longrightarrow> claims (set_call i p s) + pending (sg_calls s ! i) = claims s + pending p"
  using pending_set_call [of i "sg_calls s" p] by (simp add: claims_def set_call_def ac_simps)

lemma set_call_simps [simp]:
  "sg_row (set_call i p s) = sg_row s" "sg_clock (set_call i p s) = sg_clock s" "sg_uses (set_call i p s) = sg_uses s"
  "sg_row (add_call p s) = sg_row s" "sg_clock (add_call p s) = sg_clock s" "sg_uses (add_call p s) = sg_uses s"
  by (simp_all add: set_call_def add_call_def)

lemma calls_set_ok: "list_all P (sg_calls s) \<Longrightarrow> P p \<Longrightarrow> list_all P (sg_calls (set_call i p s))"
  by (auto simp: set_call_def list_all_iff dest: set_update_subset_insert [THEN subsetD])

text \<open>A call that moves to an await without a reservation of its own keeps the invariant.\<close>

lemma set_call_ok:
  assumes "signer_ok s" and "i < length (sg_calls s)" and "call_ok (sg_clock s) p" and "pending p = {#}"
  shows "signer_ok (set_call i p s)"
proof -
  have "claims (set_call i p s) \<subseteq># claims s"
    using claims_set_call [OF assms(2), of p] assms(4) by (metis add.right_neutral mset_subset_eq_add_left)
  then show ?thesis
    using assms(1,3) calls_set_ok [of "call_ok (sg_clock s)" s p i] claims_ok_subset unfolding signer_ok_def by auto
qed

lemma add_call_ok: "signer_ok s \<Longrightarrow> call_ok (sg_clock s) p \<Longrightarrow> pending p = {#} \<Longrightarrow> signer_ok (add_call p s)"
  by (simp add: signer_ok_def claims_def add_call_def)

section \<open>Every step keeps the claims\<close>

lemma entry_get [simp]:
  "js_get (used_entry n e) ''nonce'' = JStr n" "js_get (used_entry n e) ''expires_at_ms'' = JInt e"
  by (simp_all add: used_entry_def)

lemma claim_nonce_put:
  assumes "claim_nonce worker n e current row = (out, Some r')"
  obtains r where "row = Some (Stored r)" "validRecord r" "out = Inr r" "ir_used r' = JArr (live_entries current r @ [used_entry n e])"
    "\<not> list_ex (\<lambda>x. js_eq (js_get x ''nonce'') (JStr n)) (live_entries current r)" "length (live_entries current r) < LIMIT"
    "r' = r\<lparr>ir_used := JArr (live_entries current r @ [used_entry n e])\<rparr>"
  using assms unfolding claim_nonce_def assertProfile_def
  by (auto simp: Let_def split: sum.splits option.splits stored.splits if_splits)

lemma claim_nonce_none: "claim_nonce worker n e current row = (Inr r, None) \<Longrightarrow> False"
  unfolding claim_nonce_def by (auto simp: Let_def split: sum.splits if_splits)

lemma claim_keeps:
  assumes "claim_nonce worker n e current row = (out, Some r')" and "recorded row x" and "current < snd x"
  shows "recorded (Some (Stored r')) x"
proof -
  obtain r where "row = Some (Stored r)" "r' = r\<lparr>ir_used := JArr (live_entries current r @ [used_entry n e])\<rparr>"
    using claim_nonce_put [OF assms(1)] by metis
  then show ?thesis using assms(2,3) by (simp add: recorded_def live_entries_def)
qed

lemma claim_records:
  "claim_nonce worker n e current row = (out, Some r') \<Longrightarrow> recorded (Some (Stored r')) (n, e)"
  by (elim claim_nonce_put) (simp add: recorded_def)

lemma claim_is_fresh:
  assumes "claim_nonce worker n e current row = (out, Some r')" and "recorded row x" and "current < snd x"
  shows "fst x \<noteq> n"
proof
  assume eq: "fst x = n"
  obtain r where r: "row = Some (Stored r)"
      "\<not> list_ex (\<lambda>x. js_eq (js_get x ''nonce'') (JStr n)) (live_entries current r)"
    using claim_nonce_put [OF assms(1)] by metis
  then have "used_entry n (snd x) \<in> set (live_entries current r)"
    using assms(2,3) eq by (simp add: recorded_def live_entries_def)
  moreover have "js_eq (js_get (used_entry n (snd x)) ''nonce'') (JStr n)" by simp
  ultimately show False using r(2) unfolding list_ex_iff by blast
qed

lemma reserve_cases:
  assumes "reserve k worker ch current f row = (row', p)"
  obtains (unchanged) e where "row' = row" "p = Finished e"
    | (unreported) r' e where "row' = Some (Stored r')" "p = Finished e"
        "\<exists>out. claim_nonce worker (challenge_nonce k ch) (challenge_expires ch) current row = (out, Some r')"
    | (claimed) r r' where "row' = Some (Stored r')" "p = Reserved k ch r"
        "\<exists>out. claim_nonce worker (challenge_nonce k ch) (challenge_expires ch) current row = (out, Some r')"
proof (cases "claim_nonce worker (challenge_nonce k ch) (challenge_expires ch) current row")
  case (Pair out put)
  show thesis
  proof (cases put)
    case None
    then obtain e where "out = Inl e" using Pair claim_nonce_none by (cases out) blast+
    then show thesis using assms Pair None that(1) by (cases f) (auto simp: reserve_def atomic_def)
  next
    case (Some r')
    then obtain r where "out = Inr r" using Pair claim_nonce_put by metis
    then show thesis using assms Pair Some that by (cases f) (auto simp: reserve_def atomic_def)
  qed
qed

lemma step_transact:
  assumes ok: "signer_ok s" and call: "call_at s i = Reserving k worker ch current"
    and res: "reserve k worker ch current f (sg_row s) = (row', p)"
  shows "signer_ok (set_call i p (s\<lparr>sg_row := row'\<rparr>))"
proof -
  let ?s = "s\<lparr>sg_row := row'\<rparr>"
  have i: "i < length (sg_calls s)" "sg_calls s ! i = Reserving k worker ch current" using call_at_some [OF call] by simp_all
  then have adm: "admitted k ch" "current \<le> sg_clock s"
    using ok by (auto simp: signer_ok_def list_all_length)
  have same: "claims ?s = claims s" by (simp add: claims_def)
  have keep: "signer_ok ?s" if "claims_ok (sg_clock s) row' (claims s)"
    using ok that same by (simp add: signer_ok_def)
  from res show ?thesis
  proof (cases rule: reserve_cases)
    case (unchanged e)
    then show ?thesis using ok set_call_ok [of s i p] i by simp
  next
    case (unreported r' e)
    then have "claims_ok (sg_clock s) row' (claims s)"
      using ok adm(2) claim_keeps by (auto simp: signer_ok_def intro!: claims_ok_row [of _ "sg_row s"])
    then show ?thesis using set_call_ok [OF keep] unreported(2) i by simp
  next
    case (claimed r r')
    let ?x = "(challenge_nonce k ch, challenge_expires ch)"
    obtain out where put: "claim_nonce worker (challenge_nonce k ch) (challenge_expires ch) current (sg_row s) = (out, Some r')"
      using claimed(3) by blast
    have cs: "claims (set_call i p ?s) = add_mset ?x (claims s)"
      using claims_set_call [of i ?s p] i claimed(2) same by simp
    have old: "claims_ok (sg_clock s) (sg_row s) (claims s)" using ok by (simp add: signer_ok_def)
    have "claims_ok (sg_clock s) row' (claims s)"
      by (rule claims_ok_row [OF old]) (use claim_keeps [OF put] adm(2) claimed(1) in auto)
    moreover have "recorded row' ?x" using claim_records [OF put] claimed(1) by simp
    moreover have "fst y \<noteq> fst ?x" if "y \<in># claims s" "sg_clock s < snd y" for y
      using claim_is_fresh [OF put, of y] old that adm(2) by (auto simp: claims_ok_def)
    ultimately have "claims_ok (sg_clock s) row' (add_mset ?x (claims s))" by (rule claims_ok_add)
    moreover have "list_all (call_ok (sg_clock s)) (sg_calls (set_call i p ?s))"
      using calls_set_ok [of "call_ok (sg_clock s)" ?s p i] ok adm claimed(2) by (simp add: signer_ok_def)
    ultimately show ?thesis using ok cs by (simp add: signer_ok_def)
  qed
qed

lemma use_refusal_None: "use_refusal digest k ch r now = None \<Longrightarrow> now < challenge_expires ch"
  by (auto simp: use_refusal_def fresh_refusal_def clockNow_def split: kind.splits option.splits if_splits)

lemma step_use:
  assumes ok: "signer_ok s" and call: "call_at s i = Reserved k ch r" and free: "use_refusal digest k ch r (sg_clock s) = None"
  shows "signer_ok (set_call i (Signing k ch r)
    (s\<lparr>sg_uses := sg_uses s @ [\<lparr>ku_kind = k, ku_challenge = ch, ku_record = r, ku_time = sg_clock s\<rparr>]\<rparr>))"
    (is "signer_ok ?t")
proof -
  let ?u = "\<lparr>ku_kind = k, ku_challenge = ch, ku_record = r, ku_time = sg_clock s\<rparr>"
  have i: "i < length (sg_calls s)" "sg_calls s ! i = Reserved k ch r" using call_at_some [OF call] by simp_all
  then have adm: "admitted k ch" using ok by (auto simp: signer_ok_def list_all_length)
  have late: "sg_clock s < challenge_expires ch" using use_refusal_None [OF free] .
  have id: "use_id ?u = (challenge_nonce k ch, challenge_expires ch)" by (simp add: use_id_def)
  have "sum_list (map pending ((sg_calls s)[i := Signing k ch r])) + {#use_id ?u#} = sum_list (map pending (sg_calls s))"
    using pending_set_call [OF i(1), of "Signing k ch r"] i(2) id by simp
  then have cs: "claims ?t = claims s" and
    one: "claims s = add_mset (use_id ?u) (image_mset use_id (mset (sg_uses s)) + sum_list (map pending ((sg_calls s)[i := Signing k ch r])))"
    by (simp_all add: claims_def set_call_def id flip: add_mset_add_single)
  have claims: "claims_ok (sg_clock s) (sg_row s) (claims s)" using ok by (simp add: signer_ok_def)
  have "expired_before v ?u" if "v \<in> set (sg_uses s)" for v
    using claims_ok_unique [OF claims [unfolded one], of "use_id v"] that late id by (auto simp: expired_before_def)
  then have "sorted_wrt expired_before (sg_uses s @ [?u])" using ok by (simp add: signer_ok_def sorted_wrt_append)
  moreover have "list_all (use_ok (sg_clock s)) (sg_uses s @ [?u])" using ok adm late by (simp add: signer_ok_def use_ok_def)
  moreover have "list_all (call_ok (sg_clock s)) (sg_calls ?t)"
    using ok calls_set_ok [of "call_ok (sg_clock s)" "s\<lparr>sg_uses := sg_uses s @ [?u]\<rparr>" "Signing k ch r" i] by (simp add: signer_ok_def)
  ultimately show ?thesis using claims cs by (simp add: signer_ok_def)
qed

lemma initialize_row:
  "fst (initialize digest deps generated f g worker row) \<noteq> row \<Longrightarrow> row = None"
  by (auto simp: initialize_def atomic_def create_record_def Let_def
      split: option.splits if_splits fate.splits sum.splits prod.splits)

lemma finished_ok [simp]: "call_ok now (Finished e)" "pending (Finished e) = {#}" by simp_all

lemma starts_ok:
  "call_ok now (sign_start deps worker ch now) \<and> pending (sign_start deps worker ch now) = {#}"
  "call_ok now (signNativeProof_start deps worker ch now) \<and> pending (signNativeProof_start deps worker ch now) = {#}"
  by (auto simp: sign_start_def signNativeProof_start_def admitted_def challenge_ok_def clockNow_def split: option.splits)

lemma answers_ok:
  "call_ok now (signature_answer k ch r a) \<and> pending (signature_answer k ch r a) = {#}"
  "call_ok now (verify_answer sig v) \<and> pending (verify_answer sig v) = {#}"
  by (auto simp: signature_answer_def verify_answer_def split: option.splits)

lemma call_ok_later: "call_ok now p \<Longrightarrow> now \<le> later \<Longrightarrow> call_ok later p"
  by (cases p) auto

lemma step_ok:
  assumes ok: "signer_ok s" and forward: "clock_forward (sg_clock s) (ev # evs)"
  shows "signer_ok (signer_step digest deps ev s) \<and> clock_forward (sg_clock (signer_step digest deps ev s)) evs"
proof (cases ev)
  case (Clock n)
  then have le: "sg_clock s \<le> n" and fw: "clock_forward n evs" using forward by simp_all
  have "list_all (call_ok n) (sg_calls s)" "list_all (use_ok n) (sg_uses s)"
    using ok le call_ok_later by (auto simp: signer_ok_def list_all_iff use_ok_def)
  then show ?thesis using Clock ok fw claims_ok_later [OF _ le] by (simp add: signer_ok_def claims_def)
next
  case (Initialize generated f g worker)
  let ?row = "fst (initialize digest deps generated f g worker (sg_row s))"
  have "claims_ok (sg_clock s) ?row (claims s)"
    using ok initialize_row [of digest deps generated f g worker "sg_row s"]
    by (cases "?row = sg_row s") (auto simp: signer_ok_def recorded_def intro: claims_ok_row)
  then show ?thesis using Initialize ok forward by (simp add: signer_ok_def claims_def)
next
  case (StartSign worker ch)
  then show ?thesis using ok forward add_call_ok starts_ok by simp
next
  case (StartNativeProof worker ch)
  then show ?thesis using ok forward add_call_ok starts_ok by simp
next
  case (Transact i f)
  then show ?thesis using ok forward step_transact [OF ok] by (auto split: signing.splits prod.splits)
next
  case (UseKey i)
  have "signer_ok (set_call i (Finished (Inl e)) s)" if "call_at s i = Reserved k ch r" for e k ch r
    using set_call_ok [OF ok] call_at_some [OF that] by simp
  then show ?thesis using UseKey ok forward step_use [OF ok] by (auto split: signing.splits option.splits)
next
  case (SignatureAnswer i a)
  then show ?thesis using ok forward set_call_ok [OF ok] answers_ok call_at_some [of s i] by (auto split: signing.splits)
next
  case (VerifyAnswer i a)
  then show ?thesis using ok forward set_call_ok [OF ok] answers_ok call_at_some [of s i] by (auto split: signing.splits)
qed

lemma signer_run_ok:
  "signer_ok s \<Longrightarrow> clock_forward (sg_clock s) evs \<Longrightarrow> signer_ok (signer_run digest deps evs s)"
proof (induction evs arbitrary: s)
  case Nil
  then show ?case by (simp add: signer_run_def)
next
  case (Cons ev evs)
  then show ?case using step_ok [OF Cons.prems, of digest deps] by (simp add: signer_run_def)
qed

lemma fresh_signer_ok: "signer_ok (fresh_signer row n)"
  by (simp add: signer_ok_def fresh_signer_def claims_def claims_ok_def)

section \<open>Messages\<close>

definition ku_message :: "key_use \<Rightarrow> string" where
  "ku_message u = challenge_message (ku_kind u) (ku_challenge u)"

definition message_fields :: "kind \<Rightarrow> jsval \<Rightarrow> jsval list" where
  "message_fields k ch = (case k of Enrolment \<Rightarrow> device_fields ch | NativeProof \<Rightarrow> native_fields ch)"

lemma message_text: "challenge_message k ch = json_array (message_fields k ch)"
  by (cases k) (simp_all add: challenge_message_def message_fields_def canonicalDeviceChallenge_def canonicalNativeProofMessage_def)

lemma valid_worker_plain: "validWorker w \<Longrightarrow> list_all plain_char w"
proof -
  assume w: "validWorker w"
  then have "js_trim w = w" by (simp add: validWorker_def)
  then show ?thesis using w plain_worker_id by (simp add: validWorker_def ExtensionProtocol.isValidWorkerId_def)
qed

lemma audience_plain: "plain_scalar (JStr DEVICE_CHALLENGE_AUDIENCE)" "plain_scalar (JStr ''prepare'')"
  "plain_scalar (JStr NATIVE_AUD)" "plain_scalar (JStr ''prove'')"
  by code_simp+

lemma message_fields_plain:
  assumes "admitted k ch" shows "list_all plain_scalar (message_fields k ch)"
proof -
  obtain w now where w: "validWorker w" "0 < now" "challenge_ok k w ch now" using assms by (auto simp: admitted_def)
  show ?thesis
  proof (cases k)
    case Enrolment
    then have v: "validChallenge ch w now" using w(3) by (simp add: challenge_ok_def)
    then obtain e i where "js_get ch ''expires_at_ms'' = JInt e" "0 < e" "js_get ch ''installation_id'' = JStr i" "install_re i"
      using w(2) by (auto simp: validChallenge_def js_simps str_re_def)
    then show ?thesis using Enrolment v audience_plain valid_worker_plain [OF w(1)] plain_hash plain_install
      by (simp add: message_fields_def device_fields_def validChallenge_def)
  next
    case NativeProof
    then have v: "validNativeProof ch w now" using w(3) by (simp add: challenge_ok_def)
    then obtain e origin where "js_get ch ''expires_at_ms'' = JInt e" "0 < e" "js_get ch ''origin'' = JStr origin" "origin_re origin"
      using w(2) by (auto simp: validNativeProof_def js_simps str_re_def)
    then show ?thesis using NativeProof v audience_plain valid_worker_plain [OF w(1)] plain_hash plain_origin
      by (simp add: message_fields_def native_fields_def validNativeProof_def RESOURCE_FIELDS_def)
  qed
qed

lemma audiences_differ: "DEVICE_CHALLENGE_AUDIENCE \<noteq> NATIVE_AUD" by code_simp

text \<open>The two kinds of message never meet, and a message tells its nonce and its deadline.\<close>

lemma message_determines:
  assumes "admitted k ch" "admitted k' ch'" "challenge_message k ch = challenge_message k' ch'"
  shows "k = k' \<and> challenge_nonce k ch = challenge_nonce k' ch' \<and> challenge_expires ch = challenge_expires ch'"
proof -
  have "message_fields k ch \<noteq> []" "message_fields k' ch' \<noteq> []"
    by (cases k; simp add: message_fields_def device_fields_def native_fields_def)
       (cases k'; simp add: message_fields_def device_fields_def native_fields_def)
  then have eq: "message_fields k ch = message_fields k' ch'"
    using json_array_inj message_fields_plain assms unfolding message_text by blast
  then show ?thesis using audiences_differ
    by (cases k; cases k') (simp_all add: message_fields_def device_fields_def native_fields_def challenge_nonce_def challenge_expires_def)
qed

text \<open>What the extension signs for a challenge is what the host verifies.\<close>

lemma host_verifies_what_is_signed:
  assumes "js_get policy ''public_key_sha256'' = js_get ch ''public_key_sha256''"
    "js_get policy ''profile_binding_sha256'' = js_get ch ''profile_binding_sha256''"
    "js_get policy ''resources'' = js_get ch ''resources''" "js_get ch ''expires_at_ms'' = JInt e"
  shows "canonicalNativeProofMessage ch = nativeProofMessage (proof_fields (js_get ch ''origin'') (js_get ch ''worker_id'') policy
    (js_get ch ''client_nonce'') (js_get ch ''server_nonce'') e)"
  by (simp add: canonicalNativeProofMessage_def native_fields_def nativeProofMessage_def proof_fields_def assms NATIVE_AUD_def HOST_AUD_def)

text \<open>
  C23: let any number of enrolment and native-proof signatures run interleaved over one stored record,
  with lost and unreported transactions, key creation and any answers, while the clock is never set
  back. Then the private key never signs the same message twice; when it signs for a nonce it has
  signed for before, the earlier challenge has expired by then; and every use of the key is for an
  admitted challenge before its deadline.
\<close>

theorem no_message_signed_twice:
  assumes "clock_forward n evs" and "uses = sg_uses (signer_run digest deps evs (fresh_signer row n))"
  shows "distinct (map ku_message uses) \<and>
    sorted_wrt (\<lambda>u v. challenge_nonce (ku_kind u) (ku_challenge u) = challenge_nonce (ku_kind v) (ku_challenge v) \<longrightarrow>
      challenge_expires (ku_challenge u) \<le> ku_time v) uses \<and>
    list_all (\<lambda>u. admitted (ku_kind u) (ku_challenge u) \<and> ku_time u < challenge_expires (ku_challenge u)) uses"
proof -
  have ok: "signer_ok (signer_run digest deps evs (fresh_signer row n))"
    using signer_run_ok [OF fresh_signer_ok] assms(1) by (simp add: fresh_signer_def)
  then have before: "sorted_wrt expired_before uses"
    and each: "list_all (\<lambda>u. admitted (ku_kind u) (ku_challenge u) \<and> ku_time u < challenge_expires (ku_challenge u)) uses"
    using assms(2) by (auto simp: signer_ok_def use_ok_def list_all_iff)
  have "ku_message (uses ! i) \<noteq> ku_message (uses ! j)" if "i < j" "j < length uses" for i j
  proof
    let ?u = "uses ! i" and ?v = "uses ! j"
    assume "ku_message ?u = ku_message ?v"
    moreover have mem: "?u \<in> set uses" "?v \<in> set uses" using that by simp_all
    moreover have "expired_before ?u ?v" using before that sorted_wrt_nth_less by blast
    ultimately show False
      using each message_determines [of "ku_kind ?u" "ku_challenge ?u" "ku_kind ?v" "ku_challenge ?v"]
      by (auto simp: ku_message_def expired_before_def use_id_def list_all_iff)
  qed
  then have "distinct (map ku_message uses)" by (simp add: distinct_conv_nth) (metis nat_neq_iff)
  then show ?thesis using before each by (simp add: expired_before_def [abs_def] use_id_def)
qed


definition sample_key :: crypto_key where
  "sample_key = \<lparr>ck_handle = 7, ck_type = ''private'', ck_extractable = False, ck_algorithm = ''ECDSA'', ck_namedCurve = ''P-256'',
     ck_usages = [''sign'']\<rparr>"

definition sample_digest :: digest where "sample_digest = (\<lambda>_. Some (replicate 32 (char_of (170 :: nat))))"

definition sample_challenge :: jsval where
  "sample_challenge = JObj [(''origin'', JStr sample_origin), (''worker_id'', JStr ''bke-13''), (''public_key_sha256'', JStr (wide_hash CHR ''a'')),
     (''profile_binding_sha256'', JStr (wide_hash CHR ''b'')), (''resources'', js_get sample_pinned ''resources''),
     (''client_nonce'', JStr (wide_hash CHR ''1'')), (''server_nonce'', JStr (wide_hash CHR ''2'')), (''expires_at_ms'', JInt 1010000)]"

definition sample_enrolment :: "char \<Rightarrow> int \<Rightarrow> jsval" where
  "sample_enrolment c e = JObj [(''installation_id'', JStr ''42''), (''worker_id'', JStr ''bke-13''), (''proposal_sha256'', JStr (wide_hash CHR ''a'')),
     (''subject_sha256'', JStr (wide_hash CHR ''b'')), (''nonce'', JStr (wide_hash c)), (''expires_at_ms'', JInt e)]"

definition sample_row :: identity_store where "sample_row = Some (Stored (new_record ''bke-13'' sample_public sample_key))"

definition racing_events :: "signer_event list" where
  "racing_events = [StartNativeProof ''bke-13'' sample_challenge, StartNativeProof ''bke-13'' sample_challenge,
     Transact 1 Completes, Transact 0 Completes, Clock 1000007, UseKey 0, UseKey 1, SignatureAnswer 1 (Some (replicate 64 CHR ''x'')),
     VerifyAnswer 1 (Some False)]"

definition setback_events :: "signer_event list" where
  "setback_events = [StartSign ''bke-13'' (sample_enrolment CHR ''1'' 1010000), Transact 0 Completes, UseKey 0, Clock 1010000,
     StartSign ''bke-13'' (sample_enrolment CHR ''2'' 1020000), Transact 1 Completes, Clock 1000001,
     StartSign ''bke-13'' (sample_enrolment CHR ''1'' 1010000), Transact 2 Completes, UseKey 2]"


definition sample_record :: "jsval list \<Rightarrow> identity_record" where
  "sample_record used = (new_record ''bke-13'' sample_public sample_key)\<lparr>ir_used := JArr used\<rparr>"

lemma sample_record_valid:
  "assertProfile (Some (Stored (sample_record used))) ''bke-13'' =
    (if length used \<le> LIMIT \<and> list_all used_entry_ok used \<and> distinct (map (\<lambda>e. js_get e ''nonce'') used)
     then Inr (sample_record used) else Inl ''IDENTITY_STORAGE_CORRUPT'')"
proof -
  have "validRecord (sample_record [])" by code_simp
  then show ?thesis
    by (simp add: assertProfile_def sample_record_def validRecord_def) (simp add: new_record_def)
qed

lemma sample_row_eq: "sample_row = Some (Stored (sample_record []))"
  by (simp add: sample_row_def sample_record_def new_record_def)

lemma sample_record_simps [simp]:
  "live_entries now (sample_record used) = filter (\<lambda>x. now < the_int (js_get x ''expires_at_ms'')) used"
  "(sample_record used)\<lparr>ir_used := JArr used'\<rparr> = sample_record used'"
  by (simp_all add: live_entries_def sample_record_def)

lemma sample_entry_ok: "used_entry_ok (used_entry (wide_hash CHR ''1'') e) \<longleftrightarrow> safe_int e \<and> 0 < e"
    "used_entry_ok (used_entry (wide_hash CHR ''2'') e) \<longleftrightarrow> safe_int e \<and> 0 < e"
proof -
  have h: "hash_re (wide_hash CHR ''1'')" "hash_re (wide_hash CHR ''2'')" by code_simp+
  have "exact_joined (used_entry n e) [''nonce'', ''expires_at_ms'']" for n
    unfolding used_entry_def by (simp add: exact_joined_def)
  then show "used_entry_ok (used_entry (wide_hash CHR ''1'') e) \<longleftrightarrow> safe_int e \<and> 0 < e"
    "used_entry_ok (used_entry (wide_hash CHR ''2'') e) \<longleftrightarrow> safe_int e \<and> 0 < e"
    using h by (simp_all add: used_entry_ok_def validHash_def)
qed

lemma sample_challenge_simps:
  "challenge_nonce NativeProof sample_challenge = wide_hash CHR ''2''" "challenge_expires sample_challenge = 1010000"
  "challenge_nonce Enrolment (sample_enrolment c e) = wide_hash c" "challenge_expires (sample_enrolment c e) = e"
  by (simp_all add: challenge_nonce_def challenge_expires_def sample_challenge_def sample_enrolment_def)

lemma sample_valid_challenges:
  "validWorker ''bke-13''" "validNativeProof sample_challenge ''bke-13'' 1000000"
    "validChallenge (sample_enrolment CHR ''1'' 1010000) ''bke-13'' 1000000"
    "validChallenge (sample_enrolment CHR ''2'' 1020000) ''bke-13'' 1010000"
    "validChallenge (sample_enrolment CHR ''1'' 1010000) ''bke-13'' 1000001"
    "clockNow 1000000 = Some 1000000" "clockNow 1010000 = Some 1010000" "clockNow 1000001 = Some 1000001"
proof -
  have fields: "exact_joined sample_challenge NATIVE_FIELDS" "exact_joined (sample_enrolment c e) CHALLENGE_FIELDS" for c e
    by (simp_all add: exact_joined_def NATIVE_FIELDS_def CHALLENGE_FIELDS_def sample_challenge_def sample_enrolment_def)
  have hashes: "validHash (JStr (wide_hash c)) \<longleftrightarrow> is_hex_lower c" for c by (simp add: validHash_def wide_hash_facts)
  have res: "js_get sample_challenge ''resources'' = js_get (sample_policy v) ''resources''" for v
    by (simp add: sample_challenge_def sample_pinned_def sample_policy_def)
  have pins: "list_all (\<lambda>k. validHash (js_get (js_get sample_challenge ''resources'') k)) RESOURCE_FIELDS"
    by (simp add: RESOURCE_FIELDS_def sample_challenge_def sample_pinned_def sample_policy_def hashes wide_digits)
  have shape: "exact_joined (js_get sample_challenge ''resources'') RESOURCE_FIELDS"
    using sample_policy_shape(2) [of undefined] unfolding res [of undefined] .
  have "install_re ''42''" by code_simp
  then show "validChallenge (sample_enrolment CHR ''1'' 1010000) ''bke-13'' 1000000"
    "validChallenge (sample_enrolment CHR ''2'' 1020000) ''bke-13'' 1010000"
    "validChallenge (sample_enrolment CHR ''1'' 1010000) ''bke-13'' 1000001"
    by (simp_all add: validChallenge_def fields) (simp_all add: sample_enrolment_def str_re_def hashes wide_digits safe_int_def max_safe_def)
  show "validNativeProof sample_challenge ''bke-13'' 1000000"
    using fields(1) pins shape
    by (simp add: validNativeProof_def)
       (simp add: sample_challenge_def str_re_def hashes wide_digits wide_hash_facts sample_origin_ok safe_int_def max_safe_def)
  show "validWorker ''bke-13''" "clockNow 1000000 = Some 1000000" "clockNow 1010000 = Some 1010000" "clockNow 1000001 = Some 1000001"
    by code_simp+
qed

lemma sample_key_hash: "key_hash sample_digest sample_public = Some (wide_hash CHR ''a'')"
proof -
  obtain t where "json_stringify sample_public = Some t" by (simp add: sample_public_def)
  then show ?thesis by (simp add: key_hash_def sample_digest_def hex_bytes_aa wide_hash_def)
qed

lemma sample_starts:
  "signNativeProof_start True ''bke-13'' sample_challenge 1000000 = Reserving NativeProof ''bke-13'' sample_challenge 1000000"
  "sign_start True ''bke-13'' (sample_enrolment CHR ''1'' 1010000) 1000000 = Reserving Enrolment ''bke-13'' (sample_enrolment CHR ''1'' 1010000) 1000000"
  "sign_start True ''bke-13'' (sample_enrolment CHR ''2'' 1020000) 1010000 = Reserving Enrolment ''bke-13'' (sample_enrolment CHR ''2'' 1020000) 1010000"
  "sign_start True ''bke-13'' (sample_enrolment CHR ''1'' 1010000) 1000001 = Reserving Enrolment ''bke-13'' (sample_enrolment CHR ''1'' 1010000) 1000001"
proof -
  note sample_valid_challenges
  then show "signNativeProof_start True ''bke-13'' sample_challenge 1000000 = Reserving NativeProof ''bke-13'' sample_challenge 1000000"
    "sign_start True ''bke-13'' (sample_enrolment CHR ''1'' 1010000) 1000000 = Reserving Enrolment ''bke-13'' (sample_enrolment CHR ''1'' 1010000) 1000000"
    "sign_start True ''bke-13'' (sample_enrolment CHR ''2'' 1020000) 1010000 = Reserving Enrolment ''bke-13'' (sample_enrolment CHR ''2'' 1020000) 1010000"
    "sign_start True ''bke-13'' (sample_enrolment CHR ''1'' 1010000) 1000001 = Reserving Enrolment ''bke-13'' (sample_enrolment CHR ''1'' 1010000) 1000001"
    by (simp_all add: sign_start_def signNativeProof_start_def)
qed

lemma sample_uses:
  "use_refusal sample_digest NativeProof sample_challenge (sample_record used) 1000007 = None"
  "use_refusal sample_digest Enrolment (sample_enrolment c 1010000) r 1000000 = None"
  "use_refusal sample_digest Enrolment (sample_enrolment c 1010000) r 1000001 = None"
proof -
  have clock: "clockNow 1000007 = Some 1000007" "clockNow 1000000 = Some 1000000" "clockNow 1000001 = Some 1000001" by code_simp+
  have "ir_public_key (sample_record used) = sample_public" by (simp add: sample_record_def new_record_def)
  moreover note sample_key_hash
  ultimately have "native_key_refusal sample_digest sample_challenge (sample_record used) = None"
    by (simp add: native_key_refusal_def) (simp add: sample_challenge_def)
  then show "use_refusal sample_digest NativeProof sample_challenge (sample_record used) 1000007 = None"
    "use_refusal sample_digest Enrolment (sample_enrolment c 1010000) r 1000000 = None"
    "use_refusal sample_digest Enrolment (sample_enrolment c 1010000) r 1000001 = None"
    by (simp_all add: use_refusal_def fresh_refusal_def clock sample_challenge_simps)
qed

lemma sample_numbers: "safe_int 1010000" "safe_int 1020000" "LIMIT = 100" "wide_hash CHR ''1'' \<noteq> wide_hash CHR ''2''"
  by code_simp+

lemmas sample_step = fresh_signer_def signer_run_def sample_row_eq add_call_def set_call_def call_at_def sample_starts sample_uses
  reserve_def atomic_def claim_nonce_def sample_record_valid sample_challenge_simps sample_entry_ok sample_numbers sample_numbers(4) [symmetric] Let_def nth_append

text \<open>Of two racing proofs of one challenge one is refused; the other is signed once.\<close>

lemma racing_run:
  "sg_calls (signer_run sample_digest True racing_events (fresh_signer sample_row 1000000)) =
    [Finished (Inl ''IDENTITY_CHALLENGE_REPLAY''), Finished (Inl ''IDENTITY_KEYPAIR_MISMATCH'')]"
  "length (sg_uses (signer_run sample_digest True racing_events (fresh_signer sample_row 1000000))) = 1"
  by (simp_all add: racing_events_def sample_step signature_answer_def verify_answer_def)

theorem no_message_signed_twice_witness:
  "\<exists>uses. uses = sg_uses (signer_run sample_digest True racing_events (fresh_signer sample_row 1000000)) \<and> length uses = 1 \<and>
     distinct (map ku_message uses)"
proof -
  have "clock_forward 1000000 racing_events" by (simp add: racing_events_def)
  from no_message_signed_twice [OF this refl, of sample_digest True sample_row] show ?thesis using racing_run(2) by blast
qed

text \<open>The registry forgets what has expired, so a clock that is set back lets one challenge be signed twice.\<close>

lemma clock_set_back_resigns:
  "map ku_challenge (sg_uses (signer_run sample_digest True setback_events (fresh_signer sample_row 1000000))) =
    [sample_enrolment CHR ''1'' 1010000, sample_enrolment CHR ''1'' 1010000]"
  by (simp add: setback_events_def sample_step)

section \<open>The record stays valid\<close>

lemma claim_keeps_valid:
  assumes "claim_nonce worker n e current row = (out, Some r')" and "hash_re n" and "safe_int e" and "0 < e"
  shows "validRecord r' \<and> length (the_arr (ir_used r')) \<le> LIMIT"
proof -
  obtain r where r: "validRecord r" "r' = r\<lparr>ir_used := JArr (live_entries current r @ [used_entry n e])\<rparr>"
      "\<not> list_ex (\<lambda>x. js_eq (js_get x ''nonce'') (JStr n)) (live_entries current r)" "length (live_entries current r) < LIMIT"
    using claim_nonce_put [OF assms(1)] by metis
  have "exact_joined (used_entry n e) [''nonce'', ''expires_at_ms'']"
    unfolding used_entry_def by (simp add: exact_joined_def)
  then have entry: "used_entry_ok (used_entry n e)"
    using assms(2-4) by (simp add: used_entry_ok_def validHash_def)
  have old: "list_all used_entry_ok (live_entries current r)" "distinct (map (\<lambda>x. js_get x ''nonce'') (live_entries current r))"
    using r(1) by (auto simp: validRecord_def live_entries_def list_all_iff distinct_map_filter)
  have "JStr n \<notin> (\<lambda>x. js_get x ''nonce'') ` set (live_entries current r)"
    using r(3) by (auto simp: list_ex_iff)
  then show ?thesis using r(1,2,4) entry old by (simp add: validRecord_def)
qed

end
