(* ===== verification/AssignmentInventory.thy ===== *)
theory AssignmentInventory imports ExtensionBase
begin

text \<open>
  \<open>cloudflare-relay/src/admin-assignment-inventory.js\<close>: the inventory of the pull requests of an
  installation that carry a worker label. Every repository of the installation is enumerated page by
  page in batched queries. GitHub is a function from the number of requests made so far and the
  request to an answer; a call that fails ends with the code it throws. The requests made are kept in
  order.
\<close>

section \<open>Constants and requests\<close>

definition API :: string where "API = ''https://api.github.com''"

definition API_VERSION :: string where "API_VERSION = ''2026-03-10''"

definition PER_PAGE :: nat where "PER_PAGE = 100"

definition MAX_REPOS :: nat where "MAX_REPOS = 100"

definition MAX_REPO_PAGES :: nat where "MAX_REPO_PAGES = 4"

definition GRAPHQL_BATCH_SIZE :: nat where "GRAPHQL_BATCH_SIZE = 8"

definition MAX_GRAPHQL_CALLS :: nat where "MAX_GRAPHQL_CALLS = 40"

definition MAX_TOTAL_PRS :: nat where "MAX_TOTAL_PRS = 2000"

definition MAX_ASSIGNMENTS :: nat where "MAX_ASSIGNMENTS = 500"

record api_request =
  rq_method :: string
  rq_url :: string
  rq_headers :: "(string \<times> string) list"
  rq_body :: "jsval option"

text \<open>
  The status and \<open>ok\<close> of a response and what \<open>response.json()\<close> gives, \<^const>\<open>None\<close> when it
  rejects.
\<close>

datatype fetched = FetchThrows | NoResponse | Response int bool "jsval option"

record inventory_env =
  ie_app_id :: jsval
  ie_pem :: jsval
  ie_sign :: "string \<Rightarrow> string \<Rightarrow> string option"
  ie_fetch :: "nat \<Rightarrow> api_request \<Rightarrow> fetched"
  ie_parse_date :: "string \<Rightarrow> int option"
  ie_now :: int
  ie_localeCompare :: "string \<Rightarrow> string \<Rightarrow> int"

definition requestHeaders :: "string \<Rightarrow> (string \<times> string) list" where
  "requestHeaders token = [(''accept'', ''application/vnd.github+json''), (''authorization'', ''Bearer '' @ token),
     (''user-agent'', ''bke-admin-worker-ownership''), (''x-github-api-version'', API_VERSION)]"

definition with_json :: "(string \<times> string) list \<Rightarrow> (string \<times> string) list" where
  "with_json headers = headers @ [(''content-type'', ''application/json'')]"

text \<open>\<open>v || ""\<close>, converted to a string.\<close>

definition or_empty :: "jsval \<Rightarrow> string" where
  "or_empty v = (if truthy v then js_string v else [])"

section \<open>Validators\<close>

record repo =
  rp_id :: int
  rp_name :: string

definition split_name :: "string \<Rightarrow> string \<times> string" where
  "split_name s = (takeWhile (\<lambda>c. c \<noteq> CHR ''/'') s, tl (dropWhile (\<lambda>c. c \<noteq> CHR ''/'') s))"

definition bad_part :: "string \<Rightarrow> bool" where
  "bad_part p \<longleftrightarrow> p = ''.'' \<or> p = ''..'' \<or> contains p ''..''"

definition validRepo :: "jsval \<Rightarrow> string + repo" where
  "validRepo item =
     (if \<not> is_safe_integer (js_get item ''id'') \<or> the_int (js_get item ''id'') \<le> 0 \<or>
         \<not> is_JStr (js_get item ''full_name'') \<or> \<not> repository_re (str_or_empty (js_get item ''full_name''))
      then Inl ''ADMIN_ASSIGNMENT_REPOSITORY_INVALID''
      else let n = str_or_empty (js_get item ''full_name'') in
        if bad_part (fst (split_name n)) \<or> bad_part (snd (split_name n)) then Inl ''ADMIN_ASSIGNMENT_REPOSITORY_INVALID''
        else Inr \<lparr>rp_id = the_int (js_get item ''id''), rp_name = n\<rparr>)"

definition validBearer :: "jsval \<Rightarrow> bool" where
  "validBearer v \<longleftrightarrow> is_JStr v \<and> starts_with (str_or_empty v) ''ghs_'' \<and> 8 < length (str_or_empty v) \<and>
     length (str_or_empty v) \<le> 8192 \<and> \<not> list_ex (\<lambda>c. code c \<le> 32 \<or> code c = 127) (str_or_empty v)"

definition exactGrant :: "jsval \<Rightarrow> bool" where
  "exactGrant grant \<longleftrightarrow> exact_joined grant [''metadata'', ''pull_requests''] \<and>
     js_eq (js_get grant ''metadata'') (JStr ''read'') \<and> js_eq (js_get grant ''pull_requests'') (JStr ''read'')"

definition safeFetch :: "string \<Rightarrow> fetched \<Rightarrow> string + jsval option" where
  "safeFetch stage answer =
     (case answer of FetchThrows \<Rightarrow> Inl (''ADMIN_ASSIGNMENT_'' @ stage @ ''_TRANSPORT_UNAVAILABLE'')
      | NoResponse \<Rightarrow> Inl (''ADMIN_ASSIGNMENT_'' @ stage @ ''_PROVIDER_UNAVAILABLE'')
      | Response status ok body \<Rightarrow>
          if 300 \<le> status \<and> status < 400 then Inl ''ADMIN_ASSIGNMENT_REDIRECT_BLOCKED''
          else if \<not> ok then Inl (''ADMIN_ASSIGNMENT_'' @ stage @ ''_PROVIDER_UNAVAILABLE'')
          else Inr body)"

definition json_or_reject :: "string \<Rightarrow> jsval option \<Rightarrow> string + jsval" where
  "json_or_reject reason body =
     (case body of None \<Rightarrow> Inl reason | Some v \<Rightarrow> if truthy v then Inr v else Inl reason)"

text \<open>\<open>safeFetch\<close> and then \<open>json\<close>, with the requests made.\<close>

definition fetch_json ::
  "inventory_env \<Rightarrow> string \<Rightarrow> string \<Rightarrow> api_request \<Rightarrow> api_request list \<Rightarrow> (string + jsval) \<times> api_request list" where
  "fetch_json env stage reason rq trail =
     (case safeFetch stage (ie_fetch env (length trail) rq) of Inl e \<Rightarrow> (Inl e, trail @ [rq])
      | Inr body \<Rightarrow> (json_or_reject reason body, trail @ [rq]))"

section \<open>Pull requests\<close>

record worker_assignment =
  wa_repository :: string
  wa_repository_id :: int
  wa_number :: int
  wa_head_sha :: jsval
  wa_label :: string

definition WORKER_PREFIX :: string where "WORKER_PREFIX = ''bke-worker:''"

text \<open>The labels with the worker prefix; a label of another kind is passed over.\<close>

fun worker_labels :: "jsval list \<Rightarrow> string + string list" where
  "worker_labels [] = Inr []"
| "worker_labels (l # ls) =
     (if \<not> truthy l \<or> \<not> is_JStr (js_get l ''name'') then Inl ''ADMIN_ASSIGNMENT_PULL_REQUEST_INVALID''
      else let n = str_or_empty (js_get l ''name'') in
        if \<not> starts_with n WORKER_PREFIX then worker_labels ls
        else if \<not> worker_id_re (drop (length WORKER_PREFIX) n) then Inl ''ADMIN_ASSIGNMENT_LABEL_INVALID''
        else case worker_labels ls of Inl e \<Rightarrow> Inl e | Inr ns \<Rightarrow> Inr (n # ns))"

definition prProjection ::
  "jsval \<Rightarrow> string \<Rightarrow> jsval \<Rightarrow> jsval \<Rightarrow> repo \<Rightarrow> string + worker_assignment option" where
  "prProjection number state sha labels repository =
     (if \<not> is_safe_integer number \<or> the_int number < 1 \<or> state \<noteq> ''open'' \<or> \<not> sha_re (or_empty sha) \<or>
         \<not> is_JArr labels \<or> 100 < length (the_arr labels)
      then Inl ''ADMIN_ASSIGNMENT_PULL_REQUEST_INVALID''
      else case worker_labels (the_arr labels) of Inl e \<Rightarrow> Inl e
      | Inr [] \<Rightarrow> Inr None
      | Inr [l] \<Rightarrow> Inr (Some \<lparr>wa_repository = rp_name repository, wa_repository_id = rp_id repository,
          wa_number = the_int number, wa_head_sha = sha, wa_label = l\<rparr>)
      | Inr _ \<Rightarrow> Inl ''ADMIN_ASSIGNMENT_LABEL_CONFLICT'')"

section \<open>The repositories\<close>

definition installation_request :: "string \<Rightarrow> api_request" where
  "installation_request jwt = \<lparr>rq_method = ''GET'', rq_url = API @ ''/repos/jan2xo/bke-worker/installation'',
     rq_headers = requestHeaders jwt, rq_body = None\<rparr>"

definition token_request :: "string \<Rightarrow> string \<Rightarrow> api_request" where
  "token_request jwt installation = \<lparr>rq_method = ''POST'',
     rq_url = API @ ''/app/installations/'' @ installation @ ''/access_tokens'', rq_headers = with_json (requestHeaders jwt),
     rq_body = Some (JObj [(''permissions'', JObj [(''metadata'', JStr ''read''), (''pull_requests'', JStr ''read'')])])\<rparr>"

definition repositories_request :: "string \<Rightarrow> nat \<Rightarrow> api_request" where
  "repositories_request token page = \<lparr>rq_method = ''GET'',
     rq_url = API @ ''/installation/repositories?per_page='' @ int_string (int PER_PAGE) @ ''&page='' @ int_string (int page),
     rq_headers = requestHeaders token, rq_body = None\<rparr>"

definition installation_of :: "jsval \<Rightarrow> string + string" where
  "installation_of info =
     (let i = or_empty (js_get info ''id'') in
      if \<not> install_re i \<or> js_get info ''repository_selection'' \<notin> {JStr ''all'', JStr ''selected''} \<or>
         js_get (js_get info ''permissions'') ''pull_requests'' \<notin> {JStr ''read'', JStr ''write''}
      then Inl ''ADMIN_ASSIGNMENT_INSTALLATION_SCOPE_INVALID'' else Inr i)"

definition token_of :: "inventory_env \<Rightarrow> jsval \<Rightarrow> string + string" where
  "token_of env info =
     (if \<not> validBearer (js_get info ''token'') \<or> \<not> exactGrant (js_get info ''permissions'') \<or>
         (case ie_parse_date env (or_empty (js_get info ''expires_at'')) of None \<Rightarrow> True
          | Some expiry \<Rightarrow> expiry - ie_now env < 120000 \<or> 3660000 < expiry - ie_now env)
      then Inl ''ADMIN_ASSIGNMENT_TOKEN_SCOPE_INVALID'' else Inr (str_or_empty (js_get info ''token'')))"

fun add_repositories :: "jsval list \<Rightarrow> repo list \<Rightarrow> string + repo list" where
  "add_repositories [] repos = Inr repos"
| "add_repositories (item # items) repos =
     (case validRepo item of Inl e \<Rightarrow> Inl e
      | Inr r \<Rightarrow>
          if rp_id r \<in> set (map rp_id repos) \<or> to_lower (rp_name r) \<in> set (map (to_lower \<circ> rp_name) repos)
          then Inl ''ADMIN_ASSIGNMENT_REPOSITORY_DUPLICATE''
          else add_repositories items (repos @ [r]))"

definition repositories_page :: "jsval \<Rightarrow> int option \<Rightarrow> bool" where
  "repositories_page data stated \<longleftrightarrow> is_safe_integer (js_get data ''total_count'') \<and> 0 \<le> the_int (js_get data ''total_count'') \<and>
     the_int (js_get data ''total_count'') \<le> int MAX_REPOS \<and> is_JArr (js_get data ''repositories'') \<and>
     length (the_arr (js_get data ''repositories'')) \<le> PER_PAGE \<and> (stated = None \<or> stated = Some (the_int (js_get data ''total_count'')))"

text \<open>The pages still to read, the count stated so far and the repositories read so far.\<close>

fun list_repositories ::
  "inventory_env \<Rightarrow> string \<Rightarrow> nat list \<Rightarrow> int option \<Rightarrow> repo list \<Rightarrow> api_request list \<Rightarrow>
     (string + int option \<times> repo list) \<times> api_request list" where
  "list_repositories env token [] stated repos trail = (Inr (stated, repos), trail)"
| "list_repositories env token (page # pages) stated repos trail =
     (case fetch_json env ''REPOSITORIES'' ''ADMIN_ASSIGNMENT_REPOSITORIES_INVALID'' (repositories_request token page) trail of
        (Inl e, trail') \<Rightarrow> (Inl e, trail')
      | (Inr data, trail') \<Rightarrow>
          if \<not> repositories_page data stated then (Inl ''ADMIN_ASSIGNMENT_REPOSITORIES_INCOMPLETE'', trail')
          else (case add_repositories (the_arr (js_get data ''repositories'')) repos of Inl e \<Rightarrow> (Inl e, trail')
            | Inr repos' \<Rightarrow>
                if int (length repos') = the_int (js_get data ''total_count'')
                then (Inr (Some (the_int (js_get data ''total_count'')), repos'), trail')
                else if MAX_REPOS \<le> page * PER_PAGE \<or> the_arr (js_get data ''repositories'') = []
                then (Inl ''ADMIN_ASSIGNMENT_REPOSITORIES_INCOMPLETE'', trail')
                else list_repositories env token pages (Some (the_int (js_get data ''total_count''))) repos' trail'))"

definition repository_pages :: "nat list" where
  "repository_pages = [1..<Suc ((MAX_REPOS + PER_PAGE - 1) div PER_PAGE)]"

definition repositories_complete :: "int option \<Rightarrow> repo list \<Rightarrow> bool" where
  "repositories_complete stated repos \<longleftrightarrow> stated = Some (int (length repos)) \<and> stated \<noteq> Some 0 \<and>
     list_ex (\<lambda>r. rp_id r = 1354026486 \<and> rp_name r = ''jan2xo/bke-worker'') repos"

section \<open>The enumeration\<close>

record job =
  jb_repo :: repo
  jb_cursor :: "string option"
  jb_page :: nat
  jb_total :: "int option"
  jb_numbers :: "int list"

definition new_job :: "repo \<Rightarrow> job" where
  "new_job r = \<lparr>jb_repo = r, jb_cursor = None, jb_page = 0, jb_total = None, jb_numbers = []\<rparr>"

text \<open>
  What the loop collects. \<open>ty_pages\<close> is not kept by the code: the page of pull requests accepted for
  each repository so far, in the order they were read.
\<close>

record tally =
  ty_assignments :: "worker_assignment list"
  ty_open :: nat
  ty_pages :: "(repo \<times> jsval) list"

definition wa_worker :: "worker_assignment \<Rightarrow> string" where
  "wa_worker a = drop (length WORKER_PREFIX) (wa_label a)"

definition graph_variables :: "job list \<Rightarrow> jsval" where
  "graph_variables jobs = JObj (concat (map (\<lambda>(i, j).
     [(''owner'' @ int_string (int i), JStr (fst (split_name (rp_name (jb_repo j))))),
      (''name'' @ int_string (int i), JStr (snd (split_name (rp_name (jb_repo j))))),
      (''cursor'' @ int_string (int i), case jb_cursor j of None \<Rightarrow> JNull | Some c \<Rightarrow> JStr c)]) (enumerate 0 jobs)))"

definition graph_field :: "nat \<Rightarrow> string" where
  "graph_field k = (let i = int_string (int k) in
     ''r'' @ i @ '':repository(owner:$owner'' @ i @ '',name:$name'' @ i @
     ''){databaseId nameWithOwner pullRequests(first:100,states:OPEN,after:$cursor'' @ i @
     ''){totalCount pageInfo{hasNextPage endCursor} nodes{'' @
     ''number state headRefOid labels(first:100){nodes{name} pageInfo{hasNextPage}}'' @ ''}}}'')"

fun join_with :: "string \<Rightarrow> string list \<Rightarrow> string" where
  "join_with sep [] = []"
| "join_with sep [s] = s"
| "join_with sep (s # t # ss) = s @ sep @ join_with sep (t # ss)"

definition graph_query :: "nat \<Rightarrow> string" where
  "graph_query n =
     (let decl = concat (map (\<lambda>k. let i = int_string (int k) in
            [''$owner'' @ i @ '':String!'', ''$name'' @ i @ '':String!'', ''$cursor'' @ i @ '':String'']) [0..<n]) in
      ''query Inventory('' @ join_with '','' decl @ ''){'' @ join_with '' '' (map graph_field [0..<n]) @ ''}'')"

definition graph_request :: "string \<Rightarrow> job list \<Rightarrow> api_request" where
  "graph_request token jobs = \<lparr>rq_method = ''POST'', rq_url = API @ ''/graphql'', rq_headers = with_json (requestHeaders token),
     rq_body = Some (JObj [(''query'', JStr (graph_query (length jobs))), (''variables'', graph_variables jobs)])\<rparr>"

definition read_node :: "repo \<Rightarrow> jsval \<Rightarrow> int list \<Rightarrow> worker_assignment list \<Rightarrow> string + int list \<times> worker_assignment list" where
  "read_node r node numbers found =
     (let labels = js_get node ''labels''; number = js_get node ''number'' in
      if \<not> truthy labels \<or> \<not> is_JArr (js_get labels ''nodes'') \<or>
         js_get (js_get labels ''pageInfo'') ''hasNextPage'' \<noteq> JBool False
      then Inl ''ADMIN_ASSIGNMENT_LABEL_PAGINATION_INCOMPLETE''
      else if list_ex (\<lambda>n. number = JInt n) numbers then Inl ''ADMIN_ASSIGNMENT_PR_DUPLICATE''
      else case prProjection number (to_lower (or_empty (js_get node ''state''))) (js_get node ''headRefOid'') (js_get labels ''nodes'') r of
        Inl e \<Rightarrow> Inl e
      | Inr None \<Rightarrow> Inr (numbers @ [the_int number], found)
      | Inr (Some a) \<Rightarrow>
          if wa_worker a \<in> set (map wa_worker found) then Inl ''ADMIN_ASSIGNMENT_WORKER_CONFLICT''
          else if MAX_ASSIGNMENTS < Suc (length found) then Inl ''ADMIN_ASSIGNMENT_CAPACITY_EXCEEDED''
          else Inr (numbers @ [the_int number], found @ [a]))"

fun read_nodes :: "repo \<Rightarrow> jsval list \<Rightarrow> int list \<Rightarrow> worker_assignment list \<Rightarrow> string + int list \<times> worker_assignment list" where
  "read_nodes r [] numbers found = Inr (numbers, found)"
| "read_nodes r (node # nodes) numbers found =
     (case read_node r node numbers found of Inl e \<Rightarrow> Inl e | Inr (numbers', found') \<Rightarrow> read_nodes r nodes numbers' found')"

definition page_shape :: "jsval \<Rightarrow> bool" where
  "page_shape prs \<longleftrightarrow> truthy prs \<and> is_safe_integer (js_get prs ''totalCount'') \<and> 0 \<le> the_int (js_get prs ''totalCount'') \<and>
     the_int (js_get prs ''totalCount'') \<le> int (MAX_REPO_PAGES * PER_PAGE) \<and> is_JArr (js_get prs ''nodes'') \<and>
     length (the_arr (js_get prs ''nodes'')) \<le> PER_PAGE \<and> is_JBool (js_get (js_get prs ''pageInfo'') ''hasNextPage'')"

definition has_next :: "jsval \<Rightarrow> bool" where
  "has_next prs \<longleftrightarrow> js_get (js_get prs ''pageInfo'') ''hasNextPage'' = JBool True"

text \<open>One repository's part of an answer: the job to push again, if any.\<close>

definition read_page :: "job \<Rightarrow> jsval \<Rightarrow> tally \<Rightarrow> string + job option \<times> tally" where
  "read_page j item t =
     (let prs = js_get item ''pullRequests''; total = the_int (js_get prs ''totalCount''); nodes = the_arr (js_get prs ''nodes'') in
      if \<not> truthy item \<or> \<not> js_eq (js_get item ''databaseId'') (JInt (rp_id (jb_repo j))) \<or> \<not> is_JStr (js_get item ''nameWithOwner'') \<or>
         to_lower (str_or_empty (js_get item ''nameWithOwner'')) \<noteq> to_lower (rp_name (jb_repo j))
      then Inl ''ADMIN_ASSIGNMENT_REPOSITORY_IDENTITY_CHANGED''
      else if \<not> page_shape prs then Inl ''ADMIN_ASSIGNMENT_PULL_REQUESTS_INVALID''
      else if jb_total j \<noteq> None \<and> jb_total j \<noteq> Some total then Inl ''ADMIN_ASSIGNMENT_PAGINATION_AMBIGUOUS''
      else if MAX_TOTAL_PRS < ty_open t + length nodes then Inl ''ADMIN_ASSIGNMENT_CAPACITY_EXCEEDED''
      else case read_nodes (jb_repo j) nodes (jb_numbers j) (ty_assignments t) of Inl e \<Rightarrow> Inl e
      | Inr (numbers, found) \<Rightarrow>
          let t' = \<lparr>ty_assignments = found, ty_open = ty_open t + length nodes, ty_pages = ty_pages t @ [(jb_repo j, prs)]\<rparr>;
              cursor = js_get (js_get prs ''pageInfo'') ''endCursor'' in
          if has_next prs then
            if MAX_REPO_PAGES \<le> Suc (jb_page j) \<or> \<not> is_JStr cursor \<or> str_or_empty cursor = [] \<or> 2048 < length (str_or_empty cursor) \<or>
               Some (str_or_empty cursor) = jb_cursor j \<or> total \<le> int (length numbers)
            then Inl ''ADMIN_ASSIGNMENT_PAGINATION_INCOMPLETE''
            else Inr (Some \<lparr>jb_repo = jb_repo j, jb_cursor = Some (str_or_empty cursor), jb_page = Suc (jb_page j),
                            jb_total = Some total, jb_numbers = numbers\<rparr>, t')
          else if int (length numbers) \<noteq> total then Inl ''ADMIN_ASSIGNMENT_PAGINATION_INCOMPLETE''
          else Inr (None, t'))"

fun read_batch :: "nat \<Rightarrow> job list \<Rightarrow> jsval \<Rightarrow> tally \<Rightarrow> string + job list \<times> tally" where
  "read_batch i [] data t = Inr ([], t)"
| "read_batch i (j # jobs) data t =
     (case read_page j (js_get data (''r'' @ int_string (int i))) t of Inl e \<Rightarrow> Inl e
      | Inr (again, t') \<Rightarrow>
          (case read_batch (Suc i) jobs data t' of Inl e \<Rightarrow> Inl e
           | Inr (jobs', t'') \<Rightarrow> Inr ((case again of None \<Rightarrow> [] | Some j' \<Rightarrow> [j']) @ jobs', t'')))"

text \<open>\<open>payload.errors?.length\<close> is truthy.\<close>

fun has_errors :: "jsval \<Rightarrow> bool" where
  "has_errors (JArr es) = (es \<noteq> [])"
| "has_errors (JStr s) = (s \<noteq> [])"
| "has_errors (JObj kvs) = truthy (js_get (JObj kvs) ''length'')"
| "has_errors _ = False"

function inventory_loop ::
  "inventory_env \<Rightarrow> string \<Rightarrow> nat \<Rightarrow> job list \<Rightarrow> tally \<Rightarrow> api_request list \<Rightarrow> (string + tally) \<times> api_request list" where
  "inventory_loop env token calls jobs t trail =
     (if jobs = [] then (Inr t, trail)
      else if MAX_GRAPHQL_CALLS \<le> calls then (Inl ''ADMIN_ASSIGNMENT_SUBREQUEST_BUDGET_EXCEEDED'', trail)
      else let batch = take GRAPHQL_BATCH_SIZE jobs in
        case fetch_json env ''PULL_REQUESTS'' ''ADMIN_ASSIGNMENT_PULL_REQUESTS_INVALID'' (graph_request token batch) trail of
          (Inl e, trail') \<Rightarrow> (Inl e, trail')
        | (Inr payload, trail') \<Rightarrow>
            if has_errors (js_get payload ''errors'') \<or> \<not> is_reference (js_get payload ''data'')
            then (Inl ''ADMIN_ASSIGNMENT_PULL_REQUESTS_INVALID'', trail')
            else (case read_batch 0 batch (js_get payload ''data'') t of Inl e \<Rightarrow> (Inl e, trail')
              | Inr (again, t') \<Rightarrow> inventory_loop env token (Suc calls) (drop GRAPHQL_BATCH_SIZE jobs @ again) t' trail'))"
  by pat_completeness auto
termination
  by (relation "measure (\<lambda>(env, token, calls, jobs, t, trail). MAX_GRAPHQL_CALLS - calls)") auto

declare inventory_loop.simps [simp del]

section \<open>The inventory\<close>

record inventory =
  in_installation_id :: string
  in_repositories :: "repo list"
  in_tally :: tally

definition app_id_re :: "string \<Rightarrow> bool" where
  "app_id_re s = (case s of [] \<Rightarrow> False | c # cs \<Rightarrow> is_digit c \<and> c \<noteq> CHR ''0'' \<and> list_all is_digit cs)"

definition resolve_installation :: "inventory_env \<Rightarrow> (string + string \<times> string) \<times> api_request list" where
  "resolve_installation env =
     (let appId = js_trim (or_empty (ie_app_id env)); pem = js_trim (or_empty (ie_pem env)) in
      if \<not> app_id_re appId \<or> pem = [] then (Inl ''ADMIN_ASSIGNMENT_APP_UNCONFIGURED'', [])
      else case ie_sign env appId pem of None \<Rightarrow> (Inl ''ADMIN_ASSIGNMENT_SIGNING_UNAVAILABLE'', [])
      | Some jwt \<Rightarrow>
          (case fetch_json env ''INSTALLATION'' ''ADMIN_ASSIGNMENT_INSTALLATION_INVALID'' (installation_request jwt) [] of
             (Inl e, trail) \<Rightarrow> (Inl e, trail)
           | (Inr info, trail) \<Rightarrow>
               (case installation_of info of Inl e \<Rightarrow> (Inl e, trail)
                | Inr i \<Rightarrow>
                    (case fetch_json env ''TOKEN'' ''ADMIN_ASSIGNMENT_TOKEN_INVALID'' (token_request jwt i) trail of
                       (Inl e, trail') \<Rightarrow> (Inl e, trail')
                     | (Inr grant, trail') \<Rightarrow>
                         (case token_of env grant of Inl e \<Rightarrow> (Inl e, trail') | Inr token \<Rightarrow> (Inr (i, token), trail'))))))"

definition empty_tally :: tally where
  "empty_tally = \<lparr>ty_assignments = [], ty_open = 0, ty_pages = []\<rparr>"

definition listInstalledWorkerAssignments :: "inventory_env \<Rightarrow> (string + inventory) \<times> api_request list" where
  "listInstalledWorkerAssignments env =
     (case resolve_installation env of (Inl e, trail) \<Rightarrow> (Inl e, trail)
      | (Inr (i, token), trail) \<Rightarrow>
          (case list_repositories env token repository_pages None [] trail of (Inl e, trail') \<Rightarrow> (Inl e, trail')
           | (Inr (stated, repos), trail') \<Rightarrow>
               if \<not> repositories_complete stated repos then (Inl ''ADMIN_ASSIGNMENT_REPOSITORIES_INCOMPLETE'', trail')
               else (case inventory_loop env token 0 (map new_job repos) empty_tally trail' of (Inl e, trail'') \<Rightarrow> (Inl e, trail'')
                 | (Inr t, trail'') \<Rightarrow> (Inr \<lparr>in_installation_id = i, in_repositories = repos, in_tally = t\<rparr>, trail''))))"

text \<open>The value returned, with the assignments sorted by repository and number.\<close>

definition assignment_le :: "(string \<Rightarrow> string \<Rightarrow> int) \<Rightarrow> worker_assignment \<Rightarrow> worker_assignment \<Rightarrow> bool" where
  "assignment_le locale_compare a b =
     (let c = locale_compare (wa_repository a) (wa_repository b) in
      (if c \<noteq> 0 then c else wa_number a - wa_number b) \<le> 0)"

fun insert_assignment :: "(string \<Rightarrow> string \<Rightarrow> int) \<Rightarrow> worker_assignment \<Rightarrow> worker_assignment list \<Rightarrow> worker_assignment list" where
  "insert_assignment cmp a [] = [a]"
| "insert_assignment cmp a (b # bs) = (if assignment_le cmp a b then a # b # bs else b # insert_assignment cmp a bs)"

definition sort_assignments :: "(string \<Rightarrow> string \<Rightarrow> int) \<Rightarrow> worker_assignment list \<Rightarrow> worker_assignment list" where
  "sort_assignments cmp xs = foldr (insert_assignment cmp) xs []"

definition assignment_json :: "worker_assignment \<Rightarrow> jsval" where
  "assignment_json a = JObj [(''repository'', JStr (wa_repository a)), (''repository_id'', JInt (wa_repository_id a)),
     (''number'', JInt (wa_number a)), (''state'', JStr ''open''), (''head_sha'', wa_head_sha a), (''labels'', JArr [JStr (wa_label a)])]"

definition inventory_json :: "inventory_env \<Rightarrow> inventory \<Rightarrow> jsval" where
  "inventory_json env found = JObj [(''principal'', JStr ''github_app_installation''),
     (''authority'', JStr ''EXISTING_GITHUB_APP_INSTALLATION''), (''repository_scope'', JStr ''INSTALLATION_APPROVED_ONLY''),
     (''installation_id'', JStr (in_installation_id found)), (''total_visible_repositories'', JInt (int (length (in_repositories found)))),
     (''enumerated_open_pull_requests'', JInt (int (ty_open (in_tally found)))), (''consistency'', JStr ''NON_ATOMIC_ENUMERATION''),
     (''worker_assignments'', JArr (map assignment_json (sort_assignments (ie_localeCompare env) (ty_assignments (in_tally found)))))]"

section \<open>What has been read\<close>

definition nodes_of :: "jsval \<Rightarrow> jsval list" where
  "nodes_of prs = the_arr (js_get prs ''nodes'')"

definition total_of :: "jsval \<Rightarrow> int" where
  "total_of prs = the_int (js_get prs ''totalCount'')"

definition number_of :: "jsval \<Rightarrow> int" where
  "number_of node = the_int (js_get node ''number'')"

text \<open>Every pull request read, with its repository, in the order of reading.\<close>

definition all_read :: "(repo \<times> jsval) list \<Rightarrow> (repo \<times> jsval) list" where
  "all_read pages = concat (map (\<lambda>(r, prs). map (Pair r) (nodes_of prs)) pages)"

definition pages_of :: "repo \<Rightarrow> (repo \<times> jsval) list \<Rightarrow> jsval list" where
  "pages_of r pages = map snd (filter (\<lambda>p. fst p = r) pages)"

definition read_of :: "repo \<Rightarrow> (repo \<times> jsval) list \<Rightarrow> jsval list" where
  "read_of r pages = map snd (filter (\<lambda>p. fst p = r) (all_read pages))"

text \<open>
  The repository has been enumerated: its pull requests have distinct numbers, they are as many as
  every page of it stated, and its last page said that no page follows.
\<close>

definition enumerated :: "(repo \<times> jsval) list \<Rightarrow> repo \<Rightarrow> bool" where
  "enumerated pages r \<longleftrightarrow> pages_of r pages \<noteq> [] \<and> distinct (map number_of (read_of r pages)) \<and>
     list_all (\<lambda>prs. total_of prs = int (length (read_of r pages))) (pages_of r pages) \<and> \<not> has_next (last (pages_of r pages))"

definition projection_of :: "repo \<times> jsval \<Rightarrow> string + worker_assignment option" where
  "projection_of x = (case x of (r, node) \<Rightarrow> prProjection (js_get node ''number'') (to_lower (or_empty (js_get node ''state'')))
     (js_get node ''headRefOid'') (js_get (js_get node ''labels'') ''nodes'') r)"

definition assignments_of :: "(repo \<times> jsval) list \<Rightarrow> worker_assignment list" where
  "assignments_of xs = concat (map (\<lambda>x. case projection_of x of Inr (Some a) \<Rightarrow> [a] | _ \<Rightarrow> []) xs)"

lemma all_read_snoc: "all_read (pages @ [(r, prs)]) = all_read pages @ map (Pair r) (nodes_of prs)"
  by (simp add: all_read_def)

lemma filter_pairs: "filter (\<lambda>p. fst p = r) (map (Pair r') xs) = (if r' = r then map (Pair r') xs else [])"
  by (induction xs) auto

lemma read_of_snoc:
  "read_of r (pages @ [(r', prs)]) = read_of r pages @ (if r' = r then nodes_of prs else [])"
  by (simp add: read_of_def all_read_snoc filter_pairs comp_def)

lemma pages_of_snoc: "pages_of r (pages @ [(r', prs)]) = pages_of r pages @ (if r' = r then [prs] else [])"
  by (simp add: pages_of_def)

lemma assignments_of_append: "assignments_of (xs @ ys) = assignments_of xs @ assignments_of ys"
  by (simp add: assignments_of_def)

section \<open>The loop invariant\<close>

definition found_ok :: "worker_assignment list \<Rightarrow> bool" where
  "found_ok found \<longleftrightarrow> distinct (map wa_worker found) \<and> length found \<le> MAX_ASSIGNMENTS"

definition tally_ok :: "tally \<Rightarrow> bool" where
  "tally_ok t \<longleftrightarrow> ty_assignments t = assignments_of (all_read (ty_pages t)) \<and> found_ok (ty_assignments t) \<and>
     ty_open t = length (all_read (ty_pages t)) \<and> ty_open t \<le> MAX_TOTAL_PRS \<and>
     list_all (\<lambda>x. \<exists>a. projection_of x = Inr a) (all_read (ty_pages t))"

definition job_ok :: "(repo \<times> jsval) list \<Rightarrow> job \<Rightarrow> bool" where
  "job_ok pages j \<longleftrightarrow> jb_numbers j = map number_of (read_of (jb_repo j) pages) \<and> distinct (jb_numbers j) \<and>
     list_all (\<lambda>prs. jb_total j = Some (total_of prs)) (pages_of (jb_repo j) pages)"

definition loop_ok :: "repo list \<Rightarrow> job list \<Rightarrow> tally \<Rightarrow> bool" where
  "loop_ok repos jobs t \<longleftrightarrow> distinct (map jb_repo jobs) \<and> set (map jb_repo jobs) \<subseteq> set repos \<and>
     (\<forall>j \<in> set jobs. job_ok (ty_pages t) j) \<and> (\<forall>r \<in> set repos - set (map jb_repo jobs). enumerated (ty_pages t) r) \<and> tally_ok t \<and>
     (\<forall>x \<in> set (ty_pages t). fst x \<in> set repos)"

lemma loop_ok_perm: "mset js = mset ks \<Longrightarrow> loop_ok repos js t \<Longrightarrow> loop_ok repos ks t"
proof -
  assume eq: "mset js = mset ks" and ok: "loop_ok repos js t"
  have "mset (map jb_repo js) = mset (map jb_repo ks)" using eq by simp
  from mset_eq_imp_distinct_iff [OF this] mset_eq_setD [OF this]
  have "distinct (map jb_repo js) = distinct (map jb_repo ks)" "set (map jb_repo js) = set (map jb_repo ks)" by blast+
  then show ?thesis using ok mset_eq_setD [OF eq] by (simp add: loop_ok_def)
qed

lemma read_node_Inr:
  assumes "read_node r node numbers found = Inr (numbers', found')" and "distinct numbers" and "found_ok found"
  shows "numbers' = numbers @ [number_of node] \<and> distinct numbers' \<and> found' = found @ assignments_of [(r, node)] \<and> found_ok found' \<and>
    (\<exists>a. projection_of (r, node) = Inr a)"
proof -
  obtain a where proj: "projection_of (r, node) = Inr a"
    using assms(1) by (auto simp: read_node_def projection_of_def Let_def split: if_splits sum.splits)
  then have "is_safe_integer (js_get node ''number'')"
    by (auto simp: projection_of_def prProjection_def split: if_splits)
  then have int: "js_get node ''number'' = JInt (number_of node)" by (auto simp: number_of_def js_simps)
  have fresh: "number_of node \<notin> set numbers"
    using assms(1) int by (auto simp: read_node_def Let_def list_ex_iff split: if_splits)
  show ?thesis
  proof (cases a)
    case None
    then have "numbers' = numbers @ [number_of node]" "found' = found"
      using assms(1) proj by (auto simp: read_node_def projection_of_def Let_def number_of_def split: if_splits)
    then show ?thesis using None proj assms(2,3) fresh by (simp add: assignments_of_def)
  next
    case (Some x)
    then have "numbers' = numbers @ [number_of node]" "found' = found @ [x]" "wa_worker x \<notin> set (map wa_worker found)"
      "\<not> MAX_ASSIGNMENTS < Suc (length found)"
      using assms(1) proj by (auto simp: read_node_def projection_of_def Let_def number_of_def split: if_splits)
    then show ?thesis using Some proj assms(2,3) fresh by (simp add: assignments_of_def found_ok_def)
  qed
qed

lemma read_nodes_Inr:
  assumes "read_nodes r nodes numbers found = Inr (numbers', found')" and "distinct numbers" and "found_ok found"
  shows "numbers' = numbers @ map number_of nodes \<and> distinct numbers' \<and> found' = found @ assignments_of (map (Pair r) nodes) \<and>
    found_ok found' \<and> list_all (\<lambda>x. \<exists>a. projection_of x = Inr a) (map (Pair r) nodes)"
  using assms
proof (induction nodes arbitrary: numbers found)
  case Nil
  then show ?case by (simp add: assignments_of_def)
next
  case (Cons node nodes)
  then obtain n1 f1 where first: "read_node r node numbers found = Inr (n1, f1)" "read_nodes r nodes n1 f1 = Inr (numbers', found')"
    by (auto split: sum.splits)
  note one = read_node_Inr [OF first(1) Cons.prems(2,3)]
  note rest = Cons.IH [OF first(2)]
  have "assignments_of ((r, node) # map (Pair r) nodes) = assignments_of [(r, node)] @ assignments_of (map (Pair r) nodes)"
    using assignments_of_append [of "[(r, node)]" "map (Pair r) nodes"] by simp
  moreover have "distinct n1" "found_ok f1" using one by blast+
  note rest = rest [OF this]
  ultimately show ?case using one rest by (simp only: list.map append_assoc append_Cons append_Nil list.pred_inject(2))
qed

lemma read_page_Inr:
  assumes "read_page j item t = Inr (again, t')"
  obtains numbers found where
    "read_nodes (jb_repo j) (nodes_of (js_get item ''pullRequests'')) (jb_numbers j) (ty_assignments t) = Inr (numbers, found)"
    "t' = \<lparr>ty_assignments = found, ty_open = ty_open t + length (nodes_of (js_get item ''pullRequests'')),
       ty_pages = ty_pages t @ [(jb_repo j, js_get item ''pullRequests'')]\<rparr>"
    "ty_open t' \<le> MAX_TOTAL_PRS" "jb_total j = None \<or> jb_total j = Some (total_of (js_get item ''pullRequests''))"
    "case again of None \<Rightarrow> \<not> has_next (js_get item ''pullRequests'') \<and> int (length numbers) = total_of (js_get item ''pullRequests'')
      | Some j' \<Rightarrow> jb_repo j' = jb_repo j \<and> jb_total j' = Some (total_of (js_get item ''pullRequests'')) \<and> jb_numbers j' = numbers"
proof -
  let ?prs = "js_get item ''pullRequests''"
  obtain numbers found where nodes: "read_nodes (jb_repo j) (nodes_of ?prs) (jb_numbers j) (ty_assignments t) = Inr (numbers, found)"
    using assms by (auto simp: read_page_def nodes_of_def Let_def split: if_splits sum.splits)
  note unfolded = assms [unfolded read_page_def Let_def, folded nodes_of_def total_of_def, unfolded nodes]
  have "\<not> MAX_TOTAL_PRS < ty_open t + length (nodes_of ?prs)" "jb_total j = None \<or> jb_total j = Some (total_of ?prs)"
    using unfolded by (simp_all split: if_splits)
  moreover have "t' = \<lparr>ty_assignments = found, ty_open = ty_open t + length (nodes_of ?prs), ty_pages = ty_pages t @ [(jb_repo j, ?prs)]\<rparr>"
    using unfolded by (simp split: if_splits)
  moreover have "case again of None \<Rightarrow> \<not> has_next ?prs \<and> int (length numbers) = total_of ?prs
      | Some j' \<Rightarrow> jb_repo j' = jb_repo j \<and> jb_total j' = Some (total_of ?prs) \<and> jb_numbers j' = numbers"
    using unfolded by (auto split: if_splits)
  ultimately show thesis using nodes by (intro that) simp_all
qed

lemma loop_ok_page:
  assumes ok: "loop_ok repos (j # rest) t" and page: "read_page j item t = Inr (again, t')"
  shows "loop_ok repos ((case again of None \<Rightarrow> [] | Some j' \<Rightarrow> [j']) @ rest) t'"
proof -
  let ?prs = "js_get item ''pullRequests''" and ?r = "jb_repo j"
  obtain numbers found where nodes: "read_nodes ?r (nodes_of ?prs) (jb_numbers j) (ty_assignments t) = Inr (numbers, found)"
    and t': "t' = \<lparr>ty_assignments = found, ty_open = ty_open t + length (nodes_of ?prs), ty_pages = ty_pages t @ [(?r, ?prs)]\<rparr>"
    and cap: "ty_open t' \<le> MAX_TOTAL_PRS" and total: "jb_total j = None \<or> jb_total j = Some (total_of ?prs)"
    and next_page: "case again of None \<Rightarrow> \<not> has_next ?prs \<and> int (length numbers) = total_of ?prs
      | Some j' \<Rightarrow> jb_repo j' = ?r \<and> jb_total j' = Some (total_of ?prs) \<and> jb_numbers j' = numbers"
    by (rule read_page_Inr [OF page])
  have j: "job_ok (ty_pages t) j" and tally: "tally_ok t" and sub: "?r \<in> set repos"
    and dist: "?r \<notin> set (map jb_repo rest)" "distinct (map jb_repo rest)"
    using ok by (auto simp: loop_ok_def)
  have "distinct (jb_numbers j)" "found_ok (ty_assignments t)" using j tally unfolding job_ok_def tally_ok_def by blast+
  note read = read_nodes_Inr [OF nodes this]
  have "jb_numbers j = map number_of (read_of ?r (ty_pages t))" using j by (simp add: job_ok_def)
  then have numbers: "numbers = map number_of (read_of ?r (ty_pages t'))" using read t' by (simp add: read_of_snoc)
  have dist_numbers: "distinct numbers" using read by blast
  have tally': "tally_ok t'"
    using read tally t' cap unfolding tally_ok_def by (elim conjE) (simp add: all_read_snoc assignments_of_append)
  have totals: "list_all (\<lambda>prs. total_of prs = total_of ?prs) (pages_of ?r (ty_pages t'))"
    using j total t' by (auto simp: job_ok_def pages_of_snoc list_all_iff)
  have same: "read_of r (ty_pages t') = read_of r (ty_pages t)" "pages_of r (ty_pages t') = pages_of r (ty_pages t)" if "r \<noteq> ?r" for r
    using that t' by (auto simp: read_of_snoc pages_of_snoc)
  have others: "\<forall>i \<in> set rest. job_ok (ty_pages t') i"
  proof
    fix i assume i: "i \<in> set rest"
    then have "jb_repo i \<noteq> ?r" using dist(1) by (metis image_eqI set_map)
    moreover have "job_ok (ty_pages t) i" using ok i by (simp add: loop_ok_def)
    ultimately show "job_ok (ty_pages t') i" using same [of "jb_repo i"] by (auto simp: job_ok_def)
  qed
  have finished: "\<forall>r \<in> set repos - set (map jb_repo (j # rest)). enumerated (ty_pages t') r"
  proof
    fix r assume r: "r \<in> set repos - set (map jb_repo (j # rest))"
    then have "r \<noteq> ?r" "enumerated (ty_pages t) r" using ok by (auto simp: loop_ok_def)
    then show "enumerated (ty_pages t') r" using same [of r] by (simp add: enumerated_def)
  qed
  have inside: "\<forall>x \<in> set (ty_pages t'). fst x \<in> set repos" using ok sub t' by (auto simp: loop_ok_def)
  show ?thesis
  proof (cases again)
    case None
    then have len: "total_of ?prs = int (length (read_of ?r (ty_pages t')))" "\<not> has_next ?prs"
      using next_page numbers by simp_all
    have "last (pages_of ?r (ty_pages t')) = ?prs" "pages_of ?r (ty_pages t') \<noteq> []" using t' by (simp_all add: pages_of_snoc)
    then have "enumerated (ty_pages t') ?r" using numbers dist_numbers totals len by (auto simp: enumerated_def list_all_iff)
    then have "\<forall>r \<in> set repos - set (map jb_repo rest). enumerated (ty_pages t') r"
      using finished by auto
    then show ?thesis using None ok dist others tally' inside by (simp add: loop_ok_def)
  next
    case (Some j')
    then have "job_ok (ty_pages t') j'" "jb_repo j' = ?r" using next_page numbers dist_numbers totals by (auto simp: job_ok_def list_all_iff)
    then show ?thesis using Some ok dist others finished tally' inside by (simp add: loop_ok_def)
  qed
qed

lemma loop_ok_batch:
  "loop_ok repos (jobs @ others) t \<Longrightarrow> read_batch i jobs data t = Inr (again, t') \<Longrightarrow> loop_ok repos (others @ again) t'"
proof (induction jobs arbitrary: i others t again)
  case Nil
  then show ?case by simp
next
  case (Cons j jobs)
  let ?item = "js_get data (''r'' @ int_string (int i))"
  obtain pushed t1 jobs' where one: "read_page j ?item t = Inr (pushed, t1)" and rest: "read_batch (Suc i) jobs data t1 = Inr (jobs', t')"
    and again: "again = (case pushed of None \<Rightarrow> [] | Some j' \<Rightarrow> [j']) @ jobs'"
    using Cons.prems(2) by (auto split: sum.splits)
  let ?p = "case pushed of None \<Rightarrow> [] | Some j' \<Rightarrow> [j']"
  have "loop_ok repos (j # jobs @ others) t" using Cons.prems(1) by simp
  from loop_ok_page [OF this one] have "loop_ok repos (jobs @ (others @ ?p)) t1"
    by (rule loop_ok_perm [rotated]) (simp add: ac_simps)
  from Cons.IH [OF this rest] show ?case using again by simp
qed

lemma loop_ok_end:
  "loop_ok repos jobs t \<Longrightarrow> inventory_loop env token calls jobs t trail = (Inr t', trail') \<Longrightarrow> loop_ok repos [] t'"
proof (induction env token calls jobs t trail rule: inventory_loop.induct)
  case (1 env token calls jobs t trail)
  show ?case
  proof (cases "jobs = []")
    case True
    then show ?thesis using "1.prems" by (subst (asm) inventory_loop.simps) simp
  next
    case False
    let ?batch = "take GRAPHQL_BATCH_SIZE jobs"
    have le: "\<not> MAX_GRAPHQL_CALLS \<le> calls"
      using "1.prems"(2) False by (subst (asm) inventory_loop.simps) (auto split: if_splits)
    obtain payload trail1 where payload: "fetch_json env ''PULL_REQUESTS'' ''ADMIN_ASSIGNMENT_PULL_REQUESTS_INVALID''
        (graph_request token ?batch) trail = (Inr payload, trail1)"
      using "1.prems"(2) False le by (subst (asm) inventory_loop.simps) (auto simp: Let_def split: prod.splits sum.splits)
    have shape: "\<not> (has_errors (js_get payload ''errors'') \<or> \<not> is_reference (js_get payload ''data''))"
      using "1.prems"(2) False le payload by (subst (asm) inventory_loop.simps) (auto simp: Let_def split: if_splits)
    obtain again t1 where batch: "read_batch 0 ?batch (js_get payload ''data'') t = Inr (again, t1)"
      and rest: "inventory_loop env token (Suc calls) (drop GRAPHQL_BATCH_SIZE jobs @ again) t1 trail1 = (Inr t', trail')"
      using "1.prems"(2) False le payload shape by (subst (asm) inventory_loop.simps) (auto simp: Let_def split: sum.splits)
    have "loop_ok repos (?batch @ drop GRAPHQL_BATCH_SIZE jobs) t" using "1.prems"(1) by simp
    from loop_ok_batch [OF this batch] show ?thesis
      using "1.IH" [OF False le refl payload [symmetric] refl shape batch refl _ rest] by blast
  qed
qed

section \<open>Requests\<close>

lemma fetch_json_length: "length (snd (fetch_json env stage reason rq trail)) = Suc (length trail)"
  by (simp add: fetch_json_def split: sum.split)

lemma fetch_json_result: "fetch_json env stage reason rq trail = (r, trail') \<Longrightarrow> length trail' = Suc (length trail)"
  using fetch_json_length [of env stage reason rq trail] by simp

lemma list_repositories_length:
  "length (snd (list_repositories env token pages stated repos trail)) \<le> length trail + length pages"
proof (induction pages arbitrary: stated repos trail)
  case Nil
  then show ?case by simp
next
  case (Cons page pages)
  show ?case
  proof (cases "fetch_json env ''REPOSITORIES'' ''ADMIN_ASSIGNMENT_REPOSITORIES_INVALID'' (repositories_request token page) trail")
    case (Pair r trail')
    then show ?thesis using fetch_json_result [OF Pair] Cons.IH [of _ _ trail']
      by (auto split: sum.split)
  qed
qed

lemma inventory_loop_length:
  "length (snd (inventory_loop env token calls jobs t trail)) \<le> length trail + (MAX_GRAPHQL_CALLS - calls)"
proof (induction env token calls jobs t trail rule: inventory_loop.induct)
  case (1 env token calls jobs t trail)
  let ?batch = "take GRAPHQL_BATCH_SIZE jobs"
  show ?case
  proof (cases "jobs = [] \<or> MAX_GRAPHQL_CALLS \<le> calls")
    case True
    then show ?thesis by (subst inventory_loop.simps) auto
  next
    case False
    obtain r trail1 where fetched: "fetch_json env ''PULL_REQUESTS'' ''ADMIN_ASSIGNMENT_PULL_REQUESTS_INVALID''
        (graph_request token ?batch) trail = (r, trail1)" by (metis surj_pair)
    have step: "length trail1 = Suc (length trail)" using fetch_json_result [OF fetched] .
    show ?thesis
    proof (cases "\<exists>payload again t'. r = Inr payload \<and> \<not> (has_errors (js_get payload ''errors'') \<or> \<not> is_reference (js_get payload ''data'')) \<and>
        read_batch 0 ?batch (js_get payload ''data'') t = Inr (again, t')")
      case True
      then obtain payload again t' where ok: "r = Inr payload"
          "\<not> (has_errors (js_get payload ''errors'') \<or> \<not> is_reference (js_get payload ''data''))"
          "read_batch 0 ?batch (js_get payload ''data'') t = Inr (again, t')" by blast
      have "inventory_loop env token calls jobs t trail =
          inventory_loop env token (Suc calls) (drop GRAPHQL_BATCH_SIZE jobs @ again) t' trail1"
        using False fetched ok by (subst inventory_loop.simps) (simp add: Let_def)
      moreover have "length (snd (inventory_loop env token (Suc calls) (drop GRAPHQL_BATCH_SIZE jobs @ again) t' trail1)) \<le>
          length trail1 + (MAX_GRAPHQL_CALLS - Suc calls)"
        using "1.IH" [OF _ _ refl fetched [symmetric] ok(1,2,3) refl] False by blast
      moreover have "length trail1 + (MAX_GRAPHQL_CALLS - Suc calls) = length trail + (MAX_GRAPHQL_CALLS - calls)"
        using step False by auto
      ultimately show ?thesis by (simp only:)
    next
      case no: False
      then have "snd (inventory_loop env token calls jobs t trail) = trail1"
        using False fetched by (subst inventory_loop.simps) (auto simp: Let_def split: sum.split)
      then show ?thesis using step False by auto
    qed
  qed
qed

lemma resolve_length: "length (snd (resolve_installation env)) \<le> 2"
  by (auto simp: resolve_installation_def Let_def dest!: fetch_json_result split: option.split sum.split prod.split)

lemma loop_result_length:
  "inventory_loop env token calls jobs t trail = (r, trail') \<Longrightarrow> length trail' \<le> length trail + (MAX_GRAPHQL_CALLS - calls)"
  using inventory_loop_length [of env token calls jobs t trail] by simp

lemma repositories_result_length:
  "list_repositories env token repository_pages stated repos trail = (r, trail') \<Longrightarrow> length trail' \<le> Suc (length trail)"
  using list_repositories_length [of env token repository_pages stated repos trail]
  by (simp add: repository_pages_def MAX_REPOS_def PER_PAGE_def)

text \<open>
  Whatever GitHub answers, the inventory returns or fails after at most forty-three requests: the
  installation, the token, one page of repositories and at most forty queries.
\<close>

theorem inventory_requests_bounded: "length (snd (listInstalledWorkerAssignments env)) \<le> 43"
proof -
  have budget: "MAX_GRAPHQL_CALLS = 40" by (simp add: MAX_GRAPHQL_CALLS_def)
  obtain r trail where one: "resolve_installation env = (r, trail)" "length trail \<le> 2"
    using resolve_length [of env] by (cases "resolve_installation env") simp
  have two: "length trail' \<le> 3" if "list_repositories env token repository_pages None [] trail = (q, trail')" for token q trail'
    using repositories_result_length [OF that] one(2) by simp
  have three: "length trail'' \<le> 43" if "list_repositories env token repository_pages None [] trail = (q, trail')"
    "inventory_loop env token 0 jobs t trail' = (s, trail'')" for token q trail' jobs t s trail''
    using loop_result_length [OF that(2)] two [OF that(1)] budget by simp
  show ?thesis unfolding listInstalledWorkerAssignments_def one(1)
    using one(2) by (auto split: sum.split prod.split dest: two three intro: order_trans)
qed

section \<open>The result\<close>

lemma validRepo_Inr:
  "validRepo item = Inr r \<Longrightarrow> 0 < rp_id r \<and> safe_int (rp_id r) \<and> repository_re (rp_name r) \<and>
     \<not> bad_part (fst (split_name (rp_name r))) \<and> \<not> bad_part (snd (split_name (rp_name r)))"
  by (auto simp: validRepo_def Let_def js_simps split: if_splits)

definition repos_ok :: "repo list \<Rightarrow> bool" where
  "repos_ok repos \<longleftrightarrow> distinct (map rp_id repos) \<and> distinct (map (to_lower \<circ> rp_name) repos) \<and>
     list_all (\<lambda>r. 0 < rp_id r \<and> safe_int (rp_id r) \<and> repository_re (rp_name r) \<and>
       \<not> bad_part (fst (split_name (rp_name r))) \<and> \<not> bad_part (snd (split_name (rp_name r)))) repos"

lemma add_repositories_ok:
  "add_repositories items repos = Inr repos' \<Longrightarrow> repos_ok repos \<Longrightarrow> repos_ok repos' \<and> length repos' = length repos + length items"
proof (induction items arbitrary: repos)
  case Nil
  then show ?case by simp
next
  case (Cons item items)
  then obtain r where r: "validRepo item = Inr r" "rp_id r \<notin> set (map rp_id repos)"
      "to_lower (rp_name r) \<notin> set (map (to_lower \<circ> rp_name) repos)" "add_repositories items (repos @ [r]) = Inr repos'"
    by (auto split: sum.splits if_splits)
  have "repos_ok (repos @ [r])" using Cons.prems(2) r(2,3) validRepo_Inr [OF r(1)] by (simp add: repos_ok_def)
  from Cons.IH [OF r(4) this] show ?case by simp
qed

lemma list_repositories_ok:
  "list_repositories env token pages stated repos trail = (Inr (stated', repos'), trail') \<Longrightarrow> repos_ok repos \<Longrightarrow>
     (case stated of None \<Rightarrow> True | Some n \<Rightarrow> n \<le> int MAX_REPOS) \<Longrightarrow>
     repos_ok repos' \<and> (case stated' of None \<Rightarrow> True | Some n \<Rightarrow> n \<le> int MAX_REPOS)"
proof (induction pages arbitrary: stated repos trail)
  case Nil
  then show ?case by simp
next
  case (Cons page pages)
  obtain data trail1 where data: "fetch_json env ''REPOSITORIES'' ''ADMIN_ASSIGNMENT_REPOSITORIES_INVALID'' (repositories_request token page) trail =
      (Inr data, trail1)"
    using Cons.prems(1) by (auto split: prod.splits sum.splits)
  have shape: "repositories_page data stated" using Cons.prems(1) data by (auto split: if_splits)
  obtain repos1 where repos1: "add_repositories (the_arr (js_get data ''repositories'')) repos = Inr repos1"
    using Cons.prems(1) data shape by (auto split: sum.splits)
  have small: "the_int (js_get data ''total_count'') \<le> int MAX_REPOS" using shape by (simp add: repositories_page_def)
  have ok1: "repos_ok repos1" using add_repositories_ok [OF repos1 Cons.prems(2)] by blast
  show ?case using Cons.prems(1) data shape repos1 small ok1 Cons.IH [OF _ ok1, of "Some (the_int (js_get data ''total_count''))" trail1]
    by (auto split: if_splits)
qed

lemma start_ok: "distinct repos \<Longrightarrow> loop_ok repos (map new_job repos) empty_tally"
  by (auto simp: loop_ok_def new_job_def comp_def job_ok_def tally_ok_def empty_tally_def read_of_def pages_of_def all_read_def
      assignments_of_def found_ok_def)

lemma inventory_facts:
  assumes "listInstalledWorkerAssignments env = (Inr found, trail)"
  shows "repos_ok (in_repositories found) \<and> loop_ok (in_repositories found) [] (in_tally found) \<and>
    repositories_complete (Some (int (length (in_repositories found)))) (in_repositories found) \<and>
    length (in_repositories found) \<le> MAX_REPOS \<and> install_re (in_installation_id found)"
proof -
  obtain i token trail1 where one: "resolve_installation env = (Inr (i, token), trail1)"
    using assms by (auto simp: listInstalledWorkerAssignments_def split: prod.splits sum.splits)
  obtain stated repos trail2 where two: "list_repositories env token repository_pages None [] trail1 = (Inr (stated, repos), trail2)"
    using assms one by (auto simp: listInstalledWorkerAssignments_def split: prod.splits sum.splits)
  have complete: "repositories_complete stated repos"
    using assms one two by (auto simp: listInstalledWorkerAssignments_def split: if_splits)
  obtain t trail3 where three: "inventory_loop env token 0 (map new_job repos) empty_tally trail2 = (Inr t, trail3)"
    using assms one two complete by (auto simp: listInstalledWorkerAssignments_def split: prod.splits sum.splits)
  have found: "found = \<lparr>in_installation_id = i, in_repositories = repos, in_tally = t\<rparr>"
    using assms one two complete three by (simp add: listInstalledWorkerAssignments_def)
  have repos: "repos_ok repos" "case stated of None \<Rightarrow> True | Some n \<Rightarrow> n \<le> int MAX_REPOS"
    using list_repositories_ok [OF two] by (simp_all add: repos_ok_def)
  have "install_re i"
    using one by (auto simp: resolve_installation_def installation_of_def Let_def split: if_splits option.splits sum.splits prod.splits)
  moreover have "stated = Some (int (length repos))" using complete by (simp add: repositories_complete_def)
  moreover have "distinct repos" using repos(1) by (simp add: repos_ok_def distinct_map)
  ultimately show ?thesis using found repos complete loop_ok_end [OF start_ok three] by simp
qed

section \<open>What GitHub answered\<close>

lemma fetch_json_Inr:
  "fetch_json env stage reason rq trail = (Inr data, trail') \<Longrightarrow>
    trail' = trail @ [rq] \<and> (\<exists>status. ie_fetch env (length trail) rq = Response status True (Some data))"
  by (auto simp: fetch_json_def safeFetch_def json_or_reject_def split: sum.splits fetched.splits if_splits option.splits)

text \<open>The page was read for its repository from the answer to one of the requests made.\<close>

definition page_answered :: "inventory_env \<Rightarrow> api_request list \<Rightarrow> repo \<times> jsval \<Rightarrow> bool" where
  "page_answered env trail x \<longleftrightarrow> (\<exists>n status payload k. n < length trail \<and>
     ie_fetch env n (trail ! n) = Response status True (Some payload) \<and>
     js_get (js_get (js_get payload ''data'') k) ''databaseId'' = JInt (rp_id (fst x)) \<and>
     js_get (js_get (js_get payload ''data'') k) ''pullRequests'' = snd x)"

lemma answered_later: "page_answered env trail x \<Longrightarrow> page_answered env (trail @ rest) x"
  unfolding page_answered_def by (metis length_append nth_append trans_less_add1)

lemma answered_now:
  "ie_fetch env (length trail) rq = Response status True (Some payload) \<Longrightarrow>
    js_get (js_get (js_get payload ''data'') k) ''databaseId'' = JInt (rp_id (fst x)) \<Longrightarrow>
    js_get (js_get (js_get payload ''data'') k) ''pullRequests'' = snd x \<Longrightarrow> page_answered env (trail @ [rq]) x"
  unfolding page_answered_def by (intro exI [of _ "length trail"] exI [of _ status] exI [of _ payload] exI [of _ k]) simp

lemma read_page_of_answer:
  "read_page j item t = Inr (again, t') \<Longrightarrow>
    ty_pages t' = ty_pages t @ [(jb_repo j, js_get item ''pullRequests'')] \<and> js_get item ''databaseId'' = JInt (rp_id (jb_repo j))"
  by (rule read_page_Inr, assumption) (simp add: read_page_def Let_def split: if_splits)

lemma read_batch_answered:
  "read_batch i jobs (js_get payload ''data'') t = Inr (again, t') \<Longrightarrow>
    ie_fetch env (length trail) rq = Response status True (Some payload) \<Longrightarrow>
    list_all (page_answered env (trail @ [rq])) (ty_pages t) \<Longrightarrow> list_all (page_answered env (trail @ [rq])) (ty_pages t')"
proof (induction jobs arbitrary: i t again)
  case (Cons j jobs)
  obtain pushed t1 jobs' where
      one: "read_page j (js_get (js_get payload ''data'') (''r'' @ int_string (int i))) t = Inr (pushed, t1)"
    and rest: "read_batch (Suc i) jobs (js_get payload ''data'') t1 = Inr (jobs', t')"
    using Cons.prems(1) by (auto split: sum.splits)
  from read_page_of_answer [OF one] have "list_all (page_answered env (trail @ [rq])) (ty_pages t1)"
    using Cons.prems(3) answered_now [OF Cons.prems(2), of "''r'' @ int_string (int i)"
      "(jb_repo j, js_get (js_get (js_get payload ''data'') (''r'' @ int_string (int i))) ''pullRequests'')"] by simp
  from Cons.IH [OF rest Cons.prems(2) this] show ?case .
qed simp

lemma inventory_loop_answered:
  "list_all (page_answered env trail) (ty_pages t) \<Longrightarrow> inventory_loop env token calls jobs t trail = (Inr t', trail') \<Longrightarrow>
    list_all (page_answered env trail') (ty_pages t')"
proof (induction env token calls jobs t trail rule: inventory_loop.induct)
  case (1 env token calls jobs t trail)
  show ?case
  proof (cases "jobs = []")
    case True
    then show ?thesis using "1.prems" by (subst (asm) inventory_loop.simps) simp
  next
    case False
    let ?batch = "take GRAPHQL_BATCH_SIZE jobs"
    have le: "\<not> MAX_GRAPHQL_CALLS \<le> calls"
      using "1.prems"(2) False by (subst (asm) inventory_loop.simps) (auto split: if_splits)
    obtain payload trail1 where payload: "fetch_json env ''PULL_REQUESTS'' ''ADMIN_ASSIGNMENT_PULL_REQUESTS_INVALID''
        (graph_request token ?batch) trail = (Inr payload, trail1)"
      using "1.prems"(2) False le by (subst (asm) inventory_loop.simps) (auto simp: Let_def split: prod.splits sum.splits)
    have shape: "\<not> (has_errors (js_get payload ''errors'') \<or> \<not> is_reference (js_get payload ''data''))"
      using "1.prems"(2) False le payload by (subst (asm) inventory_loop.simps) (auto simp: Let_def split: if_splits)
    obtain again t1 where batch: "read_batch 0 ?batch (js_get payload ''data'') t = Inr (again, t1)"
      and rest: "inventory_loop env token (Suc calls) (drop GRAPHQL_BATCH_SIZE jobs @ again) t1 trail1 = (Inr t', trail')"
      using "1.prems"(2) False le payload shape by (subst (asm) inventory_loop.simps) (auto simp: Let_def split: sum.splits)
    obtain status where trail1: "trail1 = trail @ [graph_request token ?batch]"
      and got: "ie_fetch env (length trail) (graph_request token ?batch) = Response status True (Some payload)"
      using fetch_json_Inr [OF payload] by blast
    have "list_all (page_answered env trail1) (ty_pages t)"
      using "1.prems"(1) answered_later unfolding trail1 list_all_iff by blast
    from read_batch_answered [OF batch got this [unfolded trail1]] show ?thesis
      using "1.IH" [OF False le refl payload [symmetric] refl shape batch refl _ rest] unfolding trail1 by blast
  qed
qed

lemma add_repositories_map:
  "add_repositories items repos = Inr repos' \<Longrightarrow>
    \<exists>added. repos' = repos @ added \<and> map validRepo items = map Inr added"
proof (induction items arbitrary: repos)
  case (Cons item items)
  then obtain r where r: "validRepo item = Inr r" "add_repositories items (repos @ [r]) = Inr repos'"
    by (auto split: sum.splits if_splits)
  from Cons.IH [OF r(2)] obtain added where "repos' = repos @ r # added" "map validRepo items = map Inr added" by auto
  then show ?case using r(1) by (intro exI [of _ "r # added"]) simp
qed simp

text \<open>
  The repositories are those of GitHub's one page: each entry of it read as a repository, in its order,
  and as many as its \<open>total_count\<close> states.
\<close>

definition repositories_answered :: "inventory_env \<Rightarrow> string \<Rightarrow> nat \<Rightarrow> repo list \<Rightarrow> bool" where
  "repositories_answered env token n repos \<longleftrightarrow> (\<exists>status data.
     ie_fetch env n (repositories_request token 1) = Response status True (Some data) \<and>
     map validRepo (the_arr (js_get data ''repositories'')) = map Inr repos \<and>
     js_get data ''total_count'' = JInt (int (length repos)))"

lemma list_repositories_answered:
  assumes "list_repositories env token repository_pages None [] trail = (Inr (stated, repos), trail')"
    and "repositories_complete stated repos"
  shows "repositories_answered env token (length trail) repos"
proof -
  have pages: "repository_pages = [1]" by code_simp
  obtain data trail1 where data: "fetch_json env ''REPOSITORIES'' ''ADMIN_ASSIGNMENT_REPOSITORIES_INVALID'' (repositories_request token 1) trail =
      (Inr data, trail1)"
    using assms(1) unfolding pages by (auto split: prod.splits sum.splits)
  have shape: "repositories_page data None" using assms(1) data unfolding pages by (auto split: if_splits)
  obtain repos1 where repos1: "add_repositories (the_arr (js_get data ''repositories'')) [] = Inr repos1"
    using assms(1) data shape unfolding pages by (auto split: sum.splits)
  have "stated = Some (the_int (js_get data ''total_count''))" "repos = repos1"
    using assms(1) data shape repos1 unfolding pages by (auto split: if_splits)
  moreover have "js_get data ''total_count'' = JInt (the_int (js_get data ''total_count''))"
    using shape by (auto simp: repositories_page_def js_simps)
  ultimately show ?thesis
    using fetch_json_Inr [OF data] add_repositories_map [OF repos1] assms(2)
    by (auto simp: repositories_answered_def repositories_complete_def)
qed

lemma inventory_answers:
  assumes "listInstalledWorkerAssignments env = (Inr found, trail)"
  shows "(\<exists>token asked. resolve_installation env = (Inr (in_installation_id found, token), asked) \<and>
      repositories_answered env token (length asked) (in_repositories found)) \<and>
    list_all (page_answered env trail) (ty_pages (in_tally found))"
proof -
  obtain i token trail1 where one: "resolve_installation env = (Inr (i, token), trail1)"
    using assms by (auto simp: listInstalledWorkerAssignments_def split: prod.splits sum.splits)
  obtain stated repos trail2 where two: "list_repositories env token repository_pages None [] trail1 = (Inr (stated, repos), trail2)"
    using assms one by (auto simp: listInstalledWorkerAssignments_def split: prod.splits sum.splits)
  have complete: "repositories_complete stated repos"
    using assms one two by (auto simp: listInstalledWorkerAssignments_def split: if_splits)
  obtain t trail3 where three: "inventory_loop env token 0 (map new_job repos) empty_tally trail2 = (Inr t, trail3)"
    using assms one two complete by (auto simp: listInstalledWorkerAssignments_def split: prod.splits sum.splits)
  have found: "found = \<lparr>in_installation_id = i, in_repositories = repos, in_tally = t\<rparr>" "trail3 = trail"
    using assms one two complete three by (simp_all add: listInstalledWorkerAssignments_def)
  have "list_all (page_answered env trail) (ty_pages t)"
    using inventory_loop_answered [OF _ three] found(2) by (simp add: empty_tally_def)
  then show ?thesis using found(1) one list_repositories_answered [OF two complete] by auto
qed

text \<open>
  C24: when the inventory returns, the repositories are those GitHub listed for the installation: in the
  answer to the one request for them, with the token minted for that installation, every entry was
  read as a repository and they are as many as its \<open>total_count\<close>. The control repository is among them,
  and every one of them has been enumerated: the pull requests read for it have distinct numbers, they are
  as many as every page of it stated, its last page said that none follows, and every page is part of
  GitHub's answer to one of the requests, for a repository of that ID. The assignments are the
  projections of the pull requests read, in that order: nothing with a worker label is left out or
  added, no projection failed, and no worker has two pull requests.
\<close>

theorem inventory_is_complete:
  assumes "listInstalledWorkerAssignments env = (Inr found, trail)"
  shows "(\<exists>token asked status data. resolve_installation env = (Inr (in_installation_id found, token), asked) \<and>
      ie_fetch env (length asked) (repositories_request token 1) = Response status True (Some data) \<and>
      map validRepo (the_arr (js_get data ''repositories'')) = map Inr (in_repositories found) \<and>
      js_get data ''total_count'' = JInt (int (length (in_repositories found)))) \<and>
    list_all (page_answered env trail) (ty_pages (in_tally found)) \<and>
    list_all (enumerated (ty_pages (in_tally found))) (in_repositories found) \<and>
    (\<exists>r. r \<in> set (in_repositories found) \<and> rp_id r = 1354026486 \<and> rp_name r = ''jan2xo/bke-worker'') \<and>
    set (map fst (ty_pages (in_tally found))) = set (in_repositories found) \<and>
    ty_assignments (in_tally found) = assignments_of (all_read (ty_pages (in_tally found))) \<and>
    list_all (\<lambda>x. \<exists>a. projection_of x = Inr a) (all_read (ty_pages (in_tally found))) \<and>
    distinct (map wa_worker (ty_assignments (in_tally found))) \<and>
    ty_open (in_tally found) = length (all_read (ty_pages (in_tally found)))"
proof -
  let ?pages = "ty_pages (in_tally found)"
  note facts = inventory_facts [OF assms]
  have each: "enumerated ?pages r" if "r \<in> set (in_repositories found)" for r
    using facts that by (auto simp: loop_ok_def)
  have "r \<in> set (map fst ?pages)" if "r \<in> set (in_repositories found)" for r
    using each [OF that] by (auto simp: enumerated_def pages_of_def filter_empty_conv)
  then have "set (map fst ?pages) = set (in_repositories found)"
    using facts by (auto simp: loop_ok_def)
  moreover have "tally_ok (in_tally found)" using facts by (simp add: loop_ok_def)
  moreover have "\<exists>r. r \<in> set (in_repositories found) \<and> rp_id r = 1354026486 \<and> rp_name r = ''jan2xo/bke-worker''"
    using facts by (auto simp: repositories_complete_def list_ex_iff)
  moreover have "list_all (enumerated ?pages) (in_repositories found)" using each by (simp add: list_all_iff)
  moreover have "\<exists>token asked status data. resolve_installation env = (Inr (in_installation_id found, token), asked) \<and>
      ie_fetch env (length asked) (repositories_request token 1) = Response status True (Some data) \<and>
      map validRepo (the_arr (js_get data ''repositories'')) = map Inr (in_repositories found) \<and>
      js_get data ''total_count'' = JInt (int (length (in_repositories found)))"
    using inventory_answers [OF assms] unfolding repositories_answered_def by blast
  moreover have "list_all (page_answered env trail) ?pages" using inventory_answers [OF assms] by blast
  ultimately show ?thesis unfolding tally_ok_def found_ok_def by (elim conjE) (intro conjI)
qed

section \<open>A sample installation\<close>

definition sample_repo :: repo where
  "sample_repo = \<lparr>rp_id = 1354026486, rp_name = ''jan2xo/bke-worker''\<rparr>"

definition sample_pull :: "int \<Rightarrow> string \<Rightarrow> jsval" where
  "sample_pull n l = JObj [(''number'', JInt n), (''state'', JStr ''OPEN''), (''headRefOid'', JStr (replicate 40 CHR ''a'')),
     (''labels'', JObj [(''nodes'', JArr [JObj [(''name'', JStr l)]]), (''pageInfo'', JObj [(''hasNextPage'', JBool False)])])]"

definition sample_page :: jsval where
  "sample_page = JObj [(''totalCount'', JInt 2), (''pageInfo'', JObj [(''hasNextPage'', JBool False), (''endCursor'', JNull)]),
     (''nodes'', JArr [sample_pull 13 ''bke-worker:bke-13'', sample_pull 14 ''bug''])]"

definition sample_answers :: "fetched list" where
  "sample_answers = [
     Response 200 True (Some (JObj [(''id'', JInt 42), (''repository_selection'', JStr ''selected''),
       (''permissions'', JObj [(''pull_requests'', JStr ''write'')])])),
     Response 201 True (Some (JObj [(''token'', JStr ''ghs_012345''), (''expires_at'', JStr ''t''),
       (''permissions'', JObj [(''metadata'', JStr ''read''), (''pull_requests'', JStr ''read'')])])),
     Response 200 True (Some (JObj [(''total_count'', JInt 1), (''repositories'', JArr [JObj [(''id'', JInt 1354026486), (''full_name'', JStr ''jan2xo/bke-worker'')]])])),
     Response 200 True (Some (JObj [(''data'', JObj [(''r0'', JObj [(''databaseId'', JInt 1354026486), (''nameWithOwner'', JStr ''jan2xo/bke-worker''),
       (''pullRequests'', sample_page)])])]))]"

definition sample_inventory_env :: inventory_env where
  "sample_inventory_env = \<lparr>ie_app_id = JStr ''7'', ie_pem = JStr ''pem'', ie_sign = \<lambda>a p. Some ''jwt'', ie_fetch = \<lambda>n rq. sample_answers ! n,
     ie_parse_date = \<lambda>s. Some 4600000, ie_now = 1000000, ie_localeCompare = \<lambda>a b. 0\<rparr>"

definition sample_owned :: worker_assignment where
  "sample_owned = \<lparr>wa_repository = ''jan2xo/bke-worker'', wa_repository_id = 1354026486, wa_number = 13,
     wa_head_sha = JStr (replicate 40 CHR ''a''), wa_label = ''bke-worker:bke-13''\<rparr>"

lemma sample_resolves:
  "\<exists>trail. resolve_installation sample_inventory_env = (Inr (''42'', ''ghs_012345''), trail) \<and> length trail = 2"
proof -
  have "app_id_re (js_trim (or_empty (JStr ''7'')))" "js_trim (or_empty (JStr ''pem'')) \<noteq> []" by code_simp+
  moreover have "installation_of (JObj [(''id'', JInt 42), (''repository_selection'', JStr ''selected''),
       (''permissions'', JObj [(''pull_requests'', JStr ''write'')])]) = Inr ''42''" by code_simp
  moreover have "validBearer (JStr ''ghs_012345'')" "exactGrant (JObj [(''metadata'', JStr ''read''), (''pull_requests'', JStr ''read'')])" by code_simp+
  ultimately show ?thesis
    by (simp add: resolve_installation_def sample_inventory_env_def sample_answers_def fetch_json_def safeFetch_def json_or_reject_def
        token_of_def Let_def)
qed

lemma sample_lists:
  assumes "length trail = 2"
  shows "list_repositories sample_inventory_env ''ghs_012345'' repository_pages None [] trail =
    (Inr (Some 1, [sample_repo]), trail @ [repositories_request ''ghs_012345'' 1])"
proof -
  have "validRepo (JObj [(''id'', JInt 1354026486), (''full_name'', JStr ''jan2xo/bke-worker'')]) = Inr sample_repo" by code_simp
  moreover have pages: "repository_pages = [1]" by code_simp
  ultimately show ?thesis using assms unfolding pages
    by (simp add: sample_inventory_env_def sample_answers_def fetch_json_def safeFetch_def json_or_reject_def
        repositories_page_def MAX_REPOS_def PER_PAGE_def safe_int_def max_safe_def)
qed

lemma sample_reads:
  "read_page (new_job sample_repo) (JObj [(''databaseId'', JInt 1354026486), (''nameWithOwner'', JStr ''jan2xo/bke-worker''),
     (''pullRequests'', sample_page)]) empty_tally =
   Inr (None, \<lparr>ty_assignments = [sample_owned], ty_open = 2, ty_pages = [(sample_repo, sample_page)]\<rparr>)"
  by code_simp

lemma sample_loop:
  assumes "length trail = 3"
  shows "\<exists>trail'. inventory_loop sample_inventory_env ''ghs_012345'' 0 [new_job sample_repo] empty_tally trail =
    (Inr \<lparr>ty_assignments = [sample_owned], ty_open = 2, ty_pages = [(sample_repo, sample_page)]\<rparr>, trail')"
proof -
  have r0: "''r'' @ int_string (int 0) = ''r0''" by code_simp
  have again: "inventory_loop env token (Suc 0) [] t tr = (Inr t, tr)" for env token t tr by (subst inventory_loop.simps) simp
  show ?thesis using assms sample_reads r0
    by (subst inventory_loop.simps) (simp add: sample_inventory_env_def sample_answers_def fetch_json_def safeFetch_def json_or_reject_def
        is_reference_def MAX_GRAPHQL_CALLS_def GRAPHQL_BATCH_SIZE_def again Let_def)
qed

lemma sample_inventory_run:
  "\<exists>trail. listInstalledWorkerAssignments sample_inventory_env =
    (Inr \<lparr>in_installation_id = ''42'', in_repositories = [sample_repo],
       in_tally = \<lparr>ty_assignments = [sample_owned], ty_open = 2, ty_pages = [(sample_repo, sample_page)]\<rparr>\<rparr>, trail)"
proof -
  obtain t1 where one: "resolve_installation sample_inventory_env = (Inr (''42'', ''ghs_012345''), t1)" "length t1 = 2"
    using sample_resolves by blast
  obtain t2 where two: "inventory_loop sample_inventory_env ''ghs_012345'' 0 [new_job sample_repo] empty_tally (t1 @ [repositories_request ''ghs_012345'' 1]) =
      (Inr \<lparr>ty_assignments = [sample_owned], ty_open = 2, ty_pages = [(sample_repo, sample_page)]\<rparr>, t2)"
    using sample_loop [of "t1 @ [repositories_request ''ghs_012345'' 1]"] one(2) by auto
  have "repositories_complete (Some 1) [sample_repo]" by code_simp
  then show ?thesis using one(1) sample_lists [OF one(2)] two by (simp add: listInstalledWorkerAssignments_def)
qed

theorem inventory_is_complete_witness:
  "\<exists>found trail. listInstalledWorkerAssignments sample_inventory_env = (Inr found, trail) \<and>
     ty_assignments (in_tally found) = [sample_owned] \<and> enumerated (ty_pages (in_tally found)) sample_repo \<and>
     list_all (page_answered sample_inventory_env trail) (ty_pages (in_tally found))"
proof -
  obtain trail where run: "listInstalledWorkerAssignments sample_inventory_env =
    (Inr \<lparr>in_installation_id = ''42'', in_repositories = [sample_repo],
       in_tally = \<lparr>ty_assignments = [sample_owned], ty_open = 2, ty_pages = [(sample_repo, sample_page)]\<rparr>\<rparr>, trail)"
    using sample_inventory_run by blast
  from inventory_is_complete [OF run] show ?thesis using run by simp
qed

end
