(* ===== verification/AdminBroker.thy ===== *)
theory AdminBroker imports AssignmentInventory
begin

text \<open>
  \<open>cloudflare-relay/src/admin-broker.js\<close>: the three private operations the command center calls. Each
  is locked by configuration, takes one exact request, and checks what its collaborator returns before
  it passes it on. The collaborators (\<open>mintAdminReadToken\<close>, \<open>listAdminInstalledRepositories\<close>,
  \<open>listInstalledWorkerAssignments\<close>) are arguments, as they are in the code.
\<close>

record broker_env =
  br_ADMIN_BROKER_ENABLED :: jsval
  br_ADMIN_REPO_CATALOG_ENABLED :: jsval
  br_ADMIN_PR_INVENTORY_ENABLED :: jsval

definition REQUIRED_REPOSITORY :: string where "REQUIRED_REPOSITORY = ''jan2xo/bke-worker''"

definition minted_ok :: "jsval \<Rightarrow> bool" where
  "minted_ok minted \<longleftrightarrow> truthy minted \<and> js_eq (js_get minted ''repository'') (JStr REQUIRED_REPOSITORY) \<and>
     js_eq (js_get minted ''principal'') (JStr ''github_app_installation'') \<and>
     join_comma (sort (js_keys (js_get minted ''permissions''))) = ''contents,issues,pull_requests'' \<and>
     js_eq (js_get (js_get minted ''permissions'') ''contents'') (JStr ''read'') \<and>
     js_eq (js_get (js_get minted ''permissions'') ''issues'') (JStr ''read'') \<and>
     js_eq (js_get (js_get minted ''permissions'') ''pull_requests'') (JStr ''read'')"

definition fulfillCommandCenterAdminRead :: "broker_env \<Rightarrow> jsval \<Rightarrow> string + jsval \<Rightarrow> string + jsval" where
  "fulfillCommandCenterAdminRead env request mint =
     (if \<not> js_eq (br_ADMIN_BROKER_ENABLED env) (JStr ''true'') then Inl ''ADMIN_BROKER_LOCKED''
      else if \<not> exact_joined request [''purpose'', ''repository''] \<or>
         \<not> js_eq (js_get request ''purpose'') (JStr ''admin_source_discovery'') \<or>
         \<not> js_eq (js_get request ''repository'') (JStr REQUIRED_REPOSITORY)
      then Inl ''ADMIN_BROKER_SCOPE_INVALID''
      else case mint of Inl e \<Rightarrow> Inl e
      | Inr minted \<Rightarrow> if minted_ok minted then Inr minted else Inl ''ADMIN_BROKER_TOKEN_SCOPE_INVALID'')"

definition catalog_ok :: "jsval \<Rightarrow> bool" where
  "catalog_ok result \<longleftrightarrow> truthy result \<and> js_eq (js_get result ''principal'') (JStr ''github_app_installation'') \<and>
     js_eq (js_get result ''authority'') (JStr ''EXISTING_GITHUB_APP_INSTALLATION'') \<and>
     js_eq (js_get result ''repository_scope'') (JStr ''INSTALLATION_APPROVED_ONLY'') \<and>
     is_JArr (js_get result ''repositories'') \<and>
     js_eq (js_get result ''total_visible'') (JInt (int (length (the_arr (js_get result ''repositories''))))) \<and>
     length (the_arr (js_get result ''repositories'')) \<le> 500"

definition fulfillCommandCenterAdminCatalog :: "broker_env \<Rightarrow> jsval \<Rightarrow> string + jsval \<Rightarrow> string + jsval" where
  "fulfillCommandCenterAdminCatalog env request collect =
     (if \<not> js_eq (br_ADMIN_BROKER_ENABLED env) (JStr ''true'') \<or> \<not> js_eq (br_ADMIN_REPO_CATALOG_ENABLED env) (JStr ''true'')
      then Inl ''ADMIN_CATALOG_LOCKED''
      else if \<not> exact_joined request [''purpose''] \<or>
         \<not> js_eq (js_get request ''purpose'') (JStr ''admin_installation_repository_catalog'')
      then Inl ''ADMIN_CATALOG_PURPOSE_INVALID''
      else case collect of Inl e \<Rightarrow> Inl e
      | Inr result \<Rightarrow> if catalog_ok result then Inr result else Inl ''ADMIN_CATALOG_RESULT_INVALID'')"

definition RESULT_FIELDS :: "string list" where
  "RESULT_FIELDS = [''authority'', ''consistency'', ''enumerated_open_pull_requests'', ''installation_id'', ''principal'',
     ''repository_scope'', ''total_visible_repositories'', ''worker_assignments'']"

definition ITEM_FIELDS :: "string list" where
  "ITEM_FIELDS = [''head_sha'', ''labels'', ''number'', ''repository'', ''repository_id'', ''state'']"

definition safe_between :: "int \<Rightarrow> int \<Rightarrow> jsval \<Rightarrow> bool" where
  "safe_between lo hi v \<longleftrightarrow> is_safe_integer v \<and> lo \<le> the_int v \<and> the_int v \<le> hi"

definition result_ok :: "jsval \<Rightarrow> bool" where
  "result_ok result \<longleftrightarrow> exact_joined result RESULT_FIELDS \<and>
     js_eq (js_get result ''principal'') (JStr ''github_app_installation'') \<and>
     js_eq (js_get result ''authority'') (JStr ''EXISTING_GITHUB_APP_INSTALLATION'') \<and>
     js_eq (js_get result ''repository_scope'') (JStr ''INSTALLATION_APPROVED_ONLY'') \<and>
     js_eq (js_get result ''consistency'') (JStr ''NON_ATOMIC_ENUMERATION'') \<and>
     str_re install_re (js_get result ''installation_id'') \<and>
     safe_between 0 100 (js_get result ''total_visible_repositories'') \<and>
     safe_between 0 2000 (js_get result ''enumerated_open_pull_requests'') \<and>
     is_JArr (js_get result ''worker_assignments'') \<and> length (the_arr (js_get result ''worker_assignments'')) \<le> 500 \<and>
     int (length (the_arr (js_get result ''worker_assignments''))) \<le> the_int (js_get result ''enumerated_open_pull_requests'')"

definition worker_label_re :: "string \<Rightarrow> bool" where
  "worker_label_re s \<longleftrightarrow> starts_with s WORKER_PREFIX \<and> worker_id_re (drop (length WORKER_PREFIX) s)"

definition item_ok :: "jsval \<Rightarrow> bool" where
  "item_ok item \<longleftrightarrow> exact_joined item ITEM_FIELDS \<and> str_re repository_re (js_get item ''repository'') \<and>
     \<not> bad_part (fst (split_name (str_or_empty (js_get item ''repository'')))) \<and>
     \<not> bad_part (snd (split_name (str_or_empty (js_get item ''repository'')))) \<and>
     safe_at_least 1 (js_get item ''repository_id'') \<and> safe_at_least 1 (js_get item ''number'') \<and>
     js_eq (js_get item ''state'') (JStr ''open'') \<and> sha_re (or_empty (js_get item ''head_sha'')) \<and>
     (case js_get item ''labels'' of JArr [JStr l] \<Rightarrow> worker_label_re l | _ \<Rightarrow> False)"

definition item_label :: "jsval \<Rightarrow> string" where
  "item_label item = (case js_get item ''labels'' of JArr [JStr l] \<Rightarrow> l | _ \<Rightarrow> [])"

definition item_key :: "jsval \<Rightarrow> string" where
  "item_key item = to_lower (str_or_empty (js_get item ''repository'')) @ ''#'' @ int_string (the_int (js_get item ''number''))"

definition safe_item :: "jsval \<Rightarrow> jsval" where
  "safe_item item = JObj [(''repository'', js_get item ''repository''), (''repository_id'', js_get item ''repository_id''),
     (''number'', js_get item ''number''), (''state'', JStr ''open''), (''head_sha'', js_get item ''head_sha''),
     (''labels'', JArr [JStr (item_label item)])]"

text \<open>The loop over the assignments, with the labels and the keys seen before.\<close>

fun safe_items :: "jsval list \<Rightarrow> string list \<Rightarrow> string list \<Rightarrow> jsval list option" where
  "safe_items [] claims prs = Some []"
| "safe_items (item # items) claims prs =
     (if \<not> item_ok item \<or> item_key item \<in> set prs \<or> item_label item \<in> set claims then None
      else map_option (Cons (safe_item item)) (safe_items items (item_label item # claims) (item_key item # prs)))"

definition fulfillCommandCenterAdminAssignments :: "broker_env \<Rightarrow> jsval \<Rightarrow> string + jsval \<Rightarrow> string + jsval" where
  "fulfillCommandCenterAdminAssignments env request collect =
     (if \<not> js_eq (br_ADMIN_BROKER_ENABLED env) (JStr ''true'') \<or> \<not> js_eq (br_ADMIN_PR_INVENTORY_ENABLED env) (JStr ''true'')
      then Inl ''ADMIN_ASSIGNMENT_LOCKED''
      else if \<not> exact_joined request [''purpose''] \<or> \<not> js_eq (js_get request ''purpose'') (JStr ''admin_worker_assignment_inventory'')
      then Inl ''ADMIN_ASSIGNMENT_PURPOSE_INVALID''
      else case collect of Inl e \<Rightarrow> Inl e
      | Inr result \<Rightarrow>
          if \<not> result_ok result then Inl ''ADMIN_ASSIGNMENT_RESPONSE_INVALID''
          else (case safe_items (the_arr (js_get result ''worker_assignments'')) [] [] of
              None \<Rightarrow> Inl ''ADMIN_ASSIGNMENT_RESPONSE_INVALID''
            | Some items \<Rightarrow> Inr (JObj [(''principal'', JStr ''github_app_installation''),
                (''authority'', JStr ''EXISTING_GITHUB_APP_INSTALLATION''), (''repository_scope'', JStr ''INSTALLATION_APPROVED_ONLY''),
                (''installation_id'', js_get result ''installation_id''),
                (''total_visible_repositories'', js_get result ''total_visible_repositories''),
                (''enumerated_open_pull_requests'', js_get result ''enumerated_open_pull_requests''),
                (''consistency'', JStr ''NON_ATOMIC_ENUMERATION''), (''worker_assignments'', JArr items)])))"

section \<open>The broker and the inventory\<close>

text \<open>What the inventory guarantees of an assignment is what the broker tests.\<close>

lemma worker_labels_Inr: "worker_labels ls = Inr ns \<Longrightarrow> n \<in> set ns \<Longrightarrow> worker_label_re n"
  by (induction ls arbitrary: ns) (auto simp: Let_def worker_label_re_def split: if_splits sum.splits)

lemma prProjection_Some:
  assumes "prProjection number state sha labels r = Inr (Some a)"
  shows "wa_repository a = rp_name r \<and> wa_repository_id a = rp_id r \<and> number = JInt (wa_number a) \<and> safe_int (wa_number a) \<and>
    1 \<le> wa_number a \<and> sha_re (or_empty (wa_head_sha a)) \<and> worker_label_re (wa_label a)"
proof -
  obtain l where l: "worker_labels (the_arr labels) = Inr [l]" and
    a: "a = \<lparr>wa_repository = rp_name r, wa_repository_id = rp_id r, wa_number = the_int number, wa_head_sha = sha, wa_label = l\<rparr>"
    using assms by (auto simp: prProjection_def split: if_splits sum.splits list.splits)
  have "is_safe_integer number" "\<not> the_int number < 1" "sha_re (or_empty sha)"
    using assms by (auto simp: prProjection_def split: if_splits)
  then show ?thesis using a worker_labels_Inr [OF l] by (auto simp: js_simps)
qed

lemma item_json [simp]:
  "js_get (assignment_json a) ''repository'' = JStr (wa_repository a)" "js_get (assignment_json a) ''repository_id'' = JInt (wa_repository_id a)"
  "js_get (assignment_json a) ''number'' = JInt (wa_number a)" "js_get (assignment_json a) ''state'' = JStr ''open''"
  "js_get (assignment_json a) ''head_sha'' = wa_head_sha a" "js_get (assignment_json a) ''labels'' = JArr [JStr (wa_label a)]"
  "exact_joined (assignment_json a) ITEM_FIELDS"
  by (simp_all add: assignment_json_def exact_joined_def ITEM_FIELDS_def)

lemma safe_item_json: "safe_item (assignment_json a) = assignment_json a"
  by (simp add: safe_item_def item_label_def) (simp add: assignment_json_def)

definition assignment_ok :: "worker_assignment \<Rightarrow> bool" where
  "assignment_ok a \<longleftrightarrow> item_ok (assignment_json a)"

definition assignment_key :: "worker_assignment \<Rightarrow> string \<times> int" where
  "assignment_key a = (to_lower (wa_repository a), wa_number a)"

lemma distinct_pairs:
  "(\<And>r. distinct (map f (map snd (filter (\<lambda>p. fst p = r) xs)))) \<Longrightarrow> distinct (map (\<lambda>p. (fst p, f (snd p))) xs)"
proof (induction xs)
  case Nil
  then show ?case by simp
next
  case (Cons x xs)
  have tail: "distinct (map f (map snd (filter (\<lambda>p. fst p = r) xs)))" for r
    using Cons.prems [of r] by (simp split: if_splits)
  have "f (snd x) \<notin> set (map f (map snd (filter (\<lambda>p. fst p = fst x) xs)))"
    using Cons.prems [of "fst x"] by simp
  then have "(fst x, f (snd x)) \<notin> set (map (\<lambda>p. (fst p, f (snd p))) xs)" by auto
  then show ?case using Cons.IH [OF tail] by simp
qed

lemma distinct_assignments:
  assumes "distinct (map key xs)" and "\<And>x a. x \<in> set xs \<Longrightarrow> projection_of x = Inr (Some a) \<Longrightarrow> key' a = key x"
  shows "distinct (map key' (assignments_of xs)) \<and> set (map key' (assignments_of xs)) \<subseteq> set (map key xs)"
  using assms
proof (induction xs)
  case Nil
  then show ?case by (simp add: assignments_of_def)
next
  case (Cons x xs)
  then have IH: "distinct (map key' (assignments_of xs)) \<and> set (map key' (assignments_of xs)) \<subseteq> set (map key xs)" by simp
  have split: "assignments_of (x # xs) = assignments_of [x] @ assignments_of xs" using assignments_of_append [of "[x]" xs] by simp
  consider (some) a where "projection_of x = Inr (Some a)" | (none) "assignments_of [x] = []"
    by (cases "\<exists>a. projection_of x = Inr (Some a)") (auto simp: assignments_of_def split: sum.split option.split)
  then show ?case
  proof cases
    case some
    then have "assignments_of [x] = [a]" "key' a = key x" using Cons.prems(2) by (simp_all add: assignments_of_def)
    then show ?thesis using IH split Cons.prems(1) by auto
  next
    case none
    then show ?thesis using IH split by auto
  qed
qed

lemma length_assignments_of: "length (assignments_of xs) \<le> length xs"
  by (induction xs) (auto simp: assignments_of_def split: sum.split option.split)

lemma assignments_of_member: "a \<in> set (assignments_of xs) \<Longrightarrow> \<exists>x \<in> set xs. projection_of x = Inr (Some a)"
  by (auto simp: assignments_of_def split: sum.splits option.splits)

lemma mset_sort_assignments: "mset (sort_assignments cmp xs) = mset xs"
proof -
  have "mset (insert_assignment cmp a bs) = add_mset a (mset bs)" for a bs by (induction bs) auto
  then show ?thesis by (induction xs) (simp_all add: sort_assignments_def)
qed

lemma sorted_same:
  "set (sort_assignments cmp xs) = set xs" "length (sort_assignments cmp xs) = length xs"
  "distinct (map f (sort_assignments cmp xs)) = distinct (map f xs)"
proof -
  note eq = mset_sort_assignments [of cmp xs]
  show "set (sort_assignments cmp xs) = set xs" by (rule mset_eq_setD [OF eq])
  show "length (sort_assignments cmp xs) = length xs" by (rule mset_eq_length [OF eq])
  have "mset (map f (sort_assignments cmp xs)) = mset (map f xs)" using eq by simp
  then show "distinct (map f (sort_assignments cmp xs)) = distinct (map f xs)" by (rule mset_eq_imp_distinct_iff)
qed

lemma repository_no_hash: "repository_re s \<Longrightarrow> CHR ''#'' \<notin> set (to_lower s)"
proof
  assume re: "repository_re s" and mem: "CHR ''#'' \<in> set (to_lower s)"
  have chars: "repository_char c \<or> c = CHR ''/''" if "c \<in> set s" for c
  proof -
    let ?own = "takeWhile (\<lambda>c. c \<noteq> CHR ''/'') s" and ?rest = "dropWhile (\<lambda>c. c \<noteq> CHR ''/'') s"
    have re': "list_all repository_char ?own" "list_all repository_char (tl ?rest)" using re by (simp_all add: repository_re_def Let_def)
    have "c \<in> set (?own @ ?rest)" using that by (simp only: takeWhile_dropWhile_id)
    then have "c \<in> set ?own \<or> c \<in> set ?rest" by (simp only: set_append Un_iff)
    then show ?thesis
    proof
      assume "c \<in> set ?own"
      then show ?thesis using re'(1) unfolding list_all_iff by blast
    next
      assume 2: "c \<in> set ?rest"
      have ne: "?rest \<noteq> []" using length_pos_if_in_set [OF 2] unfolding length_greater_0_conv .
      from list.collapse [OF ne] have "c = hd ?rest \<or> c \<in> set (tl ?rest)" using 2 by (metis set_ConsD)
      then show ?thesis using hd_dropWhile [OF ne] re'(2) unfolding list_all_iff by blast
    qed
  qed
  have marks: "code CHR ''#'' = 35" "code CHR ''.'' = 46" by (simp_all add: code_def)
  obtain c where "c \<in> set s" "lower_char c = CHR ''#''" using mem by (auto simp: to_lower_def)
  moreover have "lower_char c \<noteq> CHR ''#''" if "repository_char c \<or> c = CHR ''/''"
    using that by (auto simp: marks lower_char_def repository_char_def is_alnum_def code_simps split: if_splits)
  ultimately show False using chars by blast
qed

lemma key_text:
  assumes "repository_re (wa_repository a)" "repository_re (wa_repository b)" and "0 \<le> wa_number a" "0 \<le> wa_number b"
    and "item_key (assignment_json a) = item_key (assignment_json b)"
  shows "assignment_key a = assignment_key b"
proof -
  have cut: "takeWhile (\<lambda>c. c \<noteq> CHR ''#'') (s @ ''#'' @ t) = s" "tl (dropWhile (\<lambda>c. c \<noteq> CHR ''#'') (s @ ''#'' @ t)) = t"
    if "CHR ''#'' \<notin> set s" for s t
    using that by (auto simp: takeWhile_append dropWhile_append)
  have "to_lower (wa_repository a) @ ''#'' @ int_string (wa_number a) = to_lower (wa_repository b) @ ''#'' @ int_string (wa_number b)"
    using assms(5) by (simp add: item_key_def)
  then have "to_lower (wa_repository a) = to_lower (wa_repository b)" "int_string (wa_number a) = int_string (wa_number b)"
    using cut [OF repository_no_hash [OF assms(1)]] cut [OF repository_no_hash [OF assms(2)]] by metis+
  then show ?thesis using int_string_inj assms(3,4) by (simp add: assignment_key_def)
qed

lemma safe_items_pass:
  assumes "list_all assignment_ok xs" "distinct (map wa_label xs)" "distinct (map (item_key \<circ> assignment_json) xs)"
    and "set (map wa_label xs) \<inter> set claims = {}" "set (map (item_key \<circ> assignment_json) xs) \<inter> set prs = {}"
  shows "safe_items (map assignment_json xs) claims prs = Some (map assignment_json xs)"
  using assms
proof (induction xs arbitrary: claims prs)
  case Nil
  then show ?case by simp
next
  case (Cons a xs)
  have label: "item_label (assignment_json a) = wa_label a" by (simp add: item_label_def)
  have "safe_items (map assignment_json xs) (wa_label a # claims) (item_key (assignment_json a) # prs) = Some (map assignment_json xs)"
    by (rule Cons.IH) (use Cons.prems in auto)
  then show ?case using Cons.prems label by (simp add: assignment_ok_def safe_item_json)
qed

lemma found_assignment_ok:
  assumes "repos_ok repos" and "r \<in> set repos" and "projection_of (r, node) = Inr (Some a)"
  shows "assignment_ok a \<and> repository_re (wa_repository a) \<and> 0 \<le> wa_number a \<and> assignment_key a = (to_lower (rp_name r), number_of node)"
proof -
  note a = prProjection_Some [OF assms(3) [unfolded projection_of_def prod.case]]
  have r: "0 < rp_id r \<and> safe_int (rp_id r) \<and> repository_re (rp_name r) \<and>
       \<not> bad_part (fst (split_name (rp_name r))) \<and> \<not> bad_part (snd (split_name (rp_name r)))"
    using assms(1,2) by (auto simp: repos_ok_def list_all_iff)
  then show ?thesis using a
    by (simp add: assignment_ok_def item_ok_def str_re_def safe_at_least_def assignment_key_def number_of_def)
qed

text \<open>
  C25: an inventory of the collector passes the broker unchanged. With the broker and the inventory
  enabled and the one request it takes, whatever \<open>listInstalledWorkerAssignments\<close> returns fits every
  bound and pattern of the broker and repeats no pull request and no worker, so the broker's answer is
  that very value.
\<close>

theorem broker_passes_inventory:
  assumes "listInstalledWorkerAssignments env = (Inr found, trail)"
    and "br_ADMIN_BROKER_ENABLED benv = JStr ''true''" and "br_ADMIN_PR_INVENTORY_ENABLED benv = JStr ''true''"
    and "request = JObj [(''purpose'', JStr ''admin_worker_assignment_inventory'')]"
  shows "fulfillCommandCenterAdminAssignments benv request (Inr (inventory_json env found)) = Inr (inventory_json env found)"
proof -
  let ?t = "in_tally found" and ?xs = "ty_assignments (in_tally found)" and ?read = "all_read (ty_pages (in_tally found))"
  let ?sorted = "sort_assignments (ie_localeCompare env) ?xs"
  note facts = inventory_facts [OF assms(1)]
  have repos: "repos_ok (in_repositories found)" and loop: "loop_ok (in_repositories found) [] ?t" using facts by blast+
  have tally: "?xs = assignments_of ?read" "found_ok ?xs" "ty_open ?t = length ?read" "ty_open ?t \<le> MAX_TOTAL_PRS"
    using loop by (auto simp: loop_ok_def tally_ok_def)
  have inside: "fst x \<in> set (in_repositories found)" if "x \<in> set ?read" for x
    using loop that by (auto simp: loop_ok_def all_read_def)
  have each: "assignment_ok a \<and> repository_re (wa_repository a) \<and> 0 \<le> wa_number a" if "a \<in> set ?xs" for a
  proof -
    have "a \<in> set (assignments_of ?read)" using that tally(1) by simp
    then obtain x where x: "x \<in> set ?read" "projection_of x = Inr (Some a)" using assignments_of_member by blast
    then show ?thesis using found_assignment_ok [OF repos inside [OF x(1)], of "snd x" a] by simp
  qed
  have "distinct (map number_of (map snd (filter (\<lambda>p. fst p = r) ?read)))" for r
  proof (cases "r \<in> set (in_repositories found)")
    case True
    then show ?thesis using loop by (auto simp: loop_ok_def enumerated_def read_of_def)
  next
    case False
    then have "filter (\<lambda>p. fst p = r) ?read = []" using inside by (auto simp: filter_empty_conv)
    then show ?thesis by (simp only: list.map distinct.simps)
  qed
  then have "distinct (map (\<lambda>p. (fst p, number_of (snd p))) ?read)" by (rule distinct_pairs)
  moreover have "inj_on (\<lambda>q. (to_lower (rp_name (fst q)), snd q)) (set (map (\<lambda>p. (fst p, number_of (snd p))) ?read))"
  proof (rule inj_onI)
    fix q q' assume q: "q \<in> set (map (\<lambda>p. (fst p, number_of (snd p))) ?read)" "q' \<in> set (map (\<lambda>p. (fst p, number_of (snd p))) ?read)"
      and eq: "(to_lower (rp_name (fst q)), snd q) = (to_lower (rp_name (fst q')), snd q')"
    have "fst q \<in> set (in_repositories found)" "fst q' \<in> set (in_repositories found)" using q inside by auto
    moreover have "inj_on (to_lower \<circ> rp_name) (set (in_repositories found))" using repos by (simp add: repos_ok_def distinct_map)
    ultimately have "fst q = fst q'" using eq by (auto dest!: inj_onD [where x = "fst q" and y = "fst q'"])
    then show "q = q'" using eq by (simp add: prod_eq_iff)
  qed
  ultimately have "distinct (map (\<lambda>p. (to_lower (rp_name (fst p)), number_of (snd p))) ?read)"
    using distinct_map [of "\<lambda>q. (to_lower (rp_name (fst q)), snd q)" "map (\<lambda>p. (fst p, number_of (snd p))) ?read"] by (simp add: comp_def)
  from distinct_assignments [OF this, of assignment_key]
  have keys: "distinct (map assignment_key ?xs)"
    using found_assignment_ok [OF repos inside] tally(1) by (metis (no_types, lifting) prod.collapse)
  have "inj_on (\<lambda>a. item_key (assignment_json a)) (set ?xs)" if "inj_on assignment_key (set ?xs)"
    using that each key_text by (auto simp: inj_on_def)
  then have texts: "distinct (map (item_key \<circ> assignment_json) ?xs)"
    using keys by (simp add: distinct_map comp_def)
  have "map wa_worker ?xs = map (drop (length WORKER_PREFIX)) (map wa_label ?xs)" by (simp add: wa_worker_def)
  then have labels: "distinct (map wa_label ?xs)" using tally(2) distinct_map by (metis found_ok_def)
  have pass: "safe_items (map assignment_json ?sorted) [] [] = Some (map assignment_json ?sorted)"
    by (rule safe_items_pass) (use each labels texts in \<open>simp_all add: sorted_same list_all_iff\<close>)
  have "length ?xs \<le> ty_open ?t" using length_assignments_of [of ?read] tally by simp
  then have "result_ok (inventory_json env found)"
    using facts tally(2,4) sorted_same(2) [of "ie_localeCompare env" ?xs]
    by (simp add: result_ok_def inventory_json_def exact_joined_def RESULT_FIELDS_def str_re_def safe_between_def safe_int_def
        max_safe_def found_ok_def MAX_ASSIGNMENTS_def MAX_TOTAL_PRS_def MAX_REPOS_def)
  moreover have "exact_joined request [''purpose'']" using assms(4) by (simp add: exact_joined_def)
  moreover have "the_arr (js_get (inventory_json env found) ''worker_assignments'') = map assignment_json ?sorted"
    by (simp add: inventory_json_def)
  ultimately show ?thesis using assms(2,3,4) pass
    by (simp add: fulfillCommandCenterAdminAssignments_def) (simp add: inventory_json_def)
qed


definition sample_broker :: broker_env where
  "sample_broker = \<lparr>br_ADMIN_BROKER_ENABLED = JStr ''true'', br_ADMIN_REPO_CATALOG_ENABLED = JUndef, br_ADMIN_PR_INVENTORY_ENABLED = JStr ''true''\<rparr>"

theorem broker_passes_inventory_witness:
  "\<exists>found trail. listInstalledWorkerAssignments sample_inventory_env = (Inr found, trail) \<and> ty_open (in_tally found) = 2 \<and>
     fulfillCommandCenterAdminAssignments sample_broker (JObj [(''purpose'', JStr ''admin_worker_assignment_inventory'')])
       (Inr (inventory_json sample_inventory_env found)) = Inr (inventory_json sample_inventory_env found)"
proof -
  obtain trail where run: "listInstalledWorkerAssignments sample_inventory_env =
    (Inr \<lparr>in_installation_id = ''42'', in_repositories = [sample_repo],
       in_tally = \<lparr>ty_assignments = [sample_owned], ty_open = 2, ty_pages = [(sample_repo, sample_page)]\<rparr>\<rparr>, trail)"
    using sample_inventory_run by blast
  have "br_ADMIN_BROKER_ENABLED sample_broker = JStr ''true''" "br_ADMIN_PR_INVENTORY_ENABLED sample_broker = JStr ''true''"
    by (simp_all add: sample_broker_def)
  from broker_passes_inventory [OF run this refl] show ?thesis using run by (intro exI conjI) (auto intro: run)
qed

text \<open>While the broker is locked nothing is collected.\<close>

lemma locked_broker_refuses:
  assumes "br_ADMIN_BROKER_ENABLED benv \<noteq> JStr ''true''"
  shows "fulfillCommandCenterAdminRead benv request mint = Inl ''ADMIN_BROKER_LOCKED''"
    "fulfillCommandCenterAdminCatalog benv request collect = Inl ''ADMIN_CATALOG_LOCKED''"
    "fulfillCommandCenterAdminAssignments benv request collect = Inl ''ADMIN_ASSIGNMENT_LOCKED''"
  using assms by (simp_all add: fulfillCommandCenterAdminRead_def fulfillCommandCenterAdminCatalog_def fulfillCommandCenterAdminAssignments_def)

end
