(* ===== verification/ReadinessPolicy.thy ===== *)
theory ReadinessPolicy imports NativePolicy ExtensionBase
begin

text \<open>
  \<open>browser-extension/scripts/forge-f1-readiness-policy.mjs\<close>: the pure evaluation of the evidence
  gathered about a desktop. It lists what blocks it, decides whether the desktop is ready and writes
  a report. SHA-256 is a parameter.
\<close>

section \<open>Patterns\<close>

definition CANONICAL_ORIGINS :: "string list" where
  "CANONICAL_ORIGINS = [''https://github.com/jan2xo/bke-worker'', ''https://github.com/jan2xo/bke-worker.git'',
     ''git@github.com:jan2xo/bke-worker.git'', ''ssh://git@github.com/jan2xo/bke-worker.git'']"

definition extension_id_re :: "string \<Rightarrow> bool" where
  "extension_id_re = class_rep (in_range CHR ''a'' CHR ''p'') 32 32"

definition session_id_re :: "string \<Rightarrow> bool" where
  "session_id_re = class_rep is_hex_lower 24 24"

definition operator_code_re :: "string \<Rightarrow> bool" where
  "operator_code_re = class_rep (\<lambda>c. is_upper c \<or> is_digit c \<or> c = CHR ''_'') 1 80"

text \<open>
  \<open>/^v?(\d+)(?:\.\d+){1,3}(?:[-+].*)?$/\<close>: what follows the first number is one to three groups of a
  dot and digits, and then nothing or a suffix without a line end. Groups are read as long as there
  are any, for after fewer of them a dot would follow, which starts no suffix.
\<close>

definition version_suffix :: "string \<Rightarrow> bool" where
  "version_suffix s \<longleftrightarrow> s = [] \<or> hd s \<in> {CHR ''-'', CHR ''+''} \<and> list_all (\<lambda>c. code c \<noteq> 10 \<and> code c \<noteq> 13) (tl s)"

fun dot_groups :: "nat \<Rightarrow> string \<Rightarrow> nat \<times> string" where
  "dot_groups 0 s = (0, s)"
| "dot_groups (Suc n) s =
     (if s \<noteq> [] \<and> hd s = CHR ''.'' \<and> takeWhile is_digit (tl s) \<noteq> []
      then let (k, r) = dot_groups n (dropWhile is_digit (tl s)) in (Suc k, r) else (0, s))"

definition versionMajor :: "jsval \<Rightarrow> nat option" where
  "versionMajor v =
     (if \<not> is_JStr v then None
      else let s = js_trim (str_or_empty v); s' = (if take 1 s = ''v'' then tl s else s);
               major = takeWhile is_digit s'; (k, rest) = dot_groups 3 (dropWhile is_digit s') in
        if major \<noteq> [] \<and> 1 \<le> k \<and> version_suffix rest then Some (decimal_digits major) else None)"

definition version_below :: "nat \<Rightarrow> jsval \<Rightarrow> bool" where
  "version_below least v = (case versionMajor v of None \<Rightarrow> True | Some n \<Rightarrow> n < least)"

fun split_slash :: "string \<Rightarrow> string list" where
  "split_slash [] = [[]]"
| "split_slash (c # s) = (if c = CHR ''/'' then [] # split_slash s else (c # hd (split_slash s)) # tl (split_slash s))"

definition hasSafeAbsolutePath :: "jsval \<Rightarrow> bool" where
  "hasSafeAbsolutePath v =
     (let s = str_or_empty v in
      if \<not> is_JStr v \<or> \<not> starts_with s ''/'' \<or> CHR 0x00 \<in> set s then False
      else if s = ''/'' \<or> contains s ''//'' then False
      else \<not> list_ex (\<lambda>part. part = ''.'' \<or> part = ''..'') (split_slash s))"

section \<open>The blockers\<close>

definition add :: "string list \<Rightarrow> bool \<Rightarrow> string \<Rightarrow> string list" where
  "add codes condition c = (if condition \<and> c \<notin> set codes then codes @ [c] else codes)"

definition add_all :: "string list \<Rightarrow> (bool \<times> string) list \<Rightarrow> string list" where
  "add_all codes checks = foldl (\<lambda>cs (condition, c). add cs condition c) codes checks"

definition shaPath :: "(string \<Rightarrow> string) \<Rightarrow> jsval \<Rightarrow> jsval" where
  "shaPath sha v = (if is_JStr v \<and> str_or_empty v \<noteq> [] then JStr (sha (str_or_empty v)) else JNull)"

text \<open>\<open>e.part || {}\<close> and a field of it: where the part is no object there is none.\<close>

definition evid :: "jsval \<Rightarrow> string \<Rightarrow> string \<Rightarrow> jsval" where
  "evid e part k = js_get (js_get e part) k"

definition not_true :: "jsval \<Rightarrow> bool" where "not_true v \<longleftrightarrow> v \<noteq> JBool True"

definition not_false :: "jsval \<Rightarrow> bool" where "not_false v \<longleftrightarrow> v \<noteq> JBool False"

definition not_str :: "string \<Rightarrow> jsval \<Rightarrow> bool" where "not_str s v \<longleftrightarrow> v \<noteq> JStr s"

definition list_is :: "jsval \<Rightarrow> string list \<Rightarrow> bool" where
  "list_is v ss \<longleftrightarrow> v = JArr (map JStr ss)"

definition source_checks :: "jsval \<Rightarrow> (bool \<times> string) list" where
  "source_checks e =
     [(evid e ''repository'' ''origin'' \<notin> set (map JStr CANONICAL_ORIGINS), ''REPOSITORY_ORIGIN_UNTRUSTED''),
      (not_str ''main'' (evid e ''repository'' ''branch''), ''CHECKOUT_NOT_MAIN''),
      (not_true (evid e ''repository'' ''clean''), ''CHECKOUT_DIRTY''),
      (\<not> str_re sha_re (evid e ''repository'' ''headSha''), ''CHECKOUT_SHA_INVALID''),
      (\<not> str_re sha_re (evid e ''repository'' ''remoteMainSha''), ''REMOTE_MAIN_SHA_INVALID''),
      (\<not> js_eq (evid e ''repository'' ''headSha'') (evid e ''repository'' ''remoteMainSha''), ''STALE_CHECKOUT''),
      (not_str ''PASS'' (evid e ''sourceSmoke'' ''status''), ''SOURCE_SMOKE_NOT_PASS''),
      (\<not> js_eq (evid e ''sourceSmoke'' ''sourceSha'') (evid e ''repository'' ''headSha''), ''SOURCE_SMOKE_SHA_MISMATCH'')]"

definition browser_checks :: "jsval \<Rightarrow> (bool \<times> string) list" where
  "browser_checks e =
     [(\<not> session_id_re (str_or_empty (js_get e ''readinessSessionId'')), ''READINESS_SESSION_ID_INVALID''),
      (evid e ''browser'' ''platform'' \<notin> {JStr ''Darwin'', JStr ''Linux''}, ''UNSUPPORTED_OPERATING_SYSTEM''),
      (not_true (evid e ''browser'' ''installed''), ''GOOGLE_CHROME_NOT_FOUND''),
      (not_str ''Google Chrome'' (evid e ''browser'' ''name''), ''UNTRUSTED_OR_UNSUPPORTED_BROWSER''),
      (version_below 116 (evid e ''browser'' ''version''), ''CHROME_VERSION_UNSUPPORTED''),
      (\<not> str_re hash_re (evid e ''browser'' ''binarySha256''), ''CHROME_RUNTIME_SHA_INVALID''),
      (version_below 22 (evid e ''browser'' ''nodeVersion''), ''NODE_RUNTIME_UNSUPPORTED''),
      (\<not> str_re hash_re (evid e ''browser'' ''nodeBinarySha256''), ''NODE_RUNTIME_SHA_INVALID'')]"

definition profile_checks :: "jsval \<Rightarrow> (bool \<times> string) list" where
  "profile_checks e =
     [(not_true (evid e ''profile'' ''exists''), ''ISOLATED_PROFILE_MISSING''),
      (\<not> hasSafeAbsolutePath (evid e ''profile'' ''path''), ''PROFILE_PATH_UNSAFE''),
      (not_true (evid e ''profile'' ''pathCanonical''), ''PROFILE_PATH_NOT_CANONICAL''),
      (not_true (evid e ''profile'' ''ownerMatches''), ''PROFILE_OWNER_MISMATCH''),
      (not_true (evid e ''profile'' ''privateMode''), ''PROFILE_PERMISSIONS_NOT_PRIVATE''),
      (not_true (evid e ''profile'' ''dedicated''), ''PROFILE_NOT_ISOLATED''),
      (not_true (evid e ''profile'' ''activeProcess''), ''CHROME_NOT_ATTACHED_TO_SELECTED_PROFILE''),
      (not_true (evid e ''profile'' ''exclusiveOwnerAttested''), ''PROFILE_EXCLUSIVITY_NOT_ATTESTED'')]"

definition extension_id :: "jsval \<Rightarrow> string" where
  "extension_id e = str_or_empty (evid e ''extension'' ''id'')"

definition expected_origin :: "jsval \<Rightarrow> string" where
  "expected_origin e = (if extension_id_re (extension_id e) then ''chrome-extension://'' @ extension_id e @ ''/'' else [])"

definition extension_checks :: "jsval \<Rightarrow> (bool \<times> string) list" where
  "extension_checks e =
     [(\<not> extension_id_re (extension_id e), ''EXTENSION_ID_INVALID_OR_MISSING''),
      (\<not> js_eq (evid e ''extension'' ''matchCount'') (JInt 1), ''EXTENSION_MISSING_OR_DUPLICATE''),
      (not_true (evid e ''extension'' ''enabled''), ''EXTENSION_NOT_ENABLED''),
      (not_true (evid e ''extension'' ''pathMatches''), ''EXTENSION_SOURCE_PATH_MISMATCH''),
      (not_true (evid e ''extension'' ''versionMatches''), ''EXTENSION_VERSION_MISMATCH''),
      (\<not> js_eq (evid e ''extension'' ''manifestVersion'') (JInt 3), ''EXTENSION_MANIFEST_VERSION_UNSUPPORTED''),
      (\<not> list_is (evid e ''extension'' ''permissions'') [''storage'', ''webNavigation''], ''EXTENSION_PERMISSION_BOUNDARY_DRIFT''),
      (\<not> list_is (evid e ''extension'' ''hostPermissions'') [''https://chatgpt.com/*''], ''EXTENSION_HOST_PERMISSION_BOUNDARY_DRIFT''),
      (\<not> list_is (evid e ''extension'' ''optionalPermissions'') [''nativeMessaging''], ''EXTENSION_OPTIONAL_PERMISSION_BOUNDARY_DRIFT''),
      (not_str ''NOT_CHECKED'' (evid e ''extension'' ''nativeMessagingPermission''), ''NATIVE_MESSAGING_PERMISSION_EVIDENCE_INVALID'')]"

definition host_checks :: "jsval \<Rightarrow> (bool \<times> string) list" where
  "host_checks e =
     [(not_str ''VERIFIED_REGISTRATION_ONLY'' (evid e ''nativeHost'' ''status''), ''NATIVE_HOST_REGISTRATION_NOT_VERIFIED''),
      (not_str ''bke.worker.desktop'' (evid e ''nativeHost'' ''name''), ''NATIVE_HOST_IDENTITY_MISMATCH''),
      (not_str (expected_origin e) (evid e ''nativeHost'' ''origin'') \<or> expected_origin e = [], ''NATIVE_HOST_EXTENSION_ORIGIN_MISMATCH''),
      (not_true (evid e ''nativeHost'' ''policyVerified''), ''NATIVE_HOST_OWNER_POLICY_NOT_VERIFIED'')]"

definition target_evaluated :: "jsval \<Rightarrow> bool" where
  "target_evaluated e \<longleftrightarrow> evid e ''chatgpt'' ''targetCount'' \<noteq> JNull \<and> evid e ''chatgpt'' ''targetCount'' \<noteq> JUndef"

definition unique_target :: "jsval \<Rightarrow> bool" where
  "unique_target e \<longleftrightarrow> js_eq (evid e ''chatgpt'' ''targetCount'') (JInt 1)"

definition exclusivity_evaluated :: "jsval \<Rightarrow> bool" where
  "exclusivity_evaluated e \<longleftrightarrow> unique_target e \<and> is_JBool (evid e ''chatgpt'' ''exclusivityAttested'')"

definition authentication_evaluated :: "jsval \<Rightarrow> bool" where
  "authentication_evaluated e \<longleftrightarrow> unique_target e \<and> evid e ''chatgpt'' ''exclusivityAttested'' = JBool True \<and>
     is_JBool (evid e ''chatgpt'' ''authenticatedAndIdle'')"

definition chatgpt_checks :: "jsval \<Rightarrow> (bool \<times> string) list" where
  "chatgpt_checks e =
     [if \<not> target_evaluated e then (True, ''CHATGPT_TARGET_NOT_EVALUATED'') else (\<not> unique_target e, ''CHATGPT_TARGET_COUNT_NOT_ONE'')] @
     (if unique_target e then
        [(\<not> exclusivity_evaluated e, ''CHATGPT_TARGET_EXCLUSIVITY_NOT_EVALUATED''),
         (exclusivity_evaluated e \<and> not_true (evid e ''chatgpt'' ''exclusivityAttested''), ''CHATGPT_TARGET_EXCLUSIVITY_NOT_ATTESTED'')] @
        (if evid e ''chatgpt'' ''exclusivityAttested'' = JBool True then
           [(\<not> authentication_evaluated e, ''CHATGPT_AUTH_IDLE_NOT_EVALUATED''),
            (authentication_evaluated e \<and> not_true (evid e ''chatgpt'' ''authenticatedAndIdle''),
             ''CHATGPT_NOT_HUMAN_CONFIRMED_AUTHENTICATED_AND_IDLE'')] else [])
      else [])"

definition safety_checks :: "jsval \<Rightarrow> (bool \<times> string) list" where
  "safety_checks e =
     [(not_false (evid e ''safety'' ''messageSendAttempted''), ''MESSAGE_SEND_NOT_PROVEN_ABSENT''),
      (not_false (evid e ''safety'' ''profileSecretsRead''), ''PROFILE_SECRET_READ_NOT_PROVEN_ABSENT''),
      (not_false (evid e ''safety'' ''otherProfilesTouched''), ''OTHER_PROFILE_ACCESS_NOT_PROVEN_ABSENT''),
      (not_false (evid e ''safety'' ''credentialsWritten''), ''CREDENTIAL_WRITE_NOT_PROVEN_ABSENT''),
      (str_re operator_code_re (js_get e ''operatorBlocker''), str_or_empty (js_get e ''operatorBlocker''))]"

definition source_blockers :: "jsval \<Rightarrow> string list" where
  "source_blockers e = add_all [] (source_checks e)"

definition later_checks :: "jsval \<Rightarrow> (bool \<times> string) list" where
  "later_checks e = browser_checks e @ profile_checks e @ extension_checks e @ host_checks e @ chatgpt_checks e @ safety_checks e"

definition blockers_of :: "jsval \<Rightarrow> string list" where
  "blockers_of e = add_all (source_blockers e) (later_checks e)"

section \<open>The report\<close>

definition or_text :: "jsval \<Rightarrow> string \<Rightarrow> jsval" where
  "or_text v d = (if truthy v then v else JStr d)"

definition matching_or :: "(string \<Rightarrow> bool) \<Rightarrow> jsval \<Rightarrow> jsval" where
  "matching_or p v = (if str_re p v then v else JStr ''UNAVAILABLE'')"

definition is_true :: "jsval \<Rightarrow> jsval" where "is_true v = JBool (v = JBool True)"

definition source_report :: "jsval \<Rightarrow> jsval" where
  "source_report e = JObj [(''repository'', JStr ''jan2xo/bke-worker''), (''branch'', or_text (evid e ''repository'' ''branch'') ''UNKNOWN''),
     (''head_sha'', matching_or sha_re (evid e ''repository'' ''headSha'')),
     (''remote_main_sha'', matching_or sha_re (evid e ''repository'' ''remoteMainSha'')),
     (''smoke_status'', or_text (evid e ''sourceSmoke'' ''status'') ''NOT_RUN''),
     (''smoke_source_sha'', matching_or sha_re (evid e ''sourceSmoke'' ''sourceSha'')),
     (''node_version'', or_text (evid e ''browser'' ''nodeVersion'') ''UNAVAILABLE''),
     (''node_runtime_sha256'', matching_or hash_re (evid e ''browser'' ''nodeBinarySha256''))]"

definition browser_report :: "(string \<Rightarrow> string) \<Rightarrow> jsval \<Rightarrow> jsval" where
  "browser_report sha e = JObj [(''platform'', or_text (evid e ''browser'' ''platform'') ''UNKNOWN''),
     (''name'', or_text (evid e ''browser'' ''name'') ''UNKNOWN''), (''version'', or_text (evid e ''browser'' ''version'') ''UNAVAILABLE''),
     (''runtime_sha256'', matching_or hash_re (evid e ''browser'' ''binarySha256'')),
     (''profile_path_sha256'', shaPath sha (evid e ''profile'' ''path''))]"

definition extension_report :: "(string \<Rightarrow> string) \<Rightarrow> jsval \<Rightarrow> jsval" where
  "extension_report sha e = JObj [(''id'', JStr (if extension_id_re (extension_id e) then extension_id e else ''UNAVAILABLE'')),
     (''version'', or_text (evid e ''extension'' ''version'') ''UNAVAILABLE''),
     (''manifest_version'', if evid e ''extension'' ''manifestVersion'' \<in> {JUndef, JNull} then JNull else evid e ''extension'' ''manifestVersion''),
     (''source_path_sha256'', shaPath sha (evid e ''extension'' ''path'')),
     (''identity_evidence_source'', JStr ''OWNER_VISUAL_ATTESTATION''),
     (''loaded_enabled_from_canonical_source_owner_attested'', JBool (evid e ''extension'' ''enabled'' = JBool True \<and>
        evid e ''extension'' ''pathMatches'' = JBool True \<and> evid e ''extension'' ''versionMatches'' = JBool True \<and>
        js_eq (evid e ''extension'' ''matchCount'') (JInt 1))),
     (''native_messaging_optional_declared'', JBool (list_is (evid e ''extension'' ''optionalPermissions'') [''nativeMessaging''])),
     (''native_messaging_permission'', JStr ''NOT_CHECKED''),
     (''allowed_host_permissions'', JArr (if list_is (evid e ''extension'' ''hostPermissions'') [''https://chatgpt.com/*'']
        then [JStr ''https://chatgpt.com/*''] else []))]"

definition host_report :: "jsval \<Rightarrow> jsval" where
  "host_report e = JObj [(''name'', or_text (evid e ''nativeHost'' ''name'') ''UNAVAILABLE''),
     (''status'', or_text (evid e ''nativeHost'' ''status'') ''NOT_CHECKED''),
     (''extension_origin_matches'', JBool (evid e ''nativeHost'' ''origin'' = JStr (expected_origin e) \<and> expected_origin e \<noteq> [])),
     (''owner_policy_verified'', is_true (evid e ''nativeHost'' ''policyVerified'')), (''live_chrome_connection'', JStr ''NOT_TESTED'')]"

definition chatgpt_report :: "jsval \<Rightarrow> jsval" where
  "chatgpt_report e = JObj [
     (''open_target_count'', if is_integer (evid e ''chatgpt'' ''targetCount'') then evid e ''chatgpt'' ''targetCount'' else JNull),
     (''target_count_source'', JStr (if target_evaluated e then ''OWNER_VISUAL_ATTESTATION'' else ''NOT_EVALUATED'')),
     (''target_exclusivity_attested'', if exclusivity_evaluated e then evid e ''chatgpt'' ''exclusivityAttested'' else JNull),
     (''target_exclusivity_evidence_source'', JStr (if exclusivity_evaluated e then ''OWNER_PROFILE_AND_TAB_COUNT_CONFIRMATION'' else ''NOT_EVALUATED'')),
     (''authenticated_and_idle'', if authentication_evaluated e then evid e ''chatgpt'' ''authenticatedAndIdle'' else JNull),
     (''authentication_evidence_source'', JStr (if authentication_evaluated e
        then if evid e ''chatgpt'' ''authenticatedAndIdle'' = JBool True then ''OWNER_VISUAL_ATTESTATION_NO_PROFILE_SECRETS_READ''
             else ''OWNER_CONFIRMATION_FAILED''
        else ''NOT_EVALUATED'')),
     (''conversation_id'', JStr ''NOT_CREATED_NO_SEND_OCCURRED'')]"

definition authority_report :: jsval where
  "authority_report = JObj [(''worker_assignment'', JStr ''UNENROLLED''), (''assignment_authority'', JStr ''NONE''),
     (''dispatch_authority'', JStr ''NONE''), (''message_send_authority'', JStr ''NONE''), (''production'', JStr ''LOCKED'')]"

definition safety_report :: "jsval \<Rightarrow> jsval" where
  "safety_report e = JObj [(''message_send_attempted'', is_true (evid e ''safety'' ''messageSendAttempted'')),
     (''profile_secrets_read'', is_true (evid e ''safety'' ''profileSecretsRead'')),
     (''other_profiles_touched'', is_true (evid e ''safety'' ''otherProfilesTouched'')),
     (''credentials_written'', is_true (evid e ''safety'' ''credentialsWritten''))]"

definition evaluateF1DesktopReadiness :: "(string \<Rightarrow> string) \<Rightarrow> jsval \<Rightarrow> jsval" where
  "evaluateF1DesktopReadiness sha e =
     (let sourceStatus = (if source_blockers e = [] then ''SOURCE_SMOKE_PASS'' else ''SOURCE_SMOKE_BLOCKED'');
          sessionId = str_or_empty (js_get e ''readinessSessionId'');
          ready = (sourceStatus = ''SOURCE_SMOKE_PASS'' \<and> blockers_of e = []) in
      JObj [(''schema_version'', JInt 1), (''program'', JStr ''FORGE F1-01 desktop Chrome readiness''),
        (''readiness_session_id'', JStr (if session_id_re sessionId then sessionId else ''INVALID'')),
        (''source_status'', JStr sourceStatus), (''real_chrome_status'', JStr (if ready then ''REAL_CHROME_READY'' else ''BLOCKED'')),
        (''blocker_codes'', JArr (map JStr (blockers_of e))), (''source'', source_report e), (''browser'', browser_report sha e),
        (''extension'', extension_report sha e), (''native_host'', host_report e), (''chatgpt'', chatgpt_report e),
        (''authority'', authority_report), (''safety'', safety_report e)])"

section \<open>When a desktop is ready\<close>

lemma add_all_simps [simp]:
  "add_all codes [] = codes" "add_all codes ((b, c) # checks) = add_all (add codes b c) checks"
  by (simp_all add: add_all_def)

lemma add_all_append: "add_all codes (xs @ ys) = add_all (add_all codes xs) ys"
  by (simp add: add_all_def)

lemma add_empty: "add codes b c = [] \<longleftrightarrow> codes = [] \<and> \<not> b"
  by (auto simp: add_def)

lemma add_all_empty: "add_all codes checks = [] \<longleftrightarrow> codes = [] \<and> list_all (\<lambda>(b, c). \<not> b) checks"
proof (induction checks arbitrary: codes)
  case Nil
  then show ?case by simp
next
  case (Cons p checks)
  obtain b c where "p = (b, c)" by (cases p)
  then show ?case using Cons [of "add codes b c"] by (simp add: add_empty)
qed

lemma add_all_distinct: "distinct codes \<Longrightarrow> distinct (add_all codes checks)"
  by (induction checks arbitrary: codes) (auto simp: add_def)

lemma add_all_prefix: "\<exists>more. add_all codes checks = codes @ more"
proof (induction checks arbitrary: codes)
  case Nil
  then show ?case by simp
next
  case (Cons p checks)
  obtain b c where p: "p = (b, c)" by (cases p)
  obtain more where "add_all (add codes b c) checks = add codes b c @ more" using Cons by blast
  then show ?case using p by (auto simp: add_def)
qed

lemma add_all_set: "set (add_all codes checks) = set codes \<union> {c. (True, c) \<in> set checks}"
proof (induction checks arbitrary: codes)
  case Nil
  then show ?case by simp
next
  case (Cons p checks)
  obtain b c where "p = (b, c)" by (cases p)
  moreover have "set (add codes b c) = set codes \<union> {d. b \<and> d = c}" by (auto simp: add_def)
  ultimately show ?case using Cons [of "add codes b c"] by auto
qed

text \<open>What the evaluation asks of the evidence, part by part.\<close>

definition source_ready :: "jsval \<Rightarrow> bool" where
  "source_ready e \<longleftrightarrow> (\<exists>commit. sha_re commit \<and> (\<exists>origin \<in> set CANONICAL_ORIGINS.
     evid e ''repository'' ''origin'' = JStr origin) \<and> evid e ''repository'' ''branch'' = JStr ''main'' \<and>
     evid e ''repository'' ''clean'' = JBool True \<and> evid e ''repository'' ''headSha'' = JStr commit \<and>
     evid e ''repository'' ''remoteMainSha'' = JStr commit \<and> evid e ''sourceSmoke'' ''status'' = JStr ''PASS'' \<and>
     evid e ''sourceSmoke'' ''sourceSha'' = JStr commit)"

definition runtime_ready :: "jsval \<Rightarrow> bool" where
  "runtime_ready e \<longleftrightarrow> (\<exists>session. js_get e ''readinessSessionId'' = JStr session \<and> session_id_re session) \<and>
     evid e ''browser'' ''platform'' \<in> {JStr ''Darwin'', JStr ''Linux''} \<and> evid e ''browser'' ''installed'' = JBool True \<and>
     evid e ''browser'' ''name'' = JStr ''Google Chrome'' \<and> (\<exists>n \<ge> 116. versionMajor (evid e ''browser'' ''version'') = Some n) \<and>
     (\<exists>n \<ge> 22. versionMajor (evid e ''browser'' ''nodeVersion'') = Some n) \<and>
     (\<forall>k \<in> {''binarySha256'', ''nodeBinarySha256''}. str_re hash_re (evid e ''browser'' k))"

definition profile_ready :: "jsval \<Rightarrow> bool" where
  "profile_ready e \<longleftrightarrow> hasSafeAbsolutePath (evid e ''profile'' ''path'') \<and>
     (\<forall>k \<in> {''exists'', ''pathCanonical'', ''ownerMatches'', ''privateMode'', ''dedicated'', ''activeProcess'', ''exclusiveOwnerAttested''}.
        evid e ''profile'' k = JBool True)"

definition bridge_ready :: "jsval \<Rightarrow> bool" where
  "bridge_ready e \<longleftrightarrow> (\<exists>i. extension_id_re i \<and> evid e ''extension'' ''id'' = JStr i \<and>
     evid e ''nativeHost'' ''origin'' = JStr (''chrome-extension://'' @ i @ ''/'')) \<and>
     evid e ''extension'' ''matchCount'' = JInt 1 \<and> evid e ''extension'' ''manifestVersion'' = JInt 3 \<and>
     (\<forall>k \<in> {''enabled'', ''pathMatches'', ''versionMatches''}. evid e ''extension'' k = JBool True) \<and>
     evid e ''extension'' ''permissions'' = JArr [JStr ''storage'', JStr ''webNavigation''] \<and>
     evid e ''extension'' ''hostPermissions'' = JArr [JStr ''https://chatgpt.com/*''] \<and>
     evid e ''extension'' ''optionalPermissions'' = JArr [JStr ''nativeMessaging''] \<and>
     evid e ''extension'' ''nativeMessagingPermission'' = JStr ''NOT_CHECKED'' \<and>
     evid e ''nativeHost'' ''status'' = JStr ''VERIFIED_REGISTRATION_ONLY'' \<and>
     evid e ''nativeHost'' ''name'' = JStr ''bke.worker.desktop'' \<and> evid e ''nativeHost'' ''policyVerified'' = JBool True"

definition operator_ready :: "jsval \<Rightarrow> bool" where
  "operator_ready e \<longleftrightarrow> evid e ''chatgpt'' ''targetCount'' = JInt 1 \<and> evid e ''chatgpt'' ''exclusivityAttested'' = JBool True \<and>
     evid e ''chatgpt'' ''authenticatedAndIdle'' = JBool True \<and>
     (\<forall>k \<in> {''messageSendAttempted'', ''profileSecretsRead'', ''otherProfilesTouched'', ''credentialsWritten''}.
        evid e ''safety'' k = JBool False) \<and>
     \<not> str_re operator_code_re (js_get e ''operatorBlocker'')"

abbreviation "clear checks \<equiv> list_all (\<lambda>(b, c). \<not> b) checks"

lemma str_re_Ex: "str_re p v \<longleftrightarrow> (\<exists>s. v = JStr s \<and> p s)"
  by (cases v) (simp_all add: str_re_def)

lemma js_eq_str: "js_eq a (JStr s) \<longleftrightarrow> a = JStr s" "js_eq (JStr s) b \<longleftrightarrow> b = JStr s" "js_eq a (JInt n) \<longleftrightarrow> a = JInt n"
  by (cases a; simp; auto)+

lemma source_clear: "clear (source_checks e) \<longleftrightarrow> source_ready e"
  by (auto simp: source_checks_def source_ready_def not_str_def not_true_def str_re_Ex js_eq_str)

lemma nonempty_pattern: "\<not> session_id_re []" "\<not> extension_id_re []"
  by (simp_all add: session_id_re_def extension_id_re_def class_rep_def)

lemma pattern_str: "\<not> p [] \<Longrightarrow> p (str_or_empty v) \<longleftrightarrow> (\<exists>s. v = JStr s \<and> p s)"
  by (cases v) simp_all

lemma version_reached: "\<not> version_below n v \<longleftrightarrow> (\<exists>m \<ge> n. versionMajor v = Some m)"
  by (auto simp: version_below_def not_less split: option.splits)

lemma runtime_clear: "clear (browser_checks e) \<longleftrightarrow> runtime_ready e"
  using pattern_str [where p = session_id_re, OF nonempty_pattern(1)] by (auto simp: browser_checks_def runtime_ready_def not_str_def not_true_def version_reached)

lemma profile_clear: "clear (profile_checks e) \<longleftrightarrow> profile_ready e"
  by (auto simp: profile_checks_def profile_ready_def not_true_def)

lemma bridge_clear: "clear (extension_checks e) \<and> clear (host_checks e) \<longleftrightarrow> bridge_ready e"
  using pattern_str [where p = extension_id_re, OF nonempty_pattern(2), of "evid e ''extension'' ''id''"]
  by (auto simp: extension_checks_def host_checks_def bridge_ready_def not_str_def not_true_def list_is_def js_eq_str
      expected_origin_def extension_id_def)

lemma operator_clear: "clear (chatgpt_checks e) \<and> clear (safety_checks e) \<longleftrightarrow> operator_ready e"
  by (auto simp: chatgpt_checks_def safety_checks_def operator_ready_def not_true_def not_false_def target_evaluated_def unique_target_def
      exclusivity_evaluated_def authentication_evaluated_def js_eq_str)

definition desktop_ready :: "jsval \<Rightarrow> bool" where
  "desktop_ready e \<longleftrightarrow> source_ready e \<and> runtime_ready e \<and> profile_ready e \<and> bridge_ready e \<and> operator_ready e"

lemma no_blockers: "blockers_of e = [] \<longleftrightarrow> desktop_ready e"
  unfolding blockers_of_def source_blockers_def add_all_empty later_checks_def list_all_append desktop_ready_def
    source_clear runtime_clear profile_clear using bridge_clear [of e] operator_clear [of e] by blast

text \<open>
  C27: the status is ready exactly for a desktop that meets every demand of its five parts: one
  commit that is the head, the remote main and the one the smoke test ran on; a supported runtime; a
  private exclusive profile; one extension of the permitted manifest that the native host is
  registered for; and an operator who confirmed one idle target and reported no blocker. Otherwise
  the status is blocked with at least one code. No code is listed twice, the source's come first, and
  neither status grants an authority.
\<close>

theorem ready_iff_every_demand:
  "js_get (evaluateF1DesktopReadiness sha e) ''real_chrome_status'' =
     JStr (if desktop_ready e then ''REAL_CHROME_READY'' else ''BLOCKED'') \<and>
   (\<exists>later. js_get (evaluateF1DesktopReadiness sha e) ''blocker_codes'' = JArr (map JStr (source_blockers e @ later)) \<and>
     distinct (source_blockers e @ later) \<and> (source_blockers e @ later = [] \<longleftrightarrow> desktop_ready e)) \<and>
   js_get (evaluateF1DesktopReadiness sha e) ''source_status'' = JStr (if source_ready e then ''SOURCE_SMOKE_PASS'' else ''SOURCE_SMOKE_BLOCKED'') \<and>
   js_get (js_get (evaluateF1DesktopReadiness sha e) ''authority'') ''assignment_authority'' = JStr ''NONE'' \<and>
   js_get (js_get (evaluateF1DesktopReadiness sha e) ''authority'') ''dispatch_authority'' = JStr ''NONE'' \<and>
   js_get (js_get (evaluateF1DesktopReadiness sha e) ''authority'') ''message_send_authority'' = JStr ''NONE''"
proof -
  have source: "source_blockers e = [] \<longleftrightarrow> source_ready e" by (simp add: source_blockers_def add_all_empty source_clear)
  obtain later where later: "blockers_of e = source_blockers e @ later" using add_all_prefix blockers_of_def by metis
  have "distinct (blockers_of e)" by (simp add: blockers_of_def source_blockers_def add_all_distinct)
  then have blockers: "\<exists>later. JArr (map JStr (blockers_of e)) = JArr (map JStr (source_blockers e @ later)) \<and>
      distinct (source_blockers e @ later) \<and> (source_blockers e @ later = [] \<longleftrightarrow> desktop_ready e)"
    using later no_blockers [of e] by metis
  have ready: "source_blockers e = [] \<and> blockers_of e = [] \<longleftrightarrow> desktop_ready e"
    using source no_blockers [of e] by (auto simp: desktop_ready_def)
  have fields: "js_get (evaluateF1DesktopReadiness sha e) ''real_chrome_status'' =
      JStr (if source_blockers e = [] \<and> blockers_of e = [] then ''REAL_CHROME_READY'' else ''BLOCKED'')"
    "js_get (evaluateF1DesktopReadiness sha e) ''blocker_codes'' = JArr (map JStr (blockers_of e))"
    "js_get (evaluateF1DesktopReadiness sha e) ''source_status'' =
      JStr (if source_blockers e = [] then ''SOURCE_SMOKE_PASS'' else ''SOURCE_SMOKE_BLOCKED'')"
    "js_get (evaluateF1DesktopReadiness sha e) ''authority'' = authority_report"
    by (simp_all add: evaluateF1DesktopReadiness_def Let_def)
  show ?thesis unfolding fields ready using blockers source by (intro conjI) (simp_all add: authority_report_def)
qed

text \<open>The host's registered origin then fits the pattern the native policy asks of an origin.\<close>

lemma extension_origin: "extension_id_re i \<Longrightarrow> origin_re (''chrome-extension://'' @ i @ ''/'')"
proof -
  assume "extension_id_re i"
  then have i: "length i = 32" "list_all (in_range CHR ''a'' CHR ''p'') i" by (simp_all add: extension_id_re_def class_rep_def)
  obtain p where p: "p = ''chrome-extension://''" "length p = 19" by simp
  have "length (p @ i @ ''/'') = 52" "take 32 (drop 19 (p @ i @ ''/'')) = i" "(p @ i @ ''/'') ! 51 = CHR ''/''"
    using i(1) p(2) by (simp_all add: nth_append)
  moreover have "starts_with (p @ i @ ''/'') p" by simp
  ultimately show ?thesis unfolding origin_re_def p(1) [symmetric] using i(2) by simp
qed

lemma ready_origin_admissible:
  "desktop_ready e \<Longrightarrow> \<exists>origin. evid e ''nativeHost'' ''origin'' = JStr origin \<and> origin_re origin"
  using extension_origin by (auto simp: desktop_ready_def bridge_ready_def)

text \<open>A later confirmation is reported only after every earlier one was given.\<close>

lemma confirmations_in_order:
  "js_get (chatgpt_report e) ''authenticated_and_idle'' \<noteq> JNull \<Longrightarrow> js_get (chatgpt_report e) ''target_exclusivity_attested'' = JBool True"
  "js_get (chatgpt_report e) ''target_exclusivity_attested'' \<noteq> JNull \<Longrightarrow> js_get (chatgpt_report e) ''open_target_count'' = JInt 1"
  by (auto simp: chatgpt_report_def authentication_evaluated_def exclusivity_evaluated_def unique_target_def js_eq_str split: if_splits)

section \<open>What a report discloses\<close>

text \<open>
  The report shows of the two paths on the desktop nothing but their hashes and whether the
  profile's is safe. Two desktops whose evidence agrees in all else, whose paths have the same hashes
  and are both safe or both not, are given the same report.
\<close>

theorem report_hides_paths:
  assumes "\<And>part k. k \<noteq> ''path'' \<Longrightarrow> evid e part k = evid e' part k"
    and "js_get e ''readinessSessionId'' = js_get e' ''readinessSessionId''" and "js_get e ''operatorBlocker'' = js_get e' ''operatorBlocker''"
    and "hasSafeAbsolutePath (evid e ''profile'' ''path'') = hasSafeAbsolutePath (evid e' ''profile'' ''path'')"
    and "shaPath sha (evid e ''profile'' ''path'') = shaPath sha (evid e' ''profile'' ''path'')"
    and "shaPath sha (evid e ''extension'' ''path'') = shaPath sha (evid e' ''extension'' ''path'')"
  shows "evaluateF1DesktopReadiness sha e = evaluateF1DesktopReadiness sha e'"
proof -
  note same = assms
  have id: "extension_id e = extension_id e'" "expected_origin e = expected_origin e'"
    by (simp_all add: extension_id_def expected_origin_def same)
  have eval: "target_evaluated e = target_evaluated e'" "unique_target e = unique_target e'"
    "exclusivity_evaluated e = exclusivity_evaluated e'" "authentication_evaluated e = authentication_evaluated e'"
    by (simp_all add: target_evaluated_def unique_target_def exclusivity_evaluated_def authentication_evaluated_def same)
  have "source_checks e = source_checks e'" by (simp add: source_checks_def same)
  then have source: "source_blockers e = source_blockers e'" by (simp add: source_blockers_def)
  have "browser_checks e = browser_checks e'" by (simp add: browser_checks_def same)
  moreover have "profile_checks e = profile_checks e'" by (simp add: profile_checks_def same)
  moreover have "extension_checks e = extension_checks e'" by (simp add: extension_checks_def same id)
  moreover have "host_checks e = host_checks e'" by (simp add: host_checks_def same id)
  moreover have "chatgpt_checks e = chatgpt_checks e'" by (simp add: chatgpt_checks_def same eval)
  moreover have "safety_checks e = safety_checks e'" by (simp add: safety_checks_def same)
  ultimately have blockers: "blockers_of e = blockers_of e'" by (simp add: blockers_of_def later_checks_def source)
  have "source_report e = source_report e'" by (simp add: source_report_def same)
  moreover have "browser_report sha e = browser_report sha e'" by (simp add: browser_report_def same)
  moreover have "extension_report sha e = extension_report sha e'" by (simp add: extension_report_def same id)
  moreover have "host_report e = host_report e'" by (simp add: host_report_def same id)
  moreover have "chatgpt_report e = chatgpt_report e'" by (simp add: chatgpt_report_def same eval)
  moreover have "safety_report e = safety_report e'" by (simp add: safety_report_def same)
  ultimately show ?thesis using source blockers by (simp add: evaluateF1DesktopReadiness_def same(2))
qed

definition sample_evidence :: "string \<Rightarrow> jsval" where
  "sample_evidence path = JObj [(''profile'', JObj [(''path'', JStr path), (''exists'', JBool True)])]"

theorem report_hides_paths_witness:
  "evaluateF1DesktopReadiness (\<lambda>s. int_string (int (length s))) (sample_evidence ''/home/a'') =
   evaluateF1DesktopReadiness (\<lambda>s. int_string (int (length s))) (sample_evidence ''/home/b'') \<and>
   sample_evidence ''/home/a'' \<noteq> sample_evidence ''/home/b''"
proof -
  have safe: "hasSafeAbsolutePath (JStr ''/home/a'') = hasSafeAbsolutePath (JStr ''/home/b'')" by code_simp
  have "evaluateF1DesktopReadiness (\<lambda>s. int_string (int (length s))) (sample_evidence ''/home/a'') =
     evaluateF1DesktopReadiness (\<lambda>s. int_string (int (length s))) (sample_evidence ''/home/b'')"
    by (rule report_hides_paths) (simp_all add: sample_evidence_def evid_def shaPath_def safe)
  then show ?thesis by (simp add: sample_evidence_def)
qed

end
