(* ===== verification/WorkerProbe.thy ===== *)
theory WorkerProbe imports ExtensionBase
begin

text \<open>
  \<open>worker-extension/worker-probe.js\<close>, the content script inside the Android worker's browser: it
  takes a prompt from the native side, writes it into the composer and clicks the send button once
  that is ready, reports the page's state, and keeps a port to the native side. The page is not part of
  the program: what the script finds in it is given with each step. Every dispatch is cut where it
  sleeps, so any number of them interleave with each other and with the page.
\<close>

section \<open>State\<close>

definition PROBE_PROTOCOL :: int where "PROBE_PROTOCOL = 1"

definition SEND_WAIT_MS :: int where "SEND_WAIT_MS = 1500"

text \<open>The element found as the composer: a text area with or without a value setter, an editable element, another.\<close>

datatype composer = TextArea bool | Editable | OtherElement

record page_view =
  pv_chatgpt :: bool
  pv_busy :: bool
  pv_composer :: "composer option"

text \<open>What one turn of the waiting loop, and the steps after it, find: the time, an enabled send button, a busy turn, a port that takes messages.\<close>

record observation =
  ob_now :: int
  ob_ready :: bool
  ob_busy :: bool
  ob_post_ok :: bool

record waiting =
  wt_command :: jsval
  wt_deadline :: int

text \<open>
  \<open>pb_text\<close> is the composer's text; \<open>pb_clicks\<close> lists the clicks with the delivery that caused them
  and the text at that moment, \<open>pb_posts\<close> the messages a port took. \<open>pb_lost\<close> is not kept by the code: the
  messages that went nowhere, because no port was open or because its \<open>postMessage\<close> threw. Ports are
  numbered in the order they were opened.
\<close>

record probe =
  pb_text :: string
  pb_waiting :: "waiting list"
  pb_clicks :: "(jsval \<times> string) list"
  pb_posts :: "jsval list"
  pb_lost :: "jsval list"
  pb_stable :: string
  pb_port :: "nat option"
  pb_reconnect :: bool
  pb_ports :: nat

definition fresh_probe :: probe where
  "fresh_probe = \<lparr>pb_text = [], pb_waiting = [], pb_clicks = [], pb_posts = [], pb_lost = [], pb_stable = [], pb_port = None,
     pb_reconnect = False, pb_ports = 0\<rparr>"

section \<open>The port\<close>

definition schedulePortReconnect :: "probe \<Rightarrow> probe" where
  "schedulePortReconnect s = s\<lparr>pb_port := None, pb_reconnect := True\<rparr>"

text \<open>\<open>nativePort?.postMessage\<close>: without a port nothing is sent and nothing is scheduled.\<close>

definition postNative :: "bool \<Rightarrow> jsval \<Rightarrow> probe \<Rightarrow> probe" where
  "postNative takes m s =
     (case pb_port s of None \<Rightarrow> s\<lparr>pb_lost := pb_lost s @ [m]\<rparr>
      | Some p \<Rightarrow> if takes then s\<lparr>pb_posts := pb_posts s @ [m]\<rparr>
                  else schedulePortReconnect (s\<lparr>pb_lost := pb_lost s @ [m]\<rparr>))"

record page_status =
  ps_observedAt :: string
  ps_pageUrl :: string
  ps_composer :: bool
  ps_busy :: bool

definition stable_fields :: "page_status \<Rightarrow> (string \<times> jsval) list" where
  "stable_fields p = [(''pageUrl'', JStr (ps_pageUrl p)), (''composerAvailable'', JBool (ps_composer p)), (''turnBusy'', JBool (ps_busy p))]"

definition status_message :: "page_status \<Rightarrow> jsval" where
  "status_message p = JObj ([(''type'', JStr ''worker_status''), (''protocolVersion'', JInt PROBE_PROTOCOL),
     (''observedAt'', JStr (ps_observedAt p))] @ stable_fields p)"

definition report :: "bool \<Rightarrow> page_status \<Rightarrow> bool \<Rightarrow> probe \<Rightarrow> probe" where
  "report force p takes s =
     (let stable = the (json_stringify (JObj (stable_fields p))) in
      if \<not> force \<and> stable = pb_stable s then s else postNative takes (status_message p) (s\<lparr>pb_stable := stable\<rparr>))"

text \<open>Opening a port succeeds or throws; a port that opens is reported to.\<close>

definition connectNativePort :: "bool \<Rightarrow> page_status \<Rightarrow> bool \<Rightarrow> probe \<Rightarrow> probe" where
  "connectNativePort opens p takes s =
     (if pb_port s \<noteq> None then s
      else if opens then report True p takes (s\<lparr>pb_port := Some (pb_ports s), pb_ports := Suc (pb_ports s)\<rparr>)
      else schedulePortReconnect s)"

definition port_disconnected :: "nat \<Rightarrow> probe \<Rightarrow> probe" where
  "port_disconnected p s = schedulePortReconnect (if pb_port s = Some p then s\<lparr>pb_port := None\<rparr> else s)"

definition reconnect_timer :: "bool \<Rightarrow> page_status \<Rightarrow> bool \<Rightarrow> probe \<Rightarrow> probe" where
  "reconnect_timer opens p takes s =
     (if pb_reconnect s then connectNativePort opens p takes (s\<lparr>pb_reconnect := False\<rparr>) else s)"

section \<open>Dispatch\<close>

definition COMMAND_FIELDS :: "string list" where
  "COMMAND_FIELDS = [''type'', ''protocolVersion'', ''deliveryId'', ''prompt'']"

definition valid_command :: "jsval \<Rightarrow> bool" where
  "valid_command c \<longleftrightarrow> sort (js_keys c) = sort COMMAND_FIELDS \<and> js_eq (js_get c ''type'') (JStr ''dispatch_prompt'') \<and>
     js_eq (js_get c ''protocolVersion'') (JInt PROBE_PROTOCOL) \<and> str_re delivery_re (js_get c ''deliveryId'') \<and>
     is_JStr (js_get c ''prompt'') \<and> 1 \<le> length (str_or_empty (js_get c ''prompt'')) \<and> length (str_or_empty (js_get c ''prompt'')) \<le> 4096"

definition dispatch_result :: "jsval \<Rightarrow> bool \<Rightarrow> jsval \<Rightarrow> jsval" where
  "dispatch_result command accepted err = JObj [(''type'', JStr ''dispatch_result''), (''protocolVersion'', JInt PROBE_PROTOCOL),
     (''deliveryId'', js_get command ''deliveryId''), (''accepted'', JBool accepted), (''error'', err)]"

definition prompt_of :: "jsval \<Rightarrow> string" where
  "prompt_of command = str_or_empty (js_get command ''prompt'')"

text \<open>The composer's new text, or nothing when it could not be set.\<close>

definition setComposerValue :: "composer \<Rightarrow> string \<Rightarrow> string option" where
  "setComposerValue c prompt = (case c of TextArea has_setter \<Rightarrow> if has_setter then Some prompt else None
     | Editable \<Rightarrow> Some prompt | OtherElement \<Rightarrow> None)"

definition refuse :: "jsval \<Rightarrow> string \<Rightarrow> observation \<Rightarrow> probe \<Rightarrow> probe" where
  "refuse command why obs s = postNative (ob_post_ok obs) (dispatch_result command False (JStr why)) s"

text \<open>After the wait, with or without a button.\<close>

definition click_or_refuse :: "jsval \<Rightarrow> bool \<Rightarrow> observation \<Rightarrow> probe \<Rightarrow> probe" where
  "click_or_refuse command button obs s =
     (if \<not> button \<or> ob_busy obs then refuse command ''SEND_UNAVAILABLE_AFTER_WRITE'' obs s
      else postNative (ob_post_ok obs) (dispatch_result command True JNull)
        (s\<lparr>pb_clicks := pb_clicks s @ [(js_get command ''deliveryId'', pb_text s)]\<rparr>))"

text \<open>One turn of \<open>waitForSendButtonReady\<close>: the button, no button, or another sleep.\<close>

definition wait_turn :: "int \<Rightarrow> observation \<Rightarrow> bool option" where
  "wait_turn deadline obs = (if ob_now obs < deadline then if ob_ready obs then Some True else None else Some False)"

definition dispatchPrompt :: "jsval \<Rightarrow> page_view \<Rightarrow> observation \<Rightarrow> probe \<Rightarrow> probe" where
  "dispatchPrompt command v obs s =
     (if \<not> valid_command command then s
      else if \<not> pv_chatgpt v \<or> pv_busy v then refuse command ''CHATGPT_NOT_READY'' obs s
      else case pv_composer v of None \<Rightarrow> refuse command ''COMPOSER_UNAVAILABLE'' obs s
      | Some c \<Rightarrow>
          (case setComposerValue c (prompt_of command) of None \<Rightarrow> refuse command ''COMPOSER_WRITE_FAILED'' obs s
           | Some t \<Rightarrow>
               let s' = s\<lparr>pb_text := t\<rparr>; deadline = ob_now obs + SEND_WAIT_MS in
               (case wait_turn deadline obs of Some button \<Rightarrow> click_or_refuse command button obs s'
                | None \<Rightarrow> s'\<lparr>pb_waiting := pb_waiting s' @ [\<lparr>wt_command = command, wt_deadline = deadline\<rparr>]\<rparr>)))"

definition handleNativeCommand :: "jsval \<Rightarrow> page_view \<Rightarrow> observation \<Rightarrow> probe \<Rightarrow> probe" where
  "handleNativeCommand m v obs s = (if \<not> is_reference m then s else dispatchPrompt m v obs s)"

text \<open>A sleep of the \<open>i\<close>-th waiting dispatch ends.\<close>

definition wake_dispatch :: "nat \<Rightarrow> observation \<Rightarrow> probe \<Rightarrow> probe" where
  "wake_dispatch i obs s =
     (if i < length (pb_waiting s) then
        (case wait_turn (wt_deadline (pb_waiting s ! i)) obs of None \<Rightarrow> s
         | Some button \<Rightarrow> click_or_refuse (wt_command (pb_waiting s ! i)) button obs
             (s\<lparr>pb_waiting := take i (pb_waiting s) @ drop (Suc i) (pb_waiting s)\<rparr>))
      else s)"

section \<open>Runs\<close>

text \<open>\<open>PageText\<close> is the page or its user changing the composer.\<close>

datatype probe_event =
    Command jsval page_view observation
  | Woken nat observation
  | PageText string
  | Report bool page_status bool
  | PortClosed nat
  | ReconnectDue bool page_status bool

fun probe_step :: "probe_event \<Rightarrow> probe \<Rightarrow> probe" where
  "probe_step (Command m v obs) s = handleNativeCommand m v obs s"
| "probe_step (Woken i obs) s = wake_dispatch i obs s"
| "probe_step (PageText t) s = s\<lparr>pb_text := t\<rparr>"
| "probe_step (Report force p takes) s = report force p takes s"
| "probe_step (PortClosed p) s = port_disconnected p s"
| "probe_step (ReconnectDue opens p takes) s = reconnect_timer opens p takes s"

definition probe_run :: "probe_event list \<Rightarrow> probe \<Rightarrow> probe" where
  "probe_run evs s = fold probe_step evs s"

text \<open>The script starts by opening a port.\<close>

definition started_probe :: "bool \<Rightarrow> page_status \<Rightarrow> bool \<Rightarrow> probe" where
  "started_probe opens p takes = connectNativePort opens p takes fresh_probe"

section \<open>Every command is answered once\<close>

text \<open>The results among messages: the delivery and whether it was accepted.\<close>

definition results_of :: "jsval list \<Rightarrow> (jsval \<times> jsval) list" where
  "results_of posts = concat (map (\<lambda>m. if js_get m ''type'' = JStr ''dispatch_result''
     then [(js_get m ''deliveryId'', js_get m ''accepted'')] else []) posts)"

lemma results_of_simps [simp]:
  "results_of [] = []" "results_of (xs @ ys) = results_of xs @ results_of ys"
  "results_of [dispatch_result c a e] = [(js_get c ''deliveryId'', JBool a)]"
  "results_of [status_message p] = []"
  by (simp_all add: results_of_def dispatch_result_def status_message_def)

text \<open>A message is delivered when a port is open and takes it.\<close>

definition port_takes :: "bool \<Rightarrow> probe \<Rightarrow> bool" where
  "port_takes takes s \<longleftrightarrow> pb_port s \<noteq> None \<and> takes"

lemma postNative_simps [simp]:
  "pb_text (postNative t m s) = pb_text s" "pb_waiting (postNative t m s) = pb_waiting s" "pb_clicks (postNative t m s) = pb_clicks s"
  "pb_posts (postNative t m s) = pb_posts s @ (if port_takes t s then [m] else [])"
  "pb_lost (postNative t m s) = pb_lost s @ (if port_takes t s then [] else [m])"
  by (auto simp: postNative_def schedulePortReconnect_def port_takes_def split: option.split)

definition commands_of :: "probe_event list \<Rightarrow> jsval list" where
  "commands_of evs = filter (\<lambda>c. is_reference c \<and> valid_command c) (concat (map (\<lambda>e. case e of Command m v obs \<Rightarrow> [m] | _ \<Rightarrow> []) evs))"

text \<open>
  An account of a probe: the commands that were answered, each with its answer and whether a port took
  it. The results delivered, the results lost and the clicks are the account's, in its order.
\<close>

record answer =
  an_command :: jsval
  an_accepted :: bool
  an_delivered :: bool

definition answer_id :: "answer \<Rightarrow> jsval" where
  "answer_id a = js_get (an_command a) ''deliveryId''"

definition result_of :: "answer \<Rightarrow> jsval \<times> jsval" where
  "result_of a = (answer_id a, JBool (an_accepted a))"

definition accounts :: "answer list \<Rightarrow> probe \<Rightarrow> bool" where
  "accounts outs s \<longleftrightarrow> results_of (pb_posts s) = map result_of (filter an_delivered outs) \<and>
     results_of (pb_lost s) = map result_of (filter (\<lambda>a. \<not> an_delivered a) outs) \<and>
     map fst (pb_clicks s) = map answer_id (filter an_accepted outs)"

text \<open>What the rest of the script does changes none of this.\<close>

lemma other_step:
  assumes "\<forall>m v obs. e \<noteq> Command m v obs" and "\<forall>i obs. e \<noteq> Woken i obs"
  shows "pb_waiting (probe_step e s) = pb_waiting s \<and> pb_clicks (probe_step e s) = pb_clicks s \<and>
    results_of (pb_posts (probe_step e s)) = results_of (pb_posts s) \<and> results_of (pb_lost (probe_step e s)) = results_of (pb_lost s) \<and>
    ((\<forall>t. e \<noteq> PageText t) \<longrightarrow> pb_text (probe_step e s) = pb_text s)"
proof -
  have rep: "pb_waiting (report f p t s) = pb_waiting s \<and> pb_clicks (report f p t s) = pb_clicks s \<and>
    results_of (pb_posts (report f p t s)) = results_of (pb_posts s) \<and>
    results_of (pb_lost (report f p t s)) = results_of (pb_lost s) \<and> pb_text (report f p t s) = pb_text s" for f p t s
    by (simp add: report_def Let_def)
  show ?thesis using assms
    by (cases e) (auto simp: rep port_disconnected_def reconnect_timer_def connectNativePort_def schedulePortReconnect_def)
qed

text \<open>One more answer.\<close>

definition answered :: "jsval \<Rightarrow> bool \<Rightarrow> observation \<Rightarrow> probe \<Rightarrow> answer" where
  "answered c accepted obs s = \<lparr>an_command = c, an_accepted = accepted, an_delivered = port_takes (ob_post_ok obs) s\<rparr>"

lemma answered_simps [simp]:
  "an_command (answered c a obs s) = c" "an_accepted (answered c a obs s) = a"
  "an_delivered (answered c a obs s) = port_takes (ob_post_ok obs) s"
  by (simp_all add: answered_def)

lemma port_takes_kept [simp]: "port_takes t (s\<lparr>pb_clicks := k\<rparr>) = port_takes t s"
  by (simp add: port_takes_def)

lemma accounts_refuse: "accounts outs s \<Longrightarrow> accounts (outs @ [answered c False obs s]) (refuse c why obs s)"
  by (auto simp: accounts_def refuse_def result_of_def answer_id_def)

lemma accounts_click:
  assumes "accounts outs s"
  shows "accounts (outs @ [answered c (button \<and> \<not> ob_busy obs) obs s]) (click_or_refuse c button obs s)"
  using assms accounts_refuse [OF assms] by (auto simp: click_or_refuse_def accounts_def result_of_def answer_id_def)

lemma click_or_refuse_simps [simp]:
  "pb_waiting (click_or_refuse c b obs s) = pb_waiting s" "pb_text (click_or_refuse c b obs s) = pb_text s"
  "pb_clicks (click_or_refuse c b obs s) = (if b \<and> \<not> ob_busy obs then pb_clicks s @ [(js_get c ''deliveryId'', pb_text s)] else pb_clicks s)"
  "pb_waiting (refuse c why obs s) = pb_waiting s" "pb_text (refuse c why obs s) = pb_text s" "pb_clicks (refuse c why obs s) = pb_clicks s"
  by (auto simp: click_or_refuse_def refuse_def)

lemma accounts_text [simp]: "accounts outs (s\<lparr>pb_text := t\<rparr>) = accounts outs s" "accounts outs (s\<lparr>pb_waiting := w\<rparr>) = accounts outs s"
  by (simp_all add: accounts_def)

text \<open>A dispatch answers its command at once or waits; the text written is the command's prompt.\<close>

lemma probe_dispatch_cases:
  assumes "accounts outs s" and "valid_command c"
  shows "(\<exists>a. an_command a = c \<and> accounts (outs @ [a]) (dispatchPrompt c v obs s) \<and> pb_waiting (dispatchPrompt c v obs s) = pb_waiting s \<and>
      pb_clicks (dispatchPrompt c v obs s) = pb_clicks s @ (if an_accepted a then [(js_get c ''deliveryId'', prompt_of c)] else [])) \<or>
    (\<exists>d. accounts outs (dispatchPrompt c v obs s) \<and> pb_waiting (dispatchPrompt c v obs s) = pb_waiting s @ [\<lparr>wt_command = c, wt_deadline = d\<rparr>] \<and>
      pb_clicks (dispatchPrompt c v obs s) = pb_clicks s \<and> pb_text (dispatchPrompt c v obs s) = prompt_of c)"
proof (cases "\<not> pv_chatgpt v \<or> pv_busy v \<or> pv_composer v = None \<or> setComposerValue (the (pv_composer v)) (prompt_of c) = None")
  case True
  then have "\<exists>why. dispatchPrompt c v obs s = refuse c why obs s"
    using assms(2) by (auto simp: dispatchPrompt_def split: option.split)
  then obtain why where "dispatchPrompt c v obs s = refuse c why obs s" ..
  then show ?thesis using accounts_refuse [OF assms(1), of c obs why]
    by (intro disjI1 exI [of _ "answered c False obs s"]) simp
next
  case False
  then obtain k where k: "pv_composer v = Some k" "setComposerValue k (prompt_of c) = Some (prompt_of c)"
    by (auto simp: setComposerValue_def split: composer.splits if_splits)
  let ?s = "s\<lparr>pb_text := prompt_of c\<rparr>"
  show ?thesis
  proof (cases "wait_turn (ob_now obs + SEND_WAIT_MS) obs")
    case None
    then show ?thesis using False k assms by (simp add: dispatchPrompt_def Let_def)
  next
    case (Some button)
    then have "dispatchPrompt c v obs s = click_or_refuse c button obs ?s" using False k assms(2) by (simp add: dispatchPrompt_def Let_def)
    then show ?thesis using accounts_click [of outs ?s c button obs] assms(1)
      by (intro disjI1 exI [of _ "answered c (button \<and> \<not> ob_busy obs) obs ?s"]) simp
  qed
qed

lemma wake_cases:
  assumes "accounts outs s"
  shows "wake_dispatch i obs s = s \<or>
    (\<exists>a. i < length (pb_waiting s) \<and> an_command a = wt_command (pb_waiting s ! i) \<and> accounts (outs @ [a]) (wake_dispatch i obs s) \<and>
      pb_waiting (wake_dispatch i obs s) = take i (pb_waiting s) @ drop (Suc i) (pb_waiting s) \<and>
      pb_clicks (wake_dispatch i obs s) = pb_clicks s @ (if an_accepted a then [(js_get (wt_command (pb_waiting s ! i)) ''deliveryId'', pb_text s)] else []))"
proof -
  let ?s = "s\<lparr>pb_waiting := take i (pb_waiting s) @ drop (Suc i) (pb_waiting s)\<rparr>"
  consider "wake_dispatch i obs s = s"
    | button where "i < length (pb_waiting s)" "wake_dispatch i obs s = click_or_refuse (wt_command (pb_waiting s ! i)) button obs ?s"
  proof (cases "i < length (pb_waiting s)")
    case True
    then show ?thesis using that by (cases "wait_turn (wt_deadline (pb_waiting s ! i)) obs") (simp_all add: wake_dispatch_def)
  next
    case False
    then show ?thesis using that by (simp add: wake_dispatch_def)
  qed
  then show ?thesis
  proof cases
    case 1
    then show ?thesis by simp
  next
    case 2
    then show ?thesis using accounts_click [of outs ?s "wt_command (pb_waiting s ! i)" button obs] assms
      by (intro disjI2 exI [of _ "answered (wt_command (pb_waiting s ! i)) (button \<and> \<not> ob_busy obs) obs ?s"]) simp
  qed
qed

lemma probe_run_snoc: "probe_run (evs @ [e]) s = probe_step e (probe_run evs s)"
  by (simp add: probe_run_def)

lemma commands_of_snoc:
  "commands_of (evs @ [e]) = commands_of evs @ (case e of Command m v obs \<Rightarrow> if is_reference m \<and> valid_command m then [m] else [] | _ \<Rightarrow> [])"
  by (cases e) (simp_all add: commands_of_def)

lemma mset_remove_nth: "i < length xs \<Longrightarrow> add_mset (f (xs ! i)) (mset (map f (take i xs @ drop (Suc i) xs))) = mset (map f xs)"
proof -
  assume "i < length xs"
  then have "xs = take i xs @ xs ! i # drop (Suc i) xs" by (simp add: id_take_nth_drop)
  then have "mset (map f xs) = mset (map f (take i xs @ xs ! i # drop (Suc i) xs))" by metis
  then show ?thesis by simp
qed

lemma command_ignored: "\<not> (is_reference m \<and> valid_command m) \<Longrightarrow> handleNativeCommand m v obs s = s"
  by (simp add: handleNativeCommand_def dispatchPrompt_def)

text \<open>In every run, whatever interleaves, each command is answered at most once and each accepted one was clicked for.\<close>

lemma answered_once:
  assumes "accounts [] s" and "pb_waiting s = []"
  shows "\<exists>outs. accounts outs (probe_run evs s) \<and>
    mset (map an_command outs) + mset (map wt_command (pb_waiting (probe_run evs s))) = mset (commands_of evs)"
proof (induction evs rule: rev_induct)
  case Nil
  then show ?case using assms by (intro exI [of _ "[]"]) (simp add: probe_run_def commands_of_def)
next
  case (snoc e evs)
  let ?s = "probe_run evs s"
  obtain outs where outs: "accounts outs ?s" "mset (map an_command outs) + mset (map wt_command (pb_waiting ?s)) = mset (commands_of evs)"
    using snoc by blast
  show ?case
  proof (cases "(\<exists>m v obs. e = Command m v obs) \<or> (\<exists>i obs. e = Woken i obs)")
    case False
    then have "accounts outs (probe_step e ?s)" "pb_waiting (probe_step e ?s) = pb_waiting ?s" "commands_of (evs @ [e]) = commands_of evs"
      using outs(1) other_step [of e ?s] by (auto simp: accounts_def commands_of_snoc split: probe_event.split)
    then show ?thesis using outs unfolding probe_run_snoc by (intro exI [of _ outs]) simp
  next
    case True
    then show ?thesis
    proof
      assume "\<exists>m v obs. e = Command m v obs"
      then obtain m v obs where e: "e = Command m v obs" by blast
      show ?thesis
      proof (cases "is_reference m \<and> valid_command m")
        case False
        then show ?thesis using outs command_ignored [OF False] unfolding probe_run_snoc e by (intro exI [of _ outs]) (auto simp: commands_of_snoc)
      next
        case ok: True
        then have step: "probe_step e ?s = dispatchPrompt m v obs ?s" using e by (simp add: handleNativeCommand_def)
        have cmds: "commands_of (evs @ [e]) = commands_of evs @ [m]" using ok e by (simp add: commands_of_snoc)
        consider (answered) a where "an_command a = m" "accounts (outs @ [a]) (dispatchPrompt m v obs ?s)" "pb_waiting (dispatchPrompt m v obs ?s) = pb_waiting ?s"
          | (waits) d where "accounts outs (dispatchPrompt m v obs ?s)"
            "pb_waiting (dispatchPrompt m v obs ?s) = pb_waiting ?s @ [\<lparr>wt_command = m, wt_deadline = d\<rparr>]"
          using probe_dispatch_cases [OF outs(1), of m v obs] ok by blast
        then show ?thesis
        proof cases
          case answered
          then show ?thesis unfolding probe_run_snoc step cmds using outs(2) [symmetric] by (intro exI [of _ "outs @ [a]"]) simp
        next
          case waits
          then show ?thesis unfolding probe_run_snoc step cmds using outs(2) [symmetric] by (intro exI [of _ outs]) simp
        qed
      qed
    next
      assume "\<exists>i obs. e = Woken i obs"
      then obtain i obs where e: "e = Woken i obs" by blast
      have cmds: "commands_of (evs @ [e]) = commands_of evs" using e by (simp add: commands_of_snoc)
      consider (sleeps) "wake_dispatch i obs ?s = ?s"
        | (answered) a where "i < length (pb_waiting ?s)" "an_command a = wt_command (pb_waiting ?s ! i)" "accounts (outs @ [a]) (wake_dispatch i obs ?s)"
          "pb_waiting (wake_dispatch i obs ?s) = take i (pb_waiting ?s) @ drop (Suc i) (pb_waiting ?s)"
        using wake_cases [OF outs(1), of i obs] by blast
      then show ?thesis
      proof cases
        case sleeps
        then show ?thesis unfolding probe_run_snoc cmds using outs e by auto
      next
        case answered
        then show ?thesis unfolding probe_run_snoc cmds using outs(2) [symmetric] mset_remove_nth [OF answered(1), of wt_command] e
          by (intro exI [of _ "outs @ [a]"]) simp
      qed
    qed
  qed
qed

section \<open>One dispatch at a time\<close>

text \<open>
  The native side sends a command only when none waits, and the composer is left alone while one
  does. The native side's part is its documented contract.
\<close>

fun serial_event :: "probe_event \<Rightarrow> probe \<Rightarrow> bool" where
  "serial_event (Command m v obs) s = (pb_waiting s = [] \<or> \<not> (is_reference m \<and> valid_command m))"
| "serial_event (PageText t) s = (pb_waiting s = [])"
| "serial_event _ s = True"

fun serial :: "probe_event list \<Rightarrow> probe \<Rightarrow> bool" where
  "serial [] s = True"
| "serial (e # es) s = (serial_event e s \<and> serial es (probe_step e s))"

lemma serial_snoc: "serial (evs @ [e]) s \<longleftrightarrow> serial evs s \<and> serial_event e (probe_run evs s)"
  by (induction evs arbitrary: s) (simp_all add: probe_run_def)

text \<open>The state of such a run: at most one dispatch waits, and the composer holds its prompt.\<close>

definition serial_ok :: "answer list \<Rightarrow> jsval list \<Rightarrow> probe \<Rightarrow> bool" where
  "serial_ok outs cmds s \<longleftrightarrow> accounts outs s \<and> map an_command outs @ map wt_command (pb_waiting s) = cmds \<and>
     pb_clicks s = map (\<lambda>a. (answer_id a, prompt_of (an_command a))) (filter an_accepted outs) \<and>
     (pb_waiting s = [] \<or> (\<exists>w. pb_waiting s = [w] \<and> pb_text s = prompt_of (wt_command w)))"

lemma serial_ok_step:
  assumes "serial_ok outs (commands_of evs) s" and "serial_event e s" and "s = probe_run evs s0"
  shows "\<exists>outs'. serial_ok outs' (commands_of (evs @ [e])) (probe_step e s)"
proof -
  have acc: "accounts outs s" and cmds: "map an_command outs @ map wt_command (pb_waiting s) = commands_of evs"
    and clicks: "pb_clicks s = map (\<lambda>a. (answer_id a, prompt_of (an_command a))) (filter an_accepted outs)"
    and one: "pb_waiting s = [] \<or> (\<exists>w. pb_waiting s = [w] \<and> pb_text s = prompt_of (wt_command w))"
    using assms(1) by (simp_all add: serial_ok_def)
  consider (command) m v obs where "e = Command m v obs" "is_reference m \<and> valid_command m" "pb_waiting s = []"
    | (ignored) m v obs where "e = Command m v obs" "\<not> (is_reference m \<and> valid_command m)"
    | (woken) i obs where "e = Woken i obs"
    | (other) "\<forall>m v obs. e \<noteq> Command m v obs" "\<forall>i obs. e \<noteq> Woken i obs"
    using assms(2) by (cases e) auto
  then show ?thesis
  proof cases
    case command
    have step: "probe_step e s = dispatchPrompt m v obs s" using command by (simp add: handleNativeCommand_def)
    have more: "commands_of (evs @ [e]) = commands_of evs @ [m]" using command by (simp add: commands_of_snoc)
    have valid: "valid_command m" using command by simp
    consider a where "an_command a = m" "accounts (outs @ [a]) (dispatchPrompt m v obs s)" "pb_waiting (dispatchPrompt m v obs s) = pb_waiting s"
        "pb_clicks (dispatchPrompt m v obs s) = pb_clicks s @ (if an_accepted a then [(js_get m ''deliveryId'', prompt_of m)] else [])"
      | d where "accounts outs (dispatchPrompt m v obs s)" "pb_waiting (dispatchPrompt m v obs s) = pb_waiting s @ [\<lparr>wt_command = m, wt_deadline = d\<rparr>]"
        "pb_clicks (dispatchPrompt m v obs s) = pb_clicks s" "pb_text (dispatchPrompt m v obs s) = prompt_of m"
      using probe_dispatch_cases [OF acc valid, of v obs] by blast
    then show ?thesis
    proof cases
      case 1
      then show ?thesis unfolding step more using cmds clicks command(3) by (intro exI [of _ "outs @ [a]"]) (simp add: serial_ok_def answer_id_def)
    next
      case 2
      then show ?thesis unfolding step more using cmds clicks command(3) by (intro exI [of _ outs]) (simp add: serial_ok_def)
    qed
  next
    case ignored
    then have "probe_step e s = s" "commands_of (evs @ [e]) = commands_of evs"
      using command_ignored by (simp, auto simp: commands_of_snoc)
    then show ?thesis using assms(1) by auto
  next
    case woken
    have more: "commands_of (evs @ [e]) = commands_of evs" using woken by (simp add: commands_of_snoc)
    consider "wake_dispatch i obs s = s"
      | a where "i < length (pb_waiting s)" "an_command a = wt_command (pb_waiting s ! i)" "accounts (outs @ [a]) (wake_dispatch i obs s)"
        "pb_waiting (wake_dispatch i obs s) = take i (pb_waiting s) @ drop (Suc i) (pb_waiting s)"
        "pb_clicks (wake_dispatch i obs s) = pb_clicks s @ (if an_accepted a then [(js_get (wt_command (pb_waiting s ! i)) ''deliveryId'', pb_text s)] else [])"
      using wake_cases [OF acc, of i obs] by blast
    then show ?thesis
    proof cases
      case 1
      then show ?thesis using assms(1) woken more by auto
    next
      case 2
      then obtain w where w: "pb_waiting s = [w]" "pb_text s = prompt_of (wt_command w)" "i = 0" using one by auto
      then show ?thesis using 2 cmds [symmetric] clicks woken unfolding more
        by (intro exI [of _ "outs @ [a]"]) (simp add: serial_ok_def answer_id_def)
    qed
  next
    case other
    have "commands_of (evs @ [e]) = commands_of evs" using other by (cases e) (simp_all add: commands_of_snoc)
    moreover have "pb_text (probe_step e s) = pb_text s \<or> pb_waiting s = []"
      using assms(2) other_step [OF other, of s] by (cases e) auto
    ultimately show ?thesis using other_step [OF other, of s] acc cmds clicks one
      by (intro exI [of _ outs]) (auto simp: serial_ok_def accounts_def)
  qed
qed

lemma started_probe_empty:
  "accounts [] (started_probe opens p takes) \<and> pb_waiting (started_probe opens p takes) = [] \<and> pb_clicks (started_probe opens p takes) = []"
  by (simp add: started_probe_def connectNativePort_def fresh_probe_def accounts_def report_def Let_def schedulePortReconnect_def)

text \<open>A port that stays: it is open from the start, takes every message and is never closed.\<close>

fun port_holds :: "probe_event \<Rightarrow> bool" where
  "port_holds (Command m v obs) = ob_post_ok obs"
| "port_holds (Woken i obs) = ob_post_ok obs"
| "port_holds (Report force p takes) = takes"
| "port_holds (PortClosed p) = False"
| "port_holds _ = True"

lemma port_holds_step:
  assumes "port_holds e" and "pb_port s \<noteq> None \<and> \<not> pb_reconnect s \<and> pb_lost s = []"
  shows "pb_port (probe_step e s) \<noteq> None \<and> \<not> pb_reconnect (probe_step e s) \<and> pb_lost (probe_step e s) = []"
  using assms
  by (cases e) (auto simp: handleNativeCommand_def dispatchPrompt_def refuse_def click_or_refuse_def wake_dispatch_def report_def
      reconnect_timer_def postNative_def Let_def split: option.split)

lemma port_holds_run:
  assumes "list_all port_holds evs"
  shows "pb_lost (probe_run evs (started_probe True p True)) = []"
proof -
  let ?ok = "\<lambda>s. pb_port s \<noteq> None \<and> \<not> pb_reconnect s \<and> pb_lost s = []"
  have "?ok (started_probe True p True)"
    by (simp add: started_probe_def connectNativePort_def fresh_probe_def report_def postNative_def Let_def)
  then have "?ok (probe_run evs (started_probe True p True))" using assms
    by (induction evs rule: rev_induct) (simp add: probe_run_def, simp add: probe_run_snoc port_holds_step del: probe_step.simps)
  then show ?thesis by blast
qed

text \<open>
  C28: the probe carries out the commands one by one. In a run in which the native side sends a
  command only when none waits and nobody else writes the composer while one does, the commands answered
  and the one that waits are the well-formed commands sent, in their order; each answered command has one
  result, with its own delivery ID, which a port took or which was lost; the results a port took and
  the lost ones are in the commands' order; and the clicks are those of the accepted commands,
  each while the composer holds exactly that command's prompt. No result is lost when the port opened at
  the start is never closed and takes every message.
\<close>

theorem serial_commands_send_their_prompts:
  assumes "serial evs (started_probe opens p takes)" and "s = probe_run evs (started_probe opens p takes)"
  shows "\<exists>outs. results_of (pb_posts s) = map result_of (filter an_delivered outs) \<and>
    results_of (pb_lost s) = map result_of (filter (\<lambda>a. \<not> an_delivered a) outs) \<and>
    map an_command outs @ map wt_command (pb_waiting s) = commands_of evs \<and>
    pb_clicks s = map (\<lambda>a. (js_get (an_command a) ''deliveryId'', prompt_of (an_command a))) (filter an_accepted outs) \<and>
    (opens \<and> takes \<and> list_all port_holds evs \<longrightarrow> list_all an_delivered outs)"
proof -
  have "\<exists>outs. serial_ok outs (commands_of evs) (probe_run evs (started_probe opens p takes))"
    using assms(1)
  proof (induction evs rule: rev_induct)
    case Nil
    then show ?case using started_probe_empty [of opens p takes]
      by (intro exI [of _ "[]"]) (simp add: serial_ok_def probe_run_def commands_of_def)
  next
    case (snoc e evs)
    then show ?case using serial_ok_step serial_snoc probe_run_snoc by metis
  qed
  then obtain outs where ok: "serial_ok outs (commands_of evs) s" unfolding assms(2) by blast
  have "list_all an_delivered outs" if "opens" "takes" "list_all port_holds evs"
  proof -
    have "pb_lost s = []" using port_holds_run [OF that(3)] that(1,2) assms(2) by simp
    then have "filter (\<lambda>a. \<not> an_delivered a) outs = []" using ok by (simp add: serial_ok_def accounts_def)
    then show ?thesis by (simp add: filter_empty_conv list_all_iff)
  qed
  then show ?thesis using ok unfolding serial_ok_def accounts_def answer_id_def by blast
qed

section \<open>Two at once\<close>

definition sample_command :: "string \<Rightarrow> string \<Rightarrow> jsval" where
  "sample_command d prompt = JObj [(''type'', JStr ''dispatch_prompt''), (''protocolVersion'', JInt 1), (''deliveryId'', JStr d), (''prompt'', JStr prompt)]"

definition idle_page :: page_view where "idle_page = \<lparr>pv_chatgpt = True, pv_busy = False, pv_composer = Some Editable\<rparr>"

definition sample_look :: "int \<Rightarrow> bool \<Rightarrow> bool \<Rightarrow> observation" where
  "sample_look now ready busy = \<lparr>ob_now = now, ob_ready = ready, ob_busy = busy, ob_post_ok = True\<rparr>"

definition sample_page_status :: page_status where
  "sample_page_status = \<lparr>ps_observedAt = ''t'', ps_pageUrl = ''https://chatgpt.com/'', ps_composer = True, ps_busy = False\<rparr>"

definition sample_started :: probe where "sample_started = started_probe True sample_page_status True"

definition one_by_one :: "probe_event list" where
  "one_by_one = [Command (sample_command ''d-1'' ''first'') idle_page (sample_look 0 False False), Woken 0 (sample_look 50 True False),
     Command (sample_command ''d-2'' ''second'') idle_page (sample_look 100 False False), Woken 0 (sample_look 1700 True False)]"

definition two_at_once :: "probe_event list" where
  "two_at_once = [Command (sample_command ''d-1'' ''first'') idle_page (sample_look 0 False False),
     Command (sample_command ''d-2'' ''second'') idle_page (sample_look 20 False False),
     Woken 0 (sample_look 50 True False), Woken 0 (sample_look 70 True True)]"

theorem serial_commands_send_their_prompts_witness:
  "\<exists>s outs. s = probe_run one_by_one sample_started \<and> pb_clicks s = [(JStr ''d-1'', ''first'')] \<and>
     results_of (pb_posts s) = map result_of outs \<and> length outs = 2"
proof -
  have run: "pb_clicks (probe_run one_by_one sample_started) = [(JStr ''d-1'', ''first'')]"
    "pb_waiting (probe_run one_by_one sample_started) = []" "length (commands_of one_by_one) = 2" "serial one_by_one sample_started"
    "list_all port_holds one_by_one"
    by code_simp+
  from run(4) have "serial one_by_one (started_probe True sample_page_status True)" unfolding sample_started_def .
  from serial_commands_send_their_prompts [OF this refl] obtain outs where
    "results_of (pb_posts (probe_run one_by_one sample_started)) = map result_of (filter an_delivered outs)"
    "map an_command outs @ map wt_command (pb_waiting (probe_run one_by_one sample_started)) = commands_of one_by_one"
    and "list_all an_delivered outs"
    using run(5) unfolding sample_started_def by blast
  moreover from this(2) have "length outs = 2" using run(2,3) by (metis append_Nil2 length_map list.simps(8))
  moreover from \<open>list_all an_delivered outs\<close> have "filter an_delivered outs = outs" by (simp add: list_all_iff)
  ultimately show ?thesis using run(1) by auto
qed

text \<open>With the port gone, a prompt is sent and its result reaches nobody.\<close>

lemma lost_result_still_clicks:
  "pb_clicks (probe_run (PortClosed 0 # one_by_one) sample_started) = [(JStr ''d-1'', ''first'')] \<and>
   results_of (pb_posts (probe_run (PortClosed 0 # one_by_one) sample_started)) = [] \<and>
   results_of (pb_lost (probe_run (PortClosed 0 # one_by_one) sample_started)) = [(JStr ''d-1'', JBool True), (JStr ''d-2'', JBool False)]"
  by code_simp

text \<open>
  Without that contract a result may name the wrong delivery: a second command that arrives while the
  first waits overwrites the composer, the first one's click sends the second prompt and is reported
  for the first delivery, and the second is refused.
\<close>

lemma interleaved_dispatch_swaps_prompts:
  "pb_clicks (probe_run two_at_once sample_started) = [(JStr ''d-1'', ''second'')] \<and>
   results_of (pb_posts (probe_run two_at_once sample_started)) = [(JStr ''d-1'', JBool True), (JStr ''d-2'', JBool False)]"
  by code_simp

text \<open>A waiting dispatch is answered by the first turn at or after its deadline.\<close>

lemma deadline_answers:
  "i < length (pb_waiting s) \<Longrightarrow> wt_deadline (pb_waiting s ! i) \<le> ob_now obs \<Longrightarrow>
   length (pb_waiting (wake_dispatch i obs s)) < length (pb_waiting s)"
  by (simp add: wake_dispatch_def wait_turn_def)

section \<open>The port is kept\<close>

lemma port_or_pending_post: "pb_port s \<noteq> None \<or> pb_reconnect s \<Longrightarrow> pb_port (postNative t m s) \<noteq> None \<or> pb_reconnect (postNative t m s)"
  by (auto simp: postNative_def schedulePortReconnect_def split: option.split)

text \<open>There is always a port or a timer that will open one.\<close>

lemma port_or_pending:
  "pb_port (probe_run evs (started_probe opens p takes)) \<noteq> None \<or> pb_reconnect (probe_run evs (started_probe opens p takes))"
proof -
  have step: "pb_port (probe_step e s) \<noteq> None \<or> pb_reconnect (probe_step e s)" if s: "pb_port s \<noteq> None \<or> pb_reconnect s" for e s
  proof -
    have refuse: "pb_port (refuse c why obs s') \<noteq> None \<or> pb_reconnect (refuse c why obs s')" if "pb_port s' \<noteq> None \<or> pb_reconnect s'" for c why obs s'
      unfolding refuse_def by (rule port_or_pending_post [OF that])
    have click: "pb_port (click_or_refuse c b obs s') \<noteq> None \<or> pb_reconnect (click_or_refuse c b obs s')" if "pb_port s' \<noteq> None \<or> pb_reconnect s'" for c b obs s'
      using refuse [OF that] port_or_pending_post [of "s'\<lparr>pb_clicks := pb_clicks s' @ [(js_get c ''deliveryId'', pb_text s')]\<rparr>"] that
      by (simp add: click_or_refuse_def)
    have rep: "pb_port (report f q t s') \<noteq> None \<or> pb_reconnect (report f q t s')" if "pb_port s' \<noteq> None \<or> pb_reconnect s'" for f q t s'
      using that port_or_pending_post [of "s'\<lparr>pb_stable := st\<rparr>" for st] by (simp add: report_def Let_def)
    show ?thesis
    proof (cases e)
      case (Command m v obs)
      then show ?thesis using s refuse [OF s] click [of "s\<lparr>pb_text := t\<rparr>" for t]
        by (auto simp: handleNativeCommand_def dispatchPrompt_def Let_def split: option.split)
    next
      case (Woken i obs)
      then show ?thesis using s click [of "s\<lparr>pb_waiting := w\<rparr>" for w] by (auto simp: wake_dispatch_def split: option.split)
    next
      case (ReconnectDue opens' q t)
      then show ?thesis using s rep [of "s\<lparr>pb_reconnect := False, pb_port := Some (pb_ports s), pb_ports := Suc (pb_ports s)\<rparr>"]
        by (auto simp: reconnect_timer_def connectNativePort_def schedulePortReconnect_def)
    qed (use s rep in \<open>simp_all add: port_disconnected_def schedulePortReconnect_def\<close>)
  qed
  have "pb_port (started_probe opens p takes) \<noteq> None \<or> pb_reconnect (started_probe opens p takes)"
    by (auto simp: started_probe_def connectNativePort_def report_def Let_def postNative_def schedulePortReconnect_def fresh_probe_def)
  then show ?thesis by (induction evs rule: rev_induct) (simp add: probe_run_def, simp only: probe_run_snoc step)
qed

text \<open>
  A disconnect is meant to clear the current port only when it is the one that closed. It always
  clears it: the late disconnect of an old port drops the port that replaced it, which stays open and
  keeps delivering commands while a third is opened.
\<close>

lemma late_disconnect_drops_new_port:
  "pb_port (probe_run [Report True sample_page_status False, ReconnectDue True sample_page_status True] sample_started) = Some 1 \<and>
   pb_port (probe_run [Report True sample_page_status False, ReconnectDue True sample_page_status True, PortClosed 0] sample_started) = None"
  by code_simp

end
