(* ===== verification/NativeProofClient.thy ===== *)
theory NativeProofClient imports DeviceIdentity
begin

text \<open>
  \<open>browser-extension/src/native-proof-client.ts\<close>: the extension's side of the local proof. It reads
  the device key, opens the native host, says hello, has the key sign the host's challenge, sends the
  proof and waits for the receipt. The run is cut at its awaits: the key store's two answers and the
  port's messages, disconnect and timer are events. The theory composes it with the host of
  \<open>NativeHost\<close> and the signer of \<open>DeviceIdentity\<close>.
\<close>

section \<open>Messages\<close>

definition CLIENT_CHALLENGE_FIELDS :: "string list" where
  "CLIENT_CHALLENGE_FIELDS = [''client_nonce'', ''expires_at_ms'', ''profile_binding_sha256'', ''server_nonce'', ''type'', ''version'']"

definition RECEIPT_FIELDS :: "string list" where
  "RECEIPT_FIELDS = [''admission_authority'', ''dispatch_authority'', ''public_key_sha256'', ''type'', ''version'', ''worker_id'']"

definition resourceShape :: "jsval \<Rightarrow> bool" where
  "resourceShape v \<longleftrightarrow> exact_joined v RESOURCE_FIELDS \<and> list_all (\<lambda>k. validHash (js_get v k)) RESOURCE_FIELDS"

definition valid_host_challenge :: "jsval \<Rightarrow> string \<Rightarrow> jsval \<Rightarrow> int \<Rightarrow> int \<Rightarrow> bool" where
  "valid_host_challenge x nonce profile moment ttl \<longleftrightarrow> exact_joined x CLIENT_CHALLENGE_FIELDS \<and>
     js_eq (js_get x ''type'') (JStr ''CHALLENGE'') \<and> js_eq (js_get x ''version'') (JInt 1) \<and>
     js_eq (js_get x ''client_nonce'') (JStr nonce) \<and> validHash (js_get x ''server_nonce'') \<and>
     \<not> js_eq (js_get x ''server_nonce'') (JStr nonce) \<and> js_eq (js_get x ''profile_binding_sha256'') profile \<and>
     is_safe_integer (js_get x ''expires_at_ms'') \<and> moment < the_int (js_get x ''expires_at_ms'') \<and>
     the_int (js_get x ''expires_at_ms'') \<le> moment + ttl"

definition validReceipt :: "jsval \<Rightarrow> jsval \<Rightarrow> string \<Rightarrow> bool" where
  "validReceipt x worker hash \<longleftrightarrow> exact_joined x RECEIPT_FIELDS \<and> js_eq (js_get x ''type'') (JStr ''LOCAL_PROOF_OK'') \<and>
     js_eq (js_get x ''version'') (JInt 1) \<and> js_eq (js_get x ''worker_id'') worker \<and>
     js_eq (js_get x ''public_key_sha256'') (JStr hash) \<and> js_eq (js_get x ''admission_authority'') (JStr ''NONE'') \<and>
     js_eq (js_get x ''dispatch_authority'') (JStr ''NONE'')"

section \<open>The session's state\<close>

text \<open>
  What the caller and the browser give: \<open>co_clock k\<close> is the \<open>k\<close>-th reading of the clock, \<^const>\<open>None\<close>
  when it throws; \<open>co_random\<close> the random bytes, if \<open>getRandomValues\<close> does not throw; \<open>co_connects\<close>
  whether \<open>connectNative\<close> does not; \<open>co_post k\<close> whether the \<open>k\<close>-th message is taken.
\<close>

record client_opts =
  co_workerId :: jsval
  co_resources :: jsval
  co_profile :: jsval
  co_timeoutMs :: jsval
  co_origin :: jsval
  co_clock :: "nat \<Rightarrow> int option"
  co_random :: "bytes option"
  co_connects :: bool
  co_post :: "nat \<Rightarrow> bool"

datatype client_outcome = LocalProofOk jsval string | ClientBlocked string

datatype client_phase = Reading | AwaitChallenge | AwaitSignature jsval | AwaitReceipt | Ended client_outcome

text \<open>
  \<open>cn_key\<close> is the public key and its hash once they are read; \<open>cn_failed\<close> and \<open>cn_queue\<close> are the
  channel's; \<open>cn_reads\<close> counts the clock's readings. \<open>cn_posted\<close> and \<open>cn_signs\<close> list the messages
  posted and the challenges given to the key.
\<close>

record client =
  cn_phase :: client_phase
  cn_reads :: nat
  cn_deadline :: int
  cn_key :: "(jsval \<times> string) option"
  cn_failed :: bool
  cn_queue :: "jsval option"
  cn_posted :: "jsval list"
  cn_signs :: "jsval list"

definition end_client :: "client_outcome \<Rightarrow> client \<Rightarrow> client" where
  "end_client r s = s\<lparr>cn_phase := Ended r\<rparr>"

abbreviation uncertain :: "client \<Rightarrow> client" where
  "uncertain \<equiv> end_client (ClientBlocked ''NATIVE_CLIENT_OUTCOME_UNCERTAIN'')"

definition tick :: "client \<Rightarrow> client" where
  "tick s = s\<lparr>cn_reads := Suc (cn_reads s)\<rparr>"

definition freshTime :: "int option \<Rightarrow> int option" where
  "freshTime reading = (case reading of None \<Rightarrow> None
     | Some t \<Rightarrow> if safe_int t \<and> 0 < t \<and> t < max_safe - 16000 then Some t else None)"

definition client_nonce :: "client_opts \<Rightarrow> string" where
  "client_nonce opts = (case co_random opts of None \<Rightarrow> [] | Some bs \<Rightarrow> hex_bytes bs)"

section \<open>The channel\<close>

text \<open>\<open>send\<close>; a message that cannot be sent throws.\<close>

definition send_client :: "client_opts \<Rightarrow> jsval \<Rightarrow> client \<Rightarrow> bool \<times> client" where
  "send_client opts m s =
     (if cn_failed s then (False, s)
      else case co_clock opts (cn_reads s) of None \<Rightarrow> (False, tick s)
      | Some t \<Rightarrow>
          if cn_deadline s \<le> t \<or> \<not> co_post opts (length (cn_posted s)) then (False, tick s)
          else (True, (tick s)\<lparr>cn_posted := cn_posted s @ [m]\<rparr>))"

datatype received = Received jsval | Waits | Throws

definition receive :: "client_opts \<Rightarrow> client \<Rightarrow> received \<times> client" where
  "receive opts s =
     (if cn_failed s then (Throws, s)
      else case cn_queue s of Some m \<Rightarrow> (Received m, s\<lparr>cn_queue := None\<rparr>)
      | None \<Rightarrow>
          (case co_clock opts (cn_reads s) of None \<Rightarrow> (Throws, tick s)
           | Some t \<Rightarrow> let left = min (cn_deadline s - t) 15000 in
               if \<not> safe_int left \<or> left \<le> 0 then (Throws, tick s) else (Waits, tick s)))"

section \<open>The session\<close>

definition config_ok :: "client_opts \<Rightarrow> bool" where
  "config_ok opts \<longleftrightarrow> str_re worker_id_re (co_workerId opts) \<and> resourceShape (co_resources opts) \<and> validHash (co_profile opts) \<and>
     is_safe_integer (co_timeoutMs opts) \<and> 100 \<le> the_int (co_timeoutMs opts) \<and> the_int (co_timeoutMs opts) \<le> 15000"

definition client_start :: "client_opts \<Rightarrow> client" where
  "client_start opts =
     (let s = \<lparr>cn_phase = Reading, cn_reads = 0, cn_deadline = 0, cn_key = None, cn_failed = False, cn_queue = None,
        cn_posted = [], cn_signs = []\<rparr> in
      if \<not> config_ok opts then end_client (ClientBlocked ''NATIVE_CLIENT_CONFIG_INVALID'') s
      else case freshTime (co_clock opts 0) of None \<Rightarrow> end_client (ClientBlocked ''NATIVE_CLIENT_CLOCK_INVALID'') (tick s)
      | Some t \<Rightarrow>
          if \<not> str_re origin_re (co_origin opts) then end_client (ClientBlocked ''NATIVE_CLIENT_EXTENSION_ORIGIN_INVALID'') (tick s)
          else (tick s)\<lparr>cn_deadline := t + the_int (co_timeoutMs opts)\<rparr>)"

definition hello_message :: "client_opts \<Rightarrow> jsval \<Rightarrow> jsval" where
  "hello_message opts key = JObj [(''type'', JStr ''HELLO''), (''version'', JInt 1), (''worker_id'', co_workerId opts),
     (''public_key'', key), (''resources'', co_resources opts), (''client_nonce'', JStr (client_nonce opts))]"

definition proof_challenge :: "client_opts \<Rightarrow> string \<Rightarrow> jsval \<Rightarrow> jsval" where
  "proof_challenge opts hash incoming = JObj [(''origin'', co_origin opts), (''worker_id'', co_workerId opts),
     (''public_key_sha256'', JStr hash), (''profile_binding_sha256'', co_profile opts), (''resources'', co_resources opts),
     (''client_nonce'', JStr (client_nonce opts)), (''server_nonce'', js_get incoming ''server_nonce''),
     (''expires_at_ms'', js_get incoming ''expires_at_ms'')]"

definition proof_message :: "client_opts \<Rightarrow> jsval \<Rightarrow> string \<Rightarrow> jsval" where
  "proof_message opts ch signature = JObj [(''type'', JStr ''PROOF''), (''version'', JInt 1), (''client_nonce'', JStr (client_nonce opts)),
     (''server_nonce'', js_get ch ''server_nonce''), (''device_signature'', JStr signature)]"

definition key_text :: "client \<Rightarrow> string" where
  "key_text s = (case cn_key s of None \<Rightarrow> [] | Some (key, hash) \<Rightarrow> hash)"

definition on_challenge :: "client_opts \<Rightarrow> jsval \<Rightarrow> client \<Rightarrow> client" where
  "on_challenge opts m s =
     (case freshTime (co_clock opts (cn_reads s)) of None \<Rightarrow> end_client (ClientBlocked ''NATIVE_CLIENT_CHALLENGE_DENIED'') (tick s)
      | Some now \<Rightarrow>
          if \<not> valid_host_challenge m (client_nonce opts) (co_profile opts) now 15000
          then end_client (ClientBlocked ''NATIVE_CLIENT_CHALLENGE_DENIED'') (tick s)
          else let ch = proof_challenge opts (key_text s) m in
            (tick s)\<lparr>cn_phase := AwaitSignature ch, cn_signs := cn_signs s @ [ch]\<rparr>)"

definition on_receipt :: "client_opts \<Rightarrow> jsval \<Rightarrow> client \<Rightarrow> client" where
  "on_receipt opts m s =
     (if validReceipt m (co_workerId opts) (key_text s) then end_client (LocalProofOk (co_workerId opts) (key_text s)) s
      else end_client (ClientBlocked ''NATIVE_CLIENT_RECEIPT_DENIED'') s)"

text \<open>A send and the receive after it; \<open>wait\<close> is the phase that waits, \<open>k\<close> what takes the message.\<close>

definition send_and_receive ::
  "client_opts \<Rightarrow> jsval \<Rightarrow> client_phase \<Rightarrow> (jsval \<Rightarrow> client \<Rightarrow> client) \<Rightarrow> client \<Rightarrow> client" where
  "send_and_receive opts m wait k s =
     (case send_client opts m s of (False, s') \<Rightarrow> uncertain s'
      | (True, s') \<Rightarrow>
          (case receive opts s' of (Received x, s'') \<Rightarrow> k x s''
           | (Waits, s'') \<Rightarrow> s''\<lparr>cn_phase := wait\<rparr>
           | (Throws, s'') \<Rightarrow> uncertain s''))"

definition read_done :: "client_opts \<Rightarrow> read_result \<Rightarrow> client \<Rightarrow> client" where
  "read_done opts r s =
     (case r of Ready w key hash \<Rightarrow>
        if co_random opts = None \<or> \<not> hash_re (client_nonce opts) then end_client (ClientBlocked ''NATIVE_CLIENT_RANDOM_UNAVAILABLE'') s
        else if \<not> co_connects opts then end_client (ClientBlocked ''NATIVE_CLIENT_HOST_UNAVAILABLE'') s
        else send_and_receive opts (hello_message opts key) AwaitChallenge (on_challenge opts) (s\<lparr>cn_key := Some (key, hash)\<rparr>)
      | _ \<Rightarrow> end_client (ClientBlocked ''NATIVE_CLIENT_IDENTITY_UNAVAILABLE'') s)"

text \<open>The key's answer: \<^const>\<open>None\<close> when the call rejects, else a code or a signature.\<close>

definition sign_done :: "client_opts \<Rightarrow> jsval \<Rightarrow> (string + string) option \<Rightarrow> client \<Rightarrow> client" where
  "sign_done opts ch answer s =
     (case answer of None \<Rightarrow> uncertain s
      | Some (Inl e) \<Rightarrow> end_client (ClientBlocked ''NATIVE_CLIENT_PROOF_DENIED'') s
      | Some (Inr signature) \<Rightarrow>
          (case freshTime (co_clock opts (cn_reads s)) of None \<Rightarrow> end_client (ClientBlocked ''NATIVE_CLIENT_EXPIRED'') (tick s)
           | Some _ \<Rightarrow>
               (case co_clock opts (Suc (cn_reads s)) of None \<Rightarrow> uncertain (tick (tick s))
                | Some t \<Rightarrow>
                    if the_int (js_get ch ''expires_at_ms'') \<le> t then end_client (ClientBlocked ''NATIVE_CLIENT_EXPIRED'') (tick (tick s))
                    else send_and_receive opts (proof_message opts ch signature) AwaitReceipt (on_receipt opts) (tick (tick s)))))"

text \<open>A message, a disconnect and the timer of a pending receive.\<close>

definition port_message :: "client_opts \<Rightarrow> jsval \<Rightarrow> client \<Rightarrow> client" where
  "port_message opts m s =
     (case cn_phase s of AwaitChallenge \<Rightarrow> on_challenge opts m s
      | AwaitReceipt \<Rightarrow> on_receipt opts m s
      | AwaitSignature ch \<Rightarrow> (if cn_queue s \<noteq> None then s\<lparr>cn_failed := True\<rparr> else s\<lparr>cn_queue := Some m\<rparr>)
      | _ \<Rightarrow> s)"

definition port_gone :: "client \<Rightarrow> client" where
  "port_gone s =
     (case cn_phase s of AwaitChallenge \<Rightarrow> uncertain (s\<lparr>cn_failed := True\<rparr>)
      | AwaitReceipt \<Rightarrow> uncertain (s\<lparr>cn_failed := True\<rparr>)
      | AwaitSignature ch \<Rightarrow> s\<lparr>cn_failed := True\<rparr>
      | _ \<Rightarrow> s)"

definition port_timer :: "client \<Rightarrow> client" where
  "port_timer s = (if cn_phase s = AwaitChallenge \<or> cn_phase s = AwaitReceipt then uncertain (s\<lparr>cn_failed := True\<rparr>) else s)"

datatype client_event =
    ReadDone read_result | SignDone "(string + string) option" | PortMessage jsval | PortGone | PortTimer

fun client_step :: "client_opts \<Rightarrow> client_event \<Rightarrow> client \<Rightarrow> client" where
  "client_step opts (ReadDone r) s = (if cn_phase s = Reading then read_done opts r s else s)"
| "client_step opts (SignDone a) s = (case cn_phase s of AwaitSignature ch \<Rightarrow> sign_done opts ch a s | _ \<Rightarrow> s)"
| "client_step opts (PortMessage m) s = port_message opts m s"
| "client_step opts PortGone s = port_gone s"
| "client_step opts PortTimer s = port_timer s"

text \<open>\<open>proveLocalNativeHost\<close>.\<close>

definition client_run :: "client_opts \<Rightarrow> client_event list \<Rightarrow> client" where
  "client_run opts evs = fold (client_step opts) evs (client_start opts)"

section \<open>What a session can do\<close>

text \<open>
  How far a session has come: the messages it posted, the challenge the key was given and the
  signature it answered with. \<open>answers\<close> are the answers the key has given. The clock is read for the
  start, the hello, the wait for the challenge, the challenge's arrival (reading 3), twice when the key
  has answered (4 and 5), for the proof and the wait for the receipt.
\<close>

definition signed_for :: "client_opts \<Rightarrow> jsval \<Rightarrow> string \<Rightarrow> bool" where
  "signed_for opts ch hash \<longleftrightarrow> (\<exists>m now. co_clock opts 3 = Some now \<and>
     valid_host_challenge m (client_nonce opts) (co_profile opts) now 15000 \<and> ch = proof_challenge opts hash m)"

definition said_hello :: "client_opts \<Rightarrow> client \<Rightarrow> bool" where
  "said_hello opts s \<longleftrightarrow> (\<exists>key hash. cn_key s = Some (key, hash) \<and> cn_posted s = [hello_message opts key] \<and> cn_signs s = [])"

definition asked_key :: "client_opts \<Rightarrow> jsval \<Rightarrow> client \<Rightarrow> bool" where
  "asked_key opts ch s \<longleftrightarrow> (\<exists>key hash. cn_key s = Some (key, hash) \<and> cn_posted s = [hello_message opts key] \<and> cn_signs s = [ch] \<and>
     signed_for opts ch hash)"

definition sent_proof :: "client_opts \<Rightarrow> string set \<Rightarrow> client \<Rightarrow> bool" where
  "sent_proof opts answers s \<longleftrightarrow> (\<exists>key hash ch signature t. co_clock opts 5 = Some t \<and> t < the_int (js_get ch ''expires_at_ms'') \<and> cn_key s = Some (key, hash) \<and> signature \<in> answers \<and>
     cn_posted s = [hello_message opts key, proof_message opts ch signature] \<and> cn_signs s = [ch] \<and> signed_for opts ch hash)"

definition session_shape :: "client_opts \<Rightarrow> string set \<Rightarrow> client \<Rightarrow> bool" where
  "session_shape opts answers s \<longleftrightarrow> (cn_posted s = [] \<and> cn_signs s = []) \<or> said_hello opts s \<or> (\<exists>ch. asked_key opts ch s) \<or> sent_proof opts answers s"

definition client_ok :: "client_opts \<Rightarrow> string set \<Rightarrow> client \<Rightarrow> bool" where
  "client_ok opts answers s \<longleftrightarrow>
     (case cn_phase s of Reading \<Rightarrow> cn_posted s = [] \<and> cn_signs s = [] \<and> cn_queue s = None \<and> cn_reads s = 1
      | AwaitChallenge \<Rightarrow> said_hello opts s \<and> cn_queue s = None \<and> cn_reads s = 3
      | AwaitSignature ch \<Rightarrow> asked_key opts ch s \<and> cn_reads s = 4
      | AwaitReceipt \<Rightarrow> sent_proof opts answers s
      | Ended (LocalProofOk w h) \<Rightarrow> sent_proof opts answers s \<and> w = co_workerId opts \<and> h = key_text s
      | Ended (ClientBlocked e) \<Rightarrow> session_shape opts answers s)"

lemma shape_facts:
  "said_hello opts (s\<lparr>cn_phase := p\<rparr>) = said_hello opts s" "asked_key opts ch (s\<lparr>cn_phase := p\<rparr>) = asked_key opts ch s"
  "sent_proof opts a (s\<lparr>cn_phase := p\<rparr>) = sent_proof opts a s" "session_shape opts a (s\<lparr>cn_phase := p\<rparr>) = session_shape opts a s"
  "said_hello opts (tick s) = said_hello opts s" "asked_key opts ch (tick s) = asked_key opts ch s"
  "sent_proof opts a (tick s) = sent_proof opts a s" "session_shape opts a (tick s) = session_shape opts a s"
  "said_hello opts (s\<lparr>cn_failed := b\<rparr>) = said_hello opts s" "asked_key opts ch (s\<lparr>cn_failed := b\<rparr>) = asked_key opts ch s"
  "sent_proof opts a (s\<lparr>cn_failed := b\<rparr>) = sent_proof opts a s" "session_shape opts a (s\<lparr>cn_failed := b\<rparr>) = session_shape opts a s"
  "said_hello opts (s\<lparr>cn_queue := q\<rparr>) = said_hello opts s" "asked_key opts ch (s\<lparr>cn_queue := q\<rparr>) = asked_key opts ch s"
  "sent_proof opts a (s\<lparr>cn_queue := q\<rparr>) = sent_proof opts a s" "session_shape opts a (s\<lparr>cn_queue := q\<rparr>) = session_shape opts a s"
  by (simp_all add: said_hello_def asked_key_def sent_proof_def session_shape_def tick_def)

lemma tick_simps [simp]:
  "cn_posted (tick s) = cn_posted s" "cn_signs (tick s) = cn_signs s" "cn_key (tick s) = cn_key s" "cn_queue (tick s) = cn_queue s"
  "cn_failed (tick s) = cn_failed s" "cn_phase (tick s) = cn_phase s" "cn_deadline (tick s) = cn_deadline s"
  "cn_reads (tick s) = Suc (cn_reads s)"
  by (simp_all add: tick_def)

lemma blocked_ok: "session_shape opts a s \<Longrightarrow> client_ok opts a (end_client (ClientBlocked e) s)"
  by (simp add: client_ok_def end_client_def shape_facts)

lemma shapes:
  "said_hello opts s \<Longrightarrow> session_shape opts a s" "asked_key opts ch s \<Longrightarrow> session_shape opts a s" "sent_proof opts a s \<Longrightarrow> session_shape opts a s"
  "cn_posted s = [] \<Longrightarrow> cn_signs s = [] \<Longrightarrow> session_shape opts a s"
  by (auto simp: session_shape_def)

lemma client_ok_shape: "client_ok opts a s \<Longrightarrow> session_shape opts a s"
  by (auto simp: client_ok_def intro: shapes split: client_phase.splits client_outcome.splits)

lemma on_challenge_ok:
  assumes "said_hello opts s" and "cn_reads s = 3"
  shows "client_ok opts a (on_challenge opts m s)"
proof (cases "\<exists>now. freshTime (co_clock opts (cn_reads s)) = Some now \<and> valid_host_challenge m (client_nonce opts) (co_profile opts) now 15000")
  case True
  then obtain now where now: "freshTime (co_clock opts (cn_reads s)) = Some now" "co_clock opts 3 = Some now"
      "valid_host_challenge m (client_nonce opts) (co_profile opts) now 15000"
    using assms(2) by (auto simp: freshTime_def split: option.splits if_splits)
  obtain key hash where k: "cn_key s = Some (key, hash)" "cn_posted s = [hello_message opts key]" "cn_signs s = []"
    using assms by (auto simp: said_hello_def)
  have "signed_for opts (proof_challenge opts hash m) hash" using now(2,3) by (auto simp: signed_for_def)
  then show ?thesis using now k assms(2) by (simp add: on_challenge_def client_ok_def asked_key_def key_text_def Let_def)
next
  case False
  then have "on_challenge opts m s = end_client (ClientBlocked ''NATIVE_CLIENT_CHALLENGE_DENIED'') (tick s)"
    by (auto simp: on_challenge_def split: option.split)
  then show ?thesis using blocked_ok [OF shapes(1)] assms(1) by (simp add: shape_facts)
qed

lemma on_receipt_ok: "sent_proof opts a s \<Longrightarrow> client_ok opts a (on_receipt opts m s)"
  using blocked_ok [OF shapes(3)] by (simp add: on_receipt_def client_ok_def end_client_def shape_facts key_text_def)

lemma send_cases:
  "(\<exists>s'. send_client opts m s = (False, s') \<and> cn_posted s' = cn_posted s \<and> cn_signs s' = cn_signs s \<and> cn_key s' = cn_key s) \<or>
   (\<exists>s'. send_client opts m s = (True, s') \<and> cn_posted s' = cn_posted s @ [m] \<and> cn_signs s' = cn_signs s \<and> cn_key s' = cn_key s \<and> cn_queue s' = cn_queue s \<and>
      cn_reads s' = Suc (cn_reads s))"
  by (simp add: send_client_def split: option.split)

lemma receive_keeps:
  "receive opts s = (r, s') \<Longrightarrow> cn_posted s' = cn_posted s \<and> cn_signs s' = cn_signs s \<and> cn_key s' = cn_key s \<and> (cn_queue s = None \<or> r \<noteq> Throws \<longrightarrow> cn_queue s' = None) \<and>
    (r = Waits \<longrightarrow> cn_reads s' = Suc (cn_reads s)) \<and> (\<forall>x. r = Received x \<longrightarrow> cn_queue s \<noteq> None)"
  by (auto simp: receive_def Let_def split: if_splits option.splits)

lemma shape_cong:
  assumes "cn_posted s' = cn_posted s" "cn_signs s' = cn_signs s" "cn_key s' = cn_key s"
  shows "said_hello opts s' = said_hello opts s" "sent_proof opts a s' = sent_proof opts a s" "session_shape opts a s' = session_shape opts a s"
  using assms by (simp_all add: said_hello_def asked_key_def sent_proof_def session_shape_def)

lemma send_and_receive_ok:
  assumes "session_shape opts a s"
    and "\<And>s'. cn_posted s' = cn_posted s @ [m] \<Longrightarrow> cn_signs s' = cn_signs s \<Longrightarrow> cn_key s' = cn_key s \<Longrightarrow> P s'"
    and "\<And>s'. P s' \<Longrightarrow> session_shape opts a s'"
    and "\<And>s'. P s' \<Longrightarrow> cn_queue s' = None \<Longrightarrow> cn_reads s' = cn_reads s + 2 \<Longrightarrow> client_ok opts a (s'\<lparr>cn_phase := wait\<rparr>)"
    and "\<And>s' x. cn_queue s \<noteq> None \<Longrightarrow> P s' \<Longrightarrow> client_ok opts a (k x s')"
  shows "client_ok opts a (send_and_receive opts m wait k s)"
proof -
  consider (lost) s' where "send_client opts m s = (False, s')" "cn_posted s' = cn_posted s" "cn_signs s' = cn_signs s" "cn_key s' = cn_key s"
    | (sent) s' where "send_client opts m s = (True, s')" "cn_posted s' = cn_posted s @ [m]" "cn_signs s' = cn_signs s" "cn_key s' = cn_key s"
        "cn_queue s' = cn_queue s" "cn_reads s' = Suc (cn_reads s)"
    using send_cases [of opts m s] by blast
  then show ?thesis
  proof cases
    case lost
    then have "session_shape opts a s'" using shape_cong(3) [of s' s] assms(1) by blast
    then show ?thesis using lost(1) blocked_ok by (simp add: send_and_receive_def)
  next
    case sent
    obtain r s'' where r: "receive opts s' = (r, s'')" by (cases "receive opts s'")
    note keeps = receive_keeps [OF r]
    have P: "P s''" by (rule assms(2)) (use sent keeps in simp_all)
    show ?thesis
    proof (cases r)
      case (Received x)
      then show ?thesis using sent(1,5) r keeps assms(5) [OF _ P] by (simp add: send_and_receive_def)
    next
      case Waits
      then show ?thesis using sent(1,6) r keeps assms(4) [OF P] by (simp add: send_and_receive_def)
    next
      case Throws
      then show ?thesis using sent(1) r blocked_ok [OF assms(3) [OF P]] by (simp add: send_and_receive_def)
    qed
  qed
qed

lemma awaiting_ok:
  "said_hello opts s \<Longrightarrow> cn_queue s = None \<Longrightarrow> cn_reads s = 3 \<Longrightarrow> client_ok opts a (s\<lparr>cn_phase := AwaitChallenge\<rparr>)"
  "sent_proof opts a s \<Longrightarrow> client_ok opts a (s\<lparr>cn_phase := AwaitReceipt\<rparr>)"
  by (simp_all add: client_ok_def shape_facts)

lemma read_done_ok:
  assumes "cn_posted s = []" and "cn_signs s = []" and "cn_queue s = None" and "cn_reads s = 1"
  shows "client_ok opts a (read_done opts r s)"
proof -
  have blocked: "client_ok opts a (end_client (ClientBlocked e) s)" for e
    by (rule blocked_ok [OF shapes(4) [OF assms(1,2)]])
  show ?thesis
  proof (cases r)
    case (Ready w key hash)
    let ?s = "s\<lparr>cn_key := Some (key, hash)\<rparr>"
    have "client_ok opts a (send_and_receive opts (hello_message opts key) AwaitChallenge (on_challenge opts) ?s)"
    proof (rule send_and_receive_ok [where P = "said_hello opts"])
      show "session_shape opts a ?s" by (rule shapes(4)) (simp_all add: assms)
      show "said_hello opts s'" if "cn_posted s' = cn_posted ?s @ [hello_message opts key]" "cn_signs s' = cn_signs ?s" "cn_key s' = cn_key ?s" for s'
        using that assms by (simp add: said_hello_def)
      show "client_ok opts a (s'\<lparr>cn_phase := AwaitChallenge\<rparr>)" if "said_hello opts s'" "cn_queue s' = None" "cn_reads s' = cn_reads ?s + 2" for s'
        using that assms(4) by (simp add: awaiting_ok(1))
      show "client_ok opts a (on_challenge opts x s')" if "cn_queue ?s \<noteq> None" for s' x
        using that assms(3) by simp
    qed (rule shapes(1))
    then show ?thesis using Ready blocked by (simp add: read_done_def)
  qed (use blocked in \<open>simp_all add: read_done_def\<close>)
qed

lemma sign_done_ok:
  assumes "asked_key opts ch s" and "cn_reads s = 4" and "\<And>signature. answer = Some (Inr signature) \<Longrightarrow> signature \<in> a"
  shows "client_ok opts a (sign_done opts ch answer s)"
proof -
  have shape: "session_shape opts a s" by (rule shapes(2) [OF assms(1)])
  have blocked: "client_ok opts a (end_client (ClientBlocked e) s)" "client_ok opts a (end_client (ClientBlocked e) (tick s))"
    "client_ok opts a (end_client (ClientBlocked e) (tick (tick s)))" for e
    using blocked_ok shape by (simp_all add: shape_facts)
  have send: "client_ok opts a (send_and_receive opts (proof_message opts ch signature) AwaitReceipt (on_receipt opts) (tick (tick s)))"
    if "signature \<in> a" "co_clock opts 5 = Some t" "t < the_int (js_get ch ''expires_at_ms'')" for signature t
  proof (rule send_and_receive_ok [where P = "sent_proof opts a"])
    obtain key hash where k: "cn_key s = Some (key, hash)" "cn_posted s = [hello_message opts key]" "cn_signs s = [ch]" "signed_for opts ch hash"
      using assms(1) by (auto simp: asked_key_def)
    show "sent_proof opts a s'" if "cn_posted s' = cn_posted (tick (tick s)) @ [proof_message opts ch signature]"
      "cn_signs s' = cn_signs (tick (tick s))" "cn_key s' = cn_key (tick (tick s))" for s'
      unfolding sent_proof_def by (intro exI conjI) (use that k \<open>signature \<in> a\<close> \<open>co_clock opts 5 = Some t\<close>
        \<open>t < the_int (js_get ch ''expires_at_ms'')\<close> in simp_all)
    show "session_shape opts a (tick (tick s))" using shape by (simp add: shape_facts)
  qed (rule shapes(3) awaiting_ok(2) on_receipt_ok; assumption)+
  show ?thesis
  proof (cases answer)
    case None
    then show ?thesis using blocked by (simp add: sign_done_def)
  next
    case (Some r)
    then show ?thesis using blocked send assms(2,3) by (cases r) (auto simp: sign_done_def split: option.split)
  qed
qed

lemma client_step_ok:
  assumes "client_ok opts a s" and "\<And>signature. e = SignDone (Some (Inr signature)) \<Longrightarrow> signature \<in> a"
  shows "client_ok opts a (client_step opts e s)"
proof -
  note ok = assms(1) [unfolded client_ok_def]
  have gone: "client_ok opts a (uncertain (s\<lparr>cn_failed := True\<rparr>))"
    by (rule blocked_ok) (use client_ok_shape [OF assms(1)] in \<open>simp add: shape_facts\<close>)
  have queued: "client_ok opts a (s\<lparr>cn_failed := b\<rparr>)" "client_ok opts a (s\<lparr>cn_queue := q\<rparr>)" if "cn_phase s = AwaitSignature ch" for ch b q
    using ok that by (simp_all add: client_ok_def shape_facts)
  show ?thesis
  proof (cases e)
    case (ReadDone r)
    then show ?thesis using ok assms(1) read_done_ok [of s opts a r] by (cases "cn_phase s") simp_all
  next
    case (SignDone answer)
    then show ?thesis using ok assms sign_done_ok [of opts _ s answer a] by (cases "cn_phase s") simp_all
  next
    case (PortMessage m)
    then show ?thesis using ok assms(1) on_challenge_ok [of opts s a m] on_receipt_ok [of opts a s m] queued
      by (cases "cn_phase s") (simp_all add: port_message_def)
  next
    case PortGone
    then show ?thesis using assms(1) gone queued by (cases "cn_phase s") (simp_all add: port_gone_def)
  next
    case PortTimer
    then show ?thesis using assms(1) gone by (simp add: port_timer_def)
  qed
qed

definition answers_in :: "client_event list \<Rightarrow> string set" where
  "answers_in evs = {signature. SignDone (Some (Inr signature)) \<in> set evs}"

lemma client_run_ok: "client_ok opts (answers_in evs) (client_run opts evs)"
proof -
  have start: "client_ok opts a (client_start opts)" for a
    by (auto simp: client_start_def client_ok_def end_client_def tick_def Let_def session_shape_def split: option.split)
  have "client_ok opts a (fold (client_step opts) evs s)" if "client_ok opts a s" "answers_in evs \<subseteq> a" for a s
    using that
  proof (induction evs arbitrary: s)
    case Nil
    then show ?case by simp
  next
    case (Cons e evs)
    have "client_ok opts a (client_step opts e s)" using Cons.prems by (intro client_step_ok) (auto simp: answers_in_def)
    moreover have "answers_in evs \<subseteq> a" using Cons.prems(2) by (auto simp: answers_in_def)
    ultimately show ?case using Cons.IH by simp
  qed
  then show ?thesis unfolding client_run_def using start by blast
qed

text \<open>
  C30: a session posts at most a hello and a proof and asks the key for at most one signature, whatever
  the host, the key store and the timers do. When it reports a local proof it has posted exactly the
  hello with the key that was read and a proof with a signature the key answered, for the one
  challenge it asked about; that challenge names this extension's origin, worker, key, profile and
  resources and its own nonce, with a server nonce different from it. Its deadline is after the clock's
  reading at its arrival, the session's reading 3, and at most fifteen seconds after that; and when the
  key had answered and before the proof was sent, at reading 5, it had not passed.
\<close>

theorem session_signs_once:
  assumes "s = client_run opts evs"
  shows "length (cn_posted s) \<le> 2 \<and> length (cn_signs s) \<le> 1 \<and>
    (cn_phase s = Ended (LocalProofOk w h) \<longrightarrow>
      (\<exists>key ch signature arrived sent. cn_key s = Some (key, h) \<and> w = co_workerId opts \<and> SignDone (Some (Inr signature)) \<in> set evs \<and>
        cn_posted s = [hello_message opts key, proof_message opts ch signature] \<and> cn_signs s = [ch] \<and>
        js_get ch ''origin'' = co_origin opts \<and> js_get ch ''worker_id'' = w \<and> js_get ch ''public_key_sha256'' = JStr h \<and>
        js_get ch ''profile_binding_sha256'' = co_profile opts \<and> js_get ch ''resources'' = co_resources opts \<and>
        js_get ch ''client_nonce'' = JStr (client_nonce opts) \<and> validHash (js_get ch ''server_nonce'') \<and>
        js_get ch ''server_nonce'' \<noteq> JStr (client_nonce opts) \<and>
        co_clock opts 3 = Some arrived \<and> arrived < the_int (js_get ch ''expires_at_ms'') \<and>
        the_int (js_get ch ''expires_at_ms'') \<le> arrived + 15000 \<and> co_clock opts 5 = Some sent \<and> sent < the_int (js_get ch ''expires_at_ms'')))"
proof -
  have ok: "client_ok opts (answers_in evs) s" unfolding assms by (rule client_run_ok)
  have lens: "length (cn_posted s) \<le> 2" "length (cn_signs s) \<le> 1"
    using client_ok_shape [OF ok] by (auto simp: session_shape_def said_hello_def asked_key_def sent_proof_def)
  show ?thesis
  proof (intro conjI lens impI)
    assume ended: "cn_phase s = Ended (LocalProofOk w h)"
    then obtain key hash ch signature t where p: "cn_key s = Some (key, hash)" "signature \<in> answers_in evs"
        "cn_posted s = [hello_message opts key, proof_message opts ch signature]" "cn_signs s = [ch]" "signed_for opts ch hash"
        "w = co_workerId opts" "h = key_text s" "co_clock opts 5 = Some t" "t < the_int (js_get ch ''expires_at_ms'')"
      using ok ended by (auto simp: client_ok_def sent_proof_def)
    obtain m now where m: "co_clock opts 3 = Some now" "valid_host_challenge m (client_nonce opts) (co_profile opts) now 15000" "ch = proof_challenge opts hash m"
      using p(5) by (auto simp: signed_for_def)
    have "h = hash" using p(1,7) by (simp add: key_text_def)
    then show "\<exists>key ch signature arrived sent. cn_key s = Some (key, h) \<and> w = co_workerId opts \<and> SignDone (Some (Inr signature)) \<in> set evs \<and>
        cn_posted s = [hello_message opts key, proof_message opts ch signature] \<and> cn_signs s = [ch] \<and>
        js_get ch ''origin'' = co_origin opts \<and> js_get ch ''worker_id'' = w \<and> js_get ch ''public_key_sha256'' = JStr h \<and>
        js_get ch ''profile_binding_sha256'' = co_profile opts \<and> js_get ch ''resources'' = co_resources opts \<and>
        js_get ch ''client_nonce'' = JStr (client_nonce opts) \<and> validHash (js_get ch ''server_nonce'') \<and>
        js_get ch ''server_nonce'' \<noteq> JStr (client_nonce opts) \<and>
        co_clock opts 3 = Some arrived \<and> arrived < the_int (js_get ch ''expires_at_ms'') \<and>
        the_int (js_get ch ''expires_at_ms'') \<le> arrived + 15000 \<and> co_clock opts 5 = Some sent \<and> sent < the_int (js_get ch ''expires_at_ms'')"
      using p m by (intro exI [of _ key] exI [of _ ch] exI [of _ signature] exI [of _ now] exI [of _ t])
        (auto simp: proof_challenge_def valid_host_challenge_def answers_in_def)
  qed
qed

section \<open>An honest session completes\<close>

text \<open>
  The caller's pins are the policy's, the key is the policy's, and the hosts' clocks agree well enough: the
  challenge arrives after it was issued, and every step happens before the challenge and the session
  end.
\<close>

definition pins_shared :: "client_opts \<Rightarrow> jsval \<Rightarrow> string \<Rightarrow> bool" where
  "pins_shared opts p hash \<longleftrightarrow> co_origin opts = js_get p ''allowed_origin'' \<and> co_workerId opts = js_get p ''worker_id'' \<and>
     co_profile opts = js_get p ''profile_binding_sha256'' \<and> sameResources (co_resources opts) (js_get p ''resources'') \<and>
     js_get p ''public_key_sha256'' = JStr hash"

definition challenge_deadline :: "native_env \<Rightarrow> jsval \<Rightarrow> int" where
  "challenge_deadline env p = min (nh_now env 1 + 15000) (the_int (js_get p ''expires_at_ms''))"

definition in_time :: "client_opts \<Rightarrow> native_env \<Rightarrow> jsval \<Rightarrow> bool" where
  "in_time opts env p \<longleftrightarrow> (\<exists>t. (\<forall>k<8. co_clock opts k = Some (t k) \<and> 0 < t k \<and> t k < max_safe - 16000 \<and>
       t k < t 0 + the_int (co_timeoutMs opts) \<and> t k < challenge_deadline env p) \<and> nh_now env 1 \<le> t 3) \<and>
     nh_now env 0 - MAX_CLOCK_SKEW \<le> nh_now env 1 \<and> nh_now env 1 < the_int (js_get p ''expires_at_ms'') \<and>
     nh_now env 2 < challenge_deadline env p"

definition issued_challenge :: "client_opts \<Rightarrow> native_env \<Rightarrow> jsval \<Rightarrow> jsval" where
  "issued_challenge opts env p = challenge_of p (nh_nonce env) (JStr (client_nonce opts)) (challenge_deadline env p)"

lemma validHash_text: "validHash v \<Longrightarrow> \<exists>s. v = JStr s \<and> length s = 64"
  by (cases v) (auto simp: validHash_def hash_re_def class_rep_def)

lemma deadline_digits:
  assumes "validNativeHostPolicy p now" and "0 < e" and "e \<le> the_int (js_get p ''expires_at_ms'')"
  shows "length (int_string e) \<le> 16"
proof -
  have "the_int (js_get p ''expires_at_ms'') \<le> max_safe"
    using assms(1) by (cases "js_get p ''expires_at_ms''") (auto simp: validNativeHostPolicy_def safe_int_def)
  then have "e < 10 ^ Suc 15" using assms(3) by (simp add: max_safe_def)
  from length_int_string [OF _ this] assms(2) show ?thesis by simp
qed

lemma host_frames_fit:
  assumes "validNativeHostPolicy p now" and "validHash n" and "validHash c" and "0 < e" and "e \<le> the_int (js_get p ''expires_at_ms'')"
  shows "encodeFrame (challenge_of p n c e) MAX_RESPONSE_BYTES = Inr (the_frame (challenge_of p n c e))"
    "encodeFrame (receipt_of p) MAX_RESPONSE_BYTES = Inr (the_frame (receipt_of p))"
proof -
  obtain s1 s2 s3 where hashes: "n = JStr s1" "length s1 = 64" "c = JStr s2" "length s2 = 64"
      "js_get p ''profile_binding_sha256'' = JStr s3" "length s3 = 64"
    using validHash_text [OF assms(2)] validHash_text [OF assms(3)] validHash_text [of "js_get p ''profile_binding_sha256''"] assms(1)
    by (auto simp: validNativeHostPolicy_def)
  obtain s4 w where pins: "js_get p ''public_key_sha256'' = JStr s4" "length s4 = 64" "js_get p ''worker_id'' = JStr w" "length w \<le> 63"
    using validHash_text [of "js_get p ''public_key_sha256''"] assms(1)
    by (cases "js_get p ''worker_id''") (auto simp: validNativeHostPolicy_def worker_id_re_def dest!: head_class_rep_length)
  have one: "length (int_string 1) \<le> Suc 0" by (rule length_int_string) simp_all
  have "js_size (challenge_of p n c e) \<le> 2000"
    using deadline_digits [OF assms(1,4,5)] one hashes by (simp add: challenge_of_def)
  then show "encodeFrame (challenge_of p n c e) MAX_RESPONSE_BYTES = Inr (the_frame (challenge_of p n c e))"
    by (intro frame_fits sample_is_object) (simp_all add: MAX_RESPONSE_BYTES_def)
  have "js_size (receipt_of p) \<le> 2000" using one pins by (simp add: receipt_of_def)
  then show "encodeFrame (receipt_of p) MAX_RESPONSE_BYTES = Inr (the_frame (receipt_of p))"
    by (intro frame_fits sample_is_object) (simp_all add: MAX_RESPONSE_BYTES_def)
qed

text \<open>What each side sends, the other accepts.\<close>

lemma string_self: "is_JStr v \<Longrightarrow> js_eq v v"
  by (cases v) simp_all

lemma pinned_strings:
  assumes "config_ok opts" and "pins_shared opts p hash"
  shows "js_eq (js_get p ''worker_id'') (js_get p ''worker_id'')" "js_eq (js_get p ''profile_binding_sha256'') (js_get p ''profile_binding_sha256'')"
  using assms by (auto simp: config_ok_def pins_shared_def str_re_def validHash_def intro!: string_self)

lemma shared_resources:
  assumes "resourceShape r" and "sameResources r q"
  shows "validResources r"
proof -
  have "mset (js_values r) = mset (map (js_get r) RESOURCE_FIELDS)"
    using assms by (intro resource_values) (simp_all add: resourceShape_def sameResources_def)
  then have "set (js_values r) = set (map (js_get r) RESOURCE_FIELDS)" by (rule mset_eq_setD)
  then show ?thesis using assms(1) by (auto simp: validResources_def resourceShape_def list_all_iff)
qed

lemma hello_accepted:
  assumes "config_ok opts" and "pins_shared opts p hash" and "hash_re (client_nonce opts)" and "validPublic key" and "nc_key_ok nc key"
    and "publicThumbprint nc key = hash"
  shows "matchesHello nc (hello_message opts key) p"
proof -
  have "js_eq (co_workerId opts) (js_get p ''worker_id'')"
    using pinned_strings [OF assms(1,2)] assms(2) by (simp add: pins_shared_def)
  moreover have "validResources (co_resources opts)"
    by (rule shared_resources) (use assms(1,2) in \<open>auto simp: config_ok_def pins_shared_def\<close>)
  ultimately show ?thesis using assms
    by (simp add: matchesHello_def hello_message_def pins_shared_def validHash_def exact_joined_def HELLO_FIELDS_def)
qed

lemma challenge_accepted:
  assumes "pins_shared opts p hash" and "config_ok opts" and "validHash (nh_nonce env)" and "nh_nonce env \<noteq> JStr (client_nonce opts)"
    and "safe_int (challenge_deadline env p)" and "now < challenge_deadline env p" and "nh_now env 1 \<le> now"
  shows "valid_host_challenge (issued_challenge opts env p) (client_nonce opts) (co_profile opts) now 15000"
proof -
  obtain s where s: "nh_nonce env = JStr s" "s \<noteq> client_nonce opts" using validHash_text [OF assms(3)] assms(4) by auto
  note profile = pinned_strings(2) [OF assms(2,1)]
  have "challenge_deadline env p \<le> now + 15000" using assms(7) by (simp add: challenge_deadline_def)
  then show ?thesis using assms s profile
    by (simp add: valid_host_challenge_def issued_challenge_def challenge_of_def exact_joined_def CLIENT_CHALLENGE_FIELDS_def pins_shared_def)
qed

text \<open>The signer's text for the client's challenge is the host's for the session.\<close>

lemma same_text:
  assumes "pins_shared opts p hash"
  shows "canonicalNativeProofMessage (proof_challenge opts hash (issued_challenge opts env p)) =
    nativeProofMessage (proof_fields (co_origin opts) (co_workerId opts) p (JStr (client_nonce opts)) (nh_nonce env) (challenge_deadline env p))"
proof -
  have "js_get (co_resources opts) k = js_get (js_get p ''resources'') k" if "k \<in> set RESOURCE_FIELDS" for k
    using assms that by (auto simp: pins_shared_def sameResources_def list_all_iff dest: js_eq_eq)
  then show ?thesis using assms
    by (simp add: canonicalNativeProofMessage_def native_fields_def proof_challenge_def nativeProofMessage_def proof_fields_def
        issued_challenge_def challenge_of_def pins_shared_def RESOURCE_FIELDS_def NATIVE_AUD_def HOST_AUD_def)
qed

lemma proof_accepted:
  assumes "pins_shared opts p hash" and "config_ok opts" and "hash_re (client_nonce opts)" and "nh_now env 2 < challenge_deadline env p"
    and "validHash (nh_nonce env)" and "nc_key_ok nc key" and "decodeP1363 (JStr signature) = Some bytes"
    and "nc_verify nc key (utf8 (canonicalNativeProofMessage (proof_challenge opts hash (issued_challenge opts env p)))) bytes = Some True"
  shows "matchesProof nc (proof_message opts (proof_challenge opts hash (issued_challenge opts env p)) signature)
    (issued_challenge opts env p) (hello_message opts key) p (co_origin opts) (nh_now env 2)"
proof -
  obtain s where s: "nh_nonce env = JStr s" using validHash_text [OF assms(5)] by auto
  have fields: "js_get (issued_challenge opts env p) ''server_nonce'' = nh_nonce env"
    "js_get (issued_challenge opts env p) ''expires_at_ms'' = JInt (challenge_deadline env p)"
    by (simp_all add: issued_challenge_def challenge_of_def)
  show ?thesis using assms(4,6-8) s unfolding matchesProof_def fields same_text [OF assms(1)]
    by (simp add: proof_message_def proof_challenge_def hello_message_def fields exact_joined_def PROOF_FIELDS_def)
qed

lemma receipt_accepted:
  assumes "pins_shared opts p hash" and "config_ok opts"
  shows "validReceipt (receipt_of p) (co_workerId opts) hash"
proof -
  show ?thesis using assms(1) pinned_strings(1) [OF assms(2,1)]
    by (simp add: validReceipt_def receipt_of_def exact_joined_def RECEIPT_FIELDS_def pins_shared_def)
qed

text \<open>The client's run of four events, with its clock's readings.\<close>

definition honest_events :: "client_opts \<Rightarrow> native_env \<Rightarrow> jsval \<Rightarrow> jsval \<Rightarrow> string \<Rightarrow> string \<Rightarrow> client_event list" where
  "honest_events opts env p key hash signature =
     [ReadDone (Ready (str_or_empty (co_workerId opts)) key hash), PortMessage (issued_challenge opts env p),
      SignDone (Some (Inr signature)), PortMessage (receipt_of p)]"

lemma fresh_reading: "0 < t \<Longrightarrow> t < max_safe - 16000 \<Longrightarrow> freshTime (Some t) = Some t"
  by (simp add: freshTime_def safe_int_def max_safe_def)

lemma posts_and_waits:
  assumes "cn_failed s = False" and "cn_queue s = None" and "co_clock opts (cn_reads s) = Some t" and "co_clock opts (Suc (cn_reads s)) = Some t'"
    and "t < cn_deadline s" and "t' < cn_deadline s" and "0 < t'" and "cn_deadline s \<le> max_safe" and "\<And>k. co_post opts k"
  shows "send_and_receive opts m wait k s = s\<lparr>cn_phase := wait, cn_reads := cn_reads s + 2, cn_posted := cn_posted s @ [m]\<rparr>"
proof -
  let ?s = "(tick s)\<lparr>cn_posted := cn_posted s @ [m]\<rparr>"
  have send: "send_client opts m s = (True, ?s)" using assms by (simp add: send_client_def)
  have "0 < min (cn_deadline s - t') 15000" "safe_int (min (cn_deadline s - t') 15000)"
    using assms(5-8) by (auto simp: safe_int_def max_safe_def min_def)
  then have "receive opts ?s = (Waits, tick ?s)"
    using assms(1,2,4) by (simp add: receive_def Let_def tick_def)
  then show ?thesis unfolding send_and_receive_def send by (simp add: tick_def)
qed

lemma honest_client_run:
  assumes "validNativeHostPolicy p (nh_now env 0)" and "config_ok opts" and "pins_shared opts p hash" and "in_time opts env p"
    and "co_random opts \<noteq> None" and "hash_re (client_nonce opts)" and "validHash (nh_nonce env)" and "nh_nonce env \<noteq> JStr (client_nonce opts)"
    and "co_connects opts" and "\<And>k. co_post opts k"
  shows "cn_phase (client_run opts (honest_events opts env p key hash signature)) = Ended (LocalProofOk (js_get p ''worker_id'') hash)"
proof -
  let ?d = "challenge_deadline env p" and ?ch = "proof_challenge opts hash (issued_challenge opts env p)"
  obtain t where t: "\<And>k. k < 8 \<Longrightarrow> co_clock opts k = Some (t k) \<and> 0 < t k \<and> t k < max_safe - 16000 \<and>
      t k < t 0 + the_int (co_timeoutMs opts) \<and> t k < ?d" "nh_now env 1 \<le> t 3"
    using assms(4) unfolding in_time_def by blast
  have "is_safe_integer (js_get p ''expires_at_ms'')" using assms(1) by (simp add: validNativeHostPolicy_def)
  then have small: "?d \<le> max_safe" by (cases "js_get p ''expires_at_ms''") (auto simp: challenge_deadline_def safe_int_def)
  have origin: "str_re origin_re (co_origin opts)"
    using assms(1,3) by (simp add: pins_shared_def validNativeHostPolicy_def str_re_def)
  have fresh: "freshTime (co_clock opts k) = Some (t k)" if "k < 8" for k
    using t(1) [OF that] fresh_reading by simp
  let ?D = "t 0 + the_int (co_timeoutMs opts)"
  have D: "?D \<le> max_safe" using t(1) [of 0] assms(2) by (simp add: config_ok_def)
  let ?s1 = "\<lparr>cn_phase = AwaitChallenge, cn_reads = 3, cn_deadline = ?D, cn_key = Some (key, hash), cn_failed = False,
    cn_queue = None, cn_posted = [hello_message opts key], cn_signs = []\<rparr>"
  have s0: "client_start opts = \<lparr>cn_phase = Reading, cn_reads = 1, cn_deadline = ?D, cn_key = None, cn_failed = False,
    cn_queue = None, cn_posted = [], cn_signs = []\<rparr>"
    using assms(2) fresh [of 0] origin by (simp add: client_start_def tick_def Let_def)
  obtain rb where rb: "co_random opts = Some rb" using assms(5) by blast
  have s1: "client_step opts (ReadDone (Ready w key hash)) (client_start opts) = ?s1" for w
    using rb assms(6,9) posts_and_waits [of "\<lparr>cn_phase = Reading, cn_reads = 1, cn_deadline = ?D, cn_key = Some (key, hash), cn_failed = False,
      cn_queue = None, cn_posted = [], cn_signs = []\<rparr>" opts "t 1" "t 2"] t(1) [of 1] t(1) [of 2] D assms(10)
    unfolding s0 by (simp add: read_done_def numeral_2_eq_2 numeral_3_eq_3)
  let ?s2 = "?s1\<lparr>cn_phase := AwaitSignature ?ch, cn_reads := 4, cn_signs := [?ch]\<rparr>"
  have valid: "valid_host_challenge (issued_challenge opts env p) (client_nonce opts) (co_profile opts) (t 3) 15000"
    by (rule challenge_accepted [OF assms(3,2,7,8)]) (use small t(2) t(1) [of 3] in \<open>simp_all add: safe_int_def max_safe_def\<close>)
  have s2: "client_step opts (PortMessage (issued_challenge opts env p)) ?s1 = ?s2"
    using fresh [of 3] valid by (simp add: port_message_def on_challenge_def key_text_def tick_def Let_def)
  let ?s3 = "?s2\<lparr>cn_phase := AwaitReceipt, cn_reads := 8, cn_posted := [hello_message opts key, proof_message opts ?ch signature]\<rparr>"
  have expires: "the_int (js_get ?ch ''expires_at_ms'') = ?d"
    by (simp add: proof_challenge_def issued_challenge_def challenge_of_def)
  have s3: "client_step opts (SignDone (Some (Inr signature))) ?s2 = ?s3"
    using fresh [of 4] t(1) [of 5] expires posts_and_waits [of "?s2\<lparr>cn_reads := 6\<rparr>" opts "t 6" "t 7"] t(1) [of 6] t(1) [of 7] D assms(10)
    by (simp add: sign_done_def tick_def)
  have "client_step opts (PortMessage (receipt_of p)) ?s3 = end_client (LocalProofOk (co_workerId opts) hash) ?s3"
    using receipt_accepted [OF assms(3,2)] by (simp add: port_message_def on_receipt_def key_text_def)
  then have "client_run opts (honest_events opts env p key hash signature) = end_client (LocalProofOk (co_workerId opts) hash) ?s3"
    unfolding client_run_def honest_events_def fold.simps comp_def id_def s1 s2 s3 .
  then show "cn_phase (client_run opts (honest_events opts env p key hash signature)) = Ended (LocalProofOk (js_get p ''worker_id'') hash)"
    using assms(3) by (simp add: end_client_def pins_shared_def)
qed

text \<open>
  C29: an honest session completes on both sides. Let the owner's policy be valid for the host, the
  caller's pins and device key those of the policy, the two nonces different hashes, and the clocks in
  time. Let the host read what the client posts, the client be given what the host writes, and the
  key's signature be one the host's cryptography accepts for the message \<open>signNativeProof\<close> signs. Then the
  host reports the local proof and writes the challenge and the receipt, and the client, from that
  very challenge and receipt, reports a local proof of the policy's worker and key.
\<close>

theorem honest_session_completes:
  assumes "validNativeHostPolicy p (nh_now env 0)" and "config_ok opts" and "pins_shared opts p hash" and "in_time opts env p"
    and "validPublic key" and "nc_key_ok (nh_crypto env) key" and "publicThumbprint (nh_crypto env) key = hash"
    and "co_random opts \<noteq> None" and "hash_re (client_nonce opts)" and "validHash (nh_nonce env)" and "nh_nonce env \<noteq> JStr (client_nonce opts)"
    and "co_connects opts" and "\<And>k. co_post opts k" and "\<And>k. nh_write env k = None"
    and "decodeP1363 (JStr signature) = Some bytes"
    and "nc_verify (nh_crypto env) key (utf8 (canonicalNativeProofMessage (proof_challenge opts hash (issued_challenge opts env p)))) bytes = Some True"
    and "bounded_read env 0 (nativeFrameReader (nh_input env)) = (r, Inr (hello_message opts key))"
    and "snd (bounded_read env 1 r) = Inr (proof_message opts (proof_challenge opts hash (issued_challenge opts env p)) signature)"
  shows "runNativeProofHost env p (co_origin opts) (JInt 15000) =
      (Inr ''LOCAL_PROOF_OK'', [the_frame (issued_challenge opts env p), the_frame (receipt_of p)]) \<and>
    cn_phase (client_run opts (honest_events opts env p key hash signature)) = Ended (LocalProofOk (js_get p ''worker_id'') hash)"
proof
  let ?d = "challenge_deadline env p" and ?ch = "proof_challenge opts hash (issued_challenge opts env p)"
  obtain t where t: "0 < t (0 :: nat) \<and> t 0 < ?d"
    and host: "nh_now env 0 - MAX_CLOCK_SKEW \<le> nh_now env 1" "nh_now env 1 < the_int (js_get p ''expires_at_ms'')" "nh_now env 2 < ?d"
    using assms(4) unfolding in_time_def by fastforce
  have d: "0 < ?d" "?d \<le> the_int (js_get p ''expires_at_ms'')" using t by (auto simp: challenge_deadline_def)
  have origin: "js_eq (co_origin opts) (js_get p ''allowed_origin'')"
    using assms(1,3) by (auto simp: pins_shared_def validNativeHostPolicy_def str_re_def intro!: string_self)
  have nonce: "\<not> js_eq (nh_nonce env) (JStr (client_nonce opts))" using assms(10,11) validHash_text by fastforce
  note frames = host_frames_fit [OF assms(1) assms(10) _ d, of "JStr (client_nonce opts)", folded issued_challenge_def]
  have c: "validHash (JStr (client_nonce opts))" using assms(9) by (simp add: validHash_def)
  have hello: "matchesHello (nh_crypto env) (hello_message opts key) p"
    by (rule hello_accepted [OF assms(2,3,9,5,6,7)])
  have shown: "matchesProof (nh_crypto env) (proof_message opts ?ch signature) (issued_challenge opts env p) (hello_message opts key) p (co_origin opts) (nh_now env 2)"
    by (rule proof_accepted [OF assms(3,2,9) host(3) assms(10,6,15,16)])
  have said: "js_get (hello_message opts key) ''client_nonce'' = JStr (client_nonce opts)" by (simp add: hello_message_def)
  have "prove_session env p (co_origin opts) 15000 (hello_message opts key) r =
      (Inr ''LOCAL_PROOF_OK'', [the_frame (issued_challenge opts env p), the_frame (receipt_of p)])"
    unfolding prove_session_def Let_def said challenge_deadline_def [symmetric] issued_challenge_def [symmetric] writeFrame_def frames(1) [OF c] frames(2) [OF c]
    using assms(10,14,18) nonce host shown by simp
  moreover have "safe_int 15000" by (simp add: safe_int_def max_safe_def)
  ultimately show "runNativeProofHost env p (co_origin opts) (JInt 15000) =
      (Inr ''LOCAL_PROOF_OK'', [the_frame (issued_challenge opts env p), the_frame (receipt_of p)])"
    using assms(1,17) origin hello by (simp add: runNativeProofHost_def)
  show "cn_phase (client_run opts (honest_events opts env p key hash signature)) = Ended (LocalProofOk (js_get p ''worker_id'') hash)"
    by (rule honest_client_run [OF assms(1-4,8-13)])
qed

text \<open>A client for the sample host.\<close>

definition sample_client :: client_opts where
  "sample_client = \<lparr>co_workerId = JStr ''bke-13'', co_resources = js_get sample_pinned ''resources'', co_profile = JStr (wide_hash CHR ''b''),
     co_timeoutMs = JInt 15000, co_origin = JStr sample_origin, co_clock = \<lambda>_. Some 1000001,
     co_random = Some (replicate 32 (char_of (17 :: nat))), co_connects = True, co_post = \<lambda>_. True\<rparr>"

lemma hex_bytes_11: "hex_bytes (replicate n (char_of (17 :: nat))) = replicate (2 * n) CHR ''1''"
proof (induction n)
  case (Suc n)
  have "hex_bytes [char_of (17 :: nat)] = [CHR ''1'', CHR ''1'']" by code_simp
  then show ?case using Suc by (simp add: hex_bytes_def)
qed (simp add: hex_bytes_def)

lemma sample_client_facts:
  "client_nonce sample_client = wide_hash CHR ''1''" "co_random sample_client \<noteq> None" "co_connects sample_client" "co_post sample_client k"
  "co_workerId sample_client = JStr ''bke-13''"
  by (simp_all add: sample_client_def client_nonce_def hex_bytes_11 wide_hash_def)

lemma sample_nonces:
  "nh_nonce sample_native_env = JStr (wide_hash CHR ''2'')" "hash_re (wide_hash CHR ''1'')" "validHash (JStr (wide_hash CHR ''2''))"
  "wide_hash CHR ''2'' \<noteq> wide_hash CHR ''1''"
  by (simp_all add: sample_native_env_def validHash_def wide_hash_facts wide_digits)

lemma sample_deadline: "challenge_deadline sample_native_env sample_pinned = 1015001"
  by (simp add: challenge_deadline_def sample_native_env_def sample_pinned_def sample_policy_def)

lemma sample_in_time: "in_time sample_client sample_native_env sample_pinned"
  unfolding in_time_def sample_deadline
  by (rule conjI, rule exI [of _ "\<lambda>_. 1000001"])
    (simp_all add: sample_client_def sample_native_env_def max_safe_def MAX_CLOCK_SKEW_def sample_pinned_def sample_policy_def)

lemma sample_pins:
  "pins_shared sample_client sample_pinned (wide_hash CHR ''a'')" "config_ok sample_client"
proof -
  have res: "js_get sample_pinned ''resources'' = JObj [(''chatgpt_target_sha256'', JStr (wide_hash CHR ''c'')),
      (''browser_profile_sha256'', JStr (wide_hash CHR ''d'')), (''bridge_identity_sha256'', JStr (wide_hash CHR ''e''))]"
    by (simp add: sample_pinned_def sample_policy_def)
  show "pins_shared sample_client sample_pinned (wide_hash CHR ''a'')"
    by (simp add: pins_shared_def sample_client_def sameResources_def res RESOURCE_FIELDS_def)
       (simp add: sample_pinned_def sample_policy_def)
  have "str_re worker_id_re (JStr ''bke-13'')" by code_simp
  moreover have "resourceShape (js_get sample_pinned ''resources'')"
    by (simp add: resourceShape_def res exact_joined_def RESOURCE_FIELDS_def validHash_def wide_hash_facts wide_digits)
  ultimately show "config_ok sample_client"
    by (simp add: config_ok_def sample_client_def validHash_def wide_hash_facts wide_digits safe_int_def max_safe_def)
qed

lemma sample_key_facts:
  "validPublic sample_public" "nc_key_ok (nh_crypto sample_native_env) sample_public"
  "publicThumbprint (nh_crypto sample_native_env) sample_public = wide_hash CHR ''a''"
proof -
  show "validPublic sample_public" by code_simp
  show "nc_key_ok (nh_crypto sample_native_env) sample_public" by (simp add: sample_native_env_def sample_node_crypto_def)
  have "is_JStr (js_get sample_public ''x'')" "is_JStr (js_get sample_public ''y'')" by (simp_all add: sample_public_def)
  then show "publicThumbprint (nh_crypto sample_native_env) sample_public = wide_hash CHR ''a''"
    by (auto simp: publicThumbprint_def sample_native_env_def sample_node_crypto_def js_simps hex_bytes_aa wide_hash_def)
qed

lemma sample_messages:
  "hello_message sample_client sample_public = sample_hello"
  "proof_message sample_client (proof_challenge sample_client h (issued_challenge sample_client sample_native_env sample_pinned)) (replicate 86 CHR ''A'') =
     sample_device_proof"
proof -
  show "hello_message sample_client sample_public = sample_hello"
    by (simp add: hello_message_def sample_client_facts) (simp add: sample_client_def sample_hello_def)
  show "proof_message sample_client (proof_challenge sample_client h (issued_challenge sample_client sample_native_env sample_pinned)) (replicate 86 CHR ''A'') =
     sample_device_proof"
    by (simp add: proof_message_def proof_challenge_def issued_challenge_def challenge_of_def sample_client_facts sample_nonces sample_device_proof_def)
qed

lemma sample_signature:
  "decodeP1363 (JStr (replicate 86 CHR ''A'')) = Some (replicate 64 CHR 0x00)"
  "nc_verify (nh_crypto sample_native_env) sample_public
     (utf8 (canonicalNativeProofMessage (proof_challenge sample_client (wide_hash CHR ''a'') (issued_challenge sample_client sample_native_env sample_pinned)))) bytes = Some True"
proof -
  show "decodeP1363 (JStr (replicate 86 CHR ''A'')) = Some (replicate 64 CHR 0x00)" by code_simp
  have "proof_fields (co_origin sample_client) (co_workerId sample_client) sample_pinned (JStr (client_nonce sample_client)) (nh_nonce sample_native_env)
      (challenge_deadline sample_native_env sample_pinned) = sample_signed"
    unfolding sample_deadline sample_signed_def by (simp add: sample_client_facts sample_nonces) (simp add: sample_client_def)
  then show "nc_verify (nh_crypto sample_native_env) sample_public
     (utf8 (canonicalNativeProofMessage (proof_challenge sample_client (wide_hash CHR ''a'') (issued_challenge sample_client sample_native_env sample_pinned)))) bytes = Some True"
    unfolding same_text [OF sample_pins(1)] by (simp add: sample_native_env_def sample_node_crypto_def)
qed

lemma sample_now: "validNativeHostPolicy sample_pinned (nh_now sample_native_env 0)" "nh_write sample_native_env k = None"
proof -
  have "validNativeHostPolicy sample_pinned 1000000" by code_simp
  then show "validNativeHostPolicy sample_pinned (nh_now sample_native_env 0)" by (simp add: sample_native_env_def)
qed (simp add: sample_native_env_def)

theorem honest_session_completes_witness:
  "fst (runNativeProofHost sample_native_env sample_pinned (JStr sample_origin) (JInt 15000)) = Inr ''LOCAL_PROOF_OK'' \<and>
   cn_phase (client_run sample_client (honest_events sample_client sample_native_env sample_pinned sample_public (wide_hash CHR ''a'') (replicate 86 CHR ''A''))) =
     Ended (LocalProofOk (JStr ''bke-13'') (wide_hash CHR ''a''))"
proof -
  obtain r where reads: "bounded_read sample_native_env 0 (nativeFrameReader (nh_input sample_native_env)) = (r, Inr sample_hello)"
      "snd (bounded_read sample_native_env 1 r) = Inr sample_device_proof" using sample_host_reads by blast
  have nonces: "hash_re (client_nonce sample_client)" "validHash (nh_nonce sample_native_env)" "nh_nonce sample_native_env \<noteq> JStr (client_nonce sample_client)"
    by (simp_all add: sample_client_facts sample_nonces)
  have "co_origin sample_client = JStr sample_origin" "js_get sample_pinned ''worker_id'' = JStr ''bke-13''"
    by (simp_all add: sample_client_def sample_pinned_def sample_policy_def)
  with honest_session_completes [OF sample_now(1) sample_pins(2,1) sample_in_time sample_key_facts sample_client_facts(2) nonces
      sample_client_facts(3,4) sample_now(2) sample_signature reads(1) [folded sample_messages(1)] reads(2) [folded sample_messages(2) [of "wide_hash CHR ''a''"]]]
  show ?thesis by simp
qed

theorem session_signs_once_witness:
  "\<exists>key ch signature. cn_posted (client_run sample_client (honest_events sample_client sample_native_env sample_pinned sample_public (wide_hash CHR ''a'') (replicate 86 CHR ''A''))) =
     [hello_message sample_client key, proof_message sample_client ch signature] \<and> js_get ch ''origin'' = co_origin sample_client"
proof -
  let ?evs = "honest_events sample_client sample_native_env sample_pinned sample_public (wide_hash CHR ''a'') (replicate 86 CHR ''A'')"
  have nonces: "hash_re (client_nonce sample_client)" "validHash (nh_nonce sample_native_env)" "nh_nonce sample_native_env \<noteq> JStr (client_nonce sample_client)"
    by (simp_all add: sample_client_facts sample_nonces)
  have "cn_phase (client_run sample_client ?evs) = Ended (LocalProofOk (js_get sample_pinned ''worker_id'') (wide_hash CHR ''a''))"
    by (rule honest_client_run [OF sample_now(1) sample_pins(2,1) sample_in_time sample_client_facts(2) nonces sample_client_facts(3,4)])
  then show ?thesis
    using session_signs_once [of "client_run sample_client ?evs" sample_client ?evs "js_get sample_pinned ''worker_id''" "wide_hash CHR ''a''"] by blast
qed

end
