(* ===== verification/ServiceWorker.thy ===== *)
theory ServiceWorker imports NativeProofClient TargetBinding
begin

text \<open>
  \<open>browser-extension/src/service-worker.ts\<close>: the extension's background script. It routes the messages
  of the popup and of content scripts, keeps the target binding in step with the browser's
  navigation events, and runs the owner's local proof by composing the policy gate, the target
  binding's guard, the proof client and the device key. Every handler is cut at its awaits: a task is a
  handler that waits, and the answer of the browser or of the key store arrives with the step that
  resumes it. Any other message or event may run in between.
\<close>

section \<open>State\<close>

text \<open>
  What the browser gives: the parser of controller URLs, the extension's own URLs, and for the task
  \<open>i\<close> the clock, the random bytes and the port of its proof session.
\<close>

record worker_env =
  we_browser :: browser_env
  we_controller :: "string \<Rightarrow> controller_url option"
  we_popup :: string
  we_origin :: string
  we_session :: "nat \<Rightarrow> client_opts"

text \<open>Why a handler asks for \<open>ownerIdentity\<close>.\<close>

datatype purpose = ForStatus bridge_config | ForRecord jsval jsval | ForSelect

text \<open>The locals of \<open>nativeProofAction\<close> once the policy has matched.\<close>

record proof_args =
  pa_worker :: string
  pa_hash :: string
  pa_resources :: jsval
  pa_profile :: jsval

datatype task =
    StatusConfig
  | OwnerConfig purpose
  | OwnerKey purpose string
  | Bound purpose point
  | BadgeSet jsval
  | SelectProbe
  | SelectSettle
  | IdConfig bool
  | IdMade string
  | IdRead string
  | ProofConfig jsval
  | ProofKey jsval string
  | ProofPermission proof_args
  | ProofTabs proof_args
  | ProofGuard proof_args point
  | ProofClient proof_args guard client
  | ReadConfig
  | Saving jsval
  | ProbeTabs
  | ProbeSettle
  | BootCleared
  | BootBadge
  | BootHarden
  | BootTabs
  | Finished

text \<open>What a step does outside: \<open>Reply i v\<close> answers the message task \<open>i\<close> was started for.\<close>

datatype badge = BadgeClear | BadgeOk | BadgeBusy

datatype bridge_effect =
    Reply nat jsval
  | SetBadge badge
  | SendProbe jsval
  | SaveConfig bridge_config
  | InitializeKey string
  | StartProof nat
  | HardenStorage

text \<open>How an await ends: it rejects, or brings a value, a key's record or an event of a proof session.\<close>

datatype answer = Rejected | Answered jsval | KeyRead read_result | Reported client_event

record bridge =
  br_binding :: binding
  br_nativeProofActive :: bool

type_synonym bridge_result = "bridge \<times> task \<times> bridge_effect list"

definition fresh_bridge :: bridge where
  "fresh_bridge = \<lparr>br_binding = fresh_binding, br_nativeProofActive = False\<rparr>"

section \<open>Replies\<close>

definition state_blocked :: "string \<Rightarrow> jsval" where
  "state_blocked e = JObj [(''state'', JStr ''BLOCKED''), (''code'', JStr e)]"

definition not_ok :: "string \<Rightarrow> string \<Rightarrow> jsval" where
  "not_ok field e = JObj [(''ok'', JBool False), (field, JStr e)]"

definition ok_reply :: jsval where "ok_reply = JObj [(''ok'', JBool True)]"

definition finish :: "nat \<Rightarrow> jsval \<Rightarrow> bridge \<Rightarrow> bridge_result" where
  "finish i v b = (b, Finished, [Reply i v])"

definition config_json :: "bridge_config \<Rightarrow> jsval" where
  "config_json c = JObj [(''workerId'', JStr (bc_workerId c)), (''controllerUrl'', JStr (bc_controllerUrl c))]"

definition validation_json :: "string + bridge_config \<Rightarrow> jsval" where
  "validation_json r = (case r of
       Inl e \<Rightarrow> JObj [(''ok'', JBool False), (''error'', JStr e), (''value'', JNull)]
     | Inr c \<Rightarrow> JObj [(''ok'', JBool True), (''error'', JNull), (''value'', config_json c)])"

fun state_name :: "connection_state \<Rightarrow> string" where
  "state_name DISABLED = ''DISABLED''"
| "state_name UNPAIRED = ''UNPAIRED''"
| "state_name READY_FOR_TRANSPORT = ''READY_FOR_TRANSPORT''"

definition bridge_status :: "bridge_config \<Rightarrow> jsval option \<Rightarrow> jsval" where
  "bridge_status c chat = JObj [(''protocolVersion'', JInt PROTOCOL_VERSION), (''workerId'', JStr (bc_workerId c)),
     (''controllerUrl'', JStr (bc_controllerUrl c)), (''connectionState'', JStr (state_name (deriveConnectionState c))),
     (''chatGpt'', (case chat of None \<Rightarrow> JNull | Some v \<Rightarrow> v))]"

fun summary_json :: "identity_summary \<Rightarrow> jsval" where
  "summary_json (Provisioned w h) = JObj [(''state'', JStr ''PROVISIONED''), (''worker_id'', JStr w), (''public_key_sha256'', JStr h)]"
| "summary_json NotProvisioned = JObj [(''state'', JStr ''NOT_PROVISIONED'')]"
| "summary_json (SummaryBlocked e) = state_blocked e"
| "summary_json SummaryThrows = state_blocked ''IDENTITY_UNAVAILABLE''"

fun outcome_json :: "client_outcome \<Rightarrow> jsval" where
  "outcome_json (LocalProofOk w h) = JObj [(''state'', JStr ''LOCAL_PROOF_OK''), (''worker_id'', w), (''public_key_sha256'', JStr h),
     (''admission_authority'', JStr ''NONE''), (''dispatch_authority'', JStr ''NONE'')]"
| "outcome_json (ClientBlocked e) = state_blocked e"

section \<open>Configuration and owner\<close>

text \<open>\<open>getConfig\<close>, of the stored value; an absent or foreign one is the default configuration.\<close>

definition getConfig :: "jsval \<Rightarrow> bridge_config" where
  "getConfig v =
     (if is_JStr (js_get v ''workerId'') \<and> is_JStr (js_get v ''controllerUrl'')
      then \<lparr>bc_workerId = str_or_empty (js_get v ''workerId''), bc_controllerUrl = str_or_empty (js_get v ''controllerUrl'')\<rparr>
      else \<lparr>bc_workerId = [], bc_controllerUrl = []\<rparr>)"

definition config_valid :: "worker_env \<Rightarrow> bridge_config \<Rightarrow> bool" where
  "config_valid env c \<longleftrightarrow> (case validateConfig (we_controller env) (bc_workerId c) (bc_controllerUrl c) of Inl _ \<Rightarrow> False | Inr _ \<Rightarrow> True)"

text \<open>How an operation of the target binding goes on: it waits, or its outcome is used.\<close>

definition chat_badge :: "jsval \<Rightarrow> badge" where
  "chat_badge payload = (if truthy (js_get payload ''composerAvailable'') \<and> \<not> truthy (js_get payload ''turnBusy'') then BadgeOk else BadgeBusy)"

fun settled :: "nat \<Rightarrow> purpose \<Rightarrow> outcome \<Rightarrow> bridge \<Rightarrow> bridge_result" where
  "settled i (ForStatus c) (TargetStatus r) b = finish i (bridge_status c r) b"
| "settled i (ForRecord payload sender) TargetObserved b = (b, BadgeSet ok_reply, [SetBadge (chat_badge payload)])"
| "settled i (ForRecord payload sender) (TargetBlocked e) b = (b, BadgeSet (not_ok ''error'' e), [SetBadge BadgeClear])"
| "settled i ForSelect TargetSelected b = (b, SelectProbe, [])"
| "settled i ForSelect (TargetBlocked e) b = finish i (not_ok ''code'' e) b"
| "settled i p out b = (b, Finished, [])"

definition bound :: "nat \<Rightarrow> purpose \<Rightarrow> binding \<times> point \<Rightarrow> bridge \<Rightarrow> bridge_result" where
  "bound i p r b = (case snd r of Done out \<Rightarrow> settled i p out (b\<lparr>br_binding := fst r\<rparr>)
     | pt \<Rightarrow> (b\<lparr>br_binding := fst r\<rparr>, Bound p pt, []))"

text \<open>
  The rest of \<open>getBridgeStatus\<close>, \<open>recordChatGptStatus\<close> and \<open>selectOwnerTarget\<close> after \<open>ownerIdentity\<close>
  has answered with the worker and its key's hash, or with null.
\<close>

fun with_owner :: "worker_env \<Rightarrow> nat \<Rightarrow> purpose \<Rightarrow> (string \<times> string) option \<Rightarrow> bridge \<Rightarrow> bridge_result" where
  "with_owner env i (ForStatus c) None b = finish i (bridge_status c None) b"
| "with_owner env i (ForStatus c) (Some (w, k)) b = bound i (ForStatus c) (current_start Alone w k (br_binding b)) b"
| "with_owner env i (ForRecord payload sender) None b =
     finish i (not_ok ''error'' ''TARGET_OWNER_UNAVAILABLE'') (b\<lparr>br_binding := invalidate (br_binding b)\<rparr>)"
| "with_owner env i (ForRecord payload sender) (Some (w, k)) b =
     bound i (ForRecord payload sender) (observe_start (we_browser env) payload sender w k (br_binding b)) b"
| "with_owner env i ForSelect None b = finish i (not_ok ''code'' ''TARGET_OWNER_UNAVAILABLE'') b"
| "with_owner env i ForSelect (Some (w, k)) b = bound i ForSelect (select_start w k (br_binding b)) b"

definition owner_config :: "worker_env \<Rightarrow> nat \<Rightarrow> purpose \<Rightarrow> jsval option \<Rightarrow> bridge \<Rightarrow> bridge_result" where
  "owner_config env i p stored b =
     (case stored of None \<Rightarrow> with_owner env i p None b
      | Some v \<Rightarrow> if config_valid env (getConfig v) then (b, OwnerKey p (bc_workerId (getConfig v)), [])
          else with_owner env i p None b)"

definition owner_key :: "worker_env \<Rightarrow> nat \<Rightarrow> purpose \<Rightarrow> string \<Rightarrow> read_result \<Rightarrow> bridge \<Rightarrow> bridge_result" where
  "owner_key env i p worker r b = with_owner env i p (case r of Ready w key hash \<Rightarrow> Some (worker, hash) | _ \<Rightarrow> None) b"

text \<open>\<open>probeChatGptTabs\<close>: every tab with a number is asked; tabs that are not a list make it reject.\<close>

definition probes :: "jsval list \<Rightarrow> bridge_effect list" where
  "probes tabs = map (\<lambda>t. SendProbe (js_get t ''id'')) (filter (\<lambda>t. is_number (js_get t ''id'')) tabs)"

section \<open>The device key\<close>

text \<open>\<open>deviceIdentityAction\<close>.\<close>

definition id_config :: "worker_env \<Rightarrow> nat \<Rightarrow> bool \<Rightarrow> jsval option \<Rightarrow> bridge \<Rightarrow> bridge_result" where
  "id_config env i init stored b =
     (case stored of None \<Rightarrow> finish i (state_blocked ''IDENTITY_UNAVAILABLE'') b
      | Some v \<Rightarrow>
          let c = getConfig v in
          if \<not> config_valid env c then finish i (state_blocked ''IDENTITY_CONFIGURATION_INVALID'') b
          else if init then (b, IdMade (bc_workerId c), [InitializeKey (bc_workerId c)])
          else (b, IdRead (bc_workerId c), []))"

definition id_made :: "nat \<Rightarrow> string \<Rightarrow> read_result \<Rightarrow> bridge \<Rightarrow> bridge_result" where
  "id_made i worker r b =
     (case r of Ready w key hash \<Rightarrow> (b, IdRead worker, [])
      | ReadBlocked e \<Rightarrow> finish i (state_blocked e) b
      | ReadThrows \<Rightarrow> finish i (state_blocked ''IDENTITY_UNAVAILABLE'') b)"

section \<open>The local proof\<close>

text \<open>\<open>nativeProofAction\<close>, whose \<open>finally\<close> clears the flag on every way out.\<close>

definition end_proof :: "nat \<Rightarrow> jsval \<Rightarrow> bridge \<Rightarrow> bridge_result" where
  "end_proof i v b = finish i v (b\<lparr>br_nativeProofActive := False\<rparr>)"

definition native_uncertain :: "nat \<Rightarrow> bridge \<Rightarrow> bridge_result" where
  "native_uncertain i b = end_proof i (state_blocked ''NATIVE_PROOF_OUTCOME_UNCERTAIN'') b"

definition native_start :: "nat \<Rightarrow> jsval \<Rightarrow> bridge \<Rightarrow> bridge_result" where
  "native_start i policy b =
     (if br_nativeProofActive b then finish i (state_blocked ''NATIVE_PROOF_ALREADY_IN_PROGRESS'') b
      else (b\<lparr>br_nativeProofActive := True\<rparr>, ProofConfig policy, []))"

definition native_config :: "worker_env \<Rightarrow> nat \<Rightarrow> jsval \<Rightarrow> jsval \<Rightarrow> bridge \<Rightarrow> bridge_result" where
  "native_config env i policy stored b =
     (let c = getConfig stored in
      if \<not> config_valid env c then end_proof i (state_blocked ''NATIVE_PROOF_WORKER_INVALID'') b
      else (b, ProofKey policy (bc_workerId c), []))"

definition native_expected :: "worker_env \<Rightarrow> string \<Rightarrow> string \<Rightarrow> int \<Rightarrow> policy_expected" where
  "native_expected env worker hash now =
     \<lparr>px_origin = JStr (we_origin env), px_workerId = JStr worker, px_publicKeySha256 = JStr hash, px_now = JInt now\<rparr>"

definition matched_args :: "string \<Rightarrow> string \<Rightarrow> policy_result \<Rightarrow> proof_args" where
  "matched_args worker hash m = \<lparr>pa_worker = worker, pa_hash = hash,
     pa_resources = JObj [(''chatgpt_target_sha256'', pm_chatgpt m), (''browser_profile_sha256'', pm_browser m), (''bridge_identity_sha256'', pm_bridge m)],
     pa_profile = pm_profileBinding m\<rparr>"

definition native_key :: "worker_env \<Rightarrow> nat \<Rightarrow> jsval \<Rightarrow> string \<Rightarrow> int \<Rightarrow> read_result \<Rightarrow> bridge \<Rightarrow> bridge_result" where
  "native_key env i policy worker now r b =
     (case r of ReadThrows \<Rightarrow> native_uncertain i b
      | ReadBlocked e \<Rightarrow> end_proof i (state_blocked ''NATIVE_PROOF_DEVICE_KEY_UNAVAILABLE'') b
      | Ready w key hash \<Rightarrow>
          (case checkOwnerNativePolicy policy (native_expected env worker hash now) of
             PolicyBlocked e \<Rightarrow> end_proof i (state_blocked e) b
           | m \<Rightarrow> (b, ProofPermission (matched_args worker hash m), [])))"

definition native_permission :: "nat \<Rightarrow> proof_args \<Rightarrow> jsval \<Rightarrow> bridge \<Rightarrow> bridge_result" where
  "native_permission i pa permitted b =
     (if permitted \<noteq> JBool True then end_proof i (state_blocked ''NATIVE_PROOF_PERMISSION_NOT_GRANTED'') b
      else (b, ProofTabs pa, []))"

text \<open>The session the guarded action runs: the platform's half comes from the environment.\<close>

definition session_opts :: "worker_env \<Rightarrow> nat \<Rightarrow> proof_args \<Rightarrow> client_opts" where
  "session_opts env i pa = (we_session env i)\<lparr>co_workerId := JStr (pa_worker pa), co_resources := pa_resources pa,
     co_profile := pa_profile pa, co_timeoutMs := JInt 15000, co_origin := JStr (we_origin env)\<rparr>"

definition guarded :: "worker_env \<Rightarrow> nat \<Rightarrow> proof_args \<Rightarrow> binding \<times> point \<Rightarrow> bridge \<Rightarrow> bridge_result" where
  "guarded env i pa r b =
     (let b' = b\<lparr>br_binding := fst r\<rparr> in
      case snd r of
        Done (TargetValue v) \<Rightarrow> end_proof i v b'
      | Done (TargetBlocked e) \<Rightarrow> end_proof i (state_blocked e) b'
      | Done out \<Rightarrow> native_uncertain i b'
      | Running g \<Rightarrow> (b', ProofClient pa g (client_start (session_opts env i pa)), [StartProof i])
      | pt \<Rightarrow> (b', ProofGuard pa pt, []))"

definition native_tabs :: "worker_env \<Rightarrow> nat \<Rightarrow> proof_args \<Rightarrow> jsval \<Rightarrow> bridge \<Rightarrow> bridge_result" where
  "native_tabs env i pa tabs b =
     (case tabs of
        JArr [t] \<Rightarrow>
          if \<not> is_integer (js_get t ''id'') \<or> js_get t ''incognito'' = JBool True
          then end_proof i (state_blocked ''NATIVE_PROOF_TARGET_AMBIGUOUS'') b
          else guarded env i pa (guard_start (pa_worker pa) (pa_hash pa) (br_binding b)) b
      | _ \<Rightarrow> end_proof i (state_blocked ''NATIVE_PROOF_TARGET_AMBIGUOUS'') b)"

text \<open>\<open>run\<close> returns once its session has ended; its \<open>catch\<close> leaves it no way to reject.\<close>

definition native_ran :: "worker_env \<Rightarrow> nat \<Rightarrow> proof_args \<Rightarrow> guard \<Rightarrow> client \<Rightarrow> bridge \<Rightarrow> bridge_result" where
  "native_ran env i pa g c b =
     (case cn_phase c of
        Ended out \<Rightarrow> guarded env i pa (resume (we_browser env) (Running g) (Some (outcome_json out)) (br_binding b)) b
      | _ \<Rightarrow> (b, ProofClient pa g c, []))"

section \<open>Resuming a task\<close>

text \<open>\<open>None\<close> for an await that rejects.\<close>

fun answered :: "answer \<Rightarrow> jsval option" where
  "answered (Answered v) = Some v"
| "answered _ = None"

text \<open>The tasks of the popup's and the content scripts' requests about the target, and of the device key.\<close>

fun resume_target :: "worker_env \<Rightarrow> nat \<Rightarrow> answer \<Rightarrow> task \<Rightarrow> bridge \<Rightarrow> bridge_result" where
  "resume_target env i a StatusConfig b =
     (case answered a of None \<Rightarrow> (b, Finished, []) | Some v \<Rightarrow> (b, OwnerConfig (ForStatus (getConfig v)), []))"
| "resume_target env i a (OwnerConfig p) b = owner_config env i p (answered a) b"
| "resume_target env i (KeyRead r) (OwnerKey p w) b = owner_key env i p w r b"
| "resume_target env i a (Bound p pt) b = bound i p (resume (we_browser env) pt (answered a) (br_binding b)) b"
| "resume_target env i a (BadgeSet v) b =
     (case answered a of None \<Rightarrow> finish i (not_ok ''error'' ''TARGET_OBSERVATION_UNAVAILABLE'') b | Some _ \<Rightarrow> finish i v b)"
| "resume_target env i a SelectProbe b =
     (case answered a of Some (JArr tabs) \<Rightarrow> (b, SelectSettle, probes tabs)
      | _ \<Rightarrow> finish i (not_ok ''code'' ''TARGET_SELECTION_UNAVAILABLE'') b)"
| "resume_target env i a SelectSettle b =
     finish i (JObj [(''ok'', JBool True), (''state'', JStr ''OWNER_TAB_SELECTED_OBSERVATION_ONLY'')]) b"
| "resume_target env i a t b = (b, t, [])"

fun resume_identity :: "worker_env \<Rightarrow> nat \<Rightarrow> answer \<Rightarrow> task \<Rightarrow> bridge \<Rightarrow> bridge_result" where
  "resume_identity env i a (IdConfig init) b = id_config env i init (answered a) b"
| "resume_identity env i (KeyRead r) (IdMade w) b = id_made i w r b"
| "resume_identity env i (KeyRead r) (IdRead w) b = finish i (summary_json (publicIdentitySummary r)) b"
| "resume_identity env i a t b = (b, t, [])"

fun resume_proof :: "worker_env \<Rightarrow> nat \<Rightarrow> int \<Rightarrow> answer \<Rightarrow> task \<Rightarrow> bridge \<Rightarrow> bridge_result" where
  "resume_proof env i now (Answered v) (ProofConfig policy) b = native_config env i policy v b"
| "resume_proof env i now (KeyRead r) (ProofKey policy w) b = native_key env i policy w now r b"
| "resume_proof env i now (Answered v) (ProofPermission pa) b = native_permission i pa v b"
| "resume_proof env i now (Answered v) (ProofTabs pa) b = native_tabs env i pa v b"
| "resume_proof env i now Rejected (ProofConfig policy) b = native_uncertain i b"
| "resume_proof env i now Rejected (ProofPermission pa) b = native_uncertain i b"
| "resume_proof env i now Rejected (ProofTabs pa) b = native_uncertain i b"
| "resume_proof env i now a (ProofGuard pa pt) b = guarded env i pa (resume (we_browser env) pt (answered a) (br_binding b)) b"
| "resume_proof env i now (Reported e) (ProofClient pa g c) b = (b, ProofClient pa g (client_step (session_opts env i pa) e c), [])"
| "resume_proof env i now (Answered v) (ProofClient pa g c) b = native_ran env i pa g c b"
| "resume_proof env i now a t b = (b, t, [])"

text \<open>The configuration's tasks, the probe and \<open>initializeBridge\<close>.\<close>

definition initializeBridge :: "bridge \<Rightarrow> bridge_result" where
  "initializeBridge b = (b\<lparr>br_binding := invalidate (br_binding b)\<rparr>, BootBadge, [SetBadge BadgeClear])"

fun resume_other :: "nat \<Rightarrow> answer \<Rightarrow> task \<Rightarrow> bridge \<Rightarrow> bridge_result" where
  "resume_other i a ReadConfig b = (case answered a of None \<Rightarrow> (b, Finished, []) | Some v \<Rightarrow> finish i (config_json (getConfig v)) b)"
| "resume_other i a (Saving v) b =
     (case answered a of None \<Rightarrow> finish i (not_ok ''error'' ''CONFIG_SAVE_UNAVAILABLE'') b | Some _ \<Rightarrow> finish i v b)"
| "resume_other i a ProbeTabs b = (case answered a of Some (JArr tabs) \<Rightarrow> (b, ProbeSettle, probes tabs) | _ \<Rightarrow> (b, Finished, []))"
| "resume_other i a ProbeSettle b = finish i ok_reply b"
| "resume_other i a BootCleared b = (case answered a of None \<Rightarrow> (b, Finished, []) | Some _ \<Rightarrow> initializeBridge b)"
| "resume_other i a BootBadge b = (case answered a of None \<Rightarrow> (b, Finished, []) | Some _ \<Rightarrow> (b, BootHarden, [HardenStorage]))"
| "resume_other i a BootHarden b = (case answered a of None \<Rightarrow> (b, Finished, []) | Some _ \<Rightarrow> (b, BootTabs, []))"
| "resume_other i a BootTabs b = (case answered a of Some (JArr tabs) \<Rightarrow> (b, Finished, probes tabs) | _ \<Rightarrow> (b, Finished, []))"
| "resume_other i a t b = (b, t, [])"

fun is_target_task :: "task \<Rightarrow> bool" where
  "is_target_task StatusConfig = True"
| "is_target_task (OwnerConfig p) = True"
| "is_target_task (OwnerKey p w) = True"
| "is_target_task (Bound p pt) = True"
| "is_target_task (BadgeSet v) = True"
| "is_target_task SelectProbe = True"
| "is_target_task SelectSettle = True"
| "is_target_task _ = False"

fun is_identity_task :: "task \<Rightarrow> bool" where
  "is_identity_task (IdConfig init) = True"
| "is_identity_task (IdMade w) = True"
| "is_identity_task (IdRead w) = True"
| "is_identity_task _ = False"

fun is_proof_task :: "task \<Rightarrow> bool" where
  "is_proof_task (ProofConfig policy) = True"
| "is_proof_task (ProofKey policy w) = True"
| "is_proof_task (ProofPermission pa) = True"
| "is_proof_task (ProofTabs pa) = True"
| "is_proof_task (ProofGuard pa pt) = True"
| "is_proof_task (ProofClient pa g c) = True"
| "is_proof_task _ = False"

definition resume_task :: "worker_env \<Rightarrow> nat \<Rightarrow> int \<Rightarrow> answer \<Rightarrow> task \<Rightarrow> bridge \<Rightarrow> bridge_result" where
  "resume_task env i now a t b =
     (if is_target_task t then resume_target env i a t b
      else if is_identity_task t then resume_identity env i a t b
      else if is_proof_task t then resume_proof env i now a t b
      else resume_other i a t b)"

section \<open>Messages\<close>

definition isTrustedPopup :: "worker_env \<Rightarrow> jsval \<Rightarrow> bool" where
  "isTrustedPopup env sender \<longleftrightarrow> js_eq (js_get sender ''id'') (JStr (be_extensionId (we_browser env))) \<and>
     js_eq (js_get sender ''url'') (JStr (we_popup env)) \<and> \<not> truthy (js_get sender ''tab'')"

text \<open>\<open>String(v ?? "")\<close>.\<close>

definition text_or_empty :: "jsval \<Rightarrow> string" where
  "text_or_empty v = (if v = JUndef \<or> v = JNull then [] else js_string v)"

definition set_config :: "worker_env \<Rightarrow> nat \<Rightarrow> jsval \<Rightarrow> bridge \<Rightarrow> bridge_result" where
  "set_config env i message b =
     (let r = validateConfig (we_controller env) (text_or_empty (js_get message ''workerId'')) (text_or_empty (js_get message ''controllerUrl'')) in
      case r of Inl e \<Rightarrow> finish i (validation_json r) b
      | Inr c \<Rightarrow> (b\<lparr>br_binding := invalidate (br_binding b)\<rparr>, Saving (validation_json r), [SetBadge BadgeClear, SaveConfig c]))"

text \<open>The listener of \<open>chrome.runtime.onMessage\<close>: the message becomes task \<open>i\<close>.\<close>

definition onMessage :: "worker_env \<Rightarrow> nat \<Rightarrow> jsval \<Rightarrow> jsval \<Rightarrow> bridge \<Rightarrow> bridge_result" where
  "onMessage env i message sender b =
     (let type = js_get message ''type''; popup = isTrustedPopup env sender in
      if js_eq type (JStr ''bke.native.local.proof'')
      then if \<not> popup then finish i (state_blocked ''NATIVE_PROOF_SENDER_REJECTED'') b else native_start i (js_get message ''policy'') b
      else if js_eq type (JStr ''bke.device.identity.status'') \<or> js_eq type (JStr ''bke.device.identity.initialize'')
      then if \<not> popup then finish i (state_blocked ''IDENTITY_SENDER_REJECTED'') b
        else (b, IdConfig (js_eq type (JStr ''bke.device.identity.initialize'')), [])
      else if js_eq type (JStr ''bke.chatgpt.status'')
      then (b, OwnerConfig (ForRecord (js_get message ''payload'') sender), [])
      else if js_eq type (JStr ''bke.chatgpt.target.select'')
      then if \<not> popup then finish i (not_ok ''code'' ''TARGET_SELECT_SENDER_REJECTED'') b else (b, OwnerConfig ForSelect, [])
      else if js_eq type (JStr ''bke.status.get'')
      then if \<not> popup then finish i (not_ok ''error'' ''TARGET_STATUS_SENDER_REJECTED'') b else (b, StatusConfig, [])
      else if js_eq type (JStr ''bke.config.get'')
      then if \<not> popup then finish i (not_ok ''error'' ''CONFIG_SENDER_REJECTED'') b else (b, ReadConfig, [])
      else if js_eq type (JStr ''bke.config.set'')
      then if \<not> popup then finish i (not_ok ''error'' ''CONFIG_SENDER_REJECTED'') b else set_config env i message b
      else if js_eq type (JStr ''bke.chatgpt.probe'') then (b, ProbeTabs, [])
      else (b, Finished, []))"

section \<open>Runs\<close>

datatype bridge_event =
    Message jsval jsval
  | Continue nat int answer
  | TabRemoved int
  | TabUpdated int jsval
  | TabReplaced int int
  | Navigated jsval
  | Installed
  | Startup
  | Restarted

type_synonym bridge_world = "bridge \<times> task list"

text \<open>The tab listeners; \<open>None\<close> when the event is none of theirs.\<close>

definition revokeTopLevelNavigation :: "jsval \<Rightarrow> int option" where
  "revokeTopLevelNavigation details =
     (if \<not> js_eq (js_get details ''frameId'') (JInt 0) \<or> \<not> is_safe_integer (js_get details ''tabId'') then None
      else Some (the_int (js_get details ''tabId'')))"

definition onUpdated :: "int \<Rightarrow> jsval \<Rightarrow> int option" where
  "onUpdated tabId change =
     (if js_eq (js_get change ''status'') (JStr ''loading'') \<or> is_JStr (js_get change ''url'') then Some tabId else None)"

definition tabs_changed :: "int list \<Rightarrow> bridge_world \<Rightarrow> bridge_world \<times> bridge_effect list" where
  "tabs_changed ts w = (((fst w)\<lparr>br_binding := fold tabChanged ts (br_binding (fst w))\<rparr>, snd w),
     if ts = [] then [] else [SetBadge BadgeClear])"

definition new_task :: "bridge_world \<Rightarrow> (bridge \<Rightarrow> bridge_result) \<Rightarrow> bridge_world \<times> bridge_effect list" where
  "new_task w f = (let (b, t, fx) = f (fst w) in ((b, snd w @ [t]), fx))"

text \<open>
  A restart of the background script forgets everything: the tasks are gone, their numbers are not
  used again, and the bridge is initialized anew.
\<close>

fun bridge_step :: "worker_env \<Rightarrow> bridge_event \<Rightarrow> bridge_world \<Rightarrow> bridge_world \<times> bridge_effect list" where
  "bridge_step env (Message message sender) w = new_task w (onMessage env (length (snd w)) message sender)"
| "bridge_step env (Continue i now a) w =
     (if i < length (snd w)
      then (let (b, t, fx) = resume_task env i now a (snd w ! i) (fst w) in ((b, (snd w)[i := t]), fx))
      else (w, []))"
| "bridge_step env (TabRemoved t) w = tabs_changed [t] w"
| "bridge_step env (TabUpdated t change) w = tabs_changed (case onUpdated t change of None \<Rightarrow> [] | Some t \<Rightarrow> [t]) w"
| "bridge_step env (TabReplaced added removed) w = tabs_changed [removed, added] w"
| "bridge_step env (Navigated details) w = tabs_changed (case revokeTopLevelNavigation details of None \<Rightarrow> [] | Some t \<Rightarrow> [t]) w"
| "bridge_step env Installed w = new_task w (\<lambda>b. (b, BootCleared, [SetBadge BadgeClear]))"
| "bridge_step env Startup w = new_task w initializeBridge"
| "bridge_step env Restarted w = new_task (fresh_bridge, map (\<lambda>_. Finished) (snd w)) initializeBridge"

definition boot :: "bridge_world \<times> bridge_effect list" where
  "boot = new_task (fresh_bridge, []) initializeBridge"

fun bridge_exec :: "worker_env \<Rightarrow> bridge_event list \<Rightarrow> bridge_world \<times> bridge_effect list \<Rightarrow> bridge_world \<times> bridge_effect list" where
  "bridge_exec env [] r = r"
| "bridge_exec env (e # evs) r = (let s = bridge_step env e (fst r) in bridge_exec env evs (fst s, snd r @ snd s))"

definition bridge_run :: "worker_env \<Rightarrow> bridge_event list \<Rightarrow> bridge_world \<times> bridge_effect list" where
  "bridge_run env evs = bridge_exec env evs boot"

lemma bridge_exec_append: "bridge_exec env (xs @ ys) r = bridge_exec env ys (bridge_exec env xs r)"
  by (induction xs arbitrary: r) (simp_all add: Let_def)

lemma bridge_run_snoc:
  "bridge_run env (evs @ [e]) = (let r = bridge_run env evs; s = bridge_step env e (fst r) in (fst s, snd r @ snd s))"
  by (simp add: bridge_run_def bridge_exec_append Let_def)

lemma bridge_run_Nil: "bridge_run env [] = boot"
  by (simp add: bridge_run_def)

end
