(* ===== verification/ServiceWorkerRuns.thy ===== *)
theory ServiceWorkerRuns imports ServiceWorker
begin

text \<open>
  Runs of the background script of \<open>browser-extension/src/service-worker.ts\<close>: its target binding moves
  only by the operations of \<open>TargetBinding\<close>, at most one local proof is in progress, and without the popup nothing is
  selected, saved, created or proved.
\<close>

section \<open>How a step moves the binding\<close>

text \<open>The operation of the target binding a task is in.\<close>

fun task_point :: "task \<Rightarrow> point option" where
  "task_point (Bound p pt) = Some pt"
| "task_point (ProofGuard pa pt) = Some pt"
| "task_point (ProofClient pa g c) = Some (Running g)"
| "task_point _ = None"

text \<open>The operations a handler may start.\<close>

definition starts :: "browser_env \<Rightarrow> binding_event \<Rightarrow> (binding \<Rightarrow> binding \<times> point) \<Rightarrow> bool" where
  "starts env ev f \<longleftrightarrow> (\<forall>s. binding_step env ev s = started s f)"

lemma starts_intros:
  "starts env (StartSelect w k) (select_start w k)" "starts env (StartObserve payload sender w k) (observe_start env payload sender w k)"
  "starts env (StartCurrent w k) (current_start Alone w k)" "starts env (StartGuarded w k) (guard_start w k)"
  by (simp_all add: starts_def)

text \<open>
  A step leaves the binding alone, invalidates it, starts an operation or resumes the one its task is
  in; what the task waits for afterwards is where that operation stands.
\<close>

definition moved :: "browser_env \<Rightarrow> binding \<Rightarrow> point option \<Rightarrow> binding \<Rightarrow> point option \<Rightarrow> bool" where
  "moved env b po b' po' \<longleftrightarrow>
     b' = b \<and> (po' = None \<or> po' = po) \<or> b' = invalidate b \<and> po' = None \<or>
     (\<exists>ev f. starts env ev f \<and> b' = fst (f b) \<and> (po' = None \<or> po' = Some (snd (f b)))) \<or>
     (\<exists>p a. po = Some p \<and> b' = fst (resume env p a b) \<and> (po' = None \<or> po' = Some (snd (resume env p a b))))"

lemma moved_intros:
  "moved env b po b None" "moved env b po b po" "moved env b po (invalidate b) None"
  "starts env ev f \<Longrightarrow> po' = None \<or> po' = Some (snd (f b)) \<Longrightarrow> moved env b po (fst (f b)) po'"
  "po' = None \<or> po' = Some (snd (resume env p a b)) \<Longrightarrow> moved env b (Some p) (fst (resume env p a b)) po'"
  by (auto simp: moved_def)

text \<open>The binding and the point of a result.\<close>

abbreviation result_binding :: "bridge_result \<Rightarrow> binding" where "result_binding r \<equiv> br_binding (fst r)"
abbreviation result_task :: "bridge_result \<Rightarrow> task" where "result_task r \<equiv> fst (snd r)"

lemma finish_result [simp]:
  "fst (finish i v b) = b" "fst (snd (finish i v b)) = Finished" "snd (snd (finish i v b)) = [Reply i v]"
  by (simp_all add: finish_def)

lemma settled_result: "result_binding (settled i p out b) = br_binding b \<and> task_point (result_task (settled i p out b)) = None"
  by (induction i p out b rule: settled.induct) simp_all

lemma end_proof_result [simp]:
  "fst (end_proof i v b) = b\<lparr>br_nativeProofActive := False\<rparr>" "fst (snd (end_proof i v b)) = Finished" "snd (snd (end_proof i v b)) = [Reply i v]"
  "fst (native_uncertain i b) = b\<lparr>br_nativeProofActive := False\<rparr>" "fst (snd (native_uncertain i b)) = Finished"
  "snd (snd (native_uncertain i b)) = [Reply i (state_blocked ''NATIVE_PROOF_OUTCOME_UNCERTAIN'')]"
  by (simp_all add: end_proof_def native_uncertain_def)

lemma bound_result:
  "result_binding (bound i p r b) = fst r" "task_point (result_task (bound i p r b)) \<in> {None, Some (snd r)}"
  using settled_result by (auto simp: bound_def split: point.split)

lemma guarded_result:
  "result_binding (guarded env i pa r b) = fst r" "task_point (result_task (guarded env i pa r b)) \<in> {None, Some (snd r)}"
  by (auto simp: guarded_def Let_def split: point.split outcome.split)

lemma with_owner_moved: "moved benv (br_binding b) po (result_binding (with_owner env i p owner b)) (task_point (result_task (with_owner env i p owner b)))"
  if "benv = we_browser env"
proof -
  have run: "moved benv (br_binding b) po (result_binding (bound i p (f (br_binding b)) b)) (task_point (result_task (bound i p (f (br_binding b)) b)))"
    if "starts benv ev f" for ev f p
    unfolding bound_result(1) by (rule moved_intros(4) [OF that]) (use bound_result(2) [of i p "f (br_binding b)" b] in blast)
  have starts: "starts benv (StartObserve payload sender w k) (observe_start (we_browser env) payload sender w k)" for payload sender w k
    unfolding that by (rule starts_intros(2))
  show ?thesis
    by (cases p; cases owner; (split prod.splits)?)
      (auto simp: moved_intros(1,3) run [OF starts_intros(1)] run [OF starts_intros(3)] run [OF starts])
qed

lemma resume_target_moved:
  "moved (we_browser env) (br_binding b) (task_point t) (result_binding (resume_target env i a t b)) (task_point (result_task (resume_target env i a t b)))"
proof -
  have resumed: "moved (we_browser env) (br_binding b) (Some pt) (result_binding (bound i p (resume (we_browser env) pt x (br_binding b)) b))
      (task_point (result_task (bound i p (resume (we_browser env) pt x (br_binding b)) b)))" for p pt x
    unfolding bound_result(1) by (rule moved_intros(5)) (use bound_result(2) [of i p "resume (we_browser env) pt x (br_binding b)" b] in blast)
  note owner = with_owner_moved [OF refl]
  show ?thesis
  proof (cases t)
    case (OwnerConfig p)
    then show ?thesis by (auto simp: owner_config_def owner moved_intros(1) split: option.split)
  next
    case (OwnerKey p w)
    then show ?thesis by (cases a) (auto simp: owner_key_def owner moved_intros(1))
  next
    case (Bound p pt)
    then show ?thesis using resumed by simp
  qed (auto simp: moved_intros(1,2) split: option.split jsval.split)
qed

lemma resume_proof_moved:
  "moved (we_browser env) (br_binding b) (task_point t) (result_binding (resume_proof env i now a t b)) (task_point (result_task (resume_proof env i now a t b)))"
proof -
  have resumed: "moved (we_browser env) (br_binding b) (Some pt) (result_binding (guarded env i pa (resume (we_browser env) pt x (br_binding b)) b))
      (task_point (result_task (guarded env i pa (resume (we_browser env) pt x (br_binding b)) b)))" for pa pt x
    unfolding guarded_result(1) by (rule moved_intros(5)) (use guarded_result(2) [of env i pa "resume (we_browser env) pt x (br_binding b)" b] in blast)
  have guard: "moved (we_browser env) (br_binding b) None (result_binding (guarded env i pa (guard_start w k (br_binding b)) b))
      (task_point (result_task (guarded env i pa (guard_start w k (br_binding b)) b)))" for pa w k
    unfolding guarded_result(1)
    by (rule moved_intros(4) [OF starts_intros(4)]) (use guarded_result(2) [of env i pa "guard_start w k (br_binding b)" b] in blast)
  show ?thesis
  proof (cases t)
    case (ProofConfig policy)
    then show ?thesis by (cases a) (auto simp: native_config_def Let_def moved_intros(1))
  next
    case (ProofKey policy w)
    then show ?thesis by (cases a) (auto simp: native_key_def moved_intros(1) split: read_result.split policy_result.split)
  next
    case (ProofPermission pa)
    then show ?thesis by (cases a) (auto simp: native_permission_def moved_intros(1))
  next
    case (ProofTabs pa)
    then show ?thesis by (cases a) (auto simp: native_tabs_def moved_intros(1) guard split: jsval.split list.split)
  next
    case (ProofGuard pa pt)
    then show ?thesis using resumed by simp
  next
    case (ProofClient pa g c)
    then show ?thesis using resumed [where pt = "Running g"]
      by (cases a) (auto simp: native_ran_def moved_intros(2) split: client_phase.split)
  qed (simp_all add: moved_intros)
qed

lemma resume_task_moved:
  "moved (we_browser env) (br_binding b) (task_point t) (result_binding (resume_task env i now a t b)) (task_point (result_task (resume_task env i now a t b)))"
proof -
  have "moved (we_browser env) (br_binding b) (task_point t) (result_binding (resume_identity env i a t b)) (task_point (result_task (resume_identity env i a t b)))"
  proof (cases t)
    case (IdConfig init)
    then show ?thesis by (auto simp: id_config_def Let_def moved_intros(1) split: option.split)
  next
    case (IdMade w)
    then show ?thesis by (cases a) (auto simp: id_made_def moved_intros(1) split: read_result.split)
  next
    case (IdRead w)
    then show ?thesis by (cases a) (auto simp: moved_intros(1))
  qed (simp_all add: moved_intros)
  moreover have "moved (we_browser env) (br_binding b) (task_point t) (result_binding (resume_other i a t b)) (task_point (result_task (resume_other i a t b)))"
    by (cases t) (auto simp: initializeBridge_def moved_intros split: option.split jsval.split)
  ultimately show ?thesis by (simp add: resume_task_def resume_target_moved resume_proof_moved)
qed

lemma onMessage_moved:
  "moved benv (br_binding b) None (result_binding (onMessage env i message sender b)) (task_point (result_task (onMessage env i message sender b)))"
  by (auto simp: onMessage_def Let_def native_start_def set_config_def moved_intros split: sum.split)

text \<open>The cases of a step: a new task, a task that goes on, tabs that changed, and a restart.\<close>

lemma bridge_step_cases:
  obtains (new) t where "snd (fst (bridge_step env e w)) = snd w @ [t]"
      "moved (we_browser env) (br_binding (fst w)) None (br_binding (fst (fst (bridge_step env e w)))) (task_point t)"
  | (goes_on) i t where "i < length (snd w)" "snd (fst (bridge_step env e w)) = (snd w)[i := t]"
      "moved (we_browser env) (br_binding (fst w)) (task_point (snd w ! i)) (br_binding (fst (fst (bridge_step env e w)))) (task_point t)"
  | (tabs) ts where "snd (fst (bridge_step env e w)) = snd w" "br_binding (fst (fst (bridge_step env e w))) = fold tabChanged ts (br_binding (fst w))"
  | (restart) "e = Restarted" "snd (fst (bridge_step env e w)) = map (\<lambda>_. Finished) (snd w) @ [BootBadge]"
      "br_binding (fst (fst (bridge_step env e w))) = invalidate fresh_binding"
proof -
  have boot: "moved (we_browser env) (br_binding b) None (result_binding (initializeBridge b)) (task_point (result_task (initializeBridge b)))" for b
    by (simp add: initializeBridge_def moved_intros)
  show ?thesis
  proof (cases e)
    case (Message message sender)
    then show ?thesis using onMessage_moved [of "we_browser env" "fst w" env "length (snd w)" message sender]
      by (intro new [of "result_task (onMessage env (length (snd w)) message sender (fst w))"])
        (auto simp: new_task_def split: prod.split)
  next
    case (Continue i now a)
    show ?thesis
    proof (cases "i < length (snd w)")
      case True
      then show ?thesis using Continue resume_task_moved [of env "fst w" "snd w ! i" i now a]
        by (intro goes_on [of i "result_task (resume_task env i now a (snd w ! i) (fst w))"]) (auto split: prod.split)
    next
      case False
      then show ?thesis using Continue by (intro tabs [of "[]"]) simp_all
    qed
  next
    case Installed
    then show ?thesis by (intro new [of BootCleared]) (simp_all add: new_task_def moved_intros)
  next
    case Startup
    then show ?thesis using boot [of "fst w"]
      by (intro new [of "result_task (initializeBridge (fst w))"]) (auto simp: new_task_def split: prod.split)
  next
    case Restarted
    then show ?thesis by (intro restart) (simp_all add: new_task_def initializeBridge_def fresh_bridge_def)
  next
    case (TabRemoved t)
    then show ?thesis by (intro tabs [of "[t]"]) (simp_all add: tabs_changed_def)
  next
    case (TabUpdated t change)
    then show ?thesis by (intro tabs [of "case onUpdated t change of None \<Rightarrow> [] | Some t \<Rightarrow> [t]"]) (simp_all add: tabs_changed_def)
  next
    case (TabReplaced added removed)
    then show ?thesis by (intro tabs [of "[removed, added]"]) (simp_all add: tabs_changed_def)
  next
    case (Navigated details)
    then show ?thesis
      by (intro tabs [of "case revokeTopLevelNavigation details of None \<Rightarrow> [] | Some t \<Rightarrow> [t]"]) (simp_all add: tabs_changed_def)
  qed
qed

section \<open>The bridge's binding is the target binding's\<close>

text \<open>
  The binding is the one of a run of the target binding, and the tasks in an operation are at the
  points of different operations of it.
\<close>

definition follows :: "browser_env \<Rightarrow> binding \<Rightarrow> task list \<Rightarrow> bool" where
  "follows env b ts \<longleftrightarrow> (\<exists>bevs ps f. binding_run env bevs (fresh_binding, []) = (b, ps) \<and>
     inj_on f {i. i < length ts \<and> task_point (ts ! i) \<noteq> None} \<and>
     (\<forall>i < length ts. \<forall>p. task_point (ts ! i) = Some p \<longrightarrow> f i < length ps \<and> ps ! f i = p))"

lemma follows_I:
  assumes "binding_run env bevs (fresh_binding, []) = (b, ps)"
    and "inj_on f {i. i < length ts \<and> task_point (ts ! i) \<noteq> None}"
    and "\<And>i p. i < length ts \<Longrightarrow> task_point (ts ! i) = Some p \<Longrightarrow> f i < length ps \<and> ps ! f i = p"
  shows "follows env b ts"
  unfolding follows_def by (intro exI [of _ bevs] exI [of _ ps] exI [of _ f] conjI allI impI assms(1,2)) (use assms(3) in blast)+

lemma follows_tabs: "follows env b ts \<Longrightarrow> follows env (fold tabChanged xs b) ts"
proof (induction xs arbitrary: b)
  case (Cons x xs)
  obtain bevs ps f where f: "binding_run env bevs (fresh_binding, []) = (b, ps)" "inj_on f {i. i < length ts \<and> task_point (ts ! i) \<noteq> None}"
      "\<forall>i < length ts. \<forall>p. task_point (ts ! i) = Some p \<longrightarrow> f i < length ps \<and> ps ! f i = p"
    using Cons.prems by (auto simp: follows_def)
  have "follows env (tabChanged x b) ts"
    by (rule follows_I [of env "bevs @ [TabChanged x]" _ ps f]) (use f in simp_all)
  then show ?case using Cons.IH by simp
qed simp

lemma follows_moved:
  assumes "follows env b ts" and "i < length ts" and "moved env b (task_point (ts ! i)) b' (task_point t)"
  shows "follows env b' (ts[i := t])"
proof -
  obtain bevs ps f where run: "binding_run env bevs (fresh_binding, []) = (b, ps)"
    and inj: "inj_on f {i. i < length ts \<and> task_point (ts ! i) \<noteq> None}"
    and at: "\<And>i p. i < length ts \<Longrightarrow> task_point (ts ! i) = Some p \<Longrightarrow> f i < length ps \<and> ps ! f i = p"
    using assms(1) by (auto simp: follows_def)
  have kept: "follows env b' (ts[i := t])"
    if run': "binding_run env (bevs @ evs) (fresh_binding, []) = (b', ps')" and len: "length ps \<le> length ps'"
    and same: "\<And>j p. j < length ts \<Longrightarrow> j \<noteq> i \<Longrightarrow> task_point (ts ! j) = Some p \<Longrightarrow> ps' ! f j = p"
    and new: "task_point t = None \<or> (\<exists>p. task_point t = Some p \<and> k < length ps' \<and> ps' ! k = p \<and>
      (k = length ps \<or> k = f i \<and> task_point (ts ! i) \<noteq> None))"
    for evs ps' k
  proof (rule follows_I [OF run', of "f(i := k)"])
    have other: "f j \<noteq> k" if "j < length ts" "task_point (ts ! j) \<noteq> None" "j \<noteq> i" "task_point t \<noteq> None" for j
      using new that at [OF that(1)] inj_onD [OF inj, of j i] assms(2) by auto
    show "inj_on (f(i := k)) {j. j < length (ts[i := t]) \<and> task_point (ts[i := t] ! j) \<noteq> None}"
    proof (rule inj_onI)
      fix x y assume x: "x \<in> {j. j < length (ts[i := t]) \<and> task_point (ts[i := t] ! j) \<noteq> None}"
        and y: "y \<in> {j. j < length (ts[i := t]) \<and> task_point (ts[i := t] ! j) \<noteq> None}" and eq: "(f(i := k)) x = (f(i := k)) y"
      then show "x = y" using other [of x] other [of y] inj_onD [OF inj, of x y] assms(2)
        by (cases "x = i"; cases "y = i") (auto simp: nth_list_update)
    qed
    fix j p assume j: "j < length (ts[i := t])" "task_point (ts[i := t] ! j) = Some p"
    then show "(f(i := k)) j < length ps' \<and> ps' ! (f(i := k)) j = p"
      using new same [of j p] at [of j p] len by (cases "j = i") auto
  qed
  consider (same) "b' = b" "task_point t = None \<or> task_point t = task_point (ts ! i)" | (invalid) "b' = invalidate b" "task_point t = None"
    | (started) ev g where "starts env ev g" "b' = fst (g b)" "task_point t = None \<or> task_point t = Some (snd (g b))"
    | (resumed) p a where "task_point (ts ! i) = Some p" "b' = fst (resume env p a b)"
        "task_point t = None \<or> task_point t = Some (snd (resume env p a b))"
    using assms(3) by (auto simp: moved_def)
  then show ?thesis
  proof cases
    case same
    have "task_point t = None \<or> (\<exists>p. task_point t = Some p \<and> f i < length ps \<and> ps ! f i = p \<and>
        (f i = length ps \<or> f i = f i \<and> task_point (ts ! i) \<noteq> None))"
      using same(2) at [OF assms(2)] by (cases "task_point t") auto
    then show ?thesis using same(1) run at by (intro kept [of "[]" ps "f i"]) simp_all
  next
    case invalid
    then show ?thesis using run at by (intro kept [of "[Invalidate]" ps 0]) simp_all
  next
    case started
    then show ?thesis using run at
      by (intro kept [of "[ev]" "ps @ [snd (g b)]" "length ps"]) (auto simp: starts_def started_eq nth_append)
  next
    case resumed
    have i: "f i < length ps" "ps ! f i = p" using at [OF assms(2) resumed(1)] by auto
    have other: "f j \<noteq> f i" if "j < length ts" "j \<noteq> i" "task_point (ts ! j) = Some q" for j q
      using inj_onD [OF inj, of j i] that assms(2) resumed(1) by auto
    show ?thesis using run at resumed i
    proof (intro kept [of "[Resume (f i) a]" "ps[f i := snd (resume env p a b)]" "f i"])
      show "(ps[f i := snd (resume env p a b)]) ! f j = q" if "j < length ts" "j \<noteq> i" "task_point (ts ! j) = Some q" for j q
        using at [OF that(1,3)] other [OF that] by simp
    qed auto
  qed
qed

lemma follows_step:
  assumes "follows (we_browser env) (br_binding (fst w)) (snd w)"
  shows "follows (we_browser env) (br_binding (fst (fst (bridge_step env e w)))) (snd (fst (bridge_step env e w)))"
proof (cases rule: bridge_step_cases [of env e w])
  case (new t)
  have "follows (we_browser env) (br_binding (fst w)) (snd w @ [Finished])"
  proof -
    obtain bevs ps f where f: "binding_run (we_browser env) bevs (fresh_binding, []) = (br_binding (fst w), ps)"
        "inj_on f {i. i < length (snd w) \<and> task_point (snd w ! i) \<noteq> None}"
        "\<forall>i < length (snd w). \<forall>p. task_point (snd w ! i) = Some p \<longrightarrow> f i < length ps \<and> ps ! f i = p"
      using assms by (auto simp: follows_def)
    have "{i. i < length (snd w @ [Finished]) \<and> task_point ((snd w @ [Finished]) ! i) \<noteq> None} =
        {i. i < length (snd w) \<and> task_point (snd w ! i) \<noteq> None}"
      by (auto simp: nth_append less_Suc_eq)
    then show ?thesis using f by (intro follows_I [OF f(1), of f]) (auto simp: nth_append less_Suc_eq)
  qed
  from follows_moved [OF this, of "length (snd w)" _ t] new show ?thesis by simp
next
  case (goes_on i t)
  then show ?thesis using follows_moved [OF assms] by simp
next
  case (tabs ts)
  then show ?thesis using follows_tabs [OF assms] by simp
next
  case restart
  have none: "task_point ((map (\<lambda>_. Finished) (snd w) @ [BootBadge]) ! i) = None" if "i < Suc (length (snd w))" for i
    using that by (cases "i < length (snd w)") (simp_all add: nth_append)
  show ?thesis unfolding restart(2,3)
    by (rule follows_I [of _ "[Invalidate]" _ "[]" id]) (use none in \<open>auto simp: fresh_binding_def\<close>)
qed

lemma follows_run: "follows (we_browser env) (br_binding (fst (fst (bridge_run env evs)))) (snd (fst (bridge_run env evs)))"
proof (induction evs rule: rev_induct)
  case Nil
  show ?case unfolding bridge_run_Nil
    by (rule follows_I [of _ "[Invalidate]" _ "[]" id])
      (simp_all add: boot_def new_task_def initializeBridge_def fresh_bridge_def)
next
  case (snoc e evs)
  then show ?case using follows_step [of env "fst (bridge_run env evs)" e] by (simp add: bridge_run_snoc Let_def)
qed

section \<open>One proof at a time\<close>

definition proof_tasks :: "task list \<Rightarrow> nat" where
  "proof_tasks ts = length (filter is_proof_task ts)"

lemma proof_tasks_append [simp]: "proof_tasks (ts @ [t]) = proof_tasks ts + (if is_proof_task t then 1 else 0)"
  by (simp add: proof_tasks_def)

lemma proof_tasks_update:
  "i < length ts \<Longrightarrow> proof_tasks (ts[i := t]) + (if is_proof_task (ts ! i) then 1 else 0) = proof_tasks ts + (if is_proof_task t then 1 else 0)"
proof (induction ts arbitrary: i)
  case (Cons x ts)
  then show ?case by (cases i) (auto simp: proof_tasks_def)
qed simp

text \<open>A step leaves the flag and the kind of its task, or ends the proof and clears the flag.\<close>

definition flag_kept :: "bridge \<Rightarrow> task \<Rightarrow> bridge_result \<Rightarrow> bool" where
  "flag_kept b t r \<longleftrightarrow>
     (br_nativeProofActive (fst r) = br_nativeProofActive b \<and> is_proof_task (result_task r) = is_proof_task t) \<or>
     (is_proof_task t \<and> \<not> br_nativeProofActive (fst r) \<and> \<not> is_proof_task (result_task r))"

lemma settled_flag: "br_nativeProofActive (fst (settled i p out b)) = br_nativeProofActive b \<and> \<not> is_proof_task (result_task (settled i p out b))"
  by (induction i p out b rule: settled.induct) simp_all

lemma bound_flag: "br_nativeProofActive (fst (bound i p r b)) = br_nativeProofActive b \<and> \<not> is_proof_task (result_task (bound i p r b))"
  using settled_flag by (auto simp: bound_def split: point.split)

lemma with_owner_flag:
  "br_nativeProofActive (fst (with_owner env i p owner b)) = br_nativeProofActive b \<and> \<not> is_proof_task (result_task (with_owner env i p owner b))"
  by (cases p; cases owner) (auto simp: bound_flag)

lemma guarded_flag: "is_proof_task t \<Longrightarrow> flag_kept b t (guarded env i pa r b)"
  by (auto simp: flag_kept_def guarded_def Let_def split: point.split outcome.split)

lemma resume_task_flag: "flag_kept b t (resume_task env i now a t b)"
proof -
  have "flag_kept b t (resume_proof env i now a t b)" if "is_proof_task t"
  proof (cases t)
    case (ProofConfig policy)
    then show ?thesis by (cases a) (simp_all add: native_config_def Let_def flag_kept_def)
  next
    case (ProofKey policy w)
    then show ?thesis by (cases a) (auto simp: native_key_def flag_kept_def split: read_result.split policy_result.split)
  next
    case (ProofPermission pa)
    then show ?thesis by (cases a) (simp_all add: native_permission_def flag_kept_def)
  next
    case (ProofTabs pa)
    have ended: "flag_kept b t (end_proof i v b)" "flag_kept b t (native_uncertain i b)" for v
      using ProofTabs by (simp_all add: flag_kept_def)
    show ?thesis using ProofTabs ended guarded_flag [of "ProofTabs pa" b]
      by (cases a) (auto simp: native_tabs_def flag_kept_def [of b "ProofTabs pa" "(b, ProofTabs pa, [])"] split: jsval.split list.split)
  next
    case (ProofGuard pa pt)
    then show ?thesis using guarded_flag [of t b] by simp
  next
    case (ProofClient pa g c)
    then show ?thesis using guarded_flag [of t b]
      by (cases a) (auto simp: native_ran_def flag_kept_def [of b "ProofClient pa g c" "(b, x, y)" for x y] split: client_phase.split)
  qed (use that in simp_all)
  moreover have "flag_kept b t (resume_target env i a t b)" if "is_target_task t"
    using that with_owner_flag bound_flag
    by (cases t; cases a) (auto simp: flag_kept_def owner_config_def owner_key_def split: option.split jsval.split)
  moreover have "flag_kept b t (resume_identity env i a t b)" if "is_identity_task t"
    using that by (cases t; cases a) (auto simp: flag_kept_def id_config_def id_made_def Let_def split: option.split read_result.split)
  moreover have "flag_kept b t (resume_other i a t b)" if "\<not> is_proof_task t"
    using that by (cases t) (auto simp: flag_kept_def initializeBridge_def split: option.split jsval.split)
  ultimately show ?thesis by (simp add: resume_task_def)
qed

lemma onMessage_flag:
  "(br_nativeProofActive (fst (onMessage env i message sender b)) = br_nativeProofActive b \<and> \<not> is_proof_task (result_task (onMessage env i message sender b))) \<or>
   (\<not> br_nativeProofActive b \<and> br_nativeProofActive (fst (onMessage env i message sender b)) \<and> is_proof_task (result_task (onMessage env i message sender b)))"
  by (auto simp: onMessage_def Let_def native_start_def set_config_def split: sum.split)

text \<open>The flag says whether a proof runs.\<close>

definition flag_ok :: "bridge_world \<Rightarrow> bool" where
  "flag_ok w \<longleftrightarrow> proof_tasks (snd w) = (if br_nativeProofActive (fst w) then 1 else 0)"

lemma flag_ok_step: "flag_ok w \<Longrightarrow> flag_ok (fst (bridge_step env e w))"
proof (cases e)
  case (Message message sender)
  assume "flag_ok w"
  then show ?thesis using Message onMessage_flag [of env "length (snd w)" message sender "fst w"]
    by (auto simp: flag_ok_def new_task_def split: prod.split)
next
  case (Continue i now a)
  assume w: "flag_ok w"
  show ?thesis
  proof (cases "i < length (snd w)")
    case True
    obtain b t fx where r: "resume_task env i now a (snd w ! i) (fst w) = (b, t, fx)" by (cases "resume_task env i now a (snd w ! i) (fst w)")
    have "flag_kept (fst w) (snd w ! i) (b, t, fx)" unfolding r [symmetric] by (rule resume_task_flag)
    then show ?thesis using Continue True w r proof_tasks_update [OF True, of t]
      by (auto simp: flag_ok_def flag_kept_def split: if_splits)
  qed (use Continue w in simp)
next
  case Restarted
  have "filter is_proof_task (map (\<lambda>_. Finished) (snd w)) = []" by (simp add: filter_empty_conv)
  then show ?thesis using Restarted by (simp add: flag_ok_def new_task_def initializeBridge_def fresh_bridge_def proof_tasks_def)
qed (simp_all add: flag_ok_def new_task_def initializeBridge_def tabs_changed_def)

text \<open>
  In every run at most one local proof is in progress, and the flag \<open>nativeProofActive\<close> is set exactly
  while one is: every way out of the handler clears it, errors and rejections included, and a restart
  of the script leaves neither.
\<close>

theorem one_proof_at_a_time:
  "proof_tasks (snd (fst (bridge_run env evs))) = (if br_nativeProofActive (fst (fst (bridge_run env evs))) then 1 else 0)"
proof -
  have "flag_ok (fst (bridge_run env evs))"
  proof (induction evs rule: rev_induct)
    case Nil
    show ?case unfolding bridge_run_Nil
      by (simp add: flag_ok_def boot_def new_task_def initializeBridge_def fresh_bridge_def proof_tasks_def)
  next
    case (snoc e evs)
    then show ?case using flag_ok_step by (simp add: bridge_run_snoc Let_def)
  qed
  then show ?thesis by (simp add: flag_ok_def)
qed

section \<open>Only the popup acts\<close>

text \<open>
  The effects a page or another extension can bring about: badges, probes of the open tabs, and
  replies that say whether a probe or a report went through or why it did not.
\<close>

definition outsider_reply :: "jsval \<Rightarrow> bool" where
  "outsider_reply v \<longleftrightarrow> set (js_keys v) \<subseteq> {''ok'', ''error'', ''code'', ''state''} \<and> js_get v ''state'' \<in> {JUndef, JStr ''BLOCKED''}"

fun outsider_effect :: "bridge_effect \<Rightarrow> bool" where
  "outsider_effect (Reply i v) = outsider_reply v"
| "outsider_effect (SetBadge b) = True"
| "outsider_effect (SendProbe v) = True"
| "outsider_effect HardenStorage = True"
| "outsider_effect _ = False"

fun outsider_task :: "task \<Rightarrow> bool" where
  "outsider_task (OwnerConfig (ForRecord payload sender)) = True"
| "outsider_task (OwnerKey (ForRecord payload sender) w) = True"
| "outsider_task (BadgeSet v) = outsider_reply v"
| "outsider_task ProbeTabs = True"
| "outsider_task ProbeSettle = True"
| "outsider_task BootCleared = True"
| "outsider_task BootBadge = True"
| "outsider_task BootHarden = True"
| "outsider_task BootTabs = True"
| "outsider_task Finished = True"
| "outsider_task _ = False"

lemma outsider_replies: "outsider_reply ok_reply" "outsider_reply (state_blocked e)" "f \<in> {''error'', ''code''} \<Longrightarrow> outsider_reply (not_ok f e)"
  by (auto simp: outsider_reply_def ok_reply_def state_blocked_def not_ok_def)

definition untouched :: "bridge \<Rightarrow> bool" where
  "untouched b \<longleftrightarrow> bd_selected (br_binding b) = None \<and> \<not> br_nativeProofActive b"

definition outsider_result :: "bridge_result \<Rightarrow> bool" where
  "outsider_result r \<longleftrightarrow> untouched (fst r) \<and> outsider_task (fst (snd r)) \<and> list_all outsider_effect (snd (snd r))"

lemma outsider_probes: "list_all outsider_effect (probes tabs)"
  by (simp add: probes_def list_all_iff)

lemma outsider_owner: "untouched b \<Longrightarrow> outsider_result (with_owner env i (ForRecord payload sender) owner b)"
  by (cases owner) (auto simp: outsider_result_def untouched_def invalidate_def bound_def observe_start_def outsider_replies)

lemma outsider_resumed:
  assumes "untouched b" and "outsider_task t" shows "outsider_result (resume_task env i now a t b)"
proof -
  have owner: "outsider_result (owner_config env i (ForRecord payload sender) stored b)" for payload sender stored
    using outsider_owner [OF assms(1)] assms(1)
    by (simp add: owner_config_def outsider_result_def del: with_owner.simps split: option.split)
  have kept: "outsider_result (b, t, [])" using assms by (simp add: outsider_result_def)
  show ?thesis
  proof (cases t)
    case (OwnerConfig p)
    then show ?thesis using assms(2) owner by (cases p) (simp_all add: resume_task_def)
  next
    case (OwnerKey p w)
    then show ?thesis using assms outsider_owner [OF assms(1)] kept
      by (cases p; cases a) (auto simp: resume_task_def owner_key_def)
  next
    case (BadgeSet v)
    then show ?thesis using assms outsider_replies by (auto simp: resume_task_def outsider_result_def split: option.split)
  qed (use assms outsider_replies outsider_probes in
      \<open>auto simp: resume_task_def outsider_result_def initializeBridge_def untouched_def invalidate_def split: option.split jsval.split\<close>)
qed

lemma outsider_message:
  "untouched b \<Longrightarrow> \<not> isTrustedPopup env sender \<Longrightarrow> outsider_result (onMessage env i message sender b)"
  using outsider_replies by (simp add: onMessage_def Let_def outsider_result_def)

definition outsider_world :: "bridge_world \<times> bridge_effect list \<Rightarrow> bool" where
  "outsider_world r \<longleftrightarrow> untouched (fst (fst r)) \<and> list_all outsider_task (snd (fst r)) \<and> list_all outsider_effect (snd r)"

lemma outsider_new: "outsider_result (f (fst w)) \<Longrightarrow> list_all outsider_task (snd w) \<Longrightarrow> outsider_world (new_task w f)"
  by (auto simp: outsider_world_def outsider_result_def new_task_def Let_def split: prod.split)

lemma outsider_boot: "\<not> br_nativeProofActive b \<Longrightarrow> outsider_result (initializeBridge b)"
  by (simp add: outsider_result_def initializeBridge_def untouched_def invalidate_def)

lemma untouched_tabs: "bd_selected b = None \<Longrightarrow> bd_selected (fold tabChanged ts b) = None"
  by (induction ts arbitrary: b) (simp_all add: tabChanged_def Let_def)

lemma untouched_tab: "bd_selected b = None \<Longrightarrow> bd_selected (tabChanged t b) = None"
  by (simp add: tabChanged_def Let_def)

lemma outsider_step:
  assumes "untouched (fst w)" and "list_all outsider_task (snd w)"
    and "\<And>message sender. e = Message message sender \<Longrightarrow> \<not> isTrustedPopup env sender"
  shows "outsider_world (bridge_step env e w)"
proof (cases e)
  case (Message message sender)
  then show ?thesis using assms outsider_message by (simp add: outsider_new)
next
  case (Continue i now a)
  show ?thesis
  proof (cases "i < length (snd w)")
    case True
    obtain b t fx where r: "resume_task env i now a (snd w ! i) (fst w) = (b, t, fx)" by (cases "resume_task env i now a (snd w ! i) (fst w)")
    have "outsider_task (snd w ! i)" using assms(2) True by (simp add: list_all_length)
    then have "outsider_result (b, t, fx)" unfolding r [symmetric] by (rule outsider_resumed [OF assms(1)])
    moreover have "list_all outsider_task ((snd w)[i := t])" if "outsider_task t"
      using assms(2) that by (auto simp: list_all_iff dest: set_update_subset_insert [THEN subsetD])
    ultimately show ?thesis using Continue True r by (simp add: outsider_world_def outsider_result_def)
  qed (use Continue assms in \<open>simp add: outsider_world_def\<close>)
next
  case Installed
  then show ?thesis using assms by (simp add: outsider_new outsider_result_def)
next
  case Startup
  then show ?thesis using assms outsider_boot by (simp add: outsider_new untouched_def)
next
  case Restarted
  have "list_all outsider_task (map (\<lambda>_. Finished) (snd w))" by (simp add: list_all_iff)
  then show ?thesis using Restarted outsider_boot [of fresh_bridge] by (simp add: outsider_new fresh_bridge_def)
qed (use assms untouched_tabs untouched_tab in \<open>auto simp: outsider_world_def tabs_changed_def untouched_def split: option.split\<close>)

text \<open>
  C32: as long as no message comes from the extension's popup, whatever pages and other extensions send
  and whatever the browser and the key store answer, no tab is selected, no proof runs, no
  configuration is saved, no key is created and no proof session is opened; and what a sender is told
  is only that something went through or was refused, never the worker, its controller, its key or
  the page status.
\<close>

theorem only_popup_acts:
  assumes "\<forall>message sender. Message message sender \<in> set evs \<longrightarrow> \<not> isTrustedPopup env sender"
  shows "bd_selected (br_binding (fst (fst (bridge_run env evs)))) = None \<and> \<not> br_nativeProofActive (fst (fst (bridge_run env evs))) \<and>
    list_all outsider_effect (snd (bridge_run env evs))"
proof -
  have "outsider_world (bridge_run env evs)"
    using assms
  proof (induction evs rule: rev_induct)
    case Nil
    show ?case unfolding bridge_run_Nil boot_def using outsider_boot [of fresh_bridge] by (simp add: outsider_new fresh_bridge_def)
  next
    case (snoc e evs)
    then have ih: "outsider_world (bridge_run env evs)" by simp
    have "outsider_world (bridge_step env e (fst (bridge_run env evs)))"
      using ih snoc.prems by (intro outsider_step) (auto simp: outsider_world_def)
    with ih show ?case by (simp add: bridge_run_snoc Let_def outsider_world_def)
  qed
  then show ?thesis by (simp add: outsider_world_def untouched_def)
qed

definition sample_worker_env :: worker_env where
  "sample_worker_env = \<lparr>we_browser = sample_browser, we_controller = \<lambda>_. None, we_popup = ''chrome-extension://x/popup.html'',
     we_origin = sample_origin, we_session = \<lambda>_. sample_client\<rparr>"

definition page_sender :: jsval where
  "page_sender = JObj [(''id'', JStr (be_extensionId sample_browser)), (''url'', JStr sample_page_url), (''tab'', JObj [(''id'', JInt 7)])]"

theorem only_popup_acts_witness:
  "bd_selected (br_binding (fst (fst (bridge_run sample_worker_env
      [Message (JObj [(''type'', JStr ''bke.native.local.proof''), (''policy'', sample_pinned)]) page_sender,
       Message (JObj [(''type'', JStr ''bke.chatgpt.target.select'')]) page_sender])))) = None"
  using only_popup_acts [of "[Message (JObj [(''type'', JStr ''bke.native.local.proof''), (''policy'', sample_pinned)]) page_sender,
       Message (JObj [(''type'', JStr ''bke.chatgpt.target.select'')]) page_sender]" sample_worker_env]
  by (simp add: isTrustedPopup_def page_sender_def)

end
