(* ===== verification/ServiceWorkerProof.thy ===== *)
theory ServiceWorkerProof imports ServiceWorkerRuns
begin

text \<open>
  What a local proof that the background script of \<open>browser-extension/src/service-worker.ts\<close> reports
  rests on: the invariant of the tasks of a proof, from the popup's message to the reply, and a run
  in which one completes.
\<close>

section \<open>What a reported proof rests on\<close>

text \<open>The request a proof answers: message \<open>i\<close> of the run, sent by the popup, with its policy.\<close>

definition asked_by :: "worker_env \<Rightarrow> bridge_event list \<Rightarrow> nat \<Rightarrow> jsval \<Rightarrow> bool" where
  "asked_by env evs i policy \<longleftrightarrow> (\<exists>pre post message sender. evs = pre @ Message message sender # post \<and>
     i = length (snd (fst (bridge_run env pre))) \<and> isTrustedPopup env sender \<and>
     js_get message ''type'' = JStr ''bke.native.local.proof'' \<and> policy = js_get message ''policy'')"

text \<open>The owner's configuration, key and policy the session's arguments were taken from.\<close>

definition matched :: "worker_env \<Rightarrow> bridge_event list \<Rightarrow> nat \<Rightarrow> proof_args \<Rightarrow> bool" where
  "matched env evs i pa \<longleftrightarrow> (\<exists>policy stored now m. asked_by env evs i policy \<and>
     config_valid env (getConfig stored) \<and> pa_worker pa = bc_workerId (getConfig stored) \<and>
     checkOwnerNativePolicy policy (native_expected env (pa_worker pa) (pa_hash pa) now) = m \<and> (\<forall>e. m \<noteq> PolicyBlocked e) \<and>
     pa = matched_args (pa_worker pa) (pa_hash pa) m)"

definition session_ran :: "worker_env \<Rightarrow> nat \<Rightarrow> proof_args \<Rightarrow> jsval \<Rightarrow> bool" where
  "session_ran env i pa v \<longleftrightarrow> (\<exists>cevs out. cn_phase (client_run (session_opts env i pa) cevs) = Ended out \<and> v = outcome_json out)"

text \<open>
  A guard of the owner's selection: as long as its generation lasts the binding has that selection and
  its status, or a younger one.
\<close>

definition guard_ok :: "binding \<Rightarrow> proof_args \<Rightarrow> guard \<Rightarrow> bool" where
  "guard_ok b pa g \<longleftrightarrow> sl_workerId (gd_snapshot g) = pa_worker pa \<and> sl_keySha256 (gd_snapshot g) = pa_hash pa \<and>
     sl_ref (gd_snapshot g) < bd_next_ref b \<and> gd_started g \<le> bd_generation b \<and>
     (bd_generation b = gd_started g \<longrightarrow>
        bd_selected b = Some (gd_snapshot g) \<and> bd_status b = Some (gd_seen g) \<or>
        (\<exists>s. bd_selected b = Some s \<and> sl_ref (gd_snapshot g) < sl_ref s))"

lemma guard_ok_advances:
  assumes "guard_ok b pa g" and "advances b b'" shows "guard_ok b' pa g"
proof -
  have ref: "sl_ref (gd_snapshot g) < bd_next_ref b" "gd_started g \<le> bd_generation b" using assms(1) by (simp_all add: guard_ok_def)
  have later: "bd_next_ref b \<le> bd_next_ref b'" "bd_generation b \<le> bd_generation b'" using assms(2) by (simp_all add: advances_def)
  have "bd_selected b' = Some (gd_snapshot g) \<and> bd_status b' = Some (gd_seen g) \<or>
      (\<exists>s. bd_selected b' = Some s \<and> sl_ref (gd_snapshot g) < sl_ref s)" if "bd_generation b' = gd_started g"
  proof -
    have gen: "bd_generation b' = bd_generation b" "bd_generation b = gd_started g" using that ref(2) later(2) by simp_all
    then consider "bd_selected b' = bd_selected b" "bd_status b' = bd_status b" | s where "bd_selected b' = Some s" "bd_next_ref b \<le> sl_ref s"
      using assms(2) by (auto simp: advances_def)
    then show ?thesis using assms(1) gen(2) ref(1) by cases (auto simp: guard_ok_def)
  qed
  then show ?thesis using assms(1) ref later by (simp add: guard_ok_def)
qed

lemma guard_ok_unchanged:
  assumes "guard_ok b pa g" and "\<not> guard_changed g b"
  shows "bd_selected b = Some (gd_snapshot g)" "bd_status b = Some (gd_seen g)"
  using assms by (auto simp: guard_ok_def guard_changed_def other_selected_def)

text \<open>The value a point carries from the guarded action.\<close>

fun caller_value :: "caller \<Rightarrow> jsval option" where
  "caller_value (After g v) = Some v"
| "caller_value _ = None"

fun after_value :: "point \<Rightarrow> jsval option" where
  "after_value (CurrentTabs c s sn n d u) = caller_value c"
| "after_value (CurrentFrame c s sn n d u) = caller_value c"
| "after_value (Returned c r) = caller_value c"
| "after_value (Done (TargetValue v)) = Some v"
| "after_value _ = None"

lemma after_value_return: "after_value (return_current c r) \<in> {None, caller_value c}"
  by (cases c) simp_all

lemma after_value_returned: "after_value (return_current c r) = Some v \<Longrightarrow> caller_value c = Some v"
  using after_value_return [of c r] by auto

lemma after_value_current: "after_value (snd (current_start c w k b)) \<in> {None, caller_value c}"
  using after_value_return by (auto simp: current_start_def split: option.split)

lemma after_value_currents:
  "after_value (snd (current_start (After g v) w k b)) = Some x \<Longrightarrow> x = v"
  "after_value (snd (current_start (Before g) w k b)) = None"
  using after_value_current [of "After g v" w k b] after_value_current [of "Before g" w k b] by auto

lemma after_value_resume:
  assumes "after_value (snd (resume env p a b)) = Some v"
  shows "after_value p = Some v \<or> (\<exists>g. p = Running g \<and> a = Some v)"
proof (cases p)
  case (Running g)
  then show ?thesis using assms by (auto simp: guard_ran_def dest: after_value_currents(1) split: option.splits)
next
  case (Returned c r)
  then show ?thesis using assms by (cases c) (auto split: if_splits)
next
  case (CurrentTabs c s sn n d u)
  then show ?thesis using assms by (auto simp: current_tabs_def dest: after_value_returned split: if_splits)
next
  case (CurrentFrame c s sn n d u)
  then show ?thesis using assms by (auto simp: current_frame_def dest: after_value_returned split: if_splits)
qed (use assms in \<open>auto simp: select_resume_def observe_tabs_def observe_frame_def split: option.splits if_splits jsval.splits list.splits\<close>)

lemma after_value_start: "after_value (snd (guard_start w k b)) = None"
  by (simp add: guard_start_def after_value_currents(2) split: option.split)

text \<open>A point of a proof: it will give no value, or it is of a guard of the owner's selection.\<close>

definition point_guarded :: "binding \<Rightarrow> proof_args \<Rightarrow> point \<Rightarrow> bool" where
  "point_guarded b pa pt \<longleftrightarrow> doomed pt \<or> (\<exists>g. guard_point g pt \<and> guard_ok b pa g \<and> (\<forall>out. pt \<noteq> Done out))"

lemma guard_start_guarded:
  assumes "binding_refs_ok b" and "\<forall>out. snd (guard_start (pa_worker pa) (pa_hash pa) b) \<noteq> Done out"
  shows "point_guarded (fst (guard_start (pa_worker pa) (pa_hash pa) b)) pa (snd (guard_start (pa_worker pa) (pa_hash pa) b))"
proof (cases "doomed (snd (guard_start (pa_worker pa) (pa_hash pa) b))")
  case False
  then obtain sl sn d u where sel: "bd_selected b = Some sl" "bd_status b = Some sn" "sl_workerId sl = pa_worker pa" "sl_keySha256 sl = pa_hash pa"
      "sl_documentId sl = Some d" "sl_url sl = Some u"
    using assms(2) by (auto simp: guard_start_def current_start_def sameOwner_def split: option.splits if_splits)
  let ?g = "\<lparr>gd_snapshot = sl, gd_seen = sn, gd_started = bd_generation b, gd_workerId = pa_worker pa, gd_keySha256 = pa_hash pa\<rparr>"
  have start: "guard_start (pa_worker pa) (pa_hash pa) b = (b, CurrentTabs (Before ?g) sl sn (bd_generation b) d u)"
    using sel by (simp add: guard_start_def current_start_def sameOwner_def)
  have "guard_ok b pa ?g" using sel assms(1) by (simp add: guard_ok_def binding_refs_ok_def)
  then show ?thesis unfolding start by (auto simp: point_guarded_def)
qed (simp add: point_guarded_def)

lemma doomed_never: "doomed p \<Longrightarrow> (\<forall>out. p \<noteq> Done out) \<Longrightarrow> \<exists>e. snd (resume env p a b) = Done (TargetBlocked e)"
  by (cases p rule: doomed.cases) auto

text \<open>A guarded point that resumes, whether it waits, gives its value or is where its action runs.\<close>

lemma point_guarded_resume:
  assumes "point_guarded b pa pt" and "\<forall>out. pt \<noteq> Done out" and "resume env pt a b = (b', pt')"
  shows "(\<forall>out. pt' \<noteq> Done out) \<Longrightarrow> point_guarded b' pa pt'"
    "pt' = Running g \<Longrightarrow> guard_ok b' pa g"
    "pt' = Done (TargetValue v) \<Longrightarrow> \<exists>sl sn. bd_selected b' = Some sl \<and> bd_status b' = Some sn \<and> sl_workerId sl = pa_worker pa \<and> sl_keySha256 sl = pa_hash pa"
proof -
  have *: "(\<exists>g. guard_point g pt \<and> guard_ok b pa g) \<or> (\<exists>e. pt' = Done (TargetBlocked e))"
    using assms doomed_never [of pt env a b] by (auto simp: point_guarded_def)
  have goes: "guard_point g pt' \<and> guard_ok b' pa g" if "guard_point g pt" "guard_ok b pa g" for g
    using guard_resumes [OF assms(3) that(1)] guard_ok_advances [OF that(2) advances_resume [OF assms(3)]] by blast
  show "(\<forall>out. pt' \<noteq> Done out) \<Longrightarrow> point_guarded b' pa pt'" using * goes by (auto simp: point_guarded_def)
  show "pt' = Running g \<Longrightarrow> guard_ok b' pa g" using * goes by fastforce
  show "\<exists>sl sn. bd_selected b' = Some sl \<and> bd_status b' = Some sn \<and> sl_workerId sl = pa_worker pa \<and> sl_keySha256 sl = pa_hash pa"
    if given: "pt' = Done (TargetValue v)"
  proof -
    obtain g where g: "guard_point g pt" "guard_ok b pa g" using * given by auto
    have same: "b' = b \<and> \<not> guard_changed g b" by (rule guard_value [OF assms(3) [unfolded given] g(1) assms(2)])
    then show ?thesis using guard_ok_unchanged [OF g(2)] g(2) by (simp add: guard_ok_def)
  qed
qed

text \<open>What a task of the run \<open>evs\<close> holds.\<close>

definition plain_reply :: "jsval \<Rightarrow> bool" where
  "plain_reply v \<longleftrightarrow> js_get v ''state'' \<noteq> JStr ''LOCAL_PROOF_OK''"

fun task_ok :: "worker_env \<Rightarrow> bridge_event list \<Rightarrow> nat \<Rightarrow> binding \<Rightarrow> task \<Rightarrow> bool" where
  "task_ok env evs i b (ProofConfig policy) \<longleftrightarrow> asked_by env evs i policy"
| "task_ok env evs i b (ProofKey policy w) \<longleftrightarrow> asked_by env evs i policy \<and> (\<exists>stored. config_valid env (getConfig stored) \<and> w = bc_workerId (getConfig stored))"
| "task_ok env evs i b (ProofPermission pa) \<longleftrightarrow> matched env evs i pa"
| "task_ok env evs i b (ProofTabs pa) \<longleftrightarrow> matched env evs i pa"
| "task_ok env evs i b (ProofGuard pa pt) \<longleftrightarrow> matched env evs i pa \<and> point_guarded b pa pt \<and> (\<forall>out. pt \<noteq> Done out) \<and> (\<forall>g. pt \<noteq> Running g) \<and>
     (\<forall>v. after_value pt = Some v \<longrightarrow> session_ran env i pa v)"
| "task_ok env evs i b (ProofClient pa g c) \<longleftrightarrow> matched env evs i pa \<and> guard_ok b pa g \<and> (\<exists>cevs. c = client_run (session_opts env i pa) cevs)"
| "task_ok env evs i b (BadgeSet v) \<longleftrightarrow> plain_reply v"
| "task_ok env evs i b (Saving v) \<longleftrightarrow> plain_reply v"
| "task_ok env evs i b _ \<longleftrightarrow> True"

text \<open>A reply that reports a local proof is the end of a session the owner asked for.\<close>

definition earned :: "worker_env \<Rightarrow> bridge_event list \<Rightarrow> nat \<Rightarrow> binding \<Rightarrow> jsval \<Rightarrow> bool" where
  "earned env evs i b v \<longleftrightarrow> (\<exists>pa sl sn. matched env evs i pa \<and> session_ran env i pa v \<and>
     bd_selected b = Some sl \<and> bd_status b = Some sn \<and> sl_workerId sl = pa_worker pa \<and> sl_keySha256 sl = pa_hash pa)"

definition reply_ok :: "worker_env \<Rightarrow> bridge_event list \<Rightarrow> nat \<Rightarrow> binding \<Rightarrow> bridge_effect \<Rightarrow> bool" where
  "reply_ok env evs i b x \<longleftrightarrow> (\<forall>j v. x = Reply j v \<longrightarrow> j = i \<and> (plain_reply v \<or> earned env evs i b v))"

definition result_ok :: "worker_env \<Rightarrow> bridge_event list \<Rightarrow> nat \<Rightarrow> bridge_result \<Rightarrow> bool" where
  "result_ok env evs i r \<longleftrightarrow> task_ok env evs i (result_binding r) (result_task r) \<and> list_all (reply_ok env evs i (result_binding r)) (snd (snd r))"

lemma plain_replies:
  "plain_reply (state_blocked e)" "f \<noteq> ''state'' \<Longrightarrow> plain_reply (not_ok f e)" "plain_reply ok_reply" "plain_reply (config_json c)"
  "plain_reply (validation_json r)" "plain_reply (bridge_status c chat)"
  "plain_reply (JObj [(''ok'', JBool True), (''state'', JStr ''OWNER_TAB_SELECTED_OBSERVATION_ONLY'')])"
  by (auto simp: plain_reply_def state_blocked_def not_ok_def ok_reply_def config_json_def validation_json_def bridge_status_def
      split: sum.split)

lemma plain_summary: "plain_reply (summary_json x)"
  by (cases x) (simp_all add: plain_replies, simp_all add: plain_reply_def)

lemma finish_ok: "plain_reply v \<Longrightarrow> result_ok env evs i (finish i v b)" "plain_reply v \<Longrightarrow> result_ok env evs i (end_proof i v b)"
    "result_ok env evs i (native_uncertain i b)"
  by (simp_all add: result_ok_def reply_ok_def plain_replies)

lemma quiet_ok: "list_all (reply_ok env evs i b) (probes tabs)" "reply_ok env evs i b (SetBadge x)" "reply_ok env evs i b (SaveConfig c)"
    "reply_ok env evs i b (InitializeKey w)" "reply_ok env evs i b (StartProof j)" "reply_ok env evs i b HardenStorage"
  by (simp_all add: reply_ok_def probes_def list_all_iff)

lemma settled_ok: "result_ok env evs i (settled i p out b)"
  by (induction i p out b rule: settled.induct) (simp_all add: finish_ok plain_replies, simp_all add: result_ok_def quiet_ok plain_replies)

lemma bound_ok: "result_ok env evs i (bound i p r b)"
  using settled_ok by (auto simp: bound_def result_ok_def split: point.split)

lemma with_owner_ok: "result_ok env evs i (with_owner env' i p owner b)"
  by (cases p; cases owner) (auto simp: bound_ok finish_ok plain_replies)

lemma resume_target_ok: "is_target_task t \<Longrightarrow> task_ok env evs i b' t \<Longrightarrow> result_ok env evs i (resume_target env i a t b)"
proof (cases t)
  case (OwnerConfig p)
  then show ?thesis by (auto simp: owner_config_def with_owner_ok split: option.split) (simp add: result_ok_def)
next
  case (OwnerKey p w)
  then show ?thesis by (cases a) (auto simp: owner_key_def with_owner_ok, simp_all add: result_ok_def)
qed (auto simp: bound_ok finish_ok plain_replies split: option.split jsval.split, simp_all add: result_ok_def quiet_ok)

lemma resume_identity_ok: "is_identity_task t \<Longrightarrow> result_ok env evs i (resume_identity env i a t b)"
proof (cases t)
  case (IdConfig init)
  then show ?thesis by (auto simp: id_config_def Let_def finish_ok plain_replies split: option.split) (simp_all add: result_ok_def quiet_ok)
next
  case (IdMade w)
  then show ?thesis by (cases a) (auto simp: id_made_def finish_ok plain_replies split: read_result.split, simp_all add: result_ok_def)
next
  case (IdRead w)
  then show ?thesis by (cases a) (auto simp: finish_ok plain_summary, simp_all add: result_ok_def)
qed simp_all

lemma resume_other_ok: "\<not> is_proof_task t \<Longrightarrow> task_ok env evs i b' t \<Longrightarrow> result_ok env evs i (resume_other i a t b)"
proof (cases t)
  case (BadgeSet v)
  assume "task_ok env evs i b' t"
  then show ?thesis using BadgeSet by (simp add: result_ok_def)
qed (auto simp: finish_ok plain_replies initializeBridge_def split: option.split jsval.split, simp_all add: result_ok_def quiet_ok)

text \<open>The guard's results.\<close>

lemma guarded_ok:
  assumes "matched env evs i pa"
    and "(\<forall>out. snd r \<noteq> Done out) \<Longrightarrow> point_guarded (fst r) pa (snd r)" and "\<And>g. snd r = Running g \<Longrightarrow> guard_ok (fst r) pa g"
    and "\<And>v. snd r = Done (TargetValue v) \<Longrightarrow>
      \<exists>sl sn. bd_selected (fst r) = Some sl \<and> bd_status (fst r) = Some sn \<and> sl_workerId sl = pa_worker pa \<and> sl_keySha256 sl = pa_hash pa"
    and "\<And>v. after_value (snd r) = Some v \<Longrightarrow> session_ran env i pa v"
  shows "result_ok env evs i (guarded env i pa r b)"
proof -
  have run: "\<exists>cevs. client_start (session_opts env i pa) = client_run (session_opts env i pa) cevs"
    by (rule exI [of _ "[]"]) (simp add: client_run_def)
  have gives: "earned env evs i (fst r) v" if "snd r = Done (TargetValue v)" for v
    using assms(1) assms(4) [OF that] assms(5) [of v] that by (auto simp: earned_def)
  obtain bd pt where r: "r = (bd, pt)" by (cases r)
  show ?thesis
  proof (cases pt)
    case (Done out)
    then show ?thesis using gives r
      by (cases out) (auto simp: guarded_def Let_def finish_ok plain_replies, simp add: result_ok_def reply_ok_def)
  next
    case (Running g)
    then show ?thesis using assms(1,3) run r by (simp add: guarded_def Let_def result_ok_def quiet_ok)
  qed (use assms(1,2,5) r in \<open>auto simp: guarded_def Let_def result_ok_def\<close>)
qed

lemma resume_guarded_ok:
  assumes "matched env evs i pa" and "point_guarded (br_binding b) pa pt" and "\<forall>out. pt \<noteq> Done out"
    and "\<And>v. after_value pt = Some v \<or> (\<exists>g. pt = Running g \<and> a = Some v) \<Longrightarrow> session_ran env i pa v"
  shows "result_ok env evs i (guarded env i pa (resume (we_browser env) pt a (br_binding b)) b)"
proof -
  let ?r = "resume (we_browser env) pt a (br_binding b)"
  note facts = point_guarded_resume [OF assms(2,3) surjective_pairing]
  show ?thesis
    by (rule guarded_ok [OF assms(1)]) (use facts after_value_resume assms(4) in blast)+
qed

lemma start_guarded_ok:
  assumes "matched env evs i pa" and "binding_refs_ok (br_binding b)"
  shows "result_ok env evs i (guarded env i pa (guard_start (pa_worker pa) (pa_hash pa) (br_binding b)) b)"
proof (rule guarded_ok [OF assms(1)])
  show "point_guarded (fst (guard_start (pa_worker pa) (pa_hash pa) (br_binding b))) pa (snd (guard_start (pa_worker pa) (pa_hash pa) (br_binding b)))"
    if "\<forall>out. snd (guard_start (pa_worker pa) (pa_hash pa) (br_binding b)) \<noteq> Done out"
    by (rule guard_start_guarded [OF assms(2) that])
  have none: "after_value (snd (guard_start (pa_worker pa) (pa_hash pa) (br_binding b))) = None" by (rule after_value_start)
  show "\<exists>sl sn. bd_selected (fst (guard_start (pa_worker pa) (pa_hash pa) (br_binding b))) = Some sl \<and>
      bd_status (fst (guard_start (pa_worker pa) (pa_hash pa) (br_binding b))) = Some sn \<and> sl_workerId sl = pa_worker pa \<and> sl_keySha256 sl = pa_hash pa"
    if "snd (guard_start (pa_worker pa) (pa_hash pa) (br_binding b)) = Done (TargetValue v)" for v
    using none that by simp
  show "guard_ok (fst (guard_start (pa_worker pa) (pa_hash pa) (br_binding b))) pa g"
    if "snd (guard_start (pa_worker pa) (pa_hash pa) (br_binding b)) = Running g" for g
    using that by (auto simp: guard_start_def current_start_def split: option.splits if_splits)
qed (simp add: after_value_start)

lemma resume_proof_ok:
  assumes "is_proof_task t" and "task_ok env evs i (br_binding b) t" and "binding_refs_ok (br_binding b)"
  shows "result_ok env evs i (resume_proof env i now a t b)"
proof -
  have same: "result_ok env evs i (b, t, [])" using assms(2) by (simp add: result_ok_def)
  show ?thesis
  proof (cases t)
    case (ProofConfig policy)
    then show ?thesis using assms(2) same
      by (cases a) (auto simp: native_config_def Let_def finish_ok plain_replies result_ok_def [of _ _ _ "(b, ProofKey policy w, [])" for w])
  next
    case (ProofKey policy w)
    have "result_ok env evs i (b, ProofPermission (matched_args w hash m), [])"
      if "checkOwnerNativePolicy policy (native_expected env w hash now) = m" "\<forall>e. m \<noteq> PolicyBlocked e" for hash m
      using assms(2) that ProofKey by (auto simp: result_ok_def matched_def matched_args_def)
    then have "result_ok env evs i (b, ProofPermission (matched_args w hash (PolicyMatch x y z u)), [])"
      if "checkOwnerNativePolicy policy (native_expected env w hash now) = PolicyMatch x y z u" for hash x y z u
      using that by fastforce
    then show ?thesis using ProofKey same
      by (cases a) (auto simp: native_key_def finish_ok plain_replies split: read_result.split policy_result.split)
  next
    case (ProofPermission pa)
    then show ?thesis using assms(2) same
      by (cases a) (auto simp: native_permission_def finish_ok plain_replies result_ok_def [of _ _ _ "(b, ProofTabs pa, [])"])
  next
    case (ProofTabs pa)
    then show ?thesis using assms(2) same start_guarded_ok [OF _ assms(3), of env evs i pa]
      by (cases a) (auto simp: native_tabs_def finish_ok plain_replies split: jsval.split list.split)
  next
    case (ProofGuard pa pt)
    then have "result_ok env evs i (guarded env i pa (resume (we_browser env) pt (answered a) (br_binding b)) b)"
      using assms(2) by (intro resume_guarded_ok) auto
    then show ?thesis using ProofGuard by simp
  next
    case (ProofClient pa g c)
    have c: "matched env evs i pa" "guard_ok (br_binding b) pa g" using assms(2) ProofClient by simp_all
    obtain cevs where run: "c = client_run (session_opts env i pa) cevs" using assms(2) ProofClient by auto
    have ran: "result_ok env evs i (native_ran env i pa g c b)"
    proof (cases "cn_phase c")
      case (Ended out)
      have "session_ran env i pa (outcome_json out)" using run Ended by (auto simp: session_ran_def)
      then have "result_ok env evs i (guarded env i pa (resume (we_browser env) (Running g) (Some (outcome_json out)) (br_binding b)) b)"
        using c by (intro resume_guarded_ok) (auto simp: point_guarded_def)
      then show ?thesis using Ended by (simp add: native_ran_def)
    qed (use same ProofClient in \<open>simp_all add: native_ran_def\<close>)
    have "\<exists>cevs'. client_step (session_opts env i pa) e c = client_run (session_opts env i pa) cevs'" for e
      by (rule exI [of _ "cevs @ [e]"]) (simp add: client_run_def run)
    then have step: "result_ok env evs i (b, ProofClient pa g (client_step (session_opts env i pa) e c), [])" for e
      using c by (simp add: result_ok_def)
    show ?thesis using ProofClient ran same step by (cases a) (simp_all del: client_step.simps)
  qed (use assms(1) in simp_all)
qed

text \<open>Holding is kept while the run goes on.\<close>

lemma asked_later: "asked_by env evs i policy \<Longrightarrow> asked_by env (evs @ [e]) i policy"
  unfolding asked_by_def by (metis append.assoc append_Cons)

lemma matched_later: "matched env evs i pa \<Longrightarrow> matched env (evs @ [e]) i pa"
  unfolding matched_def using asked_later by blast

lemma point_guarded_later: "point_guarded b pa pt \<Longrightarrow> advances b b' \<Longrightarrow> point_guarded b' pa pt"
  unfolding point_guarded_def using guard_ok_advances by blast

lemma task_ok_later:
  assumes "task_ok env evs i b t" and "advances b b'" shows "task_ok env (evs @ [e]) i b' t"
  using assms asked_later matched_later point_guarded_later guard_ok_advances by (cases t) fastforce+

lemma moved_advances: "moved env b po b' po' \<Longrightarrow> advances b b'"
proof -
  have "advances b (fst (f b))" if "starts env ev f" for ev f
    using advances_step [of "(b, [])" env ev] that by (simp add: starts_def started_eq)
  moreover have "advances b (fst (resume env p a b))" for p a by (rule advances_resume [OF surjective_pairing])
  ultimately show "moved env b po b' po' \<Longrightarrow> advances b b'" by (auto simp: moved_def)
qed

lemma tabs_advance: "advances b (fold tabChanged ts b)"
proof (induction ts arbitrary: b)
  case (Cons t ts)
  show ?case using advances_trans [OF advances_tabChanged Cons.IH] by simp
qed simp

lemma run_refs: "binding_refs_ok (br_binding (fst (fst (bridge_run env evs))))"
proof -
  obtain bevs ps where "binding_run (we_browser env) bevs (fresh_binding, []) = (br_binding (fst (fst (bridge_run env evs))), ps)"
    using follows_run [of env evs] unfolding follows_def by blast
  then show ?thesis using world_ok_run [of "we_browser env" bevs] by (simp add: world_ok_def binding_ok_def)
qed

definition tasks_ok :: "worker_env \<Rightarrow> bridge_event list \<Rightarrow> bridge_world \<Rightarrow> bool" where
  "tasks_ok env evs w \<longleftrightarrow> (\<forall>i < length (snd w). task_ok env evs i (br_binding (fst w)) (snd w ! i))"

lemma tasks_ok_new:
  assumes "tasks_ok env evs w" and "advances (br_binding (fst w)) (result_binding r)" and "task_ok env (evs @ [e]) (length (snd w)) (result_binding r) (result_task r)"
  shows "tasks_ok env (evs @ [e]) (fst r, snd w @ [result_task r])"
  using assms task_ok_later by (auto simp: tasks_ok_def nth_append less_Suc_eq)

lemma tasks_ok_tabs: "tasks_ok env evs w \<Longrightarrow> tasks_ok env (evs @ [e]) (fst (tabs_changed ts w))"
  using task_ok_later [OF _ tabs_advance] by (auto simp: tasks_ok_def tabs_changed_def)

lemma tabs_quiet: "Reply i v \<notin> set (snd (tabs_changed ts w))"
  by (simp add: tabs_changed_def)

lemma bridge_message_ok:
  assumes "i = length (snd (fst (bridge_run env evs)))"
  shows "result_ok env (evs @ [Message message sender]) i (onMessage env i message sender b)"
proof -
  have asked: "asked_by env (evs @ [Message message sender]) i (js_get message ''policy'')"
    if "js_eq (js_get message ''type'') (JStr ''bke.native.local.proof'')" "isTrustedPopup env sender"
    unfolding asked_by_def using that assms js_eq_eq [OF that(1)]
    by (intro exI [of _ evs] exI [of _ "[]"] exI [of _ message] exI [of _ sender]) simp
  have started: "result_ok env (evs @ [Message message sender]) i (native_start i (js_get message ''policy'') b)"
    if "js_eq (js_get message ''type'') (JStr ''bke.native.local.proof'')" "isTrustedPopup env sender"
    using asked [OF that] by (simp add: native_start_def finish_ok plain_replies) (simp add: result_ok_def)
  have saved: "result_ok env (evs @ [Message message sender]) i (set_config env i message b)"
    by (auto simp: set_config_def Let_def finish_ok plain_replies split: sum.split) (simp add: result_ok_def quiet_ok plain_replies)
  have waits: "result_ok env (evs @ [Message message sender]) i (b, t, [])" if "t \<in> {IdConfig x, OwnerConfig p, StatusConfig, ReadConfig, ProbeTabs, Finished}" for t x p
    using that by (auto simp: result_ok_def)
  show ?thesis using started saved waits by (simp add: onMessage_def Let_def finish_ok plain_replies)
qed

text \<open>One step: the tasks hold, and its replies are earned.\<close>

lemma bridge_step_ok:
  fixes env evs e
  defines "w \<equiv> fst (bridge_run env evs)"
  assumes "tasks_ok env evs w"
  shows "tasks_ok env (evs @ [e]) (fst (bridge_step env e w))"
    "Reply i v \<in> set (snd (bridge_step env e w)) \<Longrightarrow>
       plain_reply v \<or> earned env (evs @ [e]) i (br_binding (fst (fst (bridge_step env e w)))) v"
proof -
  have ok: "task_ok env (evs @ [e]) i (br_binding (fst w)) (snd w ! i)" if "i < length (snd w)" for i
    using assms(2) that task_ok_later [OF _ advances_refl] by (simp add: tasks_ok_def)
  have new: "tasks_ok env (evs @ [e]) (fst (new_task w f)) \<and> (\<forall>i v. Reply i v \<in> set (snd (new_task w f)) \<longrightarrow>
      plain_reply v \<or> earned env (evs @ [e]) i (br_binding (fst (fst (new_task w f)))) v)"
    if "result_ok env (evs @ [e]) (length (snd w)) (f (fst w))" "advances (br_binding (fst w)) (result_binding (f (fst w)))" for f
  proof -
    obtain b t fx where f: "f (fst w) = (b, t, fx)" by (cases "f (fst w)")
    have "tasks_ok env (evs @ [e]) (b, snd w @ [t])"
      using tasks_ok_new [OF assms(2) that(2)] that(1) f by (simp add: result_ok_def)
    moreover have "list_all (reply_ok env (evs @ [e]) (length (snd w)) (br_binding b)) fx" using that(1) f by (simp add: result_ok_def)
    ultimately show ?thesis using f by (auto simp: new_task_def list_all_iff reply_ok_def)
  qed
  have boot: "result_ok env (evs @ [e]) i (initializeBridge b)" for i b
    by (simp add: initializeBridge_def result_ok_def quiet_ok)
  have "tasks_ok env (evs @ [e]) (fst (bridge_step env e w)) \<and> (\<forall>i v. Reply i v \<in> set (snd (bridge_step env e w)) \<longrightarrow>
      plain_reply v \<or> earned env (evs @ [e]) i (br_binding (fst (fst (bridge_step env e w)))) v)"
  proof (cases e)
    case (Message message sender)
    have "result_ok env (evs @ [e]) (length (snd w)) (onMessage env (length (snd w)) message sender (fst w))"
      unfolding Message by (rule bridge_message_ok) (simp add: w_def)
    moreover note moved_advances [OF onMessage_moved [of "we_browser env" "fst w" env "length (snd w)" message sender]]
    ultimately show ?thesis using new Message by simp
  next
    case (Continue i now a)
    show ?thesis
    proof (cases "i < length (snd w)")
      case True
      let ?t = "snd w ! i"
      obtain b t fx where r: "resume_task env i now a ?t (fst w) = (b, t, fx)" by (cases "resume_task env i now a ?t (fst w)")
      have "binding_refs_ok (br_binding (fst w))" unfolding w_def by (rule run_refs)
      then have "result_ok env (evs @ [e]) i (resume_task env i now a ?t (fst w))"
        using resume_proof_ok [OF _ ok [OF True]] resume_target_ok [OF _ ok [OF True]] resume_identity_ok resume_other_ok [OF _ ok [OF True]]
        by (simp add: resume_task_def)
      then have res: "task_ok env (evs @ [e]) i (br_binding b) t" "list_all (reply_ok env (evs @ [e]) i (br_binding b)) fx"
        using r by (simp_all add: result_ok_def)
      have "advances (br_binding (fst w)) (br_binding b)"
        using moved_advances [OF resume_task_moved [of env "fst w" ?t i now a]] r by simp
      from task_ok_later [OF _ this] have "task_ok env (evs @ [e]) j (br_binding b) (snd w ! j)" if "j < length (snd w)" for j
        using assms(2) that by (simp add: tasks_ok_def)
      then have "tasks_ok env (evs @ [e]) (b, (snd w)[i := t])"
        using res(1) True by (simp add: tasks_ok_def nth_list_update)
      then show ?thesis using True Continue r res(2) by (auto simp: list_all_iff reply_ok_def)
    next
      case False
      then show ?thesis using Continue ok by (simp add: tasks_ok_def)
    qed
  next
    case Installed
    then show ?thesis using new [of "\<lambda>b. (b, BootCleared, [SetBadge BadgeClear])"] by (simp add: result_ok_def quiet_ok)
  next
    case Startup
    have "advances (br_binding (fst w)) (result_binding (initializeBridge (fst w)))" by (simp add: initializeBridge_def)
    then show ?thesis using new [of initializeBridge, OF boot] Startup by simp
  next
    case Restarted
    have "tasks_ok env (evs @ [e]) ((fresh_bridge\<lparr>br_binding := invalidate fresh_binding\<rparr>), map (\<lambda>_. Finished) (snd w) @ [BootBadge])"
      by (auto simp: tasks_ok_def nth_append less_Suc_eq)
    then show ?thesis using Restarted by (auto simp: new_task_def initializeBridge_def fresh_bridge_def)
  qed (use tasks_ok_tabs [OF assms(2)] tabs_quiet in auto)
  then show "tasks_ok env (evs @ [e]) (fst (bridge_step env e w))"
    "Reply i v \<in> set (snd (bridge_step env e w)) \<Longrightarrow>
       plain_reply v \<or> earned env (evs @ [e]) i (br_binding (fst (fst (bridge_step env e w)))) v" by auto
qed

lemma bridge_run_ok: "tasks_ok env evs (fst (bridge_run env evs))"
proof (induction evs rule: rev_induct)
  case Nil
  show ?case unfolding bridge_run_Nil by (simp add: tasks_ok_def boot_def new_task_def initializeBridge_def)
next
  case (snoc e evs)
  then show ?case using bridge_step_ok(1) [of env evs e] by (simp add: bridge_run_snoc Let_def)
qed

text \<open>
  C31: the extension reports a local proof only as the end of a session the owner asked for. Whenever a
  step of any run answers message \<open>i\<close> with it, that message is a proof request which the popup sent;
  the policy it carried matched the configured worker, this extension's origin and the device key
  when it was read; a session of the proof client with exactly the worker, resources and profile of
  that policy ended with this very report; and at that moment the owner's selected tab, with an
  observed page status, is still bound to that worker and key.
\<close>

theorem proof_report_is_owners:
  assumes "Reply i v \<in> set (snd (bridge_step env e (fst (bridge_run env evs))))" and "js_get v ''state'' = JStr ''LOCAL_PROOF_OK''"
  shows "\<exists>pre post message sender stored now m w h cevs hash sl sn.
    evs @ [e] = pre @ Message message sender # post \<and> i = length (snd (fst (bridge_run env pre))) \<and>
    isTrustedPopup env sender \<and> js_get message ''type'' = JStr ''bke.native.local.proof'' \<and>
    config_valid env (getConfig stored) \<and> w = bc_workerId (getConfig stored) \<and>
    checkOwnerNativePolicy (js_get message ''policy'') (native_expected env w h now) = m \<and> (\<forall>x. m \<noteq> PolicyBlocked x) \<and>
    cn_phase (client_run (session_opts env i (matched_args w h m)) cevs) = Ended (LocalProofOk (JStr w) hash) \<and>
    v = outcome_json (LocalProofOk (JStr w) hash) \<and>
    bd_selected (br_binding (fst (fst (bridge_step env e (fst (bridge_run env evs)))))) = Some sl \<and> sl_workerId sl = w \<and> sl_keySha256 sl = h \<and>
    bd_status (br_binding (fst (fst (bridge_step env e (fst (bridge_run env evs)))))) = Some sn"
proof -
  have "earned env (evs @ [e]) i (br_binding (fst (fst (bridge_step env e (fst (bridge_run env evs)))))) v"
    using bridge_step_ok(2) [OF bridge_run_ok assms(1)] assms(2) by (simp add: plain_reply_def)
  then obtain pa sl sn where e: "matched env (evs @ [e]) i pa" "session_ran env i pa v" and
    sel: "bd_selected (br_binding (fst (fst (bridge_step env e (fst (bridge_run env evs)))))) = Some sl" "sl_workerId sl = pa_worker pa" "sl_keySha256 sl = pa_hash pa"
      "bd_status (br_binding (fst (fst (bridge_step env e (fst (bridge_run env evs)))))) = Some sn"
    unfolding earned_def by blast
  obtain cevs out where run: "cn_phase (client_run (session_opts env i pa) cevs) = Ended out" "v = outcome_json out"
    using e(2) by (auto simp: session_ran_def)
  obtain w' hash where out: "out = LocalProofOk w' hash" using run(2) assms(2) by (cases out) (simp_all add: state_blocked_def)
  have "client_ok (session_opts env i pa) (answers_in cevs) (client_run (session_opts env i pa) cevs)" by (rule client_run_ok)
  then have "w' = JStr (pa_worker pa)" using run(1) out by (simp add: client_ok_def session_opts_def)
  with run out have ended: "cn_phase (client_run (session_opts env i pa) cevs) = Ended (LocalProofOk (JStr (pa_worker pa)) hash)"
      "v = outcome_json (LocalProofOk (JStr (pa_worker pa)) hash)" by simp_all
  obtain policy stored now m where m: "asked_by env (evs @ [e]) i policy" "config_valid env (getConfig stored)" "pa_worker pa = bc_workerId (getConfig stored)"
      "checkOwnerNativePolicy policy (native_expected env (pa_worker pa) (pa_hash pa) now) = m" "\<forall>x. m \<noteq> PolicyBlocked x"
      "pa = matched_args (pa_worker pa) (pa_hash pa) m" using e(1) by (auto simp: matched_def)
  obtain pre post message sender where a: "evs @ [e] = pre @ Message message sender # post" "i = length (snd (fst (bridge_run env pre)))"
      "isTrustedPopup env sender" "js_get message ''type'' = JStr ''bke.native.local.proof''" "policy = js_get message ''policy''"
    using m(1) by (auto simp: asked_by_def)
  have session: "cn_phase (client_run (session_opts env i (matched_args (pa_worker pa) (pa_hash pa) m)) cevs) = Ended (LocalProofOk (JStr (pa_worker pa)) hash)"
    unfolding m(6) [symmetric] by (rule ended(1))
  show ?thesis
    by (rule exI [of _ pre], rule exI [of _ post], rule exI [of _ message], rule exI [of _ sender], rule exI [of _ stored], rule exI [of _ now],
        rule exI [of _ m], rule exI [of _ "pa_worker pa"], rule exI [of _ "pa_hash pa"], rule exI [of _ cevs], rule exI [of _ hash],
        rule exI [of _ sl], rule exI [of _ sn])
      (intro conjI a(1-4) m(2,3,5) m(4) [unfolded a(5)] session ended(2) sel)
qed


text \<open>A run in which the popup selects a tab, its page reports and the owner's proof completes.\<close>

definition popup_sender :: jsval where
  "popup_sender = JObj [(''id'', JStr (be_extensionId sample_browser)), (''url'', JStr ''chrome-extension://x/popup.html'')]"

definition sample_config :: answer where
  "sample_config = Answered (JObj [(''workerId'', JStr ''bke-13''), (''controllerUrl'', JStr [])])"

definition sample_key_read :: answer where
  "sample_key_read = KeyRead (Ready ''bke-13'' sample_public TargetBinding.sample_key)"

definition sample_tabs :: answer where "sample_tabs = Answered (JArr [sample_tab])"

definition sample_selecting :: "bridge_event list" where
  "sample_selecting = [Message (JObj [(''type'', JStr ''bke.chatgpt.target.select'')]) popup_sender,
     Continue 1 0 sample_config, Continue 1 0 sample_key_read, Continue 1 0 sample_tabs,
     Message (JObj [(''type'', JStr ''bke.chatgpt.status''), (''payload'', sample_status)]) sample_sender,
     Continue 2 0 sample_config, Continue 2 0 sample_key_read, Continue 2 0 sample_tabs, Continue 2 0 (Answered sample_frame)]"

definition sample_proving :: "bridge_event list" where
  "sample_proving = [Message (JObj [(''type'', JStr ''bke.native.local.proof''), (''policy'', sample_pinned)]) popup_sender,
     Continue 3 0 sample_config, Continue 3 1000000 sample_key_read, Continue 3 0 (Answered (JBool True)), Continue 3 0 sample_tabs,
     Continue 3 0 sample_tabs, Continue 3 0 (Answered sample_frame), Continue 3 0 Rejected]"

definition sample_session :: "bridge_event list" where
  "sample_session = map (\<lambda>e. Continue 3 0 (Reported e))
     [ReadDone (Ready ''bke-13'' sample_public TargetBinding.sample_key),
      PortMessage (JObj [(''type'', JStr ''CHALLENGE''), (''version'', JInt 1), (''client_nonce'', JStr (wide_hash CHR ''1'')),
        (''server_nonce'', JStr (wide_hash CHR ''2'')), (''profile_binding_sha256'', JStr (wide_hash CHR ''b'')), (''expires_at_ms'', JInt 1015001)]),
      SignDone (Some (Inr ''sig'')), PortMessage (receipt_of sample_pinned)]"

definition sample_closing :: "bridge_event list" where
  "sample_closing = [Continue 3 0 (Answered JUndef), Continue 3 0 sample_tabs, Continue 3 0 (Answered sample_frame)]"

lemma sample_proof_ends:
  "(let r = bridge_step sample_worker_env (Continue 3 0 Rejected)
       (fst (bridge_run sample_worker_env (sample_selecting @ sample_proving @ sample_session @ sample_closing)))
    in (snd r, bd_selected (br_binding (fst (fst r))))) =
   ([Reply 3 (outcome_json (LocalProofOk (JStr ''bke-13'') TargetBinding.sample_key))], Some sample_selected)"
  by code_simp

theorem proof_report_is_owners_witness:
  "\<exists>message sender m cevs. Message message sender \<in> set (sample_selecting @ sample_proving @ sample_session @ sample_closing @ [Continue 3 0 Rejected]) \<and>
     isTrustedPopup sample_worker_env sender \<and>
     cn_phase (client_run (session_opts sample_worker_env 3 (matched_args ''bke-13'' TargetBinding.sample_key m)) cevs) =
       Ended (LocalProofOk (JStr ''bke-13'') TargetBinding.sample_key)"
proof -
  let ?evs = "sample_selecting @ sample_proving @ sample_session @ sample_closing"
  let ?v = "outcome_json (LocalProofOk (JStr ''bke-13'') TargetBinding.sample_key)"
  let ?r = "bridge_step sample_worker_env (Continue 3 0 Rejected) (fst (bridge_run sample_worker_env ?evs))"
  have ends: "snd ?r = [Reply 3 ?v]" "bd_selected (br_binding (fst (fst ?r))) = Some sample_selected"
    using sample_proof_ends unfolding Let_def prod.inject by blast+
  have r: "Reply 3 ?v \<in> set (snd ?r)" unfolding ends(1) by simp
  have v: "js_get ?v ''state'' = JStr ''LOCAL_PROOF_OK''" by simp
  obtain pre post message sender m w h cevs hash sl where p: "?evs @ [Continue 3 0 Rejected] = pre @ Message message sender # post"
      "isTrustedPopup sample_worker_env sender"
      "cn_phase (client_run (session_opts sample_worker_env 3 (matched_args w h m)) cevs) = Ended (LocalProofOk (JStr w) hash)"
      "?v = outcome_json (LocalProofOk (JStr w) hash)" "bd_selected (br_binding (fst (fst ?r))) = Some sl" "sl_keySha256 sl = h"
    using proof_report_is_owners [OF r v] by blast
  have "Message message sender \<in> set (?evs @ [Continue 3 0 Rejected])" unfolding p(1) by simp
  moreover have "w = ''bke-13''" "hash = TargetBinding.sample_key" using p(4) by simp_all
  moreover have "h = TargetBinding.sample_key" using p(5,6) unfolding ends(2) by (auto simp: sample_selected_def)
  ultimately show ?thesis using p(2,3) by auto
qed

end
