(* ===== verification/ServiceWorkerRevocation.thy ===== *)
theory ServiceWorkerRevocation imports ServiceWorkerProof
begin

text \<open>
  How a selection of \<open>browser-extension/src/service-worker.ts\<close> ends: which events of the browser and of
  the popup end it, and what becomes of a local proof that was under way for it.
\<close>

section \<open>What ends a selection\<close>

text \<open>
  The selected tab is closed, starts to load or changes its address, is replaced, or its top frame
  navigates; the owner saves a valid configuration; the browser starts; or the script is restarted.
\<close>

definition on_selected :: "bridge \<Rightarrow> int \<Rightarrow> bool" where
  "on_selected b tabId \<longleftrightarrow> map_option sl_tabId (bd_selected (br_binding b)) = Some tabId"

definition saves_config :: "worker_env \<Rightarrow> jsval \<Rightarrow> bool" where
  "saves_config env message \<longleftrightarrow> js_get message ''type'' = JStr ''bke.config.set'' \<and>
     (case validateConfig (we_controller env) (text_or_empty (js_get message ''workerId'')) (text_or_empty (js_get message ''controllerUrl'')) of
        Inl e \<Rightarrow> False | Inr c \<Rightarrow> True)"

fun ends_selection :: "worker_env \<Rightarrow> bridge \<Rightarrow> bridge_event \<Rightarrow> bool" where
  "ends_selection env b (Message message sender) = (isTrustedPopup env sender \<and> saves_config env message)"
| "ends_selection env b (TabRemoved t) = on_selected b t"
| "ends_selection env b (TabUpdated t change) =
     (on_selected b t \<and> (js_get change ''status'' = JStr ''loading'' \<or> is_JStr (js_get change ''url'')))"
| "ends_selection env b (TabReplaced added removed) = (on_selected b added \<or> on_selected b removed)"
| "ends_selection env b (Navigated details) =
     (js_get details ''frameId'' = JInt 0 \<and> is_safe_integer (js_get details ''tabId'') \<and> on_selected b (the_int (js_get details ''tabId'')))"
| "ends_selection env b Startup = True"
| "ends_selection env b Restarted = True"
| "ends_selection env b _ = False"

text \<open>A binding without a selection or a status, of a later generation or of a script that starts anew.\<close>

definition cleared :: "binding \<Rightarrow> bool" where
  "cleared b \<longleftrightarrow> bd_selected b = None \<and> bd_status b = None"

lemma cleared_invalidate [simp]: "cleared (invalidate b)"
  by (simp add: cleared_def invalidate_def)

lemma tab_clears:
  assumes "map_option sl_tabId (bd_selected b) = Some t"
  shows "cleared (tabChanged t b) \<and> bd_generation b < bd_generation (tabChanged t b)"
  using assms by (simp add: tabChanged_def Let_def) (simp add: invalidate_def)

lemma tab_keeps_cleared: "cleared b \<Longrightarrow> cleared (tabChanged t b)"
  by (simp add: cleared_def tabChanged_def Let_def)

lemma tab_other: "map_option sl_tabId (bd_selected b) \<noteq> Some t \<Longrightarrow>
    bd_selected (tabChanged t b) = bd_selected b \<and> bd_generation (tabChanged t b) = bd_generation b"
  by (auto simp: tabChanged_def Let_def)

lemma tabs_clear:
  assumes "t \<in> set ts" and "map_option sl_tabId (bd_selected b) = Some t"
  shows "cleared (fold tabChanged ts b) \<and> bd_generation b < bd_generation (fold tabChanged ts b)"
  using assms
proof (induction ts arbitrary: b)
  case (Cons x ts)
  have later: "cleared (fold tabChanged xs c)" if "cleared c" for xs c
    using that by (induction xs arbitrary: c) (simp_all add: tab_keeps_cleared)
  show ?case
  proof (cases "x = t")
    case True
    have "cleared (tabChanged x b)" "bd_generation b < bd_generation (tabChanged x b)"
      using tab_clears [OF Cons.prems(2)] True by simp_all
    moreover have "bd_generation (tabChanged x b) \<le> bd_generation (fold tabChanged ts (tabChanged x b))"
      using tabs_advance [of "tabChanged x b" ts] by (simp add: advances_def)
    ultimately show ?thesis using later by simp
  next
    case False
    then have "map_option sl_tabId (bd_selected b) \<noteq> Some x" using Cons.prems(2) by auto
    from tab_other [OF this] Cons.IH [of "tabChanged x b"] Cons.prems False show ?thesis by simp
  qed
qed simp

lemma popup_config:
  assumes "isTrustedPopup env sender" and "saves_config env message"
  shows "br_binding (fst (onMessage env i message sender b)) = invalidate (br_binding b)"
  using assms by (auto simp: onMessage_def saves_config_def set_config_def Let_def split: sum.splits)

lemma ending_step:
  assumes "ends_selection env (fst w) e"
  shows "cleared (br_binding (fst (fst (bridge_step env e w)))) \<and>
    (e = Restarted \<or> bd_generation (br_binding (fst w)) < bd_generation (br_binding (fst (fst (bridge_step env e w)))))"
proof -
  have tabs: "cleared (br_binding (fst (fst (tabs_changed ts w)))) \<and>
      bd_generation (br_binding (fst w)) < bd_generation (br_binding (fst (fst (tabs_changed ts w))))"
    if "t \<in> set ts" "on_selected (fst w) t" for t ts
    using tabs_clear [OF that(1), of "br_binding (fst w)"] that(2) by (simp add: tabs_changed_def on_selected_def)
  show ?thesis
  proof (cases e)
    case (Message message sender)
    have "br_binding (fst (fst (new_task w f))) = br_binding (fst (f (fst w)))" for f
      by (simp add: new_task_def split: prod.split)
    then show ?thesis using Message assms popup_config [of env sender message]
      by (simp add: invalidate_def cleared_def)
  next
    case (TabRemoved t)
    then show ?thesis using assms tabs [of t "[t]"] by simp
  next
    case (TabUpdated t change)
    then have "onUpdated t change = Some t" using assms by (auto simp: onUpdated_def)
    then show ?thesis using TabUpdated assms tabs [of t "[t]"] by simp
  next
    case (TabReplaced added removed)
    then show ?thesis using assms tabs [of added "[removed, added]"] tabs [of removed "[removed, added]"] by auto
  next
    case (Navigated details)
    then have "revokeTopLevelNavigation details = Some (the_int (js_get details ''tabId''))"
      using assms by (simp add: revokeTopLevelNavigation_def)
    then show ?thesis using Navigated assms tabs [of "the_int (js_get details ''tabId'')" "[the_int (js_get details ''tabId'')]"] by simp
  next
    case Startup
    then show ?thesis by (simp add: new_task_def initializeBridge_def) (simp add: invalidate_def)
  next
    case Restarted
    then show ?thesis by (simp add: new_task_def initializeBridge_def)
  qed (use assms in simp_all)
qed

section \<open>What becomes of its proofs\<close>

text \<open>A proof past the start of its guard, and one whose guard is of an earlier generation.\<close>

fun under_guard :: "task \<Rightarrow> bool" where
  "under_guard (ProofGuard pa pt) = True"
| "under_guard (ProofClient pa g c) = True"
| "under_guard _ = False"

definition void_point :: "binding \<Rightarrow> point \<Rightarrow> bool" where
  "void_point b pt \<longleftrightarrow> doomed pt \<or> (\<exists>g. guard_point g pt \<and> gd_started g < bd_generation b)"

fun void_task :: "binding \<Rightarrow> task \<Rightarrow> bool" where
  "void_task b Finished = True"
| "void_task b (ProofGuard pa pt) = (void_point b pt \<and> (\<forall>out. pt \<noteq> Done out))"
| "void_task b (ProofClient pa g c) = (gd_started g < bd_generation b)"
| "void_task b _ = False"

definition void_result :: "nat \<Rightarrow> bridge_result \<Rightarrow> bool" where
  "void_result i r \<longleftrightarrow> void_task (result_binding r) (result_task r) \<and>
     (\<forall>j v. Reply j v \<in> set (snd (snd r)) \<longrightarrow> (\<exists>c. v = state_blocked c))"

lemma void_advances: "void_task b t \<Longrightarrow> advances b b' \<Longrightarrow> void_task b' t"
  by (cases t) (auto simp: void_point_def advances_def)

lemma void_point_resume:
  assumes "void_point b pt" and "\<forall>out. pt \<noteq> Done out" and "resume env pt a b = (b', pt')"
  shows "void_point b' pt' \<and> (\<forall>v. pt' \<noteq> Done (TargetValue v))"
proof -
  consider "doomed pt" | g where "guard_point g pt" "gd_started g < bd_generation b" using assms(1) by (auto simp: void_point_def)
  then show ?thesis
  proof cases
    case 1
    then show ?thesis using doomed_never [OF 1 assms(2), of env a b] assms(3) by (auto simp: void_point_def)
  next
    case (2 g)
    have "bd_generation b \<le> bd_generation b'" using advances_resume [OF assms(3)] by (simp add: advances_def)
    then have "void_point b' pt'" using guard_resumes [OF assms(3) 2(1)] 2(2) by (auto simp: void_point_def)
    moreover have "pt' \<noteq> Done (TargetValue v)" for v
      using guard_value [of env pt a b b' v g] assms(2,3) 2 by (auto simp: guard_changed_def)
    ultimately show ?thesis by blast
  qed
qed

lemma void_guarded:
  assumes "void_point (fst r) (snd r)" and "\<forall>v. snd r \<noteq> Done (TargetValue v)"
  shows "void_result i (guarded env i pa r b)"
proof -
  obtain bd pt where r: "r = (bd, pt)" by (cases r)
  show ?thesis
  proof (cases pt)
    case (Done out)
    then show ?thesis using assms(2) r by (cases out) (auto simp: guarded_def Let_def void_result_def)
  next
    case (Running g)
    then show ?thesis using assms(1) r by (auto simp: guarded_def Let_def void_result_def void_point_def)
  qed (use assms(1) r in \<open>simp_all add: guarded_def Let_def void_result_def\<close>)
qed

lemma void_resumed:
  assumes "void_task (br_binding b) t" shows "void_result i (resume_task env i now a t b)"
proof (cases t)
  case (ProofGuard pa pt)
  then show ?thesis
    using assms void_guarded [of "resume (we_browser env) pt (answered a) (br_binding b)"]
      void_point_resume [of "br_binding b" pt "we_browser env" "answered a" "fst (resume (we_browser env) pt (answered a) (br_binding b))"
        "snd (resume (we_browser env) pt (answered a) (br_binding b))"]
    by (simp add: resume_task_def)
next
  case (ProofClient pa g c)
  have same: "void_result i (b, ProofClient pa g c', [])" for c' using assms ProofClient by (simp add: void_result_def)
  have ran: "void_result i (native_ran env i pa g c b)"
  proof (cases "cn_phase c")
    case (Ended out)
    have "void_point (br_binding b) (Running g)" using assms ProofClient by (auto simp: void_point_def)
    from void_point_resume [OF this _ surjective_pairing, of "we_browser env" "Some (outcome_json out)"]
    show ?thesis using Ended void_guarded by (simp add: native_ran_def del: resume.simps)
  qed (use same in \<open>simp_all add: native_ran_def\<close>)
  show ?thesis using ProofClient same ran by (cases a) (simp_all add: resume_task_def del: client_step.simps)
qed (use assms in \<open>simp_all add: resume_task_def void_result_def\<close>)

text \<open>A task answers only the message it was started for.\<close>

lemma resume_task_ok:
  "task_ok env evs i (br_binding b) t \<Longrightarrow> binding_refs_ok (br_binding b) \<Longrightarrow> result_ok env evs i (resume_task env i now a t b)"
  using resume_proof_ok resume_target_ok resume_identity_ok resume_other_ok by (simp add: resume_task_def)

lemma result_ok_own: "result_ok env evs i r \<Longrightarrow> Reply j v \<in> set (snd (snd r)) \<Longrightarrow> j = i"
  by (auto simp: result_ok_def list_all_iff reply_ok_def)

lemma own_reply:
  assumes "Reply i v \<in> set (snd (bridge_step env e (fst (bridge_run env evs))))" and "i < length (snd (fst (bridge_run env evs)))"
  shows "\<exists>now a. e = Continue i now a"
proof (cases e)
  case (Message message sender)
  let ?w = "fst (bridge_run env evs)"
  have "Reply i v \<in> set (snd (snd (onMessage env (length (snd ?w)) message sender (fst ?w))))"
    using assms(1) Message by (simp add: new_task_def split: prod.splits)
  from result_ok_own [OF bridge_message_ok [OF refl] this] show ?thesis using assms(2) by simp
next
  case (Continue j now a)
  let ?w = "fst (bridge_run env evs)"
  have j: "j < length (snd ?w)" "Reply i v \<in> set (snd (snd (resume_task env j now a (snd ?w ! j) (fst ?w))))"
    using assms(1) Continue by (simp_all split: if_splits prod.splits)
  have "task_ok env evs j (br_binding (fst ?w)) (snd ?w ! j)" using bridge_run_ok [of env evs] j(1) by (simp add: tasks_ok_def)
  from result_ok_own [OF resume_task_ok [OF this run_refs] j(2)] show ?thesis using Continue by simp
qed (use assms(1) tabs_quiet in \<open>auto simp: new_task_def initializeBridge_def\<close>)

text \<open>A void task stays void, and what it answers is that it is blocked.\<close>

lemma step_advances:
  "e \<noteq> Restarted \<Longrightarrow> advances (br_binding (fst w)) (br_binding (fst (fst (bridge_step env e w))))"
  by (cases rule: bridge_step_cases [of env e w]) (auto dest: moved_advances intro: tabs_advance)

lemma step_others:
  assumes "e \<noteq> Restarted" and "\<forall>now a. e \<noteq> Continue i now a" and "i < length (snd w)"
  shows "i < length (snd (fst (bridge_step env e w))) \<and> snd (fst (bridge_step env e w)) ! i = snd w ! i"
  using assms by (cases e) (simp_all add: new_task_def tabs_changed_def nth_append split: prod.split)

lemma void_step:
  assumes "i < length (snd w)" and "void_task (br_binding (fst w)) (snd w ! i)"
  shows "i < length (snd (fst (bridge_step env e w))) \<and>
    void_task (br_binding (fst (fst (bridge_step env e w)))) (snd (fst (bridge_step env e w)) ! i)"
proof -
  consider "e = Restarted" | now a where "e = Continue i now a" | "e \<noteq> Restarted" "\<forall>now a. e \<noteq> Continue i now a" by blast
  then show ?thesis
  proof cases
    case 1
    then show ?thesis using assms(1) by (simp add: new_task_def initializeBridge_def nth_append)
  next
    case 2
    have "void_result i (resume_task env i now a (snd w ! i) (fst w))" by (rule void_resumed [OF assms(2)])
    then show ?thesis using 2 assms(1) by (auto simp: void_result_def split: prod.splits)
  next
    case 3
    then show ?thesis using step_others [OF 3 assms(1), of env] void_advances [OF assms(2) step_advances [OF 3(1)]] by simp
  qed
qed

lemma void_reply:
  assumes "i < length (snd (fst (bridge_run env evs)))" and "void_task (br_binding (fst (fst (bridge_run env evs)))) (snd (fst (bridge_run env evs)) ! i)"
    and "Reply i v \<in> set (snd (bridge_step env e (fst (bridge_run env evs))))"
  shows "\<exists>c. v = state_blocked c"
proof -
  let ?w = "fst (bridge_run env evs)"
  obtain now a where "e = Continue i now a" using own_reply [OF assms(3,1)] by blast
  then have "Reply i v \<in> set (snd (snd (resume_task env i now a (snd ?w ! i) (fst ?w))))"
    using assms(1,3) by (simp split: prod.splits)
  with void_resumed [OF assms(2), of i env now a] show ?thesis unfolding void_result_def by blast
qed

lemma void_run:
  assumes "i < length (snd (fst (bridge_run env pre)))" and "void_task (br_binding (fst (fst (bridge_run env pre)))) (snd (fst (bridge_run env pre)) ! i)"
  shows "i < length (snd (fst (bridge_run env (pre @ post)))) \<and>
    void_task (br_binding (fst (fst (bridge_run env (pre @ post))))) (snd (fst (bridge_run env (pre @ post))) ! i)"
proof (induction post rule: rev_induct)
  case (snoc e post)
  then show ?case using void_step [of i "fst (bridge_run env (pre @ post))" env e]
    by (simp add: bridge_run_snoc Let_def del: append_assoc add: append_assoc [symmetric])
qed (use assms in simp)

lemma ending_voids:
  assumes "ends_selection env (fst (fst (bridge_run env pre))) e"
    and "i < length (snd (fst (bridge_run env pre)))" and "under_guard (snd (fst (bridge_run env pre)) ! i)"
  shows "i < length (snd (fst (bridge_run env (pre @ [e])))) \<and>
    void_task (br_binding (fst (fst (bridge_run env (pre @ [e]))))) (snd (fst (bridge_run env (pre @ [e]))) ! i)"
proof -
  let ?w = "fst (bridge_run env pre)"
  let ?w' = "fst (bridge_step env e ?w)"
  have next_run: "fst (bridge_run env (pre @ [e])) = ?w'" by (simp add: bridge_run_snoc Let_def)
  have "i < length (snd ?w') \<and> void_task (br_binding (fst ?w')) (snd ?w' ! i)"
  proof (cases "e = Restarted")
    case True
    then show ?thesis using assms(2) by (simp add: new_task_def initializeBridge_def nth_append)
  next
    case False
    then have gen: "bd_generation (br_binding (fst ?w)) < bd_generation (br_binding (fst ?w'))"
      using ending_step [OF assms(1)] by blast
    have "\<forall>now a. e \<noteq> Continue i now a" using assms(1) by auto
    note same = step_others [OF False this assms(2), of env]
    have "task_ok env pre i (br_binding (fst ?w)) (snd ?w ! i)" using bridge_run_ok [of env pre] assms(2) by (simp add: tasks_ok_def)
    then have "void_task (br_binding (fst ?w')) (snd ?w ! i)"
      using assms(3) gen by (cases "snd ?w ! i") (auto simp: void_point_def point_guarded_def guard_ok_def)
    with same show ?thesis by simp
  qed
  then show ?thesis unfolding next_run .
qed

text \<open>
  C33: a selection that ends takes its proofs with it. When the selected tab is closed, starts to load or
  changes its address, is replaced, or its top frame navigates, when the popup saves a valid
  configuration, when the browser starts, or when the script is restarted, the binding has neither a
  selection nor a status afterwards. And a local proof that was under its guard then, before its
  session, in it or after it, can only be answered as blocked, whatever follows: selecting the same tab
  again for the same owner does not revive it.
\<close>

theorem revocation_ends_proofs:
  assumes "ends_selection env (fst (fst (bridge_run env pre))) e"
  shows "bd_selected (br_binding (fst (fst (bridge_run env (pre @ [e]))))) = None \<and>
    bd_status (br_binding (fst (fst (bridge_run env (pre @ [e]))))) = None \<and>
    (\<forall>i post later v. i < length (snd (fst (bridge_run env pre))) \<and> under_guard (snd (fst (bridge_run env pre)) ! i) \<and>
       Reply i v \<in> set (snd (bridge_step env later (fst (bridge_run env (pre @ e # post))))) \<longrightarrow> (\<exists>c. v = state_blocked c))"
proof -
  have "cleared (br_binding (fst (fst (bridge_run env (pre @ [e])))))"
    using ending_step [OF assms] by (simp add: bridge_run_snoc Let_def)
  moreover have "\<exists>c. v = state_blocked c"
    if "i < length (snd (fst (bridge_run env pre)))" "under_guard (snd (fst (bridge_run env pre)) ! i)"
      "Reply i v \<in> set (snd (bridge_step env later (fst (bridge_run env (pre @ e # post)))))" for i post later v
  proof -
    have "i < length (snd (fst (bridge_run env ((pre @ [e]) @ post)))) \<and>
        void_task (br_binding (fst (fst (bridge_run env ((pre @ [e]) @ post))))) (snd (fst (bridge_run env ((pre @ [e]) @ post))) ! i)"
      by (rule void_run) (use ending_voids [OF assms that(1,2)] in blast)+
    then show ?thesis using void_reply [of i env "pre @ e # post" v later] that(3) by simp
  qed
  ultimately show ?thesis unfolding cleared_def by blast
qed

text \<open>
  The page of the sample proof navigates while the key signs, the popup selects the same tab again, its
  page reports, and the session ends well: its proof is refused.
\<close>

definition sample_navigation :: bridge_event where
  "sample_navigation = Navigated (JObj [(''frameId'', JInt 0), (''tabId'', JInt 7)])"

definition sample_reselecting :: "bridge_event list" where
  "sample_reselecting = [Message (JObj [(''type'', JStr ''bke.chatgpt.target.select'')]) popup_sender,
     Continue 4 0 sample_config, Continue 4 0 sample_key_read, Continue 4 0 sample_tabs,
     Message (JObj [(''type'', JStr ''bke.chatgpt.status''), (''payload'', sample_status)]) sample_sender,
     Continue 5 0 sample_config, Continue 5 0 sample_key_read, Continue 5 0 sample_tabs, Continue 5 0 (Answered sample_frame)]"

definition sample_revoked :: "bridge_event list" where
  "sample_revoked = sample_reselecting @ sample_session @ sample_closing"

lemma sample_navigated:
  "(let w = fst (bridge_run sample_worker_env (sample_selecting @ sample_proving))
    in (ends_selection sample_worker_env (fst w) sample_navigation, 3 < length (snd w), under_guard (snd w ! 3))) = (True, True, True)"
  by code_simp

lemma sample_refused:
  "(let w = fst (bridge_run sample_worker_env ((sample_selecting @ sample_proving) @ sample_navigation # sample_revoked))
    in (map_option sl_tabId (bd_selected (br_binding (fst w))), snd (bridge_step sample_worker_env (Continue 3 0 Rejected) w))) =
   (Some 7, [Reply 3 (state_blocked ''TARGET_NATIVE_OBSERVATION_REVOKED'')])"
  by code_simp

theorem revocation_ends_proofs_witness:
  "bd_selected (br_binding (fst (fst (bridge_run sample_worker_env ((sample_selecting @ sample_proving) @ [sample_navigation]))))) = None \<and>
   (\<exists>v c. Reply 3 v \<in> set (snd (bridge_step sample_worker_env (Continue 3 0 Rejected)
       (fst (bridge_run sample_worker_env ((sample_selecting @ sample_proving) @ sample_navigation # sample_revoked))))) \<and> v = state_blocked c)"
proof -
  let ?pre = "sample_selecting @ sample_proving" and ?v = "state_blocked ''TARGET_NATIVE_OBSERVATION_REVOKED''"
  let ?last = "bridge_step sample_worker_env (Continue 3 0 Rejected) (fst (bridge_run sample_worker_env (?pre @ sample_navigation # sample_revoked)))"
  have ends: "ends_selection sample_worker_env (fst (fst (bridge_run sample_worker_env ?pre))) sample_navigation"
    and task: "3 < length (snd (fst (bridge_run sample_worker_env ?pre)))" "under_guard (snd (fst (bridge_run sample_worker_env ?pre)) ! 3)"
    using sample_navigated unfolding Let_def prod.inject by blast+
  have "snd ?last = [Reply 3 ?v]" using sample_refused unfolding Let_def prod.inject by blast
  then have reply: "Reply 3 ?v \<in> set (snd ?last)" by simp
  from revocation_ends_proofs [OF ends] task reply show ?thesis by blast
qed

end
