(* ===== verification/PeerAttestor.thy ===== *)
theory PeerAttestor imports NativeHost ExtensionBase
begin

text \<open>
  \<open>browser-extension/native-host/private-peer-attestor.mjs\<close>: the host-side signer of evidence about a
  native peer. A request claims its nonce before anything is awaited; then the inspector is asked,
  and what it reports is checked against the owner's pins, signed and returned. The run is cut at
  that await: the inspector's answer, or the timeout that overtakes it, is an event. The private key
  and the inspector are parameters.
\<close>

section \<open>Configuration\<close>

definition ATTESTOR_AUD :: string where "ATTESTOR_AUD = ''bke-command-center/private-native-peer-attestor/v1''"
definition GATEWAY_AUD :: string where "GATEWAY_AUD = ''bke-command-center/preproduction/native-device-admission/v1''"

definition PIN_KEYS :: "string list" where
  "PIN_KEYS = [''bridge_identity_sha256'', ''browser_profile_sha256'', ''chatgpt_target_sha256'', ''identity_public_key_sha256'', ''source'', ''worker_id'']"

definition BIND_KEYS :: "string list" where
  "BIND_KEYS = [''audience'', ''bridge_identity_sha256'', ''browser_profile_sha256'', ''chatgpt_target_sha256'', ''expires_at_ms'',
     ''identity_public_key_sha256'', ''session_binding_sha256'', ''source'', ''worker_id'']"

definition PEER_CHALLENGE_KEYS :: "string list" where "PEER_CHALLENGE_KEYS = [''request_nonce'', ''version'']"

definition known_source :: "jsval \<Rightarrow> bool" where
  "known_source v \<longleftrightarrow> v = JStr ''DESKTOP_EXTENSION_NATIVE'' \<or> v = JStr ''GECKOVIEW_EXTENSION_NATIVE''"

definition validPins :: "jsval \<Rightarrow> bool" where
  "validPins p \<longleftrightarrow> exact_joined p PIN_KEYS \<and> str_re worker_id_re (js_get p ''worker_id'') \<and> known_source (js_get p ''source'') \<and>
     list_all (\<lambda>k. validHash (js_get p k))
       [''identity_public_key_sha256'', ''chatgpt_target_sha256'', ''browser_profile_sha256'', ''bridge_identity_sha256'']"

definition validPeerBinding :: "jsval \<Rightarrow> int \<Rightarrow> bool" where
  "validPeerBinding b now \<longleftrightarrow> exact_joined b BIND_KEYS \<and> js_eq (js_get b ''audience'') (JStr GATEWAY_AUD) \<and> known_source (js_get b ''source'') \<and>
     str_re worker_id_re (js_get b ''worker_id'') \<and>
     list_all (\<lambda>k. validHash (js_get b k))
       [''identity_public_key_sha256'', ''session_binding_sha256'', ''chatgpt_target_sha256'', ''browser_profile_sha256'', ''bridge_identity_sha256''] \<and>
     is_safe_integer (js_get b ''expires_at_ms'') \<and> now < the_int (js_get b ''expires_at_ms'') \<and> the_int (js_get b ''expires_at_ms'') \<le> now + 30000"

text \<open>\<open>nowMs\<close>, of a reading of the clock; \<^const>\<open>None\<close> is a clock that throws.\<close>

definition nowMs :: "int option \<Rightarrow> int option" where
  "nowMs reading = (case reading of None \<Rightarrow> None | Some n \<Rightarrow> if safe_int n \<and> 0 < n \<and> n < max_safe - 30000 then Some n else None)"

definition validPeerNonce :: "jsval \<Rightarrow> bool" where
  "validPeerNonce v \<longleftrightarrow> is_JStr v \<and> decodeBase64Url 43 32 (str_or_empty v) \<noteq> None"

definition evidence_fields :: "string \<Rightarrow> jsval \<Rightarrow> jsval list" where
  "evidence_fields nonce b = [JStr ATTESTOR_AUD, JInt 1, JStr nonce] @
     map (js_get b) [''audience'', ''source'', ''worker_id'', ''identity_public_key_sha256'', ''session_binding_sha256'', ''chatgpt_target_sha256'',
       ''browser_profile_sha256'', ''bridge_identity_sha256'', ''expires_at_ms'']"

definition canonicalPrivatePeerEvidence :: "string \<Rightarrow> jsval \<Rightarrow> string" where
  "canonicalPrivatePeerEvidence nonce b = json_array (evidence_fields nonce b)"

text \<open>
  \<open>ao_key_ok\<close>: the key object is a private P-256 one; \<open>ao_sign\<close>: its signature in base64url, if \<open>sign\<close>
  does not throw; \<open>ao_inspector\<close>: the inspector is a function.
\<close>

record attestor_opts =
  ao_key_ok :: bool
  ao_sign :: "bytes \<Rightarrow> string option"
  ao_inspector :: bool
  ao_pins :: jsval
  ao_timeout :: jsval
  ao_max :: jsval

definition configured :: "attestor_opts \<Rightarrow> bool" where
  "configured opts \<longleftrightarrow> ao_key_ok opts \<and> validPins (ao_pins opts) \<and> ao_inspector opts \<and>
     is_safe_integer (ao_timeout opts) \<and> 100 \<le> the_int (ao_timeout opts) \<and> the_int (ao_timeout opts) \<le> 15000 \<and>
     is_safe_integer (ao_max opts) \<and> 1 \<le> the_int (ao_max opts) \<and> the_int (ao_max opts) \<le> 256"

section \<open>The signer\<close>

text \<open>A request that waits for the inspector, or its answer: an error or the evidence.\<close>

datatype request = Inspecting string int | Answer "string + jsval"

text \<open>\<open>as_signed\<close> lists what the key has signed: the nonce and the binding.\<close>

record attestor =
  as_spent :: "string list"
  as_busy :: bool
  as_requests :: "request list"
  as_signed :: "(string \<times> jsval) list"

definition fresh_attestor :: attestor where
  "fresh_attestor = \<lparr>as_spent = [], as_busy = False, as_requests = [], as_signed = []\<rparr>"

definition issueSignedPeerEvidence :: "attestor_opts \<Rightarrow> jsval \<Rightarrow> jsval \<Rightarrow> int option \<Rightarrow> attestor \<Rightarrow> attestor" where
  "issueSignedPeerEvidence opts link challenge reading s =
     (let nonce = js_get challenge ''request_nonce'';
          denied = s\<lparr>as_requests := as_requests s @ [Answer (Inl ''NATIVE_ATTESTOR_REQUEST_DENIED'')]\<rparr> in
      case nowMs reading of None \<Rightarrow> denied
      | Some start \<Rightarrow>
          if \<not> is_reference link \<or> \<not> exact_joined challenge PEER_CHALLENGE_KEYS \<or> \<not> js_eq (js_get challenge ''version'') (JInt 1) \<or>
             \<not> validPeerNonce nonce \<or> as_busy s \<or> the_int (ao_max opts) \<le> int (length (as_spent s)) \<or> str_or_empty nonce \<in> set (as_spent s)
          then denied
          else s\<lparr>as_spent := str_or_empty nonce # as_spent s, as_busy := True,
                 as_requests := as_requests s @ [Inspecting (str_or_empty nonce) start]\<rparr>)"

text \<open>How the await ends: the inspector's value, one that cannot be cloned, a rejection or the timeout.\<close>

datatype inspection = Peer jsval | Uncloneable | InspectorRejects | TimedOut

definition signature_re :: "string \<Rightarrow> bool" where "signature_re = class_rep b64url_char 86 86"

definition peer_ok :: "attestor_opts \<Rightarrow> jsval \<Rightarrow> int \<Rightarrow> bool" where
  "peer_ok opts b moment \<longleftrightarrow> validPeerBinding b moment \<and> list_all (\<lambda>k. js_eq (js_get b k) (js_get (ao_pins opts) k)) (js_keys (ao_pins opts))"

text \<open>The rest of the request: the messages it signs and its result.\<close>

definition inspected :: "attestor_opts \<Rightarrow> string \<Rightarrow> int \<Rightarrow> inspection \<Rightarrow> int option \<Rightarrow> int option \<Rightarrow> (string \<times> jsval) list \<times> (string + jsval)" where
  "inspected opts nonce start r reading closing =
     (let blocked = Inl ''NATIVE_ATTESTOR_BLOCKED'' in
      case r of
        Peer b \<Rightarrow>
          (case nowMs reading of None \<Rightarrow> ([], blocked)
           | Some moment \<Rightarrow>
               if moment < start \<or> start + the_int (ao_timeout opts) \<le> moment then ([], blocked)
               else if \<not> peer_ok opts b moment then ([], blocked)
               else case ao_sign opts (utf8 (canonicalPrivatePeerEvidence nonce b)) of None \<Rightarrow> ([], blocked)
               | Some signature \<Rightarrow>
                   ([(nonce, b)],
                    (case nowMs closing of None \<Rightarrow> blocked
                     | Some finish_at \<Rightarrow>
                         if finish_at < moment \<or> the_int (js_get b ''expires_at_ms'') \<le> finish_at \<or> \<not> signature_re signature then blocked
                         else Inr (JObj [(''version'', JInt 1), (''request_nonce'', JStr nonce), (''binding'', b), (''signature'', JStr signature)]))))
      | _ \<Rightarrow> ([], blocked))"

definition resume_request :: "attestor_opts \<Rightarrow> nat \<Rightarrow> inspection \<Rightarrow> int option \<Rightarrow> int option \<Rightarrow> attestor \<Rightarrow> attestor" where
  "resume_request opts i r reading closing s =
     (if i < length (as_requests s)
      then (case as_requests s ! i of
          Inspecting nonce start \<Rightarrow>
            (let (signed, result) = inspected opts nonce start r reading closing in
             s\<lparr>as_busy := False, as_requests := (as_requests s)[i := Answer result], as_signed := as_signed s @ signed\<rparr>)
        | Answer a \<Rightarrow> s)
      else s)"

datatype attestor_event = Request jsval jsval "int option" | Inspection nat inspection "int option" "int option"

fun attestor_step :: "attestor_opts \<Rightarrow> attestor_event \<Rightarrow> attestor \<Rightarrow> attestor" where
  "attestor_step opts (Request link challenge reading) s = issueSignedPeerEvidence opts link challenge reading s"
| "attestor_step opts (Inspection i r reading closing) s = resume_request opts i r reading closing s"

text \<open>\<open>createPrivatePeerEvidenceSigner\<close> and the calls of what it returns; \<^const>\<open>None\<close> when it throws.\<close>

definition attestor_run :: "attestor_opts \<Rightarrow> attestor_event list \<Rightarrow> attestor option" where
  "attestor_run opts evs = (if configured opts then Some (fold (attestor_step opts) evs fresh_attestor) else None)"

section \<open>One signature per nonce\<close>

definition waiting_nonces :: "request list \<Rightarrow> string list" where
  "waiting_nonces rs = concat (map (\<lambda>r. case r of Inspecting n t \<Rightarrow> [n] | Answer a \<Rightarrow> []) rs)"

lemma waiting_simps [simp]:
  "waiting_nonces [] = []" "waiting_nonces (rs @ [Inspecting n t]) = waiting_nonces rs @ [n]" "waiting_nonces (rs @ [Answer a]) = waiting_nonces rs"
  by (simp_all add: waiting_nonces_def)

lemma waiting_update:
  assumes "i < length rs" and "rs ! i = Inspecting n t"
  shows "n \<in> set (waiting_nonces rs)" "length (waiting_nonces (rs[i := Answer a])) = length (waiting_nonces rs) - 1"
    "set (waiting_nonces (rs[i := Answer a])) \<subseteq> set (waiting_nonces rs)"
proof -
  define pre post where "pre = waiting_nonces (take i rs)" and "post = waiting_nonces (drop (Suc i) rs)"
  have "waiting_nonces rs = pre @ n # post"
    by (subst id_take_nth_drop [OF assms(1)]) (simp add: waiting_nonces_def pre_def post_def assms(2))
  moreover have "waiting_nonces (rs[i := Answer a]) = pre @ post"
    by (simp add: upd_conv_take_nth_drop [OF assms(1)] waiting_nonces_def pre_def post_def)
  ultimately show "n \<in> set (waiting_nonces rs)" "length (waiting_nonces (rs[i := Answer a])) = length (waiting_nonces rs) - 1"
    "set (waiting_nonces (rs[i := Answer a])) \<subseteq> set (waiting_nonces rs)" by auto
qed

text \<open>Where a signed binding, and an answer that carries evidence, come from.\<close>

definition was_peer :: "attestor_opts \<Rightarrow> string \<times> jsval \<Rightarrow> bool" where
  "was_peer opts p \<longleftrightarrow> (\<exists>moment. 0 \<le> moment \<and> peer_ok opts (snd p) moment) \<and> validPeerNonce (JStr (fst p))"

definition evidence_of :: "attestor \<Rightarrow> request \<Rightarrow> bool" where
  "evidence_of s r \<longleftrightarrow> (\<forall>v. r = Answer (Inr v) \<longrightarrow>
     (\<exists>n b. (n, b) \<in> set (as_signed s) \<and> js_get v ''request_nonce'' = JStr n \<and> js_get v ''binding'' = b))"

definition attestor_ok :: "attestor_opts \<Rightarrow> attestor \<Rightarrow> bool" where
  "attestor_ok opts s \<longleftrightarrow> distinct (as_spent s) \<and> int (length (as_spent s)) \<le> the_int (ao_max opts) \<and>
     list_all (\<lambda>n. validPeerNonce (JStr n)) (as_spent s) \<and>
     length (waiting_nonces (as_requests s)) = (if as_busy s then 1 else 0) \<and> set (waiting_nonces (as_requests s)) \<subseteq> set (as_spent s) \<and>
     distinct (map fst (as_signed s)) \<and> set (map fst (as_signed s)) \<subseteq> set (as_spent s) - set (waiting_nonces (as_requests s)) \<and>
     list_all (was_peer opts) (as_signed s) \<and> list_all (evidence_of s) (as_requests s)"

lemma nonce_plain: "validPeerNonce (JStr n) \<Longrightarrow> plain_scalar (JStr n)"
proof -
  assume "validPeerNonce (JStr n)"
  then have "class_rep b64url_char 43 43 n" by (auto simp: validPeerNonce_def decodeBase64Url_def split: if_splits)
  then show ?thesis by (auto intro!: plain_class_rep simp: plain_class)
qed

lemma evidence_plain:
  assumes "validPeerNonce (JStr n)" and "validPeerBinding b moment" and "0 \<le> moment"
  shows "list_all plain_scalar (evidence_fields n b)"
proof -
  have auds: "plain_scalar (JStr ATTESTOR_AUD)" "plain_scalar (JStr GATEWAY_AUD)" "plain_scalar (JStr ''DESKTOP_EXTENSION_NATIVE'')"
      "plain_scalar (JStr ''GECKOVIEW_EXTENSION_NATIVE'')" by code_simp+
  have texts: "plain_scalar (js_get b ''audience'')" "plain_scalar (js_get b ''source'')"
    using assms(2) auds js_eq_eq [of "js_get b ''audience''" "JStr GATEWAY_AUD"] by (auto simp: validPeerBinding_def known_source_def)
  obtain w where "js_get b ''worker_id'' = JStr w" "worker_id_re w"
    using assms(2) by (cases "js_get b ''worker_id''") (auto simp: validPeerBinding_def str_re_def)
  then have worker: "plain_scalar (js_get b ''worker_id'')" using plain_worker_id by simp
  obtain e where "js_get b ''expires_at_ms'' = JInt e" "moment < e"
    using assms(2) by (cases "js_get b ''expires_at_ms''") (auto simp: validPeerBinding_def)
  then have expires: "plain_scalar (js_get b ''expires_at_ms'')" using assms(3) by simp
  have hashes: "list_all plain_scalar (map (js_get b)
      [''identity_public_key_sha256'', ''session_binding_sha256'', ''chatgpt_target_sha256'', ''browser_profile_sha256'', ''bridge_identity_sha256''])"
    using assms(2) plain_hash by (simp add: validPeerBinding_def)
  show ?thesis using auds(1) texts worker expires hashes nonce_plain [OF assms(1)] by (simp add: evidence_fields_def)
qed

lemma evidence_names_nonce:
  assumes "list_all plain_scalar (evidence_fields n b)" and "list_all plain_scalar (evidence_fields m c)"
    and "canonicalPrivatePeerEvidence n b = canonicalPrivatePeerEvidence m c"
  shows "n = m"
proof -
  have "evidence_fields n b = evidence_fields m c"
    by (rule json_array_inj [OF assms(1,2)]) (use assms(3) in \<open>simp_all add: evidence_fields_def canonicalPrivatePeerEvidence_def\<close>)
  then show ?thesis by (simp add: evidence_fields_def)
qed

section \<open>The invariant\<close>

lemma evidence_later: "evidence_of s r \<Longrightarrow> set (as_signed s) \<subseteq> set (as_signed s') \<Longrightarrow> evidence_of s' r"
  by (fastforce simp: evidence_of_def)

lemma request_ok:
  assumes "attestor_ok opts s" shows "attestor_ok opts (issueSignedPeerEvidence opts link challenge reading s)"
proof -
  let ?n = "js_get challenge ''request_nonce''"
  have denied: "attestor_ok opts (s\<lparr>as_requests := as_requests s @ [Answer (Inl e)]\<rparr>)" for e
    using assms evidence_later [of s _ "s\<lparr>as_requests := as_requests s @ [Answer (Inl e)]\<rparr>"]
    by (auto simp: attestor_ok_def list_all_iff evidence_of_def)
  have claimed: "attestor_ok opts (s\<lparr>as_spent := str_or_empty ?n # as_spent s, as_busy := True,
      as_requests := as_requests s @ [Inspecting (str_or_empty ?n) start]\<rparr>)"
    if "validPeerNonce ?n" "\<not> as_busy s" "\<not> the_int (ao_max opts) \<le> int (length (as_spent s))" "str_or_empty ?n \<notin> set (as_spent s)" for start
  proof -
    have nonce: "validPeerNonce (JStr (str_or_empty ?n))" using that(1) by (cases ?n) (simp_all add: validPeerNonce_def)
    have none: "waiting_nonces (as_requests s) = []" using assms that(2) by (simp add: attestor_ok_def)
    show ?thesis using assms that(2-4) nonce none by (auto simp: attestor_ok_def list_all_iff evidence_of_def)
  qed
  show ?thesis using denied claimed by (simp add: issueSignedPeerEvidence_def Let_def split: option.split)
qed

lemma inspected_cases:
  assumes "inspected opts nonce start r reading closing = (signed, result)"
  shows "(signed = [] \<and> result = Inl ''NATIVE_ATTESTOR_BLOCKED'') \<or>
    (\<exists>b moment. signed = [(nonce, b)] \<and> 0 \<le> moment \<and> peer_ok opts b moment \<and>
      (\<forall>v. result = Inr v \<longrightarrow> js_get v ''request_nonce'' = JStr nonce \<and> js_get v ''binding'' = b))"
proof (cases r)
  case (Peer b)
  show ?thesis
  proof (cases "nowMs reading")
    case (Some moment)
    then have "0 \<le> moment" by (auto simp: nowMs_def split: option.splits if_splits)
    then show ?thesis using assms Peer Some by (auto simp: inspected_def Let_def split: if_splits option.splits)
  qed (use assms Peer in \<open>simp add: inspected_def\<close>)
qed (use assms in \<open>simp_all add: inspected_def\<close>)

lemma inspection_ok:
  assumes "attestor_ok opts s" shows "attestor_ok opts (resume_request opts i r reading closing s)"
proof (cases "i < length (as_requests s) \<and> (\<exists>nonce start. as_requests s ! i = Inspecting nonce start)")
  case True
  then obtain nonce start where i: "i < length (as_requests s)" "as_requests s ! i = Inspecting nonce start" by blast
  obtain signed result where out: "inspected opts nonce start r reading closing = (signed, result)" by (cases "inspected opts nonce start r reading closing")
  let ?s = "s\<lparr>as_busy := False, as_requests := (as_requests s)[i := Answer result], as_signed := as_signed s @ signed\<rparr>"
  note waits = waiting_update [OF i]
  have one: "waiting_nonces (as_requests s) = [nonce]" "nonce \<in> set (as_spent s)"
  proof -
    have "length (waiting_nonces (as_requests s)) \<le> 1" using assms by (simp add: attestor_ok_def split: if_splits)
    then show "waiting_nonces (as_requests s) = [nonce]" using waits(1) by (cases "waiting_nonces (as_requests s)") auto
    then show "nonce \<in> set (as_spent s)" using assms by (simp add: attestor_ok_def)
  qed
  then have none: "waiting_nonces ((as_requests s)[i := Answer a]) = []" for a using waits(2) [of a] by simp
  have valid: "validPeerNonce (JStr nonce)" using assms one(2) by (simp add: attestor_ok_def list_all_iff)
  have old: "evidence_of ?s r" if "r \<in> set (as_requests s)" for r
    using assms that evidence_later [of s r ?s] by (simp add: attestor_ok_def list_all_iff)
  have new: "evidence_of ?s (Answer result)" "distinct (map fst (as_signed s @ signed))" "set (map fst signed) \<subseteq> {nonce}" "list_all (was_peer opts) signed"
    using inspected_cases [OF out] assms one(1) valid by (auto simp: evidence_of_def attestor_ok_def was_peer_def)
  have "list_all (evidence_of ?s) ((as_requests s)[i := Answer result])"
    using old new(1) by (auto simp: list_all_iff dest!: set_update_subset_insert [THEN subsetD])
  then have "attestor_ok opts ?s" using assms new(2-4) none one by (auto simp: attestor_ok_def)
  then show ?thesis using i out by (simp add: resume_request_def)
next
  case False
  then show ?thesis using assms by (auto simp: resume_request_def split: request.split)
qed

lemma attestor_run_ok:
  assumes "attestor_run opts evs = Some s" shows "attestor_ok opts s"
proof -
  have step: "attestor_ok opts s \<Longrightarrow> attestor_ok opts (attestor_step opts e s)" for e s
    by (cases e) (simp_all add: request_ok inspection_ok)
  have "attestor_ok opts s \<Longrightarrow> attestor_ok opts (fold (attestor_step opts) evs s)" for s
    by (induction evs arbitrary: s) (simp_all add: step)
  moreover have "configured opts \<Longrightarrow> attestor_ok opts fresh_attestor"
    by (simp add: attestor_ok_def fresh_attestor_def configured_def)
  ultimately show ?thesis using assms by (auto simp: attestor_run_def split: if_splits)
qed

text \<open>
  C34: the attestor's key signs evidence at most once per request nonce, one request at a time and no
  more than the configured number in all, however requests and inspections interleave and whatever
  fails. Every binding it signed has the shape of a gateway binding that was valid at some moment and
  names the owner's pins, its text is different from every other text signed, and evidence is returned
  only for a binding that was signed for that nonce.
\<close>

theorem attestor_signs_once:
  assumes "attestor_run opts evs = Some s"
  shows "distinct (map (\<lambda>p. canonicalPrivatePeerEvidence (fst p) (snd p)) (as_signed s)) \<and> distinct (map fst (as_signed s)) \<and>
    int (length (as_signed s)) \<le> the_int (ao_max opts) \<and>
    length (waiting_nonces (as_requests s)) = (if as_busy s then 1 else 0) \<and>
    list_all (\<lambda>p. \<exists>moment. validPeerBinding (snd p) moment \<and>
      list_all (\<lambda>k. js_eq (js_get (snd p) k) (js_get (ao_pins opts) k)) (js_keys (ao_pins opts))) (as_signed s) \<and>
    (\<forall>v. Answer (Inr v) \<in> set (as_requests s) \<longrightarrow>
      (\<exists>n b. (n, b) \<in> set (as_signed s) \<and> js_get v ''request_nonce'' = JStr n \<and> js_get v ''binding'' = b))"
proof -
  note ok = attestor_run_ok [OF assms, unfolded attestor_ok_def]
  have signed: "was_peer opts p" if "p \<in> set (as_signed s)" for p using ok that by (simp add: list_all_iff)
  have plain: "list_all plain_scalar (evidence_fields (fst p) (snd p))" if "p \<in> set (as_signed s)" for p
    using signed [OF that] evidence_plain [of "fst p" "snd p"] by (auto simp: was_peer_def peer_ok_def)
  have "inj_on (\<lambda>p. canonicalPrivatePeerEvidence (fst p) (snd p)) (set (as_signed s))"
  proof (rule inj_onI)
    fix p q assume p: "p \<in> set (as_signed s)" and q: "q \<in> set (as_signed s)"
      and eq: "canonicalPrivatePeerEvidence (fst p) (snd p) = canonicalPrivatePeerEvidence (fst q) (snd q)"
    have "fst p = fst q" by (rule evidence_names_nonce [OF plain [OF p] plain [OF q] eq])
    moreover have "inj_on fst (set (as_signed s))" using ok by (simp add: distinct_map)
    ultimately show "p = q" using p q by (auto dest: inj_onD)
  qed
  moreover have "distinct (as_signed s)" using ok by (simp add: distinct_map)
  ultimately have texts: "distinct (map (\<lambda>p. canonicalPrivatePeerEvidence (fst p) (snd p)) (as_signed s))" by (simp add: distinct_map)
  have "card (set (map fst (as_signed s))) \<le> card (set (as_spent s))" using ok by (intro card_mono) auto
  then have count: "length (as_signed s) \<le> length (as_spent s)" using ok distinct_card [of "map fst (as_signed s)"] distinct_card [of "as_spent s"] by simp
  have peers: "list_all (\<lambda>p. \<exists>moment. validPeerBinding (snd p) moment \<and>
      list_all (\<lambda>k. js_eq (js_get (snd p) k) (js_get (ao_pins opts) k)) (js_keys (ao_pins opts))) (as_signed s)"
    using signed unfolding was_peer_def peer_ok_def list_all_iff by blast
  have given: "\<exists>n b. (n, b) \<in> set (as_signed s) \<and> js_get v ''request_nonce'' = JStr n \<and> js_get v ''binding'' = b"
    if "Answer (Inr v) \<in> set (as_requests s)" for v
    using ok that by (fastforce simp: list_all_iff evidence_of_def)
  show ?thesis using texts ok count peers given by simp
qed


text \<open>A request that is answered with evidence.\<close>

definition sample_peer_hashes :: "(string \<times> jsval) list" where
  "sample_peer_hashes = [(''bridge_identity_sha256'', JStr (wide_hash CHR ''e'')), (''browser_profile_sha256'', JStr (wide_hash CHR ''d'')),
     (''chatgpt_target_sha256'', JStr (wide_hash CHR ''c'')), (''identity_public_key_sha256'', JStr (wide_hash CHR ''a'')),
     (''source'', JStr ''DESKTOP_EXTENSION_NATIVE''), (''worker_id'', JStr ''bke-13'')]"

definition sample_peer :: jsval where
  "sample_peer = JObj ([(''audience'', JStr GATEWAY_AUD), (''expires_at_ms'', JInt 1020000), (''session_binding_sha256'', JStr (wide_hash CHR ''b''))] @
     sample_peer_hashes)"

definition sample_attestor :: attestor_opts where
  "sample_attestor = \<lparr>ao_key_ok = True, ao_sign = \<lambda>_. Some (replicate 86 CHR ''A''), ao_inspector = True, ao_pins = JObj sample_peer_hashes,
     ao_timeout = JInt 10000, ao_max = JInt 64\<rparr>"

definition sample_attesting :: "attestor_event list" where
  "sample_attesting = [Request (JObj []) (JObj [(''version'', JInt 1), (''request_nonce'', JStr (replicate 43 CHR ''A''))]) (Some 1000000),
     Inspection 0 (Peer sample_peer) (Some 1000001) (Some 1000002)]"

lemma sample_attestor_facts:
  "validPeerNonce (JStr (replicate 43 CHR ''A''))" "configured sample_attestor" "peer_ok sample_attestor sample_peer 1000001"
proof -
  have "decodeBase64Url 43 32 (bytesToBase64Url (replicate 32 CHR 0x00)) = Some (replicate 32 CHR 0x00)"
    by (rule decodeBase64Url_encode) simp_all
  moreover have "bytesToBase64Url (replicate 32 CHR 0x00) = replicate 43 CHR ''A''" by code_simp
  ultimately show "validPeerNonce (JStr (replicate 43 CHR ''A''))" by (simp add: validPeerNonce_def)
  have worker: "worker_id_re ''bke-13''" by code_simp
  have hashes: "validHash (JStr (wide_hash c)) \<longleftrightarrow> is_hex_lower c" for c by (simp add: validHash_def wide_hash_facts)
  show "configured sample_attestor"
    using worker by (simp add: configured_def sample_attestor_def validPins_def PIN_KEYS_def exact_joined_def sample_peer_hashes_def
      str_re_def known_source_def hashes wide_digits safe_int_def max_safe_def)
  show "peer_ok sample_attestor sample_peer 1000001"
    using worker by (simp add: peer_ok_def sample_attestor_def sample_peer_def validPeerBinding_def BIND_KEYS_def exact_joined_def
      sample_peer_hashes_def str_re_def known_source_def hashes wide_digits safe_int_def max_safe_def)
qed

lemma sample_attested: "map_option (\<lambda>s. map fst (as_signed s)) (attestor_run sample_attestor sample_attesting) = Some [replicate 43 CHR ''A'']"
proof -
  have opts: "ao_max sample_attestor = JInt 64" "ao_timeout sample_attestor = JInt 10000" "ao_sign sample_attestor m = Some (replicate 86 CHR ''A'')" for m
    by (simp_all add: sample_attestor_def)
  have clock: "nowMs (Some 1000000) = Some 1000000" "nowMs (Some 1000001) = Some 1000001" by (simp_all add: nowMs_def safe_int_def max_safe_def)
  show ?thesis using sample_attestor_facts
    by (simp add: attestor_run_def sample_attesting_def issueSignedPeerEvidence_def Let_def clock opts fresh_attestor_def is_reference_def
        exact_joined_def PEER_CHALLENGE_KEYS_def resume_request_def inspected_def del: replicate.simps split: prod.split)
qed

theorem attestor_signs_once_witness:
  "\<exists>s n b. attestor_run sample_attestor sample_attesting = Some s \<and> as_signed s = [(n, b)] \<and> js_eq (js_get b ''worker_id'') (JStr ''bke-13'')"
proof -
  obtain s where s: "attestor_run sample_attestor sample_attesting = Some s" "map fst (as_signed s) = [replicate 43 CHR ''A'']"
    using sample_attested by auto
  then obtain n b where b: "as_signed s = [(n, b)]" by (cases "as_signed s") auto
  have "list_all (\<lambda>k. js_eq (js_get b k) (js_get (ao_pins sample_attestor) k)) (js_keys (ao_pins sample_attestor))"
    using attestor_signs_once [OF s(1)] unfolding b by simp
  then have "js_eq (js_get b ''worker_id'') (JStr ''bke-13'')" by (simp add: sample_attestor_def sample_peer_hashes_def)
  then show ?thesis using s(1) b by blast
qed

end
