(* ===== verification/Script.thy ===== *)
theory Script imports BKE_Prelude
begin

text \<open>
  Scripts that ask the outside: what the outside answers to a request may depend on every request made
  before it, so nothing is assumed to stay as it was between two requests. A script is a function of
  those answers; the list of its requests is part of its result.
\<close>

section \<open>Scripts\<close>

type_synonym ('q, 'r, 'e, 'a) scripted = "('q list \<Rightarrow> 'r) \<Rightarrow> 'q list \<Rightarrow> ('e + 'a) \<times> 'q list"

definition give :: "'a \<Rightarrow> ('q, 'r, 'e, 'a) scripted" where "give x w past = (Inr x, past)"

definition fail :: "'e \<Rightarrow> ('q, 'r, 'e, 'a) scripted" where "fail e w past = (Inl e, past)"

definition ask :: "'q \<Rightarrow> ('q, 'r, 'e, 'r) scripted" where "ask a w past = (Inr (w (past @ [a])), past @ [a])"

definition bindE :: "('q, 'r, 'e, 'a) scripted \<Rightarrow> ('a \<Rightarrow> ('q, 'r, 'e, 'b) scripted) \<Rightarrow> ('q, 'r, 'e, 'b) scripted" where
  "bindE m k w past = (case m w past of (Inl e, l) \<Rightarrow> (Inl e, l) | (Inr x, l) \<Rightarrow> k x w l)"

definition andE :: "('q, 'r, 'e, 'a) scripted \<Rightarrow> ('q, 'r, 'e, 'b) scripted \<Rightarrow> ('q, 'r, 'e, 'b) scripted" where "andE m n = bindE m (\<lambda>_. n)"

text \<open>The result of a script as a value, and a value as the result of a script.\<close>

definition attempt :: "('q, 'r, 'e, 'a) scripted \<Rightarrow> ('q, 'r, 'f, 'e + 'a) scripted" where
  "attempt m w past = (case m w past of (r, l) \<Rightarrow> (Inr r, l))"

fun result :: "'e + 'a \<Rightarrow> ('q, 'r, 'e, 'a) scripted" where
  "result (Inl e) = fail e"
| "result (Inr x) = give x"

definition require :: "bool \<Rightarrow> 'e \<Rightarrow> ('q, 'r, 'e, unit) scripted" where
  "require b e = (if b then give () else fail e)"

primrec each :: "('a \<Rightarrow> ('q, 'r, 'e, unit) scripted) \<Rightarrow> 'a list \<Rightarrow> ('q, 'r, 'e, unit) scripted" where
  "each f [] = give ()"
| "each f (x # xs) = andE (f x) (each f xs)"

definition on_error :: "('e \<Rightarrow> 'f) \<Rightarrow> ('q, 'r, 'e, 'a) scripted \<Rightarrow> ('q, 'r, 'f, 'a) scripted" where
  "on_error f m w past = (case m w past of (Inl e, l) \<Rightarrow> (Inl (f e), l) | (Inr x, l) \<Rightarrow> (Inr x, l))"

section \<open>Success\<close>

text \<open>What a script that succeeds has done.\<close>

lemma bindE_Inr:
  "bindE m k w past = (Inr y, l) \<longleftrightarrow> (\<exists>x l1. m w past = (Inr x, l1) \<and> k x w l1 = (Inr y, l))"
  by (cases "m w past") (auto simp: bindE_def split: sum.split)

lemma andE_Inr: "andE m n w past = (Inr y, l) \<longleftrightarrow> (\<exists>x l1. m w past = (Inr x, l1) \<and> n w l1 = (Inr y, l))"
  by (simp add: andE_def bindE_Inr)

lemma on_error_Inr: "on_error f m w past = (Inr y, l) \<longleftrightarrow> m w past = (Inr y, l)"
  by (cases "m w past") (auto simp: on_error_def split: sum.split)

lemma give_Inr: "give x w past = (Inr y, l) \<longleftrightarrow> y = x \<and> l = past"
  by (auto simp: give_def)

lemma fail_Inr: "fail e w past \<noteq> (Inr y, l)"
  by (simp add: fail_def)

lemma require_Inr: "require b e w past = (Inr y, l) \<longleftrightarrow> b \<and> l = past"
  by (auto simp: require_def give_def fail_def)

end
