(* ===== verification/AdminActivation.thy ===== *)
theory AdminActivation imports ExtensionBase Script
begin

text \<open>
  \<open>scripts/admin_preproduction_activation.mjs\<close>: the operator's script that activates the Admin read
  broker of the preproduction workers. It is a sequence of reads of the Cloudflare API, anonymous
  probes and commands; each is an action, and what the outside answers to an action may depend on
  everything that was done before. The script is a function of those answers, and its log of actions
  is part of its result.
\<close>

section \<open>Actions and scripts\<close>

text \<open>
  \<open>Npx args cwd input\<close> is a wrangler command, \<open>Npm args cwd\<close> an npm one, \<open>Login cwd\<close> the provider's
  interactive login, \<open>CfGet token path\<close> a read of the API, \<open>Visit url\<close> a request without credentials,
  \<open>Checkpoint phase\<close> the comment on the operator's issue.
\<close>

datatype act =
    Npx "string list" string "string option"
  | Npm "string list" string
  | Login string
  | CfGet string string
  | Visit string
  | Checkpoint string

text \<open>A failed command or request, a command's output, or a response: status, body and location.\<close>

datatype reply = Unavailable | Output string | Http int "jsval option" "string option"

type_synonym world = "act list \<Rightarrow> reply"

type_synonym ('e, 'a) script = "(act, reply, 'e, 'a) scripted"

section \<open>Names\<close>

definition TARGET_RELAY :: string where "TARGET_RELAY = ''bke-worker-relay-preproduction''"
definition TARGET_CC :: string where "TARGET_CC = ''bke-command-center-preproduction''"
definition ADMIN_HOST :: string where "ADMIN_HOST = ''cc.jl-bke.com''"
definition ADMIN_URL :: string where "ADMIN_URL = ''https://'' @ ADMIN_HOST @ ''/admin''"

definition ADMIN_FLAG_NAMES :: "string list" where
  "ADMIN_FLAG_NAMES = [''BKE_ADMIN_BROKER_ENABLED'', ''BKE_ADMIN_REPO_CATALOG_ENABLED'']"

definition CC_ADMIN_NAMES :: "string list" where
  "CC_ADMIN_NAMES = [''BKE_ADMIN_DISCOVERY_ENABLED'', ''BKE_ADMIN_ACCESS_ISSUER'', ''BKE_ADMIN_ACCESS_AUD'', ''BKE_ADMIN_EMAILS'',
     ''GITHUB_DISCOVERY_AUTH_MODE'']"

definition CONNECTED_ACCESS_KEYS :: "string list" where
  "CONNECTED_ACCESS_KEYS = [''BKE_ADMIN_ACCESS_ISSUER'', ''BKE_ADMIN_ACCESS_AUD'', ''BKE_ADMIN_EMAILS'', ''BKE_ADMIN_ACCESS_BOOTSTRAP_SOURCE'']"

definition nullish :: "jsval \<Rightarrow> bool" where "nullish v \<longleftrightarrow> v = JUndef \<or> v = JNull"

text \<open>\<open>String(v || "")\<close>.\<close>

definition or_empty :: "jsval \<Rightarrow> string" where "or_empty v = (if truthy v then js_string v else [])"

text \<open>A property of null or undefined throws; its error carries no code.\<close>

definition TYPE_ERROR :: string where "TYPE_ERROR = ''UNCLASSIFIED_ACTIVATION_ERROR''"

section \<open>Reading Cloudflare\<close>

definition run_command :: "act \<Rightarrow> string \<Rightarrow> (string, string) script" where
  "run_command a e = bindE (ask a) (\<lambda>r. case r of Output out \<Rightarrow> give out | _ \<Rightarrow> fail e)"

definition wrangler :: "string list \<Rightarrow> string \<Rightarrow> string option \<Rightarrow> string \<Rightarrow> (string, string) script" where
  "wrangler args cwd input e = run_command (Npx args cwd input) e"

text \<open>The checkpoint's failure is only reported.\<close>

definition checkpoint :: "string \<Rightarrow> ('e, unit) script" where
  "checkpoint phase = bindE (ask (Checkpoint phase)) (\<lambda>_. give ())"

definition cfGet :: "string \<Rightarrow> string \<Rightarrow> (string, jsval) script" where
  "cfGet token path = bindE (ask (CfGet token path)) (\<lambda>r.
     case r of Http status body location \<Rightarrow>
         if status \<noteq> 200 then fail ''CLOUDFLARE_READ_REJECTED''
         else (case body of None \<Rightarrow> fail ''CLOUDFLARE_READ_INVALID''
           | Some v \<Rightarrow> if \<not> truthy v \<or> js_get v ''success'' \<noteq> JBool True \<or> nullish (js_get v ''result'')
               then fail ''CLOUDFLARE_READ_INVALID'' else give (js_get v ''result''))
       | _ \<Rightarrow> fail ''CLOUDFLARE_READ_UNAVAILABLE'')"

text \<open>\<open>names\<close> as the list of bindings, of which the last of a name counts.\<close>

definition names :: "jsval \<Rightarrow> (string, jsval list) script" where
  "names bindings = (if list_ex nullish (the_arr bindings) then fail TYPE_ERROR else give (the_arr bindings))"

definition named :: "string \<Rightarrow> jsval list \<Rightarrow> jsval option" where
  "named n bindings = (case filter (\<lambda>x. js_eq (js_get x ''name'') (JStr n)) bindings of [] \<Rightarrow> None | xs \<Rightarrow> Some (last xs))"

definition has_type :: "string \<Rightarrow> string \<Rightarrow> jsval list \<Rightarrow> bool" where
  "has_type n type found \<longleftrightarrow> (case named n found of None \<Rightarrow> False | Some x \<Rightarrow> js_eq (js_get x ''type'') (JStr type))"

definition requireBinding :: "jsval list \<Rightarrow> string \<Rightarrow> string \<Rightarrow> (string, unit) script" where
  "requireBinding found n type = require (has_type n type found) ''CLOUDFLARE_REQUIRED_BINDING_MISSING''"

definition connectedAccessBootstrap :: "jsval list \<Rightarrow> (string, bool) script" where
  "connectedAccessBootstrap command =
     (let present = filter (\<lambda>n. named n command \<noteq> None) CONNECTED_ACCESS_KEYS in
      if present = [] then give False
      else if length present \<noteq> length CONNECTED_ACCESS_KEYS \<or> list_ex (\<lambda>n. \<not> has_type n ''secret_text'' command) CONNECTED_ACCESS_KEYS
      then fail ''ACCESS_CONNECTED_BOOTSTRAP_PARTIAL''
      else give True)"

definition noPriorActivation :: "jsval list \<Rightarrow> jsval list \<Rightarrow> (string, bool) script" where
  "noPriorActivation relay command = bindE (connectedAccessBootstrap command) (\<lambda>staged.
     let forbiddenCommand = filter (\<lambda>n. \<not> staged \<or> n \<notin> set CONNECTED_ACCESS_KEYS) CC_ADMIN_NAMES in
     if list_ex (\<lambda>n. named n relay \<noteq> None) ADMIN_FLAG_NAMES \<or> list_ex (\<lambda>n. named n command \<noteq> None) forbiddenCommand
     then fail ''ADMIN_ACTIVATION_ALREADY_OR_PARTIALLY_CONFIGURED'' else give staged)"

definition latestDeployment :: "string \<Rightarrow> string \<Rightarrow> string \<Rightarrow> (string, string) script" where
  "latestDeployment token account name =
     bindE (cfGet token (''/accounts/'' @ account @ ''/workers/scripts/'' @ name @ ''/deployments?per_page=5'')) (\<lambda>r.
       case js_get r ''deployments'' of
         JArr (d # ds) \<Rightarrow> (if nullish d then fail TYPE_ERROR
           else case js_get d ''id'' of JStr i \<Rightarrow> give i | _ \<Rightarrow> fail ''CLOUDFLARE_DEPLOYMENT_UNKNOWN'')
       | _ \<Rightarrow> fail ''CLOUDFLARE_DEPLOYMENT_UNKNOWN'')"

definition settings :: "string \<Rightarrow> string \<Rightarrow> string \<Rightarrow> (string, jsval list) script" where
  "settings token account name =
     bindE (cfGet token (''/accounts/'' @ account @ ''/workers/scripts/'' @ name @ ''/settings'')) (\<lambda>r. names (js_get r ''bindings''))"

section \<open>The access policy\<close>

text \<open>What is known of the policy: the operator's identity, or only who challenges.\<close>

datatype access = Identity (ac_email: string) (ac_issuer: string) (ac_aud: jsval) | Challenged (ac_issuer: string)

definition aud_re :: "string \<Rightarrow> bool" where "aud_re = class_rep is_alnum 16 128"
definition app_id_ok :: "string \<Rightarrow> bool" where "app_id_ok = class_rep (\<lambda>c. is_hex_lower c \<or> c = CHR ''-'') 36 36"
definition account_id_ok :: "string \<Rightarrow> bool" where "account_id_ok = class_rep is_hex_lower 32 32"

text \<open>\<open>/^[^\s@,]+@[^\s@,]+$/\<close> and \<open>/^[a-z0-9-]+\.cloudflareaccess\.com$/\<close>.\<close>

definition email_re :: "string \<Rightarrow> bool" where
  "email_re s = (let part = (\<lambda>t. t \<noteq> [] \<and> list_all (\<lambda>c. \<not> is_space c \<and> c \<noteq> CHR ''@'' \<and> c \<noteq> CHR '','') t);
      name = takeWhile (\<lambda>c. c \<noteq> CHR ''@'') s; rest = dropWhile (\<lambda>c. c \<noteq> CHR ''@'') s in
    part name \<and> rest \<noteq> [] \<and> part (tl rest))"

definition auth_domain_re :: "string \<Rightarrow> bool" where
  "auth_domain_re s = (let k = length s - 21 in 21 < length s \<and> drop k s = ''.cloudflareaccess.com'' \<and>
     list_all (\<lambda>c. is_lower c \<or> is_digit c \<or> c = CHR ''-'') (take k s))"

fun js_length :: "jsval \<Rightarrow> jsval" where
  "js_length (JArr xs) = JInt (int (length xs))"
| "js_length (JStr s) = JInt (int (length s))"
| "js_length v = js_get v ''length''"

definition grants :: "jsval \<Rightarrow> bool" where
  "grants p \<longleftrightarrow> js_eq (js_get p ''decision'') (JStr ''allow'') \<and> js_get p ''enabled'' \<noteq> JBool False \<and>
     \<not> truthy (js_length (js_get p ''require'')) \<and> \<not> truthy (js_length (js_get p ''exclude''))"

definition sole_include :: "jsval \<Rightarrow> jsval option" where
  "sole_include p = (case js_get p ''include'' of JArr [i] \<Rightarrow> Some i | _ \<Rightarrow> None)"

definition operator_only :: "jsval \<Rightarrow> bool" where
  "operator_only p \<longleftrightarrow> grants p \<and> (case sole_include p of None \<Rightarrow> False | Some i \<Rightarrow> join_comma (js_keys i) = ''email'')"

definition policyIdentity :: "jsval \<Rightarrow> jsval \<Rightarrow> jsval \<Rightarrow> (string, access) script" where
  "policyIdentity app policies organization =
     (if \<not> js_eq (js_get app ''domain'') (JStr ADMIN_HOST) \<or> \<not> js_eq (js_get app ''type'') (JStr ''self_hosted'') \<or>
         \<not> aud_re (or_empty (js_get app ''aud''))
      then fail ''ACCESS_APPLICATION_NOT_TRUSTED''
      else case policies of
        JArr [p] \<Rightarrow>
          (let email = js_get (js_get (case sole_include p of None \<Rightarrow> JUndef | Some i \<Rightarrow> i) ''email'') ''email''; authDomain = or_empty (js_get organization ''auth_domain'') in
           if nullish p \<or> (grants p \<and> map_option nullish (sole_include p) = Some True) then fail TYPE_ERROR
           else if \<not> operator_only p then fail ''ACCESS_POLICY_NOT_OPERATOR_ONLY''
           else if \<not> is_JStr email \<or> \<not> email_re (str_or_empty email) \<or> 240 < length (str_or_empty email)
           then fail ''ACCESS_OPERATOR_IDENTITY_NOT_DISCOVERED''
           else if \<not> auth_domain_re authDomain then fail ''ACCESS_ISSUER_INVALID''
           else give (Identity (str_or_empty email) (''https://'' @ authDomain) (js_get app ''aud'')))
      | _ \<Rightarrow> fail ''ACCESS_POLICY_AMBIGUOUS'')"

definition selectAdminAccessApplication :: "jsval \<Rightarrow> (string, jsval) script" where
  "selectAdminAccessApplication apps =
     (if \<not> is_JArr apps then fail ''ACCESS_APPLICATION_RESPONSE_INVALID''
      else case filter (\<lambda>x. js_eq (js_get x ''domain'') (JStr ADMIN_HOST)) (the_arr apps) of
        [] \<Rightarrow> fail ''ACCESS_APPLICATION_NOT_VISIBLE''
      | [app] \<Rightarrow> if app_id_ok (or_empty (js_get app ''id'')) then give app else fail ''ACCESS_APPLICATION_ID_INVALID''
      | _ \<Rightarrow> fail ''ACCESS_APPLICATION_AMBIGUOUS'')"

section \<open>Probing the access edge\<close>

record probe_url =
  pu_protocol :: string
  pu_hostname :: string
  pu_pathname :: string
  pu_origin :: string

text \<open>
  The process: its arguments (empty when absent), node's major version, the platform's path functions,
  \<open>JSON.parse\<close> and \<open>new URL(text, base)\<close>.
\<close>

record operator =
  op_workerArg :: string
  op_commandArg :: string
  op_workerSha :: string
  op_commandSha :: string
  op_node :: nat
  op_resolve :: "string \<Rightarrow> string"
  op_join :: "string \<Rightarrow> string \<Rightarrow> string"
  op_parse :: "string \<Rightarrow> jsval option"
  op_url :: "string \<Rightarrow> string option \<Rightarrow> probe_url option"

definition login_redirect :: "int \<Rightarrow> probe_url \<Rightarrow> bool" where
  "login_redirect status u \<longleftrightarrow> status \<in> {301, 302, 303, 307, 308} \<and> pu_protocol u = ''https:'' \<and> starts_with (pu_pathname u) ''/cdn-cgi/access/''"

definition visit :: "string \<Rightarrow> (string, int \<times> string) script" where
  "visit u = bindE (ask (Visit u)) (\<lambda>r. case r of
       Http status body location \<Rightarrow> give (status, case location of None \<Rightarrow> [] | Some l \<Rightarrow> l)
     | _ \<Rightarrow> fail ''ACCESS_ANONYMOUS_PROBE_UNAVAILABLE'')"

definition denyAnonymous :: "operator \<Rightarrow> string \<Rightarrow> string \<Rightarrow> (string, unit) script" where
  "denyAnonymous op u accessIssuer = bindE (visit u) (\<lambda>(status, location).
     case (op_url op location (Some u), op_url op u None, op_url op accessIssuer None) of
       (Some target, Some original, Some issuer) \<Rightarrow>
         require (login_redirect status target \<and> (pu_hostname target = pu_hostname issuer \<or> pu_hostname target = pu_hostname original))
           ''ACCESS_ANONYMOUS_NOT_DENIED''
     | _ \<Rightarrow> fail ''ACCESS_ANONYMOUS_NOT_DENIED'')"

definition connectedAccessChallenge :: "operator \<Rightarrow> (string, access) script" where
  "connectedAccessChallenge op = bindE (visit ADMIN_URL) (\<lambda>(status, location).
     case op_url op location (Some ADMIN_URL) of
       None \<Rightarrow> fail ''ACCESS_ANONYMOUS_NOT_DENIED''
     | Some u \<Rightarrow> if \<not> login_redirect status u \<or> \<not> auth_domain_re (pu_hostname u) then fail ''ACCESS_ANONYMOUS_NOT_DENIED''
         else give (Challenged (pu_origin u)))"

text \<open>
  \<open>Promise.all\<close> starts every read before one of them can fail; the first failure in order stands for
  whichever is the first in time.
\<close>

definition accessSnapshot :: "string \<Rightarrow> string \<Rightarrow> (string, access) script" where
  "accessSnapshot token account =
     bindE (cfGet token (''/accounts/'' @ account @ ''/access/apps?domain='' @ ADMIN_HOST @ ''&exact=true&per_page=100&page=1'')) (\<lambda>apps.
     bindE (selectAdminAccessApplication apps) (\<lambda>app.
     let base = ''/accounts/'' @ account @ ''/access/apps/'' @ or_empty (js_get app ''id'') in
     bindE (attempt (cfGet token base)) (\<lambda>r1.
     bindE (attempt (cfGet token (base @ ''/policies''))) (\<lambda>r2.
     bindE (attempt (cfGet token (''/accounts/'' @ account @ ''/access/organizations''))) (\<lambda>r3.
     bindE (result r1) (\<lambda>detail. bindE (result r2) (\<lambda>policies. bindE (result r3) (\<lambda>org.
       if \<not> js_eq (js_get detail ''id'') (js_get app ''id'') \<or> \<not> js_eq (js_get detail ''domain'') (JStr ADMIN_HOST) \<or>
          \<not> js_eq (js_get detail ''aud'') (js_get app ''aud'') \<or> \<not> js_eq (js_get detail ''type'') (js_get app ''type'')
       then fail ''ACCESS_APPLICATION_DETAIL_MISMATCH''
       else policyIdentity detail policies org))))))))"

definition currentAccessSnapshot :: "operator \<Rightarrow> string \<Rightarrow> string \<Rightarrow> bool \<Rightarrow> (string, access) script" where
  "currentAccessSnapshot op token account staged = (if staged then connectedAccessChallenge op else accessSnapshot token account)"

text \<open>\<open>JSON.stringify\<close> of an access snapshot.\<close>

fun access_text :: "access \<Rightarrow> string option" where
  "access_text (Identity email issuer aud) = json_stringify (JObj [(''email'', JStr email), (''issuer'', JStr issuer), (''aud'', aud)])"
| "access_text (Challenged issuer) = json_stringify (JObj [(''issuer'', JStr issuer), (''source'', JStr ''CONNECTED_CLOUDFLARE_ACCESS'')])"

record snapshot =
  sp_accountId :: string
  sp_relayDeployment :: string
  sp_ccDeployment :: string
  sp_access :: access
  sp_connectedAccess :: bool

definition assertAccessUnchanged :: "operator \<Rightarrow> string \<Rightarrow> snapshot \<Rightarrow> (string, unit) script" where
  "assertAccessUnchanged op token s =
     bindE (currentAccessSnapshot op token (sp_accountId s) (sp_connectedAccess s)) (\<lambda>now.
     andE (if sp_connectedAccess s then require (ac_issuer now = ac_issuer (sp_access s)) ''ACCESS_ISSUER_CHANGED''
           else require (access_text now = access_text (sp_access s)) ''ACCESS_POLICY_CHANGED'')
       (denyAnonymous op ADMIN_URL (ac_issuer (sp_access s))))"

section \<open>Preflight\<close>

definition lists_targets :: "jsval \<Rightarrow> bool" where
  "lists_targets scripts = (let found = map (\<lambda>s. if truthy (js_get s ''id'') then js_get s ''id'' else js_get s ''name'') (the_arr scripts) in
     is_JArr scripts \<and> \<not> list_ex nullish (the_arr scripts) \<and> JStr TARGET_RELAY \<in> set found \<and> JStr TARGET_CC \<in> set found)"

primrec account_candidates :: "string \<Rightarrow> jsval list \<Rightarrow> string list \<Rightarrow> (string, string list) script" where
  "account_candidates token [] found = give found"
| "account_candidates token (a # as) found =
     (let i = or_empty (js_get a ''id'') in
      if nullish a then fail TYPE_ERROR
      else if \<not> account_id_ok i then account_candidates token as found
      else bindE (attempt (cfGet token (''/accounts/'' @ i @ ''/workers/scripts''))) (\<lambda>r.
        account_candidates token as (case r of Inl e \<Rightarrow> found | Inr ss \<Rightarrow> if lists_targets ss then found @ [i] else found)))"

definition accountForTargets :: "string \<Rightarrow> (string, string) script" where
  "accountForTargets token = bindE (cfGet token ''/accounts'') (\<lambda>accounts.
     if \<not> is_JArr accounts then fail ''CLOUDFLARE_ACCOUNTS_INVALID''
     else bindE (account_candidates token (the_arr accounts) []) (\<lambda>candidates.
       case candidates of [i] \<Rightarrow> give i | _ \<Rightarrow> fail ''CLOUDFLARE_TARGET_ACCOUNT_AMBIGUOUS''))"

definition RELAY_SECRETS :: "string list" where
  "RELAY_SECRETS = [''BKE_WORKER_GITHUB_APP_ID'', ''BKE_WORKER_GITHUB_APP_PRIVATE_KEY_PEM'', ''BKE_WORKER_GITHUB_WEBHOOK_SECRET'',
     ''BKE_WORKER_RELAY_TOKEN_KEY'']"

definition preflight :: "operator \<Rightarrow> string \<Rightarrow> (string, snapshot) script" where
  "preflight op token =
     bindE (accountForTargets token) (\<lambda>account.
     bindE (attempt (settings token account TARGET_RELAY)) (\<lambda>r1. bindE (attempt (settings token account TARGET_CC)) (\<lambda>r2.
     bindE (attempt (latestDeployment token account TARGET_RELAY)) (\<lambda>r3. bindE (attempt (latestDeployment token account TARGET_CC)) (\<lambda>r4.
     bindE (result r1) (\<lambda>relay. bindE (result r2) (\<lambda>command. bindE (result r3) (\<lambda>relayDeployment. bindE (result r4) (\<lambda>ccDeployment.
     andE (each (\<lambda>n. requireBinding relay n ''secret_text'') RELAY_SECRETS)
     (andE (requireBinding relay ''WORKER_SESSIONS'' ''durable_object_namespace'')
     (andE (requireBinding command ''BKE_ACCESS_POLICY_VERIFIED'' ''secret_text'')
     (andE (requireBinding command ''GITHUB_TOKEN'' ''secret_text'')
     (andE (requireBinding command ''BKE_PREPRODUCTION'' ''plain_text'')
     (bindE (noPriorActivation relay command) (\<lambda>connectedAccess.
      bindE (currentAccessSnapshot op token account connectedAccess) (\<lambda>acc.
      andE (denyAnonymous op ADMIN_URL (ac_issuer acc))
        (give \<lparr>sp_accountId = account, sp_relayDeployment = relayDeployment, sp_ccDeployment = ccDeployment,
           sp_access = acc, sp_connectedAccess = connectedAccess\<rparr>)))))))))))))))))"

section \<open>Changing the targets\<close>

definition verifyTargetChanged :: "string \<Rightarrow> string \<Rightarrow> string \<Rightarrow> string \<Rightarrow> (string, unit) script" where
  "verifyTargetChanged token account name oldId =
     bindE (latestDeployment token account name) (\<lambda>current. require (current \<noteq> oldId) ''DEPLOYMENT_WAS_NOT_PUBLISHED'')"

definition verifyBoundRpc :: "string \<Rightarrow> string \<Rightarrow> (string, unit) script" where
  "verifyBoundRpc token account = bindE (settings token account TARGET_CC) (\<lambda>bindings.
     require (case named ''BKE_GITHUB_READ_BROKER'' bindings of None \<Rightarrow> False
       | Some b \<Rightarrow> js_eq (js_get b ''type'') (JStr ''service'') \<and> js_eq (js_get b ''service'') (JStr TARGET_RELAY) \<and>
           js_eq (js_get b ''entrypoint'') (JStr ''CommandCenterReadBroker''))
       ''ADMIN_PRIVATE_SERVICE_BINDING_NOT_VERIFIED'')"

definition secret_key_ok :: "string \<Rightarrow> bool" where
  "secret_key_ok key \<longleftrightarrow> 2 \<le> length key \<and> is_upper (hd key) \<and> list_all (\<lambda>c. is_upper c \<or> is_digit c \<or> c = CHR ''_'') (tl key)"

definition put_secret :: "string \<Rightarrow> string \<Rightarrow> string \<Rightarrow> act" where
  "put_secret key v cwd = Npx [''secret'', ''put'', key, ''--env'', ''preproduction''] cwd (Some (v @ [CHR 0x0A]))"

definition secretPut :: "string \<Rightarrow> jsval \<Rightarrow> string \<Rightarrow> (string, unit) script" where
  "secretPut key v cwd =
     (if \<not> secret_key_ok key \<or> \<not> is_JStr v \<or> str_or_empty v = [] \<or> CHR 0x0A \<in> set (str_or_empty v)
      then fail ''ADMIN_SECRET_INPUT_INVALID''
      else andE (run_command (put_secret key (str_or_empty v) cwd) ''ADMIN_PREPRODUCTION_SECRET_WRITE_FAILED'') (give ()))"

definition deploy :: "string \<Rightarrow> act" where
  "deploy cwd = Npx [''deploy'', ''--env'', ''preproduction''] cwd None"

section \<open>The whole script\<close>

definition workerRoot :: "operator \<Rightarrow> string" where "workerRoot op = op_resolve op (op_workerArg op)"
definition commandRoot :: "operator \<Rightarrow> string" where "commandRoot op = op_resolve op (op_commandArg op)"
definition relayRoot :: "operator \<Rightarrow> string" where "relayRoot op = op_join op (workerRoot op) ''cloudflare-relay''"

definition commit_ok :: "string \<Rightarrow> bool" where "commit_ok = class_rep is_hex_lower 40 40"

text \<open>\<open>json.slice(json.indexOf("{"))\<close>: without a brace the index is -1, the last character.\<close>

definition from_brace :: "string \<Rightarrow> string" where
  "from_brace s = (case dropWhile (\<lambda>c. c \<noteq> CHR ''{'') s of [] \<Rightarrow> (if s = [] then [] else [last s]) | t \<Rightarrow> t)"

definition wrangler_token :: "operator \<Rightarrow> (string, string) script" where
  "wrangler_token op =
     (let whoami = wrangler [''whoami''] (relayRoot op) None ''WRANGLER_AUTH_UNAVAILABLE'' in
      bindE (attempt whoami) (\<lambda>r.
      andE (case r of Inr out \<Rightarrow> give out | Inl e \<Rightarrow> andE (run_command (Login (relayRoot op)) ''WRANGLER_LOGIN_FAILED'') whoami)
      (bindE (wrangler [''auth'', ''token'', ''--json''] (relayRoot op) None ''WRANGLER_CREDENTIAL_READ_DENIED'') (\<lambda>json.
       case op_parse op (from_brace json) of
         None \<Rightarrow> fail ''WRANGLER_TOKEN_RESPONSE_INVALID''
       | Some auth \<Rightarrow>
           if js_get auth ''type'' \<notin> {JStr ''oauth'', JStr ''api_token''} \<or> str_or_empty (js_get auth ''token'') = []
           then fail ''WRANGLER_TOKEN_MODE_UNSUPPORTED'' else give (str_or_empty (js_get auth ''token''))))))"

definition source_runs :: "operator \<Rightarrow> (act \<times> string) list" where
  "source_runs op =
     [(Npm [''run'', ''check''] (relayRoot op), ''WORKER_RELAY_SOURCE_CHECK_FAILED''),
      (Npm [''ci''] (commandRoot op), ''COMMAND_CENTER_INSTALL_FAILED''),
      (Npm [''test''] (commandRoot op), ''COMMAND_CENTER_TESTS_FAILED''),
      (Npm [''run'', ''check''] (commandRoot op), ''COMMAND_CENTER_SOURCE_CHECK_FAILED''),
      (Npm [''run'', ''cloudflare:dry-run''] (commandRoot op), ''COMMAND_CENTER_PREPRODUCTION_DRY_RUN_FAILED'')]"

text \<open>Everything up to the first change: the token, the snapshot and the two deployments before it.\<close>

definition prepare :: "operator \<Rightarrow> (string, string \<times> snapshot) script" where
  "prepare op =
     andE (require (commit_ok (op_workerSha op) \<and> commit_ok (op_commandSha op) \<and> op_workerArg op \<noteq> [] \<and> op_commandArg op \<noteq> [] \<and> 22 \<le> op_node op)
       ''SOURCE_OR_NODE_VERSION_INVALID'')
     (andE (require (workerRoot op \<noteq> commandRoot op) ''REPOSITORY_IDENTITY_AMBIGUOUS'')
     (bindE (wrangler_token op) (\<lambda>token.
      bindE (preflight op token) (\<lambda>s.
      andE (each (\<lambda>(a, e). andE (run_command a e) (give ())) (source_runs op))
      (bindE (latestDeployment token (sp_accountId s) TARGET_RELAY) (\<lambda>beforeRelay.
       bindE (latestDeployment token (sp_accountId s) TARGET_CC) (\<lambda>beforeCC.
       andE (require (beforeRelay = sp_relayDeployment s \<and> beforeCC = sp_ccDeployment s) ''DEPLOYMENT_BASELINE_CHANGED'')
       (andE (assertAccessUnchanged op token s)
       (andE (checkpoint ''PREFLIGHT_PASS'') (give (token, s)))))))))))"

text \<open>The four phases that change the targets.\<close>

definition deploy_relay :: "operator \<Rightarrow> string \<Rightarrow> snapshot \<Rightarrow> (string, unit) script" where
  "deploy_relay op token s =
     andE (run_command (deploy (relayRoot op)) ''RELAY_DEPLOY_FAILED'')
     (andE (verifyTargetChanged token (sp_accountId s) TARGET_RELAY (sp_relayDeployment s))
       (checkpoint ''RELAY_SOURCE_DEPLOYED''))"

definition enable_relay :: "operator \<Rightarrow> string \<Rightarrow> snapshot \<Rightarrow> (string, unit) script" where
  "enable_relay op token s =
     andE (secretPut ''BKE_ADMIN_BROKER_ENABLED'' (JStr ''true'') (relayRoot op))
     (andE (secretPut ''BKE_ADMIN_REPO_CATALOG_ENABLED'' (JStr ''true'') (relayRoot op))
     (bindE (settings token (sp_accountId s) TARGET_RELAY) (\<lambda>bindings.
      andE (each (\<lambda>n. requireBinding bindings n ''secret_text'') ADMIN_FLAG_NAMES)
        (checkpoint ''RELAY_BROKER_ENABLED''))))"

definition deploy_command :: "operator \<Rightarrow> string \<Rightarrow> snapshot \<Rightarrow> (string, unit) script" where
  "deploy_command op token s =
     bindE (latestDeployment token (sp_accountId s) TARGET_CC) (\<lambda>current.
     andE (require (current = sp_ccDeployment s) ''COMMAND_CENTER_DEPLOYMENT_RACE'')
     (andE (run_command (deploy (commandRoot op)) ''COMMAND_CENTER_DEPLOY_FAILED'')
     (andE (verifyTargetChanged token (sp_accountId s) TARGET_CC (sp_ccDeployment s))
     (andE (verifyBoundRpc token (sp_accountId s))
     (andE (if sp_connectedAccess s
            then bindE (settings token (sp_accountId s) TARGET_CC) (\<lambda>staged. each (\<lambda>n. requireBinding staged n ''secret_text'') CONNECTED_ACCESS_KEYS)
            else give ())
       (checkpoint ''COMMAND_CENTER_SOURCE_AND_PRIVATE_BINDING''))))))"

text \<open>The identity that is written when it was not staged.\<close>

definition identity_secrets :: "snapshot \<Rightarrow> (string \<times> jsval) list" where
  "identity_secrets s =
     (if sp_connectedAccess s then []
      else case sp_access s of
        Identity email issuer aud \<Rightarrow> [(''BKE_ADMIN_ACCESS_ISSUER'', JStr issuer), (''BKE_ADMIN_ACCESS_AUD'', aud), (''BKE_ADMIN_EMAILS'', JStr email)]
      | Challenged issuer \<Rightarrow> [(''BKE_ADMIN_ACCESS_ISSUER'', JStr issuer), (''BKE_ADMIN_ACCESS_AUD'', JUndef), (''BKE_ADMIN_EMAILS'', JUndef)])"

definition configure_identity :: "operator \<Rightarrow> string \<Rightarrow> snapshot \<Rightarrow> (string, unit) script" where
  "configure_identity op token s =
     andE (assertAccessUnchanged op token s)
     (andE (each (\<lambda>(k, v). secretPut k v (commandRoot op)) (identity_secrets s))
     (andE (secretPut ''GITHUB_DISCOVERY_AUTH_MODE'' (JStr ''catalog'') (commandRoot op))
     (andE (secretPut ''BKE_ADMIN_DISCOVERY_ENABLED'' (JStr ''true'') (commandRoot op))
     (bindE (settings token (sp_accountId s) TARGET_CC) (\<lambda>bindings.
      andE (each (\<lambda>n. requireBinding bindings n ''secret_text'') CC_ADMIN_NAMES)
      (andE (verifyBoundRpc token (sp_accountId s))
        (denyAnonymous op ADMIN_URL (ac_issuer (sp_access s)))))))))"

definition activate :: "operator \<Rightarrow> string \<Rightarrow> snapshot \<Rightarrow> (string \<times> string, unit) script" where
  "activate op token s =
     andE (on_error (\<lambda>e. (''RELAY_DEPLOY_STARTED'', e)) (deploy_relay op token s))
     (andE (on_error (\<lambda>e. (''RELAY_FLAGS_STARTED'', e)) (enable_relay op token s))
     (andE (on_error (\<lambda>e. (''COMMAND_CENTER_DEPLOY_STARTED'', e)) (deploy_command op token s))
     (andE (on_error (\<lambda>e. (''ADMIN_IDENTITY_CONFIG_STARTED'', e)) (configure_identity op token s))
       (checkpoint ''OWNER_ACCESS_LOGIN_REQUIRED''))))"

definition start :: "operator \<Rightarrow> (string, unit) script" where
  "start op = bindE (prepare op) (\<lambda>(token, s). bindE (attempt (activate op token s)) (\<lambda>r.
     case r of Inr _ \<Rightarrow> give ()
     | Inl (phase, e) \<Rightarrow> andE (checkpoint (''BLOCKED_AFTER_MUTATION_'' @ phase)) (fail e)))"

section \<open>Commands in order\<close>

text \<open>The commands that check the sources or change a target, with whether they succeeded.\<close>

fun mutates :: "act \<Rightarrow> bool" where
  "mutates (Npx args cwd input) \<longleftrightarrow> take 1 args \<in> {[''deploy''], [''secret'']}"
| "mutates _ \<longleftrightarrow> False"

fun tracked :: "act \<Rightarrow> bool" where
  "tracked (Npm args cwd) \<longleftrightarrow> True"
| "tracked a \<longleftrightarrow> mutates a"

fun succeeded :: "reply \<Rightarrow> bool" where
  "succeeded (Output out) = True"
| "succeeded _ = False"

fun trace :: "world \<Rightarrow> act list \<Rightarrow> act list \<Rightarrow> (act \<times> bool) list" where
  "trace w past [] = []"
| "trace w past (a # as) = (if tracked a then [(a, succeeded (w (past @ [a])))] else []) @ trace w (past @ [a]) as"

lemma trace_append: "trace w past (xs @ ys) = trace w past xs @ trace w (past @ xs) ys"
  by (induction xs arbitrary: past) simp_all

fun is_Inr :: "'e + 'a \<Rightarrow> bool" where
  "is_Inr (Inr x) = True"
| "is_Inr (Inl e) = False"

abbreviation succeeding :: "act list \<Rightarrow> (act \<times> bool) list" where "succeeding \<equiv> map (\<lambda>a. (a, True))"

text \<open>
  A script that succeeds has carried out its plan; one that fails has carried out a part of it, from
  the start and in order, whose last command may have failed.
\<close>

definition progress :: "act list \<Rightarrow> bool \<Rightarrow> (act \<times> bool) list \<Rightarrow> bool" where
  "progress plan done_all tr \<longleftrightarrow>
     (if done_all then tr = succeeding plan
      else (\<exists>k \<le> length plan. tr = succeeding (take k plan)) \<or>
        (\<exists>k < length plan. tr = succeeding (take k plan) @ [(plan ! k, False)]))"

definition performs :: "act list \<Rightarrow> ('e, 'a) script \<Rightarrow> bool" where
  "performs plan m \<longleftrightarrow> (\<forall>w past. \<exists>acts. snd (m w past) = past @ acts \<and> progress plan (is_Inr (fst (m w past))) (trace w past acts))"

lemma progress_none [simp]: "progress [] b tr \<longleftrightarrow> tr = []"
  by (simp add: progress_def)

lemma progress_fails: "progress p False tr \<Longrightarrow> progress (p @ q) False tr"
proof -
  assume "progress p False tr"
  then consider k where "k \<le> length p" "tr = succeeding (take k p)" | k where "k < length p" "tr = succeeding (take k p) @ [(p ! k, False)]"
    by (auto simp: progress_def)
  then show ?thesis
  proof cases
    case 1
    then have "\<exists>k \<le> length (p @ q). tr = succeeding (take k (p @ q))" by (intro exI [of _ k]) simp
    then show ?thesis by (simp add: progress_def)
  next
    case 2
    then have "\<exists>k < length (p @ q). tr = succeeding (take k (p @ q)) @ [((p @ q) ! k, False)]" by (intro exI [of _ k]) (simp add: nth_append)
    then show ?thesis by (simp add: progress_def)
  qed
qed

lemma progress_then: "progress q b tr \<Longrightarrow> progress (p @ q) b (succeeding p @ tr)"
proof (cases b)
  case False
  assume "progress q b tr"
  then consider k where "k \<le> length q" "tr = succeeding (take k q)" | k where "k < length q" "tr = succeeding (take k q) @ [(q ! k, False)]"
    using False by (auto simp: progress_def)
  then show ?thesis
  proof cases
    case 1
    then have "\<exists>k \<le> length (p @ q). succeeding p @ tr = succeeding (take k (p @ q))" by (intro exI [of _ "length p + k"]) simp
    then show ?thesis using False by (simp add: progress_def)
  next
    case 2
    then have "\<exists>k < length (p @ q). succeeding p @ tr = succeeding (take k (p @ q)) @ [((p @ q) ! k, False)]"
      by (intro exI [of _ "length p + k"]) simp
    then show ?thesis using False by (simp add: progress_def)
  qed
qed (simp add: progress_def)

named_theorems performing

lemma performs_give [performing]: "performs [] (give x)"
  by (simp add: performs_def give_def)

lemma performs_fail [performing]: "performs p (fail e)"
  by (auto simp: performs_def fail_def progress_def intro!: exI [of _ "0 :: nat"])

lemma performs_ask: "\<not> tracked a \<Longrightarrow> performs [] (ask a)"
  by (simp add: performs_def ask_def)

lemma performs_bind:
  assumes "performs p m" and "\<And>x. performs q (k x)" shows "performs (p @ q) (bindE m k)"
  unfolding performs_def
proof (intro allI)
  fix w past
  obtain acts where m: "snd (m w past) = past @ acts" "progress p (is_Inr (fst (m w past))) (trace w past acts)"
    using assms(1) unfolding performs_def by blast
  show "\<exists>acts. snd (bindE m k w past) = past @ acts \<and> progress (p @ q) (is_Inr (fst (bindE m k w past))) (trace w past acts)"
  proof (cases "fst (m w past)")
    case (Inl e)
    then have "bindE m k w past = (Inl e, past @ acts)" using m(1) by (cases "m w past") (simp add: bindE_def)
    then show ?thesis using m(2) Inl progress_fails [of p "trace w past acts" q] by auto
  next
    case (Inr x)
    then have eq: "bindE m k w past = k x w (past @ acts)" using m(1) by (cases "m w past") (simp add: bindE_def)
    obtain acts' where k: "snd (k x w (past @ acts)) = (past @ acts) @ acts'"
        "progress q (is_Inr (fst (k x w (past @ acts)))) (trace w (past @ acts) acts')"
      using assms(2) unfolding performs_def by blast
    have "trace w past acts = succeeding p" using m(2) Inr by (simp add: progress_def)
    then show ?thesis using k progress_then [OF k(2), of p] unfolding eq by (intro exI [of _ "acts @ acts'"]) (simp add: trace_append)
  qed
qed

lemma performs_reads [performing]: "performs [] m \<Longrightarrow> (\<And>x. performs q (k x)) \<Longrightarrow> performs q (bindE m k)"
  using performs_bind [of "[]" m q k] by simp

lemma performs_and: "performs p m \<Longrightarrow> performs q n \<Longrightarrow> performs (p @ q) (andE m n)"
  by (simp add: andE_def performs_bind)

lemma performs_and_reads [performing]: "performs [] m \<Longrightarrow> performs q n \<Longrightarrow> performs q (andE m n)"
  using performs_and [of "[]" m q n] by simp

lemma performs_attempt [performing]: assumes "performs [] m" shows "performs [] (attempt m)"
  unfolding performs_def
proof (intro allI)
  fix w past
  obtain acts where "snd (m w past) = past @ acts" "trace w past acts = []"
    using assms unfolding performs_def progress_none by blast
  then show "\<exists>acts. snd (attempt m w past) = past @ acts \<and> progress [] (is_Inr (fst (attempt m w past))) (trace w past acts)"
    by (cases "m w past") (simp add: attempt_def)
qed

lemma performs_on_error: assumes "performs p m" shows "performs p (on_error f m)"
  unfolding performs_def
proof (intro allI)
  fix w past
  obtain acts where m: "snd (m w past) = past @ acts" "progress p (is_Inr (fst (m w past))) (trace w past acts)"
    using assms unfolding performs_def by blast
  obtain r l where "m w past = (r, l)" by fastforce
  then show "\<exists>acts. snd (on_error f m w past) = past @ acts \<and> progress p (is_Inr (fst (on_error f m w past))) (trace w past acts)"
    using m by (cases r) (auto simp: on_error_def)
qed

lemma performs_result [performing]: "performs [] (result r)"
  by (cases r) (simp_all add: performs_give performs_fail)

lemma performs_require [performing]: "performs [] (require b e)"
  by (simp add: require_def performs_give performs_fail)

lemma performs_each [performing]: "(\<And>x. performs [] (f x)) \<Longrightarrow> performs [] (each f xs)"
  by (induction xs) (simp_all add: performing)

lemma performs_case [performing]:
  "performs p m \<Longrightarrow> performs p n \<Longrightarrow> performs p (if b then m else n)"
  "(\<And>e. performs p (f e)) \<Longrightarrow> (\<And>x. performs p (g x)) \<Longrightarrow> performs p (case r of Inl e \<Rightarrow> f e | Inr x \<Rightarrow> g x)"
  "performs p n \<Longrightarrow> (\<And>x. performs p (g x)) \<Longrightarrow> performs p (case v of None \<Rightarrow> n | Some x \<Rightarrow> g x)"
  "(\<And>x y. performs p (h x y)) \<Longrightarrow> performs p (case z of (x, y) \<Rightarrow> h x y)"
  by (auto split: sum.split option.split prod.split)

lemma performs_command: "performs (if tracked a then [a] else []) (run_command a e)"
  unfolding performs_def
proof (intro allI exI conjI)
  fix w past
  show "snd (run_command a e w past) = past @ [a]"
    by (simp add: run_command_def bindE_def ask_def give_def fail_def split: reply.split)
  show "progress (if tracked a then [a] else []) (is_Inr (fst (run_command a e w past))) (trace w past [a])"
    by (cases "w (past @ [a])") (auto simp: run_command_def bindE_def ask_def give_def fail_def progress_def)
qed

section \<open>What each piece performs\<close>

lemma performs_option: "performs p n \<Longrightarrow> (\<And>x. performs p (g x)) \<Longrightarrow> performs p (case v of None \<Rightarrow> n | Some x \<Rightarrow> g x)"
  by (rule performs_case)

lemma performs_ask_untracked [performing]:
  "performs [] (ask (CfGet t p))" "performs [] (ask (Visit u))" "performs [] (ask (Checkpoint ph))" "performs [] (ask (Login d))"
  by (auto intro!: performs_ask)

lemma performs_checkpoint [performing]: "performs [] (checkpoint ph)"
  by (simp add: checkpoint_def performing)

lemma performs_reply [performing]:
  "performs p m \<Longrightarrow> (\<And>x. performs p (f x)) \<Longrightarrow> (\<And>a b c. performs p (g a b c)) \<Longrightarrow>
   performs p (case r of Unavailable \<Rightarrow> m | Output x \<Rightarrow> f x | Http a b c \<Rightarrow> g a b c)"
  by (cases r) auto

lemma performs_js_list [performing]:
  "(\<And>x. performs p (f x)) \<Longrightarrow> performs p n \<Longrightarrow> performs p (case xs of [] \<Rightarrow> n | [x] \<Rightarrow> f x | _ \<Rightarrow> n)"
  by (auto split: list.split)

lemma performs_cfGet [performing]: "performs [] (cfGet token path)"
  unfolding cfGet_def by (intro performing)

lemma performs_latestDeployment [performing]: "performs [] (latestDeployment token account name)"
  unfolding latestDeployment_def
  by (intro performs_reads performing) (auto split: jsval.split list.split intro!: performing)

lemma performs_settings [performing]: "performs [] (settings token account name)"
  unfolding settings_def names_def by (intro performs_reads performing)

lemma performs_requireBinding [performing]: "performs [] (requireBinding found n type)"
  unfolding requireBinding_def by (intro performing)

lemma performs_noPriorActivation [performing]: "performs [] (noPriorActivation relay command)"
  unfolding noPriorActivation_def connectedAccessBootstrap_def Let_def by (intro performing)

lemma performs_visit [performing]: "performs [] (visit u)"
  unfolding visit_def by (intro performing)

lemma performs_denyAnonymous [performing]: "performs [] (denyAnonymous op u issuer)"
  unfolding denyAnonymous_def by (intro performing)

lemma performs_policyIdentity [performing]: "performs [] (policyIdentity app policies org)"
  unfolding policyIdentity_def Let_def by (auto split: jsval.split list.split intro!: performing)

lemma performs_selectApplication [performing]: "performs [] (selectAdminAccessApplication apps)"
  unfolding selectAdminAccessApplication_def by (auto split: list.split intro!: performing)

lemma performs_accessSnapshot [performing]: "performs [] (accessSnapshot token account)"
  unfolding accessSnapshot_def Let_def by (intro performing)

lemma performs_currentAccess [performing]: "performs [] (currentAccessSnapshot op token account staged)"
  unfolding currentAccessSnapshot_def connectedAccessChallenge_def by (intro performing)

lemma performs_assertAccess [performing]: "performs [] (assertAccessUnchanged op token s)"
  unfolding assertAccessUnchanged_def by (intro performing)

lemma performs_candidates [performing]: "performs [] (account_candidates token as found)"
proof (induction as arbitrary: found)
  case (Cons a as)
  then show ?case unfolding account_candidates.simps Let_def by (intro performing Cons)
qed (simp add: performing)

lemma performs_accountForTargets [performing]: "performs [] (accountForTargets token)"
  unfolding accountForTargets_def by (auto split: list.split intro!: performing)

lemma performs_preflight [performing]: "performs [] (preflight op token)"
  unfolding preflight_def by (intro performing)

lemma performs_verify [performing]:
  "performs [] (verifyTargetChanged token account name oldId)" "performs [] (verifyBoundRpc token account)"
  unfolding verifyTargetChanged_def verifyBoundRpc_def by (intro performing)+

lemma performs_untracked_command: "\<not> tracked a \<Longrightarrow> performs [] (run_command a e)"
  using performs_command [of a e] by simp

lemma performs_token [performing]: "performs [] (wrangler_token op)"
  unfolding wrangler_token_def wrangler_def Let_def
  by (intro performing performs_untracked_command) simp_all

lemma performs_tracked_command: "tracked a \<Longrightarrow> performs [a] (run_command a e)"
  using performs_command [of a e] by simp

section \<open>The order of the changes\<close>

text \<open>The commands of each phase, and the phases in order.\<close>

definition phase_plans :: "operator \<Rightarrow> snapshot \<Rightarrow> (string \<times> act list) list" where
  "phase_plans op s =
     [(''RELAY_DEPLOY_STARTED'', [deploy (relayRoot op)]),
      (''RELAY_FLAGS_STARTED'', [put_secret ''BKE_ADMIN_BROKER_ENABLED'' ''true'' (relayRoot op),
         put_secret ''BKE_ADMIN_REPO_CATALOG_ENABLED'' ''true'' (relayRoot op)]),
      (''COMMAND_CENTER_DEPLOY_STARTED'', [deploy (commandRoot op)]),
      (''ADMIN_IDENTITY_CONFIG_STARTED'',
         map (\<lambda>(k, v). put_secret k (str_or_empty v) (commandRoot op)) (identity_secrets s) @
         [put_secret ''GITHUB_DISCOVERY_AUTH_MODE'' ''catalog'' (commandRoot op),
          put_secret ''BKE_ADMIN_DISCOVERY_ENABLED'' ''true'' (commandRoot op)])]"

definition source_plan :: "operator \<Rightarrow> act list" where "source_plan op = map fst (source_runs op)"

lemma tracked_put [simp]: "tracked (put_secret k v d)" "tracked (deploy d)"
  by (simp_all add: put_secret_def deploy_def)

lemma performs_secretPut: "performs [put_secret k (str_or_empty v) d] (secretPut k v d)"
  using performs_and [OF performs_tracked_command [of "put_secret k (str_or_empty v) d"] performs_give]
  by (auto simp: secretPut_def intro: performs_fail)

lemma performs_secretPut_text: "performs [put_secret k v d] (secretPut k (JStr v) d)"
  using performs_secretPut [of k "JStr v" d] by simp

lemma performs_each_command: "(\<And>x. performs [g x] (f x)) \<Longrightarrow> performs (map g xs) (each f xs)"
proof (induction xs)
  case (Cons x xs)
  show ?case using performs_and [OF Cons.prems Cons.IH [OF Cons.prems]] by simp
qed (simp add: performs_give)

lemma performs_each_secret:
  "performs (map (\<lambda>(k, v). put_secret k (str_or_empty v) d) xs) (each (\<lambda>(k, v). secretPut k v d) xs)"
  by (rule performs_each_command) (auto intro: performs_secretPut)

lemma performs_command_phase: "performs p m \<Longrightarrow> (\<And>x. performs [] (k x)) \<Longrightarrow> performs p (bindE m k)"
  using performs_bind [of p m "[]" k] by simp

lemma performs_command_and: "performs p m \<Longrightarrow> performs [] n \<Longrightarrow> performs p (andE m n)"
  using performs_and [of p m "[]" n] by simp

lemma performs_each_run:
  "list_all (\<lambda>(a, e). tracked a) xs \<Longrightarrow> performs (map fst xs) (each (\<lambda>(a, e). andE (run_command a e) (give ())) xs)"
proof (induction xs)
  case (Cons x xs)
  obtain a e where x: "x = (a, e)" by (cases x)
  show ?case
    using performs_and [OF performs_command_and [OF performs_tracked_command [of a e] performs_give] Cons.IH] Cons.prems x by simp
qed (simp add: performs_give)

lemma performs_prepare: "performs (source_plan op) (prepare op)"
proof -
  have checks: "performs (source_plan op) (each (\<lambda>(a, e). andE (run_command a e) (give ())) (source_runs op))"
    unfolding source_plan_def by (rule performs_each_run) (simp add: source_runs_def)
  show ?thesis
    unfolding prepare_def
    by (intro performs_and_reads performs_reads performs_case performs_command_and performs_command_phase checks performing)
qed

lemma performs_deploy_relay: "performs [deploy (relayRoot op)] (deploy_relay op token s)"
  unfolding deploy_relay_def by (intro performs_command_and performs_tracked_command performing) simp_all

lemma performs_enable_relay:
  "performs [put_secret ''BKE_ADMIN_BROKER_ENABLED'' ''true'' (relayRoot op), put_secret ''BKE_ADMIN_REPO_CATALOG_ENABLED'' ''true'' (relayRoot op)]
     (enable_relay op token s)"
proof -
  have rest: "performs [] (bindE (settings token (sp_accountId s) TARGET_RELAY) (\<lambda>bindings.
      andE (each (\<lambda>n. requireBinding bindings n ''secret_text'') ADMIN_FLAG_NAMES) (checkpoint ''RELAY_BROKER_ENABLED'')))"
    by (intro performing)
  show ?thesis
    unfolding enable_relay_def
    using performs_and [OF performs_secretPut_text performs_command_and [OF performs_secretPut_text rest]] by simp
qed

lemma performs_deploy_command: "performs [deploy (commandRoot op)] (deploy_command op token s)"
  unfolding deploy_command_def
  by (intro performs_reads performs_and_reads performs_command_and performs_tracked_command performing) simp_all

lemma performs_configure_identity:
  "performs (map (\<lambda>(k, v). put_secret k (str_or_empty v) (commandRoot op)) (identity_secrets s) @
     [put_secret ''GITHUB_DISCOVERY_AUTH_MODE'' ''catalog'' (commandRoot op),
      put_secret ''BKE_ADMIN_DISCOVERY_ENABLED'' ''true'' (commandRoot op)]) (configure_identity op token s)"
proof -
  have rest: "performs [] (bindE (settings token (sp_accountId s) TARGET_CC) (\<lambda>bindings.
      andE (each (\<lambda>n. requireBinding bindings n ''secret_text'') CC_ADMIN_NAMES)
      (andE (verifyBoundRpc token (sp_accountId s)) (denyAnonymous op ADMIN_URL (ac_issuer (sp_access s))))))"
    by (intro performing)
  have "performs ([] @ (map (\<lambda>(k, v). put_secret k (str_or_empty v) (commandRoot op)) (identity_secrets s) @
     ([put_secret ''GITHUB_DISCOVERY_AUTH_MODE'' ''catalog'' (commandRoot op)] @
      [put_secret ''BKE_ADMIN_DISCOVERY_ENABLED'' ''true'' (commandRoot op)]))) (configure_identity op token s)"
    unfolding configure_identity_def
    by (rule performs_and [OF performs_assertAccess performs_and [OF performs_each_secret
          performs_and [OF performs_secretPut_text performs_command_and [OF performs_secretPut_text rest]]]])
  then show ?thesis by simp
qed

text \<open>A phase that fails names itself.\<close>

definition blocked_at :: "(string \<times> act list) list \<Rightarrow> string \<Rightarrow> (act \<times> bool) list \<Rightarrow> bool" where
  "blocked_at ps phase tr \<longleftrightarrow> (\<exists>i < length ps. fst (ps ! i) = phase \<and>
     (\<exists>t. tr = succeeding (concat (map snd (take i ps))) @ t \<and> progress (snd (ps ! i)) False t))"

text \<open>A phased script succeeds with every command of its phases, or fails in one of them.\<close>

definition phased :: "(string \<times> act list) list \<Rightarrow> (string \<times> string, 'a) script \<Rightarrow> bool" where
  "phased ps m \<longleftrightarrow> (\<forall>w past. \<exists>acts. snd (m w past) = past @ acts \<and>
     (case fst (m w past) of Inr _ \<Rightarrow> trace w past acts = succeeding (concat (map snd ps))
      | Inl (phase, e) \<Rightarrow> blocked_at ps phase (trace w past acts)))"

lemma phased_last: "phased [] (andE (checkpoint ph) (give ()))" 
  by (auto simp: phased_def checkpoint_def andE_def bindE_def ask_def give_def)

lemma phased_checkpoint: "phased [] (checkpoint ph :: (string \<times> string, unit) script)"
  by (auto simp: phased_def checkpoint_def bindE_def ask_def give_def)

lemma phased_next:
  assumes m: "performs p m" and n: "phased ps n"
  shows "phased ((phase, p) # ps) (andE (on_error (\<lambda>e. (phase, e)) m) n)"
  unfolding phased_def
proof (intro allI)
  fix w past
  obtain acts where a: "snd (m w past) = past @ acts" "progress p (is_Inr (fst (m w past))) (trace w past acts)"
    using m unfolding performs_def by blast
  let ?all = "andE (on_error (\<lambda>e. (phase, e)) m) n"
  show "\<exists>acts. snd (?all w past) = past @ acts \<and>
     (case fst (?all w past) of Inr _ \<Rightarrow> trace w past acts = succeeding (concat (map snd ((phase, p) # ps)))
      | Inl (phase', e) \<Rightarrow> blocked_at ((phase, p) # ps) phase' (trace w past acts))"
  proof (cases "fst (m w past)")
    case (Inl e)
    then have eq: "?all w past = (Inl (phase, e), past @ acts)" using a(1) by (cases "m w past") (simp add: andE_def bindE_def on_error_def)
    have "blocked_at ((phase, p) # ps) phase (trace w past acts)"
      unfolding blocked_at_def using a(2) Inl by (intro exI [of _ "0 :: nat"]) simp
    then show ?thesis unfolding eq by simp
  next
    case (Inr x)
    then have eq: "?all w past = n w (past @ acts)" using a(1) by (cases "m w past") (simp add: andE_def bindE_def on_error_def)
    have done_m: "trace w past acts = succeeding p" using a(2) Inr by (simp add: progress_def)
    obtain more where b: "snd (n w (past @ acts)) = (past @ acts) @ more"
        "case fst (n w (past @ acts)) of Inr _ \<Rightarrow> trace w (past @ acts) more = succeeding (concat (map snd ps))
          | Inl (phase, e) \<Rightarrow> blocked_at ps phase (trace w (past @ acts) more)"
      using n unfolding phased_def by blast
    have later: "blocked_at ps ph t \<Longrightarrow> blocked_at ((phase, p) # ps) ph (succeeding p @ t)" for ph t
      unfolding blocked_at_def by (elim exE conjE) (rule_tac x = "Suc i" in exI, simp)
    show ?thesis unfolding eq using b done_m
      by (intro exI [of _ "acts @ more"]) (auto simp: trace_append split: sum.splits prod.splits intro: later)
  qed
qed

lemma phased_activate: "phased (phase_plans op s) (activate op token s)"
  unfolding phase_plans_def activate_def
  by (intro phased_next phased_checkpoint performs_deploy_relay performs_enable_relay performs_deploy_command performs_configure_identity)

section \<open>What the activation guarantees\<close>

lemma start_split:
  "start op w past = (case prepare op w past of (Inl e, l) \<Rightarrow> (Inl e, l)
     | (Inr (token, s), l) \<Rightarrow> (case activate op token s w l of (Inr u, l') \<Rightarrow> (Inr (), l')
        | (Inl (phase, e), l') \<Rightarrow> (Inl e, l' @ [Checkpoint (''BLOCKED_AFTER_MUTATION_'' @ phase)])))"
  by (auto simp: start_def bindE_def attempt_def andE_def checkpoint_def ask_def give_def fail_def split: prod.split sum.split)

lemma blocked_progress: "blocked_at ps phase tr \<Longrightarrow> progress (concat (map snd ps)) False tr"
proof -
  assume "blocked_at ps phase tr"
  then obtain i t where i: "i < length ps" "tr = succeeding (concat (map snd (take i ps))) @ t" "progress (snd (ps ! i)) False t"
    unfolding blocked_at_def by blast
  have "concat (map snd ps) = concat (map snd (take i ps)) @ snd (ps ! i) @ concat (map snd (drop (Suc i) ps))"
    by (subst id_take_nth_drop [OF i(1)]) simp
  then show ?thesis unfolding i(2) by (simp only:) (intro progress_then progress_fails i(3))
qed

text \<open>
  C35: the commands of the activation are made in one order. If the preflight fails, nothing but source
  checks was run: they ran in their order, each only after the one before had succeeded, and no
  target was changed. Otherwise every source check succeeded, and then the targets are changed in
  the planned order: the relay, its two flags, the command center, its identity, and the switch
  that enables discovery last; each command runs only after every one before it has succeeded, and the
  script succeeds only if all of them did.
\<close>

theorem activation_in_order:
  "case start op w [] of (r, done_acts) \<Rightarrow>
     (case fst (prepare op w []) of
        Inl e \<Rightarrow> r = Inl e \<and> progress (source_plan op) False (trace w [] done_acts)
      | Inr (token, s) \<Rightarrow> progress (source_plan op @ concat (map snd (phase_plans op s))) (is_Inr r) (trace w [] done_acts))"
proof -
  obtain acts where p: "snd (prepare op w []) = acts" "progress (source_plan op) (is_Inr (fst (prepare op w []))) (trace w [] acts)"
    using performs_prepare [of op] unfolding performs_def by (metis append_Nil)
  show ?thesis
  proof (cases "fst (prepare op w [])")
    case (Inl e)
    then have "start op w [] = (Inl e, acts)" using p(1) by (cases "prepare op w []") (simp add: start_split)
    then show ?thesis using Inl p(2) by simp
  next
    case (Inr ts)
    obtain token s where ts: "ts = (token, s)" by (cases ts)
    have checked: "trace w [] acts = succeeding (source_plan op)" using p(2) Inr by (simp add: progress_def)
    obtain more where m: "snd (activate op token s w acts) = acts @ more"
        "case fst (activate op token s w acts) of Inr _ \<Rightarrow> trace w acts more = succeeding (concat (map snd (phase_plans op s)))
          | Inl (phase, e) \<Rightarrow> blocked_at (phase_plans op s) phase (trace w acts more)"
      using phased_activate [of op s token] unfolding phased_def by blast
    have prep: "prepare op w [] = (Inr (token, s), acts)" using Inr p(1) ts by (cases "prepare op w []") simp
    show ?thesis
    proof (cases "fst (activate op token s w acts)")
      case (Inl pe)
      obtain phase e where pe: "pe = (phase, e)" by (cases pe)
      have "activate op token s w acts = (Inl (phase, e), acts @ more)" using Inl m(1) pe by (cases "activate op token s w acts") simp
      then have st: "start op w [] = (Inl e, acts @ more @ [Checkpoint (''BLOCKED_AFTER_MUTATION_'' @ phase)])"
        unfolding start_split prep by simp
      have "progress (concat (map snd (phase_plans op s))) False (trace w acts more)" using m(2) Inl pe blocked_progress by simp
      then show ?thesis using progress_then checked unfolding st prep by (simp add: trace_append)
    next
      case (Inr u)
      have "activate op token s w acts = (Inr u, acts @ more)" using Inr m(1) by (cases "activate op token s w acts") simp
      then have st: "start op w [] = (Inr (), acts @ more)" unfolding start_split prep by simp
      show ?thesis using m(2) Inr checked unfolding st prep by (simp add: trace_append progress_def)
    qed
  qed
qed

text \<open>
  C37: a failure after the preflight leaves a truthful checkpoint: the last thing the script does is to
  report the phase that failed, every command of the phases before it has succeeded, and no command of
  a later phase was run.
\<close>

theorem blocked_checkpoint_is_true:
  assumes "prepare op w [] = (Inr (token, s), l)" "start op w [] = (Inl e, done_acts)"
  shows "\<exists>phase before_acts. done_acts = l @ before_acts @ [Checkpoint (''BLOCKED_AFTER_MUTATION_'' @ phase)] \<and>
     blocked_at (phase_plans op s) phase (trace w l before_acts)"
proof -
  obtain more where m: "snd (activate op token s w l) = l @ more"
      "case fst (activate op token s w l) of Inr _ \<Rightarrow> trace w l more = succeeding (concat (map snd (phase_plans op s)))
        | Inl (phase, e) \<Rightarrow> blocked_at (phase_plans op s) phase (trace w l more)"
    using phased_activate [of op s token] unfolding phased_def by blast
  obtain r l' where a: "activate op token s w l = (r, l')" by fastforce
  show ?thesis
  proof (cases r)
    case (Inl pe)
    obtain phase e' where pe: "pe = (phase, e')" by (cases pe)
    have "done_acts = l' @ [Checkpoint (''BLOCKED_AFTER_MUTATION_'' @ phase)]"
      using assms(2) unfolding start_split assms(1) by (simp add: a Inl pe)
    then show ?thesis using m by (simp add: a Inl pe)
  next
    case (Inr u)
    then show ?thesis using assms(2) unfolding start_split assms(1) by (simp add: a)
  qed
qed

section \<open>What success means\<close>

lemma each_requires: "each (\<lambda>n. requireBinding found n type) ns w past = (Inr y, l) \<Longrightarrow> list_all (\<lambda>n. has_type n type found) ns \<and> l = past"
  by (induction ns arbitrary: past) (auto simp: give_Inr andE_Inr requireBinding_def require_Inr)

lemma checkpoint_log: "checkpoint ph w past = (r, l) \<Longrightarrow> l = past @ [Checkpoint ph]"
  by (simp add: checkpoint_def bindE_def ask_def give_def)

lemma cfGet_log: "cfGet token path w past = (r, l) \<Longrightarrow> l = past @ [CfGet token path]"
  by (auto simp: cfGet_def bindE_def ask_def give_def fail_def split: reply.splits option.splits if_splits)

lemma settings_log:
  "settings token account name w past = (Inr b, l) \<Longrightarrow>
   l = past @ [CfGet token (''/accounts/'' @ account @ ''/workers/scripts/'' @ name @ ''/settings'')]"
  by (auto simp: settings_def bindE_Inr names_def give_Inr fail_Inr split: if_splits dest: cfGet_log)

lemma verifyBoundRpc_log:
  "verifyBoundRpc token account w past = (Inr u, l) \<Longrightarrow>
   l = past @ [CfGet token (''/accounts/'' @ account @ ''/workers/scripts/'' @ TARGET_CC @ ''/settings'')]"
  by (auto simp: verifyBoundRpc_def bindE_Inr require_Inr dest: settings_log)

lemma denyAnonymous_log: "denyAnonymous op u issuer w past = (Inr x, l) \<Longrightarrow> l = past @ [Visit u]"
  by (auto simp: denyAnonymous_def visit_def bindE_Inr ask_def require_Inr give_Inr fail_Inr
        split: reply.splits prod.splits option.splits if_splits)

definition cc_settings :: "string \<Rightarrow> snapshot \<Rightarrow> act" where
  "cc_settings token s = CfGet token (''/accounts/'' @ sp_accountId s @ ''/workers/scripts/'' @ TARGET_CC @ ''/settings'')"

text \<open>
  C36: an activation that succeeds was verified after its last change: the script's last four actions
  read the command center's settings, in which all five Admin settings are secrets, read them once more
  and find the private service binding to the relay's read broker, visit the Admin page without
  credentials and are redirected to the access edge's login, and report that the owner must log in.
\<close>

theorem activation_is_verified:
  assumes "start op w [] = (Inr (), done_acts)"
  shows "\<exists>before_acts token s bindings l. fst (prepare op w []) = Inr (token, s) \<and>
     done_acts = before_acts @ [cc_settings token s, cc_settings token s, Visit ADMIN_URL, Checkpoint ''OWNER_ACCESS_LOGIN_REQUIRED''] \<and>
     settings token (sp_accountId s) TARGET_CC w before_acts = (Inr bindings, l) \<and>
     list_all (\<lambda>n. has_type n ''secret_text'' bindings) CC_ADMIN_NAMES \<and>
     fst (verifyBoundRpc token (sp_accountId s) w (before_acts @ [cc_settings token s])) = Inr () \<and>
     fst (denyAnonymous op ADMIN_URL (ac_issuer (sp_access s)) w (before_acts @ [cc_settings token s, cc_settings token s])) = Inr ()"
proof -
  obtain token s l0 where p: "prepare op w [] = (Inr (token, s), l0)" and a: "activate op token s w l0 = (Inr (), done_acts)"
    using assms unfolding start_split by (auto split: prod.splits sum.splits)
  obtain l1 l2 where c: "configure_identity op token s w l1 = (Inr (), l2)" and last_one: "done_acts = l2 @ [Checkpoint ''OWNER_ACCESS_LOGIN_REQUIRED'']"
    using a unfolding activate_def andE_Inr on_error_Inr by (auto dest: checkpoint_log)
  obtain before_acts bindings m1 m2 where
      b: "settings token (sp_accountId s) TARGET_CC w before_acts = (Inr bindings, m1)"
      "list_all (\<lambda>n. has_type n ''secret_text'' bindings) CC_ADMIN_NAMES"
      "verifyBoundRpc token (sp_accountId s) w m1 = (Inr (), m2)"
      "denyAnonymous op ADMIN_URL (ac_issuer (sp_access s)) w m2 = (Inr (), l2)"
    using c unfolding configure_identity_def andE_Inr bindE_Inr by (auto dest!: each_requires)
  have m1: "m1 = before_acts @ [cc_settings token s]" using settings_log [OF b(1)] by (simp add: cc_settings_def)
  have m2: "m2 = before_acts @ [cc_settings token s, cc_settings token s]"
    using verifyBoundRpc_log [OF b(3)] m1 by (simp add: cc_settings_def)
  have l2: "l2 = m2 @ [Visit ADMIN_URL]" by (rule denyAnonymous_log [OF b(4)])
  show ?thesis
    using p b m1 m2 l2 last_one
    by (intro exI [of _ before_acts] exI [of _ token] exI [of _ s] exI [of _ bindings] exI [of _ m1]) simp
qed

section \<open>A run\<close>

text \<open>
  A Cloudflare account with both targets: a deployment's id counts the deployments made, a secret that
  was put is a binding, the Admin page redirects to the team's login.
\<close>

definition sample_op :: operator where
  "sample_op = \<lparr>op_workerArg = ''w'', op_commandArg = ''c'', op_workerSha = replicate 40 CHR ''a'', op_commandSha = replicate 40 CHR ''b'',
     op_node = 22, op_resolve = (\<lambda>s. CHR ''/'' # s), op_join = (\<lambda>a b. a @ CHR ''/'' # b),
     op_parse = (\<lambda>t. if t = ''{}'' then Some (JObj [(''type'', JStr ''oauth''), (''token'', JStr ''t'')]) else None),
     op_url = (\<lambda>t base. Some (if t = ''/cdn-cgi/access/login''
        then \<lparr>pu_protocol = ''https:'', pu_hostname = ''t.cloudflareaccess.com'', pu_pathname = t, pu_origin = ''https://t.cloudflareaccess.com''\<rparr>
        else \<lparr>pu_protocol = ''https:'', pu_hostname = drop 8 t, pu_pathname = ''/'', pu_origin = t\<rparr>))\<rparr>"

definition account_id :: string where "account_id = replicate 32 CHR ''a''"

definition binding :: "string \<Rightarrow> string \<Rightarrow> jsval" where
  "binding n type = JObj [(''name'', JStr n), (''type'', JStr type)]"

fun put_names :: "string \<Rightarrow> act list \<Rightarrow> string list" where
  "put_names cwd [] = []"
| "put_names cwd (Npx (s # p # k # rest) d i # as) = (if s = ''secret'' \<and> d = cwd then [k] else []) @ put_names cwd as"
| "put_names cwd (a # as) = put_names cwd as"

definition relay_bindings :: "act list \<Rightarrow> jsval list" where
  "relay_bindings past = map (\<lambda>n. binding n ''secret_text'') (RELAY_SECRETS @ put_names (relayRoot sample_op) past) @
     [binding ''WORKER_SESSIONS'' ''durable_object_namespace'']"

definition command_bindings :: "act list \<Rightarrow> jsval list" where
  "command_bindings past = map (\<lambda>n. binding n ''secret_text'')
       (CONNECTED_ACCESS_KEYS @ [''BKE_ACCESS_POLICY_VERIFIED'', ''GITHUB_TOKEN''] @ put_names (commandRoot sample_op) past) @
     [binding ''BKE_PREPRODUCTION'' ''plain_text'',
      JObj [(''name'', JStr ''BKE_GITHUB_READ_BROKER''), (''type'', JStr ''service''), (''service'', JStr TARGET_RELAY),
        (''entrypoint'', JStr ''CommandCenterReadBroker'')]]"

definition deployment_id :: "string \<Rightarrow> act list \<Rightarrow> string" where
  "deployment_id cwd past = replicate (length (filter (\<lambda>a. a = deploy cwd) past)) CHR ''x''"

definition answered :: "jsval \<Rightarrow> reply" where
  "answered v = Http 200 (Some (JObj [(''success'', JBool True), (''result'', v)])) None"

definition cf_reply :: "string \<Rightarrow> act list \<Rightarrow> reply" where
  "cf_reply path past = (let scripts = ''/accounts/'' @ account_id @ ''/workers/scripts'' in
     if path = ''/accounts'' then answered (JArr [JObj [(''id'', JStr account_id)]])
     else if path = scripts then answered (JArr [JObj [(''id'', JStr TARGET_RELAY)], JObj [(''id'', JStr TARGET_CC)]])
     else let relay = starts_with path (scripts @ ''/'' @ TARGET_RELAY); cwd = (if relay then relayRoot sample_op else commandRoot sample_op) in
       if last path = CHR ''s'' then answered (JObj [(''bindings'', JArr (if relay then relay_bindings past else command_bindings past))])
       else answered (JObj [(''deployments'', JArr [JObj [(''id'', JStr (deployment_id cwd past))]])]))"

definition sample_world :: world where
  "sample_world past = (case last past of
       CfGet t path \<Rightarrow> cf_reply path past
     | Visit u \<Rightarrow> Http 302 None (Some ''/cdn-cgi/access/login'')
     | _ \<Rightarrow> Output ''{}'')"

text \<open>The same, but the command center cannot be deployed.\<close>

definition blocked_world :: world where
  "blocked_world past = (if last past = deploy (commandRoot sample_op) then Unavailable else sample_world past)"

lemma sample_succeeds: "fst (start sample_op sample_world []) = Inr ()"
  by code_simp

lemma sample_blocks:
  "fst (start sample_op blocked_world []) = Inl ''COMMAND_CENTER_DEPLOY_FAILED''" "\<not> isl (fst (prepare sample_op blocked_world []))"
  by code_simp+

theorem activation_is_verified_witness:
  "\<exists>before_acts token s. snd (start sample_op sample_world []) =
     before_acts @ [cc_settings token s, cc_settings token s, Visit ADMIN_URL, Checkpoint ''OWNER_ACCESS_LOGIN_REQUIRED'']"
proof -
  obtain acts where "start sample_op sample_world [] = (Inr (), acts)"
    using sample_succeeds by (cases "start sample_op sample_world []") auto
  from activation_is_verified [OF this] this show ?thesis by auto
qed

theorem blocked_checkpoint_is_true_witness:
  "\<exists>s l phase before_acts. snd (start sample_op blocked_world []) = l @ before_acts @ [Checkpoint (''BLOCKED_AFTER_MUTATION_'' @ phase)] \<and>
     blocked_at (phase_plans sample_op s) phase (trace blocked_world l before_acts)"
proof -
  obtain acts where st: "start sample_op blocked_world [] = (Inl ''COMMAND_CENTER_DEPLOY_FAILED'', acts)"
    using sample_blocks(1) by (cases "start sample_op blocked_world []") auto
  obtain token s l where p: "prepare sample_op blocked_world [] = (Inr (token, s), l)"
    using sample_blocks(2) by (cases "prepare sample_op blocked_world []"; cases "fst (prepare sample_op blocked_world [])") auto
  from blocked_checkpoint_is_true [OF p st] st show ?thesis by auto
qed

end
