(* ===== verification/HostFiles.thy ===== *)
theory HostFiles imports ExtensionBase Script
begin

text \<open>
  What the two local witnesses of the native host share: requests to the file system and the kernel,
  POSIX paths, and the tests of owners and permissions. The files may change between any two requests.
\<close>

unbundle bit_operations_syntax

section \<open>Requests\<close>

record file_stat =
  st_file :: bool
  st_dir :: bool
  st_link :: bool
  st_uid :: int
  st_mode :: int
  st_size :: int
  st_ino :: int
  st_dev :: int
  st_mtimeMs :: rat
  st_ctimeMs :: rat

text \<open>
  A handle is the one opened last: \<open>OpenFile path nofollow\<close>, its stat, its whole content, the next piece
  of its stream (empty at the end) and its closing. \<open>Now\<close> reads the clock.
\<close>

datatype fs_query =
    Lstat string | Statfs string | Realpath string | ReadText string | Readlink string
  | OpenFile string bool | HandleStat | HandleRead | HandleChunk | HandleClose | Now

datatype fs_reply = Failed | Stat file_stat | Bytes bytes | Text string | Number int | Closed

type_synonym files = "fs_query list \<Rightarrow> fs_reply"

type_synonym 'a host = "(fs_query, fs_reply, unit, 'a) scripted"

definition ask_stat :: "fs_query \<Rightarrow> file_stat host" where
  "ask_stat q = bindE (ask q) (\<lambda>r. case r of Stat st \<Rightarrow> give st | _ \<Rightarrow> fail ())"

definition ask_text :: "fs_query \<Rightarrow> string host" where
  "ask_text q = bindE (ask q) (\<lambda>r. case r of Text t \<Rightarrow> give t | _ \<Rightarrow> fail ())"

definition ask_bytes :: "fs_query \<Rightarrow> bytes host" where
  "ask_bytes q = bindE (ask q) (\<lambda>r. case r of Bytes b \<Rightarrow> give b | _ \<Rightarrow> fail ())"

definition ask_number :: "fs_query \<Rightarrow> int host" where
  "ask_number q = bindE (ask q) (\<lambda>r. case r of Number n \<Rightarrow> give n | _ \<Rightarrow> fail ())"

definition ask_unit :: "fs_query \<Rightarrow> unit host" where
  "ask_unit q = bindE (ask q) (\<lambda>r. if r = Failed then fail () else give ())"

text \<open>\<open>try { m } finally { await h.close() }\<close>.\<close>

definition closing :: "'a host \<Rightarrow> 'a host" where
  "closing m = bindE (attempt m) (\<lambda>r. andE (ask_unit HandleClose) (result r))"

lemma ask_Inr:
  "ask_stat q w past = (Inr st, l) \<longleftrightarrow> w (past @ [q]) = Stat st \<and> l = past @ [q]"
  "ask_text q w past = (Inr t, l) \<longleftrightarrow> w (past @ [q]) = Text t \<and> l = past @ [q]"
  "ask_bytes q w past = (Inr b, l) \<longleftrightarrow> w (past @ [q]) = Bytes b \<and> l = past @ [q]"
  "ask_number q w past = (Inr n, l) \<longleftrightarrow> w (past @ [q]) = Number n \<and> l = past @ [q]"
  "ask_unit q w past = (Inr u, l) \<longleftrightarrow> w (past @ [q]) \<noteq> Failed \<and> l = past @ [q]"
  by (auto simp: ask_stat_def ask_text_def ask_bytes_def ask_number_def ask_unit_def ask_def bindE_def give_def fail_def split: fs_reply.split)

lemma closing_Inr:
  "closing m w past = (Inr x, l) \<longleftrightarrow> (\<exists>l'. m w past = (Inr x, l') \<and> w (l' @ [HandleClose]) \<noteq> Failed \<and> l = l' @ [HandleClose])"
proof -
  obtain r l' where m: "m w past = (r, l')" by fastforce
  show ?thesis by (cases r) (auto simp: closing_def bindE_Inr andE_Inr ask_Inr attempt_def m give_def fail_def)
qed

section \<open>Paths\<close>

fun split_on :: "(char \<Rightarrow> bool) \<Rightarrow> string \<Rightarrow> string list" where
  "split_on p [] = [[]]"
| "split_on p (c # s) = (if p c then [] # split_on p s else (case split_on p s of x # xs \<Rightarrow> (c # x) # xs | [] \<Rightarrow> [[c]]))"

definition is_absolute :: "string \<Rightarrow> bool" where "is_absolute p \<longleftrightarrow> starts_with p ''/''"

text \<open>\<open>path.resolve\<close> of an absolute POSIX path.\<close>

definition resolve_segment :: "string list \<Rightarrow> string \<Rightarrow> string list" where
  "resolve_segment out x = (if x = [] \<or> x = ''.'' then out else if x = ''..'' then butlast out else out @ [x])"

fun join_slash :: "string list \<Rightarrow> string" where
  "join_slash [] = []"
| "join_slash [x] = x"
| "join_slash (x # xs) = x @ CHR ''/'' # join_slash xs"

definition path_resolve :: "string \<Rightarrow> string" where
  "path_resolve p = CHR ''/'' # join_slash (foldl resolve_segment [] (split_on (\<lambda>c. c = CHR ''/'') p))"

text \<open>Its \<open>dirname\<close> and \<open>basename\<close>, of a path without a trailing slash.\<close>

definition path_dirname :: "string \<Rightarrow> string" where
  "path_dirname p = (let d = rev (tl (dropWhile (\<lambda>c. c \<noteq> CHR ''/'') (rev p))) in if d = [] then ''/'' else d)"

definition path_basename :: "string \<Rightarrow> string" where
  "path_basename p = rev (takeWhile (\<lambda>c. c \<noteq> CHR ''/'') (rev p))"

definition canonical :: "jsval \<Rightarrow> bool" where
  "canonical v \<longleftrightarrow> is_JStr v \<and> is_absolute (str_or_empty v) \<and> path_resolve (str_or_empty v) = str_or_empty v \<and>
     CHR 0x00 \<notin> set (str_or_empty v) \<and> \<not> contains (str_or_empty v) ''//''"

text \<open>A mode's bits.\<close>

definition group_or_world_writes :: "int \<Rightarrow> bool" where "group_or_world_writes mode \<longleftrightarrow> mode AND 18 \<noteq> 0"

lemma split_on_not_Nil [simp]: "split_on p s \<noteq> []"
  by (induction s) (auto split: list.split)

lemma split_on_append: "p c \<Longrightarrow> split_on p (x @ c # y) = split_on p x @ split_on p y"
proof (induction x)
  case (Cons d x)
  then show ?case by (cases "split_on p x") auto
qed simp

lemma split_on_none: "\<not> list_ex p s \<Longrightarrow> split_on p s = [s]"
  by (induction s) auto

end
