(* ===== verification/ParentProvenance.thy ===== *)
theory ParentProvenance imports HostFiles RelayHttp
begin

text \<open>
  \<open>browser-extension/native-host/linux-parent-provenance.mjs\<close>: which binary started this host. The host
  reads its own and its parent's entry under /proc, digests the parent's executable between two such
  readings, and compares everything with the owner's pins.
\<close>

section \<open>Entries of /proc\<close>

definition MAX_BINARY :: int where "MAX_BINARY = 536870912"
definition MAX_PROOF_MS :: int where "MAX_PROOF_MS = 15000"
definition PROC_MAGIC :: int where "PROC_MAGIC = 40864"

record proc_stat =
  ps_pid :: int
  ps_ppid :: int
  ps_ticks :: string

text \<open>The part of a text after its last \<open>") "\<close>.\<close>

fun after_last_paren :: "string \<Rightarrow> string option" where
  "after_last_paren [] = None"
| "after_last_paren (c # s) = (case after_last_paren s of Some t \<Rightarrow> Some t
     | None \<Rightarrow> if c = CHR '')'' \<and> starts_with s '' '' then Some (tl s) else None)"

text \<open>\<open>s.trim().split(/\s+/u)\<close> of a text that is not blank.\<close>

definition split_ws :: "string \<Rightarrow> string list" where
  "split_ws s = filter (\<lambda>x. x \<noteq> []) (split_on is_space (js_trim s))"

definition digits :: "string \<Rightarrow> bool" where "digits s \<longleftrightarrow> s \<noteq> [] \<and> list_all is_digit s"

definition number :: "string \<Rightarrow> int" where "number s = int (decimal_digits s)"

definition parseLinuxProcStat :: "string \<Rightarrow> proc_stat option" where
  "parseLinuxProcStat raw =
     (let pid = takeWhile is_digit raw; rest = dropWhile is_digit raw in
      if 8192 < int (length raw) \<or> pid = [] \<or> \<not> starts_with rest '' ('' then None
      else case after_last_paren raw of None \<Rightarrow> None
      | Some t \<Rightarrow>
          (let flds = split_ws t in
           if length flds < 20 \<or> \<not> digits (flds ! 1) \<or> \<not> digits (flds ! 19) \<or>
              \<not> safe_int (number pid) \<or> number pid < 1 \<or> \<not> safe_int (number (flds ! 1)) \<or> number (flds ! 1) < 0 \<or>
              flds ! 0 \<notin> set (map (\<lambda>c. [c]) ''RSDZTWXIKP'')
           then None
           else Some \<lparr>ps_pid = number pid, ps_ppid = number (flds ! 1), ps_ticks = flds ! 19\<rparr>))"

text \<open>\<open>/^Uid:\s+(\d+)\s+(\d+)\s+(\d+)\s+(\d+)\s*$/mu\<close>.\<close>

definition line_end :: "char \<Rightarrow> bool" where "line_end c \<longleftrightarrow> c = CHR 0x0A \<or> c = CHR 0x0D"

primrec spaced_numbers :: "nat \<Rightarrow> string \<Rightarrow> (string list \<times> string) option" where
  "spaced_numbers 0 s = Some ([], s)"
| "spaced_numbers (Suc n) s =
     (let t = dropWhile is_space s; d = takeWhile is_digit t in
      if s = t \<or> d = [] then None
      else map_option (\<lambda>(ds, u). (d # ds, u)) (spaced_numbers n (dropWhile is_digit t)))"

definition uid_line :: "string \<Rightarrow> string list option" where
  "uid_line s = (if \<not> starts_with s ''Uid:'' then None
     else case spaced_numbers 4 (drop 4 s) of None \<Rightarrow> None
     | Some (ds, u) \<Rightarrow> if list_ex line_end (takeWhile is_space u) \<or> dropWhile is_space u = [] then Some ds else None)"

fun find_uid :: "bool \<Rightarrow> string \<Rightarrow> string list option" where
  "find_uid line_start [] = None"
| "find_uid line_start (c # s) = (case (if line_start then uid_line (c # s) else None) of
     Some ds \<Rightarrow> Some ds | None \<Rightarrow> find_uid (line_end c) s)"

definition parseUid :: "string \<Rightarrow> int option" where
  "parseUid status =
     (if 131072 < int (length status) then None
      else case find_uid True status of None \<Rightarrow> None
      | Some ds \<Rightarrow>
          (let nums = map number ds in
           if list_all safe_int nums \<and> list_all (\<lambda>n. n = hd nums) nums then Some (hd nums) else None))"

section \<open>The witness\<close>

record process_info =
  pi_pid :: int
  pi_ppid :: int
  pi_ticks :: string
  pi_uid :: int
  pi_exe :: string

definition proc_path :: "int \<Rightarrow> string \<Rightarrow> string" where
  "proc_path pid leaf = ''/proc/'' @ int_string pid @ leaf"

definition canonical_exe :: "jsval \<Rightarrow> bool" where
  "canonical_exe v \<longleftrightarrow> canonical v \<and> \<not> contains (str_or_empty v) ''/./'' \<and> \<not> contains (str_or_empty v) ''/../''"

definition sourceProcess :: "int \<Rightarrow> process_info host" where
  "sourceProcess pid =
     andE (require (safe_int pid \<and> 1 \<le> pid) ())
     (bindE (ask_text (ReadText (proc_path pid ''/stat''))) (\<lambda>raw.
      case parseLinuxProcStat raw of None \<Rightarrow> fail ()
      | Some st \<Rightarrow>
          andE (require (ps_pid st = pid) ())
          (bindE (ask_text (ReadText (proc_path pid ''/status''))) (\<lambda>status.
           case parseUid status of None \<Rightarrow> fail ()
           | Some uid \<Rightarrow>
               bindE (ask_text (Readlink (proc_path pid ''/exe''))) (\<lambda>exe.
               andE (require (canonical_exe (JStr exe) \<and> \<not> ends_with exe '' (deleted)'') ())
                 (give \<lparr>pi_pid = ps_pid st, pi_ppid = ps_ppid st, pi_ticks = ps_ticks st, pi_uid = uid, pi_exe = exe\<rparr>))))))"

definition sameProcess :: "process_info \<Rightarrow> process_info \<Rightarrow> bool" where
  "sameProcess a b \<longleftrightarrow> pi_pid a = pi_pid b \<and> pi_ppid a = pi_ppid b \<and> pi_ticks a = pi_ticks b \<and> pi_uid a = pi_uid b \<and> pi_exe a = pi_exe b"

primrec trusted_directories :: "nat \<Rightarrow> string \<Rightarrow> int \<Rightarrow> unit host" where
  "trusted_directories 0 d uid = fail ()"
| "trusted_directories (Suc n) d uid = bindE (ask_stat (Lstat d)) (\<lambda>st.
     if \<not> st_dir st \<or> st_link st \<or> (st_uid st \<noteq> 0 \<and> st_uid st \<noteq> uid) \<or> group_or_world_writes (st_mode st) then fail ()
     else if d = ''/'' then give () else trusted_directories n (path_dirname d) uid)"

definition trustedPathDirectories :: "string \<Rightarrow> int \<Rightarrow> unit host" where
  "trustedPathDirectories path uid = trusted_directories 64 (path_dirname path) uid"

text \<open>The stream of the executable: what was read of it, within the size and the time allowed.\<close>

function read_chunks :: "int \<Rightarrow> bytes \<Rightarrow> files \<Rightarrow> fs_query list \<Rightarrow> (unit + bytes) \<times> fs_query list" where
  "read_chunks started got w past = (case w (past @ [HandleChunk]) of
     Bytes b \<Rightarrow>
       (if b = [] then (Inr got, past @ [HandleChunk])
        else if MAX_BINARY < int (length got + length b) then (Inl (), past @ [HandleChunk])
        else case w (past @ [HandleChunk, Now]) of
          Number n \<Rightarrow> if MAX_PROOF_MS < n - started then (Inl (), past @ [HandleChunk, Now])
            else read_chunks started (got @ b) w (past @ [HandleChunk, Now])
        | _ \<Rightarrow> (Inl (), past @ [HandleChunk, Now]))
   | _ \<Rightarrow> (Inl (), past @ [HandleChunk]))"
  by pat_completeness auto
termination
  by (relation "measure (\<lambda>(started, got, w, past). nat (MAX_BINARY - int (length got)))") (auto simp: neq_Nil_conv)

declare read_chunks.simps [simp del]

text \<open>The process: its platform, user, executable and id; SHA-256 in hexadecimal is a parameter.\<close>

record host_env =
  he_linux :: bool
  he_uid :: "int option"
  he_execPath :: string
  he_pid :: int
  he_sha :: "bytes \<Rightarrow> string"

definition runningExeDigest :: "host_env \<Rightarrow> int \<Rightarrow> int \<Rightarrow> int \<Rightarrow> string host" where
  "runningExeDigest env pid uid started =
     andE (ask_unit (OpenFile (proc_path pid ''/exe'') False))
     (closing (bindE (ask_stat HandleStat) (\<lambda>was.
        andE (require (st_file was \<and> 1 \<le> st_size was \<and> st_size was \<le> MAX_BINARY \<and> (st_uid was = uid \<or> st_uid was = 0) \<and>
               \<not> group_or_world_writes (st_mode was) \<and> st_mode was AND 73 \<noteq> 0) ())
        (bindE (read_chunks started []) (\<lambda>content.
         bindE (ask_stat HandleStat) (\<lambda>now_st.
         andE (require (int (length content) = st_size was \<and> st_size now_st = st_size was \<and> st_dev now_st = st_dev was \<and>
                st_ino now_st = st_ino was \<and> st_mtimeMs now_st = st_mtimeMs was \<and> st_ctimeMs now_st = st_ctimeMs was) ())
           (give (he_sha env content))))))))"

record parent_pins =
  pp_browser :: jsval
  pp_sha :: jsval
  pp_host :: jsval
  pp_uid :: jsval

definition pins_ok :: "host_env \<Rightarrow> parent_pins \<Rightarrow> bool" where
  "pins_ok env pins \<longleftrightarrow> he_linux env \<and> he_uid env \<noteq> None \<and> canonical_exe (pp_browser pins) \<and> canonical_exe (pp_host pins) \<and>
     validHash (pp_sha pins) \<and> is_safe_integer (pp_uid pins) \<and> he_uid env = Some (the_int (pp_uid pins))"

definition parent_matched :: jsval where
  "parent_matched = JObj [(''state'', JStr ''NATIVE_PARENT_EXECUTABLE_MATCHED''), (''browser_session_authority'', JStr ''NONE''),
     (''profile_authority'', JStr ''NONE''), (''device_admission_authority'', JStr ''NONE''), (''dispatch_authority'', JStr ''NONE'')]"

definition witnessLinuxImmediateBrowserParent :: "host_env \<Rightarrow> parent_pins \<Rightarrow> jsval host" where
  "witnessLinuxImmediateBrowserParent env pins =
     (let browser = str_or_empty (pp_browser pins); host_path = str_or_empty (pp_host pins); uid = the_int (pp_uid pins) in
      andE (require (pins_ok env pins) ())
      (bindE (ask_number Now) (\<lambda>started.
       bindE (ask_number (Statfs ''/proc'')) (\<lambda>magic.
       andE (require (magic = PROC_MAGIC) ())
       (bindE (ask_text (Realpath (he_execPath env))) (\<lambda>own.
        andE (require (host_path = own) ())
        (bindE (ask_text (Realpath browser)) (\<lambda>real.
         andE (require (browser = real) ())
         (andE (trustedPathDirectories browser uid)
         (bindE (sourceProcess (he_pid env)) (\<lambda>self.
          andE (require (pi_uid self = uid \<and> pi_exe self = host_path \<and> 2 \<le> pi_ppid self \<and> pi_ppid self \<noteq> pi_pid self) ())
          (bindE (sourceProcess (pi_ppid self)) (\<lambda>parent.
           andE (require (pi_uid parent = uid \<and> pi_exe parent = browser \<and> pi_ppid parent \<noteq> pi_pid parent) ())
           (bindE (runningExeDigest env (pi_pid parent) uid started) (\<lambda>dig.
            andE (require (JStr dig = pp_sha pins) ())
            (bindE (sourceProcess (pi_pid parent)) (\<lambda>afterParent.
             bindE (sourceProcess (he_pid env)) (\<lambda>afterSelf.
             andE (require (sameProcess parent afterParent \<and> sameProcess self afterSelf) ())
             (bindE (ask_number Now) (\<lambda>ended.
              andE (require (ended - started \<le> MAX_PROOF_MS) ()) (give parent_matched)))))))))))))))))))))"

section \<open>A process cannot forge its entry\<close>

lemma digit_val_char: "(n :: nat) < 10 \<Longrightarrow> digit_val (char_of (48 + n)) = n"
  using is_digit_char_of [of n] by (simp add: digit_val_def code_def)

lemma decimal_digits_of: "decimal_digits (digits_of n) = n"
proof (induction n rule: digits_of.induct)
  case (1 n)
  show ?case
  proof (cases "n < 10")
    case True
    then show ?thesis by (subst digits_of.simps) (simp add: decimal_digits_def digit_val_char)
  next
    case False
    then show ?thesis using 1 by (subst digits_of.simps) (simp add: decimal_digits_def digit_val_char)
  qed
qed

lemma number_int_string: "0 \<le> n \<Longrightarrow> number (int_string n) = n"
  by (simp add: number_def int_string_def decimal_digits_of)

lemma digits_int_string: "0 \<le> n \<Longrightarrow> digits (int_string n)"
  using int_string_digits by (auto simp: digits_def int_string_def digits_of_nonempty)

lemma no_last_paren: "CHR '')'' \<notin> set s \<Longrightarrow> after_last_paren s = None"
  by (induction s) auto

lemma last_paren: "CHR '')'' \<notin> set t \<Longrightarrow> after_last_paren (x @ CHR '')'' # CHR '' '' # t) = Some t"
proof (induction x)
  case Nil
  then show ?case by (simp add: no_last_paren starts_with_def)
next
  case (Cons c x)
  then show ?case by simp
qed

text \<open>The blanks at the ends do not matter when a text is split at blanks.\<close>

abbreviation blank_parts :: "string \<Rightarrow> string list" where "blank_parts s \<equiv> filter (\<lambda>x. x \<noteq> []) (split_on is_space s)"

lemma parts_blank_front: "blank_parts (dropWhile is_space s) = blank_parts s"
  by (induction s) auto

lemma parts_blank_end: "list_all is_space u \<Longrightarrow> blank_parts (s @ u) = blank_parts s"
proof (induction u)
  case (Cons c u)
  have "blank_parts (c # u) = []" using Cons.prems by (induction u arbitrary: c) auto
  then show ?case using Cons.prems by (simp add: split_on_append)
qed simp

lemma split_ws_parts: "split_ws s = blank_parts s"
proof -
  let ?t = "dropWhile is_space s"
  define u where "u = rev (takeWhile is_space (rev ?t))"
  have "?t = js_trim s @ u" unfolding js_trim_def u_def by (metis rev_append rev_rev_ident takeWhile_dropWhile_id)
  moreover have "list_all is_space u" unfolding u_def by (simp add: list_all_iff) (meson set_takeWhileD)
  ultimately have "blank_parts ?t = blank_parts (js_trim s)" by (simp add: parts_blank_end)
  then show ?thesis by (simp add: split_ws_def parts_blank_front)
qed

fun join_blank :: "string list \<Rightarrow> string" where
  "join_blank [] = []"
| "join_blank [x] = x"
| "join_blank (x # xs) = x @ CHR '' '' # join_blank xs"

lemma join_blank_Cons: "xs \<noteq> [] \<Longrightarrow> join_blank (x # xs) = x @ CHR '' '' # join_blank xs"
  by (cases xs) simp_all

lemma blank_space: "is_space CHR '' ''" "is_space CHR 0x0A"
  by code_simp+

lemma parts_joined: "list_all (\<lambda>f. f \<noteq> [] \<and> \<not> list_ex is_space f) xs \<Longrightarrow> blank_parts (join_blank xs) = xs"
  by (induction xs rule: join_blank.induct) (auto simp: split_on_none split_on_append blank_space)

lemma no_paren_joined: "list_all (\<lambda>f. CHR '')'' \<notin> set f) xs \<Longrightarrow> CHR '')'' \<notin> set (join_blank xs)"
  by (induction xs rule: join_blank.induct) auto

text \<open>
  C38: a process cannot forge its own entry through its name. Whatever a process has named itself,
  brackets, blanks, line ends and whole made-up entries included, the entry that the kernel writes for
  it (its number, its name in brackets, its state, its parent's number and the other fields)
  is read with the number, the parent and the start time that the kernel wrote.
\<close>

theorem stat_name_cannot_forge:
  assumes "20 \<le> length fs" and "list_all (\<lambda>f. f \<noteq> [] \<and> \<not> list_ex is_space f \<and> CHR '')'' \<notin> set f) fs"
    and "fs ! 0 \<in> set (map (\<lambda>c. [c]) ''RSDZTWXIKP'')" and "fs ! 1 = int_string ppid" "0 \<le> ppid" "safe_int ppid" and "digits (fs ! 19)"
    and "1 \<le> pid" "safe_int pid"
    and "raw = int_string pid @ '' ('' @ name @ '') '' @ join_blank fs @ [CHR 0x0A]" and "length raw \<le> 8192"
  shows "parseLinuxProcStat raw = Some \<lparr>ps_pid = pid, ps_ppid = ppid, ps_ticks = fs ! 19\<rparr>"
proof -
  have pid: "takeWhile is_digit raw = int_string pid" "dropWhile is_digit raw = '' ('' @ name @ '') '' @ join_blank fs @ [CHR 0x0A]"
    using int_string_digits [of pid] assms(8) unfolding assms(10)
    by (simp_all add: list_all_iff takeWhile_append2 dropWhile_append2 char_class_defs)
  have paren: "CHR '')'' \<notin> set (join_blank fs @ [CHR 0x0A])"
    using assms(2) no_paren_joined [of fs] by (simp add: list_all_iff)
  have "after_last_paren raw = after_last_paren ((int_string pid @ '' ('' @ name) @ CHR '')'' # CHR '' '' # (join_blank fs @ [CHR 0x0A]))"
    unfolding assms(10) by simp
  then have rest: "after_last_paren raw = Some (join_blank fs @ [CHR 0x0A])"
    by (simp only: last_paren [OF paren])
  have "list_all (\<lambda>f. f \<noteq> [] \<and> \<not> list_ex is_space f) fs" using assms(2) by (auto simp: list_all_iff)
  then have flds: "split_ws (join_blank fs @ [CHR 0x0A]) = fs"
    using parts_blank_end [of "[CHR 0x0A]" "join_blank fs"] parts_joined [of fs] by (simp add: split_ws_parts blank_space)
  have ne: "int_string pid \<noteq> []" using digits_int_string [of pid] assms(8) by (simp add: digits_def)
  have sw: "starts_with ('' ('' @ t) '' (''" for t by (simp add: starts_with_def)
  show ?thesis
    unfolding parseLinuxProcStat_def Let_def pid rest option.case flds
    using assms(1,3-9,11) ne number_int_string [of pid] number_int_string [of ppid] digits_int_string [of ppid] sw by simp
qed

theorem stat_name_cannot_forge_witness:
  "parseLinuxProcStat (''42 (x) S 1 (y) S 7 '' @ join_blank (replicate 17 ''0'' @ [''99'']) @ [CHR 0x0A]) =
     Some \<lparr>ps_pid = 42, ps_ppid = 7, ps_ticks = ''99''\<rparr>"
proof -
  let ?fs = "[''S'', ''7''] @ replicate 17 ''0'' @ [''99'']"
  have n: "int_string 42 = ''42''" "int_string 7 = ''7''" by code_simp+
  have fs: "list_all (\<lambda>f. f \<noteq> [] \<and> \<not> list_ex is_space f \<and> CHR '')'' \<notin> set f) ?fs" "digits (?fs ! 19)" "?fs ! 19 = ''99''"
    "?fs ! 0 = ''S''" by code_simp+
  have len: "length (''42 (x) S 1 (y) S 7 '' @ join_blank (replicate 17 ''0'' @ [''99'']) @ [CHR 0x0A]) \<le> 8192" by code_simp
  have raw: "''42 (x) S 1 (y) S 7 '' @ join_blank (replicate 17 ''0'' @ [''99'']) @ [CHR 0x0A] =
      int_string 42 @ '' ('' @ ''x) S 1 (y'' @ '') '' @ join_blank ?fs @ [CHR 0x0A]"
    by (simp add: n join_blank_Cons)
  show ?thesis
    using stat_name_cannot_forge [OF _ fs(1) _ _ _ _ fs(2) _ _ raw len, of 7] fs n by (simp add: safe_int_def max_safe_def)
qed

section \<open>What a match says\<close>

lemma option_Inr: "(case v of None \<Rightarrow> fail e | Some y \<Rightarrow> k y) w past = (Inr x, l) \<longleftrightarrow> (\<exists>y. v = Some y \<and> k y w past = (Inr x, l))"
  by (cases v) (simp_all add: fail_Inr)

lemma if_Inr: "(if b then m else n) w past = (Inr x, l) \<longleftrightarrow> (b \<and> m w past = (Inr x, l)) \<or> (\<not> b \<and> n w past = (Inr x, l))"
  by simp

lemmas host_Inr = bindE_Inr andE_Inr give_Inr fail_Inr require_Inr ask_Inr closing_Inr option_Inr

text \<open>The bytes that the stream of the opened file delivered in a part of the log.\<close>

fun streamed :: "files \<Rightarrow> fs_query list \<Rightarrow> fs_query list \<Rightarrow> bytes" where
  "streamed w past [] = []"
| "streamed w past (q # qs) = (case (q, w (past @ [q])) of (HandleChunk, Bytes b) \<Rightarrow> b | _ \<Rightarrow> []) @ streamed w (past @ [q]) qs"

lemma streamed_append: "streamed w past (xs @ ys) = streamed w past xs @ streamed w (past @ xs) ys"
  by (induction xs arbitrary: past) simp_all

lemma chunks_streamed:
  "read_chunks started got w past = (Inr content, l) \<Longrightarrow> \<exists>qs. l = past @ qs \<and> content = got @ streamed w past qs"
proof (induction started got w past rule: read_chunks.induct)
  case (1 started got w past)
  from "1.prems" obtain b where b: "w (past @ [HandleChunk]) = Bytes b" by (subst (asm) read_chunks.simps) (auto split: fs_reply.splits)
  show ?case
  proof (cases "b = []")
    case True
    then have "content = got" "l = past @ [HandleChunk]" using "1.prems" b by (subst (asm) read_chunks.simps, simp)+
    then show ?thesis using b True by (intro exI [of _ "[HandleChunk]"]) simp
  next
    case False
    from "1.prems" b False have small: "\<not> MAX_BINARY < int (length got + length b)" by (subst (asm) read_chunks.simps) (auto split: if_splits)
    from "1.prems" b False small obtain n where n: "w (past @ [HandleChunk, Now]) = Number n"
      by (subst (asm) read_chunks.simps) (auto split: fs_reply.splits)
    from "1.prems" b False small n have t: "\<not> MAX_PROOF_MS < n - started" by (subst (asm) read_chunks.simps) (auto split: if_splits)
    from "1.prems" b False small n t have "read_chunks started (got @ b) w (past @ [HandleChunk, Now]) = (Inr content, l)"
      by (subst (asm) read_chunks.simps) simp
    from "1.IH" [OF b False small n t this] obtain qs where
      "l = (past @ [HandleChunk, Now]) @ qs" "content = (got @ b) @ streamed w (past @ [HandleChunk, Now]) qs" by blast
    then show ?thesis using b n by (intro exI [of _ "HandleChunk # Now # qs"]) simp
  qed
qed

lemma digest_streamed:
  assumes "runningExeDigest env pid uid started w past = (Inr dig, l)"
  shows "\<exists>qs. l = past @ OpenFile (proc_path pid ''/exe'') False # qs \<and> dig = he_sha env (streamed w past (OpenFile (proc_path pid ''/exe'') False # qs))"
proof -
  from assms obtain was now_st content m where
      a: "w (past @ [OpenFile (proc_path pid ''/exe'') False, HandleStat]) = Stat was"
      and c: "read_chunks started [] w (past @ [OpenFile (proc_path pid ''/exe'') False, HandleStat]) = (Inr content, m)"
      and l: "w (m @ [HandleStat]) = Stat now_st" "l = m @ [HandleStat, HandleClose]" "dig = he_sha env content"
    unfolding runningExeDigest_def by (auto simp: host_Inr)
  from chunks_streamed [OF c] obtain qs where
    "m = past @ [OpenFile (proc_path pid ''/exe'') False, HandleStat] @ qs"
    "content = streamed w (past @ [OpenFile (proc_path pid ''/exe'') False, HandleStat]) qs" by auto
  then show ?thesis using l a by (intro exI [of _ "HandleStat # qs @ [HandleStat, HandleClose]"]) (simp add: streamed_append)
qed

lemma source_process_pid: "sourceProcess pid w past = (Inr p, l) \<Longrightarrow> pi_pid p = pid"
  by (auto simp: sourceProcess_def host_Inr)

text \<open>
  C39: a parent is reported as matched only for one and the same pair of processes, this one and its
  parent. Both were read before and after the digest with the same number, parent, start
  time, owner and executable, so the parent's number did not pass to another process meanwhile; this
  process was found to be the host's pinned executable and its parent the browser's pinned one, both
  owned by the expected user; and what the parent's executable, opened through the kernel's link
  between the two readings, delivered has the pinned digest.
\<close>

theorem matched_parent_is_pinned:
  assumes "witnessLinuxImmediateBrowserParent env pins w [] = (Inr v, l)"
  shows "\<exists>self parent l0 l1 l2 l3 l4 l5 qs.
     sourceProcess (he_pid env) w l0 = (Inr self, l1) \<and> sourceProcess (pi_ppid self) w l1 = (Inr parent, l2) \<and>
     l3 = l2 @ qs \<and> hd qs = OpenFile (proc_path (pi_pid parent) ''/exe'') False \<and> pp_sha pins = JStr (he_sha env (streamed w l2 qs)) \<and>
     sourceProcess (pi_ppid self) w l3 = (Inr parent, l4) \<and> sourceProcess (he_pid env) w l4 = (Inr self, l5) \<and>
     l = l5 @ [Now] \<and> pi_pid parent = pi_ppid self \<and>
     pp_host pins = JStr (pi_exe self) \<and> pp_browser pins = JStr (pi_exe parent) \<and>
     pp_uid pins = JInt (pi_uid self) \<and> pp_uid pins = JInt (pi_uid parent) \<and> he_uid env = Some (pi_uid self) \<and> v = parent_matched"
proof -
  have same: "sameProcess a b \<longleftrightarrow> a = b" for a b :: process_info
    by (cases a; cases b) (simp add: sameProcess_def)
  from assms obtain self parent started l0 l1 l2 l3 l4 l5 dig where
      ok: "pins_ok env pins"
      and p: "sourceProcess (he_pid env) w l0 = (Inr self, l1)" "sourceProcess (pi_ppid self) w l1 = (Inr parent, l2)"
        "runningExeDigest env (pi_pid parent) (the_int (pp_uid pins)) started w l2 = (Inr dig, l3)"
        "sourceProcess (pi_pid parent) w l3 = (Inr parent, l4)" "sourceProcess (he_pid env) w l4 = (Inr self, l5)"
      and e: "pi_uid self = the_int (pp_uid pins)" "pi_exe self = str_or_empty (pp_host pins)" "pi_uid parent = the_int (pp_uid pins)"
        "pi_exe parent = str_or_empty (pp_browser pins)" "JStr dig = pp_sha pins" "l = l5 @ [Now]" "v = parent_matched"
    unfolding witnessLinuxImmediateBrowserParent_def Let_def host_Inr same by blast
  have num: "pi_pid parent = pi_ppid self" using source_process_pid [OF p(2)] .
  obtain qs where qs: "l3 = l2 @ OpenFile (proc_path (pi_pid parent) ''/exe'') False # qs"
      "dig = he_sha env (streamed w l2 (OpenFile (proc_path (pi_pid parent) ''/exe'') False # qs))"
    using digest_streamed [OF p(3)] by blast
  have "pp_host pins = JStr (str_or_empty (pp_host pins)) \<and> pp_browser pins = JStr (str_or_empty (pp_browser pins)) \<and>
      pp_uid pins = JInt (the_int (pp_uid pins)) \<and> he_uid env = Some (the_int (pp_uid pins))"
    using ok by (auto simp: pins_ok_def canonical_exe_def canonical_def js_simps)
  then have pinned: "pp_host pins = JStr (pi_exe self)" "pp_browser pins = JStr (pi_exe parent)" "pp_uid pins = JInt (pi_uid self)"
      "pp_uid pins = JInt (pi_uid parent)" "he_uid env = Some (pi_uid self)"
    using e(1-4) by argo+
  have digest: "pp_sha pins = JStr (he_sha env (streamed w l2 (OpenFile (proc_path (pi_pid parent) ''/exe'') False # qs)))"
    using e(5) qs(2) by simp
  show ?thesis
    by (intro exI conjI, rule p(1), rule p(2), rule qs(1), simp, rule digest, use p(4) num in simp, rule p(5), rule e(6), rule num)
      (rule pinned e(7))+
qed

text \<open>A host started by a browser of one byte.\<close>

definition sample_entry :: "string \<Rightarrow> string \<Rightarrow> string" where
  "sample_entry own parent = own @ '' (x) S '' @ parent @ '' '' @ join_blank (replicate 17 ''0'' @ [''99'']) @ [CHR 0x0A]"

definition sample_stat :: file_stat where
  "sample_stat = \<lparr>st_file = True, st_dir = True, st_link = False, st_uid = 0, st_mode = 493, st_size = 1, st_ino = 1, st_dev = 1,
     st_mtimeMs = 0, st_ctimeMs = 0\<rparr>"

definition sample_files :: files where
  "sample_files past = (case last past of
       Now \<Rightarrow> Number 0
     | Statfs p \<Rightarrow> Number 40864
     | Realpath p \<Rightarrow> Text p
     | ReadText p \<Rightarrow> Text (if p = ''/proc/9/stat'' then sample_entry ''9'' ''7'' else if p = ''/proc/7/stat'' then sample_entry ''7'' ''1''
         else ''Uid: 5 5 5 5'')
     | Readlink p \<Rightarrow> Text (if p = ''/proc/9/exe'' then ''/h'' else ''/b'')
     | HandleChunk \<Rightarrow> Bytes (if length (filter (\<lambda>q. q = HandleChunk) past) = 1 then ''b'' else [])
     | HandleClose \<Rightarrow> Closed
     | OpenFile p nofollow \<Rightarrow> Closed
     | _ \<Rightarrow> Stat sample_stat)"

definition sample_host_env :: host_env where
  "sample_host_env = \<lparr>he_linux = True, he_uid = Some 5, he_execPath = ''/h'', he_pid = 9, he_sha = (\<lambda>b. concat (replicate 64 b))\<rparr>"

definition sample_pins :: parent_pins where
  "sample_pins = \<lparr>pp_browser = JStr ''/b'', pp_sha = JStr (replicate 64 CHR ''b''), pp_host = JStr ''/h'', pp_uid = JInt 5\<rparr>"

lemma sample_matches: "fst (witnessLinuxImmediateBrowserParent sample_host_env sample_pins sample_files []) = Inr parent_matched"
  by code_simp

theorem matched_parent_is_pinned_witness:
  "\<exists>l0 l1 self. sourceProcess 9 sample_files l0 = (Inr self, l1) \<and> JStr (pi_exe self) = JStr ''/h'' \<and> JInt (pi_uid self) = JInt 5"
proof -
  obtain l where "witnessLinuxImmediateBrowserParent sample_host_env sample_pins sample_files [] = (Inr parent_matched, l)"
    using sample_matches by (metis prod.collapse)
  from matched_parent_is_pinned [OF this] show ?thesis by (fastforce simp: sample_host_env_def sample_pins_def)
qed

end
