(* ===== verification/InstallationWitness.thy ===== *)
theory InstallationWitness imports HostFiles NativePolicy
begin

text \<open>
  \<open>browser-extension/native-host/installation-witness.mjs\<close>: the bytes of an installed native host,
  compared with digests the owner has reviewed. Every file is read through one handle, between two
  looks at its path and its directories.
\<close>

section \<open>Reading a file\<close>

primrec safe_parents :: "nat \<Rightarrow> string \<Rightarrow> int \<Rightarrow> unit host" where
  "safe_parents 0 d uid = fail ()"
| "safe_parents (Suc n) d uid = bindE (ask_stat (Lstat d)) (\<lambda>st.
     if \<not> st_dir st \<or> st_link st \<or> (st_uid st \<noteq> uid \<and> st_uid st \<noteq> 0) then fail ()
     else if group_or_world_writes (st_mode st) \<and> \<not> (st_uid st = 0 \<and> st_mode st AND 512 \<noteq> 0 \<and> st_mode st AND 2 \<noteq> 0) then fail ()
     else if d = ''/'' then give () else safe_parents n (path_dirname d) uid)"

definition parentsAreSafe :: "string \<Rightarrow> int \<Rightarrow> unit host" where
  "parentsAreSafe p uid = safe_parents 48 (path_dirname p) uid"

text \<open>
  The process and the owner's configuration. SHA-256 in hexadecimal and \<open>JSON.parse\<close> of bytes read as
  UTF-8 are parameters; \<open>iv_nofollow\<close> is whether the platform has \<open>O_NOFOLLOW\<close>.
\<close>

record install_env =
  iv_uid :: "int option"
  iv_nofollow :: bool
  iv_sha :: "bytes \<Rightarrow> string"
  iv_parse :: "bytes \<Rightarrow> jsval option"

record install_opts =
  io_manifestPath :: jsval
  io_statePath :: jsval
  io_expectedOrigin :: jsval
  io_expectedWorkerId :: jsval
  io_reviewed :: jsval
  io_uid :: jsval

text \<open>A regular file of the owner's that nobody else may write, and of an admitted size.\<close>

definition owned_file :: "int \<Rightarrow> int \<Rightarrow> bool \<Rightarrow> file_stat \<Rightarrow> bool" where
  "owned_file limit uid executable st \<longleftrightarrow> st_file st \<and> st_uid st = uid \<and> \<not> group_or_world_writes (st_mode st) \<and>
     (\<not> executable \<or> st_mode st AND 64 \<noteq> 0) \<and> 1 \<le> st_size st \<and> st_size st \<le> limit"

definition safeRead :: "install_env \<Rightarrow> jsval \<Rightarrow> int \<Rightarrow> int \<Rightarrow> bool \<Rightarrow> bytes host" where
  "safeRead env path limit uid executable =
     (let p = str_or_empty path in
      andE (require (canonical path) ())
      (andE (parentsAreSafe p uid)
      (bindE (ask_stat (Lstat p)) (\<lambda>was.
       andE (require (owned_file limit uid executable was \<and> \<not> st_link was \<and> iv_nofollow env) ())
       (andE (ask_unit (OpenFile p True))
       (closing (bindE (ask_stat HandleStat) (\<lambda>st.
          andE (require (owned_file limit uid executable st \<and> st_ino st = st_ino was \<and> st_dev st = st_dev was) ())
          (bindE (ask_bytes HandleRead) (\<lambda>content.
           andE (require (int (length content) = st_size st) ())
           (bindE (ask_stat (Lstat p)) (\<lambda>later.
            andE (require (st_file later \<and> st_ino later = st_ino st \<and> st_dev later = st_dev st \<and> st_size later = st_size st \<and>
                   st_mtimeMs later = st_mtimeMs st \<and> st_ctimeMs later = st_ctimeMs st) ())
            (andE (parentsAreSafe p uid) (give content))))))))))))))"

definition parse_json :: "install_env \<Rightarrow> bytes \<Rightarrow> jsval host" where
  "parse_json env b = (case iv_parse env b of None \<Rightarrow> fail () | Some v \<Rightarrow> give v)"

section \<open>The installation\<close>

definition HOST_NAME :: string where "HOST_NAME = ''bke.worker.desktop''"

definition STATE_FIELDS :: "string list" where
  "STATE_FIELDS = [''created_by'', ''entry'', ''framing_module'', ''host'', ''host_module'', ''launcher'', ''manifest'', ''origin'', ''policy'',
     ''sha256'', ''version'']"

definition HASH_FIELDS :: "string list" where
  "HASH_FIELDS = [''entry'', ''framing'', ''host'', ''launcher'', ''manifest'', ''policy'']"

definition MANIFEST_FIELDS :: "string list" where
  "MANIFEST_FIELDS = [''allowed_origins'', ''description'', ''name'', ''path'', ''type'']"

definition install_opts_ok :: "install_env \<Rightarrow> install_opts \<Rightarrow> bool" where
  "install_opts_ok env opts \<longleftrightarrow> canonical (io_manifestPath opts) \<and> canonical (io_statePath opts) \<and>
     str_re origin_re (io_expectedOrigin opts) \<and> str_re worker_id_re (io_expectedWorkerId opts) \<and>
     is_safe_integer (io_uid opts) \<and> iv_uid env = Some (the_int (io_uid opts)) \<and>
     exact_joined (io_reviewed opts) HASH_FIELDS \<and> list_all validHash (js_values (io_reviewed opts))"

definition state_ok :: "install_opts \<Rightarrow> jsval \<Rightarrow> bool" where
  "state_ok opts st \<longleftrightarrow> exact_joined st STATE_FIELDS \<and> js_eq (js_get st ''version'') (JInt 1) \<and> js_eq (js_get st ''host'') (JStr HOST_NAME) \<and>
     js_eq (js_get st ''created_by'') (JStr ''prepare-chrome-native-host.sh'') \<and> js_eq (js_get st ''manifest'') (io_manifestPath opts) \<and>
     js_eq (js_get st ''origin'') (io_expectedOrigin opts) \<and> exact_joined (js_get st ''sha256'') HASH_FIELDS"

definition installed_names :: "(string \<times> string) list" where
  "installed_names = [(''launcher'', ''launch-native-host.sh''), (''entry'', ''entry.mjs''), (''host'', ''host.mjs''), (''framing'', ''framing.mjs''),
     (''policy'', ''owner-policy.json'')]"

definition installed_paths :: "install_opts \<Rightarrow> jsval \<Rightarrow> (string \<times> jsval) list" where
  "installed_paths opts st =
     [(''manifest'', io_manifestPath opts), (''launcher'', js_get st ''launcher''), (''entry'', js_get st ''entry''),
      (''host'', js_get st ''host_module''), (''framing'', js_get st ''framing_module''), (''policy'', js_get st ''policy'')]"

definition path_of :: "install_opts \<Rightarrow> jsval \<Rightarrow> string \<Rightarrow> jsval" where
  "path_of opts st k = (case map_of (installed_paths opts st) k of None \<Rightarrow> JUndef | Some p \<Rightarrow> p)"

definition paths_ok :: "install_opts \<Rightarrow> jsval \<Rightarrow> bool" where
  "paths_ok opts st \<longleftrightarrow> is_JStr (js_get st ''launcher'') \<and>
     list_all (\<lambda>(k, n). canonical (path_of opts st k) \<and>
       path_dirname (str_or_empty (path_of opts st k)) = path_dirname (str_or_empty (js_get st ''launcher'')) \<and>
       path_basename (str_or_empty (path_of opts st k)) = n) installed_names"

primrec read_installed :: "install_env \<Rightarrow> install_opts \<Rightarrow> jsval \<Rightarrow> (string \<times> jsval) list \<Rightarrow> (string \<times> bytes) list host" where
  "read_installed env opts st [] = give []"
| "read_installed env opts st (kp # ps) =
     bindE (safeRead env (snd kp) (if fst kp = ''policy'' then 4096 else 16384) (the_int (io_uid opts)) (fst kp = ''launcher'')) (\<lambda>b.
     andE (require (js_eq (js_get (js_get st ''sha256'') (fst kp)) (JStr (iv_sha env b)) \<and>
            js_eq (js_get (io_reviewed opts) (fst kp)) (JStr (iv_sha env b))) ())
     (bindE (read_installed env opts st ps) (\<lambda>rest. give ((fst kp, b) # rest))))"

definition content_of :: "(string \<times> bytes) list \<Rightarrow> string \<Rightarrow> bytes" where
  "content_of contents k = (case map_of contents k of None \<Rightarrow> [] | Some b \<Rightarrow> b)"

definition manifest_ok :: "install_opts \<Rightarrow> jsval \<Rightarrow> jsval \<Rightarrow> bool" where
  "manifest_ok opts st manifest \<longleftrightarrow> exact_joined manifest MANIFEST_FIELDS \<and> js_eq (js_get manifest ''name'') (JStr HOST_NAME) \<and>
     js_eq (js_get manifest ''description'') (JStr ''BKE Worker local native host (source-only preparation)'') \<and>
     js_eq (js_get manifest ''type'') (JStr ''stdio'') \<and> js_eq (js_get manifest ''path'') (js_get st ''launcher'') \<and>
     (case js_get manifest ''allowed_origins'' of JArr [origin] \<Rightarrow> js_eq origin (io_expectedOrigin opts) | _ \<Rightarrow> False)"

definition installation_verified :: "install_opts \<Rightarrow> jsval" where
  "installation_verified opts = JObj [(''state'', JStr ''INSTALLATION_BYTES_VERIFIED''), (''host'', JStr HOST_NAME),
     (''worker_id'', io_expectedWorkerId opts), (''browser_session_authority'', JStr ''NONE''), (''device_admission_authority'', JStr ''NONE''),
     (''dispatch_authority'', JStr ''NONE'')]"

definition verifyOwnerPinnedChromeInstallation :: "install_env \<Rightarrow> install_opts \<Rightarrow> jsval host" where
  "verifyOwnerPinnedChromeInstallation env opts =
     andE (require (install_opts_ok env opts) ())
     (bindE (safeRead env (io_statePath opts) 8192 (the_int (io_uid opts)) False) (\<lambda>b.
      bindE (parse_json env b) (\<lambda>st.
      andE (require (state_ok opts st \<and> paths_ok opts st) ())
      (bindE (read_installed env opts st (installed_paths opts st)) (\<lambda>contents.
       bindE (parse_json env (content_of contents ''manifest'')) (\<lambda>manifest.
       andE (require (manifest_ok opts st manifest) ())
       (bindE (parse_json env (content_of contents ''policy'')) (\<lambda>policy.
        bindE (ask_number Now) (\<lambda>moment.
        andE (require (validNativeHostPolicy policy moment \<and> js_eq (js_get policy ''worker_id'') (io_expectedWorkerId opts) \<and>
               js_eq (js_get policy ''allowed_origin'') (io_expectedOrigin opts)) ())
          (give (installation_verified opts)))))))))))"

section \<open>What a verified installation is\<close>

text \<open>
  Bytes that were read in a run, whose requests are \<open>l\<close>, from a handle: it was opened without following a
  link at its path, was a regular file of the owner's that nobody else may write, was still the file that
  the path named after the read, and was read whole.
\<close>

definition read_from :: "files \<Rightarrow> fs_query list \<Rightarrow> string \<Rightarrow> int \<Rightarrow> int \<Rightarrow> bool \<Rightarrow> bytes \<Rightarrow> bool" where
  "read_from w l p limit uid executable b \<longleftrightarrow> (\<exists>m rest st later.
     l = m @ [OpenFile p True, HandleStat, HandleRead, Lstat p] @ rest \<and> w (m @ [OpenFile p True]) \<noteq> Failed \<and>
     w (m @ [OpenFile p True, HandleStat]) = Stat st \<and> owned_file limit uid executable st \<and>
     w (m @ [OpenFile p True, HandleStat, HandleRead]) = Bytes b \<and> int (length b) = st_size st \<and>
     w (m @ [OpenFile p True, HandleStat, HandleRead, Lstat p]) = Stat later \<and>
     (st_ino later, st_dev later, st_size later, st_mtimeMs later, st_ctimeMs later) =
     (st_ino st, st_dev st, st_size st, st_mtimeMs st, st_ctimeMs st))"

lemma read_from_later: "read_from w l p limit uid executable b \<Longrightarrow> read_from w (l @ further) p limit uid executable b"
proof -
  assume "read_from w l p limit uid executable b"
  then obtain m rest st later where r: "l = m @ [OpenFile p True, HandleStat, HandleRead, Lstat p] @ rest"
    "w (m @ [OpenFile p True]) \<noteq> Failed" "w (m @ [OpenFile p True, HandleStat]) = Stat st" "owned_file limit uid executable st"
    "w (m @ [OpenFile p True, HandleStat, HandleRead]) = Bytes b" "int (length b) = st_size st"
    "w (m @ [OpenFile p True, HandleStat, HandleRead, Lstat p]) = Stat later"
    "(st_ino later, st_dev later, st_size later, st_mtimeMs later, st_ctimeMs later) =
     (st_ino st, st_dev st, st_size st, st_mtimeMs st, st_ctimeMs st)"
    unfolding read_from_def by blast
  then have "l @ further = m @ [OpenFile p True, HandleStat, HandleRead, Lstat p] @ (rest @ further)" by simp
  with r(2-) show ?thesis unfolding read_from_def by blast
qed

lemma safe_parents_grows: "safe_parents n d uid w past = (Inr u, l) \<Longrightarrow> \<exists>more. l = past @ more"
proof (induction n arbitrary: d past)
  case (Suc n)
  from Suc.prems obtain st where "l = past @ [Lstat d] \<or> safe_parents n (path_dirname d) uid w (past @ [Lstat d]) = (Inr u, l)"
    by (auto simp: bindE_Inr ask_Inr give_Inr fail_Inr split: if_splits)
  then show ?case using Suc.IH by fastforce
qed (simp add: fail_Inr)

lemma safeRead_reads:
  assumes "safeRead env path limit uid executable w past = (Inr b, l)"
  shows "canonical path \<and> read_from w l (str_or_empty path) limit uid executable b \<and> (\<exists>more. l = past @ more)"
proof -
  let ?p = "str_or_empty path"
  from assms obtain l1 st later l2 u v where
      before: "parentsAreSafe ?p uid w past = (Inr u, l1)" and c: "canonical path"
      and opened: "w ((l1 @ [Lstat ?p]) @ [OpenFile ?p True]) \<noteq> Failed"
      and st: "w ((l1 @ [Lstat ?p]) @ [OpenFile ?p True, HandleStat]) = Stat st" "owned_file limit uid executable st"
      and content: "w ((l1 @ [Lstat ?p]) @ [OpenFile ?p True, HandleStat, HandleRead]) = Bytes b" "int (length b) = st_size st"
      and later: "w ((l1 @ [Lstat ?p]) @ [OpenFile ?p True, HandleStat, HandleRead, Lstat ?p]) = Stat later"
        "st_ino later = st_ino st" "st_dev later = st_dev st" "st_size later = st_size st" "st_mtimeMs later = st_mtimeMs st" "st_ctimeMs later = st_ctimeMs st"
      and after: "parentsAreSafe ?p uid w ((l1 @ [Lstat ?p]) @ [OpenFile ?p True, HandleStat, HandleRead, Lstat ?p]) = (Inr v, l2)"
        "l = l2 @ [HandleClose]"
    unfolding safeRead_def Let_def by (auto simp: bindE_Inr andE_Inr give_Inr require_Inr ask_Inr closing_Inr)
  obtain m1 where m1: "l1 = past @ m1" using safe_parents_grows [OF before [unfolded parentsAreSafe_def]] by blast
  obtain m2 where m2: "l2 = ((l1 @ [Lstat ?p]) @ [OpenFile ?p True, HandleStat, HandleRead, Lstat ?p]) @ m2"
    using safe_parents_grows [OF after(1) [unfolded parentsAreSafe_def]] by blast
  have l: "l = (l1 @ [Lstat ?p]) @ [OpenFile ?p True, HandleStat, HandleRead, Lstat ?p] @ (m2 @ [HandleClose])"
    unfolding after(2) m2 by simp
  have "read_from w l ?p limit uid executable b"
    unfolding read_from_def
    by (rule exI [of _ "l1 @ [Lstat ?p]"], rule exI [of _ "m2 @ [HandleClose]"], rule exI [of _ st], rule exI [of _ later])
      (intro conjI l opened st content later(1), simp add: later)
  then show ?thesis using c l m1 by auto
qed

lemma read_installed_reads:
  assumes "read_installed env opts st ps w past = (Inr contents, l)"
  shows "map fst contents = map fst ps \<and>
    list_all (\<lambda>(k, b). js_get (js_get st ''sha256'') k = JStr (iv_sha env b) \<and> js_get (io_reviewed opts) k = JStr (iv_sha env b)) contents \<and>
    list_all2 (\<lambda>(k, p) (k', b). canonical p \<and>
      read_from w l (str_or_empty p) (if k = ''policy'' then 4096 else 16384) (the_int (io_uid opts)) (k = ''launcher'') b) ps contents \<and>
    (\<exists>more. l = past @ more)"
  using assms
proof (induction ps arbitrary: past contents l)
  case (Cons kp ps)
  obtain k p where kp: "kp = (k, p)" by (cases kp)
  from Cons.prems obtain b l1 rest where
      r: "safeRead env p (if k = ''policy'' then 4096 else 16384) (the_int (io_uid opts)) (k = ''launcher'') w past = (Inr b, l1)"
      and h: "js_get (js_get st ''sha256'') k = JStr (iv_sha env b)" "js_get (io_reviewed opts) k = JStr (iv_sha env b)"
      and t: "read_installed env opts st ps w l1 = (Inr rest, l)" and c: "contents = (k, b) # rest"
    unfolding kp by (auto simp: bindE_Inr andE_Inr give_Inr require_Inr)
  note one = safeRead_reads [OF r] and others = Cons.IH [OF t]
  obtain more where more: "l = l1 @ more" using others by blast
  have "read_from w l (str_or_empty p) (if k = ''policy'' then 4096 else 16384) (the_int (io_uid opts)) (k = ''launcher'') b"
    unfolding more by (rule read_from_later) (use one in blast)
  then show ?case using one h others unfolding kp c by auto
qed (simp add: give_Inr)

text \<open>
  C40: an installation is reported as verified only when the installer's state file and every one of the six
  files was read in that run, whole, from a regular file that only the owner may write and that the path
  still named after the read, and the digest of each of the six is both the one recorded in that state
  file and the one the owner reviewed; the manifest among them starts exactly the launcher that the
  state file names and admits exactly the expected extension; and the policy among them is valid at the
  clock's reading at the end of the run, for the expected worker and extension.
\<close>

theorem verified_installation_is_reviewed:
  assumes "verifyOwnerPinnedChromeInstallation env opts w [] = (Inr v, l)"
  shows "\<exists>state st contents manifest policy moment.
     read_from w l (str_or_empty (io_statePath opts)) 8192 (the_int (io_uid opts)) False state \<and> iv_parse env state = Some st \<and>
     map fst contents = [''manifest'', ''launcher'', ''entry'', ''host'', ''framing'', ''policy''] \<and>
     list_all (\<lambda>(k, b). js_get (js_get st ''sha256'') k = JStr (iv_sha env b) \<and> js_get (io_reviewed opts) k = JStr (iv_sha env b)) contents \<and>
     list_all2 (\<lambda>(k, p) (k', b). canonical p \<and>
       read_from w l (str_or_empty p) (if k = ''policy'' then 4096 else 16384) (the_int (io_uid opts)) (k = ''launcher'') b)
       (installed_paths opts st) contents \<and>
     iv_uid env = Some (the_int (io_uid opts)) \<and>
     iv_parse env (content_of contents ''manifest'') = Some manifest \<and> js_get manifest ''path'' = js_get st ''launcher'' \<and>
     js_get manifest ''allowed_origins'' = JArr [io_expectedOrigin opts] \<and>
     iv_parse env (content_of contents ''policy'') = Some policy \<and>
     last l = Now \<and> w l = Number moment \<and> validNativeHostPolicy policy moment \<and>
     js_get policy ''worker_id'' = io_expectedWorkerId opts \<and> js_get policy ''allowed_origin'' = io_expectedOrigin opts \<and>
     v = installation_verified opts"
proof -
  have parse: "parse_json env b w past = (Inr x, l') \<longleftrightarrow> iv_parse env b = Some x \<and> l' = past" for b past x l'
    by (auto simp: parse_json_def give_Inr fail_Inr split: option.split)
  from assms obtain state st contents manifest policy moment l1 l2 where
      o: "install_opts_ok env opts"
      and f: "safeRead env (io_statePath opts) 8192 (the_int (io_uid opts)) False w [] = (Inr state, l1)" "iv_parse env state = Some st"
      and r: "read_installed env opts st (installed_paths opts st) w l1 = (Inr contents, l2)"
      and m: "iv_parse env (content_of contents ''manifest'') = Some manifest" "manifest_ok opts st manifest"
      and p: "iv_parse env (content_of contents ''policy'') = Some policy" "validNativeHostPolicy policy moment"
        "js_eq (js_get policy ''worker_id'') (io_expectedWorkerId opts)" "js_eq (js_get policy ''allowed_origin'') (io_expectedOrigin opts)"
      and now: "w (l2 @ [Now]) = Number moment" "l = l2 @ [Now]" and v: "v = installation_verified opts"
    unfolding verifyOwnerPinnedChromeInstallation_def
    by (simp add: bindE_Inr andE_Inr give_Inr require_Inr ask_Inr parse) blast
  note reads = read_installed_reads [OF r]
  obtain more where more: "l2 = l1 @ more" using reads by blast
  have state: "read_from w l (str_or_empty (io_statePath opts)) 8192 (the_int (io_uid opts)) False state"
    unfolding now(2) more append_assoc by (rule read_from_later) (use safeRead_reads [OF f(1)] in blast)
  have names: "map fst contents = [''manifest'', ''launcher'', ''entry'', ''host'', ''framing'', ''policy'']"
    using reads by (simp add: installed_paths_def)
  have six: "list_all2 (\<lambda>(k, p) (k', b). canonical p \<and>
       read_from w l (str_or_empty p) (if k = ''policy'' then 4096 else 16384) (the_int (io_uid opts)) (k = ''launcher'') b)
       (installed_paths opts st) contents"
    unfolding now(2) by (rule list_all2_mono [OF conjunct1 [OF conjunct2 [OF conjunct2 [OF reads]]]]) (auto intro: read_from_later)
  have origins: "js_get manifest ''allowed_origins'' = JArr [io_expectedOrigin opts]" "js_get manifest ''path'' = js_get st ''launcher''"
    using m(2) by (auto simp: manifest_ok_def split: jsval.splits list.splits dest: js_eq_eq)
  have uid: "iv_uid env = Some (the_int (io_uid opts))" using o by (simp add: install_opts_ok_def)
  have clock: "last l = Now" "w l = Number moment" using now by simp_all
  show ?thesis
    by (intro exI conjI, rule state, rule f(2), rule names, rule conjunct1 [OF conjunct2 [OF reads]], rule six, rule uid, rule m(1),
      rule origins(2), rule origins(1), rule p(1), rule clock(1), rule clock(2), rule p(2), rule js_eq_eq [OF p(3)], rule js_eq_eq [OF p(4)], rule v)
qed

text \<open>An installation under /i.\<close>

definition sample_extension :: jsval where "sample_extension = js_get (sample_policy JNull) ''allowed_origin''"

definition sample_digest :: jsval where "sample_digest = JStr (replicate 64 CHR ''a'')"

definition sample_digests :: jsval where "sample_digests = JObj (map (\<lambda>k. (k, sample_digest)) HASH_FIELDS)"

definition sample_state :: jsval where
  "sample_state = JObj [(''created_by'', JStr ''prepare-chrome-native-host.sh''), (''entry'', JStr ''/i/entry.mjs''),
     (''framing_module'', JStr ''/i/framing.mjs''), (''host'', JStr HOST_NAME), (''host_module'', JStr ''/i/host.mjs''),
     (''launcher'', JStr ''/i/launch-native-host.sh''), (''manifest'', JStr ''/m''), (''origin'', sample_extension),
     (''policy'', JStr ''/i/owner-policy.json''), (''sha256'', sample_digests), (''version'', JInt 1)]"

definition sample_manifest :: jsval where
  "sample_manifest = JObj [(''allowed_origins'', JArr [sample_extension]),
     (''description'', JStr ''BKE Worker local native host (source-only preparation)''), (''name'', JStr HOST_NAME),
     (''path'', JStr ''/i/launch-native-host.sh''), (''type'', JStr ''stdio'')]"

definition sample_install_env :: install_env where
  "sample_install_env = \<lparr>iv_uid = Some 5, iv_nofollow = True, iv_sha = (\<lambda>b. replicate 64 CHR ''a''),
     iv_parse = (\<lambda>b. if b = ''s'' then Some sample_state else if b = ''m'' then Some sample_manifest
        else if b = ''y'' then Some (sample_policy (JStr (replicate 64 CHR ''b''))) else None)\<rparr>"

definition sample_install_opts :: install_opts where
  "sample_install_opts = \<lparr>io_manifestPath = JStr ''/m'', io_statePath = JStr ''/s'', io_expectedOrigin = sample_extension,
     io_expectedWorkerId = js_get (sample_policy JNull) ''worker_id'', io_reviewed = sample_digests, io_uid = JInt 5\<rparr>"

text \<open>The file opened last. Every file has one byte.\<close>

fun opened_path :: "fs_query list \<Rightarrow> string" where
  "opened_path [] = []"
| "opened_path (q # qs) = (case opened_path qs of [] \<Rightarrow> (case q of OpenFile p b \<Rightarrow> p | _ \<Rightarrow> []) | p \<Rightarrow> p)"

definition sample_owned :: "bool \<Rightarrow> file_stat" where
  "sample_owned dir = \<lparr>st_file = \<not> dir, st_dir = dir, st_link = False, st_uid = 5, st_mode = 448, st_size = 1, st_ino = 1, st_dev = 1,
     st_mtimeMs = 0, st_ctimeMs = 0\<rparr>"

definition sample_disk :: files where
  "sample_disk past = (case last past of
       Lstat p \<Rightarrow> Stat (sample_owned (p = ''/'' \<or> p = ''/i''))
     | HandleStat \<Rightarrow> Stat (sample_owned False)
     | HandleRead \<Rightarrow> (let p = opened_path past in
         Bytes (if p = ''/m'' then ''m'' else if p = ''/s'' then ''s'' else if p = ''/i/owner-policy.json'' then ''y'' else ''x''))
     | Now \<Rightarrow> Number 1000
     | _ \<Rightarrow> Closed)"

lemma sample_installation_verifies: "isl (fst (verifyOwnerPinnedChromeInstallation sample_install_env sample_install_opts sample_disk [])) = False"
  by code_simp

theorem verified_installation_is_reviewed_witness:
  "\<exists>contents policy. iv_parse sample_install_env (content_of contents ''policy'') = Some policy \<and>
     js_get policy ''allowed_origin'' = sample_extension \<and>
     fst (verifyOwnerPinnedChromeInstallation sample_install_env sample_install_opts sample_disk []) = Inr (installation_verified sample_install_opts)"
proof -
  obtain v l where "verifyOwnerPinnedChromeInstallation sample_install_env sample_install_opts sample_disk [] = (Inr v, l)"
    using sample_installation_verifies by (metis isl_def prod.collapse sum.collapse(2) sum.disc(2))
  from verified_installation_is_reviewed [OF this] this show ?thesis by (auto simp: sample_install_opts_def)
qed

end
