(* ===== verification/ExtensionPages.thy ===== *)
theory ExtensionPages imports ExtensionProtocol JsonFacts
begin

text \<open>
  The extension's two pages. \<open>browser-extension/src/content-script.ts\<close> reports what a ChatGPT page shows;
  \<open>browser-extension/src/popup.ts\<close> is the owner's popup. Each is a state that events change: what
  \<open>document.querySelector\<close> finds, the timers and the answers of the background script come with the
  events.
\<close>

section \<open>The content script\<close>

text \<open>A page as the script sees it: \<open>pg_found\<close> tells which selectors match.\<close>

record page =
  pg_url :: string
  pg_visible :: bool
  pg_found :: "string \<Rightarrow> bool"

definition quoted :: "string \<Rightarrow> string" where "quoted s = CHR 0x22 # s @ [CHR 0x22]"

definition findComposer :: "page \<Rightarrow> bool" where
  "findComposer pg \<longleftrightarrow> list_ex (pg_found pg)
     [''[data-testid='' @ quoted ''prompt-textarea'' @ '']'',
      ''textarea[placeholder*='' @ quoted ''Message'' @ '']'',
      ''[contenteditable='' @ quoted ''true'' @ ''][role='' @ quoted ''textbox'' @ '']'',
      ''[contenteditable='' @ quoted ''true'' @ '']'']"

definition isTurnBusy :: "page \<Rightarrow> bool" where
  "isTurnBusy pg \<longleftrightarrow> list_ex (pg_found pg)
     [''[data-testid='' @ quoted ''stop-button'' @ '']'', ''button[aria-label*='' @ quoted ''Stop'' @ '']'']"

definition page_snapshot :: "page \<Rightarrow> string \<Rightarrow> jsval" where
  "page_snapshot pg time = JObj [(''protocolVersion'', JInt 1), (''observedAt'', JStr time), (''url'', JStr (pg_url pg)),
     (''visible'', JBool (pg_visible pg)), (''composerAvailable'', JBool (findComposer pg)), (''turnBusy'', JBool (isTurnBusy pg))]"

definition stable_text :: "jsval \<Rightarrow> string" where
  "stable_text current = (case json_stringify (JObj [(''url'', js_get current ''url''), (''visible'', js_get current ''visible''),
      (''composerAvailable'', js_get current ''composerAvailable''), (''turnBusy'', js_get current ''turnBusy'')]) of
     None \<Rightarrow> [] | Some t \<Rightarrow> t)"

text \<open>\<open>ct_timer\<close>: a debounced report is due; \<open>ct_sent\<close> lists the messages given to the extension.\<close>

record content =
  ct_timer :: bool
  ct_last :: string
  ct_sent :: "jsval list"

definition fresh_content :: content where "fresh_content = \<lparr>ct_timer = False, ct_last = [], ct_sent = []\<rparr>"

definition status_message :: "jsval \<Rightarrow> jsval" where
  "status_message current = JObj [(''type'', JStr ''bke.chatgpt.status''), (''payload'', current)]"

text \<open>A message that fails is not sent again: the text is recorded before.\<close>

definition report :: "bool \<Rightarrow> page \<Rightarrow> string \<Rightarrow> content \<Rightarrow> content" where
  "report force pg time s =
     (let current = page_snapshot pg time; stable = stable_text current in
      if \<not> force \<and> stable = ct_last s then s
      else s\<lparr>ct_last := stable, ct_sent := ct_sent s @ [status_message current]\<rparr>)"

text \<open>
  A mutation, the debounce timer, the periodic one, an event of the window (visibility, focus, history)
  and a message of the extension. Each but the first sees the page and the time.
\<close>

datatype content_event = Mutated | Debounced page string | Periodic page string | Window page string | Received jsval page string

fun content_step :: "content_event \<Rightarrow> content \<Rightarrow> content" where
  "content_step Mutated s = s\<lparr>ct_timer := True\<rparr>"
| "content_step (Debounced pg time) s = (if ct_timer s then report False pg time (s\<lparr>ct_timer := False\<rparr>) else s)"
| "content_step (Periodic pg time) s = report False pg time s"
| "content_step (Window pg time) s = report True pg time s"
| "content_step (Received message pg time) s =
     (if is_reference message \<and> js_eq (js_get message ''type'') (JStr ''bke.chatgpt.probe'') then report True pg time s else s)"

text \<open>The script starts with a report.\<close>

definition content_run :: "page \<Rightarrow> string \<Rightarrow> content_event list \<Rightarrow> content" where
  "content_run pg time evs = fold content_step evs (report True pg time fresh_content)"

section \<open>What it reports\<close>

text \<open>What a message says of the page.\<close>

definition depicts :: "jsval \<Rightarrow> page \<Rightarrow> bool" where
  "depicts message pg \<longleftrightarrow> js_get (js_get message ''payload'') ''url'' = JStr (pg_url pg) \<and>
     js_get (js_get message ''payload'') ''visible'' = JBool (pg_visible pg) \<and>
     js_get (js_get message ''payload'') ''composerAvailable'' = JBool (findComposer pg) \<and>
     js_get (js_get message ''payload'') ''turnBusy'' = JBool (isTurnBusy pg)"

lemma stable_text_page:
  "stable_text (page_snapshot pg time) =
     CHR 0x7B # json_quote ''url'' @ '':'' @ json_quote (pg_url pg) @ '','' @ json_quote ''visible'' @ '':'' @ (if pg_visible pg then ''true'' else ''false'') @
     '','' @ json_quote ''composerAvailable'' @ '':'' @ (if findComposer pg then ''true'' else ''false'') @
     '','' @ json_quote ''turnBusy'' @ '':'' @ (if isTurnBusy pg then ''true'' else ''false'') @ [CHR 0x7D]"
  by (simp add: stable_text_def page_snapshot_def)

lemma stable_text_inj:
  assumes "stable_text (page_snapshot pg t) = stable_text (page_snapshot pg' t')"
  shows "pg_url pg = pg_url pg' \<and> pg_visible pg = pg_visible pg' \<and> findComposer pg = findComposer pg' \<and> isTurnBusy pg = isTurnBusy pg'"
proof -
  from assms have "json_quote (pg_url pg) @ '','' @ json_quote ''visible'' @ '':'' @ (if pg_visible pg then ''true'' else ''false'') @
     '','' @ json_quote ''composerAvailable'' @ '':'' @ (if findComposer pg then ''true'' else ''false'') @
     '','' @ json_quote ''turnBusy'' @ '':'' @ (if isTurnBusy pg then ''true'' else ''false'') @ [CHR 0x7D] =
     json_quote (pg_url pg') @ '','' @ json_quote ''visible'' @ '':'' @ (if pg_visible pg' then ''true'' else ''false'') @
     '','' @ json_quote ''composerAvailable'' @ '':'' @ (if findComposer pg' then ''true'' else ''false'') @
     '','' @ json_quote ''turnBusy'' @ '':'' @ (if isTurnBusy pg' then ''true'' else ''false'') @ [CHR 0x7D]"
    unfolding stable_text_page by simp
  from json_quote_front [OF this] show ?thesis by (simp split: if_splits)
qed

definition content_ok :: "content \<Rightarrow> bool" where
  "content_ok s \<longleftrightarrow> ct_sent s \<noteq> [] \<and> (\<exists>pg time. last (ct_sent s) = status_message (page_snapshot pg time) \<and> ct_last s = stable_text (page_snapshot pg time))"

lemma depicts_snapshot: "depicts (status_message (page_snapshot pg time)) pg"
  by (simp add: depicts_def status_message_def page_snapshot_def)

lemma report_ok: "content_ok s \<or> force \<Longrightarrow> content_ok (report force pg time s) \<and> depicts (last (ct_sent (report force pg time s))) pg"
proof (cases "\<not> force \<and> stable_text (page_snapshot pg time) = ct_last s")
  case True
  assume "content_ok s \<or> force"
  then obtain pg' t' where s: "content_ok s" "last (ct_sent s) = status_message (page_snapshot pg' t')"
      "stable_text (page_snapshot pg time) = stable_text (page_snapshot pg' t')"
    using True by (auto simp: content_ok_def)
  then show ?thesis using True stable_text_inj [OF s(3)]
    by (simp add: report_def Let_def) (simp add: depicts_def status_message_def page_snapshot_def)
next
  case False
  then have r: "report force pg time s = s\<lparr>ct_last := stable_text (page_snapshot pg time), ct_sent := ct_sent s @ [status_message (page_snapshot pg time)]\<rparr>"
    by (auto simp: report_def Let_def)
  show ?thesis unfolding r by (auto simp: content_ok_def depicts_snapshot)
qed

lemma timer_ok: "content_ok (s\<lparr>ct_timer := b\<rparr>) = content_ok s"
  by (simp add: content_ok_def)

lemma content_step_ok: "content_ok s \<Longrightarrow> content_ok (content_step ev s)"
  by (cases ev) (auto simp: timer_ok intro: report_ok [THEN conjunct1])

lemma content_run_ok: "content_ok (content_run pg time evs)"
proof -
  have "content_ok s \<Longrightarrow> content_ok (fold content_step evs s)" for s
    by (induction evs arbitrary: s) (simp_all add: content_step_ok)
  then show ?thesis using report_ok [of fresh_content True pg time] by (simp add: content_run_def)
qed

text \<open>
  Whatever happened before, once a page was looked at on a timer, an event of the window or a probe,
  the last message sent shows that page: a report is left out only if it would repeat the last one.
\<close>

theorem last_report_depicts_page:
  "depicts (last (ct_sent (content_run pg0 t0 (evs @ [Periodic pg time])))) pg"
  "depicts (last (ct_sent (content_run pg0 t0 (evs @ [Window pg time])))) pg"
  "ct_timer (content_run pg0 t0 evs) \<Longrightarrow> depicts (last (ct_sent (content_run pg0 t0 (evs @ [Debounced pg time])))) pg"
  using report_ok [of "content_run pg0 t0 evs" _ pg time] report_ok [of "content_run pg0 t0 evs\<lparr>ct_timer := False\<rparr>" _ pg time]
    content_run_ok [of pg0 t0 evs]
  by (auto simp: content_run_def timer_ok)

text \<open>And the background script takes a report of a page of ChatGPT as a valid status.\<close>

lemma reported_status_valid:
  "chat_origin parse (pg_url pg) \<Longrightarrow> isValidChatGptPageStatus parse (page_snapshot pg time)"
  by (simp add: isValidChatGptPageStatus_def page_snapshot_def is_reference_def PROTOCOL_VERSION_def)

section \<open>The popup's local proof\<close>

text \<open>Where the click on "verify" is: nowhere, at the browser's permission prompt, or at the background script.\<close>

datatype proof_flow = Resting | Asking | Proving

text \<open>
  \<open>pp_policy\<close>: the policy loaded last; \<open>pp_reads\<close>: reads of chosen files that have not ended;
  \<open>pp_asked\<close>, \<open>pp_granted\<close>: the permission prompts opened and those that were granted;
  \<open>pp_sent\<close>: the messages for a local proof.
\<close>

record popup =
  pp_policy :: jsval
  pp_reads :: nat
  pp_flow :: proof_flow
  pp_disabled :: bool
  pp_feedback :: string
  pp_asked :: nat
  pp_granted :: nat
  pp_sent :: "jsval list"

definition fresh_popup :: popup where
  "fresh_popup = \<lparr>pp_policy = JNull, pp_reads = 0, pp_flow = Resting, pp_disabled = False, pp_feedback = [], pp_asked = 0, pp_granted = 0, pp_sent = []\<rparr>"

text \<open>The sizes of the files chosen.\<close>

definition policy_chosen :: "int list \<Rightarrow> popup \<Rightarrow> popup" where
  "policy_chosen sizes s =
     (case sizes of
        [n] \<Rightarrow> if n < 8 \<or> 4096 < n
          then s\<lparr>pp_policy := JNull, pp_feedback := ''Select one owner-reviewed local policy JSON (max 4096 bytes).''\<rparr>
          else s\<lparr>pp_policy := JNull, pp_reads := Suc (pp_reads s)\<rparr>
      | _ \<Rightarrow> s\<lparr>pp_policy := JNull, pp_feedback := ''Select one owner-reviewed local policy JSON (max 4096 bytes).''\<rparr>)"

text \<open>A read ends with a JSON value, or fails to be read or parsed.\<close>

definition policy_read :: "jsval option \<Rightarrow> popup \<Rightarrow> popup" where
  "policy_read parsed s =
     (if pp_reads s = 0 then s
      else case parsed of
        Some (JObj kvs) \<Rightarrow> s\<lparr>pp_reads := pp_reads s - 1, pp_policy := JObj kvs,
          pp_feedback := ''Local policy loaded. Verify its scope before consenting.''\<rparr>
      | _ \<Rightarrow> s\<lparr>pp_reads := pp_reads s - 1, pp_feedback := ''Owner policy unreadable or invalid.''\<rparr>)"

text \<open>The ellipsis that ends the feedback, U+2026, is not among the characters of the model.\<close>

definition verify_clicked :: "popup \<Rightarrow> popup" where
  "verify_clicked s =
     (if pp_disabled s then s
      else if pp_policy s = JNull then s\<lparr>pp_feedback := ''Select the owner-reviewed local policy first.''\<rparr>
      else s\<lparr>pp_disabled := True, pp_feedback := ''Requesting optional local nativeMessaging permission'',
        pp_flow := Asking, pp_asked := Suc (pp_asked s)\<rparr>)"

definition flow_ended :: "string \<Rightarrow> popup \<Rightarrow> popup" where
  "flow_ended feedback s = s\<lparr>pp_feedback := feedback, pp_flow := Resting, pp_policy := JNull, pp_disabled := False\<rparr>"

definition proof_request :: "jsval \<Rightarrow> jsval" where
  "proof_request policy = JObj [(''type'', JStr ''bke.native.local.proof''), (''policy'', policy)]"

text \<open>The prompt's answer: a value, or a rejection.\<close>

definition prompt_answered :: "jsval option \<Rightarrow> popup \<Rightarrow> popup" where
  "prompt_answered answer s =
     (if pp_flow s \<noteq> Asking then s
      else case answer of
        None \<Rightarrow> flow_ended ''Native permission or local proof unavailable.'' s
      | Some granted \<Rightarrow>
          if granted \<noteq> JBool True then flow_ended ''Native permission declined. No connection attempted.'' s
          else s\<lparr>pp_flow := Proving, pp_granted := Suc (pp_granted s), pp_sent := pp_sent s @ [proof_request (pp_policy s)]\<rparr>)"

definition proof_verified :: "jsval \<Rightarrow> bool" where
  "proof_verified r \<longleftrightarrow> js_eq (js_get r ''state'') (JStr ''LOCAL_PROOF_OK'') \<and> js_eq (js_get r ''admission_authority'') (JStr ''NONE'') \<and>
     js_eq (js_get r ''dispatch_authority'') (JStr ''NONE'')"

text \<open>\<open>feedback.textContent\<close> of a value that is null or undefined is empty.\<close>

definition proof_feedback :: "jsval \<Rightarrow> string" where
  "proof_feedback r =
     (if proof_verified r then ''Verified local signed key-possession proof. Controller, GitHub and send remain disabled.''
      else case js_get r ''code'' of JUndef \<Rightarrow> ''Native proof blocked or uncertain. No retry was performed.''
        | JNull \<Rightarrow> ''Native proof blocked or uncertain. No retry was performed.'' | c \<Rightarrow> js_string c)"

definition proof_answered :: "jsval option \<Rightarrow> popup \<Rightarrow> popup" where
  "proof_answered answer s =
     (if pp_flow s \<noteq> Proving then s
      else case answer of
        None \<Rightarrow> flow_ended ''Native permission or local proof unavailable.'' s
      | Some r \<Rightarrow> flow_ended (proof_feedback r) s)"

datatype popup_event = Chosen "int list" | FileRead "jsval option" | Clicked | Prompted "jsval option" | Answered "jsval option"

fun popup_step :: "popup_event \<Rightarrow> popup \<Rightarrow> popup" where
  "popup_step (Chosen sizes) s = policy_chosen sizes s"
| "popup_step (FileRead parsed) s = policy_read parsed s"
| "popup_step Clicked s = verify_clicked s"
| "popup_step (Prompted answer) s = prompt_answered answer s"
| "popup_step (Answered answer) s = proof_answered answer s"

text \<open>
  The popup asks for the permission only at a click, never twice at a time, and asks for a proof
  only after a grant, once for each; what it sends as the policy is null or an object.
\<close>

definition policy_or_null :: "jsval \<Rightarrow> bool" where "policy_or_null v \<longleftrightarrow> v = JNull \<or> is_object v"

definition popup_ok :: "popup \<Rightarrow> bool" where
  "popup_ok s \<longleftrightarrow> policy_or_null (pp_policy s) \<and> (pp_disabled s \<longleftrightarrow> pp_flow s \<noteq> Resting) \<and>
     length (pp_sent s) = pp_granted s \<and> pp_granted s + (if pp_flow s = Asking then 1 else 0) \<le> pp_asked s \<and>
     list_all (\<lambda>m. \<exists>p. policy_or_null p \<and> m = proof_request p) (pp_sent s)"

lemma popup_step_ok: "popup_ok s \<Longrightarrow> popup_ok (popup_step ev s)"
  by (cases ev)
    (auto simp: popup_ok_def policy_or_null_def policy_chosen_def policy_read_def verify_clicked_def prompt_answered_def proof_answered_def flow_ended_def
      split: list.split option.split jsval.split if_splits)

lemma popup_run_ok: "popup_ok (fold popup_step evs fresh_popup)"
proof -
  have "popup_ok s \<Longrightarrow> popup_ok (fold popup_step evs s)" for s
    by (induction evs arbitrary: s) (simp_all add: popup_step_ok)
  moreover have "popup_ok fresh_popup" by (simp add: popup_ok_def fresh_popup_def policy_or_null_def)
  ultimately show ?thesis by blast
qed

text \<open>
  Two files chosen one after the other may be read in either order: the first one's policy, read last,
  stays although the popup shows the second file.
\<close>

lemma earlier_file_wins:
  "pp_policy (fold popup_step [Chosen [100], Chosen [200], FileRead (Some (JObj second)), FileRead (Some (JObj first))] fresh_popup) = JObj first"
  by (simp add: policy_chosen_def policy_read_def fresh_popup_def)

text \<open>Nor is the file locked while the permission is asked: the policy sent is the one loaded by then.\<close>

lemma policy_replaced_at_prompt:
  "pp_sent (fold popup_step [Chosen [100], FileRead (Some (JObj clicked)), Clicked, Chosen [200], FileRead (Some (JObj later)), Prompted (Some (JBool True))] fresh_popup) =
     [proof_request (JObj later)]"
  by (simp add: policy_chosen_def policy_read_def verify_clicked_def prompt_answered_def fresh_popup_def)

section \<open>What the popup shows\<close>

definition chat_state :: "jsval \<Rightarrow> string" where
  "chat_state chat =
     (if \<not> truthy chat then ''NOT SEEN''
      else if \<not> truthy (js_get chat ''composerAvailable'') then ''NO COMPOSER''
      else if truthy (js_get chat ''turnBusy'') then ''BUSY'' else ''READY'')"

definition identity_lines :: "jsval \<Rightarrow> (string \<times> string) list" where
  "identity_lines identity =
     (let made = js_eq (js_get identity ''state'') (JStr ''PROVISIONED'') in
      (''Device identity'', if made then ''LOCAL KEY READY (UNPAIRED)''
         else if js_eq (js_get identity ''state'') (JStr ''NOT_PROVISIONED'') then ''NOT CREATED'' else ''BLOCKED'') #
      (if made then [(''Key SHA-256'', js_string (js_get identity ''public_key_sha256''))] else []))"

text \<open>\<open>local_time\<close> is \<open>toLocaleTimeString\<close> of the observation's time; the dash is U+2014.\<close>

definition status_lines :: "(jsval \<Rightarrow> string) \<Rightarrow> string \<Rightarrow> jsval \<Rightarrow> jsval \<Rightarrow> (string \<times> string) list" where
  "status_lines local_time dash current identity =
     (let chat = js_get current ''chatGpt'' in
      [(''Protocol'', js_string (js_get current ''protocolVersion''))] @ identity_lines identity @
      [(''Bridge'', js_string (js_get current ''connectionState'')), (''ChatGPT'', chat_state chat),
       (''Visible'', if truthy chat then js_string (js_get chat ''visible'') else dash),
       (''Observed'', if truthy chat then local_time (js_get chat ''observedAt'') else dash)])"

text \<open>The popup says that a page is ready exactly when the last report showed a composer and no running turn.\<close>

lemma popup_shows_report: "chat_state (page_snapshot pg time) = ''READY'' \<longleftrightarrow> findComposer pg \<and> \<not> isTurnBusy pg"
  by (simp add: chat_state_def page_snapshot_def)

end
