(* ===== verification/Spec2Isabelle.thy ===== *)
theory Spec2Isabelle imports RetirementInspection FreshAttemptGate SendOnceClaim TargetBinding DeviceIdentity AdminBroker GitHubApp
  ReadinessPolicy WorkerProbe ServiceWorkerRevocation PeerAttestor AdminActivation ParentProvenance InstallationWitness ExtensionPages
begin

text \<open>
  A verification library of the JavaScript and TypeScript parts of BKE Worker: the relay that wakes
  workers, the browser extension and its native host, and the checks an operator runs around them.
  All paths below are under src/.

  The program. GitHub calls the relay (cloudflare-relay/src) when something happens to a pull request
  of a control repository. The relay verifies the webhook, decides which worker the pull request
  belongs to, and gives a wake to that worker's session object, which delivers it over the worker's one
  authoritative socket, records what it sent, and lets at most one wake be in flight. The relay is also a
  GitHub App: it mints tokens, and answers the command center's read-only questions about
  repositories and assignments. The browser extension (browser-extension/src) binds one ChatGPT tab
  the owner has selected, holds a device key, and proves possession of it to a native host
  (browser-extension/native-host) under a policy the owner has reviewed; gates decide when a
  first message could be sent and that it is sent once. On Android a probe script
  (android-gecko/.../worker-probe.js) enters prompts. Scripts check a desktop's readiness, the installed host and the
  process that started it, and activate the Admin broker.

  \<^bold>\<open>Language.\<close> BKE_Prelude (characters, how a number prints, list facts), JsValue (untyped values, property
  reads, strict equality, conversions), Base64, JsonText and JsonFacts (JSON.stringify and reading its texts
  back), IsoTime (timestamps), Gate (the frozen objects of the gates; its locale \<open>negative_block\<close>, "a result
  grants no authority", is interpreted for every gate), Script (programs that ask the outside).
  Strings keep the code units below 256, integers are unbounded with the safe range tested where
  the code tests it, fractions and the special numbers are constructors of \<open>jsval\<close>.

  \<^bold>\<open>Relay.\<close> RelayProtocol (protocol.js: validators, routing, recovery), RelayCredentials (tokens, webhook
  signatures, relay-credential-v2.js), WorkerSession (index.js, the class WorkerSession: the durable
  object's storage and sockets are the record \<open>session\<close>, each handler a function on it), WorkerSessionRuns
  (what holds of any sequence of its requests and events; the locale \<open>delivery_log\<close> is the contract of the log of delivered IDs),
  RelayHttp (index.js in front of the objects), RetirementFence and RetirementInspection (the dormant
  retirement modules relay-retirement-*.js, relay-socket-membership-witness.js,
  relay-owner-*.js), AssignmentInventory and AdminBroker (admin-*.js), GitHubApp (github-app.js).
  Main facts: a wake with a given delivery ID is sent at most once (the IDs a recovery makes up excepted, should
  recovery ever run), only to the authoritative socket;
  storage stays well formed; a routed wake is valid; credentials are issued ones; a fence blocks what it
  lists; an inventory that is returned is complete against GitHub's own answers and passes every check of the
  broker.

  \<^bold>\<open>Extension.\<close> ExtensionBase and ExtensionProtocol (protocol.ts), BootstrapFence and FreshAttemptGate (the first
  message), SendOnceClaim (send-once-claim.ts and its GitHub adapter: any number of callers over one
  store refine a one-shot ledger, the locale \<open>one_shot\<close>), TargetBinding (target-binding.ts, each operation cut
  at its awaits and interleaved with browser events), DeviceIdentity (device-identity.ts), NativeProofClient
  (native-proof-client.ts), ServiceWorker (service-worker.ts: the record \<open>bridge\<close> and a step for
  every message, event and answer), ServiceWorkerRuns, ServiceWorkerProof and ServiceWorkerRevocation (who can bring what about, what a
  reported proof means, and what ends a selection and its proofs), ExtensionPages (content-script.ts and popup.ts), WorkerProbe (worker-probe.js).

  \<^bold>\<open>Native host.\<close> NativePolicy (the owner's policy, as the host and the popup test it), NativeFraming (framing.mjs),
  NativeHost (host.mjs, entry.mjs), PeerAttestor (private-peer-attestor.mjs), HostFiles,
  ParentProvenance (linux-parent-provenance.mjs) and InstallationWitness (installation-witness.mjs). Main facts:
  messages survive any chunking; a proof is bound to its session; the device key signs no message
  twice; a matched parent is one process with the pinned bytes; an installation that is verified is the
  reviewed one.

  \<^bold>\<open>Operations.\<close> ReadinessPolicy (scripts/forge-f1-readiness-policy.mjs under browser-extension) and AdminActivation
  (scripts/admin_preproduction_activation.mjs): a desktop is ready exactly when every demand is met; the
  activation changes its targets in one order, each command only after all before it succeeded, and what it
  reports at the end is true.

  \<^bold>\<open>How time and concurrency are modelled.\<close> A function with awaits is cut there: the state keeps what the
  rest needs, and a step carries the answer. Runs are lists of such steps in any order, so every
  interleaving of calls, answers and events is covered. Scripts that run alone (AdminActivation,
  ParentProvenance, InstallationWitness) are functions of an outside whose answer may depend on
  everything asked before; nothing is assumed to stay as it was between two requests.
  \<open>Promise.all\<close> makes its requests in order, and its first failure in order stands for the first in time.

  \<^bold>\<open>Bounds.\<close> They are the code's: 64 entries in the delivery log (the at-most-once theorem is for runs of at
  most 64 dispatches, which is where the log cannot forget), five requests of one claim, 65536 bytes
  of a snapshot, two frames of 16384 bytes and their headers in the channel, 100 nonces of a
  device, five pages of a catalog, forty queries of an inventory, a binary of 512 MB. Loops are structural or end by
  a measure; where the code counts its turns, so does the recursion, and there is no other fuel.

  \<^bold>\<open>Assumptions.\<close> Cryptography, random values, \<open>new URL\<close>, \<open>Date.parse\<close> on free texts, \<open>localeCompare\<close>,
  \<open>JSON.parse\<close> and the platform's stores are parameters. Where a theorem needs more of one of them, it is a
  hypothesis with a witness, such as a parser that reads back what was printed, or a clock that does not
  go back (\<open>clock_forward\<close>; the lemma \<open>clock_set_back_resigns\<close> shows that the bound on reused nonces
  needs it).

  \<^bold>\<open>What the model showed.\<close> The session's recovery calls a function the module does not import
  (\<open>recover_unbound_throws\<close>), the recovery endpoint is always refused (RelayHttp), a wake of
  a second repository can be dropped (\<open>cross_repository_wake_dropped\<close>), the two tests of the owner's
  policy differ on an array (\<open>array_pin_divergence\<close>), a minted read token is not tested where a comment says so
  (\<open>read_token_passes_broker\<close>), the probe can swap prompts (\<open>interleaved_dispatch_swaps_prompts\<close>), lose the
  result of a prompt it has sent (\<open>lost_result_still_clicks\<close>) and drop a new port (\<open>late_disconnect_drops_new_port\<close>), and the popup can keep the policy of a file that is no longer chosen
  (\<open>earlier_file_wins\<close>).

  \<^bold>\<open>Not modelled.\<close> DOM nodes, layout and the texts logged; the popup's buttons that only send one message and
  show its answer; the smoke and packaging scripts (run-desktop-native-smoke.mjs, validate-manifest.mjs) and
  the relay's two deployment helpers, which hold no logic of their own; and the parts in other
  languages: the C# desktop worker, the Kotlin application, and the Python and shell tools.
\<close>

end
